(* ===== verification/Prelude.thy ===== *)
theory Prelude
  imports Complex_Main "HOL-Library.Word" "HOL-Library.Char_ord"
begin

text \<open>
  The shared base of the development: the theorem collections the component theories
  fill, the result type every fallible Go function is translated to, and the generic
  lemmas on lists and maps that more than one component needs.

  A Go function that returns \<open>(T, error)\<close> becomes a function into \<open>'e + 't\<close>:
  \<open>Inl\<close> carries the error, \<open>Inr\<close> the value.  Bytes are \<open>8 word\<close>, fixed-width unsigned
  integers are words, and the strings of Go (byte sequences) are Isabelle strings, whose
  characters are bytes.
\<close>

named_theorems valid_simps \<open>unfolding rules of the validation predicates\<close>
named_theorems result_elims \<open>inversion of fallible operations that succeeded\<close>
named_theorems inv_intros \<open>preservation of the components' invariants\<close>

type_synonym byte = "8 word"
type_synonym u16 = "16 word"
type_synonym u32 = "32 word"
type_synonym u64 = "64 word"
type_synonym ('e, 'a) result = "'e + 'a"

section \<open>Results\<close>

definition isOk :: "('e, 'a) result \<Rightarrow> bool" where
  "isOk r = (case r of Inl _ \<Rightarrow> False | Inr _ \<Rightarrow> True)"

lemma isOk_simps [simp]: "isOk (Inl e) = False" "isOk (Inr a) = True"
  by (simp_all add: isOk_def)

lemma isOk_iff: "isOk r \<longleftrightarrow> (\<exists>a. r = Inr a)"
  by (cases r) simp_all

text \<open>A Go statement \<open>if cond { return err }\<close> followed by the rest of the function.\<close>

definition guard :: "bool \<Rightarrow> 'e \<Rightarrow> ('e, 'a) result \<Rightarrow> ('e, 'a) result" where
  "guard bad e rest = (if bad then Inl e else rest)"

lemma guard_Inr [simp]: "guard bad e rest = Inr a \<longleftrightarrow> \<not> bad \<and> rest = Inr a"
  by (simp add: guard_def)

lemma guard_True [simp]: "guard True e rest = Inl e"
  by (simp add: guard_def)

lemma guard_False [simp]: "guard False e rest = rest"
  by (simp add: guard_def)

lemma guard_isOk [simp]: "isOk (guard bad e rest) \<longleftrightarrow> \<not> bad \<and> isOk rest"
  by (simp add: guard_def)

section \<open>Lists\<close>

lemma dropWhile_length_le: "length (dropWhile P xs) \<le> length xs"
  by (induction xs) auto

lemma takeWhile_length_le: "length (takeWhile P xs) \<le> length xs"
  by (induction xs) auto

lemma dropWhile_append_stop:
  "\<forall>x \<in> set xs. P x \<Longrightarrow> ys \<noteq> [] \<Longrightarrow> \<not> P (hd ys) \<Longrightarrow> dropWhile P (xs @ ys) = ys"
  by (induction xs) (auto simp: neq_Nil_conv)

lemma takeWhile_append_stop:
  "\<forall>x \<in> set xs. P x \<Longrightarrow> ys \<noteq> [] \<Longrightarrow> \<not> P (hd ys) \<Longrightarrow> takeWhile P (xs @ ys) = xs"
  by (induction xs) (auto simp: neq_Nil_conv)

lemma dropWhile_all [simp]: "\<forall>x \<in> set xs. P x \<Longrightarrow> dropWhile P xs = []"
  by simp

lemma distinct_tl_snoc: "distinct xs \<Longrightarrow> x \<notin> set xs \<Longrightarrow> distinct (tl xs @ [x])"
  by (cases xs) auto

lemma set_take_subset_iff: "(\<forall>x \<in> set xs. P x) \<Longrightarrow> (\<forall>x \<in> set (take n xs). P x)"
  by (meson in_set_takeD)

text \<open>\<open>upd_nth\<close> writes the element a Go loop holds a pointer to.\<close>

definition upd_nth :: "'a list \<Rightarrow> nat \<Rightarrow> ('a \<Rightarrow> 'a) \<Rightarrow> 'a list" where
  "upd_nth xs i f = (if i < length xs then xs[i := f (xs ! i)] else xs)"

lemma length_upd_nth [simp]: "length (upd_nth xs i f) = length xs"
  by (simp add: upd_nth_def)

lemma nth_upd_nth: "j < length xs \<Longrightarrow> upd_nth xs i f ! j = (if j = i then f (xs ! j) else xs ! j)"
  by (simp add: upd_nth_def)

lemma map_upd_nth_inert: "(\<And>x. g (f x) = g x) \<Longrightarrow> map g (upd_nth xs i f) = map g xs"
  by (auto simp: upd_nth_def intro!: nth_equalityI simp: nth_list_update)

section \<open>Maps\<close>

lemma map_of_append_fresh: "k \<notin> fst ` set xs \<Longrightarrow> map_of (xs @ [(k, v)]) = (map_of xs)(k \<mapsto> v)"
  by (auto simp: map_add_def fun_eq_iff split: option.splits) (metis fst_conv image_eqI map_of_SomeD)

lemma dom_map_of_eq: "dom (map_of xs) = fst ` set xs"
  by (rule dom_map_of_conv_image_fst)

end
