(* ===== verification/GoStrings.thy ===== *)
theory GoStrings
  imports Prelude
begin

text \<open>
  The part of Go's string library the gateway uses.  A Go string is a byte sequence; it is
  modelled as an Isabelle string, one character per byte.  \<open>range\<close> over a string decodes
  UTF-8: \<open>segments\<close> cuts the bytes into the runes that loop visits, each with its code
  point; an invalid byte is the replacement rune \<open>0xFFFD\<close> of width one, as in
  \<open>unicode/utf8\<close>.  \<open>trim_space\<close>, \<open>fields\<close> and \<open>to_lower\<close> work on these segments.
  \<open>to_lower\<close> maps the ASCII letters and the two other runes whose lower case is ASCII
  (U+0130 and U+212A); the program compares its results with ASCII text only, so the
  case of the remaining runes is left as it is.
\<close>

section \<open>Bytes and UTF-8\<close>

definition cbyte :: "char \<Rightarrow> nat" where
  "cbyte c = of_char c"

lemma cbyte_less: "cbyte c < 256"
  by (simp add: cbyte_def)

lemma cbyte_inject [simp]: "cbyte c = cbyte d \<longleftrightarrow> c = d"
  by (simp add: cbyte_def of_char_eq_iff)

definition in_range :: "nat \<Rightarrow> nat \<Rightarrow> char \<Rightarrow> bool" where
  "in_range lo hi c \<longleftrightarrow> lo \<le> cbyte c \<and> cbyte c \<le> hi"

definition ascii :: "char \<Rightarrow> bool" where
  "ascii c \<longleftrightarrow> cbyte c < 128"

text \<open>The bounds of the second byte of a multi-byte rune, by its first byte.\<close>

definition second_bounds :: "nat \<Rightarrow> nat \<times> nat" where
  "second_bounds b =
     (if b = 0xE0 then (0xA0, 0xBF) else if b = 0xED then (0x80, 0x9F)
      else if b = 0xF0 then (0x90, 0xBF) else if b = 0xF4 then (0x80, 0x8F) else (0x80, 0xBF))"

definition lead_len :: "nat \<Rightarrow> nat" where
  "lead_len b =
     (if b < 0x80 then 1 else if 0xC2 \<le> b \<and> b \<le> 0xDF then 2
      else if 0xE0 \<le> b \<and> b \<le> 0xEF then 3 else if 0xF0 \<le> b \<and> b \<le> 0xF4 then 4 else 0)"

text \<open>The width of the first rune, 0 where the bytes are not valid UTF-8.\<close>

fun rune_width :: "string \<Rightarrow> nat" where
  "rune_width [] = 0"
| "rune_width (c # cs) =
     (let n = lead_len (cbyte c); (lo, hi) = second_bounds (cbyte c)
      in if n \<le> 1 then n
         else if length cs < n - 1 then 0
         else if in_range lo hi (cs ! 0) \<and> list_all (in_range 0x80 0xBF) (take (n - 2) (drop 1 cs))
         then n else 0)"

fun tail_value :: "nat \<Rightarrow> string \<Rightarrow> nat" where
  "tail_value acc [] = acc"
| "tail_value acc (c # cs) = tail_value (acc * 64 + cbyte c mod 64) cs"

definition rune_value :: "string \<Rightarrow> nat" where
  "rune_value seg =
     (case seg of [] \<Rightarrow> 0 | c # cs \<Rightarrow>
        tail_value (if cs = [] then cbyte c
                    else if length cs = 1 then cbyte c mod 32
                    else if length cs = 2 then cbyte c mod 16 else cbyte c mod 8) cs)"

definition rune_error :: nat where
  "rune_error = 0xFFFD"

lemma rune_width_le: "rune_width s \<le> length s"
  by (cases s) (auto simp: Let_def lead_len_def neq_Nil_conv split: prod.splits)

text \<open>The runes of a string with their bytes, in the order a \<open>range\<close> loop visits them.\<close>

function segments :: "string \<Rightarrow> (nat \<times> string) list" where
  "segments [] = []"
| "segments (c # cs) =
     (let n = rune_width (c # cs)
      in if n = 0 then (rune_error, [c]) # segments cs
         else (rune_value (take n (c # cs)), take n (c # cs)) # segments (drop n (c # cs)))"
  by pat_completeness auto
termination
  by (relation "measure length") auto

declare segments.simps(2) [simp del]

definition runes :: "string \<Rightarrow> nat list" where
  "runes s = map fst (segments s)"

function valid_utf8 :: "string \<Rightarrow> bool" where
  "valid_utf8 [] = True"
| "valid_utf8 (c # cs) =
     (let n = rune_width (c # cs) in if n = 0 then False else valid_utf8 (drop n (c # cs)))"
  by pat_completeness auto
termination
  by (relation "measure length") auto

declare valid_utf8.simps(2) [simp del]

lemma rune_width_ascii [simp]: "ascii c \<Longrightarrow> rune_width (c # cs) = 1"
  by (simp add: ascii_def lead_len_def split: prod.splits)

lemma segments_ascii [simp]: "ascii c \<Longrightarrow> segments (c # cs) = (cbyte c, [c]) # segments cs"
  by (simp add: segments.simps(2) Let_def rune_value_def del: rune_width.simps)

lemma valid_utf8_ascii [simp]: "ascii c \<Longrightarrow> valid_utf8 (c # cs) = valid_utf8 cs"
  by (simp add: valid_utf8.simps(2) Let_def del: rune_width.simps)

lemma valid_utf8_all_ascii: "list_all ascii s \<Longrightarrow> valid_utf8 s"
  by (induction s) simp_all

lemma segments_all_ascii: "list_all ascii s \<Longrightarrow> segments s = map (\<lambda>c. (cbyte c, [c])) s"
  by (induction s) simp_all

lemma concat_segments: "concat (map snd (segments s)) = s"
proof (induction s rule: segments.induct)
  case (2 c cs)
  show ?case
  proof (cases "rune_width (c # cs) = 0")
    case True
    with "2.IH"(1) show ?thesis by (simp add: segments.simps(2) del: rune_width.simps)
  next
    case False
    with "2.IH"(2) show ?thesis
      by (simp add: segments.simps(2) Let_def del: rune_width.simps drop_Cons' take_Cons')
  qed
qed simp

text \<open>
  A multi-byte rune has no ASCII byte and a code point beyond ASCII: so a test on runes
  that treats all of them alike is the same test on bytes.
\<close>

lemma rune_width_multi:
  assumes "\<not> ascii c" and "rune_width (c # cs) = n" and "n \<noteq> 0"
  shows "list_all (\<lambda>d. \<not> ascii d) (take n (c # cs))"
proof -
  have "\<not> ascii d" if "in_range lo hi d" "128 \<le> lo" for lo hi d
    using that by (simp add: in_range_def ascii_def)
  moreover obtain d ds where "cs = d # ds"
    using assms by (cases cs) (auto simp: lead_len_def ascii_def split: if_splits prod.splits)
  ultimately show ?thesis
    using assms
    by (auto simp: Let_def second_bounds_def lead_len_def list_all_iff take_Cons'
             split: if_splits)
qed

lemma tail_value_mono: "acc \<le> tail_value acc cs"
proof (induction cs arbitrary: acc)
  case (Cons c cs)
  have "acc \<le> acc * 64 + cbyte c mod 64" by simp
  also have "\<dots> \<le> tail_value (acc * 64 + cbyte c mod 64) cs" by (rule Cons.IH)
  finally show ?case by simp
qed simp

lemma mod_lower:
  "194 \<le> n \<Longrightarrow> n \<le> 223 \<Longrightarrow> 2 \<le> n mod (32::nat)"
  "225 \<le> n \<Longrightarrow> n \<le> 239 \<Longrightarrow> 1 \<le> n mod (16::nat)"
  "241 \<le> n \<Longrightarrow> n \<le> 244 \<Longrightarrow> 1 \<le> n mod (8::nat)"
  "160 \<le> n \<Longrightarrow> n \<le> 191 \<Longrightarrow> 32 \<le> n mod (64::nat)"
  "144 \<le> n \<Longrightarrow> n \<le> 191 \<Longrightarrow> 16 \<le> n mod (64::nat)"
proof -
  have m: "n mod k = n - k * q" if "k * q \<le> n" "n < k * Suc q" for k q
    using that div_nat_eqI [of k q n] by (metis minus_mult_div_eq_mod)
  show "194 \<le> n \<Longrightarrow> n \<le> 223 \<Longrightarrow> 2 \<le> n mod (32::nat)" using m [of 32 6] by simp
  show "225 \<le> n \<Longrightarrow> n \<le> 239 \<Longrightarrow> 1 \<le> n mod (16::nat)" using m [of 16 14] by simp
  show "241 \<le> n \<Longrightarrow> n \<le> 244 \<Longrightarrow> 1 \<le> n mod (8::nat)" using m [of 8 30] by simp
  show "160 \<le> n \<Longrightarrow> n \<le> 191 \<Longrightarrow> 32 \<le> n mod (64::nat)" using m [of 64 2] by simp
  show "144 \<le> n \<Longrightarrow> n \<le> 191 \<Longrightarrow> 16 \<le> n mod (64::nat)" using m [of 64 2] by simp
qed

lemma rune_value_multi:
  assumes "\<not> ascii c" and n: "rune_width (c # cs) = n" and "n \<noteq> 0"
  shows "128 \<le> rune_value (take n (c # cs))"
proof -
  have nb: "\<not> cbyte c < 128" using assms(1) by (simp add: ascii_def)
  obtain d ds where cs: "cs = d # ds"
    using assms by (cases cs) (auto simp: lead_len_def ascii_def split: if_splits prod.splits)
  consider "n = 2" "194 \<le> cbyte c" "cbyte c \<le> 223"
    | "n = 3" "cbyte c = 224" "160 \<le> cbyte d" "cbyte d \<le> 191" "ds \<noteq> []"
    | "n = 3" "225 \<le> cbyte c" "cbyte c \<le> 239" "ds \<noteq> []"
    | "n = 4" "cbyte c = 240" "144 \<le> cbyte d" "cbyte d \<le> 191" "\<not> length ds < 2"
    | "n = 4" "241 \<le> cbyte c" "cbyte c \<le> 244" "\<not> length ds < 2"
    using n \<open>n \<noteq> 0\<close> nb cs
    by (auto simp: Let_def second_bounds_def lead_len_def in_range_def split: if_splits)
  then show ?thesis
  proof cases
    case 1
    then show ?thesis using cs mod_lower(1) [of "cbyte c"] by (simp add: rune_value_def)
  next
    case 2
    then obtain e es where ds: "ds = e # es" by (cases ds) auto
    show ?thesis using 2 cs ds mod_lower(4) [of "cbyte d"] by (simp add: rune_value_def)
  next
    case 3
    then obtain e es where ds: "ds = e # es" by (cases ds) auto
    show ?thesis using 3 cs ds mod_lower(2) [of "cbyte c"] by (simp add: rune_value_def)
  next
    case 4
    then obtain e f es where ds: "ds = e # f # es" by (cases ds; cases "tl ds") auto
    show ?thesis using 4 cs ds mod_lower(5) [of "cbyte d"] by (simp add: rune_value_def)
  next
    case 5
    then obtain e f es where ds: "ds = e # f # es" by (cases ds; cases "tl ds") auto
    show ?thesis using 5 cs ds mod_lower(3) [of "cbyte c"] by (simp add: rune_value_def)
  qed
qed

lemma segments_cons_multi:
  assumes "\<not> ascii c"
  obtains r bs rest where "segments (c # cs) = (r, bs) # segments rest" "c # cs = bs @ rest"
    "128 \<le> r" "bs \<noteq> []" "list_all (\<lambda>d. \<not> ascii d) bs"
proof (cases "rune_width (c # cs) = 0")
  case True
  then have "segments (c # cs) = (rune_error, [c]) # segments cs"
    by (simp add: segments.simps(2) del: rune_width.simps)
  with assms show ?thesis by (intro that [of rune_error "[c]" cs]) (simp_all add: rune_error_def)
next
  case False
  let ?n = "rune_width (c # cs)"
  have "segments (c # cs) = (rune_value (take ?n (c # cs)), take ?n (c # cs)) # segments (drop ?n (c # cs))"
    using False by (simp add: segments.simps(2) Let_def del: rune_width.simps)
  then show ?thesis
    using False rune_value_multi [OF assms refl False] rune_width_multi [OF assms refl False]
    by (intro that [of _ "take ?n (c # cs)" "drop ?n (c # cs)"])
       (simp_all del: rune_width.simps)
qed

lemma runes_induct [case_names Nil Ascii Multi]:
  assumes "P []"
    and "\<And>c cs. ascii c \<Longrightarrow> P cs \<Longrightarrow> P (c # cs)"
    and "\<And>c cs r bs rest. \<not> ascii c \<Longrightarrow> segments (c # cs) = (r, bs) # segments rest \<Longrightarrow>
           c # cs = bs @ rest \<Longrightarrow> 128 \<le> r \<Longrightarrow> bs \<noteq> [] \<Longrightarrow> list_all (\<lambda>d. \<not> ascii d) bs \<Longrightarrow>
           P rest \<Longrightarrow> P (c # cs)"
  shows "P s"
proof (induction s rule: length_induct)
  case (1 s)
  show ?case
  proof (cases s)
    case (Cons c cs)
    show ?thesis
    proof (cases "ascii c")
      case True
      with 1 Cons assms(2) show ?thesis by simp
    next
      case False
      then obtain r bs rest where *: "segments (c # cs) = (r, bs) # segments rest"
          "c # cs = bs @ rest" "128 \<le> r" "bs \<noteq> []" "list_all (\<lambda>d. \<not> ascii d) bs"
        by (rule segments_cons_multi)
      then have "length rest < length s"
        using Cons by (metis length_append length_greater_0_conv less_add_same_cancel2)
      with 1 have "P rest" by blast
      with * False assms(3) Cons show ?thesis by blast
    qed
  qed (use assms(1) in simp)
qed

lemma runes_accepting:
  assumes "\<And>r. 128 \<le> r \<Longrightarrow> P r"
  shows "list_all P (runes s) \<longleftrightarrow> list_all (\<lambda>c. P (cbyte c)) s"
proof (induction s rule: runes_induct)
  case (Multi c cs r bs rest)
  have "list_all (\<lambda>c. P (cbyte c)) bs"
    using Multi(6) assms by (auto simp: list_all_iff ascii_def)
  with Multi assms show ?case by (simp add: runes_def)
qed (simp_all add: runes_def)

lemma runes_rejecting:
  assumes "\<And>r. 128 \<le> r \<Longrightarrow> \<not> P r"
  shows "list_all P (runes s) \<longleftrightarrow> list_all (\<lambda>c. P (cbyte c)) s"
proof (induction s rule: runes_induct)
  case (Multi c cs r bs rest)
  have "\<not> list_all (\<lambda>c. P (cbyte c)) bs"
    using Multi(5,6) assms by (cases bs) (auto simp: list_all_iff ascii_def)
  with Multi assms show ?case by (simp add: runes_def)
qed (simp_all add: runes_def)

end
