(* ===== verification/GoText.thy ===== *)
theory GoText
  imports GoStrings
begin

text \<open>
  The functions of Go's \<open>strings\<close>, \<open>encoding/hex\<close> and \<open>strconv\<close> packages that the
  gateway calls, on the strings of \<open>GoStrings\<close>, with the lemmas the validators rest on:
  the hexadecimal round trip, the lengths of trimmed and cut texts, and the equivalence of
  rune-wise and byte-wise tests.
\<close>

section \<open>White space and case\<close>

definition is_space :: "nat \<Rightarrow> bool" where
  "is_space r \<longleftrightarrow>
     9 \<le> r \<and> r \<le> 13 \<or> r = 32 \<or> r = 0x85 \<or> r = 0xA0 \<or> r = 0x1680 \<or>
     0x2000 \<le> r \<and> r \<le> 0x200A \<or> r = 0x2028 \<or> r = 0x2029 \<or> r = 0x202F \<or> r = 0x205F \<or> r = 0x3000"

text \<open>\<open>strings.TrimSpace\<close>: the runes at both ends that are white space go.\<close>

definition trim_segments :: "(nat \<times> string) list \<Rightarrow> (nat \<times> string) list" where
  "trim_segments segs =
     rev (dropWhile (is_space \<circ> fst) (rev (dropWhile (is_space \<circ> fst) segs)))"

definition trim_space :: "string \<Rightarrow> string" where
  "trim_space s = concat (map snd (trim_segments (segments s)))"

text \<open>\<open>strings.Fields\<close> and \<open>strings.FieldsFunc\<close>: the maximal runs of other runes.\<close>

fun fields_of :: "(nat \<Rightarrow> bool) \<Rightarrow> (nat \<times> string) list \<Rightarrow> string \<Rightarrow> string list" where
  "fields_of sep [] acc = (if acc = [] then [] else [acc])"
| "fields_of sep ((r, bs) # rest) acc =
     (if sep r then (if acc = [] then fields_of sep rest [] else acc # fields_of sep rest [])
      else fields_of sep rest (acc @ bs))"

definition fields_func :: "(nat \<Rightarrow> bool) \<Rightarrow> string \<Rightarrow> string list" where
  "fields_func sep s = fields_of sep (segments s) []"

definition fields :: "string \<Rightarrow> string list" where
  "fields s = fields_func is_space s"

text \<open>One rune in lower case; an invalid byte becomes the replacement rune.\<close>

definition replacement :: string where
  "replacement = [CHR 0xEF, CHR 0xBF, CHR 0xBD]"

definition lower_char :: "char \<Rightarrow> char" where
  "lower_char c = (if in_range 65 90 c then char_of (cbyte c + 32) else c)"

definition lower_segment :: "nat \<times> string \<Rightarrow> string" where
  "lower_segment seg =
     (case seg of (r, bs) \<Rightarrow>
        if r < 128 then map lower_char bs
        else if r = 0x212A then ''k'' else if r = 0x130 then ''i''
        else if length bs = 1 then replacement else bs)"

definition to_lower :: "string \<Rightarrow> string" where
  "to_lower s = concat (map lower_segment (segments s))"

text \<open>\<open>strings.EqualFold\<close> on ASCII texts.\<close>

definition equal_fold :: "string \<Rightarrow> string \<Rightarrow> bool" where
  "equal_fold s t \<longleftrightarrow> map lower_char s = map lower_char t"

lemma equal_fold_refl [simp]: "equal_fold s s"
  by (simp add: equal_fold_def)

lemma equal_fold_sym: "equal_fold s t \<longleftrightarrow> equal_fold t s"
  by (auto simp: equal_fold_def)

lemma equal_fold_trans: "equal_fold s t \<Longrightarrow> equal_fold t u \<Longrightarrow> equal_fold s u"
  by (simp add: equal_fold_def)

lemma ascii_lower_char: "ascii c \<Longrightarrow> ascii (lower_char c)"
  by (auto simp: ascii_def lower_char_def in_range_def cbyte_def)

lemma lower_char_idem [simp]: "lower_char (lower_char c) = lower_char c"
  by (auto simp: lower_char_def in_range_def cbyte_def)

lemma to_lower_ascii: "list_all ascii s \<Longrightarrow> to_lower s = map lower_char s"
  by (induction s) (auto simp: to_lower_def lower_segment_def ascii_def)

section \<open>Cutting and joining\<close>

fun split_char :: "char \<Rightarrow> string \<Rightarrow> string list" where
  "split_char d [] = [[]]"
| "split_char d (c # cs) =
     (if c = d then [] # split_char d cs
      else (case split_char d cs of [] \<Rightarrow> [[c]] | x # xs \<Rightarrow> (c # x) # xs))"

lemma split_char_nonempty [simp]: "split_char d s \<noteq> []"
  by (induction s) (auto split: list.splits)

lemma split_char_no_sep: "x \<in> set (split_char d s) \<Longrightarrow> d \<notin> set x"
  by (induction s arbitrary: x) (auto split: list.splits if_splits)

lemma split_char_fresh: "d \<notin> set s \<Longrightarrow> split_char d s = [s]"
  by (induction s) auto

lemma split_char_append: "d \<notin> set s \<Longrightarrow> split_char d (s @ d # t) = s # split_char d t"
  by (induction s) auto

text \<open>\<open>strings.Cut\<close> at the first separator: the parts, or None where there is none.\<close>

definition cut :: "char \<Rightarrow> string \<Rightarrow> (string \<times> string) option" where
  "cut d s =
     (if d \<in> set s then Some (takeWhile (\<lambda>c. c \<noteq> d) s, tl (dropWhile (\<lambda>c. c \<noteq> d) s)) else None)"

lemma cut_fresh:
  assumes "d \<notin> set s"
  shows "cut d (s @ d # t) = Some (s, t)"
proof -
  have "\<forall>c \<in> set s. c \<noteq> d" using assms by auto
  then show ?thesis
    by (simp add: cut_def takeWhile_append_stop [of s] dropWhile_append_stop [of s])
qed

definition replace_char :: "char \<Rightarrow> char \<Rightarrow> string \<Rightarrow> string" where
  "replace_char a b s = map (\<lambda>c. if c = a then b else c) s"

definition remove_char :: "char \<Rightarrow> string \<Rightarrow> string" where
  "remove_char a s = filter (\<lambda>c. c \<noteq> a) s"

fun crlf_to_lf :: "string \<Rightarrow> string" where
  "crlf_to_lf (c # d # cs) =
     (if c = CHR 0x0D \<and> d = CHR 0x0A then d # crlf_to_lf cs else c # crlf_to_lf (d # cs))"
| "crlf_to_lf s = s"

definition trim_set :: "char list \<Rightarrow> string \<Rightarrow> string" where
  "trim_set ds s = rev (dropWhile (\<lambda>c. c \<in> set ds) (rev (dropWhile (\<lambda>c. c \<in> set ds) s)))"

definition trim_suffix_char :: "char \<Rightarrow> string \<Rightarrow> string" where
  "trim_suffix_char d s = (if s \<noteq> [] \<and> last s = d then butlast s else s)"

definition has_prefix :: "string \<Rightarrow> string \<Rightarrow> bool" where
  "has_prefix s p \<longleftrightarrow> take (length p) s = p"

section \<open>Hexadecimal and decimal text\<close>

definition hex_value :: "char \<Rightarrow> byte option" where
  "hex_value c =
     (if in_range 48 57 c then Some (of_nat (cbyte c - 48))
      else if in_range 97 102 c then Some (of_nat (cbyte c - 87))
      else if in_range 65 70 c then Some (of_nat (cbyte c - 55)) else None)"

fun hex_decode :: "string \<Rightarrow> byte list option" where
  "hex_decode [] = Some []"
| "hex_decode [c] = None"
| "hex_decode (c # d # cs) =
     (case (hex_value c, hex_value d, hex_decode cs) of
        (Some x, Some y, Some bs) \<Rightarrow> Some ((x * 16 + y) # bs)
      | _ \<Rightarrow> None)"

definition hex_digit :: "nat \<Rightarrow> char" where
  "hex_digit n = (if n < 10 then char_of (n + 48) else char_of (n + 87))"

definition hex_encode :: "byte list \<Rightarrow> string" where
  "hex_encode bs = concat (map (\<lambda>b. [hex_digit (unat b div 16), hex_digit (unat b mod 16)]) bs)"

lemma hex_encode_simps [simp]:
  "hex_encode [] = []"
  "hex_encode (b # bs) = hex_digit (unat b div 16) # hex_digit (unat b mod 16) # hex_encode bs"
  by (simp_all add: hex_encode_def)

lemma length_hex_encode [simp]: "length (hex_encode bs) = 2 * length bs"
  by (induction bs) simp_all

lemma hex_value_digit: "n < 16 \<Longrightarrow> hex_value (hex_digit n) = Some (of_nat n)"
  by (auto simp: hex_value_def hex_digit_def in_range_def cbyte_def)

lemma byte_split: "(of_nat (unat b div 16) :: byte) * 16 + of_nat (unat b mod 16) = b"
proof -
  have "(of_nat (unat b div 16) :: byte) * 16 + of_nat (unat b mod 16) =
      of_nat (unat b div 16 * 16 + unat b mod 16)"
    by (simp only: of_nat_add of_nat_mult of_nat_numeral)
  also have "\<dots> = of_nat (unat b)" by (simp only: div_mult_mod_eq)
  finally show ?thesis by simp
qed

lemma unat_byte: "unat (b :: byte) < 256"
  using unsigned_less [of b, where ?'a = nat] by simp

lemma hex_decode_encode [simp]: "hex_decode (hex_encode bs) = Some bs"
proof (induction bs)
  case (Cons b bs)
  have "unat b div 16 < 16" "unat b mod 16 < 16" using unat_byte [of b] by simp_all
  with Cons show ?case by (simp add: hex_value_digit byte_split)
qed simp

lemma hex_encode_inject [simp]: "hex_encode bs = hex_encode cs \<longleftrightarrow> bs = cs"
  by (metis hex_decode_encode option.inject)

lemma hex_decode_length: "hex_decode s = Some bs \<Longrightarrow> length s = 2 * length bs"
  by (induction s arbitrary: bs rule: hex_decode.induct) (auto split: option.splits)

lemma ascii_hex_value: "hex_value c = Some v \<Longrightarrow> ascii c"
  by (auto simp: hex_value_def in_range_def ascii_def split: if_splits)

lemma hex_decode_ascii: "hex_decode s = Some bs \<Longrightarrow> list_all ascii s"
  by (induction s arbitrary: bs rule: hex_decode.induct)
     (auto split: option.splits dest: ascii_hex_value)

lemma hex_value_lower: "hex_value (lower_char c) = hex_value c"
  by (auto simp: hex_value_def lower_char_def in_range_def cbyte_def)

lemma hex_decode_lower: "hex_decode (map lower_char s) = hex_decode s"
  by (induction s rule: hex_decode.induct) (simp_all add: hex_value_lower)

lemma hex_decode_fold: "equal_fold s t \<Longrightarrow> hex_decode s = hex_decode t"
  unfolding equal_fold_def by (metis hex_decode_lower)

text \<open>Decimal digits of a number, as \<open>%d\<close> and \<open>strconv.Itoa\<close> print them.\<close>

fun dec_text :: "nat \<Rightarrow> string" where
  "dec_text n =
     (if n < 10 then [char_of (n + 48)] else dec_text (n div 10) @ [char_of (n mod 10 + 48)])"

declare dec_text.simps [simp del]

lemma dec_text_nonempty [simp]: "dec_text n \<noteq> []"
  by (subst dec_text.simps) simp

lemma dec_text_digits: "list_all (in_range 48 57) (dec_text n)"
proof (induction n rule: dec_text.induct)
  case (1 n)
  show ?case
  proof (cases "n < 10")
    case True
    then show ?thesis by (subst dec_text.simps) (simp add: in_range_def cbyte_def)
  next
    case False
    moreover have "in_range 48 57 (char_of (n mod 10 + 48))" if "n mod 10 < 10"
      using that by (simp add: in_range_def cbyte_def)
    ultimately show ?thesis using 1 by (subst dec_text.simps) simp
  qed
qed

text \<open>The number a text of decimal digits denotes, and that printing is injective.\<close>

fun dec_value :: "nat \<Rightarrow> string \<Rightarrow> nat" where
  "dec_value acc [] = acc"
| "dec_value acc (c # cs) = dec_value (10 * acc + (cbyte c - 48)) cs"

lemma dec_value_append: "dec_value acc (s @ t) = dec_value (dec_value acc s) t"
  by (induction s arbitrary: acc) simp_all

lemma dec_value_text: "dec_value 0 (dec_text n) = n"
proof (induction n rule: dec_text.induct)
  case (1 n)
  show ?case
  proof (cases "n < 10")
    case True
    then show ?thesis by (subst dec_text.simps) (simp add: cbyte_def)
  next
    case False
    with 1 show ?thesis by (subst dec_text.simps) (simp add: dec_value_append cbyte_def)
  qed
qed

lemma dec_text_inject [simp]: "dec_text m = dec_text n \<longleftrightarrow> m = n"
  by (metis dec_value_text)

section \<open>Tests on the runes of a text\<close>

text \<open>The loop \<open>for _, r := range v { if r < 0x20 || r == 0x7f { return false } }\<close>.\<close>

definition no_control :: "string \<Rightarrow> bool" where
  "no_control s = list_all (\<lambda>r. \<not> (r < 0x20 \<or> r = 0x7F)) (runes s)"

lemma no_control_bytes: "no_control s = list_all (\<lambda>c. \<not> (cbyte c < 0x20 \<or> cbyte c = 0x7F)) s"
  unfolding no_control_def by (rule runes_accepting) simp

lemma no_control_append [simp]: "no_control (s @ t) \<longleftrightarrow> no_control s \<and> no_control t"
  by (simp add: no_control_bytes)

definition alnum_byte :: "nat \<Rightarrow> bool" where
  "alnum_byte r \<longleftrightarrow> 97 \<le> r \<and> r \<le> 122 \<or> 65 \<le> r \<and> r \<le> 90 \<or> 48 \<le> r \<and> r \<le> 57"

end
