(* ===== verification/NutParser.thy ===== *)
theory NutParser
  imports GoText
begin

text \<open>
  \<open>internal/nut/parser.go\<close>, the tokenizer of one NUT protocol line, with the token
  tests and the argument quoting of \<open>internal/nut/client.go\<close>.  The position of the Go
  loop is the suffix still to be read.  The main result is that a quoted argument is read
  back as exactly one token with its text, whatever printable text it is: credentials
  cannot break out of their argument.
\<close>

abbreviation dquote :: char where "dquote \<equiv> CHR 0x22"
abbreviation backslash :: char where "backslash \<equiv> CHR 0x5C"
abbreviation cr :: char where "cr \<equiv> CHR 0x0D"
abbreviation lf :: char where "lf \<equiv> CHR 0x0A"
abbreviation nul :: char where "nul \<equiv> CHR 0x00"
abbreviation tab :: char where "tab \<equiv> CHR 0x09"
abbreviation blank :: char where "blank \<equiv> CHR 0x20"

section \<open>The tokenizer\<close>

datatype parse_error =
    InvalidUTF8 | InvalidQuotedEscape | ControlInQuoted | UnterminatedQuoted
  | MissingSeparator | InvalidUnquoted | EmptyUnquoted

definition is_blank :: "char \<Rightarrow> bool" where
  "is_blank c \<longleftrightarrow> c = blank \<or> c = tab"

fun read_quoted :: "string \<Rightarrow> string \<Rightarrow> (parse_error, string \<times> string) result" where
  "read_quoted acc [] = Inl UnterminatedQuoted"
| "read_quoted acc (c # cs) =
     (if c = dquote then Inr (acc, cs)
      else if c = backslash then
        (case cs of
           [] \<Rightarrow> Inl InvalidQuotedEscape
         | d # ds \<Rightarrow> if d \<noteq> backslash \<and> d \<noteq> dquote then Inl InvalidQuotedEscape
                    else read_quoted (acc @ [d]) ds)
      else if c = cr \<or> c = lf \<or> c = nul then Inl ControlInQuoted
      else read_quoted (acc @ [c]) cs)"

fun read_unquoted :: "string \<Rightarrow> string \<Rightarrow> (parse_error, string \<times> string) result" where
  "read_unquoted acc [] = Inr (acc, [])"
| "read_unquoted acc (c # cs) =
     (if is_blank c then Inr (acc, c # cs)
      else if c = dquote \<or> c = cr \<or> c = lf \<or> c = nul then Inl InvalidUnquoted
      else read_unquoted (acc @ [c]) cs)"

lemma read_quoted_shorter: "read_quoted acc s = Inr (v, rest) \<Longrightarrow> length rest < length s"
  by (induction acc s rule: read_quoted.induct) (auto split: if_splits list.splits)

lemma read_unquoted_split: "read_unquoted acc s = Inr (t, rest) \<Longrightarrow> \<exists>u. t = acc @ u \<and> s = u @ rest"
proof (induction acc s rule: read_unquoted.induct)
  case (2 acc c cs)
  show ?case
  proof (cases "is_blank c")
    case False
    with 2 obtain u where "t = (acc @ [c]) @ u" "cs = u @ rest" by (auto split: if_splits)
    then show ?thesis by (intro exI [of _ "c # u"]) simp
  qed (use 2 in auto)
qed auto

function tokenize :: "string list \<Rightarrow> string \<Rightarrow> (parse_error, string list) result" where
  "tokenize tokens s =
     (case dropWhile is_blank s of
        [] \<Rightarrow> Inr tokens
      | c # cs \<Rightarrow>
          if c = dquote then
            (case read_quoted [] cs of
               Inl e \<Rightarrow> Inl e
             | Inr (value, rest) \<Rightarrow>
                 if rest \<noteq> [] \<and> \<not> is_blank (hd rest) then Inl MissingSeparator
                 else tokenize (tokens @ [value]) rest)
          else
            (case read_unquoted [] (c # cs) of
               Inl e \<Rightarrow> Inl e
             | Inr (token, rest) \<Rightarrow>
                 if token = [] then Inl EmptyUnquoted else tokenize (tokens @ [token]) rest))"
  by pat_completeness auto
termination
proof (relation "measure (\<lambda>(_, s). length s)", goal_cases)
  case (2 tokens s c cs p v rest)
  then have "length rest < length (dropWhile is_blank s)" by (auto dest: read_quoted_shorter)
  then show ?case using dropWhile_length_le [of is_blank s] by simp
next
  case (3 tokens s c cs p token rest)
  then have "dropWhile is_blank s = token @ rest" "token \<noteq> []"
    by (auto simp del: read_unquoted.simps dest!: read_unquoted_split)
  then have "length rest < length (dropWhile is_blank s)" by simp
  then show ?case using dropWhile_length_le [of is_blank s] by simp
qed simp

declare tokenize.simps [simp del]

lemma tokenize_end: "dropWhile is_blank s = [] \<Longrightarrow> tokenize tokens s = Inr tokens"
  by (subst tokenize.simps) simp

lemma tokenize_quoted:
  "dropWhile is_blank s = c # cs \<Longrightarrow> c = dquote \<Longrightarrow> tokenize tokens s =
     (case read_quoted [] cs of
        Inl e \<Rightarrow> Inl e
      | Inr (value, rest) \<Rightarrow>
          if rest \<noteq> [] \<and> \<not> is_blank (hd rest) then Inl MissingSeparator
          else tokenize (tokens @ [value]) rest)"
  by (subst tokenize.simps) simp

lemma tokenize_unquoted:
  "dropWhile is_blank s = c # cs \<Longrightarrow> c \<noteq> dquote \<Longrightarrow> tokenize tokens s =
     (case read_unquoted [] (c # cs) of
        Inl e \<Rightarrow> Inl e
      | Inr (token, rest) \<Rightarrow>
          if token = [] then Inl EmptyUnquoted else tokenize (tokens @ [token]) rest)"
  by (subst tokenize.simps) (simp del: read_unquoted.simps)

definition parse_line :: "string \<Rightarrow> (parse_error, string list) result" where
  "parse_line line = (if \<not> valid_utf8 line then Inl InvalidUTF8 else tokenize [] line)"

section \<open>Token tests and argument quoting of the client\<close>

definition token_rune :: "nat \<Rightarrow> bool" where
  "token_rune r \<longleftrightarrow> alnum_byte r \<or> r = 46 \<or> r = 95 \<or> r = 45"

definition safe_token :: "string \<Rightarrow> bool" where
  "safe_token v \<longleftrightarrow> v \<noteq> [] \<and> length v \<le> 128 \<and> list_all token_rune (runes v)"

definition error_code_rune :: "nat \<Rightarrow> bool" where
  "error_code_rune r \<longleftrightarrow> 65 \<le> r \<and> r \<le> 90 \<or> 48 \<le> r \<and> r \<le> 57 \<or> r = 45 \<or> r = 95"

definition safe_error_code :: "string \<Rightarrow> bool" where
  "safe_error_code v \<longleftrightarrow> v \<noteq> [] \<and> length v \<le> 64 \<and> list_all error_code_rune (runes v)"

definition valid_credential :: "string \<Rightarrow> bool" where
  "valid_credential v \<longleftrightarrow> v \<noteq> [] \<and> length v \<le> 4096 \<and> valid_utf8 v \<and> no_control v"

text \<open>\<open>WriteRune\<close> encodes an invalid byte as the replacement rune.\<close>

definition quote_segment :: "nat \<times> string \<Rightarrow> string" where
  "quote_segment seg =
     (case seg of (r, bs) \<Rightarrow>
        (if r = 0x22 \<or> r = 0x5C then [backslash] else []) @
        (if length bs = 1 \<and> 128 \<le> r then replacement else bs))"

definition needs_quote :: "string \<Rightarrow> bool" where
  "needs_quote v \<longleftrightarrow> (\<exists>c \<in> set v. c = blank \<or> c = tab \<or> c = dquote \<or> c = backslash)"

definition format_argument :: "string \<Rightarrow> string" where
  "format_argument v =
     (if \<not> needs_quote v then v
      else dquote # concat (map quote_segment (segments v)) @ [dquote])"

section \<open>Valid UTF-8 and concatenation\<close>

lemma rune_width_take_append:
  assumes "rune_width (c # cs) = n" "n \<noteq> 0"
  shows "rune_width (take n (c # cs) @ t) = n"
proof (cases "n = 1")
  case True
  with assms show ?thesis by (auto simp: Let_def split: prod.splits if_splits)
next
  case False
  with assms obtain m where n: "n = Suc (Suc m)" by (cases n; cases "n - 1") auto
  let ?lo = "fst (second_bounds (cbyte c))" and ?hi = "snd (second_bounds (cbyte c))"
  have h: "lead_len (cbyte c) = n" "\<not> length cs < Suc m" "in_range ?lo ?hi (cs ! 0)"
      "list_all (in_range 0x80 0xBF) (take m (drop 1 cs))"
    using assms False n by (auto simp: Let_def split: prod.splits if_splits)
  then obtain d ds where cs: "cs = d # ds" "m \<le> length ds" by (cases cs) auto
  show ?thesis using h cs n by (auto simp add: Let_def split: prod.splits)
qed

lemma valid_utf8_append: "valid_utf8 s \<Longrightarrow> valid_utf8 (s @ t) = valid_utf8 t"
proof (induction s rule: valid_utf8.induct)
  case (2 c cs)
  let ?n = "rune_width (c # cs)"
  have n: "?n \<noteq> 0" and v: "valid_utf8 (drop ?n (c # cs))"
    using "2.prems" by (auto simp: valid_utf8.simps(2) Let_def split: if_splits simp del: rune_width.simps)
  let ?rest = "drop ?n (c # cs) @ t"
  have split: "c # cs @ t = take ?n (c # cs) @ ?rest"
    by (simp only: append_assoc [symmetric] append_take_drop_id append_Cons)
  have w: "rune_width (c # cs @ t) = ?n"
    unfolding split by (rule rune_width_take_append [OF refl n])
  have "drop ?n (c # cs @ t) = ?rest"
    using rune_width_le [of "c # cs"] by (simp add: drop_append del: rune_width.simps flip: append_Cons)
  with w n have "valid_utf8 (c # cs @ t) = valid_utf8 ?rest"
    by (simp add: valid_utf8.simps(2) Let_def del: rune_width.simps)
  also have "\<dots> = valid_utf8 t" using "2.IH" [OF refl n v] .
  finally show ?case by simp
qed simp

text \<open>Valid strings, rune by rune: an ASCII byte, or at least two bytes beyond ASCII.\<close>

lemma valid_utf8_induct [consumes 1, case_names Nil Ascii Multi]:
  assumes "valid_utf8 s" and "P []"
    and "\<And>c cs. ascii c \<Longrightarrow> valid_utf8 cs \<Longrightarrow> P cs \<Longrightarrow> P (c # cs)"
    and "\<And>r bs rest. segments (bs @ rest) = (r, bs) # segments rest \<Longrightarrow> valid_utf8 rest \<Longrightarrow>
           128 \<le> r \<Longrightarrow> 2 \<le> length bs \<Longrightarrow> list_all (\<lambda>d. \<not> ascii d) bs \<Longrightarrow>
           valid_utf8 bs \<Longrightarrow> P rest \<Longrightarrow> P (bs @ rest)"
  shows "P s"
  using assms(1)
proof (induction s rule: valid_utf8.induct)
  case (2 c cs)
  let ?n = "rune_width (c # cs)" and ?bs = "take (rune_width (c # cs)) (c # cs)"
  let ?rest = "drop ?n (c # cs)"
  have n: "?n \<noteq> 0" and v: "valid_utf8 ?rest"
    using "2.prems" by (auto simp: valid_utf8.simps(2) Let_def split: if_splits simp del: rune_width.simps)
  have IH: "P ?rest" using "2.IH" [OF refl n v] .
  show ?case
  proof (cases "ascii c")
    case True
    with v IH assms(3) show ?thesis by (simp del: rune_width.simps)
  next
    case False
    have "?n \<noteq> 1" using False by (auto simp: Let_def lead_len_def ascii_def split: prod.splits if_splits)
    then have len: "2 \<le> length ?bs" using n rune_width_le [of "c # cs"] by (simp del: rune_width.simps)
    have "segments (c # cs) = (rune_value ?bs, ?bs) # segments ?rest"
      using n by (simp add: segments.simps(2) Let_def del: rune_width.simps)
    then have "segments (?bs @ ?rest) = (rune_value ?bs, ?bs) # segments ?rest"
      by (simp only: append_take_drop_id)
    have "rune_width ?bs = ?n" using rune_width_take_append [OF refl n, of "[]"] by simp
    moreover have "drop ?n ?bs = []" by simp
    ultimately have vb: "valid_utf8 ?bs"
      using n by (cases ?bs) (simp_all only: valid_utf8.simps Let_def if_False)
    from assms(4) [OF \<open>segments (?bs @ ?rest) = _\<close> v rune_value_multi [OF False refl n] len
        rune_width_multi [OF False refl n] vb IH]
    show ?thesis by (simp only: append_take_drop_id)
  qed
qed (rule assms(2))

section \<open>Quoted and unquoted arguments are read back\<close>

definition printable :: "string \<Rightarrow> bool" where
  "printable v \<longleftrightarrow> valid_utf8 v \<and> cr \<notin> set v \<and> lf \<notin> set v \<and> nul \<notin> set v"

definition quote_body :: "string \<Rightarrow> string" where
  "quote_body v = concat (map quote_segment (segments v))"

lemma quote_body_ascii:
  "ascii c \<Longrightarrow> quote_body (c # cs) = (if c = dquote \<or> c = backslash then [backslash] else []) @ c # quote_body cs"
proof -
  assume "ascii c"
  moreover have "cbyte c = 0x22 \<longleftrightarrow> c = dquote" "cbyte c = 0x5C \<longleftrightarrow> c = backslash"
    using cbyte_inject [of c dquote] cbyte_inject [of c backslash] by (simp_all add: cbyte_def)
  ultimately show ?thesis by (simp add: quote_body_def quote_segment_def ascii_def)
qed

lemma quote_body_multi:
  "segments (bs @ rest) = (r, bs) # segments rest \<Longrightarrow> 128 \<le> r \<Longrightarrow> 2 \<le> length bs \<Longrightarrow>
   quote_body (bs @ rest) = bs @ quote_body rest"
  by (simp add: quote_body_def quote_segment_def)

lemma read_quoted_plain:
  "list_all (\<lambda>d. \<not> ascii d) bs \<Longrightarrow> read_quoted acc (bs @ s) = read_quoted (acc @ bs) s"
proof (induction bs arbitrary: acc)
  case (Cons b bs)
  then have "b \<noteq> dquote \<and> b \<noteq> backslash \<and> b \<noteq> cr \<and> b \<noteq> lf \<and> b \<noteq> nul"
    by (auto simp: ascii_def cbyte_def)
  with Cons show ?case by simp
qed simp

lemma read_quoted_body:
  "valid_utf8 v \<Longrightarrow> cr \<notin> set v \<Longrightarrow> lf \<notin> set v \<Longrightarrow> nul \<notin> set v \<Longrightarrow>
   read_quoted acc (quote_body v @ dquote # rest) = Inr (acc @ v, rest)"
proof (induction v arbitrary: acc rule: valid_utf8_induct)
  case Nil
  then show ?case by (simp add: quote_body_def)
next
  case (Ascii c cs)
  then show ?case by (auto simp add: quote_body_ascii)
next
  case (Multi r bs rest')
  then show ?case by (simp add: quote_body_multi read_quoted_plain)
qed

lemma quote_body_valid: "valid_utf8 v \<Longrightarrow> valid_utf8 (quote_body v)"
proof (induction v rule: valid_utf8_induct)
  case (Ascii c cs)
  then show ?case by (simp add: quote_body_ascii ascii_def cbyte_def)
next
  case (Multi r bs rest)
  then show ?case by (simp add: quote_body_multi valid_utf8_append)
qed (simp add: quote_body_def)

lemma read_unquoted_plain:
  "\<forall>c \<in> set v. \<not> is_blank c \<and> c \<noteq> dquote \<and> c \<noteq> cr \<and> c \<noteq> lf \<and> c \<noteq> nul \<Longrightarrow>
   rest = [] \<or> is_blank (hd rest) \<Longrightarrow> read_unquoted acc (v @ rest) = Inr (acc @ v, rest)"
proof (induction v arbitrary: acc)
  case Nil
  then show ?case by (cases rest) auto
qed auto

text \<open>What follows an argument on the line: nothing, or a blank.\<close>

definition separated :: "string \<Rightarrow> bool" where
  "separated rest \<longleftrightarrow> rest = [] \<or> is_blank (hd rest)"

lemma tokenize_format_argument:
  assumes "printable v" "v \<noteq> []" "separated rest"
  shows "tokenize tokens (format_argument v @ rest) = tokenize (tokens @ [v]) rest"
proof (cases "needs_quote v")
  case True
  have "dropWhile is_blank (format_argument v @ rest) = dquote # quote_body v @ dquote # rest"
    using True by (simp add: format_argument_def quote_body_def is_blank_def)
  then show ?thesis
    using assms read_quoted_body [of v "[]" rest]
    by (auto simp: tokenize_quoted printable_def separated_def)
next
  case False
  then have ok: "\<forall>c \<in> set v. \<not> is_blank c \<and> c \<noteq> dquote \<and> c \<noteq> cr \<and> c \<noteq> lf \<and> c \<noteq> nul"
    using assms(1) by (auto simp: needs_quote_def printable_def is_blank_def)
  obtain c cs where v: "v = c # cs" using assms(2) by (cases v) auto
  have "dropWhile is_blank (format_argument v @ rest) = c # cs @ rest" "c \<noteq> dquote"
    using False ok by (simp_all add: format_argument_def v)
  then show ?thesis
    using read_unquoted_plain [OF ok, of rest "[]"] assms(3)
    by (simp add: tokenize_unquoted v separated_def del: read_unquoted.simps)
qed

lemma tokenize_blank [simp]: "is_blank c \<Longrightarrow> tokenize tokens (c # s) = tokenize tokens s"
  by (subst (1 2) tokenize.simps) simp

lemma tokenize_Nil [simp]: "tokenize tokens [] = Inr tokens"
  by (subst tokenize.simps) simp

lemma format_argument_valid: "valid_utf8 v \<Longrightarrow> valid_utf8 (format_argument v)"
  using quote_body_valid [of v]
  by (simp add: format_argument_def ascii_def cbyte_def valid_utf8_append flip: quote_body_def)

text \<open>A value as NUT servers print it, always in quotes, and a token as it is.\<close>

definition quoted :: "string \<Rightarrow> string" where
  "quoted v = dquote # quote_body v @ [dquote]"

lemma tokenize_quoted_value:
  "printable v \<Longrightarrow> separated rest \<Longrightarrow> tokenize tokens (quoted v @ rest) = tokenize (tokens @ [v]) rest"
  using read_quoted_body [of v "[]" rest]
  by (auto simp: quoted_def tokenize_quoted [of _ dquote] is_blank_def printable_def separated_def)

lemma safe_token_plain:
  assumes "safe_token t"
  shows "printable t" "t \<noteq> []" "format_argument t = t" "list_all ascii t"
proof -
  have h: "list_all (\<lambda>c. token_rune (cbyte c)) t" "t \<noteq> []"
    using assms runes_rejecting [of token_rune t]
    by (auto simp: safe_token_def token_rune_def alnum_byte_def)
  then show a: "list_all ascii t"
    by (auto simp: list_all_iff token_rune_def alnum_byte_def ascii_def)
  have "\<not> needs_quote t" "cr \<notin> set t \<and> lf \<notin> set t \<and> nul \<notin> set t"
    using h by (auto simp: list_all_iff token_rune_def alnum_byte_def needs_quote_def cbyte_def)
  then show "format_argument t = t" "printable t"
    using valid_utf8_all_ascii [OF a] by (simp_all add: format_argument_def printable_def)
qed (use assms in \<open>simp add: safe_token_def\<close>)

text \<open>Arguments on one line, separated by one blank.\<close>

fun join_args :: "string list \<Rightarrow> string" where
  "join_args [] = []"
| "join_args [a] = a"
| "join_args (a # b # as) = a @ blank # join_args (b # as)"

lemma tokenize_join:
  "\<forall>t \<in> set ts. printable t \<and> t \<noteq> [] \<Longrightarrow>
   tokenize tokens (join_args (map format_argument ts)) = Inr (tokens @ ts)"
proof (induction ts arbitrary: tokens rule: join_args.induct)
  case (2 a)
  then show ?case using tokenize_format_argument [of a "[]"] by (simp add: separated_def)
next
  case (3 a b as)
  then show ?case
    using tokenize_format_argument [of a "blank # join_args (map format_argument (b # as))" tokens]
    by (simp add: separated_def is_blank_def)
qed simp

lemma join_args_valid: "\<forall>t \<in> set ts. valid_utf8 t \<Longrightarrow> valid_utf8 (join_args ts)"
  by (induction ts rule: join_args.induct) (simp_all add: valid_utf8_append ascii_def cbyte_def)

lemma parse_line_join:
  assumes "\<forall>t \<in> set ts. printable t \<and> t \<noteq> []"
  shows "parse_line (join_args (map format_argument ts)) = Inr ts"
proof -
  have "valid_utf8 (join_args (map format_argument ts))"
    using assms by (intro join_args_valid) (auto simp: printable_def intro: format_argument_valid)
  then show ?thesis using tokenize_join [OF assms, of "[]"] by (simp add: parse_line_def)
qed

lemma valid_credential_printable: "valid_credential v \<Longrightarrow> printable v \<and> v \<noteq> []"
  by (auto simp: valid_credential_def printable_def no_control_bytes list_all_iff cbyte_def)

section \<open>What the tokenizer accepts\<close>

definition clean_token :: "string \<Rightarrow> bool" where
  "clean_token t \<longleftrightarrow> cr \<notin> set t \<and> lf \<notin> set t \<and> nul \<notin> set t"

lemma clean_token_Nil [simp]: "clean_token []"
  by (simp add: clean_token_def)

lemma clean_token_snoc [simp]:
  "clean_token (acc @ [c]) \<longleftrightarrow> clean_token acc \<and> \<not> (c = cr \<or> c = lf \<or> c = nul)"
  by (auto simp: clean_token_def)

lemma read_quoted_clean:
  "read_quoted acc s = Inr (v, rest) \<Longrightarrow> clean_token acc \<Longrightarrow>
   clean_token v \<and> length v + length rest < length acc + length s"
proof (induction acc s rule: read_quoted.induct)
  case (2 acc c cs)
  consider "c = dquote" | "c = backslash" | "c \<noteq> dquote" "c \<noteq> backslash" by blast
  then show ?case
  proof cases
    case 1
    with 2(3,4) show ?thesis by simp
  next
    case c: 2
    then obtain d ds where d: "cs = d # ds" "d = backslash \<or> d = dquote"
        "read_quoted (acc @ [d]) ds = Inr (v, rest)"
      using 2(3) by (auto split: list.splits if_splits)
    moreover from d(2) have "clean_token (acc @ [d])" using 2(4) by auto
    ultimately show ?thesis using 2(1) [of d ds] c by force
  next
    case 3
    then have k: "\<not> (c = cr \<or> c = lf \<or> c = nul)" "read_quoted (acc @ [c]) cs = Inr (v, rest)"
      using 2(3) by (simp_all split: if_splits)
    then show ?thesis using 2(2) [OF 3 k(1,2)] 2(4) by simp
  qed
qed simp

lemma read_unquoted_clean:
  "read_unquoted acc s = Inr (v, rest) \<Longrightarrow> clean_token acc \<Longrightarrow>
   clean_token v \<and> length v + length rest = length acc + length s"
proof (induction acc s rule: read_unquoted.induct)
  case (2 acc c cs)
  show ?case
  proof (cases "is_blank c")
    case False
    then have k: "\<not> (c = dquote \<or> c = cr \<or> c = lf \<or> c = nul)" "read_unquoted (acc @ [c]) cs = Inr (v, rest)"
      using 2(2) by (simp_all split: if_splits)
    then show ?thesis using 2(1) [OF False k] 2(3) by simp
  qed (use 2(2,3) in simp)
qed simp

lemma tokenize_sound:
  assumes "tokenize tokens s = Inr ts" "\<forall>t \<in> set tokens. clean_token t"
  shows "(\<forall>t \<in> set ts. clean_token t) \<and>
    sum_list (map length ts) \<le> sum_list (map length tokens) + length s"
  using assms
proof (induction tokens s rule: tokenize.induct)
  case (1 tokens s)
  have le: "length (dropWhile is_blank s) \<le> length s" by (rule dropWhile_length_le)
  have step: "(\<forall>t \<in> set ts. clean_token t) \<and>
      sum_list (map length ts) \<le> sum_list (map length tokens) + length s"
    if "(\<forall>t \<in> set ts. clean_token t) \<and>
      sum_list (map length ts) \<le> sum_list (map length (tokens @ [v])) + length rest"
      "length v + length rest \<le> length (dropWhile is_blank s)" for v rest
    using that le by simp
  show ?case
  proof (cases "dropWhile is_blank s")
    case Nil
    then show ?thesis using 1(3,4) by (simp add: tokenize_end)
  next
    case (Cons c cs)
    show ?thesis
    proof (cases "c = dquote")
      case True
      obtain v rest where q: "read_quoted [] cs = Inr (v, rest)"
          "\<not> (rest \<noteq> [] \<and> \<not> is_blank (hd rest))" "tokenize (tokens @ [v]) rest = Inr ts"
        using 1(3) unfolding tokenize_quoted [OF Cons True]
        by (simp split: sum.splits prod.splits if_splits)
      have v: "clean_token v" "length v + length rest < length cs"
        using read_quoted_clean [OF q(1)] by simp_all
      show ?thesis
        by (rule step [OF 1(1) [OF Cons True q(1) refl q(2,3)]]) (use v 1(4) Cons in auto)
    next
      case False
      obtain v rest where q: "read_unquoted [] (c # cs) = Inr (v, rest)" "v \<noteq> []"
          "tokenize (tokens @ [v]) rest = Inr ts"
        using 1(3) unfolding tokenize_unquoted [OF Cons False]
        by (simp del: read_unquoted.simps split: sum.splits prod.splits if_splits)
      have v: "clean_token v" "length v + length rest = length (c # cs)"
        using read_unquoted_clean [OF q(1)] by simp_all
      show ?thesis
        by (rule step [OF 1(2) [OF Cons False q(1) refl q(2,3)]]) (use v 1(4) Cons in auto)
    qed
  qed
qed

text \<open>An unquoted token is never empty: that branch of the code is unreachable.\<close>

lemma read_quoted_never_empty: "read_quoted acc s \<noteq> Inl EmptyUnquoted"
  by (induction acc s rule: read_quoted.induct) (simp_all split: list.split)

lemma read_unquoted_never_empty: "read_unquoted acc s \<noteq> Inl EmptyUnquoted"
  by (induction acc s rule: read_unquoted.induct) simp_all

lemma tokenize_never_empty: "tokenize tokens s \<noteq> Inl EmptyUnquoted"
proof (induction tokens s rule: tokenize.induct)
  case (1 tokens s)
  show ?case
  proof (cases "dropWhile is_blank s")
    case Nil
    then show ?thesis by (simp add: tokenize_end)
  next
    case (Cons c cs)
    have nb: "\<not> is_blank c" using Cons by (metis hd_dropWhile list.distinct(1) list.sel(1))
    show ?thesis
    proof (cases "c = dquote")
      case True
      then show ?thesis using 1(1) [OF Cons True] read_quoted_never_empty [of "[]" cs]
        by (auto simp: tokenize_quoted [OF Cons True] split: sum.split prod.split)
    next
      case False
      have ne: "v \<noteq> []" if "read_unquoted [] (c # cs) = Inr (v, rest)" for v rest
        using that nb False read_unquoted_split [of "[c]" cs v rest] by (simp split: if_splits) blast
      show ?thesis using 1(2) [OF Cons False] read_unquoted_never_empty [of "[]" "c # cs"] ne
        by (auto simp: tokenize_unquoted [OF Cons False] simp del: read_unquoted.simps split: sum.split prod.split)
    qed
  qed
qed

section \<open>Properties\<close>

text \<open>
  A command with its argument, as \<open>authenticate\<close> prints it, is read back as exactly two
  tokens, the command and the credential, for every credential the client accepts: no
  credential can add a token, end the line or change the command.
\<close>

theorem credential_roundtrip:
  assumes "valid_credential v" and "safe_token cmd"
  shows "parse_line (cmd @ blank # format_argument v) = Inr [cmd, v]"
  using parse_line_join [of "[cmd, v]"] safe_token_plain [OF assms(2)] valid_credential_printable [OF assms(1)]
  by simp

theorem credential_roundtrip_witness:
  "parse_line (''PASSWORD'' @ blank # format_argument ''a \"b c'') = Inr [''PASSWORD'', ''a \"b c'']"
  by (rule credential_roundtrip)
     (simp_all add: valid_credential_def no_control_bytes safe_token_def runes_def token_rune_def
        alnum_byte_def ascii_def cbyte_def)

text \<open>
  Every token of a line the tokenizer accepts is free of line breaks and NUL, the tokens
  together are no longer than the line, and the error for an empty unquoted token, which the
  code keeps as a defence, is unreachable.
\<close>

theorem parse_line_bounded:
  "case parse_line line of
     Inl e \<Rightarrow> e \<noteq> EmptyUnquoted
   | Inr ts \<Rightarrow> list_all clean_token ts \<and> sum_list (map length ts) \<le> length line"
  using tokenize_sound [of "[]" line] tokenize_never_empty [of "[]" line]
  by (auto simp: parse_line_def list_all_iff split: sum.split)

end
