(* ===== verification/GoNet.thy ===== *)
theory GoNet
  imports GoText
begin

text \<open>
  The functions of Go's \<open>net\<close> package the gateway parses addresses with.
\<close>

section \<open>Host and port\<close>

definition last_colon :: "string \<Rightarrow> (string \<times> string) option" where
  "last_colon s =
     (case cut (CHR '':'') (rev s) of None \<Rightarrow> None | Some (p, h) \<Rightarrow> Some (rev h, rev p))"

text \<open>\<open>net.SplitHostPort\<close>; every error is None.\<close>

definition split_host_port :: "string \<Rightarrow> (string \<times> string) option" where
  "split_host_port s =
     (case last_colon s of
        None \<Rightarrow> None
      | Some (before, port) \<Rightarrow>
          (case before of
             c # cs \<Rightarrow>
               if c = CHR ''['' then
                 (if cs = [] \<or> last cs \<noteq> CHR '']'' then None
                  else let host = butlast cs in
                    if CHR '']'' \<in> set host \<or> CHR ''['' \<in> set host \<or>
                       CHR ''['' \<in> set port \<or> CHR '']'' \<in> set port then None
                    else Some (host, port))
               else if CHR '':'' \<in> set before \<or> CHR ''['' \<in> set s \<or> CHR '']'' \<in> set s then None
               else Some (before, port)
           | [] \<Rightarrow> if CHR ''['' \<in> set s \<or> CHR '']'' \<in> set s then None else Some ([], port)))"

end
