(* ===== verification/Diagnostic.thy ===== *)
theory Diagnostic
  imports GoText
begin

text \<open>
  \<open>internal/diagnostic/diagnostic.go\<close>: the closed vocabulary of log codes and the
  classification of errors.  A Go error is a chain: \<open>Leaf\<close> is an \<open>errors.New\<close> text,
  \<open>Wrapped\<close> an \<open>fmt.Errorf\<close> with \<open>%w\<close>, \<open>DnsError\<close> and \<open>NetError\<close> the two
  standard-library types the code asks for, \<open>Domain\<close> an error type of the package at hand
  and \<open>Failure\<close> the type \<open>failure\<close> of this package.  \<open>errors.As\<close> takes the first
  match along the chain.  The codes are ordered by their number.
\<close>

section \<open>The codes\<close>

datatype code =
    Internal | Configuration | StateRead | StateInvalid | StatePermissions | StateWrite
  | IdentityMismatch | ControllerDNS | ControllerRoute | ControllerTransport
  | ControllerTimeout | ControllerHTTP | ControllerProtocol | ControllerReplay | NUTDNS
  | NUTConnect | NUTTimeout | NUTAuth | NUTUnknownUPS | NUTUnavailable | NUTProtocol
  | NUTTelemetry | HealthBind | DiscoveryBind | NetworkIdentityInvalid

fun code_number :: "code \<Rightarrow> nat" where
  "code_number Internal = 0"
| "code_number Configuration = 1"
| "code_number StateRead = 2"
| "code_number StateInvalid = 3"
| "code_number StatePermissions = 4"
| "code_number StateWrite = 5"
| "code_number IdentityMismatch = 6"
| "code_number ControllerDNS = 7"
| "code_number ControllerRoute = 8"
| "code_number ControllerTransport = 9"
| "code_number ControllerTimeout = 10"
| "code_number ControllerHTTP = 11"
| "code_number ControllerProtocol = 12"
| "code_number ControllerReplay = 13"
| "code_number NUTDNS = 14"
| "code_number NUTConnect = 15"
| "code_number NUTTimeout = 16"
| "code_number NUTAuth = 17"
| "code_number NUTUnknownUPS = 18"
| "code_number NUTUnavailable = 19"
| "code_number NUTProtocol = 20"
| "code_number NUTTelemetry = 21"
| "code_number HealthBind = 22"
| "code_number DiscoveryBind = 23"
| "code_number NetworkIdentityInvalid = 24"

definition names :: "string list" where
  "names =
    [''internal_error'', ''configuration_invalid'', ''state_read'', ''state_invalid'',
     ''state_permissions'', ''state_write'', ''identity_mismatch'', ''controller_dns'',
     ''controller_route'', ''controller_transport'', ''controller_timeout'',
     ''controller_http'', ''controller_protocol'', ''controller_replay'', ''nut_dns'',
     ''nut_connect'', ''nut_timeout'', ''nut_auth'', ''nut_unknown_ups'', ''nut_unavailable'',
     ''nut_protocol'', ''nut_telemetry'', ''health_bind'', ''discovery_bind'',
     ''network_identity_invalid'']"

definition code_string :: "code \<Rightarrow> string" where
  "code_string c = (if length names \<le> code_number c then names ! code_number Internal
                    else names ! code_number c)"

lemma code_number_inject [simp]: "code_number c = code_number d \<longleftrightarrow> c = d"
  by (cases c; cases d) simp_all

lemma code_number_less: "code_number c < length names"
  by (cases c) (simp_all add: names_def)

lemma distinct_names: "distinct names"
  by (simp add: names_def)

lemma code_string_inject: "code_string c = code_string d \<longleftrightarrow> c = d"
  using nth_eq_iff_index_eq [OF distinct_names code_number_less code_number_less, of c d]
    code_number_less [of c] code_number_less [of d]
  by (simp add: code_string_def)

lemma code_string_in_names: "code_string c \<in> set names"
  using code_number_less [of c] by (simp add: code_string_def)

instantiation code :: linorder
begin

definition less_eq_code :: "code \<Rightarrow> code \<Rightarrow> bool" where
  "less_eq_code c d \<longleftrightarrow> code_number c \<le> code_number d"

definition less_code :: "code \<Rightarrow> code \<Rightarrow> bool" where
  "less_code c d \<longleftrightarrow> code_number c < code_number d"

instance
  by standard (auto simp: less_eq_code_def less_code_def order.antisym)

end

section \<open>Error chains\<close>

datatype 'd go_error =
    Leaf string | DnsError | NetError bool | Domain 'd
  | Wrapped string "'d go_error" | Failure code "'d go_error"

fun as_failure :: "'d go_error \<Rightarrow> code option" where
  "as_failure (Failure c e) = Some c"
| "as_failure (Wrapped op e) = as_failure e"
| "as_failure (Leaf t) = None"
| "as_failure DnsError = None"
| "as_failure (NetError t) = None"
| "as_failure (Domain d) = None"

fun as_dns :: "'d go_error \<Rightarrow> bool" where
  "as_dns (Failure c e) = as_dns e"
| "as_dns (Wrapped op e) = as_dns e"
| "as_dns DnsError = True"
| "as_dns (Leaf t) = False"
| "as_dns (NetError t) = False"
| "as_dns (Domain d) = False"

fun as_net_timeout :: "'d go_error \<Rightarrow> bool" where
  "as_net_timeout (Failure c e) = as_net_timeout e"
| "as_net_timeout (Wrapped op e) = as_net_timeout e"
| "as_net_timeout (NetError t) = t"
| "as_net_timeout DnsError = False"
| "as_net_timeout (Leaf t) = False"
| "as_net_timeout (Domain d) = False"

fun as_domain :: "'d go_error \<Rightarrow> 'd option" where
  "as_domain (Failure c e) = as_domain e"
| "as_domain (Wrapped op e) = as_domain e"
| "as_domain (Domain d) = Some d"
| "as_domain DnsError = None"
| "as_domain (Leaf t) = None"
| "as_domain (NetError t) = None"

text \<open>\<open>failure.Error\<close> prints the code only; the cause stays reachable by \<open>errors.As\<close>.\<close>

fun error_text :: "'d go_error \<Rightarrow> string option" where
  "error_text (Failure c e) = Some (code_string c)"
| "error_text e = None"

definition wrap :: "code \<Rightarrow> 'd go_error option \<Rightarrow> 'd go_error option" where
  "wrap c err = (case err of None \<Rightarrow> None | Some e \<Rightarrow> Some (Failure c e))"

definition fallback :: "code \<Rightarrow> 'd go_error option \<Rightarrow> 'd go_error option" where
  "fallback c err =
     (case err of None \<Rightarrow> None
      | Some e \<Rightarrow> wrap (case as_failure e of Some k \<Rightarrow> k | None \<Rightarrow> c) err)"

definition reason :: "'d go_error option \<Rightarrow> code \<Rightarrow> string" where
  "reason err c =
     (case err of None \<Rightarrow> code_string c
      | Some e \<Rightarrow> (case as_failure e of Some k \<Rightarrow> code_string k | None \<Rightarrow> code_string c))"

definition network :: "'d go_error \<Rightarrow> code \<Rightarrow> code \<Rightarrow> code \<Rightarrow> 'd go_error" where
  "network e dns timeout other =
     (if as_dns e then Failure dns e
      else if as_net_timeout e then Failure timeout e
      else Failure other e)"

lemma as_failure_network [simp]:
  "as_failure (network e dns timeout other) =
     Some (if as_dns e then dns else if as_net_timeout e then timeout else other)"
  by (simp add: network_def)

lemma fallback_keeps: "as_failure e = Some k \<Longrightarrow> fallback c (Some e) = Some (Failure k e)"
  by (simp add: fallback_def wrap_def)

text \<open>
  A label is always one of the twenty-five names and never text of the error or of the
  server: a classified error keeps its own code whatever the fallback of an outer layer is,
  an unclassified one takes the fallback, and distinct codes have distinct labels.
\<close>

theorem reason_closed:
  "reason (fallback c err) d =
     code_string (case err of None \<Rightarrow> d
                  | Some e \<Rightarrow> (case as_failure e of Some k \<Rightarrow> k | None \<Rightarrow> c)) \<and>
   reason err d \<in> set names \<and> (code_string c = code_string d) = (c = d)"
  by (auto simp: reason_def fallback_def wrap_def code_string_in_names code_string_inject
      split: option.split)

end
