(* ===== verification/NutClient.thy ===== *)
theory NutClient
  imports NutParser GoNet Diagnostic
begin

text \<open>
  \<open>internal/nut/client.go\<close>: the configuration checks of \<open>New\<close>, the bounded scanner of one
  connection, the USERNAME, PASSWORD and LIST VAR exchanges and \<open>Poll\<close>.  A connection is
  the list of lines the scanner will deliver, the error it ends with, the number of writes
  the socket still takes, and what has been written: a server, friendly or not, is an
  arbitrary value of these.
\<close>

section \<open>Configuration\<close>

record nut_config =
  Address :: string
  UPSName :: string
  Username :: string
  Password :: string
  Timeout :: int
  MaxLineBytes :: int
  MaxListItems :: int
  MaxTotalBytes :: int

definition second :: int where "second = 1000000000"

definition default_to :: "int \<Rightarrow> int \<Rightarrow> int" where
  "default_to d v = (if v = 0 then d else v)"

definition with_defaults :: "nut_config \<Rightarrow> nut_config" where
  "with_defaults c =
     c\<lparr>Timeout := default_to (5 * second) (Timeout c),
       MaxLineBytes := default_to (64 * 1024) (MaxLineBytes c),
       MaxListItems := default_to 4096 (MaxListItems c),
       MaxTotalBytes := default_to 4194304 (MaxTotalBytes c)\<rparr>"

definition new_client :: "nut_config \<Rightarrow> (string, nut_config) result" where
  "new_client c0 =
     (let c = with_defaults c0 in
      guard (Address c0 = []) ''nut address cannot be empty'' (
      guard (split_host_port (Address c0) = None) ''invalid nut address'' (
      guard (\<not> safe_token (UPSName c0)) ''invalid nut UPS name'' (
      guard ((Username c0 = []) \<noteq> (Password c0 = [])) ''nut username and password must be supplied together'' (
      guard (Username c0 \<noteq> [] \<and> \<not> valid_credential (Username c0)) ''invalid nut username'' (
      guard (Username c0 \<noteq> [] \<and> \<not> valid_credential (Password c0)) ''invalid nut password'' (
      guard (Timeout c < 0 \<or> Timeout c > 600 * second) ''nut timeout'' (
      guard (MaxLineBytes c < 256 \<or> MaxLineBytes c > 1024 * 1024) ''nut maximum line size'' (
      guard (MaxListItems c < 1 \<or> MaxListItems c > 65536) ''nut maximum list size'' (
      guard (MaxTotalBytes c < 256 \<or> MaxTotalBytes c > 67108864) ''nut maximum variable data size''
      (Inr c)))))))))))"

definition config_ok :: "nut_config \<Rightarrow> bool" where
  "config_ok c \<longleftrightarrow>
     safe_token (UPSName c) \<and> (Username c = [] \<longleftrightarrow> Password c = []) \<and>
     (Username c \<noteq> [] \<longrightarrow> valid_credential (Username c) \<and> valid_credential (Password c)) \<and>
     0 < Timeout c \<and> Timeout c \<le> 600 * second \<and>
     256 \<le> MaxLineBytes c \<and> MaxLineBytes c \<le> 1048576 \<and>
     1 \<le> MaxListItems c \<and> MaxListItems c \<le> 65536 \<and>
     256 \<le> MaxTotalBytes c \<and> MaxTotalBytes c \<le> 67108864"

lemma with_defaults_fields:
  "UPSName (with_defaults c) = UPSName c" "Username (with_defaults c) = Username c"
  "Password (with_defaults c) = Password c" "Address (with_defaults c) = Address c"
  "Timeout (with_defaults c) \<noteq> 0"
  by (simp_all add: with_defaults_def default_to_def second_def)

lemma new_client_ok [result_elims]:
  assumes "new_client c0 = Inr c"
  shows "config_ok c"
proof -
  have eq: "with_defaults c0 = c" using assms by (simp add: new_client_def Let_def)
  have h: "c = with_defaults c0" "safe_token (UPSName c0)" "(Username c0 = []) = (Password c0 = [])"
      "\<not> (Username c0 \<noteq> [] \<and> \<not> valid_credential (Username c0))"
      "\<not> (Username c0 \<noteq> [] \<and> \<not> valid_credential (Password c0))"
      "\<not> (Timeout c < 0 \<or> Timeout c > 600 * second)"
      "\<not> (MaxLineBytes c < 256 \<or> MaxLineBytes c > 1024 * 1024)"
      "\<not> (MaxListItems c < 1 \<or> MaxListItems c > 65536)"
      "\<not> (MaxTotalBytes c < 256 \<or> MaxTotalBytes c > 67108864)"
    using assms by (simp_all add: new_client_def Let_def eq) blast+
  have "UPSName c = UPSName c0" "Username c = Username c0" "Password c = Password c0" "Timeout c \<noteq> 0"
    by (simp_all only: h(1) with_defaults_fields not_False_eq_True)
  then show ?thesis using h(2-) by (simp add: config_ok_def) linarith
qed

section \<open>The scanner and the wire\<close>

datatype server_error = ServerError string

type_synonym nut_error = "server_error go_error"

record wire =
  Inbox :: "string list"
  Fate :: "nut_error option"
  Sendable :: nat
  Outbox :: "string list"

text \<open>
  \<open>bufio.Scanner\<close> with \<open>ScanLines\<close>: a line, its line feed included, must fit the buffer,
  which never shrinks below the 4096 bytes it is created with.  When the stream ends, by
  end of file or by a read error, the unterminated rest is still delivered.  Fate is the
  \<open>Err()\<close> of the scanner, None for end of file.
\<close>

definition scan_limit :: "int \<Rightarrow> nat" where
  "scan_limit max_line = max 4096 (nat max_line)"

definition drop_cr :: "string \<Rightarrow> string" where
  "drop_cr l = trim_suffix_char cr l"

function scan_lines :: "nat \<Rightarrow> string \<Rightarrow> nut_error option \<Rightarrow> string list \<times> nut_error option" where
  "scan_lines limit s end_err =
     (if lf \<in> set s then
        (let l = takeWhile (\<lambda>c. c \<noteq> lf) s; rest = tl (dropWhile (\<lambda>c. c \<noteq> lf) s) in
         if limit \<le> length l then ([], Some (Leaf ''bufio.Scanner: token too long''))
         else let (ls, e) = scan_lines limit rest end_err in (drop_cr l # ls, e))
      else if limit \<le> length s then ([], Some (Leaf ''bufio.Scanner: token too long''))
      else (if s = [] then [] else [drop_cr s], end_err))"
  by pat_completeness auto
termination
proof (relation "measure (\<lambda>(_, s, _). length s)", goal_cases)
  case (2 limit s end_err l rest)
  then have "dropWhile (\<lambda>c. c \<noteq> lf) s \<noteq> []" by auto
  then have "length rest < length (dropWhile (\<lambda>c. c \<noteq> lf) s)" using 2 by (simp add: neq_Nil_conv)
  then show ?case using dropWhile_length_le [of "\<lambda>c. c \<noteq> lf" s] by simp
qed simp

declare scan_lines.simps [simp del]

definition new_wire :: "int \<Rightarrow> string \<Rightarrow> nut_error option \<Rightarrow> nat \<Rightarrow> wire" where
  "new_wire max_line received end_err sendable =
     (case scan_lines (scan_limit max_line) received end_err of
        (ls, e) \<Rightarrow> \<lparr>Inbox = ls, Fate = e, Sendable = sendable, Outbox = []\<rparr>)"

definition wire_write :: "string \<Rightarrow> string \<Rightarrow> wire \<Rightarrow> (nut_error, wire) result" where
  "wire_write line operation w =
     guard (cr \<in> set line \<or> lf \<in> set line) (Leaf (operation @ '': request contains a line break'')) (
     guard (Sendable w = 0) (Wrapped (operation @ '': write request'') (NetError False))
     (Inr (w\<lparr>Outbox := Outbox w @ [line @ [lf]], Sendable := Sendable w - 1\<rparr>)))"

definition server_code :: "string list \<Rightarrow> string" where
  "server_code tokens =
     (if 2 \<le> length tokens \<and> safe_error_code (tokens ! 1) then tokens ! 1 else ''SERVER-ERROR'')"

definition wire_read :: "string \<Rightarrow> wire \<Rightarrow> (nut_error, (string list \<times> int) \<times> wire) result" where
  "wire_read operation w =
     (case Inbox w of
        [] \<Rightarrow> Inl (Wrapped (operation @ '': read response'')
                  (case Fate w of Some e \<Rightarrow> e | None \<Rightarrow> Leaf ''unexpected EOF''))
      | l # ls \<Rightarrow>
          (let raw = drop_cr l in
           case parse_line raw of
             Inl _ \<Rightarrow> Inl (Leaf (operation @ '': malformed response''))
           | Inr tokens \<Rightarrow>
               if 1 \<le> length tokens \<and> hd tokens = ''ERR'' then Inl (Domain (ServerError (server_code tokens)))
               else Inr ((tokens, int (length raw)), w\<lparr>Inbox := ls\<rparr>)))"

definition expect :: "string list \<Rightarrow> string \<Rightarrow> wire \<Rightarrow> (nut_error, wire) result" where
  "expect expected operation w =
     (case wire_read operation w of
        Inl e \<Rightarrow> Inl e
      | Inr ((tokens, _), w') \<Rightarrow>
          guard (tokens \<noteq> expected) (Leaf (operation @ '': unexpected nut response'')) (Inr w'))"

definition expect_ok :: "string \<Rightarrow> wire \<Rightarrow> (nut_error, wire) result" where
  "expect_ok operation w = expect [''OK''] operation w"

definition bind :: "('e, 'a) result \<Rightarrow> ('a \<Rightarrow> ('e, 'b) result) \<Rightarrow> ('e, 'b) result" where
  "bind r f = (case r of Inl e \<Rightarrow> Inl e | Inr a \<Rightarrow> f a)"

lemma bind_simps [simp]: "bind (Inl e) f = Inl e" "bind (Inr a) f = f a"
  by (simp_all add: bind_def)

lemma bind_Inr: "bind r f = Inr b \<longleftrightarrow> (\<exists>a. r = Inr a \<and> f a = Inr b)"
  by (cases r) simp_all

definition authenticate :: "nut_config \<Rightarrow> wire \<Rightarrow> (nut_error, wire) result" where
  "authenticate c w =
     (if Username c = [] then Inr w
      else bind (wire_write (''USERNAME '' @ format_argument (Username c)) ''username'' w) (\<lambda>w1.
           bind (expect_ok ''username'' w1) (\<lambda>w2.
           bind (wire_write (''PASSWORD '' @ format_argument (Password c)) ''password'' w2) (\<lambda>w3.
           expect_ok ''password'' w3))))"

section \<open>LIST VAR\<close>

text \<open>The loop of \<open>listVariables\<close>, with its count, its byte total and its map.\<close>

lemma wire_read_shorter: "wire_read op w = Inr (r, w') \<Longrightarrow> length (Inbox w') < length (Inbox w)"
  by (auto simp: wire_read_def Let_def split: list.splits sum.splits if_splits)

function collect :: "nut_config \<Rightarrow> int \<Rightarrow> int \<Rightarrow> (string \<rightharpoonup> string) \<Rightarrow> wire \<Rightarrow>
    (nut_error, (string \<rightharpoonup> string) \<times> wire) result" where
  "collect c count total_bytes vars w =
     (case wire_read ''list variables'' w of
        Inl e \<Rightarrow> Inl e
      | Inr ((tokens, raw_bytes), w') \<Rightarrow>
          if tokens = [''END'', ''LIST'', ''VAR'', UPSName c] then Inr (vars, w')
          else if length tokens \<noteq> 4 \<or> tokens ! 0 \<noteq> ''VAR'' \<or> tokens ! 1 \<noteq> UPSName c \<or>
                  \<not> safe_token (tokens ! 2)
          then Inl (Leaf ''malformed nut variable list entry'')
          else if MaxListItems c \<le> count
          then Inl (Leaf ''nut variable list exceeds configured item limit'')
          else if vars (tokens ! 2) \<noteq> None then Inl (Leaf ''duplicate nut variable in list'')
          else if MaxTotalBytes c - total_bytes < raw_bytes
          then Inl (Leaf ''nut variable list exceeds configured byte limit'')
          else collect c (count + 1) (total_bytes + raw_bytes) (vars(tokens ! 2 \<mapsto> tokens ! 3)) w')"
  by pat_completeness auto
termination
  by (relation "measure (\<lambda>(_, _, _, _, w). length (Inbox w))") (auto dest: wire_read_shorter)

declare collect.simps [simp del]

definition list_variables :: "nut_config \<Rightarrow> wire \<Rightarrow> (nut_error, (string \<rightharpoonup> string) \<times> wire) result" where
  "list_variables c w =
     bind (wire_write (''LIST VAR '' @ UPSName c) ''list variables'' w) (\<lambda>w1.
     bind (expect [''BEGIN'', ''LIST'', ''VAR'', UPSName c] ''list variables'' w1) (\<lambda>w2.
     collect c 0 0 Map.empty w2))"

section \<open>Poll\<close>

record snapshot =
  SnapUPSName :: string
  Variables :: "(string \<rightharpoonup> string) option"
  CollectedAt :: int

definition classify_poll_error :: "nut_error \<Rightarrow> code \<Rightarrow> nut_error" where
  "classify_poll_error e other =
     (case as_domain e of
        Some (ServerError k) \<Rightarrow>
          if k \<in> {''ACCESS-DENIED'', ''INVALID-PASSWORD'', ''PASSWORD-REQUIRED'', ''USERNAME-REQUIRED''}
          then Failure NUTAuth e
          else if k = ''UNKNOWN-UPS'' then Failure NUTUnknownUPS e
          else if k \<in> {''DATA-STALE'', ''DRIVER-NOT-CONNECTED''} then Failure NUTUnavailable e
          else network e NUTDNS NUTTimeout other
      | None \<Rightarrow> network e NUTDNS NUTTimeout other)"

text \<open>
  \<open>connect\<close>: dialling and setting the deadline are the socket's; here they give an error
  or the connection.
\<close>

datatype dial = DialFailed nut_error | DeadlineFailed nut_error | Connected wire

definition connect :: "dial \<Rightarrow> (nut_error, wire) result" where
  "connect d =
     (case d of
        DialFailed e \<Rightarrow> Inl (network e NUTDNS NUTTimeout NUTConnect)
      | DeadlineFailed e \<Rightarrow> Inl (Wrapped ''set nut connection deadline'' e)
      | Connected w \<Rightarrow> Inr w)"

definition poll :: "nut_config \<Rightarrow> dial \<Rightarrow> int \<Rightarrow> (nut_error, snapshot) result" where
  "poll c d now =
     (case connect d of
        Inl e \<Rightarrow> Inl e
      | Inr w \<Rightarrow>
          (case authenticate c w of
             Inl e \<Rightarrow> Inl (classify_poll_error e NUTAuth)
           | Inr w1 \<Rightarrow>
               (case list_variables c w1 of
                  Inl e \<Rightarrow> Inl (classify_poll_error e NUTProtocol)
                | Inr (vars, _) \<Rightarrow>
                    Inr \<lparr>SnapUPSName = UPSName c, Variables = Some vars, CollectedAt = now\<rparr>)))"

section \<open>What the loop keeps\<close>

definition var_bytes :: "(string \<rightharpoonup> string) \<Rightarrow> nat" where
  "var_bytes m = (\<Sum>k \<in> dom m. length k + length (the (m k)))"

definition vars_ok :: "nut_config \<Rightarrow> (string \<rightharpoonup> string) \<Rightarrow> bool" where
  "vars_ok c m \<longleftrightarrow>
     finite (dom m) \<and> int (card (dom m)) \<le> MaxListItems c \<and> int (var_bytes m) \<le> MaxTotalBytes c \<and>
     (\<forall>k v. m k = Some v \<longrightarrow> safe_token k \<and> clean_token v)"

lemma var_bytes_insert:
  "finite (dom m) \<Longrightarrow> m k = None \<Longrightarrow> var_bytes (m(k \<mapsto> v)) = length k + length v + var_bytes m"
  by (subgoal_tac "k \<notin> dom m") (auto simp: var_bytes_def intro!: sum.cong)

lemma drop_cr_le: "length (drop_cr l) \<le> length l"
  by (simp add: drop_cr_def trim_suffix_char_def)

lemma wire_read_tokens:
  assumes "wire_read op w = Inr ((tokens, n), w')"
  shows "(\<forall>t \<in> set tokens. clean_token t) \<and> int (sum_list (map length tokens)) \<le> n \<and>
    Outbox w' = Outbox w"
  using assms tokenize_sound [of "[]"]
  by (auto simp: wire_read_def Let_def parse_line_def split: list.splits sum.splits if_splits)

lemma four_tokens: "length ts = 4 \<Longrightarrow> length (ts ! 2) + length (ts ! 3) \<le> sum_list (map length ts)"
  by (auto simp: numeral_eq_Suc length_Suc_conv)

lemma collect_read:
  "wire_read ''list variables'' w = Inr ((tokens, n), w1) \<Longrightarrow>
   collect c count total_bytes vars w =
     (if tokens = [''END'', ''LIST'', ''VAR'', UPSName c] then Inr (vars, w1)
      else if length tokens \<noteq> 4 \<or> tokens ! 0 \<noteq> ''VAR'' \<or> tokens ! 1 \<noteq> UPSName c \<or> \<not> safe_token (tokens ! 2)
      then Inl (Leaf ''malformed nut variable list entry'')
      else if MaxListItems c \<le> count then Inl (Leaf ''nut variable list exceeds configured item limit'')
      else if vars (tokens ! 2) \<noteq> None then Inl (Leaf ''duplicate nut variable in list'')
      else if MaxTotalBytes c - total_bytes < n
      then Inl (Leaf ''nut variable list exceeds configured byte limit'')
      else collect c (count + 1) (total_bytes + n) (vars(tokens ! 2 \<mapsto> tokens ! 3)) w1)"
  by (subst collect.simps) (simp only: sum.case prod.case)

lemma if_Inl_Inr: "(if b then Inl e else r) = Inr x \<longleftrightarrow> \<not> b \<and> r = Inr x"
  by simp

lemma collect_read_fails: "wire_read ''list variables'' w = Inl e \<Longrightarrow> collect c count total_bytes vars w = Inl e"
  by (subst collect.simps) simp

lemma collect_sound:
  assumes "collect c count total_bytes vars w = Inr (m, w')"
    and "vars_ok c vars" "count = int (card (dom vars))" "int (var_bytes vars) \<le> total_bytes" "total_bytes \<le> MaxTotalBytes c"
  shows "vars_ok c m \<and> Outbox w' = Outbox w"
  using assms
proof (induction c count total_bytes vars w rule: collect.induct)
  case (1 c count total_bytes vars w)
  obtain tokens n w1 where r: "wire_read ''list variables'' w = Inr ((tokens, n), w1)"
    using "1.prems"(1) collect_read_fails [of w] by (cases "wire_read ''list variables'' w") auto
  note t = wire_read_tokens [OF r]
  show ?case
  proof (cases "tokens = [''END'', ''LIST'', ''VAR'', UPSName c]")
    case True
    then show ?thesis using "1.prems"(1,2) t unfolding collect_read [OF r] by simp
  next
    case False
    let ?m = "vars(tokens ! 2 \<mapsto> tokens ! 3)"
    have all: "\<not> (length tokens \<noteq> 4 \<or> tokens ! 0 \<noteq> ''VAR'' \<or> tokens ! 1 \<noteq> UPSName c \<or> \<not> safe_token (tokens ! 2)) \<and>
        \<not> MaxListItems c \<le> count \<and> \<not> vars (tokens ! 2) \<noteq> None \<and> \<not> MaxTotalBytes c - total_bytes < n \<and>
        collect c (count + 1) (total_bytes + n) ?m w1 = Inr (m, w')"
      using "1.prems"(1) unfolding collect_read [OF r] if_not_P [OF False] if_Inl_Inr .
    note g = all [THEN conjunct1] all [THEN conjunct2, THEN conjunct1]
      all [THEN conjunct2, THEN conjunct2, THEN conjunct1]
      all [THEN conjunct2, THEN conjunct2, THEN conjunct2, THEN conjunct1]
      all [THEN conjunct2, THEN conjunct2, THEN conjunct2, THEN conjunct2]
    have len: "length (tokens ! 2) + length (tokens ! 3) \<le> sum_list (map length tokens)"
      using g(1) by (intro four_tokens) blast
    have new: "vars (tokens ! 2) = None" "finite (dom vars)" using g(3) "1.prems"(2) by (auto simp: vars_ok_def)
    then have card: "card (dom ?m) = Suc (card (dom vars))" by (simp add: domIff)
    have vb: "int (var_bytes ?m) \<le> total_bytes + n"
      using var_bytes_insert [OF new(2,1), of "tokens ! 3"] len t "1.prems"(4) by linarith
    have clean: "clean_token (tokens ! 3)" using t g(1) by simp
    have ok: "vars_ok c ?m"
      using "1.prems"(2,3) g(1,2,4) new card vb clean by (auto simp: vars_ok_def)
    have n: "count + 1 = int (card (dom ?m))" "total_bytes + n \<le> MaxTotalBytes c"
      using "1.prems"(3) g(4) card by simp_all
    have "vars_ok c m \<and> Outbox w' = Outbox w1"
      by (rule "1.IH" [OF r refl refl False g ok n(1) vb n(2)])
    then show ?thesis using t by simp
  qed
qed

definition login_lines :: "nut_config \<Rightarrow> string list" where
  "login_lines c =
     (if Username c = [] then []
      else [''USERNAME '' @ format_argument (Username c) @ [lf],
            ''PASSWORD '' @ format_argument (Password c) @ [lf]])"

lemma wire_write_outbox: "wire_write line op w = Inr w' \<Longrightarrow> Outbox w' = Outbox w @ [line @ [lf]]"
  by (auto simp: wire_write_def)

lemma expect_outbox: "expect ts op w = Inr w' \<Longrightarrow> Outbox w' = Outbox w"
  by (auto simp: expect_def split: sum.splits dest: wire_read_tokens)

lemma authenticate_outbox: "authenticate c w = Inr w' \<Longrightarrow> Outbox w' = Outbox w @ login_lines c"
  by (auto simp: authenticate_def login_lines_def bind_Inr expect_ok_def dest!: wire_write_outbox expect_outbox
      split: if_splits)

lemma list_variables_sound:
  assumes "list_variables c w = Inr (m, w')" "config_ok c"
  shows "vars_ok c m \<and> Outbox w' = Outbox w @ [''LIST VAR '' @ UPSName c @ [lf]]"
proof -
  obtain w1 w2 where w: "wire_write (''LIST VAR '' @ UPSName c) ''list variables'' w = Inr w1"
      "expect [''BEGIN'', ''LIST'', ''VAR'', UPSName c] ''list variables'' w1 = Inr w2"
      "collect c 0 0 Map.empty w2 = Inr (m, w')"
    using assms(1) by (auto simp: list_variables_def bind_Inr)
  have "vars_ok c Map.empty" using assms(2) by (simp add: vars_ok_def var_bytes_def config_ok_def)
  then have "vars_ok c m \<and> Outbox w' = Outbox w2"
    using assms(2) by (intro collect_sound [OF w(3)]) (simp_all add: var_bytes_def config_ok_def)
  then show ?thesis using wire_write_outbox [OF w(1)] expect_outbox [OF w(2)] by simp
qed

section \<open>What a well-behaved server sends\<close>

definition entry_line :: "nut_config \<Rightarrow> string \<times> string \<Rightarrow> string" where
  "entry_line c kv = ''VAR '' @ UPSName c @ blank # fst kv @ blank # quoted (snd kv)"

definition list_line :: "string \<Rightarrow> nut_config \<Rightarrow> string" where
  "list_line verb c = verb @ '' LIST VAR '' @ UPSName c"

lemma dec_word_tokens: "tokenize tokens (''VAR '' @ s) = tokenize (tokens @ [''VAR'']) s"
  using tokenize_format_argument [of "''VAR''" "blank # s" tokens]
  by (simp add: printable_def format_argument_def needs_quote_def separated_def is_blank_def ascii_def cbyte_def)

lemma tokenize_safe_token:
  "safe_token t \<Longrightarrow> separated rest \<Longrightarrow> tokenize tokens (t @ rest) = tokenize (tokens @ [t]) rest"
  using tokenize_format_argument [of t rest tokens] safe_token_plain [of t] by simp

lemma separated_blank [simp]: "separated (blank # s)" "separated []"
  by (simp_all add: separated_def is_blank_def)

lemma is_blank_blank [simp]: "is_blank blank"
  by (simp add: is_blank_def)

lemma parse_entry_line:
  assumes "safe_token (UPSName c)" "safe_token k" "printable v"
  shows "parse_line (entry_line c (k, v)) = Inr [''VAR'', UPSName c, k, v]"
proof -
  have "valid_utf8 (entry_line c (k, v))"
    using assms safe_token_plain [of k] safe_token_plain [of "UPSName c"] quote_body_valid [of v]
    by (simp add: entry_line_def quoted_def valid_utf8_append printable_def ascii_def cbyte_def)
  moreover have "tokenize [] (entry_line c (k, v)) = Inr [''VAR'', UPSName c, k, v]"
    using assms tokenize_quoted_value [of v "[]"]
    unfolding entry_line_def by (simp only: dec_word_tokens fst_conv snd_conv) (simp add: tokenize_safe_token)
  ultimately show ?thesis by (simp add: parse_line_def)
qed

lemma parse_list_line:
  assumes "safe_token (UPSName c)" "safe_token verb"
  shows "parse_line (list_line verb c) = Inr [verb, ''LIST'', ''VAR'', UPSName c]"
proof -
  have "safe_token ''LIST''" "safe_token ''VAR''"
    by (simp_all add: safe_token_def runes_def token_rune_def alnum_byte_def ascii_def cbyte_def)
  then have "\<forall>t \<in> set [verb, ''LIST'', ''VAR'', UPSName c]. printable t \<and> t \<noteq> []"
    "map format_argument [verb, ''LIST'', ''VAR'', UPSName c] = [verb, ''LIST'', ''VAR'', UPSName c]"
    using assms safe_token_plain by auto
  with parse_line_join [of "[verb, ''LIST'', ''VAR'', UPSName c]"] show ?thesis
    by (simp add: list_line_def)
qed

lemma drop_cr_id: "last l \<noteq> cr \<Longrightarrow> drop_cr l = l"
  by (simp add: drop_cr_def trim_suffix_char_def)

definition served :: "nut_config \<Rightarrow> (string \<times> string) list \<Rightarrow> string list" where
  "served c kvs = list_line ''BEGIN'' c # map (entry_line c) kvs @ [list_line ''END'' c]"

definition serveable :: "nut_config \<Rightarrow> (string \<times> string) list \<Rightarrow> bool" where
  "serveable c kvs \<longleftrightarrow>
     distinct (map fst kvs) \<and> (\<forall>(k, v) \<in> set kvs. safe_token k \<and> printable v) \<and>
     int (length kvs) \<le> MaxListItems c \<and>
     int (sum_list (map (length \<circ> entry_line c) kvs)) \<le> MaxTotalBytes c"

lemma read_entry:
  assumes "safe_token (UPSName c)" "safe_token k" "printable v" "Inbox w = entry_line c (k, v) # ls"
  shows "wire_read op w =
    Inr (([''VAR'', UPSName c, k, v], int (length (entry_line c (k, v)))), w\<lparr>Inbox := ls\<rparr>)"
proof -
  have "drop_cr (entry_line c (k, v)) = entry_line c (k, v)"
    by (rule drop_cr_id) (simp add: entry_line_def quoted_def)
  with parse_entry_line [OF assms(1-3)] assms(4) show ?thesis by (simp add: wire_read_def)
qed

lemma safe_token_last: "safe_token t \<Longrightarrow> last t \<noteq> cr"
  using safe_token_plain(1,2) [of t] last_in_set [of t] unfolding printable_def by metis

lemma quote_body_set: "valid_utf8 v \<Longrightarrow> set (quote_body v) \<subseteq> insert backslash (set v)"
proof (induction v rule: valid_utf8_induct)
  case (Ascii c cs)
  then show ?case by (auto simp: quote_body_ascii)
next
  case (Multi r bs rest)
  then show ?case by (auto simp: quote_body_multi)
qed (simp add: quote_body_def)

lemma served_line:
  assumes "safe_token (UPSName c)" "serveable c kvs" "l \<in> set (served c kvs)"
  shows "lf \<notin> set l \<and> drop_cr l = l"
proof -
  have u: "lf \<notin> set (UPSName c)" "UPSName c \<noteq> []" "last (UPSName c) \<noteq> cr"
    using safe_token_plain(1,2) [OF assms(1)] safe_token_last [OF assms(1)] by (auto simp: printable_def)
  consider verb where "verb \<in> {''BEGIN'', ''END''}" "l = list_line verb c"
    | k v where "safe_token k" "printable v" "l = entry_line c (k, v)"
    using assms(2,3) by (auto simp: served_def serveable_def)
  then show ?thesis
  proof cases
    case 1
    then show ?thesis using u by (auto simp: list_line_def intro!: drop_cr_id)
  next
    case 2
    then have "lf \<notin> set k" "lf \<notin> set (quote_body v)"
      using safe_token_plain(1) [of k] quote_body_set [of v] by (auto simp: printable_def)
    then show ?thesis using u 2 by (auto simp: entry_line_def quoted_def intro!: drop_cr_id)
  qed
qed

lemma read_list_line:
  assumes "safe_token (UPSName c)" "verb \<in> {''BEGIN'', ''END''}" "Inbox w = list_line verb c # ls"
  shows "wire_read op w =
    Inr (([verb, ''LIST'', ''VAR'', UPSName c], int (length (list_line verb c))), w\<lparr>Inbox := ls\<rparr>)"
proof -
  have v: "safe_token verb" "verb \<noteq> ''ERR''"
    using assms(2) by (auto simp: safe_token_def runes_def token_rune_def alnum_byte_def ascii_def cbyte_def)
  have "drop_cr (list_line verb c) = list_line verb c"
    using safe_token_last [OF assms(1)] assms(1)
    by (intro drop_cr_id) (auto simp: list_line_def safe_token_def last_append)
  with parse_list_line [OF assms(1) v(1)] v(2) assms(3) show ?thesis by (simp add: wire_read_def)
qed

lemma collect_served:
  assumes "safe_token (UPSName c)" "Inbox w = map (entry_line c) kvs @ list_line ''END'' c # ls"
    and "distinct (map fst kvs)" "\<forall>(k, v) \<in> set kvs. safe_token k \<and> printable v"
    and "count + int (length kvs) \<le> MaxListItems c"
    and "total_bytes + int (sum_list (map (length \<circ> entry_line c) kvs)) \<le> MaxTotalBytes c"
    and "\<forall>k \<in> fst ` set kvs. vars k = None"
  shows "collect c count total_bytes vars w = Inr (vars ++ map_of kvs, w\<lparr>Inbox := ls\<rparr>)"
  using assms
proof (induction kvs arbitrary: count total_bytes vars w)
  case Nil
  then have r: "wire_read ''list variables'' w =
      Inr (([''END'', ''LIST'', ''VAR'', UPSName c], int (length (list_line ''END'' c))), w\<lparr>Inbox := ls\<rparr>)"
    by (intro read_list_line) simp_all
  show ?case by (simp add: collect_read [OF r])
next
  case (Cons kv kvs)
  obtain k v where kv: "kv = (k, v)" by (cases kv)
  let ?n = "int (length (entry_line c (k, v)))" and ?w = "w\<lparr>Inbox := map (entry_line c) kvs @ list_line ''END'' c # ls\<rparr>"
  have k: "safe_token k" "printable v" "vars k = None" using Cons.prems(4,7) kv by auto
  have r: "wire_read ''list variables'' w = Inr (([''VAR'', UPSName c, k, v], ?n), ?w)"
    using Cons.prems(1,2) k kv by (intro read_entry) simp_all
  have "collect c count total_bytes vars w = collect c (count + 1) (total_bytes + ?n) (vars(k \<mapsto> v)) ?w"
    using Cons.prems(5,6) k kv unfolding collect_read [OF r] by simp
  also have "\<dots> = Inr (vars(k \<mapsto> v) ++ map_of kvs, ?w\<lparr>Inbox := ls\<rparr>)"
    using Cons.prems kv by (intro Cons.IH) auto
  also have "vars(k \<mapsto> v) ++ map_of kvs = vars ++ map_of (kv # kvs)"
    using Cons.prems(3) kv
    by (auto simp: map_add_def fun_eq_iff split: option.splits dest!: map_of_SomeD intro: rev_image_eqI)
  also have "?w\<lparr>Inbox := ls\<rparr> = w\<lparr>Inbox := ls\<rparr>" by simp
  finally show ?case .
qed

lemma safe_token_line: "safe_token t \<Longrightarrow> cr \<notin> set t \<and> lf \<notin> set t"
  using safe_token_plain(1) [of t] by (simp add: printable_def)

lemma list_variables_served:
  assumes "config_ok c" "serveable c kvs" "Inbox w = served c kvs @ ls" "Sendable w = Suc n"
  shows "list_variables c w =
    Inr (map_of kvs, w\<lparr>Inbox := ls, Sendable := n, Outbox := Outbox w @ [''LIST VAR '' @ UPSName c @ [lf]]\<rparr>)"
proof -
  have u: "safe_token (UPSName c)" using assms(1) by (simp add: config_ok_def)
  let ?w1 = "w\<lparr>Sendable := n, Outbox := Outbox w @ [''LIST VAR '' @ UPSName c @ [lf]]\<rparr>"
  let ?w2 = "?w1\<lparr>Inbox := map (entry_line c) kvs @ list_line ''END'' c # ls\<rparr>"
  have w1: "wire_write (''LIST VAR '' @ UPSName c) ''list variables'' w = Inr ?w1"
    using safe_token_line [OF u] assms(4) by (simp add: wire_write_def)
  have "wire_read ''list variables'' ?w1 =
      Inr (([''BEGIN'', ''LIST'', ''VAR'', UPSName c], int (length (list_line ''BEGIN'' c))), ?w2)"
    using u assms(3) by (subst read_list_line) (simp_all add: served_def)
  then have w2: "expect [''BEGIN'', ''LIST'', ''VAR'', UPSName c] ''list variables'' ?w1 = Inr ?w2"
    by (simp add: expect_def)
  have "collect c 0 0 Map.empty ?w2 = Inr (Map.empty ++ map_of kvs, ?w2\<lparr>Inbox := ls\<rparr>)"
    using assms(2) by (intro collect_served [OF u]) (simp_all add: serveable_def)
  then show ?thesis using w1 w2 by (simp add: list_variables_def)
qed

section \<open>The scanner delivers the lines the server sent\<close>

lemma scan_lines_cons:
  assumes "lf \<notin> set l" "length l < limit"
  shows "scan_lines limit (l @ lf # s) end_err =
    (case scan_lines limit s end_err of (ls, e) \<Rightarrow> (drop_cr l # ls, e))"
proof -
  have "\<forall>c \<in> set l. c \<noteq> lf" using assms(1) by auto
  then have "takeWhile (\<lambda>c. c \<noteq> lf) (l @ lf # s) = l" "dropWhile (\<lambda>c. c \<noteq> lf) (l @ lf # s) = lf # s"
    by (simp_all add: takeWhile_append_stop dropWhile_append_stop)
  with assms show ?thesis by (subst scan_lines.simps) (simp add: Let_def split: prod.split)
qed

lemma scan_lines_sent:
  "\<forall>l \<in> set lines. lf \<notin> set l \<and> length l < limit \<Longrightarrow>
   scan_lines limit (concat (map (\<lambda>l. l @ [lf]) lines) @ s) end_err =
     (case scan_lines limit s end_err of (ls, e) \<Rightarrow> (map drop_cr lines @ ls, e))"
  by (induction lines) (auto simp: scan_lines_cons split: prod.split)

lemma scan_lines_bounded:
  "\<forall>l \<in> set (fst (scan_lines limit s e)). length l < limit \<and> lf \<notin> set l"
proof (induction limit s e rule: scan_lines.induct)
  case (1 limit s e)
  have d: "lf \<notin> set l \<Longrightarrow> length l < limit \<Longrightarrow> length (drop_cr l) < limit \<and> lf \<notin> set (drop_cr l)" for l
    by (auto simp: drop_cr_def trim_suffix_char_def dest: in_set_butlastD)
  have "lf \<notin> set (takeWhile (\<lambda>c. c \<noteq> lf) s)" using set_takeWhileD by fastforce
  with 1 d show ?case by (subst scan_lines.simps) (auto simp: Let_def split: prod.splits)
qed

section \<open>Properties\<close>

text \<open>
  C36: A configuration \<open>New\<close> accepts is within every bound of the client, and whatever a
  server sends, a successful exchange gives at most the configured number of variables,
  whose names are safe tokens, whose values hold no line break, and whose total size is
  within the configured bytes; and the only lines written are the login and LIST VAR.
\<close>

theorem exchange_bounded:
  assumes "new_client c0 = Inr c" "authenticate c w = Inr w1" "list_variables c w1 = Inr (m, w2)"
  shows "config_ok c \<and> vars_ok c m \<and>
    Outbox w2 = Outbox w @ login_lines c @ [''LIST VAR '' @ UPSName c @ [lf]]"
  using new_client_ok [OF assms(1)] list_variables_sound [OF assms(3)] authenticate_outbox [OF assms(2)]
  by simp

definition demo_config :: nut_config where
  "demo_config = \<lparr>Address = ''u:1'', UPSName = ''u'', Username = [], Password = [],
     Timeout = 0, MaxLineBytes = 0, MaxListItems = 0, MaxTotalBytes = 0\<rparr>"

definition demo_wire :: wire where
  "demo_wire = \<lparr>Inbox = served demo_config [(''a'', ''1'')], Fate = None, Sendable = 1, Outbox = []\<rparr>"

lemma demo_config_new: "new_client demo_config = Inr (with_defaults demo_config)"
  by (simp add: new_client_def demo_config_def Let_def with_defaults_def default_to_def second_def
      split_host_port_def last_colon_def cut_def safe_token_def runes_def ascii_def cbyte_def
      token_rune_def alnum_byte_def)

lemma demo_served:
  "config_ok (with_defaults demo_config)" "serveable (with_defaults demo_config) [(''a'', ''1'')]"
  "Inbox demo_wire = served (with_defaults demo_config) [(''a'', ''1'')] @ []" "Sendable demo_wire = Suc 0"
  using new_client_ok [OF demo_config_new]
  by (simp_all add: serveable_def demo_wire_def served_def list_line_def entry_line_def with_defaults_def
      default_to_def demo_config_def safe_token_def runes_def ascii_def cbyte_def token_rune_def
      alnum_byte_def printable_def quoted_def quote_body_def quote_segment_def)

theorem exchange_bounded_witness:
  "vars_ok (with_defaults demo_config) (map_of [(''a'', ''1'')])"
  using exchange_bounded [OF demo_config_new, of demo_wire demo_wire]
    list_variables_served [OF demo_served]
  by (simp add: authenticate_def with_defaults_fields demo_config_def)

text \<open>
  A server that lists variables in the protocol's form, with distinct names and within
  the configured bounds, is read back exactly: the map of \<open>listVariables\<close> has the values
  that were served and nothing else, and what follows the list is left unread.
\<close>

theorem served_list_is_read_back:
  assumes "config_ok c" "serveable c kvs" "Sendable w = Suc n" "Inbox w = served c kvs @ ls"
  shows "\<exists>w'. list_variables c w = Inr (map_of kvs, w') \<and> Inbox w' = ls"
  using list_variables_served [OF assms(1,2,4,3)] by simp

theorem served_list_is_read_back_witness:
  "\<exists>w'. list_variables (with_defaults demo_config) demo_wire = Inr (map_of [(''a'', ''1'')], w') \<and> Inbox w' = []"
  by (rule served_list_is_read_back [OF demo_served(1,2,4,3)])

text \<open>
  \<open>Poll\<close> at the level of the bytes on the socket: when the stream holds the lines of the
  list, each shorter than the buffer, the snapshot has exactly the served variables, the
  configured UPS name and the time of the collection.
\<close>

theorem poll_reads_served_bytes:
  assumes "config_ok c" "Username c = []" "serveable c kvs"
    and "\<forall>l \<in> set (served c kvs). length l < scan_limit (MaxLineBytes c)"
  shows "poll c (Connected (new_wire (MaxLineBytes c)
      (concat (map (\<lambda>l. l @ [lf]) (served c kvs)) @ tail) end_err (Suc n))) now =
    Inr \<lparr>SnapUPSName = UPSName c, Variables = Some (map_of kvs), CollectedAt = now\<rparr>"
proof -
  obtain ls e where rest: "scan_lines (scan_limit (MaxLineBytes c)) tail end_err = (ls, e)" by fastforce
  have line: "lf \<notin> set l \<and> drop_cr l = l" if "l \<in> set (served c kvs)" for l
    using that assms(1,3) by (intro served_line) (simp_all add: config_ok_def)
  have "map drop_cr (served c kvs) = served c kvs" using line by (simp add: map_idI)
  then have "Inbox (new_wire (MaxLineBytes c) (concat (map (\<lambda>l. l @ [lf]) (served c kvs)) @ tail) end_err (Suc n)) =
      served c kvs @ ls"
    using scan_lines_sent [of "served c kvs" "scan_limit (MaxLineBytes c)" tail end_err] assms(4) line rest
    by (simp add: new_wire_def split: prod.split)
  then have "\<exists>w'. list_variables c (new_wire (MaxLineBytes c)
      (concat (map (\<lambda>l. l @ [lf]) (served c kvs)) @ tail) end_err (Suc n)) = Inr (map_of kvs, w')"
    using list_variables_served [OF assms(1,3), of "new_wire (MaxLineBytes c)
      (concat (map (\<lambda>l. l @ [lf]) (served c kvs)) @ tail) end_err (Suc n)" ls n]
    by (simp add: new_wire_def split: prod.splits)
  then show ?thesis using assms(2) by (auto simp: poll_def connect_def authenticate_def)
qed

theorem poll_reads_served_bytes_witness:
  "\<exists>s. poll (with_defaults demo_config) (Connected (new_wire (MaxLineBytes (with_defaults demo_config))
      (concat (map (\<lambda>l. l @ [lf]) (served (with_defaults demo_config) [(''a'', ''1'')])) @ ''rest'') None (Suc 0))) 7 = Inr s"
proof -
  have "\<forall>l \<in> set (served (with_defaults demo_config) [(''a'', ''1'')]). length l < scan_limit (MaxLineBytes (with_defaults demo_config))"
    by (simp add: served_def list_line_def entry_line_def quoted_def quote_body_def quote_segment_def ascii_def
        cbyte_def scan_limit_def with_defaults_def demo_config_def default_to_def)
  then show ?thesis
    by (intro exI) (rule poll_reads_served_bytes [OF demo_served(1) _ demo_served(2)],
      simp_all add: with_defaults_fields demo_config_def)
qed

end
