(* ===== verification/GoFloat.thy ===== *)
theory GoFloat
  imports GoText
begin

text \<open>
  \<open>float64\<close> and \<open>strconv.ParseFloat\<close>.  A finite float is the rational it denotes (the
  sign of zero is not kept: no comparison of the program sees it).  \<open>round64\<close> rounds a
  nonnegative quotient to the nearest binary64 value, ties to even, with gradual underflow
  and None on overflow; \<open>parse_float\<close> follows the scanner of \<open>strconv\<close> (sign, base
  prefix, digits, one point, exponent, underscores, the texts of infinity and NaN) and
  rounds the exact value of the text.  The text is refused (None) where Go reports a
  syntax or a range error.
\<close>

datatype float64 = FNaN | FInf bool | FNum rat

section \<open>Rounding to binary64\<close>

fun bit_length :: "int \<Rightarrow> nat" where
  "bit_length n = (if n \<le> 0 then 0 else Suc (bit_length (n div 2)))"

declare bit_length.simps [simp del]

definition round_half_even :: "int \<Rightarrow> int \<Rightarrow> int" where
  "round_half_even n d =
     (let q = n div d; r = n mod d
      in if 2 * r < d then q else if d < 2 * r then q + 1 else if even q then q else q + 1)"

text \<open>\<open>num * 2 ^ k\<close> over \<open>den\<close>, as a pair of integers.\<close>

definition scale2 :: "int \<Rightarrow> int \<Rightarrow> int \<Rightarrow> int \<times> int" where
  "scale2 num den k = (if 0 \<le> k then (num * 2 ^ nat k, den) else (num, den * 2 ^ nat (- k)))"

definition floor_log2 :: "int \<Rightarrow> int \<Rightarrow> int" where
  "floor_log2 num den =
     (let l = int (bit_length num) - int (bit_length den); (n, d) = scale2 num den (- l)
      in if d \<le> n then l else l - 1)"

definition round64 :: "int \<Rightarrow> int \<Rightarrow> rat option" where
  "round64 num den =
     (if num = 0 then Some 0
      else let k = max (floor_log2 num den - 52) (- 1074);
               (n, d) = scale2 num den (- k);
               q = round_half_even n d
           in if 1024 - k < int (bit_length q) then None
              else Some (if 0 \<le> k then of_int (q * 2 ^ nat k) else of_int q / 2 ^ nat (- k)))"

definition round_signed :: "bool \<Rightarrow> int \<Rightarrow> int \<Rightarrow> rat option" where
  "round_signed neg num den = map_option (\<lambda>v. if neg then - v else v) (round64 num den)"

text \<open>The float operations the program uses, on finite operands.\<close>

definition round_rat :: "rat \<Rightarrow> float64" where
  "round_rat x =
     (let (n, d) = quotient_of x
      in case round_signed (n < 0) \<bar>n\<bar> d of None \<Rightarrow> FInf (n < 0) | Some v \<Rightarrow> FNum v)"

definition fdiv :: "rat \<Rightarrow> rat \<Rightarrow> float64" where
  "fdiv x y = round_rat (x / y)"

definition fmul :: "rat \<Rightarrow> rat \<Rightarrow> float64" where
  "fmul x y = round_rat (x * y)"

definition is_integral :: "rat \<Rightarrow> bool" where
  "is_integral x \<longleftrightarrow> snd (quotient_of x) = 1"

text \<open>\<open>math.Round\<close>: half away from zero.\<close>

definition round_away :: "rat \<Rightarrow> int" where
  "round_away x = (if 0 \<le> x then \<lfloor>x + 1 / 2\<rfloor> else - \<lfloor>- x + 1 / 2\<rfloor>)"

section \<open>The scanner of \<open>strconv.ParseFloat\<close>\<close>

record mantissa =
  m_value :: int
  m_frac :: nat
  m_dot :: bool
  m_digits :: bool
  m_under :: bool

fun digit_of :: "bool \<Rightarrow> char \<Rightarrow> nat option" where
  "digit_of hex c =
     (if in_range 48 57 c then Some (cbyte c - 48)
      else if hex \<and> in_range 97 102 c then Some (cbyte c - 87)
      else if hex \<and> in_range 65 70 c then Some (cbyte c - 55) else None)"

fun scan_mantissa :: "bool \<Rightarrow> mantissa \<Rightarrow> string \<Rightarrow> mantissa \<times> string" where
  "scan_mantissa hex m [] = (m, [])"
| "scan_mantissa hex m (c # cs) =
     (if c = CHR ''_'' then scan_mantissa hex (m\<lparr>m_under := True\<rparr>) cs
      else if c = CHR ''.'' then
        (if m_dot m then (m, c # cs) else scan_mantissa hex (m\<lparr>m_dot := True\<rparr>) cs)
      else case digit_of hex c of
        None \<Rightarrow> (m, c # cs)
      | Some d \<Rightarrow>
          scan_mantissa hex
            (m\<lparr>m_value := m_value m * (if hex then 16 else 10) + int d,
               m_frac := m_frac m + (if m_dot m then 1 else 0), m_digits := True\<rparr>) cs)"

fun scan_exponent :: "int \<Rightarrow> bool \<Rightarrow> string \<Rightarrow> int \<times> bool \<times> string" where
  "scan_exponent e u [] = (e, u, [])"
| "scan_exponent e u (c # cs) =
     (if in_range 48 57 c then
        scan_exponent (if e < 10000 then e * 10 + int (cbyte c - 48) else e) u cs
      else if c = CHR ''_'' then scan_exponent e True cs
      else (e, u, c # cs))"

fun underscore_scan :: "bool \<Rightarrow> char \<Rightarrow> string \<Rightarrow> bool" where
  "underscore_scan hex saw [] = (saw \<noteq> CHR ''_'')"
| "underscore_scan hex saw (c # cs) =
     (if digit_of hex c \<noteq> None then underscore_scan hex (CHR ''0'') cs
      else if c = CHR ''_'' then (saw = CHR ''0'' \<and> underscore_scan hex (CHR ''_'') cs)
      else saw \<noteq> CHR ''_'' \<and> underscore_scan hex (CHR ''!'') cs)"

definition drop_sign :: "string \<Rightarrow> bool \<times> string" where
  "drop_sign s =
     (case s of [] \<Rightarrow> (False, [])
      | c # cs \<Rightarrow> if c = CHR ''+'' then (False, cs) else if c = CHR ''-'' then (True, cs) else (False, c # cs))"

definition underscore_ok :: "string \<Rightarrow> bool" where
  "underscore_ok s =
     (let t = snd (drop_sign s); p = map lower_char (take 2 t)
      in if p \<in> {''0b'', ''0o'', ''0x''} then underscore_scan (p = ''0x'') (CHR ''0'') (drop 2 t)
         else underscore_scan False (CHR ''^'') t)"

text \<open>The exponent part: its value, whether it holds underscores, and what follows it.\<close>

definition read_exponent :: "bool \<Rightarrow> string \<Rightarrow> (int \<times> bool \<times> string) option" where
  "read_exponent hex s =
     (case s of
        c # cs \<Rightarrow>
          if lower_char c = (if hex then CHR ''p'' else CHR ''e'') then
            (let (eneg, ds) = drop_sign cs
             in if ds = [] \<or> \<not> in_range 48 57 (hd ds) then None
                else let (e, u, rest) = scan_exponent 0 False ds
                     in Some (if eneg then - e else e, u, rest))
          else if hex then None else Some (0, False, s)
      | [] \<Rightarrow> if hex then None else Some (0, False, s))"

definition special_float :: "string \<Rightarrow> float64 option" where
  "special_float s =
     (let (neg, t) = drop_sign s
      in if map lower_char t \<in> {''inf'', ''infinity''} then Some (FInf neg)
         else if map lower_char s = ''nan'' then Some FNaN else None)"

definition hex_prefix :: "string \<Rightarrow> bool" where
  "hex_prefix t \<longleftrightarrow> 3 \<le> length t \<and> map lower_char (take 2 t) = ''0x''"

text \<open>The number after its sign and base prefix; \<open>s\<close> is the whole text.\<close>

definition read_number :: "bool \<Rightarrow> bool \<Rightarrow> string \<Rightarrow> string \<Rightarrow> rat option" where
  "read_number hex neg s t =
     (let (m, rest) = scan_mantissa hex
            \<lparr>m_value = 0, m_frac = 0, m_dot = False, m_digits = False, m_under = False\<rparr> t
      in if \<not> m_digits m then None
         else case read_exponent hex rest of
           None \<Rightarrow> None
         | Some (e, u, rest') \<Rightarrow>
             if rest' \<noteq> [] \<or> (m_under m \<or> u) \<and> \<not> underscore_ok s then None
             else let base = (if hex then 2 else 10);
                      x = e - (if hex then 4 else 1) * int (m_frac m)
                  in round_signed neg (m_value m * base ^ nat x) (base ^ nat (- x)))"

definition read_float :: "string \<Rightarrow> float64 option" where
  "read_float s =
     (let (neg, t) = drop_sign s; hex = hex_prefix t
      in map_option FNum (read_number hex neg s (if hex then drop 2 t else t)))"

definition parse_float :: "string \<Rightarrow> float64 option" where
  "parse_float s = (case special_float s of Some f \<Rightarrow> Some f | None \<Rightarrow> read_float s)"

section \<open>Integers are read exactly\<close>

lemma bit_length_bounds: "0 < n \<Longrightarrow> 2 ^ (bit_length n - 1) \<le> n \<and> n < 2 ^ bit_length n \<and> 0 < bit_length n"
proof (induction n rule: bit_length.induct)
  case (1 n)
  show ?case
  proof (cases "n = 1")
    case True
    then show ?thesis by (simp add: bit_length.simps)
  next
    case False
    with "1.prems" have "0 < n div 2" "\<not> n \<le> 0" by auto
    with "1.IH" have IH: "2 ^ (bit_length (n div 2) - 1) \<le> n div 2" "n div 2 < 2 ^ bit_length (n div 2)"
        "0 < bit_length (n div 2)" by auto
    have b: "bit_length n = Suc (bit_length (n div 2))" using "1.prems" by (subst bit_length.simps) simp
    obtain k where k: "bit_length (n div 2) = Suc k" using IH(3) by (cases "bit_length (n div 2)") auto
    show ?thesis using IH(1,2) unfolding b k by auto
  qed
qed

lemma bit_length_le: "0 \<le> n \<Longrightarrow> n < 2 ^ k \<Longrightarrow> bit_length n \<le> k"
proof (cases "n = 0")
  case False
  assume "0 \<le> n" "n < 2 ^ k"
  with False have "2 ^ (bit_length n - 1) \<le> n" using bit_length_bounds [of n] by simp
  then have "(2::int) ^ (bit_length n - 1) < 2 ^ k" using \<open>n < 2 ^ k\<close> by (rule le_less_trans)
  then have "bit_length n - 1 < k" by (rule power_less_imp_less_exp [rotated]) simp
  then show ?thesis by simp
qed (simp add: bit_length.simps)

lemma round_half_even_exact: "0 < d \<Longrightarrow> round_half_even (q * d) d = q"
  by (simp add: round_half_even_def)

lemma floor_log2_int:
  assumes "0 < n"
  shows "floor_log2 n 1 = int (bit_length n) - 1"
proof -
  have b1: "bit_length 1 = 1" by (simp add: bit_length.simps)
  obtain k where k: "bit_length n = Suc k" using bit_length_bounds [OF assms] by (cases "bit_length n") auto
  then have "2 ^ k \<le> n" using bit_length_bounds [OF assms] by simp
  then show ?thesis by (cases k) (simp_all add: floor_log2_def Let_def b1 k scale2_def nat_add_distrib)
qed

lemma round64_int:
  assumes "0 \<le> n" "n < 2 ^ 53"
  shows "round64 n 1 = Some (of_int n)"
proof (cases "n = 0")
  case False
  with assms have pos: "0 < n" by simp
  have bl: "bit_length n \<le> 53" "0 < bit_length n"
    using bit_length_le [of n 53] bit_length_bounds [OF pos] assms by simp_all
  let ?k = "max (floor_log2 n 1 - 52) (- 1074)"
  have k: "?k = int (bit_length n) - 53" using bl by (simp add: floor_log2_int [OF pos])
  define j where "j = 53 - bit_length n"
  have kj: "?k = - int j" using k bl by (simp add: j_def)
  have sc: "scale2 n 1 (- ?k) = (n * 2 ^ j, 1)" unfolding kj by (simp add: scale2_def)
  have q: "round_half_even (n * 2 ^ j) 1 = n * 2 ^ j" using round_half_even_exact [of 1 "n * 2 ^ j"] by simp
  have "n < 2 ^ bit_length n" using bit_length_bounds [OF pos] by simp
  then have "n * 2 ^ j < 2 ^ bit_length n * 2 ^ j" by simp
  also have "\<dots> = 2 ^ 53" using bl by (simp add: j_def flip: power_add)
  finally have lt: "n * 2 ^ j < 2 ^ 53" .
  have "bit_length (n * 2 ^ j) \<le> 53"
    using pos by (intro bit_length_le lt) simp
  then have nov: "\<not> 1024 - ?k < int (bit_length (n * 2 ^ j))" unfolding kj by simp
  have val: "(if 0 \<le> ?k then of_int (n * 2 ^ j * 2 ^ nat ?k) else of_int (n * 2 ^ j) / 2 ^ nat (- ?k)) = (of_int n :: rat)"
    unfolding kj by (cases "j = 0") simp_all
  show ?thesis
    using False nov val unfolding round64_def Let_def sc by (simp only: prod.case q if_False)
qed (simp add: round64_def)

section \<open>Rounding never passes an integer\<close>

lemma round_half_even_bounds:
  assumes "0 \<le> n" "0 < d" "n \<le> m * d"
  shows "0 \<le> round_half_even n d \<and> round_half_even n d \<le> m"
proof -
  let ?q = "n div d" and ?r = "n mod d"
  have q: "0 \<le> ?q" "?q \<le> m" using assms zdiv_mono1 [of n "m * d" d] by (simp_all add: pos_imp_zdiv_nonneg_iff)
  have "?q < m" if "0 < ?r"
  proof (rule ccontr)
    assume "\<not> ?q < m"
    then have "?q = m" using q by simp
    then have "n = m * d + ?r" by (metis div_mult_mod_eq)
    then show False using assms(3) that by simp
  qed
  then show ?thesis using q assms by (auto simp: round_half_even_def Let_def not_less)
qed

lemma floor_log2_le:
  assumes "0 < num" "0 < den" "num \<le> n * den" "0 < n"
  shows "floor_log2 num den \<le> int (bit_length n)"
proof -
  have b: "2 ^ (bit_length num - 1) \<le> num" "0 < bit_length num" "den < 2 ^ bit_length den" "n < 2 ^ bit_length n"
    using bit_length_bounds assms by blast+
  have "num \<le> n * den" by (rule assms(3))
  also have "n * den < 2 ^ bit_length n * 2 ^ bit_length den"
    using b(3,4) assms(2,4) by (intro mult_strict_mono) simp_all
  finally have "(2::int) ^ (bit_length num - 1) < 2 ^ (bit_length n + bit_length den)"
    using b(1) by (simp add: power_add)
  then have "bit_length num - 1 < bit_length n + bit_length den"
    by (rule power_less_imp_less_exp [rotated]) simp
  then have "int (bit_length num) - int (bit_length den) \<le> int (bit_length n)" using b(2) by linarith
  then show ?thesis by (simp add: floor_log2_def Let_def split_beta)
qed

lemma round64_le_int:
  assumes "0 \<le> num" "0 < den" "num \<le> n * den" "n < 2 ^ 51"
  obtains v where "round64 num den = Some v" "0 \<le> v" "v \<le> of_int n"
proof (cases "num = 0")
  case True
  have "0 \<le> n" using assms(1-3) by (simp add: zero_le_mult_iff True)
  then show ?thesis using True that [of 0] by (simp add: round64_def)
next
  case False
  then have "0 < num" using assms(1) by simp
  then have "0 < n * den" using assms(3) by linarith
  then have pos: "0 < num" "0 < n" using \<open>0 < num\<close> assms(2) by (simp_all add: zero_less_mult_iff)
  define k where "k = max (floor_log2 num den - 52) (- 1074)"
  have "bit_length n \<le> 51" using bit_length_le [of n 51] assms(4) pos by simp
  then have kneg: "k < 0" using floor_log2_le [OF pos(1) assms(2,3) pos(2)] unfolding k_def by linarith
  define j where "j = nat (- k)"
  have k: "k = - int j" "0 < j" "j \<le> 1074" using kneg unfolding j_def k_def by simp_all
  have sc: "scale2 num den (- k) = (num * 2 ^ j, den)" unfolding k(1) by (simp add: scale2_def)
  define q where "q = round_half_even (num * 2 ^ j) den"
  have "num * 2 ^ j \<le> n * 2 ^ j * den"
    using mult_right_mono [OF assms(3), of "2 ^ j"] by (simp add: algebra_simps)
  then have q: "0 \<le> q" "q \<le> n * 2 ^ j"
    using round_half_even_bounds [of "num * 2 ^ j" den "n * 2 ^ j"] assms(1,2) by (simp_all add: q_def)
  have "n * 2 ^ j < 2 ^ 51 * 2 ^ j" using assms(4) by (intro mult_strict_right_mono) simp_all
  then have "q < 2 ^ (51 + j)" using q(2) unfolding power_add by (rule le_less_trans [rotated])
  then have "bit_length q \<le> 51 + j" using q(1) by (intro bit_length_le)
  then have nov: "\<not> 1024 - k < int (bit_length q)" unfolding k(1) by simp
  have v: "round64 num den = Some (of_int q / 2 ^ j)"
    using False nov k(2) unfolding round64_def Let_def k_def [symmetric] sc prod.case q_def [symmetric]
    by (simp add: k(1))
  have "(of_int q :: rat) \<le> of_int (n * 2 ^ j)" using q(2) by (simp only: of_int_le_iff)
  then have "of_int q / 2 ^ j \<le> (of_int n :: rat)" by (simp add: field_simps)
  with v q(1) that show ?thesis by simp
qed

lemma fmul_le_int:
  assumes "0 \<le> x" "0 \<le> y" "x * y \<le> of_int n" "n < 2 ^ 51"
  obtains v where "fmul x y = FNum v" "0 \<le> v" "v \<le> of_int n"
proof -
  obtain a b where q: "quotient_of (x * y) = (a, b)" by fastforce
  have b: "0 < b" and xy: "x * y = of_int a / of_int b" using quotient_of_denom_pos [OF q] quotient_of_div [OF q] by simp_all
  have "0 \<le> x * y" using assms(1,2) by simp
  then have a: "0 \<le> a" using b unfolding xy by (simp add: zero_le_divide_iff)
  have "(of_int a :: rat) \<le> of_int (n * b)" using assms(3) b unfolding xy by (simp add: field_simps)
  then have "a \<le> n * b" by (simp only: of_int_le_iff)
  then obtain v where "round64 a b = Some v" "0 \<le> v" "v \<le> of_int n"
    using round64_le_int [OF a b _ assms(4)] by blast
  then show ?thesis using that [of v] a q by (simp add: fmul_def round_rat_def round_signed_def)
qed

lemma scan_mantissa_digits:
  "list_all (in_range 48 57) s \<Longrightarrow> s \<noteq> [] \<Longrightarrow>
   scan_mantissa False \<lparr>m_value = int v, m_frac = 0, m_dot = False, m_digits = b, m_under = False\<rparr> s
     = (\<lparr>m_value = int (dec_value v s), m_frac = 0, m_dot = False, m_digits = True, m_under = False\<rparr>, [])"
proof (induction s arbitrary: v b)
  case (Cons c s)
  then have "c \<noteq> CHR ''_''" "c \<noteq> CHR ''.''" "in_range 48 57 c"
    by (auto simp: in_range_def cbyte_def)
  then have "scan_mantissa False \<lparr>m_value = int v, m_frac = 0, m_dot = False, m_digits = b, m_under = False\<rparr> (c # s) =
      scan_mantissa False \<lparr>m_value = int (10 * v + (cbyte c - 48)), m_frac = 0, m_dot = False, m_digits = True, m_under = False\<rparr> s"
    by (simp add: mult.commute)
  also have "\<dots> = (\<lparr>m_value = int (dec_value v (c # s)), m_frac = 0, m_dot = False, m_digits = True, m_under = False\<rparr>, [])"
    using Cons.IH [of "10 * v + (cbyte c - 48)" True] Cons.prems by (cases "s = []") simp_all
  finally show ?case .
qed simp

lemma parse_float_dec:
  assumes "n < 2 ^ 53"
  shows "parse_float (dec_text n) = Some (FNum (of_nat n))"
proof -
  obtain c cs where t: "dec_text n = c # cs" by (cases "dec_text n") simp_all
  have d: "list_all (in_range 48 57) (c # cs)" using dec_text_digits [of n] t by simp
  then have c: "in_range 48 57 c" by simp
  then have cb: "48 \<le> cbyte c" "cbyte c \<le> 57" by (simp_all add: in_range_def)
  have sign: "drop_sign (c # cs) = (False, c # cs)"
    using cb by (auto simp: drop_sign_def cbyte_def)
  have low: "lower_char c = c" using cb by (simp add: lower_char_def in_range_def)
  have nolet: "c \<noteq> CHR ''i'' \<and> c \<noteq> CHR ''n''" using cb by (auto simp: cbyte_def)
  have sp: "special_float (c # cs) = None"
    using nolet by (simp add: special_float_def sign low)
  have hex: "\<not> hex_prefix (c # cs)"
  proof (cases cs)
    case (Cons x xs)
    then have "in_range 48 57 x" using d by simp
    then have "lower_char x = x" "x \<noteq> CHR ''x''"
      by (auto simp: in_range_def lower_char_def cbyte_def)
    then show ?thesis by (simp add: Cons hex_prefix_def)
  qed (simp add: hex_prefix_def)
  have r: "round64 (int n) 1 = Some (of_nat n)" using round64_int [of "int n"] assms by simp
  have "dec_value 0 (c # cs) = n" using dec_value_text [of n] t by simp
  then show ?thesis
    using scan_mantissa_digits [OF d, of 0 False] hex r
    unfolding t parse_float_def read_float_def read_number_def sp
    by (simp add: sign Let_def read_exponent_def round_signed_def del: scan_mantissa.simps dec_value.simps)
qed

end
