(* ===== verification/UpsModel.thy ===== *)
theory UpsModel
  imports NutClient GoFloat
begin

text \<open>
  \<open>internal/model/model.go\<close>: the conservative UPS model a NUT snapshot is mapped to.  A
  function of the code that appends to the caller's \<open>Issues\<close> returns its value with the
  issues it appends, in order.  Times are nanoseconds since Go's zero time, so \<open>IsZero\<close> is
  0.  Measured values are the rationals the accepted floats denote.
\<close>

section \<open>Data\<close>

datatype availability = Available | Stale | Unavailable
datatype power_source = SourceUnknown | SourceMains | SourceBattery | SourceOff
datatype beeper_status = BeeperUnknown | BeeperEnabled | BeeperDisabled | BeeperMuted
datatype relay_state = RelayUnknown | RelayOn | RelayOff | RelayMixed
datatype outlet_type = OutletTypeUnknown | OutletTypeAC | OutletTypeUSB

record measurement =
  m_val :: rat
  m_known :: bool

record truth =
  t_val :: bool
  t_known :: bool

definition no_measurement :: measurement where
  "no_measurement = \<lparr>m_val = 0, m_known = False\<rparr>"

definition known :: "rat \<Rightarrow> measurement" where
  "known v = \<lparr>m_val = v, m_known = True\<rparr>"

definition no_truth :: truth where
  "no_truth = \<lparr>t_val = False, t_known = False\<rparr>"

definition known_truth :: "bool \<Rightarrow> truth" where
  "known_truth b = \<lparr>t_val = b, t_known = True\<rparr>"

record ups_status =
  st_raw :: "string list"
  st_source :: power_source
  st_on_battery :: truth
  st_low_battery :: truth
  st_charging :: truth
  st_discharging :: truth
  st_bypass :: truth
  st_overloaded :: truth
  st_replace :: truth

record battery =
  b_charge :: measurement
  b_runtime :: measurement
  b_voltage :: measurement
  b_temperature :: measurement

record electrical =
  e_input_voltage :: measurement
  e_output_voltage :: measurement
  e_output_current :: measurement
  e_power_w :: measurement
  e_power_nominal_w :: measurement
  e_apparent_va :: measurement
  e_apparent_nominal_va :: measurement
  e_power_factor :: measurement
  e_load :: measurement

record outlet =
  o_index :: nat
  o_native_id :: string
  o_native_group :: string
  o_relay_group :: nat
  o_name :: string
  o_name_observed :: bool
  o_type :: outlet_type
  o_switchable :: truth
  o_power_meter :: bool
  o_relay :: relay_state
  o_voltage :: measurement
  o_current :: measurement
  o_power_w :: measurement
  o_power_factor :: measurement

record outlet_group =
  g_index :: nat
  g_native_id :: string
  g_source :: nat
  g_name :: string
  g_outlets :: "nat list"
  g_switchable :: truth
  g_switchable_present :: bool
  g_relay :: relay_state

record native_group =
  n_source :: nat
  n_id :: string
  n_name :: string
  n_type :: string
  n_type_observed :: bool
  n_count :: nat
  n_count_present :: bool
  n_count_known :: bool
  n_switchable :: truth
  n_switchable_present :: bool
  n_relay :: relay_state
  n_relay_present :: bool

record ups_state =
  s_availability :: availability
  s_reason :: string
  s_observed_at :: int
  s_age :: int
  s_status :: ups_status
  s_beeper :: beeper_status
  s_battery :: battery
  s_electrical :: electrical
  s_topology_observed :: bool
  s_native_groups_observed :: bool
  s_native_groups :: "native_group list"
  s_groups :: "outlet_group list"
  s_outlets :: "outlet list"
  s_issues :: "string list"

type_synonym variables = "string \<rightharpoonup> string"

definition max_outlet_count :: nat where "max_outlet_count = 64"
definition max_observed_power :: rat where "max_observed_power = 1000000000"
definition max_battery_runtime :: rat where "max_battery_runtime = 2678400"
definition default_stale_after :: int where "default_stale_after = 20 * second"

definition add_issues :: "string list \<Rightarrow> ups_state \<Rightarrow> ups_state" where
  "add_issues new s = s\<lparr>s_issues := s_issues s @ new\<rparr>"

text \<open>An index of Go's map with the empty string for a missing key.\<close>

definition lookup :: "variables \<Rightarrow> string \<Rightarrow> string" where
  "lookup vars k = (case vars k of Some v \<Rightarrow> v | None \<Rightarrow> [])"

definition token_text :: "string \<Rightarrow> string" where
  "token_text raw = to_lower (trim_space raw)"

section \<open>Readers of single values\<close>

definition bounded_integral :: "string \<Rightarrow> nat \<Rightarrow> nat \<Rightarrow> nat option" where
  "bounded_integral raw lo hi =
     (case parse_float (trim_space raw) of
        Some (FNum v) \<Rightarrow>
          if \<not> is_integral v \<or> v < of_nat lo \<or> of_nat hi < v then None else Some (nat \<lfloor>v\<rfloor>)
      | _ \<Rightarrow> None)"

definition optional_native_text :: "string \<Rightarrow> nat \<Rightarrow> string" where
  "optional_native_text raw maximum =
     (let v = trim_space raw in if v = [] \<or> maximum < length v \<or> \<not> no_control v then [] else v)"

definition opaque_native_id :: "string \<Rightarrow> nat \<Rightarrow> string \<times> bool" where
  "opaque_native_id raw maximum =
     (if raw = [] \<or> maximum < length raw \<or> \<not> no_control raw then ([], False) else (raw, True))"

definition parse_relay :: "string \<Rightarrow> relay_state" where
  "parse_relay raw =
     (if token_text raw = ''on'' then RelayOn
      else if token_text raw = ''off'' then RelayOff else RelayUnknown)"

definition parse_truth :: "string \<Rightarrow> truth" where
  "parse_truth raw =
     (if token_text raw \<in> {''yes'', ''true'', ''on'', ''1''} then known_truth True
      else if token_text raw \<in> {''no'', ''false'', ''off'', ''0''} then known_truth False
      else no_truth)"

definition outlet_separator :: "nat \<Rightarrow> bool" where
  "outlet_separator r \<longleftrightarrow> (r < 97 \<or> 122 < r) \<and> (r < 48 \<or> 57 < r)"

definition ac_types :: "string list" where
  "ac_types =
     [''ac'', ''schuko'', ''french'', ''uk'', ''i520r'', ''iecc13'', ''iecc19'', ''nema515'',
      ''nema51520'', ''nema520'', ''nemal520'', ''nemal530'', ''nema615'', ''nema620'',
      ''nemal620'', ''nemal630'', ''nemal715'', ''rf203p277'']"

definition outlet_type_token :: "string \<Rightarrow> outlet_type" where
  "outlet_type_token raw =
     (let v = token_text raw in
      if v = [] \<or> v = ''unknown'' then OutletTypeUnknown
      else if fields_func outlet_separator v \<noteq> [] \<and>
              hd (fields_func outlet_separator v) \<in> {''usb'', ''usba'', ''usbc''} then OutletTypeUSB
      else if remove_char (CHR '' '') (remove_char (CHR ''_'') (remove_char (CHR ''-'') v)) \<in> set ac_types
      then OutletTypeAC else OutletTypeUnknown)"

definition classify_outlet_type :: "string \<Rightarrow> string \<Rightarrow> outlet_type" where
  "classify_outlet_type raw_type raw_designator =
     (case outlet_type_token raw_type of
        OutletTypeUnknown \<Rightarrow> outlet_type_token raw_designator
      | t \<Rightarrow> t)"

definition parse_measurement_value :: "string \<Rightarrow> rat \<Rightarrow> rat \<Rightarrow> measurement option" where
  "parse_measurement_value raw lo hi =
     (case parse_float (trim_space raw) of
        Some (FNum v) \<Rightarrow> if v < lo \<or> hi < v then None else Some (known v)
      | _ \<Rightarrow> None)"

definition issue_name :: "string \<Rightarrow> string" where
  "issue_name name = replace_char (CHR ''.'') (CHR ''-'') name"

definition read_measurement :: "variables \<Rightarrow> string \<Rightarrow> rat \<Rightarrow> rat \<Rightarrow> measurement \<times> string list" where
  "read_measurement vars name lo hi =
     (case vars name of
        None \<Rightarrow> (no_measurement, [])
      | Some raw \<Rightarrow>
          if trim_space raw = [] then (no_measurement, [])
          else (case parse_measurement_value raw lo hi of
                  None \<Rightarrow> (no_measurement, [''invalid-'' @ issue_name name])
                | Some m \<Rightarrow> (m, [])))"

section \<open>Group metadata\<close>

record group_metadata =
  gm_source :: nat
  gm_name :: string
  gm_expected :: nat
  gm_has_size :: bool
  gm_invalid_size :: bool
  gm_switchable :: truth
  gm_switchable_present :: bool

record group_table =
  gt_observed :: bool
  gt_rows :: "native_group list"
  gt_by_id :: "string \<rightharpoonup> group_metadata"
  gt_ambiguous :: "string set"

definition row_issue :: "string \<Rightarrow> nat \<Rightarrow> string \<Rightarrow> string" where
  "row_issue what index suffix = what @ ''-outlet-group-'' @ dec_text index @ suffix"

definition group_prefix :: "nat \<Rightarrow> string" where
  "group_prefix index = ''outlet.group.'' @ dec_text index @ ''.''"

definition outlet_prefix :: "nat \<Rightarrow> string" where
  "outlet_prefix index = ''outlet.'' @ dec_text index @ ''.''"

text \<open>One row of the outlet.group table, field by field in the order of the code.\<close>

definition read_row_id :: "variables \<Rightarrow> nat \<Rightarrow> string \<times> string list" where
  "read_row_id vars index =
     (case vars (group_prefix index @ ''id'') of
        None \<Rightarrow> ([], [row_issue ''missing'' index ''-id''])
      | Some raw \<Rightarrow>
          (case opaque_native_id raw 128 of
             (v, True) \<Rightarrow> (v, []) | (_, False) \<Rightarrow> ([], [row_issue ''invalid'' index ''-id''])))"

definition read_row_text :: "variables \<Rightarrow> nat \<Rightarrow> string \<Rightarrow> string \<times> string list" where
  "read_row_text vars index field =
     (case vars (group_prefix index @ field) of
        None \<Rightarrow> ([], [])
      | Some raw \<Rightarrow>
          (let v = optional_native_text raw 128
           in (v, if v = [] then [row_issue ''invalid'' index (CHR ''-'' # field)] else [])))"

definition read_row_count :: "variables \<Rightarrow> nat \<Rightarrow> (nat \<times> bool \<times> bool) \<times> string list" where
  "read_row_count vars index =
     (case vars (group_prefix index @ ''count'') of
        None \<Rightarrow> ((0, False, False), [])
      | Some raw \<Rightarrow>
          (case bounded_integral raw 0 max_outlet_count of
             Some n \<Rightarrow> ((n, True, True), [])
           | None \<Rightarrow> ((0, True, False), [row_issue ''invalid'' index ''-count''])))"

definition read_row_switchable :: "variables \<Rightarrow> nat \<Rightarrow> (truth \<times> bool) \<times> string list" where
  "read_row_switchable vars index =
     (case vars (group_prefix index @ ''switchable'') of
        None \<Rightarrow> ((no_truth, False), [])
      | Some raw \<Rightarrow>
          ((parse_truth raw, True),
           if t_known (parse_truth raw) then [] else [row_issue ''invalid'' index ''-switchable'']))"

definition read_row_relay :: "variables \<Rightarrow> nat \<Rightarrow> (relay_state \<times> bool) \<times> string list" where
  "read_row_relay vars index =
     (case vars (group_prefix index @ ''status'') of
        None \<Rightarrow> ((RelayUnknown, False), [])
      | Some raw \<Rightarrow>
          ((parse_relay raw, True),
           if parse_relay raw = RelayUnknown then [row_issue ''invalid'' index ''-status''] else []))"

definition read_row :: "variables \<Rightarrow> nat \<Rightarrow> native_group \<times> string list" where
  "read_row vars index =
     (let (rid, i1) = read_row_id vars index;
          (name, i2) = read_row_text vars index ''name'';
          (typ, i3) = read_row_text vars index ''type'';
          ((cnt, cnt_present, cnt_known), i4) = read_row_count vars index;
          ((sw, sw_present), i5) = read_row_switchable vars index;
          ((relay, relay_present), i6) = read_row_relay vars index
      in (\<lparr>n_source = index, n_id = rid, n_name = name, n_type = typ, n_type_observed = (typ \<noteq> []),
           n_count = cnt, n_count_present = cnt_present, n_count_known = cnt_known,
           n_switchable = sw, n_switchable_present = sw_present,
           n_relay = relay, n_relay_present = relay_present\<rparr>,
          i1 @ i2 @ i3 @ i4 @ i5 @ i6))"

definition row_metadata :: "native_group \<Rightarrow> group_metadata" where
  "row_metadata row =
     \<lparr>gm_source = n_source row, gm_name = n_name row, gm_expected = n_count row,
      gm_has_size = (n_count_present row \<and> n_count_known row),
      gm_invalid_size = (n_count_present row \<and> \<not> n_count_known row),
      gm_switchable = n_switchable row, gm_switchable_present = n_switchable_present row\<rparr>"

definition add_row :: "native_group \<Rightarrow> group_table \<Rightarrow> group_table \<times> string list" where
  "add_row row t =
     (let t' = t\<lparr>gt_rows := gt_rows t @ [row]\<rparr> in
      if n_id row = [] \<or> n_id row \<in> gt_ambiguous t then (t', [])
      else if gt_by_id t (n_id row) \<noteq> None then
        (t'\<lparr>gt_by_id := (gt_by_id t)(n_id row := None),
            gt_ambiguous := insert (n_id row) (gt_ambiguous t)\<rparr>, [''duplicate-outlet-group-id''])
      else (t'\<lparr>gt_by_id := (gt_by_id t)(n_id row \<mapsto> row_metadata row)\<rparr>, []))"

fun read_rows :: "variables \<Rightarrow> nat list \<Rightarrow> group_table \<Rightarrow> group_table \<times> string list" where
  "read_rows vars [] t = (t, [])"
| "read_rows vars (index # rest) t =
     (let (row, i1) = read_row vars index; (t', i2) = add_row row t;
          (t'', i3) = read_rows vars rest t'
      in (t'', i1 @ i2 @ i3))"

definition no_groups :: group_table where
  "no_groups = \<lparr>gt_observed = False, gt_rows = [], gt_by_id = Map.empty, gt_ambiguous = {}\<rparr>"

definition read_native_group_metadata :: "variables \<Rightarrow> group_table \<times> string list" where
  "read_native_group_metadata vars =
     (case vars ''outlet.group.count'' of
        None \<Rightarrow> (no_groups, [])
      | Some raw \<Rightarrow>
          (case bounded_integral raw 0 max_outlet_count of
             None \<Rightarrow> (no_groups, [''invalid-outlet-group-count''])
           | Some n \<Rightarrow> read_rows vars [1..<Suc n] (no_groups\<lparr>gt_observed := True\<rparr>)))"

section \<open>Topology\<close>

definition fallback_group :: "nat \<Rightarrow> nat list \<Rightarrow> outlet_group" where
  "fallback_group index members =
     \<lparr>g_index = index, g_native_id = [], g_source = 0, g_name = ''Zone '' @ dec_text index,
      g_outlets = members, g_switchable = no_truth, g_switchable_present = False,
      g_relay = RelayUnknown\<rparr>"

definition new_outlet :: "nat \<Rightarrow> string \<Rightarrow> string \<Rightarrow> nat \<Rightarrow> outlet" where
  "new_outlet index native_id native_group relay_group =
     \<lparr>o_index = index, o_native_id = native_id, o_native_group = native_group,
      o_relay_group = relay_group, o_name = ''Outlet '' @ dec_text index, o_name_observed = False,
      o_type = OutletTypeUnknown, o_switchable = no_truth, o_power_meter = False,
      o_relay = RelayUnknown, o_voltage = no_measurement, o_current = no_measurement,
      o_power_w = no_measurement, o_power_factor = no_measurement\<rparr>"

definition initialize_fallback_topology :: "ups_state \<Rightarrow> ups_state" where
  "initialize_fallback_topology s =
     s\<lparr>s_topology_observed := False,
       s_groups := [fallback_group 1 [1, 2, 3, 4], fallback_group 2 [5, 6, 7, 8]],
       s_outlets := map (\<lambda>i. new_outlet (i + 1) [] [] (i div 4 + 1)) [0..<8]\<rparr>"

datatype outlet_group_key = GroupKey string nat

record placement =
  p_groups :: "outlet_group list"
  p_outlets :: "outlet list"
  p_keys :: "outlet_group_key \<rightharpoonup> nat"

definition read_outlet_id :: "variables \<Rightarrow> nat \<Rightarrow> string \<Rightarrow> string \<times> string list" where
  "read_outlet_id vars index field =
     (case vars (outlet_prefix index @ field) of
        None \<Rightarrow> ([], [])
      | Some raw \<Rightarrow>
          (case opaque_native_id raw 128 of
             (v, True) \<Rightarrow> (v, [])
           | (v, False) \<Rightarrow> (v, [''invalid-outlet-'' @ dec_text index @ CHR ''-'' # field])))"

definition group_key :: "nat \<Rightarrow> string \<Rightarrow> outlet_group_key" where
  "group_key index native_group = GroupKey native_group (if native_group = [] then index else 0)"

definition new_group :: "nat \<Rightarrow> string \<Rightarrow> outlet_group" where
  "new_group offset native_group =
     \<lparr>g_index = offset + 1, g_native_id = native_group, g_source = 0,
      g_name = ''Relay Group '' @ dec_text (offset + 1), g_outlets = [], g_switchable = no_truth,
      g_switchable_present = False, g_relay = RelayUnknown\<rparr>"

text \<open>The body of the outlet loop: the group of the key, created if it is new.\<close>

definition find_group :: "nat \<Rightarrow> string \<Rightarrow> placement \<Rightarrow> nat \<times> placement" where
  "find_group index native_group p =
     (case p_keys p (group_key index native_group) of
        Some offset \<Rightarrow> (offset, p)
      | None \<Rightarrow>
          (let offset = length (p_groups p)
           in (offset, p\<lparr>p_keys := (p_keys p)(group_key index native_group \<mapsto> offset),
                          p_groups := p_groups p @ [new_group offset native_group]\<rparr>)))"

definition add_member :: "nat \<Rightarrow> outlet_group \<Rightarrow> outlet_group" where
  "add_member index g = g\<lparr>g_outlets := g_outlets g @ [index]\<rparr>"

definition put_outlet :: "nat \<Rightarrow> string \<Rightarrow> string \<Rightarrow> placement \<Rightarrow> placement" where
  "put_outlet index native_id native_group p =
     (let (offset, p') = find_group index native_group p
      in p'\<lparr>p_groups := upd_nth (p_groups p') offset (add_member index),
            p_outlets := p_outlets p' @
              [new_outlet index native_id native_group (g_index (p_groups p' ! offset))]\<rparr>)"

fun place_outlets :: "variables \<Rightarrow> nat list \<Rightarrow> placement \<Rightarrow> placement \<times> string list" where
  "place_outlets vars [] p = (p, [])"
| "place_outlets vars (index # rest) p =
     (let (native_id, i1) = read_outlet_id vars index ''id'';
          (native_group, i2) = read_outlet_id vars index ''groupid'';
          (p', i3) = place_outlets vars rest (put_outlet index native_id native_group p)
      in (p', i1 @ i2 @ i3))"

text \<open>The second loop: metadata of a table row whose id and count agree.\<close>

definition apply_metadata :: "group_table \<Rightarrow> outlet_group \<Rightarrow> outlet_group \<times> string list" where
  "apply_metadata t g =
     (case gt_by_id t (g_native_id g) of
        None \<Rightarrow> (g, [])
      | Some md \<Rightarrow>
          if g_native_id g = [] then (g, [])
          else if gm_invalid_size md \<or> gm_has_size md \<and> gm_expected md \<noteq> length (g_outlets g) then
            (g, if gm_invalid_size md then []
                else [''conflicting-relay-group-'' @ dec_text (g_index g) @ ''-count''])
          else (g\<lparr>g_name := (if gm_name md \<noteq> [] then gm_name md else g_name g),
                  g_source := gm_source md, g_switchable := gm_switchable md,
                  g_switchable_present := gm_switchable_present md\<rparr>, []))"

definition no_placement :: placement where
  "no_placement = \<lparr>p_groups = [], p_outlets = [], p_keys = Map.empty\<rparr>"

definition initialize_observed_topology :: "variables \<Rightarrow> ups_state \<Rightarrow> ups_state" where
  "initialize_observed_topology vars s0 =
     (let (t, i1) = read_native_group_metadata vars;
          s = add_issues i1 (s0\<lparr>s_native_groups_observed := gt_observed t, s_native_groups := gt_rows t\<rparr>)
      in case vars ''outlet.count'' of
           None \<Rightarrow> s
         | Some raw \<Rightarrow>
             (case bounded_integral raw 1 max_outlet_count of
                None \<Rightarrow> add_issues [''invalid-outlet-count''] s
              | Some count \<Rightarrow>
                  (let (p, i2) = place_outlets vars [1..<Suc count] no_placement;
                       gs = map (apply_metadata t) (p_groups p)
                   in add_issues (i2 @ concat (map snd gs))
                        (s\<lparr>s_topology_observed := True, s_groups := map fst gs,
                           s_outlets := p_outlets p\<rparr>))))"

section \<open>Status\<close>

fun distinct_tokens :: "string list \<Rightarrow> string list \<Rightarrow> string list" where
  "distinct_tokens seen [] = seen"
| "distinct_tokens seen (t # ts) =
     (if t \<in> set seen then distinct_tokens seen ts else distinct_tokens (seen @ [t]) ts)"

definition bool_count :: "bool list \<Rightarrow> nat" where
  "bool_count bs = length (filter id bs)"

definition unavailable :: "string \<Rightarrow> ups_state \<Rightarrow> ups_state" where
  "unavailable why s = add_issues [why] (s\<lparr>s_availability := Unavailable, s_reason := why\<rparr>)"

definition set_source :: "power_source \<Rightarrow> ups_state \<Rightarrow> ups_state" where
  "set_source src s = s\<lparr>s_status := (s_status s)\<lparr>st_source := src\<rparr>\<rparr>"

definition map_power_source :: "bool \<Rightarrow> bool \<Rightarrow> bool \<Rightarrow> ups_state \<Rightarrow> ups_state" where
  "map_power_source online on_battery off s =
     (if 1 < bool_count [online, on_battery, off] then unavailable ''conflicting-power-status'' s
      else if online then set_source SourceMains s
      else if on_battery then set_source SourceBattery s
      else if off then set_source SourceOff s
      else unavailable ''unknown-power-status'' s)"

definition map_status :: "string \<Rightarrow> ups_state \<Rightarrow> ups_state" where
  "map_status raw s =
     (let tokens = GoText.fields raw; seen = distinct_tokens [] tokens;
          flag = (\<lambda>t. known_truth (t \<in> set seen));
          online = ''OL'' \<in> set seen; on_battery = ''OB'' \<in> set seen; off = ''OFF'' \<in> set seen
      in if tokens = [] then unavailable ''missing-ups-status'' s
         else let s1 = add_issues (if distinct tokens then [] else [''duplicate-status-token''])
                         (s\<lparr>s_status := (s_status s)\<lparr>st_raw := st_raw (s_status s) @ seen\<rparr>\<rparr>);
                  s2 = map_power_source online on_battery off s1
              in s2\<lparr>s_status := (s_status s2)
                    \<lparr>st_on_battery := \<lparr>t_val = on_battery, t_known = (online \<or> on_battery \<or> off)\<rparr>,
                     st_low_battery := flag ''LB'', st_bypass := flag ''BYPASS'',
                     st_overloaded := flag ''OVER'', st_replace := flag ''RB''\<rparr>\<rparr>)"

definition set_charge :: "bool \<Rightarrow> bool \<Rightarrow> ups_state \<Rightarrow> ups_state" where
  "set_charge charging discharging s =
     s\<lparr>s_status := (s_status s)\<lparr>st_charging := known_truth charging,
                               st_discharging := known_truth discharging\<rparr>\<rparr>"

definition charger_value :: "string \<Rightarrow> (bool \<times> bool) option" where
  "charger_value raw =
     (if token_text raw = ''charging'' then Some (True, False)
      else if token_text raw = ''discharging'' then Some (False, True)
      else if token_text raw \<in> {''floating'', ''resting''} then Some (False, False) else None)"

definition map_charger_status :: "variables \<Rightarrow> ups_state \<Rightarrow> ups_state" where
  "map_charger_status vars s =
     (let charging = ''CHRG'' \<in> set (st_raw (s_status s));
          discharging = ''DISCHRG'' \<in> set (st_raw (s_status s))
      in case vars ''battery.charger.status'' of
           Some raw \<Rightarrow>
             (case charger_value raw of
                None \<Rightarrow> add_issues [''invalid-battery-charger-status''] s
              | Some (c, d) \<Rightarrow>
                  if charging \<and> discharging then add_issues [''conflicting-charge-status''] s
                  else if charging \<and> \<not> c \<or> discharging \<and> \<not> d
                  then add_issues [''conflicting-charge-status''] s
                  else set_charge c d s)
         | None \<Rightarrow>
             if charging \<and> discharging then add_issues [''conflicting-charge-status''] s
             else if charging then set_charge True False s
             else if discharging then set_charge False True s
             else s)"

definition map_beeper_status :: "variables \<Rightarrow> ups_state \<Rightarrow> ups_state" where
  "map_beeper_status vars s =
     (case vars ''ups.beeper.status'' of
        None \<Rightarrow> s
      | Some raw \<Rightarrow>
          if token_text raw = ''enabled'' then s\<lparr>s_beeper := BeeperEnabled\<rparr>
          else if token_text raw = ''disabled'' then s\<lparr>s_beeper := BeeperDisabled\<rparr>
          else if token_text raw = ''muted'' then s\<lparr>s_beeper := BeeperMuted\<rparr>
          else add_issues [''invalid-ups-beeper-status''] s)"

section \<open>Measurements\<close>

text \<open>One side of an aliased pair: its value, whether it is valid, and the issue.\<close>

definition power_side :: "variables \<Rightarrow> string \<Rightarrow> bool \<Rightarrow> measurement \<times> bool \<times> string list" where
  "power_side vars name allow_zero =
     (case vars name of
        None \<Rightarrow> (no_measurement, True, [])
      | Some raw \<Rightarrow>
          (case parse_measurement_value raw 0 max_observed_power of
             Some m \<Rightarrow> if \<not> allow_zero \<and> m_val m = 0
                       then (no_measurement, False, [''invalid-'' @ issue_name name])
                       else (m, True, [])
           | None \<Rightarrow> (no_measurement, False, [''invalid-'' @ issue_name name])))"

definition aliased_power_measurement ::
    "variables \<Rightarrow> string \<Rightarrow> string \<Rightarrow> bool \<Rightarrow> measurement \<times> string list" where
  "aliased_power_measurement vars primary alternate allow_zero =
     (let (pv, p_ok, i1) = power_side vars primary allow_zero;
          (av, a_ok, i2) = power_side vars alternate allow_zero
      in if vars primary = None \<and> vars alternate = None then (no_measurement, [])
         else if \<not> p_ok \<or> \<not> a_ok then (no_measurement, i1 @ i2)
         else if vars primary \<noteq> None \<and> vars alternate \<noteq> None then
           (if m_val pv \<noteq> m_val av
            then (no_measurement, i1 @ i2 @ [''conflicting-'' @ issue_name primary])
            else (pv, i1 @ i2))
         else if vars primary \<noteq> None then (pv, i1 @ i2)
         else (av, i1 @ i2))"

definition output_power_factor :: "variables \<Rightarrow> measurement \<Rightarrow> measurement \<Rightarrow> measurement \<times> string list" where
  "output_power_factor vars watts apparent =
     (case vars ''output.powerfactor'' of
        Some raw \<Rightarrow>
          (case parse_measurement_value raw 0 1 of
             None \<Rightarrow> (no_measurement, [''invalid-output-powerfactor''])
           | Some m \<Rightarrow> (m, []))
      | None \<Rightarrow>
          if \<not> m_known watts \<or> \<not> m_known apparent \<or> m_val apparent = 0 then (no_measurement, [])
          else if m_val apparent < m_val watts
          then (no_measurement, [''invalid-derived-output-powerfactor''])
          else (case fdiv (m_val watts) (m_val apparent) of
                  FNum v \<Rightarrow> if v < 0 \<or> 1 < v then (no_measurement, [''invalid-derived-output-powerfactor''])
                            else (known v, [])
                | _ \<Rightarrow> (no_measurement, [''invalid-derived-output-powerfactor''])))"

definition map_measurements :: "variables \<Rightarrow> ups_state \<Rightarrow> ups_state" where
  "map_measurements vars s =
     (let (charge, i1) = read_measurement vars ''battery.charge'' 0 100;
          (runtime, i2) = read_measurement vars ''battery.runtime'' 0 max_battery_runtime;
          (bvolt, i3) = read_measurement vars ''battery.voltage'' 0 1000;
          (temp, i4) = read_measurement vars ''ups.temperature'' (- 100) 300;
          (vin, i5) = read_measurement vars ''input.voltage'' 0 1000;
          (vout, i6) = read_measurement vars ''output.voltage'' 0 1000;
          (cur, i7) = read_measurement vars ''output.current'' 0 10000;
          (w, i8) = aliased_power_measurement vars ''ups.realpower'' ''output.realpower'' True;
          (wn, i9) = aliased_power_measurement vars ''ups.realpower.nominal'' ''output.realpower.nominal'' False;
          (va, i10) = aliased_power_measurement vars ''ups.power'' ''output.power'' True;
          (van, i11) = aliased_power_measurement vars ''ups.power.nominal'' ''output.power.nominal'' False;
          (pf, i12) = output_power_factor vars w va;
          (load, i13) = read_measurement vars ''ups.load'' 0 100
      in add_issues (concat [i1, i2, i3, i4, i5, i6, i7, i8, i9, i10, i11, i12, i13])
           (s\<lparr>s_battery := \<lparr>b_charge = charge, b_runtime = runtime, b_voltage = bvolt, b_temperature = temp\<rparr>,
              s_electrical := \<lparr>e_input_voltage = vin, e_output_voltage = vout, e_output_current = cur,
                e_power_w = w, e_power_nominal_w = wn, e_apparent_va = va, e_apparent_nominal_va = van,
                e_power_factor = pf, e_load = load\<rparr>\<rparr>))"

section \<open>Outlets\<close>

definition outlet_issue :: "nat \<Rightarrow> string \<Rightarrow> string" where
  "outlet_issue index what = ''invalid-outlet-'' @ dec_text index @ CHR ''-'' # what"

definition outlet_text :: "outlet \<Rightarrow> string \<Rightarrow> string \<Rightarrow> outlet \<times> string list" where
  "outlet_text o1 what raw =
     (let v = optional_native_text raw 128
      in if v \<noteq> [] then (o1\<lparr>o_name := v, o_name_observed := True\<rparr>, [])
         else (o1, [outlet_issue (o_index o1) what]))"

definition outlet_naming :: "variables \<Rightarrow> outlet \<Rightarrow> outlet \<times> string list" where
  "outlet_naming vars o1 =
     (let pre = outlet_prefix (o_index o1); desc = vars (pre @ ''desc''); name = vars (pre @ ''name'')
      in if desc \<noteq> None \<and> trim_space (the desc) \<noteq> [] then outlet_text o1 ''description'' (the desc)
         else if name \<noteq> None \<and> trim_space (the name) \<noteq> [] then outlet_text o1 ''name'' (the name)
         else (o1, []))"

definition outlet_switchable :: "variables \<Rightarrow> outlet_group list \<Rightarrow> truth \<Rightarrow> outlet \<Rightarrow> truth \<times> string list" where
  "outlet_switchable vars gs global o1 =
     (let pre = outlet_prefix (o_index o1); r = o_relay_group o1;
          inherited = (if 1 \<le> r \<and> r \<le> length gs \<and> g_switchable_present (gs ! (r - 1))
                       then g_switchable (gs ! (r - 1)) else global)
      in case vars (pre @ ''switchable'') of
           None \<Rightarrow> (inherited, [])
         | Some raw \<Rightarrow>
             (parse_truth raw,
              if t_known (parse_truth raw) then [] else [outlet_issue (o_index o1) ''switchable'']))"

definition outlet_relay :: "variables \<Rightarrow> outlet \<Rightarrow> relay_state \<times> string list" where
  "outlet_relay vars o1 =
     (case vars (outlet_prefix (o_index o1) @ ''status'') of
        None \<Rightarrow> (o_relay o1, [])
      | Some raw \<Rightarrow>
          (parse_relay raw,
           if parse_relay raw = RelayUnknown then [outlet_issue (o_index o1) ''status''] else []))"

definition outlet_telemetry :: "variables \<Rightarrow> outlet_group list \<Rightarrow> truth \<Rightarrow> outlet \<Rightarrow> outlet \<times> string list" where
  "outlet_telemetry vars gs global o0 =
     (let pre = outlet_prefix (o_index o0);
          (o1, i1) = outlet_naming vars o0;
          (sw, i2) = outlet_switchable vars gs global o0;
          (relay, i3) = outlet_relay vars o0;
          (volt, i4) = read_measurement vars (pre @ ''voltage'') 0 1000;
          (cur, i5) = read_measurement vars (pre @ ''current'') 0 10000;
          (w, i6) = read_measurement vars (pre @ ''realpower'') 0 max_observed_power;
          (pf, i7) = read_measurement vars (pre @ ''powerfactor'') 0 1
      in (o1\<lparr>o_type := classify_outlet_type (lookup vars (pre @ ''type'')) (lookup vars (pre @ ''designator'')),
             o_switchable := sw, o_relay := relay, o_voltage := volt, o_current := cur,
             o_power_w := w, o_power_factor := pf,
             o_power_meter := (vars (pre @ ''current'') \<noteq> None \<or> vars (pre @ ''realpower'') \<noteq> None \<or>
                               vars (pre @ ''power'') \<noteq> None)\<rparr>,
          i1 @ i2 @ i3 @ i4 @ i5 @ i6 @ i7))"

definition map_outlet_telemetry :: "variables \<Rightarrow> ups_state \<Rightarrow> ups_state" where
  "map_outlet_telemetry vars s =
     (let global = (case vars ''outlet.switchable'' of None \<Rightarrow> no_truth | Some raw \<Rightarrow> parse_truth raw);
          gi = (if vars ''outlet.switchable'' \<noteq> None \<and> \<not> t_known global
                then [''invalid-outlet-switchable''] else []);
          os = map (outlet_telemetry vars (s_groups s) global) (s_outlets s)
      in add_issues (gi @ concat (map snd os)) (s\<lparr>s_outlets := map fst os\<rparr>))"

section \<open>Group relay states\<close>

definition relay_evidence_conflicts :: "outlet list \<Rightarrow> relay_state \<Rightarrow> bool" where
  "relay_evidence_conflicts os r =
     list_ex (\<lambda>o1. (o_relay o1 = RelayOn \<or> o_relay o1 = RelayOff) \<and> o_relay o1 \<noteq> r) os"

fun relay_tail :: "relay_state \<Rightarrow> outlet list \<Rightarrow> relay_state" where
  "relay_tail first [] = first"
| "relay_tail first (o1 # os) =
     (if o_relay o1 = RelayUnknown then RelayUnknown
      else if o_relay o1 \<noteq> first then RelayMixed
      else relay_tail first os)"

definition derive_group_relay :: "outlet list \<Rightarrow> relay_state" where
  "derive_group_relay os =
     (case os of
        [] \<Rightarrow> RelayUnknown
      | o1 # rest \<Rightarrow>
          if o_relay o1 \<noteq> RelayOn \<and> o_relay o1 \<noteq> RelayOff then RelayUnknown
          else relay_tail (o_relay o1) rest)"

definition group_members :: "outlet list \<Rightarrow> outlet_group \<Rightarrow> outlet list" where
  "group_members os g =
     map (\<lambda>i. os ! (i - 1)) (filter (\<lambda>i. 1 \<le> i \<and> i \<le> length os) (g_outlets g))"

definition relay_issue :: "string \<Rightarrow> outlet_group \<Rightarrow> string \<Rightarrow> string" where
  "relay_issue what g suffix = what @ ''-relay-group-'' @ dec_text (g_index g) @ suffix"

definition group_relay :: "native_group list \<Rightarrow> outlet list \<Rightarrow> outlet_group \<Rightarrow> outlet_group \<times> string list" where
  "group_relay natives os g =
     (let members = group_members os g; derived = derive_group_relay members in
      if g_source g = 0 then (g\<lparr>g_relay := derived\<rparr>, [])
      else if length natives < g_source g
      then (g\<lparr>g_relay := RelayUnknown\<rparr>, [relay_issue ''invalid'' g ''-source''])
      else let native = natives ! (g_source g - 1) in
        if n_relay_present native then
          (if n_relay native = RelayUnknown then (g\<lparr>g_relay := RelayUnknown\<rparr>, [])
           else if relay_evidence_conflicts members (n_relay native)
           then (g\<lparr>g_relay := RelayUnknown\<rparr>, [relay_issue ''conflicting'' g ''-status''])
           else (g\<lparr>g_relay := n_relay native\<rparr>, []))
        else (g\<lparr>g_relay := derived\<rparr>, []))"

definition map_group_relay_states :: "ups_state \<Rightarrow> ups_state" where
  "map_group_relay_states s =
     (let gs = map (group_relay (s_native_groups s) (s_outlets s)) (s_groups s)
      in add_issues (concat (map snd gs)) (s\<lparr>s_groups := map fst gs\<rparr>))"

section \<open>FromSnapshot\<close>

record model_options =
  Now :: int
  StaleAfter :: int

definition no_status :: ups_status where
  "no_status =
     \<lparr>st_raw = [], st_source = SourceUnknown, st_on_battery = no_truth, st_low_battery = no_truth,
      st_charging = no_truth, st_discharging = no_truth, st_bypass = no_truth,
      st_overloaded = no_truth, st_replace = no_truth\<rparr>"

definition initial_state :: "int \<Rightarrow> ups_state" where
  "initial_state collected =
     \<lparr>s_availability = Available, s_reason = [], s_observed_at = collected, s_age = 0,
      s_status = no_status, s_beeper = BeeperUnknown,
      s_battery = \<lparr>b_charge = no_measurement, b_runtime = no_measurement,
                   b_voltage = no_measurement, b_temperature = no_measurement\<rparr>,
      s_electrical = \<lparr>e_input_voltage = no_measurement, e_output_voltage = no_measurement,
        e_output_current = no_measurement, e_power_w = no_measurement,
        e_power_nominal_w = no_measurement, e_apparent_va = no_measurement,
        e_apparent_nominal_va = no_measurement, e_power_factor = no_measurement,
        e_load = no_measurement\<rparr>,
      s_topology_observed = False, s_native_groups_observed = False, s_native_groups = [],
      s_groups = [], s_outlets = [], s_issues = []\<rparr>"

text \<open>\<open>time.Time.Sub\<close> saturates at the range of \<open>int64\<close>.\<close>

definition time_sub :: "int \<Rightarrow> int \<Rightarrow> int" where
  "time_sub t u = max (- (2 ^ 63)) (min (2 ^ 63 - 1) (t - u))"

definition observe :: "variables \<Rightarrow> ups_state \<Rightarrow> ups_state" where
  "observe vars s =
     map_group_relay_states (
     map_outlet_telemetry vars (
     map_measurements vars (
     map_beeper_status vars (
     map_charger_status vars (
     map_status (lookup vars ''ups.status'') (
     initialize_observed_topology vars s))))))"

text \<open>\<open>clock\<close> is the wall clock read when the options carry no time.\<close>

definition from_snapshot :: "int \<Rightarrow> snapshot \<Rightarrow> model_options \<Rightarrow> ups_state" where
  "from_snapshot clock snap opts =
     (let now = (if Now opts = 0 then clock else Now opts);
          stale = (if StaleAfter opts \<le> 0 then default_stale_after else StaleAfter opts);
          s = initialize_fallback_topology (initial_state (CollectedAt snap))
      in if CollectedAt snap = 0 then unavailable ''no-observation'' s
         else case Variables snap of
           None \<Rightarrow> unavailable ''no-observation'' s
         | Some vars \<Rightarrow>
             (let age = time_sub now (CollectedAt snap); s1 = s\<lparr>s_age := age\<rparr>
              in if age < 0 then unavailable ''observation-in-future'' s1
                 else observe vars
                   (if stale < age then s1\<lparr>s_availability := Stale, s_reason := ''observation-too-old''\<rparr>
                    else s1)))"

end
