(* ===== verification/UpsTopology.thy ===== *)
theory UpsTopology
  imports UpsModel
begin

text \<open>
  The topology \<open>FromSnapshot\<close> builds: outlets are numbered from 1, relay groups are numbered
  densely in the order their first outlet appears, every outlet is in exactly the group
  whose number it carries, and two outlets share a group only when NUT published the same
  nonempty group id for both.
\<close>

section \<open>The invariant of the outlet loop\<close>

definition upto1 :: "nat \<Rightarrow> nat list" where
  "upto1 n = [1..<Suc n]"

lemma length_upto1 [simp]: "length (upto1 n) = n"
  by (simp add: upto1_def)

lemma nth_upto1 [simp]: "i < n \<Longrightarrow> upto1 n ! i = Suc i"
  by (simp add: upto1_def nth_append del: upt_Suc)

lemma upto1_Suc: "upto1 (Suc n) = upto1 n @ [Suc n]"
  by (simp add: upto1_def)

lemma upto1_0 [simp]: "upto1 0 = []"
  by (simp add: upto1_def)

lemma distinct_upto1 [simp]: "distinct (upto1 n)"
  by (simp add: upto1_def)

lemma eq_upto1_iff: "xs = upto1 n \<longleftrightarrow> length xs = n \<and> (\<forall>i < n. xs ! i = Suc i)"
  by (auto simp: list_eq_iff_nth_eq)

text \<open>Labels that use a number only after all smaller ones.\<close>

fun dense :: "nat \<Rightarrow> nat list \<Rightarrow> bool" where
  "dense m [] = True"
| "dense m (x # xs) = (1 \<le> x \<and> x \<le> Suc m \<and> dense (max m x) xs)"

lemma dense_append: "dense m (xs @ ys) \<longleftrightarrow> dense m xs \<and> dense (fold max xs m) ys"
  by (induction xs arbitrary: m) (auto simp: max.commute)

definition outlet_key :: "outlet \<Rightarrow> outlet_group_key" where
  "outlet_key o1 = group_key (o_index o1) (o_native_group o1)"

definition members_of :: "outlet list \<Rightarrow> nat \<Rightarrow> nat list" where
  "members_of os r = map o_index (filter (\<lambda>o1. o_relay_group o1 = r) os)"

lemma members_of_snoc:
  "members_of (os @ [o1]) r = members_of os r @ (if o_relay_group o1 = r then [o_index o1] else [])"
  by (simp add: members_of_def)

definition keys_ok :: "placement \<Rightarrow> bool" where
  "keys_ok p \<longleftrightarrow>
     (\<forall>k off. p_keys p k = Some off \<longrightarrow>
        off < length (p_groups p) \<and> (\<exists>i. k = GroupKey (g_native_id (p_groups p ! off)) i)) \<and>
     (\<forall>k l off. p_keys p k = Some off \<longrightarrow> p_keys p l = Some off \<longrightarrow> k = l)"

definition groups_ok :: "placement \<Rightarrow> bool" where
  "groups_ok p \<longleftrightarrow>
     map g_index (p_groups p) = upto1 (length (p_groups p)) \<and>
     map g_outlets (p_groups p) = map (members_of (p_outlets p)) (upto1 (length (p_groups p)))"

definition outlets_ok :: "nat \<Rightarrow> placement \<Rightarrow> bool" where
  "outlets_ok n p \<longleftrightarrow>
     map o_index (p_outlets p) = upto1 n \<and>
     (\<forall>o1 \<in> set (p_outlets p). 1 \<le> o_relay_group o1 \<and>
        p_keys p (outlet_key o1) = Some (o_relay_group o1 - 1)) \<and>
     dense 0 (map o_relay_group (p_outlets p)) \<and>
     fold max (map o_relay_group (p_outlets p)) 0 = length (p_groups p)"

definition placed :: "nat \<Rightarrow> placement \<Rightarrow> bool" where
  "placed n p \<longleftrightarrow> keys_ok p \<and> groups_ok p \<and> outlets_ok n p"

lemma placed_empty: "placed 0 no_placement"
  by (simp add: placed_def keys_ok_def groups_ok_def outlets_ok_def no_placement_def)

lemma find_group_spec:
  assumes "placed n p" "find_group index ng p = (off, p')"
  shows "keys_ok p' \<and> off < length (p_groups p') \<and> p_keys p' (group_key index ng) = Some off \<and>
    p_outlets p' = p_outlets p \<and> off \<le> length (p_groups p) \<and>
    length (p_groups p') = max (length (p_groups p)) (Suc off) \<and>
    map g_index (p_groups p') = upto1 (length (p_groups p')) \<and>
    map g_outlets (p_groups p') = map (members_of (p_outlets p)) (upto1 (length (p_groups p'))) \<and>
    (\<forall>k v. p_keys p k = Some v \<longrightarrow> p_keys p' k = Some v)"
proof (cases "p_keys p (group_key index ng)")
  case (Some a)
  then have "off = a" "p' = p" using assms(2) by (simp_all add: find_group_def)
  moreover have "keys_ok p" "groups_ok p" using assms(1) by (simp_all add: placed_def)
  moreover have "a < length (p_groups p)" using \<open>keys_ok p\<close> Some by (simp add: keys_ok_def)
  ultimately show ?thesis using Some by (simp add: groups_ok_def max_def)
next
  case None
  let ?m = "length (p_groups p)"
  have p': "off = ?m" "p' = p\<lparr>p_keys := (p_keys p)(group_key index ng \<mapsto> ?m), p_groups := p_groups p @ [new_group ?m ng]\<rparr>"
    using assms(2) None by (auto simp: find_group_def Let_def)
  have k: "keys_ok p" "groups_ok p" "outlets_ok n p" using assms(1) by (simp_all add: placed_def)
  have "\<not> (o_relay_group o1 = Suc ?m)" if "o1 \<in> set (p_outlets p)" for o1
    using k(1,3) that unfolding keys_ok_def outlets_ok_def by (metis diff_Suc_1 less_irrefl)
  then have "members_of (p_outlets p) (Suc ?m) = []" by (simp add: members_of_def filter_empty_conv)
  moreover have "keys_ok p'"
    using k(1) None unfolding p'(2) keys_ok_def
    by ((auto simp: nth_append new_group_def group_key_def intro: less_SucI split: if_splits)[1]; metis less_irrefl)
  moreover have "\<forall>k v. p_keys p k = Some v \<longrightarrow> p_keys p' k = Some v" using None p' by simp
  ultimately show ?thesis using p' k(2) by (simp add: groups_ok_def new_group_def upto1_Suc)
qed

lemma put_outlet_placed:
  assumes "placed n p"
  shows "placed (Suc n) (put_outlet (Suc n) nid ng p)"
proof -
  obtain off p' where f: "find_group (Suc n) ng p = (off, p')" by fastforce
  note s = find_group_spec [OF assms f]
  have "map g_index (p_groups p') ! off = upto1 (length (p_groups p')) ! off" using s by simp
  then have gi: "g_index (p_groups p' ! off) = Suc off" using s by (metis nth_map nth_upto1)
  let ?o = "new_outlet (Suc n) nid ng (Suc off)"
  let ?q = "p'\<lparr>p_groups := upd_nth (p_groups p') off (add_member (Suc n)), p_outlets := p_outlets p' @ [?o]\<rparr>"
  have q: "put_outlet (Suc n) nid ng p = ?q" using f gi by (simp add: put_outlet_def)
  have oo: "outlets_ok n p" using assms by (simp add: placed_def)
  have "keys_ok ?q" using s by (auto simp: keys_ok_def upd_nth_def nth_list_update add_member_def)
  moreover have "groups_ok ?q"
  proof -
    have "map g_outlets (p_groups ?q) ! j = map (members_of (p_outlets ?q)) (upto1 (length (p_groups ?q))) ! j"
      if "j < length (p_groups p')" for j
    proof -
      have "map g_outlets (p_groups p') ! j = map (members_of (p_outlets p)) (upto1 (length (p_groups p'))) ! j"
        using s by simp
      then have "g_outlets (p_groups p' ! j) = members_of (p_outlets p) (Suc j)" using that by simp
      then show ?thesis using that s
        by (simp add: nth_upd_nth members_of_snoc add_member_def new_outlet_def)
    qed
    then have "map g_outlets (p_groups ?q) = map (members_of (p_outlets ?q)) (upto1 (length (p_groups ?q)))"
      by (intro nth_equalityI) simp_all
    moreover have "map g_index (p_groups ?q) = map g_index (p_groups p')"
      by (simp add: map_upd_nth_inert add_member_def)
    ultimately show ?thesis using s by (simp add: groups_ok_def)
  qed
  moreover have "outlets_ok (Suc n) ?q"
  proof -
    have "fold max (map o_relay_group (p_outlets p)) 0 = length (p_groups p)" using oo by (simp add: outlets_ok_def)
    then have "dense 0 (map o_relay_group (p_outlets ?q)) \<and>
        fold max (map o_relay_group (p_outlets ?q)) 0 = length (p_groups ?q)"
      using s oo by (simp add: dense_append new_outlet_def outlets_ok_def max.commute)
    moreover have "p_keys ?q (outlet_key o1) = Some (o_relay_group o1 - 1) \<and> 1 \<le> o_relay_group o1"
      if "o1 \<in> set (p_outlets ?q)" for o1
      using that s oo by (auto simp add: outlets_ok_def new_outlet_def outlet_key_def)
    moreover have "map o_index (p_outlets ?q) = upto1 (Suc n)"
      using s oo by (simp add: outlets_ok_def new_outlet_def upto1_Suc)
    ultimately show ?thesis by (simp add: outlets_ok_def)
  qed
  ultimately show ?thesis unfolding q by (simp add: placed_def)
qed

lemma place_outlets_placed:
  "placed n p \<Longrightarrow> placed (n + m) (fst (place_outlets vars [Suc n..<Suc (n + m)] p))"
proof (induction m arbitrary: n p)
  case (Suc m)
  have "[Suc n..<Suc (n + Suc m)] = Suc n # [Suc (Suc n)..<Suc (Suc n + m)]" by (simp add: upt_rec)
  then show ?case
    using Suc.IH [OF put_outlet_placed [OF Suc.prems]] by (simp add: split_beta Let_def del: upt_Suc)
qed simp

section \<open>The topology of a state\<close>

definition topology_ok :: "ups_state \<Rightarrow> bool" where
  "topology_ok s \<longleftrightarrow>
     (let os = s_outlets s; gs = s_groups s in
      1 \<le> length os \<and> length os \<le> max_outlet_count \<and>
      map o_index os = upto1 (length os) \<and>
      map g_index gs = upto1 (length gs) \<and>
      map g_outlets gs = map (members_of os) (upto1 (length gs)) \<and>
      dense 0 (map o_relay_group os) \<and>
      fold max (map o_relay_group os) 0 = length gs)"

text \<open>Two outlets share a relay group exactly when their nonempty group ids are equal.\<close>

definition groups_by_id :: "ups_state \<Rightarrow> bool" where
  "groups_by_id s \<longleftrightarrow>
     (\<forall>a \<in> set (s_outlets s). \<forall>b \<in> set (s_outlets s).
        o_relay_group a = o_relay_group b \<longleftrightarrow>
          o_index a = o_index b \<or> o_native_group a = o_native_group b \<and> o_native_group a \<noteq> [])"

lemma placed_topology:
  assumes "placed n p" "1 \<le> n" "n \<le> max_outlet_count"
    and "s_outlets s = p_outlets p" "map g_index (s_groups s) = map g_index (p_groups p)"
    and "map g_outlets (s_groups s) = map g_outlets (p_groups p)"
  shows "topology_ok s \<and> groups_by_id s"
proof
  have len: "length (s_groups s) = length (p_groups p)" using assms(5) map_eq_imp_length_eq by blast
  have o: "map o_index (p_outlets p) = upto1 n" using assms(1) by (simp add: placed_def outlets_ok_def)
  then have n: "length (p_outlets p) = n" by (metis length_map length_upto1)
  show "topology_ok s"
    using assms len o n by (simp add: topology_ok_def Let_def placed_def groups_ok_def outlets_ok_def)
  have key: "o_relay_group a = o_relay_group b \<longleftrightarrow> outlet_key a = outlet_key b"
    if "a \<in> set (p_outlets p)" "b \<in> set (p_outlets p)" for a b
    using assms(1) that unfolding placed_def keys_ok_def outlets_ok_def
    by (metis One_nat_def Suc_diff_le diff_Suc_Suc minus_nat.diff_0 option.inject)
  have idx: "a = b" if "a \<in> set (p_outlets p)" "b \<in> set (p_outlets p)" "o_index a = o_index b" for a b
  proof -
    have "inj_on o_index (set (p_outlets p))" using o by (metis distinct_map distinct_upto1)
    then show ?thesis using that by (blast dest: inj_onD)
  qed
  show "groups_by_id s"
    unfolding groups_by_id_def assms(4) using key idx
    by (auto simp: outlet_key_def group_key_def split: if_splits)
qed

lemma fst_apply_metadata:
  "g_index (fst (apply_metadata t g)) = g_index g" "g_outlets (fst (apply_metadata t g)) = g_outlets g"
  by (auto simp: apply_metadata_def split: option.split)

lemma bounded_integral_range:
  assumes "bounded_integral raw lo hi = Some n"
  shows "lo \<le> n \<and> n \<le> hi"
proof -
  obtain v where "parse_float (trim_space raw) = Some (FNum v)"
    using assms by (auto simp: bounded_integral_def split: option.splits float64.splits)
  then have v: "of_nat lo \<le> v" "v \<le> of_nat hi" "n = nat \<lfloor>v\<rfloor>"
    using assms by (simp_all add: bounded_integral_def not_less split: if_splits)
  have "int lo \<le> \<lfloor>v\<rfloor>" "\<lfloor>v\<rfloor> \<le> int hi"
    using v(1,2) by (simp_all add: le_floor_iff) (metis floor_mono floor_of_nat)
  then show ?thesis using v(3) by linarith
qed

definition fallback_shape :: "ups_state \<Rightarrow> bool" where
  "fallback_shape s \<longleftrightarrow>
     map o_index (s_outlets s) = [1, 2, 3, 4, 5, 6, 7, 8] \<and>
     map o_relay_group (s_outlets s) = [1, 1, 1, 1, 2, 2, 2, 2] \<and>
     map g_index (s_groups s) = [1, 2] \<and>
     map g_outlets (s_groups s) = [[1, 2, 3, 4], [5, 6, 7, 8]]"

lemma zip_map_same: "zip (map f xs) (map g xs) = map (\<lambda>x. (f x, g x)) xs"
  by (induction xs) simp_all

lemma members_of_zip:
  "members_of os r = map fst (filter (\<lambda>x. snd x = r) (zip (map o_index os) (map o_relay_group os)))"
  by (simp add: members_of_def zip_map_same filter_map comp_def)

lemma fallback_topology_ok:
  assumes "fallback_shape s"
  shows "topology_ok s"
proof -
  have len: "length (s_outlets s) = 8" "length (s_groups s) = 2"
    using assms by (auto simp: fallback_shape_def dest!: arg_cong [where f = length])
  show ?thesis
    using assms len unfolding topology_ok_def fallback_shape_def Let_def members_of_zip
    by (simp add: max_outlet_count_def upto1_def upt_rec)
qed

lemma fallback_initial: "fallback_shape (initialize_fallback_topology s)"
  by (simp add: fallback_shape_def initialize_fallback_topology_def fallback_group_def new_outlet_def upt_rec)

end
