(* ===== verification/UpsFacts.thy ===== *)
theory UpsFacts
  imports UpsTopology
begin

text \<open>
  What \<open>FromSnapshot\<close> promises: when an observation counts as available, which evidence a
  known measurement rests on, that issues never carry upstream text, and that the topology
  and the relay states are consistent.
\<close>

section \<open>Which snapshot is usable\<close>

definition usable_variables :: "int \<Rightarrow> snapshot \<Rightarrow> model_options \<Rightarrow> variables option" where
  "usable_variables clock snap opts =
     (if CollectedAt snap = 0 then None
      else if time_sub (if Now opts = 0 then clock else Now opts) (CollectedAt snap) < 0 then None
      else Variables snap)"

definition too_old :: "int \<Rightarrow> snapshot \<Rightarrow> model_options \<Rightarrow> bool" where
  "too_old clock snap opts \<longleftrightarrow>
     (if StaleAfter opts \<le> 0 then default_stale_after else StaleAfter opts)
       < time_sub (if Now opts = 0 then clock else Now opts) (CollectedAt snap)"

definition base_state :: "int \<Rightarrow> snapshot \<Rightarrow> model_options \<Rightarrow> ups_state" where
  "base_state clock snap opts =
     (let s = (initialize_fallback_topology (initial_state (CollectedAt snap)))
                \<lparr>s_age := time_sub (if Now opts = 0 then clock else Now opts) (CollectedAt snap)\<rparr>
      in if too_old clock snap opts then s\<lparr>s_availability := Stale, s_reason := ''observation-too-old''\<rparr> else s)"

lemma from_snapshot_usable:
  "usable_variables clock snap opts = Some vars \<Longrightarrow>
   from_snapshot clock snap opts = observe vars (base_state clock snap opts)"
  by (simp add: from_snapshot_def usable_variables_def base_state_def too_old_def Let_def split: if_splits)

lemma from_snapshot_unusable:
  assumes "usable_variables clock snap opts = None"
  obtains why age where "why \<in> {''no-observation'', ''observation-in-future''}"
    "from_snapshot clock snap opts =
      unavailable why ((initialize_fallback_topology (initial_state (CollectedAt snap)))\<lparr>s_age := age\<rparr>)"
proof -
  let ?init = "initialize_fallback_topology (initial_state (CollectedAt snap))"
  let ?age = "time_sub (if Now opts = 0 then clock else Now opts) (CollectedAt snap)"
  have upd: "?init = ?init\<lparr>s_age := 0\<rparr>"
    by (simp add: initialize_fallback_topology_def initial_state_def)
  consider "CollectedAt snap = 0 \<or> Variables snap = None"
    | vars where "CollectedAt snap \<noteq> 0" "Variables snap = Some vars" "?age < 0"
    using assms by (auto simp: usable_variables_def split: if_splits)
  then show ?thesis
  proof cases
    case 1
    then have "from_snapshot clock snap opts = unavailable ''no-observation'' ?init"
      by (auto simp: from_snapshot_def Let_def)
    then show ?thesis using that [of "''no-observation''" 0] upd by simp
  next
    case 2
    then have "from_snapshot clock snap opts = unavailable ''observation-in-future'' (?init\<lparr>s_age := ?age\<rparr>)"
      by (simp add: from_snapshot_def Let_def)
    then show ?thesis using that [of "''observation-in-future''" ?age] by simp
  qed
qed

section \<open>What each step leaves alone\<close>

named_theorems frame_simps \<open>fields an operation of the model does not touch\<close>

lemma add_issues_frame [simp, frame_simps]:
  "s_availability (add_issues i s) = s_availability s" "s_reason (add_issues i s) = s_reason s"
  "s_status (add_issues i s) = s_status s" "s_outlets (add_issues i s) = s_outlets s"
  "s_groups (add_issues i s) = s_groups s" "s_battery (add_issues i s) = s_battery s"
  "s_electrical (add_issues i s) = s_electrical s" "s_native_groups (add_issues i s) = s_native_groups s"
  "s_issues (add_issues i s) = s_issues s @ i"
  by (simp_all add: add_issues_def)

lemma topology_frame [frame_simps]:
  "s_availability (initialize_observed_topology vars s) = s_availability s"
  "s_reason (initialize_observed_topology vars s) = s_reason s"
  "s_status (initialize_observed_topology vars s) = s_status s"
  "s_battery (initialize_observed_topology vars s) = s_battery s"
  "s_electrical (initialize_observed_topology vars s) = s_electrical s"
  by (simp_all add: initialize_observed_topology_def Let_def split_beta split: option.split)

lemma unavailable_frame [frame_simps]:
  "s_outlets (unavailable w s) = s_outlets s" "s_groups (unavailable w s) = s_groups s"
  "s_battery (unavailable w s) = s_battery s" "s_electrical (unavailable w s) = s_electrical s"
  "s_native_groups (unavailable w s) = s_native_groups s" "s_status (unavailable w s) = s_status s"
  by (simp_all add: unavailable_def)

lemma set_source_frame [frame_simps]:
  "s_outlets (set_source w s) = s_outlets s" "s_groups (set_source w s) = s_groups s"
  "s_battery (set_source w s) = s_battery s" "s_electrical (set_source w s) = s_electrical s"
  "s_native_groups (set_source w s) = s_native_groups s"
  "s_availability (set_source w s) = s_availability s" "s_reason (set_source w s) = s_reason s"
  by (simp_all add: set_source_def)

lemma power_source_frame [frame_simps]:
  "s_outlets (map_power_source a b c s) = s_outlets s" "s_groups (map_power_source a b c s) = s_groups s"
  "s_battery (map_power_source a b c s) = s_battery s" "s_electrical (map_power_source a b c s) = s_electrical s"
  "s_native_groups (map_power_source a b c s) = s_native_groups s"
  by (simp_all add: map_power_source_def frame_simps)

lemma status_frame [frame_simps]:
  "s_outlets (map_status raw s) = s_outlets s" "s_groups (map_status raw s) = s_groups s"
  "s_battery (map_status raw s) = s_battery s" "s_electrical (map_status raw s) = s_electrical s"
  "s_native_groups (map_status raw s) = s_native_groups s"
  by (simp_all add: map_status_def Let_def frame_simps)

lemma charger_frame [frame_simps]:
  "s_outlets (map_charger_status vars s) = s_outlets s" "s_groups (map_charger_status vars s) = s_groups s"
  "s_battery (map_charger_status vars s) = s_battery s" "s_electrical (map_charger_status vars s) = s_electrical s"
  "s_native_groups (map_charger_status vars s) = s_native_groups s"
  "s_availability (map_charger_status vars s) = s_availability s"
  "s_reason (map_charger_status vars s) = s_reason s"
  by (simp_all add: map_charger_status_def Let_def set_charge_def split: option.split)

lemma beeper_frame [frame_simps]:
  "s_outlets (map_beeper_status vars s) = s_outlets s" "s_groups (map_beeper_status vars s) = s_groups s"
  "s_battery (map_beeper_status vars s) = s_battery s" "s_electrical (map_beeper_status vars s) = s_electrical s"
  "s_native_groups (map_beeper_status vars s) = s_native_groups s"
  "s_availability (map_beeper_status vars s) = s_availability s"
  "s_reason (map_beeper_status vars s) = s_reason s" "s_status (map_beeper_status vars s) = s_status s"
  by (simp_all add: map_beeper_status_def split: option.split)

lemma measurements_frame [frame_simps]:
  "s_outlets (map_measurements vars s) = s_outlets s" "s_groups (map_measurements vars s) = s_groups s"
  "s_native_groups (map_measurements vars s) = s_native_groups s"
  "s_availability (map_measurements vars s) = s_availability s"
  "s_reason (map_measurements vars s) = s_reason s" "s_status (map_measurements vars s) = s_status s"
  by (simp_all add: map_measurements_def Let_def split_beta)

lemma telemetry_frame [frame_simps]:
  "s_groups (map_outlet_telemetry vars s) = s_groups s"
  "s_native_groups (map_outlet_telemetry vars s) = s_native_groups s"
  "s_availability (map_outlet_telemetry vars s) = s_availability s"
  "s_reason (map_outlet_telemetry vars s) = s_reason s" "s_status (map_outlet_telemetry vars s) = s_status s"
  "s_battery (map_outlet_telemetry vars s) = s_battery s"
  "s_electrical (map_outlet_telemetry vars s) = s_electrical s"
  by (simp_all add: map_outlet_telemetry_def Let_def)

lemma group_relay_frame [frame_simps]:
  "s_outlets (map_group_relay_states s) = s_outlets s"
  "s_availability (map_group_relay_states s) = s_availability s"
  "s_reason (map_group_relay_states s) = s_reason s" "s_status (map_group_relay_states s) = s_status s"
  "s_battery (map_group_relay_states s) = s_battery s"
  "s_electrical (map_group_relay_states s) = s_electrical s"
  by (simp_all add: map_group_relay_states_def Let_def)

lemma outlet_frame [frame_simps]:
  "o_index (fst (outlet_telemetry vars gs t o1)) = o_index o1"
  "o_relay_group (fst (outlet_telemetry vars gs t o1)) = o_relay_group o1"
  "o_native_group (fst (outlet_telemetry vars gs t o1)) = o_native_group o1"
  by (simp_all add: outlet_telemetry_def Let_def split_beta outlet_naming_def outlet_text_def)

lemma relay_frame [frame_simps]:
  "g_index (fst (group_relay ns os g)) = g_index g" "g_outlets (fst (group_relay ns os g)) = g_outlets g"
  by (simp_all add: group_relay_def Let_def)

lemma base_frame [frame_simps]:
  "s_outlets (base_state c sn os) = s_outlets (initialize_fallback_topology (initial_state (CollectedAt sn)))"
  "s_groups (base_state c sn os) = s_groups (initialize_fallback_topology (initial_state (CollectedAt sn)))"
  "s_status (base_state c sn os) = no_status" "s_issues (base_state c sn os) = []"
  "s_battery (base_state c sn os) = s_battery (initial_state (CollectedAt sn))"
  "s_electrical (base_state c sn os) = s_electrical (initial_state (CollectedAt sn))"
  "s_availability (base_state c sn os) = (if too_old c sn os then Stale else Available)"
  "s_reason (base_state c sn os) = (if too_old c sn os then ''observation-too-old'' else [])"
  by (simp_all add: base_state_def Let_def initialize_fallback_topology_def initial_state_def)

section \<open>Topology\<close>

text \<open>The topology predicates read the shape of the lists only.\<close>

definition shape :: "ups_state \<Rightarrow> (nat \<times> nat \<times> string) list \<times> (nat \<times> nat list) list" where
  "shape s = (map (\<lambda>o1. (o_index o1, o_relay_group o1, o_native_group o1)) (s_outlets s),
              map (\<lambda>g. (g_index g, g_outlets g)) (s_groups s))"

lemma shape_maps:
  "map o_index (s_outlets s) = map fst (fst (shape s))"
  "map o_relay_group (s_outlets s) = map (fst \<circ> snd) (fst (shape s))"
  "map g_index (s_groups s) = map fst (snd (shape s))"
  "map g_outlets (s_groups s) = map snd (snd (shape s))"
  "length (s_outlets s) = length (fst (shape s))" "length (s_groups s) = length (snd (shape s))"
  by (simp_all add: shape_def)

lemma topology_ok_shape: "shape s = shape t \<Longrightarrow> topology_ok s = topology_ok t"
  unfolding topology_ok_def Let_def members_of_zip shape_maps by simp

lemma fallback_shape_shape: "shape s = shape t \<Longrightarrow> fallback_shape s = fallback_shape t"
  unfolding fallback_shape_def shape_maps by simp

lemma groups_by_id_shape:
  assumes "shape s = shape t"
  shows "groups_by_id s = groups_by_id t"
proof -
  have g: "groups_by_id u \<longleftrightarrow>
      (\<forall>(i, r, g) \<in> set (fst (shape u)). \<forall>(j, q, h) \<in> set (fst (shape u)). r = q \<longleftrightarrow> i = j \<or> g = h \<and> g \<noteq> [])" for u
    by (simp add: groups_by_id_def shape_def)
  show ?thesis unfolding g assms by (rule refl)
qed

lemma shape_group_relay: "shape (map_group_relay_states s) = shape s"
  by (simp add: shape_def map_group_relay_states_def Let_def comp_def relay_frame)

lemma shape_telemetry: "shape (map_outlet_telemetry vars s) = shape s"
  by (simp add: shape_def map_outlet_telemetry_def Let_def comp_def outlet_frame)

lemma shape_observe: "shape (observe vars s) = shape (initialize_observed_topology vars s)"
  unfolding observe_def shape_group_relay shape_telemetry by (simp add: shape_def frame_simps)

definition observed_count :: "variables \<Rightarrow> nat option" where
  "observed_count vars = Option.bind (vars ''outlet.count'') (\<lambda>raw. bounded_integral raw 1 max_outlet_count)"

lemma initialize_observed_topology_ok:
  assumes "fallback_shape s"
  shows "topology_ok (initialize_observed_topology vars s) \<and>
    (case observed_count vars of
       None \<Rightarrow> fallback_shape (initialize_observed_topology vars s)
     | Some n \<Rightarrow> groups_by_id (initialize_observed_topology vars s) \<and>
                length (s_outlets (initialize_observed_topology vars s)) = n)"
proof (cases "observed_count vars")
  case None
  have "s_outlets (initialize_observed_topology vars s) = s_outlets s \<and>
      s_groups (initialize_observed_topology vars s) = s_groups s"
  proof (cases "vars ''outlet.count''")
    case None
    then show ?thesis by (simp add: initialize_observed_topology_def Let_def split_beta)
  next
    case (Some raw)
    with \<open>observed_count vars = None\<close> have "bounded_integral raw 1 max_outlet_count = None"
      by (simp add: observed_count_def)
    with Some show ?thesis by (simp add: initialize_observed_topology_def Let_def split_beta)
  qed
  then have sh: "shape (initialize_observed_topology vars s) = shape s" by (simp add: shape_def)
  show ?thesis
    using None assms fallback_topology_ok [OF assms] topology_ok_shape [OF sh] fallback_shape_shape [OF sh]
    by simp
next
  case (Some n)
  then obtain raw where raw: "vars ''outlet.count'' = Some raw" "bounded_integral raw 1 max_outlet_count = Some n"
    by (auto simp: observed_count_def bind_eq_Some_conv)
  let ?s = "initialize_observed_topology vars s"
  obtain p i2 where pl: "place_outlets vars [1..<Suc n] no_placement = (p, i2)" by fastforce
  have n: "1 \<le> n" "n \<le> max_outlet_count" using bounded_integral_range [OF raw(2)] by simp_all
  have p: "placed n p" using place_outlets_placed [OF placed_empty, of n vars] pl by simp
  then have "length (map o_index (p_outlets p)) = n" unfolding placed_def outlets_ok_def by simp
  moreover have "s_outlets ?s = p_outlets p" "map g_index (s_groups ?s) = map g_index (p_groups p)"
    "map g_outlets (s_groups ?s) = map g_outlets (p_groups p)"
    using raw pl
    by (simp_all add: initialize_observed_topology_def Let_def split_beta comp_def fst_apply_metadata del: upt_Suc)
  ultimately show ?thesis using placed_topology [OF p n] Some by simp
qed

lemma from_snapshot_topology:
  "topology_ok (from_snapshot clock snap opts) \<and>
   (case Option.bind (usable_variables clock snap opts) observed_count of
      None \<Rightarrow> fallback_shape (from_snapshot clock snap opts)
    | Some n \<Rightarrow> groups_by_id (from_snapshot clock snap opts) \<and>
               length (s_outlets (from_snapshot clock snap opts)) = n)"
proof (cases "usable_variables clock snap opts")
  case None
  then obtain why age where "from_snapshot clock snap opts =
      unavailable why ((initialize_fallback_topology (initial_state (CollectedAt snap)))\<lparr>s_age := age\<rparr>)"
    by (rule from_snapshot_unusable)
  then have "fallback_shape (from_snapshot clock snap opts)"
    using fallback_initial [of "initial_state (CollectedAt snap)"]
    by (simp add: fallback_shape_def frame_simps)
  then show ?thesis using None fallback_topology_ok by simp
next
  case (Some vars)
  let ?t = "initialize_observed_topology vars (base_state clock snap opts)"
  have "fallback_shape (base_state clock snap opts)"
    using fallback_initial [of "initial_state (CollectedAt snap)"] by (simp add: fallback_shape_def frame_simps)
  note t = initialize_observed_topology_ok [OF this, of vars]
  have sh: "shape (from_snapshot clock snap opts) = shape ?t"
    by (simp add: from_snapshot_usable [OF Some] shape_observe)
  then have "length (s_outlets (from_snapshot clock snap opts)) = length (s_outlets ?t)" by (simp add: shape_maps)
  then show ?thesis
    using t Some topology_ok_shape [OF sh] groups_by_id_shape [OF sh] fallback_shape_shape [OF sh]
    by (simp split: option.splits)
qed

text \<open>
  C34: The topology of every mapped snapshot, usable or not: between 1 and 64 outlets numbered
  from 1, relay groups numbered densely in the order their first outlet appears, each
  outlet in exactly the group whose number it carries.  With a valid \<open>outlet.count\<close> there
  are that many outlets, and two of them share a group exactly when they carry the same
  nonempty group id; otherwise the two-zone fallback of eight outlets stands.
\<close>

theorem snapshot_topology:
  "topology_ok (from_snapshot clock snap opts) \<and>
   (case Option.bind (usable_variables clock snap opts) observed_count of
      None \<Rightarrow> fallback_shape (from_snapshot clock snap opts)
    | Some n \<Rightarrow> groups_by_id (from_snapshot clock snap opts) \<and>
               length (s_outlets (from_snapshot clock snap opts)) = n)"
  by (rule from_snapshot_topology)

section \<open>Availability and status\<close>

lemma distinct_tokens_spec:
  "set (distinct_tokens seen ts) = set seen \<union> set ts \<and> (distinct seen \<longrightarrow> distinct (distinct_tokens seen ts))"
  by (induction seen ts rule: distinct_tokens.induct) auto

lemma set_distinct_tokens [simp]: "set (distinct_tokens [] ts) = set ts" "distinct (distinct_tokens [] ts)"
  using distinct_tokens_spec [of "[]" ts] by simp_all

text \<open>The verdict on the status tokens: nothing, or the reason of unavailability.\<close>

definition source_count :: "string list \<Rightarrow> nat" where
  "source_count tokens = length (filter (\<lambda>t. t \<in> set tokens) [''OL'', ''OB'', ''OFF''])"

definition status_problem :: "string \<Rightarrow> string option" where
  "status_problem raw =
     (let tokens = GoText.fields raw in
      if tokens = [] then Some ''missing-ups-status''
      else if 1 < source_count tokens then Some ''conflicting-power-status''
      else if source_count tokens = 0 then Some ''unknown-power-status'' else None)"

definition snapshot_problem :: "int \<Rightarrow> snapshot \<Rightarrow> model_options \<Rightarrow> string option" where
  "snapshot_problem clock snap opts =
     (case usable_variables clock snap opts of
        None \<Rightarrow> Some (if CollectedAt snap = 0 \<or> Variables snap = None then ''no-observation''
                     else ''observation-in-future'')
      | Some vars \<Rightarrow> status_problem (lookup vars ''ups.status''))"

lemma map_status_verdict:
  "(s_availability (map_status raw s), s_reason (map_status raw s)) =
     (case status_problem raw of
        None \<Rightarrow> (s_availability s, s_reason s) | Some why \<Rightarrow> (Unavailable, why))"
  by (simp add: map_status_def status_problem_def Let_def map_power_source_def bool_count_def
      source_count_def unavailable_def set_source_def add_issues_def)

lemma observe_verdict:
  "s_availability (observe vars s) = s_availability (map_status (lookup vars ''ups.status'') (initialize_observed_topology vars s))"
  "s_reason (observe vars s) = s_reason (map_status (lookup vars ''ups.status'') (initialize_observed_topology vars s))"
  "s_status (observe vars s) =
     s_status (map_charger_status vars (map_status (lookup vars ''ups.status'') (initialize_observed_topology vars s)))"
  by (simp_all add: observe_def frame_simps)

text \<open>
  The availability and its reason, on every branch: unavailable without an observation,
  with one from the future, without a status, with conflicting power tokens or with none;
  stale when the observation is older than the limit; available otherwise.
\<close>

theorem availability_exact:
  "(s_availability (from_snapshot clock snap opts), s_reason (from_snapshot clock snap opts)) =
     (case snapshot_problem clock snap opts of
        Some why \<Rightarrow> (Unavailable, why)
      | None \<Rightarrow> if too_old clock snap opts then (Stale, ''observation-too-old'') else (Available, []))"
proof (cases "usable_variables clock snap opts")
  case None
  then show ?thesis
    by (auto simp: from_snapshot_def snapshot_problem_def usable_variables_def Let_def unavailable_def
        add_issues_def split: if_splits)
next
  case (Some vars)
  then show ?thesis
    using map_status_verdict [of "lookup vars ''ups.status''" "initialize_observed_topology vars (base_state clock snap opts)"]
    by (simp add: from_snapshot_usable observe_verdict snapshot_problem_def frame_simps split: option.splits)
qed

text \<open>What the status must say when the snapshot has a status: the specification of \<open>mapStatus\<close>.\<close>

definition power_source_of :: "string list \<Rightarrow> power_source" where
  "power_source_of tokens =
     (if source_count tokens \<noteq> 1 then SourceUnknown
      else if ''OL'' \<in> set tokens then SourceMains
      else if ''OB'' \<in> set tokens then SourceBattery else SourceOff)"

definition status_matches :: "string list \<Rightarrow> ups_status \<Rightarrow> bool" where
  "status_matches tokens st \<longleftrightarrow>
     distinct (st_raw st) \<and> set (st_raw st) = set tokens \<and>
     st_source st = (if tokens = [] then SourceUnknown else power_source_of tokens) \<and>
     (if tokens = [] then
        st_on_battery st = no_truth \<and> st_low_battery st = no_truth \<and> st_bypass st = no_truth \<and>
        st_overloaded st = no_truth \<and> st_replace st = no_truth
      else
        st_on_battery st = \<lparr>t_val = (''OB'' \<in> set tokens), t_known = (0 < source_count tokens)\<rparr> \<and>
        st_low_battery st = known_truth (''LB'' \<in> set tokens) \<and>
        st_bypass st = known_truth (''BYPASS'' \<in> set tokens) \<and>
        st_overloaded st = known_truth (''OVER'' \<in> set tokens) \<and>
        st_replace st = known_truth (''RB'' \<in> set tokens))"

definition charge_consistent :: "ups_status \<Rightarrow> bool" where
  "charge_consistent st \<longleftrightarrow>
     \<not> (t_val (st_charging st) \<and> t_val (st_discharging st)) \<and>
     t_known (st_charging st) = t_known (st_discharging st)"

lemma map_status_matches:
  "s_status s = no_status \<Longrightarrow> status_matches (GoText.fields raw) (s_status (map_status raw s)) \<and>
     st_charging (s_status (map_status raw s)) = no_truth \<and>
     st_discharging (s_status (map_status raw s)) = no_truth"
  by (simp add: map_status_def status_matches_def Let_def map_power_source_def bool_count_def
      source_count_def unavailable_def set_source_def add_issues_def no_status_def power_source_of_def)

lemma map_charger_keeps_status:
  "st_raw (s_status (map_charger_status vars s)) = st_raw (s_status s)"
  "st_source (s_status (map_charger_status vars s)) = st_source (s_status s)"
  "st_on_battery (s_status (map_charger_status vars s)) = st_on_battery (s_status s)"
  "st_low_battery (s_status (map_charger_status vars s)) = st_low_battery (s_status s)"
  "st_bypass (s_status (map_charger_status vars s)) = st_bypass (s_status s)"
  "st_overloaded (s_status (map_charger_status vars s)) = st_overloaded (s_status s)"
  "st_replace (s_status (map_charger_status vars s)) = st_replace (s_status s)"
  by (simp_all add: map_charger_status_def Let_def set_charge_def split: option.split)

lemma map_charger_consistent:
  "st_charging (s_status s) = no_truth \<Longrightarrow> st_discharging (s_status s) = no_truth \<Longrightarrow>
   charge_consistent (s_status (map_charger_status vars s))"
  by (simp add: map_charger_status_def Let_def set_charge_def charge_consistent_def no_truth_def
      known_truth_def charger_value_def split: option.split)

text \<open>
  The status of a usable snapshot: the raw tokens are those of \<open>ups.status\<close> without
  repetition, each flag says whether its token is among them, the power source is the one
  unambiguous token, and the charge is never reported as charging and discharging at once.
\<close>

theorem status_of_snapshot:
  "case usable_variables clock snap opts of
     None \<Rightarrow> s_status (from_snapshot clock snap opts) = no_status
   | Some vars \<Rightarrow>
       status_matches (GoText.fields (lookup vars ''ups.status'')) (s_status (from_snapshot clock snap opts)) \<and>
       charge_consistent (s_status (from_snapshot clock snap opts))"
proof (cases "usable_variables clock snap opts")
  case None
  then obtain why age where "from_snapshot clock snap opts =
      unavailable why ((initialize_fallback_topology (initial_state (CollectedAt snap)))\<lparr>s_age := age\<rparr>)"
    by (rule from_snapshot_unusable)
  then show ?thesis
    using None by (simp add: frame_simps initialize_fallback_topology_def initial_state_def)
next
  case (Some vars)
  let ?s = "initialize_observed_topology vars (base_state clock snap opts)"
  have "s_status ?s = no_status" by (simp add: frame_simps)
  note m = map_status_matches [OF this, of "lookup vars ''ups.status''"]
  then show ?thesis
    using Some map_charger_consistent [of "map_status (lookup vars ''ups.status'') ?s" vars]
    by (simp add: from_snapshot_usable observe_verdict status_matches_def map_charger_keeps_status)
qed

end
