(* ===== verification/UpsEvidence.thy ===== *)
theory UpsEvidence
  imports UpsFacts
begin

text \<open>
  Evidence: a known measurement is the number the upstream variable holds, within the bounds
  of the code, and nothing is invented; issues are machine-readable codes without upstream
  text; and a relay group's state never contradicts an observed outlet.
\<close>

section \<open>Measurements\<close>

definition reads :: "variables \<Rightarrow> string \<Rightarrow> rat \<Rightarrow> bool" where
  "reads vars name v =
     (case vars name of None \<Rightarrow> False | Some raw \<Rightarrow> parse_float (trim_space raw) = Some (FNum v))"

definition supported :: "variables \<Rightarrow> string \<Rightarrow> rat \<Rightarrow> rat \<Rightarrow> measurement \<Rightarrow> bool" where
  "supported vars name lo hi m \<longleftrightarrow>
     (if m_known m then reads vars name (m_val m) \<and> lo \<le> m_val m \<and> m_val m \<le> hi
      else m = no_measurement)"

definition supported_alias :: "variables \<Rightarrow> string \<Rightarrow> string \<Rightarrow> bool \<Rightarrow> measurement \<Rightarrow> bool" where
  "supported_alias vars primary alternate allow_zero m \<longleftrightarrow>
     (if m_known m then
        (vars primary = None \<or> reads vars primary (m_val m)) \<and>
        (vars alternate = None \<or> reads vars alternate (m_val m)) \<and>
        (vars primary \<noteq> None \<or> vars alternate \<noteq> None) \<and>
        0 \<le> m_val m \<and> m_val m \<le> max_observed_power \<and> (allow_zero \<or> m_val m \<noteq> 0)
      else m = no_measurement)"

definition supported_factor :: "variables \<Rightarrow> measurement \<Rightarrow> measurement \<Rightarrow> measurement \<Rightarrow> bool" where
  "supported_factor vars watts apparent m \<longleftrightarrow>
     (if m_known m then
        0 \<le> m_val m \<and> m_val m \<le> 1 \<and>
        (if vars ''output.powerfactor'' \<noteq> None then reads vars ''output.powerfactor'' (m_val m)
         else m_known watts \<and> m_known apparent \<and> m_val watts \<le> m_val apparent \<and>
              fdiv (m_val watts) (m_val apparent) = FNum (m_val m))
      else m = no_measurement)"

lemma parse_measurement_value_Some:
  "parse_measurement_value raw lo hi = Some m \<longleftrightarrow>
     (\<exists>v. parse_float (trim_space raw) = Some (FNum v) \<and> lo \<le> v \<and> v \<le> hi \<and> m = known v)"
  by (auto simp: parse_measurement_value_def not_less split: option.splits float64.splits)

lemma measurement_supported: "supported vars name lo hi (fst (read_measurement vars name lo hi))"
  by (auto simp: read_measurement_def supported_def reads_def parse_measurement_value_Some no_measurement_def
      known_def split: option.splits)

lemma power_side_cases:
  "power_side vars name z = (m, ok, i) \<Longrightarrow>
     (vars name = None \<and> m = no_measurement \<and> ok) \<or> \<not> ok \<or>
     (vars name \<noteq> None \<and> m_known m \<and> reads vars name (m_val m) \<and> 0 \<le> m_val m \<and>
      m_val m \<le> max_observed_power \<and> (z \<or> m_val m \<noteq> 0))"
  by (auto simp: power_side_def reads_def parse_measurement_value_Some known_def
      split: option.splits if_splits)

lemma aliased_supported: "supported_alias vars p a z (fst (aliased_power_measurement vars p a z))"
proof -
  obtain pv pok i1 where p: "power_side vars p z = (pv, pok, i1)" by (cases "power_side vars p z") auto
  obtain av aok i2 where a: "power_side vars a z = (av, aok, i2)" by (cases "power_side vars a z") auto
  show ?thesis
    using power_side_cases [OF p] power_side_cases [OF a]
    unfolding aliased_power_measurement_def p a
    by (auto simp: supported_alias_def no_measurement_def)
qed

lemma factor_supported: "supported_factor vars w va (fst (output_power_factor vars w va))"
proof (cases "vars ''output.powerfactor''")
  case None
  then show ?thesis
    by (simp add: output_power_factor_def supported_factor_def no_measurement_def known_def not_less
        split: float64.split)
next
  case (Some raw)
  then show ?thesis
    by (auto simp: output_power_factor_def supported_factor_def reads_def no_measurement_def known_def
        parse_measurement_value_Some split: option.splits)
qed

definition supported_battery :: "variables \<Rightarrow> battery \<Rightarrow> bool" where
  "supported_battery vars b \<longleftrightarrow>
     supported vars ''battery.charge'' 0 100 (b_charge b) \<and>
     supported vars ''battery.runtime'' 0 max_battery_runtime (b_runtime b) \<and>
     supported vars ''battery.voltage'' 0 1000 (b_voltage b) \<and>
     supported vars ''ups.temperature'' (- 100) 300 (b_temperature b)"

definition supported_electrical :: "variables \<Rightarrow> electrical \<Rightarrow> bool" where
  "supported_electrical vars e \<longleftrightarrow>
     supported vars ''input.voltage'' 0 1000 (e_input_voltage e) \<and>
     supported vars ''output.voltage'' 0 1000 (e_output_voltage e) \<and>
     supported vars ''output.current'' 0 10000 (e_output_current e) \<and>
     supported_alias vars ''ups.realpower'' ''output.realpower'' True (e_power_w e) \<and>
     supported_alias vars ''ups.realpower.nominal'' ''output.realpower.nominal'' False (e_power_nominal_w e) \<and>
     supported_alias vars ''ups.power'' ''output.power'' True (e_apparent_va e) \<and>
     supported_alias vars ''ups.power.nominal'' ''output.power.nominal'' False (e_apparent_nominal_va e) \<and>
     supported_factor vars (e_power_w e) (e_apparent_va e) (e_power_factor e) \<and>
     supported vars ''ups.load'' 0 100 (e_load e)"

definition supported_outlet :: "variables \<Rightarrow> outlet \<Rightarrow> bool" where
  "supported_outlet vars o1 \<longleftrightarrow>
     (let pre = outlet_prefix (o_index o1) in
      supported vars (pre @ ''voltage'') 0 1000 (o_voltage o1) \<and>
      supported vars (pre @ ''current'') 0 10000 (o_current o1) \<and>
      supported vars (pre @ ''realpower'') 0 max_observed_power (o_power_w o1) \<and>
      supported vars (pre @ ''powerfactor'') 0 1 (o_power_factor o1))"

definition supported_state :: "variables \<Rightarrow> ups_state \<Rightarrow> bool" where
  "supported_state vars s \<longleftrightarrow>
     supported_battery vars (s_battery s) \<and> supported_electrical vars (s_electrical s) \<and>
     list_all (supported_outlet vars) (s_outlets s)"

lemma map_measurements_supported:
  "supported_battery vars (s_battery (map_measurements vars s))"
  "supported_electrical vars (s_electrical (map_measurements vars s))"
  unfolding supported_battery_def supported_electrical_def map_measurements_def Let_def split_beta
  by (simp_all add: add_issues_def measurement_supported aliased_supported factor_supported)

lemma outlet_telemetry_supported: "supported_outlet vars (fst (outlet_telemetry vars gs t o1))"
  unfolding supported_outlet_def outlet_frame Let_def
  by (simp add: outlet_telemetry_def Let_def split_beta measurement_supported)

lemma supported_none: "supported Map.empty name lo hi no_measurement"
  "supported_alias Map.empty p a z no_measurement" "supported_factor Map.empty w va no_measurement"
  by (simp_all add: supported_def supported_alias_def supported_factor_def no_measurement_def)

lemma from_snapshot_supported:
  "supported_state (case usable_variables clock snap opts of Some vars \<Rightarrow> vars | None \<Rightarrow> Map.empty)
     (from_snapshot clock snap opts)"
proof (cases "usable_variables clock snap opts")
  case None
  then obtain why age where "from_snapshot clock snap opts =
      unavailable why ((initialize_fallback_topology (initial_state (CollectedAt snap)))\<lparr>s_age := age\<rparr>)"
    by (rule from_snapshot_unusable)
  then show ?thesis
    using None
    by (simp add: supported_state_def frame_simps initialize_fallback_topology_def initial_state_def
        supported_battery_def supported_electrical_def supported_outlet_def supported_none new_outlet_def
        list_all_iff Let_def)
next
  case (Some vars)
  let ?s = "map_beeper_status vars (map_charger_status vars (map_status (lookup vars ''ups.status'')
      (initialize_observed_topology vars (base_state clock snap opts))))"
  have "s_outlets (map_outlet_telemetry vars (map_measurements vars ?s)) =
      map (\<lambda>o1. fst (outlet_telemetry vars (s_groups (map_measurements vars ?s))
        (case vars ''outlet.switchable'' of None \<Rightarrow> no_truth | Some raw \<Rightarrow> parse_truth raw) o1))
        (s_outlets (map_measurements vars ?s))"
    by (simp add: map_outlet_telemetry_def Let_def comp_def)
  then have "list_all (supported_outlet vars) (s_outlets (map_outlet_telemetry vars (map_measurements vars ?s)))"
    by (simp add: list_all_iff outlet_telemetry_supported)
  then show ?thesis
    using Some map_measurements_supported [of vars ?s]
    by (simp add: from_snapshot_usable observe_def supported_state_def group_relay_frame telemetry_frame)
qed

text \<open>
  C35: No measurement is invented: every known value of the mapped state, battery, electrical or
  per outlet, is the number its NUT variable holds and lies within the bounds of the code;
  for aliased power variables both must agree; a power factor is observed, or the quotient
  of the observed powers.  Without a usable observation nothing is known.
\<close>

theorem measurements_supported:
  "supported_state (case usable_variables clock snap opts of Some vars \<Rightarrow> vars | None \<Rightarrow> Map.empty)
     (from_snapshot clock snap opts)"
  by (rule from_snapshot_supported)

section \<open>Issues\<close>

definition issue_char :: "char \<Rightarrow> bool" where
  "issue_char c \<longleftrightarrow> in_range 97 122 c \<or> in_range 48 57 c \<or> c = CHR ''-''"

definition issue_code :: "string \<Rightarrow> bool" where
  "issue_code s = list_all issue_char s"

definition issue_codes :: "string list \<Rightarrow> bool" where
  "issue_codes is = list_all issue_code is"

lemma issue_codes_simps [simp]:
  "issue_codes []" "issue_codes (x # xs) \<longleftrightarrow> issue_code x \<and> issue_codes xs"
  "issue_codes (xs @ ys) \<longleftrightarrow> issue_codes xs \<and> issue_codes ys"
  "issue_codes (concat xss) \<longleftrightarrow> list_all issue_codes xss"
  by (auto simp: issue_codes_def list_all_iff)

lemma issue_code_simps [simp]:
  "issue_code []" "issue_code (c # s) \<longleftrightarrow> issue_char c \<and> issue_code s"
  "issue_code (s @ t) \<longleftrightarrow> issue_code s \<and> issue_code t"
  by (simp_all add: issue_code_def)

lemma issue_code_dec [simp]: "issue_code (dec_text n)"
  using dec_text_digits [of n] by (auto simp: issue_code_def issue_char_def list_all_iff)

lemma issue_char_eval [simp]:
  "issue_char CHR ''-''" "in_range 97 122 c \<Longrightarrow> issue_char c" "in_range 48 57 c \<Longrightarrow> issue_char c"
  by (simp_all add: issue_char_def)

lemma in_range_eval: "in_range lo hi c \<longleftrightarrow> lo \<le> of_char c \<and> of_char c \<le> (hi::nat)"
  by (simp add: in_range_def cbyte_def)

lemma issue_name_append [simp]: "issue_name (s @ t) = issue_name s @ issue_name t"
  by (simp add: issue_name_def replace_char_def)

lemma issue_name_Cons [simp]:
  "issue_name [] = []" "issue_name (c # s) = (if c = CHR ''.'' then CHR ''-'' else c) # issue_name s"
  by (simp_all add: issue_name_def replace_char_def)

lemma issue_name_dec [simp]: "issue_name (dec_text n) = dec_text n"
proof -
  have "c \<noteq> CHR ''.''" if "c \<in> set (dec_text n)" for c
    using dec_text_digits [of n] that by (auto simp: list_all_iff in_range_def cbyte_def)
  then show ?thesis by (simp add: issue_name_def replace_char_def map_idI)
qed

lemma issue_code_prefix [simp]: "issue_code (issue_name (outlet_prefix n))"
  by (simp add: outlet_prefix_def in_range_eval)

lemma measurement_issues: "issue_code (issue_name name) \<Longrightarrow> issue_codes (snd (read_measurement vars name lo hi))"
  by (simp add: read_measurement_def in_range_eval split: option.split)

lemma aliased_issues:
  assumes "issue_code (issue_name p)" "issue_code (issue_name a)"
  shows "issue_codes (snd (aliased_power_measurement vars p a z))"
proof -
  have "issue_codes (snd (snd (power_side vars n z)))" if "issue_code (issue_name n)" for n
    using that by (simp add: power_side_def in_range_eval split: option.split)
  then show ?thesis using assms
    by (simp add: aliased_power_measurement_def Let_def split_beta in_range_eval)
qed

lemma factor_issues: "issue_codes (snd (output_power_factor vars w va))"
  by (simp add: output_power_factor_def in_range_eval split: option.split float64.split)

lemma row_issue_code: "issue_code w \<Longrightarrow> issue_code f \<Longrightarrow> issue_code (row_issue w n f)"
  by (simp add: row_issue_def in_range_eval)

lemma read_row_issues: "issue_codes (snd (read_row vars n))"
  unfolding read_row_def Let_def split_beta
  by (simp add: read_row_id_def read_row_text_def read_row_count_def read_row_switchable_def
      read_row_relay_def Let_def row_issue_code in_range_eval split: option.split prod.split bool.split)

lemma read_rows_issues: "issue_codes (snd (read_rows vars is t))"
proof (induction "is" arbitrary: t)
  case (Cons i "is")
  have "issue_codes (snd (add_row r t))" for r by (simp add: add_row_def Let_def in_range_eval)
  with Cons read_row_issues show ?case by (simp add: split_beta Let_def)
qed simp

lemma metadata_issues: "issue_codes (snd (read_native_group_metadata vars))"
  by (simp add: read_native_group_metadata_def in_range_eval read_rows_issues del: upt_Suc split: option.split)

lemma place_outlets_issues: "issue_codes (snd (place_outlets vars is p))"
proof (induction "is" arbitrary: p)
  case (Cons i "is")
  have "issue_codes (snd (read_outlet_id vars i f))" if "issue_code f" for f
    using that by (simp add: read_outlet_id_def in_range_eval split: option.split prod.split bool.split)
  with Cons show ?case by (simp add: split_beta Let_def in_range_eval)
qed simp

lemma apply_metadata_issues: "issue_codes (snd (apply_metadata t g))"
  by (simp add: apply_metadata_def in_range_eval split: option.split)

named_theorems issue_simps \<open>operations append issue codes only\<close>

lemma add_issues_issues [issue_simps]: "issue_codes (s_issues (add_issues i s)) \<longleftrightarrow> issue_codes (s_issues s) \<and> issue_codes i"
  by simp

lemma topology_issues [issue_simps]:
  "issue_codes (s_issues s) \<Longrightarrow> issue_codes (s_issues (initialize_observed_topology vars s))"
  by (simp add: initialize_observed_topology_def Let_def split_beta in_range_eval metadata_issues
      place_outlets_issues apply_metadata_issues list_all_iff del: upt_Suc split: option.split)

lemma status_issues [issue_simps]:
  "issue_codes (s_issues s) \<Longrightarrow> issue_codes (s_issues (map_status raw s))"
  by (simp add: map_status_def Let_def map_power_source_def unavailable_def set_source_def in_range_eval)

lemma charger_issues [issue_simps]:
  "issue_codes (s_issues s) \<Longrightarrow> issue_codes (s_issues (map_charger_status vars s))"
  by (simp add: map_charger_status_def Let_def set_charge_def in_range_eval split: option.split)

lemma beeper_issues [issue_simps]:
  "issue_codes (s_issues s) \<Longrightarrow> issue_codes (s_issues (map_beeper_status vars s))"
  by (simp add: map_beeper_status_def in_range_eval split: option.split)

lemma measurements_issues [issue_simps]:
  assumes "issue_codes (s_issues s)"
  shows "issue_codes (s_issues (map_measurements vars s))"
  using assms unfolding map_measurements_def Let_def split_beta
  by (simp add: measurement_issues aliased_issues factor_issues)
     (simp add: measurement_issues aliased_issues issue_name_def replace_char_def in_range_eval)

lemma outlet_telemetry_issues: "issue_codes (snd (outlet_telemetry vars gs t o1))"
proof -
  have i: "issue_code (outlet_issue n w)" if "issue_code w" for n w
    using that by (simp add: outlet_issue_def in_range_eval)
  have "issue_codes (snd (read_measurement vars (outlet_prefix n @ f) lo hi))" if "issue_code (issue_name f)" for n f lo hi
    using that by (intro measurement_issues) simp
  then show ?thesis unfolding outlet_telemetry_def Let_def split_beta
    by (simp add: outlet_naming_def outlet_text_def outlet_switchable_def outlet_relay_def Let_def i
        issue_name_def replace_char_def in_range_eval split: option.split)
qed

lemma telemetry_issues [issue_simps]:
  "issue_codes (s_issues s) \<Longrightarrow> issue_codes (s_issues (map_outlet_telemetry vars s))"
  by (simp add: map_outlet_telemetry_def Let_def in_range_eval outlet_telemetry_issues list_all_iff)

lemma relay_issues [issue_simps]:
  "issue_codes (s_issues s) \<Longrightarrow> issue_codes (s_issues (map_group_relay_states s))"
  by (simp add: map_group_relay_states_def Let_def group_relay_def relay_issue_def in_range_eval list_all_iff)

text \<open>
  Issues are machine-readable: every issue of a mapped snapshot is made of lower-case
  letters, digits and hyphens, whatever the upstream variables hold, so that no upstream
  text reaches them.
\<close>

theorem issues_machine_readable: "issue_codes (s_issues (from_snapshot clock snap opts))"
proof (cases "usable_variables clock snap opts")
  case None
  then obtain why age where "why \<in> {''no-observation'', ''observation-in-future''}" "from_snapshot clock snap opts =
      unavailable why ((initialize_fallback_topology (initial_state (CollectedAt snap)))\<lparr>s_age := age\<rparr>)"
    by (rule from_snapshot_unusable)
  then show ?thesis
    by (auto simp: unavailable_def initialize_fallback_topology_def initial_state_def in_range_eval)
next
  case (Some vars)
  have "issue_codes (s_issues (base_state clock snap opts))" by (simp add: base_frame)
  then show ?thesis unfolding from_snapshot_usable [OF Some] observe_def by (intro issue_simps)
qed

section \<open>Relay states\<close>

definition relay_agrees :: "outlet list \<Rightarrow> outlet_group \<Rightarrow> bool" where
  "relay_agrees os g \<longleftrightarrow>
     (g_relay g \<in> {RelayOn, RelayOff} \<longrightarrow>
        list_all (\<lambda>o1. o_relay o1 \<in> {RelayOn, RelayOff} \<longrightarrow> o_relay o1 = g_relay g) (group_members os g)) \<and>
     (g_source g = 0 \<longrightarrow> g_relay g = derive_group_relay (group_members os g))"

lemma relay_tail_on: "relay_tail r os = q \<Longrightarrow> q \<in> {RelayOn, RelayOff} \<Longrightarrow> r = q \<and> (\<forall>o1 \<in> set os. o_relay o1 = q)"
  by (induction os) (auto split: if_splits)

lemma derive_group_relay_on:
  assumes "derive_group_relay os \<in> {RelayOn, RelayOff}"
  shows "\<forall>o1 \<in> set os. o_relay o1 = derive_group_relay os"
proof (cases os)
  case (Cons o1 rest)
  then have d: "derive_group_relay os = relay_tail (o_relay o1) rest"
    using assms by (auto simp: derive_group_relay_def)
  show ?thesis using relay_tail_on [OF d [symmetric] assms] Cons by simp
qed simp

lemma group_relay_agrees: "relay_agrees os (fst (group_relay ns os g))"
proof -
  have m: "group_members os (fst (group_relay ns os g)) = group_members os g"
    by (simp add: group_members_def relay_frame)
  let ?M = "group_members os g"
  have d: "list_all (\<lambda>o1. o_relay o1 \<in> {RelayOn, RelayOff} \<longrightarrow> o_relay o1 = derive_group_relay ?M) ?M"
    if "derive_group_relay ?M \<in> {RelayOn, RelayOff}"
    using derive_group_relay_on [OF that] by (simp add: list_all_iff)
  have c: "list_all (\<lambda>o1. o_relay o1 \<in> {RelayOn, RelayOff} \<longrightarrow> o_relay o1 = r) ?M"
    if "\<not> relay_evidence_conflicts ?M r" for r
    using that by (auto simp: relay_evidence_conflicts_def list_all_iff list_ex_iff)
  have src: "g_source (fst (group_relay ns os g)) = g_source g" by (simp add: group_relay_def Let_def)
  have "(g_relay (fst (group_relay ns os g)) = derive_group_relay ?M) \<or>
      g_source g \<noteq> 0 \<and> g_relay (fst (group_relay ns os g)) = RelayUnknown \<or>
      g_source g \<noteq> 0 \<and> \<not> relay_evidence_conflicts ?M (g_relay (fst (group_relay ns os g)))"
    by (simp add: group_relay_def Let_def)
  then consider "g_relay (fst (group_relay ns os g)) = derive_group_relay ?M"
    | "g_source g \<noteq> 0" "g_relay (fst (group_relay ns os g)) = RelayUnknown"
    | "g_source g \<noteq> 0" "\<not> relay_evidence_conflicts ?M (g_relay (fst (group_relay ns os g)))"
    by blast
  then show ?thesis
  proof cases
    case 1
    then show ?thesis unfolding relay_agrees_def m src 1 using d by blast
  next
    case 2
    then show ?thesis unfolding relay_agrees_def m src by simp
  next
    case 3
    then show ?thesis unfolding relay_agrees_def m src using c [OF 3(2)] 3(1) by blast
  qed
qed

text \<open>
  After mapping, a relay group that is reported on or off never contradicts one of its
  outlets that is observed on or off, also where the group's own status is taken from NUT;
  and a group without a source row has exactly the state its outlets imply.
\<close>

theorem relay_states_agree:
  "list_all (relay_agrees (s_outlets (from_snapshot clock snap opts)))
     (s_groups (from_snapshot clock snap opts))"
proof (cases "usable_variables clock snap opts")
  case None
  then obtain why age where "from_snapshot clock snap opts =
      unavailable why ((initialize_fallback_topology (initial_state (CollectedAt snap)))\<lparr>s_age := age\<rparr>)"
    by (rule from_snapshot_unusable)
  then show ?thesis
    by (simp add: frame_simps initialize_fallback_topology_def relay_agrees_def fallback_group_def
        group_members_def new_outlet_def derive_group_relay_def)
next
  case (Some vars)
  then show ?thesis unfolding from_snapshot_usable [OF Some] observe_def
    by (simp add: map_group_relay_states_def [of "map_outlet_telemetry _ _"] Let_def list_all_iff group_relay_agrees)
qed

end
