(* ===== verification/GoBytes.thy ===== *)
theory GoBytes
  imports GoText
begin

text \<open>
  \<open>encoding/binary.BigEndian\<close> on byte lists, Go's \<open>io.ReadFull\<close> on an explicit random
  stream, and sequence numbers: the interface of a counter that hands out each number once
  and refuses for ever when it has wrapped to zero.
\<close>

section \<open>Big-endian numbers\<close>

fun be_bytes :: "nat \<Rightarrow> nat \<Rightarrow> byte list" where
  "be_bytes 0 v = []"
| "be_bytes (Suc n) v = of_nat (v div 256 ^ n) # be_bytes n v"

definition be_value :: "byte list \<Rightarrow> nat" where
  "be_value bs = foldl (\<lambda>a b. a * 256 + unat b) 0 bs"

lemma length_be_bytes [simp]: "length (be_bytes n v) = n"
  by (induction n) simp_all

lemma unat_of_nat_byte: "unat (of_nat k :: byte) = k mod 256"
  by (simp add: unsigned_of_nat take_bit_eq_mod)

lemma foldl_be: "foldl (\<lambda>a b. a * 256 + unat (b::byte)) a bs = a * 256 ^ length bs + be_value bs"
proof (induction bs arbitrary: a)
  case (Cons b bs)
  have "be_value (b # bs) = unat b * 256 ^ length bs + be_value bs"
    unfolding be_value_def by (simp only: foldl_Cons mult_0 add_0) (simp only: Cons.IH [of "unat b"] be_value_def)
  then show ?case using Cons.IH [of "a * 256 + unat b"] by (simp add: algebra_simps)
qed (simp add: be_value_def)

lemma be_value_Nil [simp]: "be_value [] = 0"
  by (simp add: be_value_def)

lemma be_value_Cons: "be_value (b # bs) = unat b * 256 ^ length bs + be_value bs"
  using foldl_be [of "unat b" bs] by (simp add: be_value_def)

lemma be_value_less: "be_value bs < 256 ^ length bs"
proof (induction bs)
  case (Cons b bs)
  have "unat b * 256 ^ length bs + be_value bs < (unat b + 1) * 256 ^ length bs"
    using Cons by (simp add: algebra_simps)
  also have "\<dots> \<le> 256 * 256 ^ length bs" using unat_byte [of b] by (intro mult_right_mono) simp_all
  finally show ?case by (simp add: be_value_Cons)
qed simp

lemma be_value_bytes: "be_value (be_bytes n v) = v mod 256 ^ n"
proof (induction n)
  case (Suc n)
  have "v mod 256 ^ Suc n = v div 256 ^ n mod 256 * 256 ^ n + v mod 256 ^ n"
    using mod_mult2_eq [of v "256 ^ n" 256] by (simp add: mult.commute)
  then show ?case using Suc by (simp add: be_value_Cons unat_of_nat_byte)
qed simp

lemma be_value_bytes_id [simp]: "v < 256 ^ n \<Longrightarrow> be_value (be_bytes n v) = v"
  by (simp add: be_value_bytes)

lemma byte_256: "(256 :: byte) = 0"
  using unat_of_nat_byte [of 256] by (simp add: unat_eq_zero)

lemma be_bytes_value: "be_bytes (length bs) (be_value bs) = bs"
proof (induction bs)
  case (Cons b bs)
  have tail: "be_bytes n (x * 256 ^ n + v) = be_bytes n v" for n x v
  proof -
    have "be_bytes k (x * 256 ^ n + v) = be_bytes k v" if "k \<le> n" for k
      using that
    proof (induction k)
      case (Suc k)
      obtain d where d: "n = Suc (k + d)" using Suc.prems less_iff_Suc_add [of k n] by auto
      have "x * 256 ^ n + v = v + (x * 256 ^ d * 256) * 256 ^ k"
        unfolding d by (simp add: power_add algebra_simps)
      then have "(x * 256 ^ n + v) div 256 ^ k = x * 256 ^ d * 256 + v div 256 ^ k"
        by (simp only: div_mult_self1 [of "256 ^ k"]) simp
      then have "(of_nat ((x * 256 ^ n + v) div 256 ^ k) :: byte) = of_nat (v div 256 ^ k)"
        by (simp only: of_nat_add of_nat_mult of_nat_numeral byte_256) simp
      with Suc show ?case by simp
    qed simp
    then show ?thesis by blast
  qed
  have "(unat b * 256 ^ length bs + be_value bs) div 256 ^ length bs = unat b"
    using be_value_less [of bs] by simp
  then show ?case using Cons tail [of "length bs" "unat b" "be_value bs"] by (simp add: be_value_Cons)
qed simp

definition put_u16 :: "u16 \<Rightarrow> byte list" where "put_u16 v = be_bytes 2 (unat v)"
definition put_u32 :: "u32 \<Rightarrow> byte list" where "put_u32 v = be_bytes 4 (unat v)"
definition put_u64 :: "u64 \<Rightarrow> byte list" where "put_u64 v = be_bytes 8 (unat v)"
definition get_u16 :: "byte list \<Rightarrow> u16" where "get_u16 bs = of_nat (be_value bs)"
definition get_u32 :: "byte list \<Rightarrow> u32" where "get_u32 bs = of_nat (be_value bs)"

lemma length_put [simp]: "length (put_u16 a) = 2" "length (put_u32 b) = 4" "length (put_u64 c) = 8"
  by (simp_all add: put_u16_def put_u32_def put_u64_def)

lemma get_put [simp]: "get_u16 (put_u16 a) = a" "get_u32 (put_u32 b) = b"
proof -
  have "unat a < 256 ^ 2" using unsigned_less [of a, where ?'a = nat] by simp
  then show "get_u16 (put_u16 a) = a" by (simp add: get_u16_def put_u16_def)
  have "unat b < 256 ^ 4" using unsigned_less [of b, where ?'a = nat] by simp
  then show "get_u32 (put_u32 b) = b" by (simp add: get_u32_def put_u32_def)
qed

lemma put_u64_inject: "put_u64 a = put_u64 b \<longleftrightarrow> a = b"
proof -
  have "be_value (put_u64 c) = unat c" for c
    using unsigned_less [of c, where ?'a = nat] by (simp add: put_u64_def)
  then show ?thesis by (metis unsigned_word_eqI)
qed

text \<open>The bitwise OR over bytes the code folds to test for all zeroes.\<close>

definition zero_bytes :: "byte list \<Rightarrow> bool" where
  "zero_bytes bs \<longleftrightarrow> foldl (\<lambda>a b. or a b) 0 bs = 0"

lemma or_eq_0_byte: "or (a::byte) b = 0 \<longleftrightarrow> a = 0 \<and> b = 0"
  by (metis or.right_neutral or.left_neutral or_eq_0_iff)

lemma zero_bytes_iff: "zero_bytes bs \<longleftrightarrow> (\<forall>b \<in> set bs. b = 0)"
proof -
  have "foldl (\<lambda>a b. or a b) a bs = 0 \<longleftrightarrow> a = 0 \<and> (\<forall>b \<in> set bs. b = 0)" for a :: byte
    by (induction bs arbitrary: a) (auto simp: or_eq_0_byte)
  then show ?thesis by (simp add: zero_bytes_def)
qed

section \<open>Random bytes\<close>

definition read_full :: "nat \<Rightarrow> byte list \<Rightarrow> byte list option \<times> byte list" where
  "read_full n stream =
     (if n \<le> length stream then (Some (take n stream), drop n stream) else (None, []))"

lemma read_full_length: "read_full n s = (Some bs, s') \<Longrightarrow> length bs = n"
  by (auto simp: read_full_def split: if_splits)

section \<open>Sequence numbers\<close>

text \<open>Taking \<open>k\<close> numbers one after the other, up to the first refusal.\<close>

fun take_many :: "('s \<Rightarrow> ('n \<times> 's) option) \<Rightarrow> nat \<Rightarrow> 's \<Rightarrow> 'n list \<times> 's" where
  "take_many f 0 s = ([], s)"
| "take_many f (Suc k) s =
     (case f s of
        None \<Rightarrow> ([], s)
      | Some (n, s') \<Rightarrow> (let (ns, s'') = take_many f k s' in (n # ns, s'')))"

locale sequence_counter =
  fixes take_next :: "'s \<Rightarrow> ('n \<times> 's) option"
    and peek :: "'s \<Rightarrow> nat"
    and number :: "'n \<Rightarrow> nat"
    and bound :: nat
  assumes bound_pos: "1 < bound"
    and peek_bound: "peek s < bound"
    and refuse_iff: "take_next s = None \<longleftrightarrow> peek s = 0"
    and take_number: "take_next s = Some (n, s') \<Longrightarrow> number n = peek s"
    and take_step: "take_next s = Some (n, s') \<Longrightarrow> peek s' = (peek s + 1) mod bound"
begin

lemma refused_forever: "peek s = 0 \<Longrightarrow> take_many take_next k s = ([], s)"
  using refuse_iff [of s] by (cases k) simp_all

lemma take_many_numbers:
  "peek s \<noteq> 0 \<Longrightarrow>
   map number (fst (take_many take_next k s)) = [peek s..<min (peek s + k) bound]"
proof (induction k arbitrary: s)
  case (Suc k)
  then obtain n s' where t: "take_next s = Some (n, s')"
    using refuse_iff [of s] by (cases "take_next s") auto
  have n: "number n = peek s" and p: "peek s' = (peek s + 1) mod bound"
    using take_number [OF t] take_step [OF t] by simp_all
  show ?case
  proof (cases "peek s + 1 = bound")
    case True
    then have "peek s' = 0" using p by simp
    moreover have "[peek s..<bound] = [peek s]" using True by (simp add: upt_conv_Cons)
    ultimately show ?thesis using t n True by (simp add: split_beta Let_def refused_forever)
  next
    case False
    then have p': "peek s' = peek s + 1" using p peek_bound [of s] by simp
    then have "map number (fst (take_many take_next k s')) = [peek s + 1..<min (peek s + 1 + k) bound]"
      using Suc.IH [of s'] by simp
    moreover have "[peek s..<min (peek s + Suc k) bound] = peek s # [peek s + 1..<min (peek s + 1 + k) bound]"
      using peek_bound [of s] by (simp add: upt_conv_Cons)
    ultimately show ?thesis using t n by (simp add: split_beta Let_def)
  qed
qed (use peek_bound in \<open>simp add: min_def less_imp_le\<close>)

lemma take_many_distinct: "distinct (map number (fst (take_many take_next k s)))"
  using take_many_numbers [of s k] refused_forever [of s k] by (cases "peek s = 0") simp_all

lemma take_many_exhausts:
  assumes "bound \<le> peek s + k" "peek s \<noteq> 0"
  shows "length (fst (take_many take_next k s)) = bound - peek s"
  using arg_cong [OF take_many_numbers [OF assms(2), of k], of length] assms by simp

end

end
