(* ===== verification/InformCodec.thy ===== *)
theory InformCodec
  imports GoBytes
begin

text \<open>
  \<open>internal/unifi/inform/codec.go\<close>: the TNBU envelope.  AES-128 on one block and AES-GCM
  are the functions of a \<open>crypto\<close> record, arguments of the model; \<open>crypto_ok\<close> states the
  documented laws the code relies on (decryption inverts encryption and keeps the block
  length; \<open>Open\<close> returns what \<open>Seal\<close> sealed under the same key, nonce and header, and the
  sealed text is 16 bytes longer).  CBC, the padding, the header and the nonce sequence are
  the code's own and are defined here.
\<close>

section \<open>Constants and state\<close>

definition header_length :: nat where "header_length = 40"
definition packet_version :: u32 where "packet_version = 0"
definition payload_version :: u32 where "payload_version = 1"
definition flag_encrypted :: u16 where "flag_encrypted = 1"
definition flag_gcm :: u16 where "flag_gcm = 8"
definition block_size :: nat where "block_size = 16"

definition magic :: "byte list" where
  "magic = [0x54, 0x4E, 0x42, 0x55]"

type_synonym mode = byte

definition mode_cbc :: mode where "mode_cbc = 0"
definition mode_gcm :: mode where "mode_gcm = 1"

record codec_limits =
  MaxWireBody :: int
  MaxPlaintext :: int

definition default_codec_limits :: codec_limits where
  "default_codec_limits = \<lparr>MaxWireBody = 1048576, MaxPlaintext = 4194304\<rparr>"

definition limits_valid :: "codec_limits \<Rightarrow> bool" where
  "limits_valid l \<longleftrightarrow> \<not> (MaxWireBody l < int block_size \<or> MaxPlaintext l < 1)"

record packet =
  p_mac :: "byte list"
  p_version :: u32
  p_payload :: "byte list"
  p_nonce :: "byte list option"

record crypto =
  aes_encrypt :: "byte list \<Rightarrow> byte list \<Rightarrow> byte list"
  aes_decrypt :: "byte list \<Rightarrow> byte list \<Rightarrow> byte list"
  gcm_seal :: "byte list \<Rightarrow> byte list \<Rightarrow> byte list \<Rightarrow> byte list \<Rightarrow> byte list"
  gcm_open :: "byte list \<Rightarrow> byte list \<Rightarrow> byte list \<Rightarrow> byte list \<Rightarrow> byte list option"

definition crypto_ok :: "crypto \<Rightarrow> bool" where
  "crypto_ok cr \<longleftrightarrow>
     (\<forall>key b. length key = 16 \<longrightarrow> length b = block_size \<longrightarrow>
        length (aes_encrypt cr key b) = block_size \<and> aes_decrypt cr key (aes_encrypt cr key b) = b) \<and>
     (\<forall>key iv plain aad. length key = 16 \<longrightarrow> length iv = block_size \<longrightarrow>
        length (gcm_seal cr key iv plain aad) = length plain + 16 \<and>
        gcm_open cr key iv (gcm_seal cr key iv plain aad) aad = Some plain)"

datatype codec_error =
    InvalidLimits | UnsupportedVersion | NoRandom | InvalidMAC | EmptyPayload
  | PlaintextLimit | InvalidKey | UnsupportedMode | NonceExhausted | BodyLimit
  | TruncatedHeader | InvalidMagic | UnsupportedPayloadVersion | WrongMAC | UnsupportedFlags
  | WrongMode | LengthMismatch | EmptyBody | TruncatedBody | AuthenticationFailed
  | NotAligned | InvalidPadding

record encoder =
  e_random :: "byte list"
  e_limits :: codec_limits
  e_prefix :: "byte list"
  e_next :: u64
  e_version :: u32

section \<open>Helpers\<close>

definition validate_mac :: "byte list \<Rightarrow> bool" where
  "validate_mac mac \<longleftrightarrow> \<not> (zero_bytes mac \<or> and (mac ! 0) 1 \<noteq> 0)"

definition parse_key :: "string \<Rightarrow> byte list option" where
  "parse_key key_hex =
     (if length key_hex \<noteq> 32 then None
      else case hex_decode key_hex of
        None \<Rightarrow> None
      | Some key \<Rightarrow> if length key \<noteq> block_size then None else Some key)"

definition padded_length :: "nat \<Rightarrow> nat \<Rightarrow> nat" where
  "padded_length n bs = n + bs - n mod bs"

definition pkcs7_pad :: "byte list \<Rightarrow> byte list" where
  "pkcs7_pad plain =
     (let pad = block_size - length plain mod block_size in plain @ replicate pad (of_nat pad))"

definition strip_pkcs7 :: "byte list \<Rightarrow> byte list option" where
  "strip_pkcs7 inp =
     (if inp = [] \<or> length inp mod block_size \<noteq> 0 then None
      else let pad = unat (inp ! (length inp - 1));
               in_range = (1 \<le> pad \<and> pad \<le> block_size);
               mismatch = list_ex (\<lambda>i. i + 1 \<le> pad \<and> inp ! (length inp - 1 - i) \<noteq> of_nat pad) [0..<block_size]
           in if in_range \<and> \<not> mismatch then Some (take (length inp - pad) inp) else None)"

definition xor_bytes :: "byte list \<Rightarrow> byte list \<Rightarrow> byte list" where
  "xor_bytes a b = map2 (\<lambda>x y. xor x y) a b"

text \<open>CBC over whole blocks, as \<open>cipher.NewCBCEncrypter\<close> and \<open>NewCBCDecrypter\<close> chain them.\<close>

function cbc_encrypt :: "crypto \<Rightarrow> byte list \<Rightarrow> byte list \<Rightarrow> byte list \<Rightarrow> byte list" where
  "cbc_encrypt cr key iv plain =
     (if plain = [] then []
      else let c = aes_encrypt cr key (xor_bytes iv (take block_size plain))
           in c @ cbc_encrypt cr key c (drop block_size plain))"
  by pat_completeness auto
termination by (relation "measure (\<lambda>(_, _, _, p). length p)") (auto simp: block_size_def)

function cbc_decrypt :: "crypto \<Rightarrow> byte list \<Rightarrow> byte list \<Rightarrow> byte list \<Rightarrow> byte list" where
  "cbc_decrypt cr key iv body =
     (if body = [] then []
      else let c = take block_size body
           in xor_bytes iv (aes_decrypt cr key c) @ cbc_decrypt cr key c (drop block_size body))"
  by pat_completeness auto
termination by (relation "measure (\<lambda>(_, _, _, p). length p)") (auto simp: block_size_def)

declare cbc_encrypt.simps [simp del] cbc_decrypt.simps [simp del]

definition encrypt_cbc :: "crypto \<Rightarrow> byte list \<Rightarrow> byte list \<Rightarrow> byte list \<Rightarrow> byte list" where
  "encrypt_cbc cr key iv plain = cbc_encrypt cr key iv (pkcs7_pad plain)"

definition marshal_header :: "byte list \<Rightarrow> u32 \<Rightarrow> u16 \<Rightarrow> byte list \<Rightarrow> nat \<Rightarrow> byte list" where
  "marshal_header mac version flags iv body_len =
     magic @ put_u32 version @ mac @ put_u16 flags @ iv @ put_u32 payload_version @
     put_u32 (of_nat body_len)"

section \<open>The encoder\<close>

definition new_encoder :: "byte list option \<Rightarrow> codec_limits \<Rightarrow> u32 \<Rightarrow> (codec_error, encoder) result" where
  "new_encoder random limits version =
     (case random of
        None \<Rightarrow> Inl NoRandom
      | Some stream \<Rightarrow>
          guard (\<not> limits_valid limits) InvalidLimits (
          guard (version \<noteq> packet_version) UnsupportedVersion (
          case read_full 8 stream of
            (None, _) \<Rightarrow> Inl NoRandom
          | (Some prefix, rest) \<Rightarrow>
              Inr \<lparr>e_random = rest, e_limits = limits, e_prefix = prefix, e_next = 1, e_version = version\<rparr>)))"

definition random_iv :: "encoder \<Rightarrow> (codec_error, byte list) result \<times> encoder" where
  "random_iv e =
     (case read_full block_size (e_random e) of
        (None, rest) \<Rightarrow> (Inl NoRandom, e\<lparr>e_random := rest\<rparr>)
      | (Some iv, rest) \<Rightarrow> (Inr iv, e\<lparr>e_random := rest\<rparr>))"

definition next_gcm_nonce :: "encoder \<Rightarrow> (codec_error, byte list) result \<times> encoder" where
  "next_gcm_nonce e =
     (if e_next e = 0 then (Inl NonceExhausted, e)
      else (Inr (e_prefix e @ put_u64 (e_next e)), e\<lparr>e_next := e_next e + 1\<rparr>))"

text \<open>What follows the choice of the IV in \<open>Encode\<close>.\<close>

definition seal_packet :: "crypto \<Rightarrow> encoder \<Rightarrow> packet \<Rightarrow> byte list \<Rightarrow> mode \<Rightarrow> byte list \<Rightarrow>
    (codec_error, byte list) result" where
  "seal_packet cr e p key md iv =
     (let flags = (if md = mode_gcm then or flag_encrypted flag_gcm else flag_encrypted);
          body_len = (if md = mode_cbc then padded_length (length (p_payload p)) block_size
                      else length (p_payload p) + 16);
          header = marshal_header (p_mac p) (e_version e) flags iv body_len
      in guard (MaxWireBody (e_limits e) < int body_len) BodyLimit
           (Inr (header @ (if md = mode_cbc then encrypt_cbc cr key iv (p_payload p)
                           else gcm_seal cr key iv (p_payload p) header))))"

definition encode :: "crypto \<Rightarrow> packet \<Rightarrow> string \<Rightarrow> mode \<Rightarrow> encoder \<Rightarrow>
    (codec_error, byte list) result \<times> encoder" where
  "encode cr p key_hex md e =
     (if \<not> validate_mac (p_mac p) then (Inl InvalidMAC, e)
      else if p_payload p = [] then (Inl EmptyPayload, e)
      else if MaxPlaintext (e_limits e) < int (length (p_payload p)) then (Inl PlaintextLimit, e)
      else case parse_key key_hex of
        None \<Rightarrow> (Inl InvalidKey, e)
      | Some key \<Rightarrow>
          if md \<noteq> mode_cbc \<and> md \<noteq> mode_gcm then (Inl UnsupportedMode, e)
          else case (if md = mode_cbc then random_iv e else next_gcm_nonce e) of
            (Inl err, e') \<Rightarrow> (Inl err, e')
          | (Inr iv, e') \<Rightarrow> (seal_packet cr e' p key md iv, e'))"

section \<open>The decoder\<close>

record decoder =
  d_limits :: codec_limits
  d_mac :: "byte list option"
  d_mode :: "mode option"

definition effective_limits :: "codec_limits \<Rightarrow> codec_limits" where
  "effective_limits l = (if l = \<lparr>MaxWireBody = 0, MaxPlaintext = 0\<rparr> then default_codec_limits else l)"

definition sub_bytes :: "nat \<Rightarrow> nat \<Rightarrow> 'a list \<Rightarrow> 'a list" where
  "sub_bytes a b xs = take (b - a) (drop a xs)"

definition header_mode :: "u16 \<Rightarrow> mode" where
  "header_mode flags = (if and flags flag_gcm \<noteq> 0 then mode_gcm else mode_cbc)"

text \<open>The checks on the header, before any key is parsed.\<close>

definition check_header :: "decoder \<Rightarrow> codec_limits \<Rightarrow> byte list \<Rightarrow> (codec_error, unit) result" where
  "check_header d limits data =
     guard (length data < header_length) TruncatedHeader (
     guard (sub_bytes 0 4 data \<noteq> magic) InvalidMagic (
     guard (get_u32 (sub_bytes 4 8 data) \<noteq> packet_version) UnsupportedVersion (
     guard (get_u32 (sub_bytes 32 36 data) \<noteq> payload_version) UnsupportedPayloadVersion (
     guard (\<not> validate_mac (sub_bytes 8 14 data)) InvalidMAC (
     guard (d_mac d \<noteq> None \<and> d_mac d \<noteq> Some (sub_bytes 8 14 data)) WrongMAC (
     let flags = get_u16 (sub_bytes 14 16 data); body_len = unat (get_u32 (sub_bytes 36 40 data)) in
     guard (and flags (not (or flag_encrypted flag_gcm)) \<noteq> 0 \<or> and flags flag_encrypted = 0) UnsupportedFlags (
     guard (d_mode d \<noteq> None \<and> d_mode d \<noteq> Some (header_mode flags)) WrongMode (
     guard (MaxWireBody limits < int body_len) BodyLimit (
     guard (body_len \<noteq> length data - header_length) LengthMismatch (
     guard (body_len = 0) EmptyBody (Inr ())))))))))))"

definition open_body :: "crypto \<Rightarrow> byte list \<Rightarrow> byte list \<Rightarrow> (codec_error, byte list) result" where
  "open_body cr key data =
     (let iv = sub_bytes 16 32 data; body = drop header_length data in
      if and (get_u16 (sub_bytes 14 16 data)) flag_gcm \<noteq> 0 then
        guard (length body < 16) TruncatedBody
          (case gcm_open cr key iv body (take header_length data) of
             None \<Rightarrow> Inl AuthenticationFailed
           | Some plain \<Rightarrow> Inr plain)
      else
        guard (length body mod block_size \<noteq> 0) NotAligned
          (case strip_pkcs7 (cbc_decrypt cr key iv body) of
             None \<Rightarrow> Inl InvalidPadding
           | Some plain \<Rightarrow> Inr plain))"

definition decode :: "crypto \<Rightarrow> decoder \<Rightarrow> byte list \<Rightarrow> string \<Rightarrow> (codec_error, packet) result" where
  "decode cr d data key_hex =
     (let limits = effective_limits (d_limits d) in
      guard (\<not> limits_valid limits) InvalidLimits (
      case check_header d limits data of
        Inl e \<Rightarrow> Inl e
      | Inr _ \<Rightarrow>
          (case parse_key key_hex of
             None \<Rightarrow> Inl InvalidKey
           | Some key \<Rightarrow>
               (case open_body cr key data of
                  Inl e \<Rightarrow> Inl e
                | Inr plain \<Rightarrow>
                    guard (plain = [] \<or> MaxPlaintext limits < int (length plain)) PlaintextLimit
                      (Inr \<lparr>p_mac = sub_bytes 8 14 data, p_version = get_u32 (sub_bytes 4 8 data),
                            p_payload = plain,
                            p_nonce = (if header_mode (get_u16 (sub_bytes 14 16 data)) = mode_gcm
                                       then Some (sub_bytes 16 32 data) else None)\<rparr>)))))"

section \<open>Padding\<close>

lemma nth_last_replicate: "i < n \<Longrightarrow> (xs @ replicate n x) ! (length xs + n - 1 - i) = x"
  by (subgoal_tac "length xs + n - 1 - i = length xs + (n - 1 - i)") (simp_all only: nth_append_length_plus, simp_all)

lemma if_Some_iff: "(if b then Some x else None) = Some p \<longleftrightarrow> b \<and> x = p"
  by simp

lemma strip_pkcs7_iff:
  "strip_pkcs7 inp = Some p \<longleftrightarrow>
     length inp mod block_size = 0 \<and>
     (\<exists>n. 1 \<le> n \<and> n \<le> block_size \<and> inp = p @ replicate n (of_nat n))"
proof
  assume s: "strip_pkcs7 inp = Some p"
  define n where "n = unat (inp ! (length inp - 1))"
  have g: "inp \<noteq> []" "length inp mod block_size = 0"
    using s unfolding strip_pkcs7_def by (meson option.distinct(1))+
  have "(if (1 \<le> n \<and> n \<le> block_size) \<and>
      \<not> list_ex (\<lambda>i. i + 1 \<le> n \<and> inp ! (length inp - 1 - i) \<noteq> of_nat n) [0..<block_size]
      then Some (take (length inp - n) inp) else None) = Some p"
    using s g unfolding strip_pkcs7_def Let_def n_def by (simp only: simp_thms if_False not_True_eq_False)
  then have c: "1 \<le> n" "n \<le> block_size" "take (length inp - n) inp = p"
      "\<not> list_ex (\<lambda>i. i + 1 \<le> n \<and> inp ! (length inp - 1 - i) \<noteq> of_nat n) [0..<block_size]"
    unfolding if_Some_iff by blast+
  have nth: "inp ! (length inp - 1 - i) = of_nat n" if "i < block_size" "i + 1 \<le> n" for i
    using c(4) that unfolding list_ex_iff by (metis atLeastLessThan_iff le0 set_upt)
  have "block_size \<le> length inp"
  proof (rule ccontr)
    assume "\<not> block_size \<le> length inp"
    then show False using g by simp
  qed
  then have le: "n \<le> length inp" using c(2) by linarith
  have "drop (length inp - n) inp = replicate n (of_nat n)"
  proof (rule nth_equalityI)
    fix j assume "j < length (drop (length inp - n) inp)"
    then have j: "j < n" using le by simp
    then have "inp ! (length inp - 1 - (n - 1 - j)) = of_nat n" using c(2) by (intro nth) simp_all
    moreover have "length inp - 1 - (n - 1 - j) = length inp - n + j" using j le by simp
    ultimately show "drop (length inp - n) inp ! j = replicate n (of_nat n) ! j" using j le by simp
  qed (use le in simp)
  then have "inp = p @ replicate n (of_nat n)" using c(3) by (metis append_take_drop_id)
  then show "length inp mod block_size = 0 \<and> (\<exists>n. 1 \<le> n \<and> n \<le> block_size \<and> inp = p @ replicate n (of_nat n))"
    using g(2) c(1,2) by blast
next
  assume "length inp mod block_size = 0 \<and> (\<exists>n. 1 \<le> n \<and> n \<le> block_size \<and> inp = p @ replicate n (of_nat n))"
  then obtain n where n: "length inp mod block_size = 0" "1 \<le> n" "n \<le> block_size" "inp = p @ replicate n (of_nat n)" by (elim conjE exE) simp
  have last: "inp ! (length inp - 1) = of_nat n"
    using n nth_last_replicate [of 0 n p "of_nat n :: byte"] by simp
  have u: "unat (of_nat n :: byte) = n" using n(3) by (simp add: unat_of_nat_byte block_size_def)
  have "\<not> list_ex (\<lambda>i. i + 1 \<le> n \<and> inp ! (length inp - 1 - i) \<noteq> of_nat n) [0..<block_size]"
    using nth_last_replicate [of _ n p "of_nat n :: byte"] n(4) by (auto simp: list_ex_iff)
  then show "strip_pkcs7 inp = Some p"
    using n last u by (simp add: strip_pkcs7_def Let_def)
qed

lemma length_pkcs7_pad: "length (pkcs7_pad plain) = padded_length (length plain) block_size"
  by (simp add: pkcs7_pad_def padded_length_def Let_def block_size_def)

lemma padded_length_mod: "padded_length n block_size mod block_size = 0"
proof -
  have "n mod block_size < block_size" by (simp add: block_size_def)
  then have "padded_length n block_size = (n div block_size + 1) * block_size"
    unfolding padded_length_def
    by (metis Nat.add_diff_assoc add.commute add_diff_cancel_left' less_imp_le minus_mod_eq_div_mult mult_Suc plus_1_eq_Suc Nat.diff_add_assoc mod_less_eq_dividend diff_add_assoc2)
  then show ?thesis by simp
qed

lemma strip_pad: "strip_pkcs7 (pkcs7_pad plain) = Some plain"
proof -
  let ?n = "block_size - length plain mod block_size"
  have "length plain mod block_size < block_size" by (simp add: block_size_def)
  then show ?thesis
    unfolding strip_pkcs7_iff length_pkcs7_pad
    by (intro conjI padded_length_mod exI [of _ ?n]) (simp_all add: pkcs7_pad_def Let_def)
qed

text \<open>
  Stripping the padding inverts padding it, and accepts nothing else: the result is p
  exactly when the input is whole blocks and ends in n copies of the byte n after p, with n
  between 1 and 16.  In particular every padded text is stripped to itself.
\<close>

theorem pkcs7_exact:
  "(strip_pkcs7 inp = Some p) =
     (length inp mod block_size = 0 \<and>
      (\<exists>n \<in> {1..block_size}. inp = p @ replicate n (of_nat n))) \<and>
   strip_pkcs7 (pkcs7_pad plain) = Some plain"
  using strip_pad [of plain] by (auto simp: strip_pkcs7_iff)

section \<open>CBC\<close>

lemma length_xor_bytes [simp]: "length (xor_bytes a b) = min (length a) (length b)"
  by (simp add: xor_bytes_def)

lemma xor_bytes_twice: "length a = length b \<Longrightarrow> xor_bytes a (xor_bytes a b) = b"
proof (induction a b rule: list_induct2)
  case (Cons x xs y ys)
  have "xor x (xor x y) = y" by (simp flip: xor.assoc)
  with Cons show ?case by (simp add: xor_bytes_def)
qed (simp add: xor_bytes_def)

lemma whole_block:
  assumes "length (bs :: byte list) mod block_size = 0" "bs \<noteq> []"
  shows "block_size \<le> length bs" "length (drop block_size bs) mod block_size = 0"
proof -
  show le: "block_size \<le> length bs"
  proof (rule ccontr)
    assume "\<not> block_size \<le> length bs"
    then show False using assms by simp
  qed
  show "length (drop block_size bs) mod block_size = 0" using assms(1) le by (simp add: mod_if)
qed

lemma cbc_round_trip:
  assumes "crypto_ok cr" "length key = 16" "length iv = block_size" "length plain mod block_size = 0"
  shows "cbc_decrypt cr key iv (cbc_encrypt cr key iv plain) = plain \<and>
    length (cbc_encrypt cr key iv plain) = length plain"
  using assms
proof (induction cr key iv plain rule: cbc_encrypt.induct)
  case (1 cr key iv plain)
  show ?case
  proof (cases "plain = []")
    case True
    then show ?thesis by (simp add: cbc_encrypt.simps cbc_decrypt.simps)
  next
    case False
    note w = whole_block [OF "1.prems"(4) False]
    let ?b = "take block_size plain" and ?c = "aes_encrypt cr key (xor_bytes iv (take block_size plain))"
    have b: "length (xor_bytes iv ?b) = block_size" using "1.prems"(3) w(1) by simp
    then have c: "length ?c = block_size" "aes_decrypt cr key ?c = xor_bytes iv ?b"
      using "1.prems"(1,2) by (simp_all add: crypto_ok_def)
    have IH: "cbc_decrypt cr key ?c (cbc_encrypt cr key ?c (drop block_size plain)) = drop block_size plain \<and>
        length (cbc_encrypt cr key ?c (drop block_size plain)) = length (drop block_size plain)"
      using "1.IH" [OF False refl "1.prems"(1,2) c(1) w(2)] .
    have "?c \<noteq> []" using c(1) by (auto simp: block_size_def)
    moreover have "xor_bytes iv (xor_bytes iv ?b) = ?b" using "1.prems"(3) w(1) by (intro xor_bytes_twice) simp
    ultimately have "cbc_decrypt cr key iv (?c @ cbc_encrypt cr key ?c (drop block_size plain)) =
        ?b @ drop block_size plain"
      using c IH by (subst cbc_decrypt.simps) (simp add: Let_def)
    moreover have enc: "cbc_encrypt cr key iv plain = ?c @ cbc_encrypt cr key ?c (drop block_size plain)"
      using False by (subst cbc_encrypt.simps) (simp add: Let_def)
    ultimately show ?thesis using IH c(1) w(1) by simp
  qed
qed

section \<open>Header\<close>

lemma slice_append_skip: "length xs = a \<Longrightarrow> sub_bytes a b (xs @ ys) = take (b - a) ys"
  by (simp add: sub_bytes_def)

lemma slice_split:
  assumes "data = pre @ mid @ post" "length pre = a" "length mid = b - a"
  shows "sub_bytes a b data = mid"
  using assms by (simp add: sub_bytes_def)

lemma header_slices:
  assumes "length mac = 6" "length iv = 16" "data = marshal_header mac version flags iv n @ body"
  shows "sub_bytes 0 4 data = magic" "sub_bytes 4 8 data = put_u32 version" "sub_bytes 8 14 data = mac"
    "sub_bytes 14 16 data = put_u16 flags" "sub_bytes 16 32 data = iv"
    "sub_bytes 32 36 data = put_u32 payload_version" "sub_bytes 36 40 data = put_u32 (of_nat n)"
    "take header_length data = marshal_header mac version flags iv n" "drop header_length data = body"
    "length data = header_length + length body"
proof -
  have m: "length magic = 4" by (simp add: magic_def)
  have l: "length (marshal_header mac version flags iv n) = header_length"
    using assms m by (simp add: marshal_header_def header_length_def)
  show "take header_length data = marshal_header mac version flags iv n" "drop header_length data = body"
    "length data = header_length + length body"
    using l by (simp_all add: assms(3))
  note d = assms(3) [unfolded marshal_header_def, simplified]
  show "sub_bytes 0 4 data = magic" by (rule slice_split [where pre = "[]"]) (simp_all add: d m)
  show "sub_bytes 4 8 data = put_u32 version" by (rule slice_split [where pre = magic]) (simp_all add: d m)
  show "sub_bytes 8 14 data = mac"
    by (rule slice_split [where pre = "magic @ put_u32 version"]) (simp_all add: d m assms)
  show "sub_bytes 14 16 data = put_u16 flags"
    by (rule slice_split [where pre = "magic @ put_u32 version @ mac"]) (simp_all add: d m assms)
  show "sub_bytes 16 32 data = iv"
    by (rule slice_split [where pre = "magic @ put_u32 version @ mac @ put_u16 flags"]) (simp_all add: d m assms)
  show "sub_bytes 32 36 data = put_u32 payload_version"
    by (rule slice_split [where pre = "magic @ put_u32 version @ mac @ put_u16 flags @ iv"]) (simp_all add: d m assms)
  show "sub_bytes 36 40 data = put_u32 (of_nat n)"
    by (rule slice_split [where pre = "magic @ put_u32 version @ mac @ put_u16 flags @ iv @ put_u32 payload_version"])
       (simp_all add: d m assms)
qed

section \<open>The encoder's invariant\<close>

definition encoder_ok :: "encoder \<Rightarrow> bool" where
  "encoder_ok e \<longleftrightarrow>
     limits_valid (e_limits e) \<and> MaxWireBody (e_limits e) < 2 ^ 32 \<and> length (e_prefix e) = 8 \<and>
     e_version e = packet_version"

lemma new_encoder_ok:
  "new_encoder random limits version = Inr e \<Longrightarrow> MaxWireBody limits < 2 ^ 32 \<Longrightarrow> encoder_ok e \<and> e_next e = 1"
  by (auto simp: new_encoder_def encoder_ok_def split: option.splits prod.splits dest: read_full_length)

definition choose_iv :: "mode \<Rightarrow> encoder \<Rightarrow> (codec_error, byte list) result \<times> encoder" where
  "choose_iv md e = (if md = mode_cbc then random_iv e else next_gcm_nonce e)"

lemma choose_iv_frame:
  assumes "choose_iv md e = (r, e')"
  shows "e_limits e' = e_limits e" "e_prefix e' = e_prefix e" "e_version e' = e_version e"
  using assms by (auto simp: choose_iv_def random_iv_def next_gcm_nonce_def split: if_splits option.splits prod.splits)

lemma choose_iv_length:
  "choose_iv md e = (Inr iv, e') \<Longrightarrow> length (e_prefix e) = 8 \<Longrightarrow> length iv = block_size"
  by (auto simp: choose_iv_def random_iv_def next_gcm_nonce_def block_size_def
      split: if_splits option.splits prod.splits dest: read_full_length)

lemma encode_Inr:
  assumes "encode cr p key_hex md e = (Inr wire, e')"
  obtains key iv where "validate_mac (p_mac p)" "p_payload p \<noteq> []"
    "int (length (p_payload p)) \<le> MaxPlaintext (e_limits e)" "parse_key key_hex = Some key"
    "md = mode_cbc \<or> md = mode_gcm" "choose_iv md e = (Inr iv, e')" "seal_packet cr e' p key md iv = Inr wire"
proof -
  have h: "validate_mac (p_mac p)" "p_payload p \<noteq> []" "\<not> MaxPlaintext (e_limits e) < int (length (p_payload p))"
    using assms by (auto simp: encode_def split: if_splits)
  then obtain key where key: "parse_key key_hex = Some key" using assms by (auto simp: encode_def split: option.splits)
  have md: "md = mode_cbc \<or> md = mode_gcm" using assms h key by (auto simp: encode_def split: if_splits)
  have "(case choose_iv md e of (Inl err, e') \<Rightarrow> (Inl err, e') | (Inr iv, e') \<Rightarrow> (seal_packet cr e' p key md iv, e')) =
      (Inr wire, e')"
  proof (cases "md = mode_cbc")
    case True
    show ?thesis using assms h key unfolding True by (simp add: encode_def choose_iv_def)
  next
    case False
    then have m: "md = mode_gcm" using md by simp
    have "mode_gcm \<noteq> mode_cbc" by (simp add: mode_cbc_def mode_gcm_def)
    then show ?thesis using assms h key unfolding m by (simp add: encode_def choose_iv_def)
  qed
  then obtain iv where "choose_iv md e = (Inr iv, e')" "seal_packet cr e' p key md iv = Inr wire"
    by (auto split: prod.splits sum.splits)
  with h key md that show ?thesis by simp
qed

lemma encode_keeps_ok: "encoder_ok e \<Longrightarrow> encoder_ok (snd (encode cr p key_hex md e))"
proof -
  assume ok: "encoder_ok e"
  have c: "encoder_ok (snd (random_iv e))" "encoder_ok (snd (next_gcm_nonce e))"
    using ok by (auto simp: encoder_ok_def random_iv_def next_gcm_nonce_def split: option.split prod.split)
  then show ?thesis
    using ok by (auto simp: encode_def split: option.split prod.split sum.split)
qed

lemma unat_u32: "n < 2 ^ 32 \<Longrightarrow> unat (of_nat n :: u32) = n"
  by (simp add: unsigned_of_nat take_bit_eq_mod)

lemma parse_key_length: "parse_key k = Some key \<Longrightarrow> length key = 16"
  by (auto simp: parse_key_def block_size_def split: if_splits option.splits)

lemma mode_flags:
  "md = mode_cbc \<or> md = mode_gcm \<Longrightarrow>
   header_mode (if md = mode_gcm then or flag_encrypted flag_gcm else flag_encrypted) = md \<and>
   and (if md = mode_gcm then or flag_encrypted flag_gcm else flag_encrypted) (not (or flag_encrypted flag_gcm)) = 0 \<and>
   and (if md = mode_gcm then or flag_encrypted flag_gcm else flag_encrypted) flag_encrypted \<noteq> 0 \<and>
   (and (if md = mode_gcm then or flag_encrypted flag_gcm else flag_encrypted) flag_gcm \<noteq> 0) = (md = mode_gcm)"
  by (auto simp: header_mode_def mode_cbc_def mode_gcm_def flag_encrypted_def flag_gcm_def)

lemma decode_after_encode:
  assumes "crypto_ok cr" "encoder_ok e" "length (p_mac p) = 6"
    and "encode cr p key_hex md e = (Inr wire, e')"
    and "d = \<lparr>d_limits = e_limits e, d_mac = Some (p_mac p), d_mode = Some md\<rparr>"
  shows "decode cr d wire key_hex =
    Inr \<lparr>p_mac = p_mac p, p_version = packet_version, p_payload = p_payload p,
         p_nonce = (if md = mode_gcm then Some (e_prefix e @ put_u64 (e_next e)) else None)\<rparr>"
proof -
  obtain key iv where k: "validate_mac (p_mac p)" "p_payload p \<noteq> []"
      "int (length (p_payload p)) \<le> MaxPlaintext (e_limits e)" "parse_key key_hex = Some key"
      "md = mode_cbc \<or> md = mode_gcm" "choose_iv md e = (Inr iv, e')" "seal_packet cr e' p key md iv = Inr wire"
    using assms(4) by (rule encode_Inr)
  let ?pl = "p_payload p" and ?flags = "if md = mode_gcm then or flag_encrypted flag_gcm else flag_encrypted"
  let ?n = "if md = mode_cbc then padded_length (length ?pl) block_size else length ?pl + 16"
  let ?h = "marshal_header (p_mac p) packet_version ?flags iv ?n"
  let ?body = "if md = mode_cbc then encrypt_cbc cr key iv ?pl else gcm_seal cr key iv ?pl ?h"
  have ok: "limits_valid (e_limits e)" "MaxWireBody (e_limits e) < 2 ^ 32" "length (e_prefix e) = 8"
      "e_version e' = packet_version"
    using assms(2) choose_iv_frame [OF k(6)] by (simp_all add: encoder_ok_def)
  have iv: "length iv = 16" using choose_iv_length [OF k(6) ok(3)] by (simp add: block_size_def)
  note keyl = parse_key_length [OF k(4)]
  have sealed: "\<not> MaxWireBody (e_limits e) < int ?n \<and> ?h @ ?body = wire"
    using k(7) unfolding seal_packet_def Let_def guard_Inr sum.inject ok(4) choose_iv_frame(1) [OF k(6)] .
  note wire = sealed [THEN conjunct2, symmetric] and n = sealed [THEN conjunct1, unfolded not_less]
  have u: "unat (of_nat ?n :: u32) = ?n"
  proof -
    have "int ?n < 2 ^ 32" using n ok(2) by linarith
    then have "?n < 2 ^ 32" by (metis of_nat_less_iff of_nat_numeral of_nat_power)
    then show ?thesis by (rule unat_u32)
  qed
  have npos: "0 < ?n" using mod_less_divisor [of 16 "length ?pl"] by (auto simp add: padded_length_def block_size_def)
  note sl = header_slices [OF assms(3) iv wire]
  note fl = mode_flags [OF k(5)]
  have blen: "length ?body = ?n"
    using cbc_round_trip [OF assms(1) keyl, of iv "pkcs7_pad ?pl"] iv padded_length_mod assms(1) keyl
    by (auto simp: encrypt_cbc_def length_pkcs7_pad block_size_def crypto_ok_def)
  have eff: "effective_limits (e_limits e) = e_limits e"
    using ok(1) by (auto simp: effective_limits_def limits_valid_def)
  have hdr: "check_header d (e_limits e) wire = Inr ()"
    unfolding check_header_def Let_def sl get_put u blen assms(5)
    using k(1) fl n npos by (simp add: header_length_def)
  have body: "open_body cr key wire = Inr ?pl"
  proof (cases "md = mode_gcm")
    case True
    then have "gcm_open cr key iv ?body ?h = Some ?pl" "\<not> length ?body < 16"
      using assms(1) keyl iv by (simp_all add: crypto_ok_def mode_gcm_def mode_cbc_def block_size_def)
    then show ?thesis unfolding open_body_def Let_def sl get_put using fl True by (simp add: mode_gcm_def)
  next
    case False
    then have md: "md = mode_cbc" using k(5) by simp
    have "cbc_decrypt cr key iv ?body = pkcs7_pad ?pl" "length ?body mod block_size = 0"
      using cbc_round_trip [OF assms(1) keyl, of iv "pkcs7_pad ?pl"] iv padded_length_mod md
      by (simp_all add: encrypt_cbc_def length_pkcs7_pad block_size_def)
    moreover have "strip_pkcs7 (pkcs7_pad ?pl) = Some ?pl" by (rule strip_pad)
    ultimately show ?thesis unfolding open_body_def Let_def sl get_put using fl False by simp
  qed
  have nonce: "md = mode_gcm \<Longrightarrow> iv = e_prefix e @ put_u64 (e_next e)"
    using k(6) by (auto simp: choose_iv_def next_gcm_nonce_def mode_gcm_def mode_cbc_def split: if_splits)
  have lim: "d_limits d = e_limits e" using assms(5) by simp
  show "decode cr d wire key_hex =
    Inr \<lparr>p_mac = p_mac p, p_version = packet_version, p_payload = p_payload p,
         p_nonce = (if md = mode_gcm then Some (e_prefix e @ put_u64 (e_next e)) else None)\<rparr>"
    unfolding decode_def Let_def lim eff using ok(1) hdr k(2,3,4) body sl(3) fl nonce
    by (simp add: sl)
qed

text \<open>
  C14: Decoding inverts encoding: with ciphers that keep their documented laws, whatever
  \<open>Encode\<close> returns is decoded, under the same key, by a decoder with the same limits that
  expects the sender's MAC and mode, to the same payload; the authenticated nonce is
  reported exactly for GCM and is the one the packet was sealed with; and the encoder
  stays well formed.
\<close>

theorem decode_encode:
  assumes "crypto_ok cr" "encoder_ok e" "length (p_mac p) = 6"
    and "encode cr p key_hex md e = (Inr wire, e')"
    and "d = \<lparr>d_limits = e_limits e, d_mac = Some (p_mac p), d_mode = Some md\<rparr>"
  shows "encoder_ok e' \<and> decode cr d wire key_hex =
    Inr \<lparr>p_mac = p_mac p, p_version = packet_version, p_payload = p_payload p,
         p_nonce = (if md = mode_gcm then Some (e_prefix e @ put_u64 (e_next e)) else None)\<rparr>"
  using decode_after_encode [OF assms] encode_keeps_ok [OF assms(2), of cr p key_hex md] assms(4) by simp

text \<open>A cipher that keeps the laws, for the concrete instance below: it is no cipher.\<close>

definition plain_crypto :: crypto where
  "plain_crypto =
     \<lparr>aes_encrypt = (\<lambda>_ b. b), aes_decrypt = (\<lambda>_ b. b), gcm_seal = (\<lambda>_ _ p _. p @ replicate 16 0),
      gcm_open = (\<lambda>_ _ c _. if length c < 16 then None else Some (take (length c - 16) c))\<rparr>"

lemma plain_crypto_ok: "crypto_ok plain_crypto"
  by (simp add: crypto_ok_def plain_crypto_def)

definition demo_encoder :: encoder where
  "demo_encoder = \<lparr>e_random = [], e_limits = default_codec_limits, e_prefix = replicate 8 7, e_next = 1,
     e_version = packet_version\<rparr>"

definition demo_packet :: packet where
  "demo_packet = \<lparr>p_mac = [2, 0, 0, 0, 0, 1], p_version = 0, p_payload = [0x7B, 0x7D], p_nonce = None\<rparr>"

definition demo_key :: string where
  "demo_key = hex_encode (replicate 16 0xAA)"

lemma demo_encode:
  "\<exists>wire e'. encode plain_crypto demo_packet demo_key mode_gcm demo_encoder = (Inr wire, e')"
  by (simp add: encode_def demo_packet_def demo_key_def demo_encoder_def validate_mac_def zero_bytes_def
      default_codec_limits_def parse_key_def
      block_size_def mode_gcm_def mode_cbc_def next_gcm_nonce_def seal_packet_def Let_def)

theorem decode_encode_witness:
  "\<exists>wire. fst (encode plain_crypto demo_packet demo_key mode_gcm demo_encoder) = Inr wire \<and>
     isOk (decode plain_crypto \<lparr>d_limits = default_codec_limits, d_mac = Some [2, 0, 0, 0, 0, 1],
       d_mode = Some mode_gcm\<rparr> wire demo_key)"
proof -
  obtain wire e' where w: "encode plain_crypto demo_packet demo_key mode_gcm demo_encoder = (Inr wire, e')"
    using demo_encode by blast
  have ok: "encoder_ok demo_encoder" "length (p_mac demo_packet) = 6"
    by (simp_all add: encoder_ok_def demo_encoder_def limits_valid_def default_codec_limits_def
        block_size_def demo_packet_def)
  show ?thesis
    using decode_encode [OF plain_crypto_ok ok w refl] w by (simp add: demo_encoder_def demo_packet_def)
qed

section \<open>What the decoder accepts\<close>

definition accepted :: "crypto \<Rightarrow> decoder \<Rightarrow> byte list \<Rightarrow> string \<Rightarrow> packet \<Rightarrow> bool" where
  "accepted cr d data key_hex p \<longleftrightarrow>
     header_length < length data \<and> take 4 data = magic \<and>
     int (length data - header_length) \<le> MaxWireBody (effective_limits (d_limits d)) \<and>
     p_mac p = sub_bytes 8 14 data \<and> validate_mac (p_mac p) \<and>
     (d_mac d = None \<or> d_mac d = Some (p_mac p)) \<and>
     p_payload p \<noteq> [] \<and> int (length (p_payload p)) \<le> MaxPlaintext (effective_limits (d_limits d)) \<and>
     (let md = header_mode (get_u16 (sub_bytes 14 16 data)); iv = sub_bytes 16 32 data in
      (d_mode d = None \<or> d_mode d = Some md) \<and>
      p_nonce p = (if md = mode_gcm then Some iv else None) \<and>
      (case parse_key key_hex of
         None \<Rightarrow> False
       | Some key \<Rightarrow>
           if md = mode_gcm
           then gcm_open cr key iv (drop header_length data) (take header_length data) = Some (p_payload p)
           else strip_pkcs7 (cbc_decrypt cr key iv (drop header_length data)) = Some (p_payload p)))"

text \<open>
  C18: Whatever the decoder returns is backed by the bytes it was given: the envelope is
  complete, its body within the limit, the MAC the expected one and a nonzero unicast
  address, the mode the expected one, the payload not empty and within its limit; and a
  nonce is reported only for a packet whose body and header GCM authenticated under it.
\<close>

theorem decode_sound:
  assumes "decode cr d data key_hex = Inr p"
  shows "accepted cr d data key_hex p"
proof -
  let ?l = "effective_limits (d_limits d)" and ?flags = "get_u16 (sub_bytes 14 16 data)"
  obtain key plain where k: "check_header d ?l data = Inr ()" "parse_key key_hex = Some key"
      "open_body cr key data = Inr plain" "plain \<noteq> []" "int (length plain) \<le> MaxPlaintext ?l"
      "p = \<lparr>p_mac = sub_bytes 8 14 data, p_version = get_u32 (sub_bytes 4 8 data), p_payload = plain,
            p_nonce = (if header_mode ?flags = mode_gcm then Some (sub_bytes 16 32 data) else None)\<rparr>"
    using assms by (auto simp: decode_def Let_def not_less split: sum.splits option.splits)
  let ?n = "unat (get_u32 (sub_bytes 36 40 data))"
  have c: "\<not> length data < header_length" "\<not> sub_bytes 0 4 data \<noteq> magic" "\<not> \<not> validate_mac (sub_bytes 8 14 data)"
      "\<not> (d_mac d \<noteq> None \<and> d_mac d \<noteq> Some (sub_bytes 8 14 data))"
      "\<not> (d_mode d \<noteq> None \<and> d_mode d \<noteq> Some (header_mode ?flags))"
      "\<not> MaxWireBody ?l < int ?n" "\<not> ?n \<noteq> length data - header_length" "\<not> ?n = 0"
    using k(1) unfolding check_header_def Let_def guard_Inr by blast+
  have h: "header_length < length data" "sub_bytes 0 4 data = magic" "validate_mac (sub_bytes 8 14 data)"
      "d_mac d = None \<or> d_mac d = Some (sub_bytes 8 14 data)"
      "d_mode d = None \<or> d_mode d = Some (header_mode ?flags)"
      "int (length data - header_length) \<le> MaxWireBody ?l"
    using c(1-5) c(6,8) [unfolded c(7) [unfolded not_not]] by auto
  have gcm: "(and ?flags flag_gcm \<noteq> 0) = (header_mode ?flags = mode_gcm)"
    by (simp add: header_mode_def mode_cbc_def mode_gcm_def)
  have "if header_mode ?flags = mode_gcm
      then gcm_open cr key (sub_bytes 16 32 data) (drop header_length data) (take header_length data) = Some plain
      else strip_pkcs7 (cbc_decrypt cr key (sub_bytes 16 32 data) (drop header_length data)) = Some plain"
    using k(3) unfolding open_body_def Let_def gcm by (auto split: option.splits if_splits)
  then show ?thesis
    using h k by (simp add: accepted_def Let_def sub_bytes_def [of 0 4])
qed

theorem decode_sound_witness:
  "\<exists>wire p. decode plain_crypto \<lparr>d_limits = default_codec_limits, d_mac = Some [2, 0, 0, 0, 0, 1],
       d_mode = Some mode_gcm\<rparr> wire demo_key = Inr p \<and>
     accepted plain_crypto \<lparr>d_limits = default_codec_limits, d_mac = Some [2, 0, 0, 0, 0, 1],
       d_mode = Some mode_gcm\<rparr> wire demo_key p"
proof -
  obtain wire e' where w: "encode plain_crypto demo_packet demo_key mode_gcm demo_encoder = (Inr wire, e')"
    using demo_encode by blast
  let ?d = "\<lparr>d_limits = default_codec_limits, d_mac = Some [2, 0, 0, 0, 0, 1], d_mode = Some mode_gcm\<rparr>"
  have d: "decode plain_crypto ?d wire demo_key = Inr \<lparr>p_mac = [2, 0, 0, 0, 0, 1], p_version = packet_version,
      p_payload = [0x7B, 0x7D], p_nonce = Some (replicate 8 7 @ put_u64 1)\<rparr>"
    using decode_after_encode [OF plain_crypto_ok _ _ w refl]
    by (simp add: encoder_ok_def demo_encoder_def limits_valid_def default_codec_limits_def
        block_size_def demo_packet_def)
  show ?thesis using decode_sound [OF d] d by blast
qed

section \<open>The nonce sequence\<close>

definition next_nonce :: "encoder \<Rightarrow> (byte list \<times> encoder) option" where
  "next_nonce e = (case next_gcm_nonce e of (Inl _, _) \<Rightarrow> None | (Inr n, e') \<Rightarrow> Some (n, e'))"

definition nonce_number :: "byte list \<Rightarrow> nat" where
  "nonce_number n = be_value (drop (length n - 8) n)"

lemma unat_u64_less: "unat (x :: u64) < 2 ^ 64"
  using unsigned_less [of x, where ?'a = nat] by simp

interpretation nonces: sequence_counter next_nonce "\<lambda>e. unat (e_next e)" nonce_number "2 ^ 64"
proof
  fix e e' :: encoder and n
  show "(next_nonce e = None) = (unat (e_next e) = 0)"
    by (simp add: next_nonce_def next_gcm_nonce_def unat_eq_zero)
  assume "next_nonce e = Some (n, e')"
  then have n: "n = e_prefix e @ put_u64 (e_next e)" "e' = e\<lparr>e_next := e_next e + 1\<rparr>"
    by (auto simp: next_nonce_def next_gcm_nonce_def split: if_splits)
  show "nonce_number n = unat (e_next e)"
    using unat_u64_less [of "e_next e"] by (simp add: n nonce_number_def put_u64_def)
  show "unat (e_next e') = (unat (e_next e) + 1) mod 2 ^ 64"
    by (simp add: n unat_word_ariths)
qed (use unat_u64_less in simp_all)

text \<open>
  C19: No nonce is used twice: the nonces an encoder hands out are pairwise distinct however
  many are asked for, there are as many as asked until the 64-bit counter has wrapped, and
  from then on every request is refused.
\<close>

theorem nonces_unique:
  "distinct (fst (take_many next_nonce k e)) \<and>
   length (fst (take_many next_nonce k e)) = (if e_next e = 0 then 0 else min k (2 ^ 64 - unat (e_next e)))"
proof
  show "distinct (fst (take_many next_nonce k e))"
    using nonces.take_many_distinct [of k e] by (simp add: distinct_map)
  show "length (fst (take_many next_nonce k e)) = (if e_next e = 0 then 0 else min k (2 ^ 64 - unat (e_next e)))"
  proof (cases "e_next e = 0")
    case True
    then show ?thesis using nonces.refused_forever [of e k] by simp
  next
    case False
    then have "unat (e_next e) \<noteq> 0" by (simp add: unat_eq_zero)
    then show ?thesis
      using arg_cong [OF nonces.take_many_numbers [of e k], of length] False unat_u64_less [of "e_next e"]
      by (simp add: min_def split: if_splits)
  qed
qed

end
