(* ===== verification/Json.thy ===== *)
theory Json
  imports GoText
begin

text \<open>
  The part of \<open>encoding/json\<close> the gateway reads with: the grammar of a JSON text, strings
  unquoted to UTF-8 (an invalid byte or a lone surrogate becomes U+FFFD), numbers kept as
  text, objects as the list of their members in order.  \<open>parse_json\<close> reads a whole body,
  white space around one value.  Field lookup of the struct decoder is by folded name,
  the last occurrence wins.
\<close>

section \<open>Values\<close>

datatype json =
    JNull | JBool bool | JNum string | JStr string | JArr "json list" | JObj "(string \<times> json) list"

definition json_space :: "char \<Rightarrow> bool" where
  "json_space c \<longleftrightarrow> c = CHR '' '' \<or> c = CHR 0x09 \<or> c = CHR 0x0A \<or> c = CHR 0x0D"

definition skip_ws :: "string \<Rightarrow> string" where
  "skip_ws s = dropWhile json_space s"

section \<open>Strings\<close>

definition utf8_encode :: "nat \<Rightarrow> string" where
  "utf8_encode r =
     (if r < 0x80 then [char_of r]
      else if r < 0x800 then [char_of (0xC0 + r div 64), char_of (0x80 + r mod 64)]
      else if r < 0x10000 then
        [char_of (0xE0 + r div 4096), char_of (0x80 + r div 64 mod 64), char_of (0x80 + r mod 64)]
      else [char_of (0xF0 + r div 262144), char_of (0x80 + r div 4096 mod 64),
            char_of (0x80 + r div 64 mod 64), char_of (0x80 + r mod 64)])"

definition hex4 :: "string \<Rightarrow> nat option" where
  "hex4 s =
     (case s of
        [a, b, c, d] \<Rightarrow>
          (case (hex_value a, hex_value b, hex_value c, hex_value d) of
             (Some w, Some x, Some y, Some z) \<Rightarrow> Some (((unat w * 16 + unat x) * 16 + unat y) * 16 + unat z)
           | _ \<Rightarrow> None)
      | _ \<Rightarrow> None)"

definition simple_escape :: "char \<Rightarrow> char option" where
  "simple_escape c =
     (if c = CHR 0x22 \<or> c = CHR 0x5C \<or> c = CHR ''/'' then Some c
      else if c = CHR ''b'' then Some CHR 0x08 else if c = CHR ''f'' then Some CHR 0x0C
      else if c = CHR ''n'' then Some CHR 0x0A else if c = CHR ''r'' then Some CHR 0x0D
      else if c = CHR ''t'' then Some CHR 0x09 else None)"

text \<open>A \<open>\u\<close> escape: the rune and how many further characters a surrogate pair takes.\<close>

definition unicode_escape :: "nat \<Rightarrow> string \<Rightarrow> nat \<times> nat" where
  "unicode_escape hi rest =
     (if 0xD800 \<le> hi \<and> hi < 0xE000 then
        (case (take 2 rest = [CHR 0x5C, CHR ''u''], hex4 (take 4 (drop 2 rest))) of
           (True, Some lo) \<Rightarrow>
             if hi < 0xDC00 \<and> 0xDC00 \<le> lo \<and> lo < 0xE000
             then ((hi - 0xD800) * 1024 + (lo - 0xDC00) + 0x10000, 6) else (rune_error, 0)
         | _ \<Rightarrow> (rune_error, 0))
      else (hi, 0))"

text \<open>The text after the opening quote: the unquoted value and what follows the closing one.\<close>

function read_string :: "string \<Rightarrow> string \<Rightarrow> (string \<times> string) option" where
  "read_string acc s =
     (case s of
        [] \<Rightarrow> None
      | c # cs \<Rightarrow>
          if c = CHR 0x22 then Some (acc, cs)
          else if cbyte c < 32 then None
          else if c = CHR 0x5C then
            (case cs of
               [] \<Rightarrow> None
             | d # ds \<Rightarrow>
                 (case simple_escape d of
                    Some e \<Rightarrow> read_string (acc @ [e]) ds
                  | None \<Rightarrow>
                      if d \<noteq> CHR ''u'' then None
                      else (case hex4 (take 4 ds) of
                              None \<Rightarrow> None
                            | Some hi \<Rightarrow>
                                (let (r, k) = unicode_escape hi (drop 4 ds)
                                 in read_string (acc @ utf8_encode r) (drop k (drop 4 ds))))))
          else (let n = rune_width (c # cs) in
                if n = 0 then read_string (acc @ replacement) cs
                else read_string (acc @ take n (c # cs)) (drop n (c # cs))))"
  by pat_completeness auto
termination by (relation "measure (\<lambda>(_, s). length s)") (auto simp del: rune_width.simps)

declare read_string.simps [simp del]

lemma read_string_shorter: "read_string acc s = Some (v, rest) \<Longrightarrow> length rest < length s"
proof (induction acc s arbitrary: v rest rule: read_string.induct)
  case (1 acc s)
  obtain c cs where s: "s = c # cs" using "1.prems" by (subst (asm) read_string.simps) (auto split: list.splits)
  show ?case
  proof (cases "c = CHR 0x22")
    case True
    then show ?thesis using "1.prems" s by (subst (asm) read_string.simps) simp
  next
    case q: False
    have ctl: "\<not> cbyte c < 32" using "1.prems" s q by (subst (asm) read_string.simps) (auto split: if_splits)
    show ?thesis
    proof (cases "c = CHR 0x5C")
      case True
      obtain d ds where cs: "cs = d # ds"
        using "1.prems" s q ctl True by (subst (asm) read_string.simps) (auto split: list.splits)
      show ?thesis
      proof (cases "simple_escape d")
        case (Some e)
        then have "read_string (acc @ [e]) ds = Some (v, rest)"
          using "1.prems" s q ctl True cs by (subst (asm) read_string.simps) simp
        then show ?thesis using "1.IH"(2) [OF s q ctl True cs Some] s cs by fastforce
      next
        case None
        then have u: "d = CHR ''u''"
          using "1.prems" s q ctl True cs by (subst (asm) read_string.simps) (auto split: if_splits)
        obtain hi where hi: "hex4 (take 4 ds) = Some hi"
          using "1.prems" s q ctl True cs None u by (subst (asm) read_string.simps) (auto split: option.splits)
        obtain r k where rk: "unicode_escape hi (drop 4 ds) = (r, k)" by fastforce
        then have "read_string (acc @ utf8_encode r) (drop k (drop 4 ds)) = Some (v, rest)"
          using "1.prems" s q ctl True cs None u hi by (subst (asm) read_string.simps) simp
        moreover have "\<not> d \<noteq> CHR ''u''" using u by simp
        ultimately have "length rest < length (drop k (drop 4 ds))"
          using "1.IH"(1) [OF s q ctl True cs None _ hi refl rk [symmetric]] by blast
        then show ?thesis using s cs by simp
      qed
    next
      case False
      let ?n = "rune_width (c # cs)"
      show ?thesis
      proof (cases "?n = 0")
        case True
        then have "read_string (acc @ replacement) cs = Some (v, rest)"
          using "1.prems" s q ctl False by (subst (asm) read_string.simps) (simp del: rune_width.simps)
        then show ?thesis using "1.IH"(3) [OF s q ctl False refl True] s by fastforce
      next
        case n: False
        then have "read_string (acc @ take ?n (c # cs)) (drop ?n (c # cs)) = Some (v, rest)"
          using "1.prems" s q ctl False by (subst (asm) read_string.simps) (simp add: Let_def del: rune_width.simps)
        then have "length rest < length (drop ?n (c # cs))"
          using "1.IH"(4) [OF s q ctl False refl n] by blast
        then show ?thesis using s by simp
      qed
    qed
  qed
qed

section \<open>Numbers\<close>

definition take_digits :: "string \<Rightarrow> string \<times> string" where
  "take_digits s = (takeWhile (in_range 48 57) s, dropWhile (in_range 48 57) s)"

definition read_int_part :: "string \<Rightarrow> (string \<times> string) option" where
  "read_int_part s =
     (let (ds, rest) = take_digits s in
      if ds = [] then None
      else if hd ds = CHR ''0'' then Some ([CHR ''0''], tl ds @ rest)
      else Some (ds, rest))"

definition read_frac :: "string \<Rightarrow> (string \<times> string) option" where
  "read_frac s =
     (case s of
        c # cs \<Rightarrow>
          if c = CHR ''.'' then
            (let (ds, rest) = take_digits cs in if ds = [] then None else Some (c # ds, rest))
          else Some ([], s)
      | [] \<Rightarrow> Some ([], s))"

definition read_exp :: "string \<Rightarrow> (string \<times> string) option" where
  "read_exp s =
     (case s of
        c # cs \<Rightarrow>
          if lower_char c = CHR ''e'' then
            (let sign = (if cs \<noteq> [] \<and> (hd cs = CHR ''+'' \<or> hd cs = CHR ''-'') then [hd cs] else []);
                 (ds, rest) = take_digits (drop (length sign) cs)
             in if ds = [] then None else Some (c # sign @ ds, rest))
          else Some ([], s)
      | [] \<Rightarrow> Some ([], s))"

definition read_json_number :: "string \<Rightarrow> (string \<times> string) option" where
  "read_json_number s =
     (let neg = (s \<noteq> [] \<and> hd s = CHR ''-''); sign = (if neg then ''-'' else []) in
      case read_int_part (if neg then tl s else s) of
        None \<Rightarrow> None
      | Some (i, r1) \<Rightarrow>
          (case read_frac r1 of
             None \<Rightarrow> None
           | Some (f, r2) \<Rightarrow>
               (case read_exp r2 of
                  None \<Rightarrow> None
                | Some (e, r3) \<Rightarrow> Some (sign @ i @ f @ e, r3))))"

lemma take_digits_length: "take_digits s = (ds, rest) \<Longrightarrow> length s = length ds + length rest"
  by (simp add: take_digits_def) (metis length_append takeWhile_dropWhile_id)

lemma read_int_part_length: "read_int_part s = Some (i, rest) \<Longrightarrow> length rest < length s"
  by (auto simp: read_int_part_def split: prod.splits if_splits dest!: take_digits_length)

lemma read_frac_length: "read_frac s = Some (i, rest) \<Longrightarrow> length rest \<le> length s"
  by (auto simp: read_frac_def split: list.splits prod.splits if_splits dest!: take_digits_length)

lemma read_exp_length: "read_exp s = Some (i, rest) \<Longrightarrow> length rest \<le> length s"
  by (auto simp: read_exp_def Let_def split: list.splits prod.splits if_splits dest!: take_digits_length)

lemma read_json_number_shorter: "read_json_number s = Some (n, rest) \<Longrightarrow> length rest < length s"
proof -
  assume a: "read_json_number s = Some (n, rest)"
  let ?t = "if s \<noteq> [] \<and> hd s = CHR ''-'' then tl s else s"
  obtain i r1 f r2 e where "read_int_part ?t = Some (i, r1)" "read_frac r1 = Some (f, r2)" "read_exp r2 = Some (e, rest)"
    using a by (auto simp: read_json_number_def Let_def split: option.splits)
  then have "length r1 < length ?t" "length r2 \<le> length r1" "length rest \<le> length r2"
    by (auto dest: read_int_part_length read_frac_length read_exp_length)
  moreover have "length ?t \<le> length s" by simp
  ultimately show ?thesis by linarith
qed

section \<open>The parser\<close>

definition read_literal :: "string \<Rightarrow> (json \<times> string) option" where
  "read_literal s =
     (if has_prefix s ''null'' then Some (JNull, drop 4 s)
      else if has_prefix s ''true'' then Some (JBool True, drop 4 s)
      else if has_prefix s ''false'' then Some (JBool False, drop 5 s)
      else map_option (\<lambda>(n, r). (JNum n, r)) (read_json_number s))"

lemma skip_ws_le: "length (skip_ws s) \<le> length s"
  by (simp add: skip_ws_def dropWhile_length_le)

lemma skip_ws_Cons: "skip_ws s = c # cs \<Longrightarrow> length cs < length s"
  using skip_ws_le [of s] by simp

text \<open>
  The tests \<open>length r < length s\<close> hold always (\<open>parse_shorter\<close> below); they are what makes
  the recursion evidently terminating.
\<close>

function parse_value :: "string \<Rightarrow> (json \<times> string) option"
  and parse_elements :: "json list \<Rightarrow> string \<Rightarrow> (json \<times> string) option"
  and parse_members :: "(string \<times> json) list \<Rightarrow> string \<Rightarrow> (json \<times> string) option" where
  "parse_value s =
     (case skip_ws s of
        [] \<Rightarrow> None
      | c # cs \<Rightarrow>
          if c = CHR 0x22 then map_option (\<lambda>(v, r). (JStr v, r)) (read_string [] cs)
          else if c = CHR ''['' then
            (case skip_ws cs of
               [] \<Rightarrow> None
             | d # ds \<Rightarrow> if d = CHR '']'' then Some (JArr [], ds) else parse_elements [] cs)
          else if c = CHR ''{'' then
            (case skip_ws cs of
               [] \<Rightarrow> None
             | d # ds \<Rightarrow> if d = CHR ''}'' then Some (JObj [], ds) else parse_members [] cs)
          else read_literal (c # cs))"
| "parse_elements acc s =
     (case parse_value s of
        None \<Rightarrow> None
      | Some (v, r) \<Rightarrow>
          (case skip_ws r of
             [] \<Rightarrow> None
           | c # cs \<Rightarrow>
               if c = CHR '','' then (if length cs < length s then parse_elements (acc @ [v]) cs else None)
               else if c = CHR '']'' then Some (JArr (acc @ [v]), cs) else None))"
| "parse_members acc s =
     (case skip_ws s of
        [] \<Rightarrow> None
      | q # t \<Rightarrow>
          if q \<noteq> CHR 0x22 then None
          else (case read_string [] t of
             None \<Rightarrow> None
           | Some (k, r) \<Rightarrow>
               (case skip_ws r of
                  [] \<Rightarrow> None
                | c # cs \<Rightarrow>
                    if c \<noteq> CHR '':'' \<or> \<not> length cs < length s then None
                    else (case parse_value cs of
                       None \<Rightarrow> None
                     | Some (v, r2) \<Rightarrow>
                         (case skip_ws r2 of
                            [] \<Rightarrow> None
                          | d # ds \<Rightarrow>
                              if d = CHR '','' then
                                (if length ds < length s then parse_members (acc @ [(k, v)]) ds else None)
                              else if d = CHR ''}'' then Some (JObj (acc @ [(k, v)]), ds) else None)))))"
  by pat_completeness auto

termination
proof (relation "measure (\<lambda>x. case x of Inl s \<Rightarrow> 2 * length s
    | Inr (Inl (acc, s)) \<Rightarrow> 2 * length s + 1 | Inr (Inr (acc, s)) \<Rightarrow> 2 * length s + 1)", goal_cases)
  case 1
  show ?case by (rule wf_measure)
qed (auto dest!: skip_ws_Cons)

declare parse_value.simps [simp del] parse_elements.simps [simp del] parse_members.simps [simp del]

lemma read_literal_shorter: "read_literal s = Some (v, r) \<Longrightarrow> s \<noteq> [] \<Longrightarrow> length r < length s"
  by (auto simp: read_literal_def split: if_splits dest!: read_json_number_shorter)

lemma parse_shorter:
  "\<And>v r. parse_value s = Some (v, r) \<Longrightarrow> length r < length s"
  "\<And>v r. parse_elements js t = Some (v, r) \<Longrightarrow> length r < length t"
  "\<And>v r. parse_members ms u = Some (v, r) \<Longrightarrow> length r < length u"
proof (induction s and js t and ms u rule: parse_value_parse_elements_parse_members.induct)
  case (1 s)
  obtain c cs where s: "skip_ws s = c # cs" using 1(3) by (subst (asm) parse_value.simps) (auto split: list.splits)
  note lt = skip_ws_Cons [OF s]
  have le: "length (skip_ws cs) \<le> length cs" by (rule skip_ws_le)
  consider "c = CHR 0x22" | "c = CHR ''[''" | "c = CHR ''{''" | "c \<noteq> CHR 0x22" "c \<noteq> CHR ''[''" "c \<noteq> CHR ''{''" by blast
  then show ?case
  proof cases
    case c: 1
    then show ?thesis using 1(3) s lt
      by (subst (asm) parse_value.simps) (auto dest!: read_string_shorter)
  next
    case c: 2
    then obtain d ds where d: "skip_ws cs = d # ds"
      using 1(3) s by (subst (asm) parse_value.simps) (auto split: list.splits)
    show ?thesis
    proof (cases "d = CHR '']''")
      case True
      then show ?thesis using 1(3) s lt le c d by (subst (asm) parse_value.simps) auto
    next
      case False
      then have "parse_elements [] cs = Some (v, r)"
        using 1(3) s c d by (subst (asm) parse_value.simps) auto
      then show ?thesis using 1(1) [OF s _ c d False] lt c by fastforce
    qed
  next
    case c: 3
    then obtain d ds where d: "skip_ws cs = d # ds"
      using 1(3) s by (subst (asm) parse_value.simps) (auto split: list.splits)
    show ?thesis
    proof (cases "d = CHR ''}''")
      case True
      then show ?thesis using 1(3) s lt le c d by (subst (asm) parse_value.simps) auto
    next
      case False
      then have "parse_members [] cs = Some (v, r)"
        using 1(3) s c d by (subst (asm) parse_value.simps) auto
      then show ?thesis using 1(2) [OF s _ _ c d False] lt c by fastforce
    qed
  next
    case 4
    then have "read_literal (c # cs) = Some (v, r)" using 1(3) s by (subst (asm) parse_value.simps) auto
    then have "length r < length (c # cs)" by (rule read_literal_shorter) simp
    then show ?thesis using lt by simp
  qed
next
  case (2 acc s)
  obtain w q where w: "parse_value s = Some (w, q)"
    using 2(3) by (subst (asm) parse_elements.simps) (auto split: option.splits)
  have q: "length q < length s" by (rule 2(1) [OF w])
  obtain c cs where c: "skip_ws q = c # cs"
    using 2(3) w by (subst (asm) parse_elements.simps) (auto split: list.splits)
  note lt = skip_ws_Cons [OF c]
  show ?case
  proof (cases "c = CHR '',''")
    case True
    then have "length cs < length s" "parse_elements (acc @ [w]) cs = Some (v, r)"
      using 2(3) w c by (subst (asm) parse_elements.simps, simp split: if_splits)+
    then show ?thesis using 2(2) [OF w refl c True] by fastforce
  next
    case False
    then have "r = cs" using 2(3) w c by (subst (asm) parse_elements.simps) (simp split: if_splits)
    then show ?thesis using lt q by simp
  qed
next
  case (3 acc s)
  obtain h t where h: "skip_ws s = h # t" using 3(3) by (subst (asm) parse_members.simps) (auto split: list.splits)
  have hq: "\<not> h \<noteq> CHR 0x22" using 3(3) h by (subst (asm) parse_members.simps) (auto split: if_splits)
  obtain k q where k: "read_string [] t = Some (k, q)"
    using 3(3) h hq by (subst (asm) parse_members.simps) (auto split: option.splits)
  obtain c cs where c: "skip_ws q = c # cs"
    using 3(3) h hq k by (subst (asm) parse_members.simps) (auto split: list.splits)
  have cc: "\<not> (c \<noteq> CHR '':'' \<or> \<not> length cs < length s)"
    using 3(3) h hq k c by (subst (asm) parse_members.simps) (auto split: if_splits)
  obtain w p where w: "parse_value cs = Some (w, p)"
    using 3(3) h hq k c cc by (subst (asm) parse_members.simps) (auto split: option.splits)
  have p: "length p < length cs" by (rule 3(1) [OF h hq k refl c cc w])
  obtain d ds where d: "skip_ws p = d # ds"
    using 3(3) h hq k c cc w by (subst (asm) parse_members.simps) (auto split: list.splits)
  note lt = skip_ws_Cons [OF d]
  show ?case
  proof (cases "d = CHR '',''")
    case True
    then have "length ds < length s" "parse_members (acc @ [(k, w)]) ds = Some (v, r)"
      using 3(3) h hq k c cc w d by (subst (asm) parse_members.simps, simp split: if_splits)+
    then show ?thesis using 3(2) [OF h hq k refl c cc w refl d True] by fastforce
  next
    case False
    then have "r = ds"
      using 3(3) h hq k c cc w d by (subst (asm) parse_members.simps) (simp split: if_splits)
    then show ?thesis using lt p cc by simp
  qed
qed

definition parse_json :: "string \<Rightarrow> json option" where
  "parse_json body =
     (case parse_value body of
        None \<Rightarrow> None
      | Some (v, rest) \<Rightarrow> if skip_ws rest = [] then Some v else None)"

section \<open>Ambiguity and struct fields\<close>

fun json_walk :: "nat \<Rightarrow> nat \<Rightarrow> json \<Rightarrow> bool" where
  "json_walk limit depth (JArr xs) = (depth \<le> limit \<and> list_all (json_walk limit (Suc depth)) xs)"
| "json_walk limit depth (JObj ms) =
     (depth \<le> limit \<and> distinct (map fst ms) \<and> list_all (\<lambda>m. json_walk limit (Suc depth) (snd m)) ms)"
| "json_walk limit depth j = (depth \<le> limit)"

text \<open>\<open>foldName\<close>: letters without case; U+017F and U+212A fold to s and k.\<close>

definition fold_name :: "string \<Rightarrow> string" where
  "fold_name s =
     concat (map (\<lambda>seg. case seg of (r, bs) \<Rightarrow>
       if r < 128 then map lower_char bs else if r = 0x17F then ''s'' else if r = 0x212A then ''k'' else bs)
       (segments s))"

definition field_matches :: "string \<Rightarrow> string \<Rightarrow> bool" where
  "field_matches name key \<longleftrightarrow> fold_name key = fold_name name"

text \<open>
  The value a struct field receives: the members that name it, in order.  A string field is
  set by a string, left by null, and anything else is an error.
\<close>

definition members_named :: "string \<Rightarrow> (string \<times> json) list \<Rightarrow> json list" where
  "members_named name ms = map snd (filter (\<lambda>m. field_matches name (fst m)) ms)"

fun string_field :: "string \<Rightarrow> json list \<Rightarrow> string option" where
  "string_field cur [] = Some cur"
| "string_field cur (JStr v # js) = string_field v js"
| "string_field cur (JNull # js) = string_field cur js"
| "string_field cur (_ # js) = None"

definition parse_int64 :: "string \<Rightarrow> int option" where
  "parse_int64 s =
     (let neg = (s \<noteq> [] \<and> hd s = CHR ''-''); ds = (if neg then tl s else s) in
      if ds = [] \<or> \<not> list_all (in_range 48 57) ds then None
      else let v = (if neg then - int (dec_value 0 ds) else int (dec_value 0 ds))
           in if v < - (2 ^ 63) \<or> 2 ^ 63 - 1 < v then None else Some v)"

fun int_field :: "int \<Rightarrow> json list \<Rightarrow> int option" where
  "int_field cur [] = Some cur"
| "int_field cur (JNum t # js) = (case parse_int64 t of None \<Rightarrow> None | Some v \<Rightarrow> int_field v js)"
| "int_field cur (JNull # js) = int_field cur js"
| "int_field cur (_ # js) = None"

text \<open>A \<open>json.RawMessage\<close> field keeps the last value, null included.\<close>

definition raw_field :: "json list \<Rightarrow> json option" where
  "raw_field js = (if js = [] then None else Some (last js))"

end
