(* ===== verification/GoAddr.thy ===== *)
theory GoAddr
  imports GoNet GoBytes
begin

text \<open>
  Addresses: \<open>net.ParseMAC\<close>, \<open>net.ParseIP\<close> with \<open>To4\<close>, and the part of \<open>url.Parse\<close> the
  gateway's checks read (scheme, host, user, path, query and fragment).
\<close>

section \<open>Hardware addresses\<close>

definition hex_pair :: "string \<Rightarrow> byte option" where
  "hex_pair s = (if length s = 2 then (case hex_decode s of Some [b] \<Rightarrow> Some b | _ \<Rightarrow> None) else None)"

fun sequence_option :: "'a option list \<Rightarrow> 'a list option" where
  "sequence_option [] = Some []"
| "sequence_option (None # xs) = None"
| "sequence_option (Some x # xs) = map_option (\<lambda>ys. x # ys) (sequence_option xs)"

definition mac_length_ok :: "nat \<Rightarrow> bool" where
  "mac_length_ok n \<longleftrightarrow> n = 6 \<or> n = 8 \<or> n = 20"

definition parse_mac :: "string \<Rightarrow> byte list option" where
  "parse_mac s =
     (if length s < 14 then None
      else if s ! 2 = CHR '':'' \<or> s ! 2 = CHR ''-'' then
        (case sequence_option (map hex_pair (split_char (s ! 2) s)) of
           Some bs \<Rightarrow> if mac_length_ok (length bs) then Some bs else None
         | None \<Rightarrow> None)
      else if s ! 4 = CHR ''.'' then
        (let parts = split_char (CHR ''.'') s in
         if list_all (\<lambda>p. length p = 4) parts then
           (case hex_decode (concat parts) of
              Some bs \<Rightarrow> if mac_length_ok (length bs) then Some bs else None
            | None \<Rightarrow> None)
         else None)
      else None)"

fun mac_text :: "byte list \<Rightarrow> string" where
  "mac_text [] = []"
| "mac_text [b] = hex_encode [b]"
| "mac_text (b # c # bs) = hex_encode [b] @ CHR '':'' # mac_text (c # bs)"

lemma hex_digit_neq: "n < 16 \<Longrightarrow> hex_digit n \<noteq> CHR '':'' \<and> hex_digit n \<noteq> CHR ''-'' \<and> hex_digit n \<noteq> CHR ''.''"
proof -
  assume "n < 16"
  then have "in_range 48 57 (hex_digit n) \<or> in_range 97 102 (hex_digit n)"
    by (auto simp: hex_digit_def in_range_def cbyte_def)
  then show ?thesis by (auto simp: in_range_def cbyte_def)
qed

lemma hex_encode_one: "CHR '':'' \<notin> set (hex_encode [b])"
proof -
  have "unat b div 16 < 16" "unat b mod 16 < 16" using unat_byte [of b] by simp_all
  then show ?thesis using hex_digit_neq [of "unat b div 16"] hex_digit_neq [of "unat b mod 16"] by auto
qed

lemma split_mac_text: "bs \<noteq> [] \<Longrightarrow> split_char (CHR '':'') (mac_text bs) = map (\<lambda>b. hex_encode [b]) bs"
proof (induction bs rule: mac_text.induct)
  case (2 b)
  then show ?case using split_char_fresh [OF hex_encode_one [of b]] by simp
next
  case (3 b c bs)
  then show ?case using split_char_append [OF hex_encode_one [of b]] by simp
qed simp

lemma sequence_option_Some: "sequence_option (map (\<lambda>x. Some (f x)) xs) = Some (map f xs)"
  by (induction xs) simp_all

lemma hex_pair_encode: "hex_pair (hex_encode [b]) = Some b"
  using hex_decode_encode [of "[b]"] by (simp add: hex_pair_def del: hex_encode_simps hex_decode_encode)

lemma length_mac_text: "bs \<noteq> [] \<Longrightarrow> length (mac_text bs) + 1 = 3 * length bs"
  by (induction bs rule: mac_text.induct) simp_all

lemma parse_mac_text:
  assumes "mac_length_ok (length bs)"
  shows "parse_mac (mac_text bs) = Some bs"
proof -
  have ne: "bs \<noteq> []" and l: "6 \<le> length bs" using assms by (auto simp: mac_length_ok_def)
  then obtain b c cs where bs: "bs = b # c # cs" by (cases bs; cases "tl bs") auto
  then have "mac_text bs ! 2 = CHR '':''" by (simp add: numeral_2_eq_2)
  moreover have "sequence_option (map hex_pair (split_char (CHR '':'') (mac_text bs))) = Some bs"
    using sequence_option_Some [of id bs] by (simp add: split_mac_text [OF ne] comp_def hex_pair_encode del: hex_encode_simps)
  ultimately show ?thesis
    using length_mac_text [OF ne] l assms by (simp add: parse_mac_def)
qed

section \<open>IP addresses\<close>

definition digit_text :: "string \<Rightarrow> bool" where
  "digit_text s \<longleftrightarrow> s \<noteq> [] \<and> list_all (in_range 48 57) s"

definition parse_octet :: "string \<Rightarrow> byte option" where
  "parse_octet s =
     (if digit_text s \<and> length s \<le> 3 \<and> (length s = 1 \<or> hd s \<noteq> CHR ''0'') \<and> dec_value 0 s \<le> 255
      then Some (of_nat (dec_value 0 s)) else None)"

definition parse_ip4 :: "string \<Rightarrow> byte list option" where
  "parse_ip4 s =
     (case sequence_option (map parse_octet (split_char (CHR ''.'') s)) of
        Some bs \<Rightarrow> if length bs = 4 then Some bs else None
      | None \<Rightarrow> None)"

definition ip4_text :: "byte list \<Rightarrow> string" where
  "ip4_text bs =
     (case map (\<lambda>b. dec_text (unat b)) bs of
        [a, b, c, d] \<Rightarrow> a @ CHR ''.'' # b @ CHR ''.'' # c @ CHR ''.'' # d
      | _ \<Rightarrow> [])"

definition hex_number :: "string \<Rightarrow> nat" where
  "hex_number s = foldl (\<lambda>a c. 16 * a + (case hex_value c of Some v \<Rightarrow> unat v | None \<Rightarrow> 0)) 0 s"

text \<open>
  The loop of \<open>netip.parseIPv6\<close>: \<open>acc\<close> holds the bytes read, \<open>ell\<close> where the double colon
  stood.  The result is the bytes, the ellipsis and whether text is left.
\<close>

function ip6_loop :: "byte list \<Rightarrow> nat option \<Rightarrow> string \<Rightarrow> (byte list \<times> nat option) option" where
  "ip6_loop acc ell s =
     (if 16 \<le> length acc then (if s = [] then Some (acc, ell) else None)
      else let digits = takeWhile (\<lambda>c. hex_value c \<noteq> None) s; rest = dropWhile (\<lambda>c. hex_value c \<noteq> None) s in
        if digits = [] \<or> 4 < length digits then None
        else case rest of
          [] \<Rightarrow> Some (acc @ be_bytes 2 (hex_number digits), ell)
        | c # cs \<Rightarrow>
            if c = CHR ''.'' then
              (if ell = None \<and> length acc \<noteq> 12 \<or> 12 < length acc then None
               else map_option (\<lambda>bs. (acc @ bs, ell)) (parse_ip4 s))
            else if c \<noteq> CHR '':'' then None
            else (case cs of
                [] \<Rightarrow> None
              | d # ds \<Rightarrow>
                  if d = CHR '':'' then
                    (if ell \<noteq> None then None
                     else if ds = [] then Some (acc @ be_bytes 2 (hex_number digits), Some (length acc + 2))
                     else ip6_loop (acc @ be_bytes 2 (hex_number digits)) (Some (length acc + 2)) ds)
                  else ip6_loop (acc @ be_bytes 2 (hex_number digits)) ell (d # ds)))"
  by pat_completeness auto
termination by (relation "measure (\<lambda>(acc, _, _). 16 - length acc)") auto

declare ip6_loop.simps [simp del]

definition ip6_expand :: "byte list \<times> nat option \<Rightarrow> byte list option" where
  "ip6_expand r =
     (case r of (bs, ell) \<Rightarrow>
        if length bs < 16 then
          (case ell of None \<Rightarrow> None
           | Some e \<Rightarrow> Some (take e bs @ replicate (16 - length bs) 0 @ drop e bs))
        else if ell \<noteq> None then None else Some bs)"

definition parse_ip6 :: "string \<Rightarrow> byte list option" where
  "parse_ip6 s =
     (if has_prefix s ''::'' then
        (if drop 2 s = [] then Some (replicate 16 0)
         else Option.bind (ip6_loop [] (Some 0) (drop 2 s)) ip6_expand)
      else Option.bind (ip6_loop [] None s) ip6_expand)"

text \<open>\<open>netip.ParseAddr\<close> without zones: 4 or 16 bytes.  \<open>net.ParseIP\<close> refuses zones.\<close>

definition parse_ip :: "string \<Rightarrow> byte list option" where
  "parse_ip s =
     (case dropWhile (\<lambda>c. c \<noteq> CHR ''.'' \<and> c \<noteq> CHR '':'' \<and> c \<noteq> CHR ''%'') s of
        [] \<Rightarrow> None
      | c # _ \<Rightarrow> if c = CHR ''.'' then parse_ip4 s
                else if c = CHR '':'' \<and> CHR ''%'' \<notin> set s then parse_ip6 s else None)"

text \<open>\<open>net.ParseIP(s).To4()\<close>: four bytes, also for an IPv4-mapped IPv6 address.\<close>

definition to4 :: "byte list \<Rightarrow> byte list option" where
  "to4 bs =
     (if length bs = 4 then Some bs
      else if length bs = 16 \<and> take 12 bs = replicate 10 0 @ [0xFF, 0xFF] then Some (drop 12 bs)
      else None)"

definition parse_ip_to4 :: "string \<Rightarrow> byte list option" where
  "parse_ip_to4 s = Option.bind (parse_ip s) to4"

lemma to4_length: "to4 bs = Some q \<Longrightarrow> length q = 4"
  by (auto simp: to4_def split: if_splits)

text \<open>\<open>net.IPMask.Size\<close> on four bytes: the number of leading ones of a contiguous mask.\<close>

definition mask_value :: "nat \<Rightarrow> nat" where
  "mask_value ones = 2 ^ 32 - 2 ^ (32 - ones)"

definition mask_size :: "byte list \<Rightarrow> nat option" where
  "mask_size bs = find (\<lambda>n. be_value bs = mask_value n) [0..<33]"

section \<open>URLs\<close>

record url =
  u_scheme :: string
  u_opaque :: bool
  u_user :: bool
  u_host :: string
  u_path :: string
  u_query :: string
  u_fragment :: string

fun unescape_text :: "string \<Rightarrow> string option" where
  "unescape_text [] = Some []"
| "unescape_text (c # cs) =
     (if c = CHR ''%'' then
        (case cs of
           x # y # rest \<Rightarrow>
             (case (hex_value x, hex_value y) of
                (Some a, Some b) \<Rightarrow>
                  map_option (\<lambda>t. char_of (unat (a * 16 + b)) # t) (unescape_text rest)
              | _ \<Rightarrow> None)
         | _ \<Rightarrow> None)
      else map_option (\<lambda>t. c # t) (unescape_text cs))"

definition host_char :: "char \<Rightarrow> bool" where
  "host_char c \<longleftrightarrow> \<not> ascii c \<or> alnum_byte (cbyte c) \<or> c \<in> set ''-_.~!$&()*+,;=:[]<>\"'' \<or> c = CHR 0x27"

text \<open>Percent escapes in a host stand for non-ASCII bytes only.\<close>

fun host_escapes_ok :: "string \<Rightarrow> bool" where
  "host_escapes_ok [] = True"
| "host_escapes_ok (c # cs) =
     (if c = CHR ''%'' then
        (case cs of
           x # y # rest \<Rightarrow> hex_value x \<noteq> None \<and> hex_value y \<noteq> None \<and> (\<not> in_range 48 55 x \<or> [x, y] = ''25'')
         | _ \<Rightarrow> False) \<and> host_escapes_ok cs
      else host_char c \<and> host_escapes_ok cs)"

definition unescape_host :: "string \<Rightarrow> string option" where
  "unescape_host s = (if host_escapes_ok s then unescape_text s else None)"

definition valid_optional_port :: "string \<Rightarrow> bool" where
  "valid_optional_port s \<longleftrightarrow> s = [] \<or> hd s = CHR '':'' \<and> list_all (in_range 48 57) (tl s)"

definition last_index_split :: "char \<Rightarrow> string \<Rightarrow> (string \<times> string) option" where
  "last_index_split d s = map_option (\<lambda>(p, h). (rev h, rev p)) (cut d (rev s))"

definition parse_host :: "string \<Rightarrow> string option" where
  "parse_host host =
     (if CHR ''['' \<in> set host then
        (case last_index_split (CHR '']'') host of
           None \<Rightarrow> None
         | Some (before, port) \<Rightarrow>
             (case before of
                c # name \<Rightarrow>
                  if c = CHR ''['' \<and> valid_optional_port port \<and> parse_ip name \<noteq> None \<and> CHR '':'' \<in> set name
                  then Some (CHR ''['' # name @ CHR '']'' # port) else None
              | [] \<Rightarrow> None))
      else (case cut (CHR '':'') host of
              Some (_, port) \<Rightarrow> if valid_optional_port (CHR '':'' # port) then unescape_host host else None
            | None \<Rightarrow> unescape_host host))"

definition scheme_char :: "char \<Rightarrow> bool" where
  "scheme_char c \<longleftrightarrow> alnum_byte (cbyte c) \<or> c = CHR ''+'' \<or> c = CHR ''-'' \<or> c = CHR ''.''"

text \<open>\<open>getScheme\<close>: the scheme and the rest, no scheme, or an error.\<close>

definition get_scheme :: "string \<Rightarrow> (string \<times> string) option" where
  "get_scheme s =
     (let sch = takeWhile scheme_char s; rest = dropWhile scheme_char s in
      if sch = [] then (if rest \<noteq> [] \<and> hd rest = CHR '':'' then None else Some ([], s))
      else if in_range 48 57 (hd sch) \<or> hd sch \<in> set ''+-.'' then Some ([], s)
      else if rest \<noteq> [] \<and> hd rest = CHR '':'' then Some (map lower_char sch, tl rest)
      else Some ([], s))"

definition cut_query :: "string \<Rightarrow> string \<times> string" where
  "cut_query s = (case cut (CHR ''?'') s of Some (a, q) \<Rightarrow> (a, q) | None \<Rightarrow> (s, []))"

definition parse_authority :: "string \<Rightarrow> (bool \<times> string) option" where
  "parse_authority auth =
     (case last_index_split (CHR ''@'') auth of
        None \<Rightarrow> map_option (\<lambda>h. (False, h)) (parse_host auth)
      | Some (_, h) \<Rightarrow> map_option (\<lambda>h. (True, h)) (parse_host h))"

definition parse_url :: "string \<Rightarrow> url option" where
  "parse_url raw =
     (let (body, frag) = (case cut (CHR ''#'') raw of Some (a, f) \<Rightarrow> (a, f) | None \<Rightarrow> (raw, [])) in
      if list_ex (\<lambda>c. cbyte c < 32 \<or> cbyte c = 127) body then None
      else case get_scheme body of
        None \<Rightarrow> None
      | Some (scheme, rest0) \<Rightarrow>
          (let (rest, query) = cut_query rest0 in
           case unescape_text frag of
             None \<Rightarrow> None
           | Some fragment \<Rightarrow>
               if \<not> has_prefix rest ''/'' \<and> scheme \<noteq> [] then
                 Some \<lparr>u_scheme = scheme, u_opaque = True, u_user = False, u_host = [], u_path = [],
                       u_query = query, u_fragment = fragment\<rparr>
               else if has_prefix rest ''//'' \<and> (scheme \<noteq> [] \<or> \<not> has_prefix rest ''///'') then
                 (let auth = takeWhile (\<lambda>c. c \<noteq> CHR ''/'') (drop 2 rest);
                      p = dropWhile (\<lambda>c. c \<noteq> CHR ''/'') (drop 2 rest)
                  in case (parse_authority auth, unescape_text p) of
                       (Some (user, host), Some path) \<Rightarrow>
                         Some \<lparr>u_scheme = scheme, u_opaque = False, u_user = user, u_host = host, u_path = path,
                               u_query = query, u_fragment = fragment\<rparr>
                     | _ \<Rightarrow> None)
               else if \<not> has_prefix rest ''/'' \<and> CHR '':'' \<in> set (takeWhile (\<lambda>c. c \<noteq> CHR ''/'') rest) then None
               else map_option
                 (\<lambda>path. \<lparr>u_scheme = scheme, u_opaque = False, u_user = False, u_host = [], u_path = path,
                         u_query = query, u_fragment = fragment\<rparr>) (unescape_text rest)))"

text \<open>The condition both copies of the inform URL check state.\<close>

definition inform_url_parts_ok :: "string \<Rightarrow> bool" where
  "inform_url_parts_ok value =
     (case parse_url value of
        None \<Rightarrow> False
      | Some u \<Rightarrow>
          (u_scheme u = ''http'' \<or> u_scheme u = ''https'') \<and> u_host u \<noteq> [] \<and> \<not> u_user u \<and>
          u_query u = [] \<and> u_fragment u = [] \<and> u_path u = ''/inform'')"

end
