(* ===== verification/Adoption.thy ===== *)
theory Adoption
  imports Json GoAddr GoFloat
begin

text \<open>
  \<open>internal/unifi/inform/adoption.go\<close>: the device-side adoption state and the controller
  responses that change it.  \<open>apply_controller_response\<close> returns the outcome or the error
  with the state after the call; \<open>s\<close> is written only on success, as in the code.
  Durations are nanoseconds.
\<close>

section \<open>State and validation\<close>

definition default_key :: string where
  "default_key = ''ba86f2bbe107c7c57eb5f2690775c712''"

definition max_controller_response :: nat where "max_controller_response = 262144"

record adoption_state =
  AuthKey :: string
  InformURL :: string
  CfgVersion :: string
  Adopted :: bool
  UseAESGCM :: bool

definition valid_key :: "string \<Rightarrow> bool" where
  "valid_key v \<longleftrightarrow> length v = 32 \<and> (case hex_decode v of Some bs \<Rightarrow> length bs = 16 | None \<Rightarrow> False)"

definition validate_inform_url :: "string \<Rightarrow> bool" where
  "validate_inform_url v \<longleftrightarrow> \<not> (length v = 0 \<or> 2048 < length v) \<and> inform_url_parts_ok v"

definition token_char :: "char \<Rightarrow> bool" where
  "token_char c \<longleftrightarrow> alnum_byte (cbyte c) \<or> c = CHR ''-'' \<or> c = CHR ''_'' \<or> c = CHR ''.''"

definition valid_token :: "string \<Rightarrow> nat \<Rightarrow> bool" where
  "valid_token v maximum \<longleftrightarrow> \<not> (length v = 0 \<or> maximum < length v) \<and> list_all token_char v"

definition valid_config_value :: "string \<Rightarrow> nat \<Rightarrow> bool" where
  "valid_config_value v maximum \<longleftrightarrow>
     \<not> (length v = 0 \<or> maximum < length v) \<and> list_all (\<lambda>c. \<not> (cbyte c < 32 \<or> cbyte c = 127)) v"

definition adoption_valid :: "adoption_state \<Rightarrow> bool" where
  "adoption_valid s \<longleftrightarrow>
     valid_key (AuthKey s) \<and> validate_inform_url (InformURL s) \<and> valid_config_value (CfgVersion s) 128 \<and>
     \<not> (\<not> Adopted s \<and> \<not> equal_fold (AuthKey s) default_key) \<and> \<not> (\<not> Adopted s \<and> UseAESGCM s)"

definition new_adoption_state :: "string \<Rightarrow> (string, adoption_state) result" where
  "new_adoption_state inform_url =
     (let s = \<lparr>AuthKey = default_key, InformURL = inform_url, CfgVersion = ''0'', Adopted = False, UseAESGCM = False\<rparr>
      in guard (\<not> adoption_valid s) ''inform: invalid adoption state'' (Inr s))"

section \<open>Responses\<close>

datatype response_kind =
    ResponseNoop | ResponseSetParam | ResponseFactoryReset | ResponseReboot | ResponseUpgrade
  | ResponseReportedFirmware | ResponseRelayControl | ResponseIgnoredCommand

record cycle_intent =
  OutletIndex :: nat
  DelayOff :: int
  DelayOn :: int

record outcome =
  Kind :: response_kind
  Interval :: int
  StateChanged :: bool
  InformURLChanged :: bool
  RestartRequested :: bool
  UpgradeVersion :: string
  CycleIntents :: "cycle_intent list"
  UnsupportedSettings :: "string list"

definition outcome_of :: "response_kind \<Rightarrow> outcome" where
  "outcome_of k = \<lparr>Kind = k, Interval = 0, StateChanged = False, InformURLChanged = False,
     RestartRequested = False, UpgradeVersion = [], CycleIntents = [], UnsupportedSettings = []\<rparr>"

record controller_response =
  rType :: string
  rCmd :: string
  rInterval :: int
  rMgmtCfg :: string
  rSystemCfg :: string
  rVersion :: string
  rOutletTable :: "json option"

text \<open>Decoding into \<open>controllerResponse\<close>; a null body leaves the zero value.\<close>

definition decode_members :: "(string \<times> json) list \<Rightarrow> controller_response option" where
  "decode_members ms =
     (case (string_field [] (members_named ''_type'' ms), string_field [] (members_named ''cmd'' ms),
            int_field 0 (members_named ''interval'' ms), string_field [] (members_named ''mgmt_cfg'' ms),
            string_field [] (members_named ''system_cfg'' ms), string_field [] (members_named ''version'' ms)) of
        (Some t, Some c, Some i, Some m, Some sc, Some v) \<Rightarrow>
          Some \<lparr>rType = t, rCmd = c, rInterval = i, rMgmtCfg = m, rSystemCfg = sc, rVersion = v,
                rOutletTable = raw_field (members_named ''outlet_table'' ms)\<rparr>
      | _ \<Rightarrow> None)"

definition decode_response :: "json \<Rightarrow> controller_response option" where
  "decode_response j =
     (case j of JObj ms \<Rightarrow> decode_members ms | JNull \<Rightarrow> decode_members [] | _ \<Rightarrow> None)"

text \<open>\<open>validateUniqueJSON\<close> and the decoder together: the unambiguous value of the body.\<close>

definition validate_unique_json :: "string \<Rightarrow> json option" where
  "validate_unique_json body =
     (case parse_json body of
        Some j \<Rightarrow> if json_walk 32 0 j then Some j else None
      | None \<Rightarrow> None)"

section \<open>mgmt_cfg\<close>

definition parse_config_boolean :: "string \<Rightarrow> bool option" where
  "parse_config_boolean v =
     (let t = to_lower v in
      if t \<in> {''on'', ''enabled'', ''1'', ''enable'', ''active'', ''true''} then Some True
      else if t \<in> {''off'', ''disabled'', ''0'', ''disable'', ''inactive'', ''false''} then Some False
      else None)"

definition mgmt_entry :: "string \<Rightarrow> string \<Rightarrow> adoption_state \<Rightarrow> (string, adoption_state) result" where
  "mgmt_entry name value s =
     (if name = ''cfgversion'' then
        guard (\<not> valid_config_value value 128) ''inform: invalid cfgversion'' (Inr (s\<lparr>CfgVersion := value\<rparr>))
      else if name = ''inform_url'' then
        guard (\<not> validate_inform_url value) ''inform: invalid inform URL'' (Inr (s\<lparr>InformURL := value\<rparr>))
      else if name = ''authkey'' then
        guard (\<not> valid_key value) ''inform: invalid controller auth key'' (Inr (s\<lparr>AuthKey := to_lower value\<rparr>))
      else if name = ''use_aes_gcm'' then
        (case parse_config_boolean value of
           None \<Rightarrow> Inl ''inform: invalid use_aes_gcm value''
         | Some enabled \<Rightarrow> Inr (if enabled then s\<lparr>UseAESGCM := True\<rparr> else s))
      else Inr s)"

fun mgmt_lines :: "string set \<Rightarrow> string list \<Rightarrow> adoption_state \<Rightarrow> (string, adoption_state) result" where
  "mgmt_lines seen [] s = Inr s"
| "mgmt_lines seen (raw # rest) s =
     (let line = trim_space raw in
      if line = [] then mgmt_lines seen rest s
      else if 255 < length line then Inl ''inform: mgmt_cfg line is too long''
      else case cut (CHR ''='') line of
        None \<Rightarrow> Inl ''inform: malformed mgmt_cfg entry''
      | Some (n, v) \<Rightarrow>
          (let name = trim_space n; value = trim_space v in
           if \<not> valid_token name 64 \<or> 255 < length value then Inl ''inform: malformed mgmt_cfg entry''
           else if name \<in> seen then Inl ''inform: duplicate mgmt_cfg entry''
           else case mgmt_entry name value s of
             Inl e \<Rightarrow> Inl e
           | Inr s' \<Rightarrow> mgmt_lines (insert name seen) rest s'))"

definition apply_mgmt_cfg :: "string \<Rightarrow> adoption_state \<Rightarrow> (string, adoption_state) result" where
  "apply_mgmt_cfg raw s =
     guard (65536 < length raw) ''inform: mgmt_cfg is too large'' (
     let lines = split_char (CHR 0x0A) (replace_char (CHR 0x0D) (CHR 0x0A) raw) in
     guard (256 < length lines) ''inform: mgmt_cfg has too many entries'' (mgmt_lines {} lines s))"

section \<open>Settings that are not supported\<close>

definition setting_name :: "string \<Rightarrow> string option" where
  "setting_name line = map_option (\<lambda>(n, _). trim_space n) (cut (CHR ''='') line)"

definition has_setting :: "(string \<Rightarrow> bool) \<Rightarrow> string list \<Rightarrow> bool" where
  "has_setting P lines = list_ex (\<lambda>l. case setting_name l of Some n \<Rightarrow> P n | None \<Rightarrow> False) lines"

definition is_nut_server :: "string \<Rightarrow> bool" where
  "is_nut_server n = has_prefix n ''nutserver.''"
definition is_power_cycle :: "string \<Rightarrow> bool" where
  "is_power_cycle n = has_prefix n ''power_cycle_on_ac_recovery.''"
definition is_emergency :: "string \<Rightarrow> bool" where
  "is_emergency n \<longleftrightarrow> has_prefix n ''epo.'' \<or> has_prefix n ''emergency_power_off.''"

definition setting_lines :: "string \<Rightarrow> string list" where
  "setting_lines raw =
     take 512 (split_char (CHR 0x0A) (replace_char (CHR 0x0D) (CHR 0x0A) (take 65536 raw)))"

definition unsupported_controller_settings :: "string \<Rightarrow> string list" where
  "unsupported_controller_settings raw =
     (if raw = [] then []
      else let ls = setting_lines raw in
        map snd (filter fst
          [(has_setting is_nut_server ls, ''nut-server''),
           (has_setting is_power_cycle ls, ''power-cycle-on-ac-recovery''),
           (has_setting (\<lambda>n. n = ''beep.status'') ls, ''buzzer''),
           (has_setting (\<lambda>n. n = ''outlet.status'') ls, ''outlet-power''),
           (has_setting is_emergency ls, ''emergency-power-off'')]))"

section \<open>relayctl\<close>

definition max_relay_delay_minutes :: rat where "max_relay_delay_minutes = 10"

text \<open>\<open>strictJSONNumber.UnmarshalJSON\<close>: only a number in the range of a float64.\<close>

fun strict_number :: "string option \<Rightarrow> json list \<Rightarrow> string option option" where
  "strict_number cur [] = Some cur"
| "strict_number cur (JNum t # js) =
     (case parse_float t of None \<Rightarrow> None | Some _ \<Rightarrow> strict_number (Some t) js)"
| "strict_number cur (_ # js) = None"

definition relay_fields :: "string list" where
  "relay_fields = [''index'', ''delay_time_to_off'', ''delay_time_to_on'']"

definition known_fields_only :: "(string \<times> json) list \<Rightarrow> bool" where
  "known_fields_only ms = list_all (\<lambda>m. list_ex (\<lambda>f. field_matches f (fst m)) relay_fields) ms"

definition decode_relay_entry :: "json \<Rightarrow> (string option \<times> string option \<times> string option) option" where
  "decode_relay_entry j =
     (case j of
        JObj ms \<Rightarrow>
          if \<not> known_fields_only ms then None
          else (case (strict_number None (members_named ''index'' ms),
                      strict_number None (members_named ''delay_time_to_off'' ms),
                      strict_number None (members_named ''delay_time_to_on'' ms)) of
                  (Some i, Some off, Some on) \<Rightarrow> Some (i, off, on)
                | _ \<Rightarrow> None)
      | JNull \<Rightarrow> Some (None, None, None)
      | _ \<Rightarrow> None)"

definition parse_relay_index :: "string option \<Rightarrow> (string, nat) result" where
  "parse_relay_index v =
     (case v of
        None \<Rightarrow> Inl ''inform: relayctl outlet index is required''
      | Some raw \<Rightarrow>
          (case parse_float raw of
             Some (FNum x) \<Rightarrow>
               if x < 1 \<or> 10 \<le> x then Inl ''inform: relayctl outlet index is out of range''
               else (let i = nat \<lfloor>x\<rfloor> in
                     guard (i < 1 \<or> 9 < i) ''inform: relayctl outlet index is out of range'' (Inr i))
           | _ \<Rightarrow> Inl ''inform: relayctl outlet index is out of range''))"

text \<open>\<open>int64(minutes * 60 * 1000)\<close>, each product rounded to binary64, then truncated.\<close>

definition delay_nanoseconds :: "rat \<Rightarrow> int" where
  "delay_nanoseconds minutes =
     (case fmul minutes 60 of
        FNum a \<Rightarrow> (case fmul a 1000 of FNum b \<Rightarrow> \<lfloor>b\<rfloor> * 1000000 | _ \<Rightarrow> 0)
      | _ \<Rightarrow> 0)"

definition default_on_minutes :: rat where
  "default_on_minutes = (case round64 1 10 of Some v \<Rightarrow> v | None \<Rightarrow> 0)"

definition parse_relay_delay :: "string option \<Rightarrow> rat \<Rightarrow> bool \<Rightarrow> (string, int) result" where
  "parse_relay_delay v default_minutes zero_allowed =
     (let check = (\<lambda>m. guard (max_relay_delay_minutes < m \<or> zero_allowed \<and> m < 0 \<or> \<not> zero_allowed \<and> m \<le> 0)
                     ''inform: relayctl delay is out of range'' (Inr (delay_nanoseconds m)))
      in case v of
           None \<Rightarrow> check default_minutes
         | Some raw \<Rightarrow>
             (case parse_float raw of
                Some (FNum m) \<Rightarrow> check m
              | _ \<Rightarrow> Inl ''inform: relayctl delay must be finite''))"

fun relay_intents :: "nat list \<Rightarrow> (string option \<times> string option \<times> string option) list \<Rightarrow>
    (string, cycle_intent list) result" where
  "relay_intents seen [] = Inr []"
| "relay_intents seen ((i, off, on) # rest) =
     (case parse_relay_index i of
        Inl e \<Rightarrow> Inl e
      | Inr index \<Rightarrow>
          if index \<in> set seen then Inl ''inform: relayctl has duplicate outlet index''
          else case parse_relay_delay off 0 True of
            Inl e \<Rightarrow> Inl e
          | Inr d_off \<Rightarrow>
              (case parse_relay_delay on default_on_minutes False of
                 Inl e \<Rightarrow> Inl e
               | Inr d_on \<Rightarrow>
                   (case relay_intents (index # seen) rest of
                      Inl e \<Rightarrow> Inl e
                    | Inr others \<Rightarrow>
                        Inr (\<lparr>OutletIndex = index, DelayOff = d_off, DelayOn = d_on\<rparr> # others))))"

definition parse_relay_control :: "json option \<Rightarrow> (string, cycle_intent list) result" where
  "parse_relay_control raw =
     (case raw of
        None \<Rightarrow> Inl ''inform: relayctl requires outlet_table array''
      | Some JNull \<Rightarrow> Inl ''inform: relayctl requires outlet_table array''
      | Some (JArr xs) \<Rightarrow>
          (case sequence_option (map decode_relay_entry xs) of
             None \<Rightarrow> Inl ''inform: invalid relayctl outlet_table''
           | Some entries \<Rightarrow>
               guard (9 < length entries) ''inform: relayctl has too many outlets'' (relay_intents [] entries))
      | Some _ \<Rightarrow> Inl ''inform: invalid relayctl outlet_table'')"

section \<open>ApplyControllerResponse\<close>

definition factory_reset :: "adoption_state \<Rightarrow> outcome \<times> adoption_state" where
  "factory_reset s =
     ((outcome_of ResponseFactoryReset)\<lparr>StateChanged :=
        (Adopted s \<or> \<not> equal_fold (AuthKey s) default_key \<or> CfgVersion s \<noteq> ''0'' \<or> UseAESGCM s)\<rparr>,
      s\<lparr>AuthKey := default_key, CfgVersion := ''0'', Adopted := False, UseAESGCM := False\<rparr>)"

definition apply_command :: "controller_response \<Rightarrow> (string, outcome) result" where
  "apply_command r =
     guard (\<not> valid_token (rCmd r) 64) ''inform: invalid controller command'' (
     if rCmd r = ''relayctl'' then
       (case parse_relay_control (rOutletTable r) of
          Inl e \<Rightarrow> Inl e
        | Inr intents \<Rightarrow> Inr ((outcome_of ResponseRelayControl)\<lparr>CycleIntents := intents\<rparr>))
     else Inr (outcome_of ResponseIgnoredCommand))"

text \<open>The switch over the response type: the outcome, the next state, and whether the device is marked managed.\<close>

definition apply_kind :: "controller_response \<Rightarrow> adoption_state \<Rightarrow>
    (string, outcome \<times> adoption_state \<times> bool) result" where
  "apply_kind r s =
     (if rType r = ''noop'' then
        guard (rInterval r < 0 \<or> 86400 < rInterval r) ''inform: controller interval is out of range''
          (Inr ((outcome_of ResponseNoop)\<lparr>Interval := rInterval r * 1000000000\<rparr>, s, True))
      else if rType r = ''setparam'' then
        (case apply_mgmt_cfg (rMgmtCfg r) s of
           Inl e \<Rightarrow> Inl e
         | Inr s' \<Rightarrow>
             Inr ((outcome_of ResponseSetParam)
                    \<lparr>StateChanged := (s' \<noteq> s), InformURLChanged := (InformURL s' \<noteq> InformURL s),
                     UnsupportedSettings := unsupported_controller_settings (rSystemCfg r)\<rparr>, s', True))
      else if rType r = ''setdefault'' then (let (out, s') = factory_reset s in Inr (out, s', False))
      else if rType r = ''reboot'' then
        Inr ((outcome_of ResponseReboot)\<lparr>RestartRequested := True\<rparr>, s, True)
      else if rType r = ''upgrade'' then
        guard (rVersion r \<noteq> [] \<and> \<not> valid_config_value (rVersion r) 128) ''inform: invalid upgrade version''
          (Inr ((outcome_of ResponseUpgrade)\<lparr>RestartRequested := True, UpgradeVersion := rVersion r\<rparr>, s, True))
      else if rType r = ''cmd'' then
        (case apply_command r of Inl e \<Rightarrow> Inl e | Inr out \<Rightarrow> Inr (out, s, True))
      else Inl ''inform: unsupported controller response type'')"

definition mark_managed :: "bool \<Rightarrow> outcome \<times> adoption_state \<Rightarrow> outcome \<times> adoption_state" where
  "mark_managed mark os =
     (case os of (out, s) \<Rightarrow>
        if mark \<and> \<not> Adopted s then (out\<lparr>StateChanged := True\<rparr>, s\<lparr>Adopted := True\<rparr>) else (out, s))"

definition apply_response :: "controller_response \<Rightarrow> adoption_state \<Rightarrow>
    (string, outcome) result \<times> adoption_state" where
  "apply_response r s =
     (if \<not> valid_token (rType r) 32 then (Inl ''inform: invalid controller response type'', s)
      else case apply_kind r s of
        Inl e \<Rightarrow> (Inl e, s)
      | Inr (out, s1, mark) \<Rightarrow>
          (let (out', s2) = mark_managed mark (out, s1) in
           if \<not> adoption_valid s2 then (Inl ''inform: invalid adoption state'', s) else (Inr out', s2)))"

definition apply_controller_response :: "string \<Rightarrow> adoption_state \<Rightarrow>
    (string, outcome) result \<times> adoption_state" where
  "apply_controller_response body s =
     (if \<not> adoption_valid s then (Inl ''inform: invalid adoption state'', s)
      else if body = [] \<or> max_controller_response < length body
      then (Inl ''inform: controller response has invalid size'', s)
      else case validate_unique_json body of
        None \<Rightarrow> (Inl ''inform: invalid or ambiguous controller response JSON'', s)
      | Some j \<Rightarrow>
          (case decode_response j of
             None \<Rightarrow> (Inl ''inform: invalid controller response JSON'', s)
           | Some r \<Rightarrow> apply_response r s))"

section \<open>What a response can change\<close>

lemma apply_controller_response_cases:
  obtains (rejected) e where "apply_controller_response body s = (Inl e, s)"
  | (applied) j r where "adoption_valid s" "validate_unique_json body = Some j" "decode_response j = Some r"
      "apply_controller_response body s = apply_response r s"
  by (cases "adoption_valid s"; cases "body = [] \<or> max_controller_response < length body";
      cases "validate_unique_json body"; cases "Option.bind (validate_unique_json body) decode_response")
     (auto simp: apply_controller_response_def split: option.splits)

lemma apply_response_Inr:
  assumes "apply_response r s = (Inr out, s2)"
  obtains out1 s1 mark where "apply_kind r s = Inr (out1, s1, mark)" "mark_managed mark (out1, s1) = (out, s2)"
    "adoption_valid s2"
  using assms by (auto simp: apply_response_def Let_def split: if_splits sum.splits prod.splits)

lemma apply_response_Inl: "apply_response r s = (Inl e, s2) \<Longrightarrow> s2 = s"
  by (auto simp: apply_response_def Let_def split: if_splits sum.splits prod.splits)

lemma apply_controller_response_Inr:
  assumes "apply_controller_response body s = (Inr out, s2)"
  obtains r out1 s1 mark where "apply_kind r s = Inr (out1, s1, mark)" "mark_managed mark (out1, s1) = (out, s2)"
    "adoption_valid s2" "adoption_valid s"
  using assms by (cases rule: apply_controller_response_cases [of body s]) (auto elim: apply_response_Inr)

lemma apply_controller_response_Inl: "apply_controller_response body s = (Inl e, s2) \<Longrightarrow> s2 = s"
  by (cases rule: apply_controller_response_cases [of body s]) (auto dest: apply_response_Inl)

lemma mgmt_entry_keeps:
  "mgmt_entry n v s = Inr s' \<Longrightarrow> (UseAESGCM s \<longrightarrow> UseAESGCM s') \<and> Adopted s' = Adopted s"
  by (auto simp: mgmt_entry_def split: if_splits option.splits)

lemma mgmt_lines_keeps:
  "mgmt_lines seen ls s = Inr s' \<Longrightarrow> (UseAESGCM s \<longrightarrow> UseAESGCM s') \<and> Adopted s' = Adopted s"
proof (induction seen ls s rule: mgmt_lines.induct)
  case (2 seen raw rest s)
  show ?case
  proof (cases "trim_space raw = []")
    case True
    then show ?thesis using 2 by simp
  next
    case False
    obtain n v where c: "cut (CHR ''='') (trim_space raw) = Some (n, v)"
      using "2.prems" False by (auto simp: Let_def split: if_splits option.splits)
    obtain s1 where e: "mgmt_entry (trim_space n) (trim_space v) s = Inr s1"
        "mgmt_lines (insert (trim_space n) seen) rest s1 = Inr s'"
      using "2.prems" False c by (auto simp: Let_def split: if_splits sum.splits)
    have g: "\<not> 255 < length (trim_space raw)" "\<not> (\<not> valid_token (trim_space n) 64 \<or> 255 < length (trim_space v))"
        "trim_space n \<notin> seen"
      using "2.prems" False c by (auto simp: Let_def split: if_splits)
    show ?thesis
      using "2.IH"(2) [OF refl False g(1) c refl refl refl g(2,3) e(1) e(2)] mgmt_entry_keeps [OF e(1)] by blast
  qed
qed simp

lemma apply_mgmt_cfg_keeps:
  "apply_mgmt_cfg raw s = Inr s' \<Longrightarrow> (UseAESGCM s \<longrightarrow> UseAESGCM s') \<and> Adopted s' = Adopted s"
  unfolding apply_mgmt_cfg_def Let_def guard_Inr by (elim conjE) (rule mgmt_lines_keeps)

text \<open>The effect a response of each kind may have: the specification of the switch.\<close>

definition allowed_effect :: "response_kind \<Rightarrow> adoption_state \<Rightarrow> adoption_state \<Rightarrow> bool" where
  "allowed_effect k s s' \<longleftrightarrow>
     (if k = ResponseFactoryReset then
        s' = s\<lparr>AuthKey := default_key, CfgVersion := ''0'', Adopted := False, UseAESGCM := False\<rparr>
      else Adopted s' \<and>
        (if k = ResponseSetParam then (UseAESGCM s \<longrightarrow> UseAESGCM s') else s' = s\<lparr>Adopted := True\<rparr>))"

lemma apply_kind_effect:
  assumes "apply_kind r s = Inr (out1, s1, mark)" "mark_managed mark (out1, s1) = (out, s2)"
  shows "allowed_effect (Kind out) s s2"
proof -
  have adopt: "s\<lparr>Adopted := True\<rparr> = s" if "Adopted s" using that by simp
  consider (noop) "rType r = ''noop''" | (set) "rType r = ''setparam''" | (reset) "rType r = ''setdefault''"
    | (reboot) "rType r = ''reboot''" | (upgrade) "rType r = ''upgrade''" | (cmd) "rType r = ''cmd''"
    using assms(1) by (auto simp: apply_kind_def split: if_splits)
  then show ?thesis
  proof cases
    case noop
    then show ?thesis using assms adopt
      by (auto simp: apply_kind_def mark_managed_def allowed_effect_def outcome_of_def split: if_splits)
  next
    case set
    then obtain s' where m: "apply_mgmt_cfg (rMgmtCfg r) s = Inr s'" "s1 = s'" "mark" "Kind out1 = ResponseSetParam"
      using assms(1) by (auto simp: apply_kind_def outcome_of_def split: sum.splits)
    then show ?thesis using assms(2) apply_mgmt_cfg_keeps [OF m(1)]
      by (auto simp: mark_managed_def allowed_effect_def split: if_splits)
  next
    case reset
    then show ?thesis using assms
      by (auto simp: apply_kind_def factory_reset_def mark_managed_def allowed_effect_def outcome_of_def)
  next
    case reboot
    then show ?thesis using assms adopt
      by (auto simp: apply_kind_def mark_managed_def allowed_effect_def outcome_of_def split: if_splits)
  next
    case upgrade
    then show ?thesis using assms adopt
      by (auto simp: apply_kind_def mark_managed_def allowed_effect_def outcome_of_def split: if_splits)
  next
    case cmd
    then obtain o1 where "apply_command r = Inr o1" "out1 = o1" "s1 = s" "mark"
      using assms(1) by (auto simp: apply_kind_def split: sum.splits)
    moreover then have "Kind out1 = ResponseRelayControl \<or> Kind out1 = ResponseIgnoredCommand"
      by (auto simp: apply_command_def outcome_of_def split: if_splits sum.splits)
    ultimately show ?thesis using assms(2) adopt
      by (auto simp: mark_managed_def allowed_effect_def split: if_splits)
  qed
qed

text \<open>
  C21: A controller response is applied as a whole or not at all: on any error the adoption
  state is what it was; on success it is valid, and it has changed only as its kind
  allows: a factory reset returns to the pending state with the public key and keeps the
  URL, a setparam never leaves GCM, every other response changes nothing but the adopted
  mark, and every response except the reset leaves the device adopted.
\<close>

theorem apply_response_transactional:
  "case apply_controller_response body s of
     (Inl e, s') \<Rightarrow> s' = s
   | (Inr out, s') \<Rightarrow> adoption_valid s \<and> adoption_valid s' \<and> allowed_effect (Kind out) s s'"
proof -
  obtain res s' where a: "apply_controller_response body s = (res, s')" by fastforce
  show ?thesis
  proof (cases res)
    case (Inl e)
    then show ?thesis using a apply_controller_response_Inl [of body s e s'] by simp
  next
    case (Inr out)
    then have "apply_controller_response body s = (Inr out, s')" using a by simp
    then obtain r out1 s1 mark where "apply_kind r s = Inr (out1, s1, mark)"
        "mark_managed mark (out1, s1) = (out, s')" "adoption_valid s'" "adoption_valid s"
      by (rule apply_controller_response_Inr)
    then show ?thesis using a Inr apply_kind_effect by simp
  qed
qed

text \<open>A run of responses: each is applied to the state the one before left.\<close>

fun apply_all :: "string list \<Rightarrow> adoption_state \<Rightarrow> response_kind list \<times> adoption_state" where
  "apply_all [] s = ([], s)"
| "apply_all (b # bs) s =
     (case apply_controller_response b s of
        (Inl e, s') \<Rightarrow> apply_all bs s'
      | (Inr out, s') \<Rightarrow> (let (ks, s'') = apply_all bs s' in (Kind out # ks, s'')))"

lemma apply_step:
  "apply_controller_response b s = (Inr out, s') \<Longrightarrow> adoption_valid s' \<and> allowed_effect (Kind out) s s'"
  by (elim apply_controller_response_Inr) (simp add: apply_kind_effect)

lemma apply_all_gcm:
  "UseAESGCM s \<Longrightarrow> ResponseFactoryReset \<notin> set (fst (apply_all bs s)) \<Longrightarrow> UseAESGCM (snd (apply_all bs s))"
proof (induction bs s rule: apply_all.induct)
  case (2 b bs s)
  obtain res s' where a: "apply_controller_response b s = (res, s')" by fastforce
  show ?case
  proof (cases res)
    case (Inl e)
    then show ?thesis using 2 a apply_controller_response_Inl [of b s e s'] by simp
  next
    case (Inr out)
    then have e: "allowed_effect (Kind out) s s'" using a apply_step by simp
    then have "UseAESGCM s'" using 2(3,4) a Inr by (auto simp: allowed_effect_def split_beta Let_def split: if_splits)
    then show ?thesis using 2 a Inr by (simp add: split_beta Let_def)
  qed
qed simp

lemma apply_all_valid: "adoption_valid s \<Longrightarrow> adoption_valid (snd (apply_all bs s))"
proof (induction bs s rule: apply_all.induct)
  case (2 b bs s)
  obtain res s' where a: "apply_controller_response b s = (res, s')" by fastforce
  show ?case
  proof (cases res)
    case (Inl e)
    then show ?thesis using 2 a apply_controller_response_Inl [of b s e s'] by simp
  next
    case (Inr out)
    then have "adoption_valid s'" using a apply_step by simp
    then show ?thesis using 2 a Inr by (simp add: split_beta Let_def)
  qed
qed simp

text \<open>
  C20: The session never falls back from GCM by itself: over any sequence of controller
  responses, accepted or refused, an adopted GCM session stays a valid GCM session until
  a factory reset is among the accepted ones.
\<close>

theorem gcm_is_one_way:
  assumes "adoption_valid s" "UseAESGCM s"
  shows "adoption_valid (snd (apply_all bs s)) \<and>
    (UseAESGCM (snd (apply_all bs s)) \<or> ResponseFactoryReset \<in> set (fst (apply_all bs s)))"
  using apply_all_valid [OF assms(1)] apply_all_gcm [OF assms(2)] by blast

definition demo_adoption :: adoption_state where
  "demo_adoption = \<lparr>AuthKey = default_key, InformURL = ''http://h/inform'', CfgVersion = ''0'', Adopted = True,
     UseAESGCM = True\<rparr>"

lemma demo_adoption_valid: "adoption_valid demo_adoption"
proof -
  have "valid_key default_key"
    by (simp add: valid_key_def default_key_def hex_value_def in_range_def cbyte_def)
  moreover have "inform_url_parts_ok ''http://h/inform''"
    by (simp add: inform_url_parts_ok_def parse_url_def cut_def get_scheme_def scheme_char_def alnum_byte_def
        cbyte_def in_range_def lower_char_def cut_query_def has_prefix_def parse_authority_def
        last_index_split_def parse_host_def unescape_host_def host_char_def ascii_def Let_def)
  ultimately show ?thesis
    by (simp add: adoption_valid_def demo_adoption_def validate_inform_url_def valid_config_value_def cbyte_def)
qed

theorem gcm_is_one_way_witness:
  "adoption_valid (snd (apply_all [''x''] demo_adoption)) \<and>
    (UseAESGCM (snd (apply_all [''x''] demo_adoption)) \<or>
     ResponseFactoryReset \<in> set (fst (apply_all [''x''] demo_adoption)))"
  by (rule gcm_is_one_way [OF demo_adoption_valid]) (simp add: demo_adoption_def)

section \<open>Relay intents are bounded\<close>

definition intent_ok :: "cycle_intent \<Rightarrow> bool" where
  "intent_ok i \<longleftrightarrow>
     1 \<le> OutletIndex i \<and> OutletIndex i \<le> 9 \<and>
     0 \<le> DelayOff i \<and> DelayOff i \<le> 600000000000 \<and> 0 \<le> DelayOn i \<and> DelayOn i \<le> 600000000000"

definition intents_ok :: "cycle_intent list \<Rightarrow> bool" where
  "intents_ok is \<longleftrightarrow> list_all intent_ok is \<and> distinct (map OutletIndex is) \<and> length is \<le> 9"

lemma delay_bounds:
  assumes "0 \<le> m" "m \<le> 10"
  shows "0 \<le> delay_nanoseconds m \<and> delay_nanoseconds m \<le> 600000000000"
proof -
  obtain a where a: "fmul m 60 = FNum a" "0 \<le> a" "a \<le> of_int 600"
    using fmul_le_int [of m 60 600] assms by auto
  obtain b where b: "fmul a 1000 = FNum b" "0 \<le> b" "b \<le> of_int 600000"
    using fmul_le_int [of a 1000 600000] a by auto
  have "\<lfloor>b\<rfloor> \<le> 600000" using floor_mono [OF b(3)] by (simp only: floor_of_int)
  then show ?thesis using a b by (simp add: delay_nanoseconds_def)
qed

lemma default_on_bounds: "0 < default_on_minutes \<and> default_on_minutes \<le> 10"
proof -
  have b: "bit_length 1 = 1" "bit_length 10 = 4" by (simp_all add: bit_length.simps)
  have f: "floor_log2 1 10 = - 4" by (simp add: floor_log2_def b scale2_def)
  have "round64 1 10 = Some (of_int (round_half_even (2 ^ 56) 10) / 2 ^ 56)"
    by (simp add: round64_def f scale2_def Let_def round_half_even_def bit_length.simps)
  then show ?thesis by (simp add: default_on_minutes_def round_half_even_def)
qed

lemma parse_relay_delay_bounds:
  assumes "parse_relay_delay v dflt z = Inr d" "0 \<le> dflt"
  shows "0 \<le> d \<and> d \<le> 600000000000"
proof -
  obtain m where "\<not> (max_relay_delay_minutes < m \<or> z \<and> m < 0 \<or> \<not> z \<and> m \<le> 0)" "d = delay_nanoseconds m"
    using assms(1) by (auto simp: parse_relay_delay_def Let_def split: option.splits float64.splits)
  then show ?thesis using delay_bounds [of m] by (auto simp: max_relay_delay_minutes_def not_less)
qed

lemma relay_intents_ok:
  "relay_intents seen es = Inr is \<Longrightarrow>
   list_all intent_ok is \<and> distinct (map OutletIndex is) \<and> length is = length es \<and>
   (\<forall>i \<in> set is. OutletIndex i \<notin> set seen)"
proof (induction seen es arbitrary: "is" rule: relay_intents.induct)
  case (2 seen i off on rest)
  obtain index d_off d_on others where h: "parse_relay_index i = Inr index" "index \<notin> set seen"
      "parse_relay_delay off 0 True = Inr d_off" "parse_relay_delay on default_on_minutes False = Inr d_on"
      "relay_intents (index # seen) rest = Inr others"
      "is = \<lparr>OutletIndex = index, DelayOff = d_off, DelayOn = d_on\<rparr> # others"
    using "2.prems" by (auto split: sum.splits if_splits)
  have ix: "1 \<le> index \<and> index \<le> 9"
    using h(1) by (auto simp: parse_relay_index_def Let_def Suc_le_eq not_less split: option.splits float64.splits if_splits)
  have d: "0 \<le> d_off \<and> d_off \<le> 600000000000" "0 \<le> d_on \<and> d_on \<le> 600000000000"
    using parse_relay_delay_bounds [OF h(3)] parse_relay_delay_bounds [OF h(4)] default_on_bounds by simp_all
  show ?case using "2.IH" [OF h(1) h(2) h(3) h(4) h(5)] h(2,6) ix d by (auto simp: intent_ok_def)
qed simp

text \<open>
  A relay command is only ever a bounded intent: the outcome of any controller response
  carries at most nine cycle intents, for distinct outlets between 1 and 9, with delays
  between zero and ten minutes, and only a relayctl command carries any.
\<close>

theorem relay_intents_bounded:
  "case apply_controller_response body s of
     (Inl e, s') \<Rightarrow> True
   | (Inr out, s') \<Rightarrow> intents_ok (CycleIntents out) \<and>
        (CycleIntents out = [] \<or> Kind out = ResponseRelayControl)"
proof -
  have cmd: "intents_ok (CycleIntents out) \<and> (CycleIntents out = [] \<or> Kind out = ResponseRelayControl)"
    if c: "apply_command r = Inr out" for r out
  proof (cases "rCmd r = ''relayctl''")
    case True
    then obtain es "is" where "relay_intents [] es = Inr is" "\<not> 9 < length es" "CycleIntents out = is"
        "Kind out = ResponseRelayControl"
      using c by (auto simp: apply_command_def parse_relay_control_def outcome_of_def
          split: sum.splits option.splits json.splits)
    then show ?thesis using relay_intents_ok [of "[]" es "is"] by (simp add: intents_ok_def)
  next
    case False
    then show ?thesis using c by (auto simp: apply_command_def outcome_of_def intents_ok_def)
  qed
  have kind: "intents_ok (CycleIntents out1) \<and> (CycleIntents out1 = [] \<or> Kind out1 = ResponseRelayControl)"
    if "apply_kind r s = Inr (out1, s1, mark)" for r out1 s1 mark
    using that cmd by (auto simp: apply_kind_def outcome_of_def intents_ok_def factory_reset_def
        split: if_splits sum.splits)
  obtain res s' where a: "apply_controller_response body s = (res, s')" by fastforce
  show ?thesis
  proof (cases res)
    case (Inr out)
    then obtain r out1 s1 mark where "apply_kind r s = Inr (out1, s1, mark)"
        "mark_managed mark (out1, s1) = (out, s')"
      using a by (auto elim: apply_controller_response_Inr)
    then show ?thesis using a Inr kind by (fastforce simp: mark_managed_def split: if_splits)
  qed (use a in simp)
qed

section \<open>Aliases of field names\<close>

text \<open>A response body with two spellings of its type, each of them used once.\<close>

definition aliased_body :: "string \<Rightarrow> string \<Rightarrow> json" where
  "aliased_body a b = JObj [(''_type'', JStr a), (''_TYPE'', JStr b)]"

text \<open>
  The check for ambiguous keys compares names exactly, while the struct decoder folds
  case and keeps the last match: a body that spells its type twice, once in capitals,
  passes the check, and the second spelling decides what the response is.
\<close>

theorem alias_overrides_type:
  "json_walk 32 0 (aliased_body a b) \<and> map_option rType (decode_response (aliased_body a b)) = Some b"
proof -
  have "fold_name ''_TYPE'' = fold_name ''_type''"
    by code_simp
  moreover have "fold_name ''_type'' \<noteq> fold_name f"
    if "f \<in> {''cmd'', ''interval'', ''mgmt_cfg'', ''system_cfg'', ''version'', ''outlet_table''}" for f
    using that by (auto simp: fold_name_def ascii_def cbyte_def lower_char_def in_range_def)
  ultimately show ?thesis
    by (simp add: aliased_body_def decode_response_def decode_members_def members_named_def field_matches_def raw_field_def)
qed

end
