(* ===== verification/JsonPrint.thy ===== *)
theory JsonPrint
  imports Json
begin

text \<open>
  The printing half of \<open>encoding/json\<close>: strings quoted as \<open>Marshal\<close> quotes them (the
  characters that matter to HTML escaped, invalid UTF-8 replaced), values printed compactly
  or indented.  The last lemma is the round trip: what is printed parses back to the value.
\<close>

section \<open>Quoting\<close>

definition unicode_text :: "nat \<Rightarrow> string" where
  "unicode_text n =
     CHR 0x5C # CHR ''u'' # [hex_digit (n div 4096 mod 16), hex_digit (n div 256 mod 16),
       hex_digit (n div 16 mod 16), hex_digit (n mod 16)]"

definition quote_char :: "char \<Rightarrow> string" where
  "quote_char c =
     (if c = CHR 0x22 \<or> c = CHR 0x5C then [CHR 0x5C, c]
      else if c = CHR 0x08 then [CHR 0x5C, CHR ''b''] else if c = CHR 0x0C then [CHR 0x5C, CHR ''f'']
      else if c = CHR 0x0A then [CHR 0x5C, CHR ''n''] else if c = CHR 0x0D then [CHR 0x5C, CHR ''r'']
      else if c = CHR 0x09 then [CHR 0x5C, CHR ''t'']
      else if cbyte c < 32 \<or> c = CHR ''<'' \<or> c = CHR ''>'' \<or> c = CHR ''&'' then unicode_text (cbyte c)
      else [c])"

definition invalid_segment :: "nat \<times> string \<Rightarrow> bool" where
  "invalid_segment seg \<longleftrightarrow> fst seg = rune_error \<and> length (snd seg) = 1"

definition json_segment :: "nat \<times> string \<Rightarrow> string" where
  "json_segment seg =
     (if fst seg < 128 then concat (map quote_char (snd seg))
      else if invalid_segment seg then unicode_text rune_error
      else if snd seg = [CHR 0xE2, CHR 0x80, CHR 0xA8] then unicode_text 0x2028
      else if snd seg = [CHR 0xE2, CHR 0x80, CHR 0xA9] then unicode_text 0x2029
      else snd seg)"

definition json_body :: "string \<Rightarrow> string" where
  "json_body s = concat (map json_segment (segments s))"

definition json_quote :: "string \<Rightarrow> string" where
  "json_quote s = CHR 0x22 # json_body s @ [CHR 0x22]"

text \<open>What a reader gets back: the text with every invalid byte replaced.\<close>

definition clean_text :: "string \<Rightarrow> string" where
  "clean_text s = concat (map (\<lambda>seg. if invalid_segment seg then replacement else snd seg) (segments s))"

lemma rune_width_take:
  assumes "rune_width (c # cs) = n" "n \<noteq> 0"
  shows "rune_width (take n (c # cs) @ t) = n"
proof -
  obtain k where n: "n = Suc k" using assms(2) by (cases n) auto
  obtain lo hi where b: "second_bounds (cbyte c) = (lo, hi)" by fastforce
  have l: "lead_len (cbyte c) = n" using assms n b by (auto simp: Let_def split: if_splits)
  show ?thesis
  proof (cases "n \<le> 1")
    case True
    then show ?thesis using l n b by simp
  next
    case False
    then have c: "n - 1 \<le> length cs" "in_range lo hi (cs ! 0)" "list_all (in_range 0x80 0xBF) (take (n - 2) (drop 1 cs))"
      using assms l n b by (auto simp: Let_def split: if_splits)
    have "take (n - 2) (drop 1 (take k cs @ t)) = take (n - 2) (drop 1 cs)"
      using c(1) n False by (simp add: drop_take)
    moreover have "(take k cs @ t) ! 0 = cs ! 0" using c(1) n False by (simp add: nth_append)
    ultimately show ?thesis using l n b c False by (simp add: Let_def)
  qed
qed

lemma width_not_invalid:
  assumes "rune_width (c # cs) = n" "n \<noteq> 0"
  shows "\<not> invalid_segment (rune_value (take n (c # cs)), take n (c # cs))"
proof
  assume a: "invalid_segment (rune_value (take n (c # cs)), take n (c # cs))"
  then have "n = 1"
    using rune_width_le [of "c # cs"] assms by (simp add: invalid_segment_def del: rune_width.simps)
  then have "rune_value [c] = rune_error" using a by (simp add: invalid_segment_def)
  then show False using cbyte_less [of c] by (simp add: rune_value_def rune_error_def)
qed

lemma valid_clean: "valid_utf8 s \<Longrightarrow> clean_text s = s"
proof (induction s rule: valid_utf8.induct)
  case (2 c cs)
  let ?n = "rune_width (c # cs)"
  have n: "?n \<noteq> 0" and v: "valid_utf8 (drop ?n (c # cs))"
    using "2.prems" by (auto simp: valid_utf8.simps(2) Let_def simp del: rune_width.simps split: if_splits)
  have "clean_text (drop ?n (c # cs)) = drop ?n (c # cs)"
    using "2.IH" [OF refl n v] .
  moreover have "\<not> invalid_segment (rune_value (take ?n (c # cs)), take ?n (c # cs))"
    by (rule width_not_invalid [OF refl n])
  ultimately show ?case using n
    by (simp add: clean_text_def segments.simps(2) Let_def del: rune_width.simps)
qed (simp add: clean_text_def)

lemma clean_ascii: "list_all ascii s \<Longrightarrow> clean_text s = s"
  by (simp add: valid_clean valid_utf8_all_ascii)

section \<open>Reading a quoted text back\<close>

lemma hex4_unicode_text:
  assumes "n < 65536"
  shows "hex4 (drop 2 (unicode_text n)) = Some n"
proof -
  have "n = n div 16 * 16 + n mod 16" by simp
  moreover have "n div 16 = n div 256 * 16 + n div 16 mod 16"
    using div_mult2_eq [of n 16 16] by simp
  moreover have "n div 256 = n div 4096 * 16 + n div 256 mod 16"
    using div_mult2_eq [of n 256 16] by simp
  moreover have k: "n div 4096 mod 16 = n div 4096" "n div 4096 < 16" using assms by simp_all
  ultimately have "((n div 4096 mod 16 * 16 + n div 256 mod 16) * 16 + n div 16 mod 16) * 16 + n mod 16 = n"
    by presburger
  then show ?thesis using k hex_value_digit [OF k(2)] by (simp add: unicode_text_def hex4_def hex_value_digit unat_of_nat)
qed

lemma read_escape:
  "simple_escape d = Some e \<Longrightarrow> read_string acc (CHR 0x5C # d # t) = read_string (acc @ [e]) t"
  by (subst read_string.simps) (simp add: cbyte_def)

lemma read_unicode:
  assumes "n < 0xD800 \<or> 0xE000 \<le> n" "n < 65536"
  shows "read_string acc (unicode_text n @ t) = read_string (acc @ utf8_encode n) t"
proof -
  obtain h where h: "unicode_text n = CHR 0x5C # CHR ''u'' # h" "length h = 4"
    by (simp add: unicode_text_def)
  then have "hex4 h = Some n" using hex4_unicode_text [OF assms(2)] by simp
  moreover have "unicode_escape n t = (n, 0)" using assms by (auto simp: unicode_escape_def)
  ultimately show ?thesis unfolding h(1)
    by (subst read_string.simps) (simp add: cbyte_def simple_escape_def h(2))
qed

lemma read_plain: "32 \<le> cbyte c \<Longrightarrow> ascii c \<Longrightarrow> c \<noteq> CHR 0x22 \<Longrightarrow> c \<noteq> CHR 0x5C \<Longrightarrow>
    read_string acc (c # t) = read_string (acc @ [c]) t"
  by (subst read_string.simps) (simp add: Let_def del: rune_width.simps)

lemma cbyte_char_of: "char_of (cbyte c) = c"
  by (simp add: cbyte_def)

lemma read_quoted_char:
  assumes "ascii c"
  shows "read_string acc (quote_char c @ t) = read_string (acc @ [c]) t"
proof -
  have u: "read_string acc (unicode_text (cbyte c) @ t) = read_string (acc @ [c]) t"
    using assms read_unicode [of "cbyte c" acc t] by (simp add: ascii_def utf8_encode_def cbyte_char_of)
  show ?thesis
    using assms u by (auto simp: quote_char_def read_escape simple_escape_def read_plain)
qed

lemma read_segment:
  assumes "\<not> ascii c" "rune_width (c # cs) = n" "n \<noteq> 0"
  shows "read_string acc (take n (c # cs) @ t) = read_string (acc @ take n (c # cs)) t"
proof -
  have w: "rune_width (take n (c # cs) @ t) = n" by (rule rune_width_take [OF assms(2,3)])
  obtain k where n: "n = Suc k" using assms(3) by (cases n) auto
  have le: "k \<le> length cs" using rune_width_le [of "c # cs"] assms(2) n by simp
  have nc: "\<not> cbyte c < 128" using assms(1) by (simp add: ascii_def)
  then have ne: "c \<noteq> CHR 0x22" "c \<noteq> CHR 0x5C" "\<not> cbyte c < 32" by (auto simp: cbyte_def)
  have e: "take n (c # cs) @ t = c # (take k cs @ t)" using n by simp
  have "read_string acc (c # (take k cs @ t)) =
      read_string (acc @ take n (c # (take k cs @ t))) (drop n (c # (take k cs @ t)))"
    using w ne assms(3) unfolding e by (subst read_string.simps) (simp add: Let_def del: rune_width.simps)
  moreover have "take n (c # (take k cs @ t)) = take n (c # cs)" "drop n (c # (take k cs @ t)) = t"
    using n le by simp_all
  ultimately show ?thesis by (simp only: e)
qed

lemma read_json_quoted:
  "read_string acc (json_body s @ CHR 0x22 # t) = Some (acc @ clean_text s, t)"
proof (induction s arbitrary: acc rule: segments.induct)
  case 1
  then show ?case by (subst read_string.simps) (simp add: json_body_def clean_text_def)
next
  case (2 c cs)
  let ?n = "rune_width (c # cs)"
  show ?case
  proof (cases "ascii c")
    case True
    then have "json_body (c # cs) = quote_char c @ json_body cs" "clean_text (c # cs) = c # clean_text cs"
      by (simp_all add: json_body_def clean_text_def json_segment_def ascii_def invalid_segment_def rune_error_def)
    moreover have "read_string (acc @ [c]) (json_body cs @ CHR 0x22 # t) = Some ((acc @ [c]) @ clean_text cs, t)"
      using "2.IH"(2) [OF refl] rune_width_ascii [OF True, of cs]
      by (simp del: rune_width.simps)
    ultimately show ?thesis by (simp add: read_quoted_char [OF True])
  next
    case nasc: False
    show ?thesis
    proof (cases "?n = 0")
      case True
      then have s: "segments (c # cs) = (rune_error, [c]) # segments cs"
        by (simp add: segments.simps(2) del: rune_width.simps)
      then have "json_body (c # cs) = unicode_text rune_error @ json_body cs"
          "clean_text (c # cs) = replacement @ clean_text cs"
        by (simp_all add: json_body_def clean_text_def json_segment_def invalid_segment_def rune_error_def)
      moreover have "utf8_encode rune_error = replacement"
        by (simp add: utf8_encode_def rune_error_def replacement_def char_of_def bit_0)
      ultimately show ?thesis
        using "2.IH"(1) [OF refl True, of "acc @ replacement"] by (simp add: read_unicode rune_error_def)
    next
      case False
      let ?b = "take ?n (c # cs)"
      have s: "segments (c # cs) = (rune_value ?b, ?b) # segments (drop ?n (c # cs))"
        using False by (simp add: segments.simps(2) Let_def del: rune_width.simps)
      have r: "128 \<le> rune_value ?b" by (rule rune_value_multi [OF nasc refl False])
      have l: "\<not> invalid_segment (rune_value ?b, ?b)" by (rule width_not_invalid [OF refl False])
      have q: "read_string acc (json_segment (rune_value ?b, ?b) @ u) = read_string (acc @ ?b) u" for u
      proof -
        consider "?b = [CHR 0xE2, CHR 0x80, CHR 0xA8]" | "?b = [CHR 0xE2, CHR 0x80, CHR 0xA9]"
          | "?b \<noteq> [CHR 0xE2, CHR 0x80, CHR 0xA8]" "?b \<noteq> [CHR 0xE2, CHR 0x80, CHR 0xA9]" by blast
        then show ?thesis
        proof cases
          case 1
          then show ?thesis using r l read_unicode [of "0x2028" acc u]
            by (simp add: json_segment_def utf8_encode_def char_of_def bit_0 del: rune_width.simps)
        next
          case 2
          then show ?thesis using r l read_unicode [of "0x2029" acc u]
            by (simp add: json_segment_def utf8_encode_def char_of_def bit_0 del: rune_width.simps)
        next
          case 3
          then show ?thesis using r l read_segment [OF nasc refl False, of acc u]
            by (simp add: json_segment_def del: rune_width.simps)
        qed
      qed
      have "json_body (c # cs) = json_segment (rune_value ?b, ?b) @ json_body (drop ?n (c # cs))"
          "clean_text (c # cs) = ?b @ clean_text (drop ?n (c # cs))"
        using s l by (simp_all add: json_body_def clean_text_def del: rune_width.simps)
      then show ?thesis
        using "2.IH"(2) [OF refl False] q
        by (simp del: rune_width.simps)
    qed
  qed
qed

section \<open>Printing values\<close>

text \<open>
  \<open>nl d\<close> is what separates lines at depth \<open>d\<close> and \<open>colon\<close> what follows a name:
  nothing and a colon for \<open>Marshal\<close>, a line break with indentation and a colon with a blank
  for \<open>MarshalIndent(v, "", "  ")\<close>.
\<close>

fun join_texts :: "string \<Rightarrow> string list \<Rightarrow> string" where
  "join_texts sep [] = []"
| "join_texts sep [x] = x"
| "join_texts sep (x # y # xs) = x @ sep @ join_texts sep (y # xs)"

fun print_json :: "(nat \<Rightarrow> string) \<Rightarrow> string \<Rightarrow> nat \<Rightarrow> json \<Rightarrow> string" where
  "print_json nl colon d JNull = ''null''"
| "print_json nl colon d (JBool b) = (if b then ''true'' else ''false'')"
| "print_json nl colon d (JNum t) = t"
| "print_json nl colon d (JStr v) = json_quote v"
| "print_json nl colon d (JArr xs) =
     (if xs = [] then ''[]''
      else CHR ''['' # nl (Suc d) @
        join_texts (CHR '','' # nl (Suc d)) (map (print_json nl colon (Suc d)) xs) @ nl d @ '']'')"
| "print_json nl colon d (JObj ms) =
     (if ms = [] then ''{}''
      else CHR ''{'' # nl (Suc d) @
        join_texts (CHR '','' # nl (Suc d))
          (map (\<lambda>m. json_quote (fst m) @ colon @ print_json nl colon (Suc d) (snd m)) ms) @ nl d @ ''}'')"

definition marshal :: "json \<Rightarrow> string" where
  "marshal j = print_json (\<lambda>d. []) '':'' 0 j"

definition marshal_indent :: "json \<Rightarrow> string" where
  "marshal_indent j = print_json (\<lambda>d. CHR 0x0A # replicate (2 * d) (CHR '' '')) '': '' 0 j"

text \<open>A value that has a JSON text: every number is the text of one.\<close>

definition number_ok :: "string \<Rightarrow> bool" where
  "number_ok t \<longleftrightarrow> read_json_number t = Some (t, [])"

fun has_text :: "json \<Rightarrow> bool" where
  "has_text (JNum t) = number_ok t"
| "has_text (JArr xs) = list_all has_text xs"
| "has_text (JObj ms) = list_all (\<lambda>m. has_text (snd m)) ms"
| "has_text j = True"

fun clean_json :: "json \<Rightarrow> json" where
  "clean_json (JStr v) = JStr (clean_text v)"
| "clean_json (JArr xs) = JArr (map clean_json xs)"
| "clean_json (JObj ms) = JObj (map (\<lambda>m. (clean_text (fst m), clean_json (snd m))) ms)"
| "clean_json j = j"

section \<open>Reading a printed value back\<close>

lemma skip_ws_append: "list_all json_space ws \<Longrightarrow> skip_ws (ws @ s) = skip_ws s"
  by (induction ws) (simp_all add: skip_ws_def)

lemma skip_ws_stop: "\<not> json_space c \<Longrightarrow> skip_ws (c # cs) = c # cs"
  by (simp add: skip_ws_def)

lemma parse_value_ws: "list_all json_space ws \<Longrightarrow> parse_value (ws @ s) = parse_value s"
  by (subst (1 2) parse_value.simps) (simp add: skip_ws_append)

lemma parse_members_ws:
  assumes "list_all json_space ws"
  shows "parse_members acc (ws @ s) = parse_members acc s"
proof -
  have short: "length cs < n + length s" if "read_string [] t = Some (k, r)" "skip_ws r = c # cs"
      "skip_ws s = q # t" for n cs t k r c q
    using read_string_shorter [OF that(1)] skip_ws_Cons [OF that(2)] skip_ws_Cons [OF that(3)] by linarith
  have short2: "length ds < n + length s" if "read_string [] t = Some (k, r)" "skip_ws r = c # cs"
      "skip_ws s = q # t" "parse_value cs = Some (v, r2)" "skip_ws r2 = d # ds" for n cs t k r c q v r2 d ds
    using short [OF that(1-3), of 0] parse_shorter(1) [OF that(4)] skip_ws_Cons [OF that(5)] by linarith
  show ?thesis
    by (subst (1 2) parse_members.simps)
      (auto simp: skip_ws_append [OF assms] dest: short short2 split: list.splits option.splits
        intro: short [of _ _ _ _ _ _ 0, simplified] short2 [of _ _ _ _ _ _ _ _ _ _ 0, simplified])
qed

text \<open>Where a number ends.\<close>

definition stops :: "string \<Rightarrow> bool" where
  "stops t \<longleftrightarrow> (case t of [] \<Rightarrow> True | c # cs \<Rightarrow> c \<in> {CHR '','', CHR '']'', CHR ''}'', CHR '' '', CHR 0x0A})"

lemma stops_char:
  assumes "stops (c # cs)"
  shows "\<not> in_range 48 57 c" "c \<noteq> CHR ''.''" "lower_char c \<noteq> CHR ''e''"
  using assms by (auto simp: stops_def in_range_def cbyte_def lower_char_def)

lemma take_digits_stop:
  assumes "stops t"
  shows "take_digits (s @ t) = (fst (take_digits s), snd (take_digits s) @ t)"
proof -
  have "takeWhile (in_range 48 57) t = []" "dropWhile (in_range 48 57) t = t"
    using assms stops_char(1) by (cases t; simp)+
  then show ?thesis
    by (induction s) (auto simp: take_digits_def)
qed

lemma read_int_part_stop:
  assumes "stops t" "read_int_part s = Some (i, r)"
  shows "read_int_part (s @ t) = Some (i, r @ t)"
  using assms by (auto simp: read_int_part_def take_digits_stop split: prod.splits if_splits)

lemma read_frac_stop:
  assumes "stops t" "read_frac s = Some (i, r)"
  shows "read_frac (s @ t) = Some (i, r @ t)"
proof (cases s)
  case Nil
  then show ?thesis using assms stops_char(2) by (cases t) (auto simp: read_frac_def)
next
  case (Cons c cs)
  then show ?thesis using assms
    by (auto simp: read_frac_def take_digits_stop split: prod.splits if_splits)
qed

lemma read_exp_stop:
  assumes "stops t" "read_exp s = Some (i, r)"
  shows "read_exp (s @ t) = Some (i, r @ t)"
proof (cases s)
  case Nil
  then show ?thesis using assms stops_char(3) by (cases t) (auto simp: read_exp_def)
next
  case (Cons c cs)
  show ?thesis
  proof (cases "lower_char c = CHR ''e''")
    case True
    then have "cs \<noteq> []" using Cons assms(2) by (auto simp: read_exp_def take_digits_def)
    then show ?thesis using assms Cons True take_digits_stop [OF assms(1), of cs]
      by (cases cs) (auto simp: read_exp_def Let_def take_digits_stop split: prod.splits if_splits)
  next
    case False
    then show ?thesis using assms Cons by (auto simp: read_exp_def)
  qed
qed

lemma read_number_stop:
  assumes "stops t" "number_ok s"
  shows "read_json_number (s @ t) = Some (s, t)"
proof -
  let ?neg = "\<lambda>s. s \<noteq> [] \<and> hd s = CHR ''-''"
  let ?u = "if ?neg s then tl s else s"
  obtain i r1 f r2 e r3 where p: "read_int_part ?u = Some (i, r1)" "read_frac r1 = Some (f, r2)"
      "read_exp r2 = Some (e, r3)" "r3 = []" "(if ?neg s then ''-'' else []) @ i @ f @ e = s"
    using assms(2) by (auto simp: number_ok_def read_json_number_def Let_def split: option.splits)
  have "s \<noteq> []" using p(1) by (auto simp: read_int_part_def take_digits_def)
  then have "?neg (s @ t) = ?neg s" "tl (s @ t) = tl s @ t" by auto
  then have "(if ?neg (s @ t) then tl (s @ t) else s @ t) = ?u @ t" by auto
  moreover have "read_int_part (?u @ t) = Some (i, r1 @ t)" "read_frac (r1 @ t) = Some (f, r2 @ t)"
      "read_exp (r2 @ t) = Some (e, r3 @ t)"
    using p read_int_part_stop [OF assms(1)] read_frac_stop [OF assms(1)] read_exp_stop [OF assms(1)] by blast+
  ultimately show ?thesis
    using p(4,5) \<open>?neg (s @ t) = ?neg s\<close> unfolding read_json_number_def Let_def by simp
qed

lemma not_space [simp]: "\<not> json_space (CHR 0x22)" "\<not> json_space (CHR ''['')" "\<not> json_space (CHR ''{'')"
  "\<not> json_space (CHR '']'')" "\<not> json_space (CHR ''}'')" "\<not> json_space (CHR '','')" "\<not> json_space (CHR '':'')"
  by (simp_all add: json_space_def)

lemma number_head:
  assumes "number_ok s"
  shows "\<exists>c cs. s = c # cs \<and> (in_range 48 57 c \<or> c = CHR ''-'')"
proof (cases s)
  case Nil
  then show ?thesis using assms by (simp add: number_ok_def read_json_number_def Let_def read_int_part_def take_digits_def)
next
  case (Cons c cs)
  then show ?thesis using assms
    by (cases "c = CHR ''-''"; cases "in_range 48 57 c")
      (auto simp: number_ok_def read_json_number_def Let_def read_int_part_def take_digits_def)
qed

lemma parse_number:
  assumes "stops t" "number_ok s"
  shows "parse_value (s @ t) = Some (JNum s, t)"
proof -
  obtain c cs where s: "s = c # cs" "in_range 48 57 c \<or> c = CHR ''-''" using number_head [OF assms(2)] by blast
  then have c: "\<not> json_space c" "c \<noteq> CHR 0x22" "c \<noteq> CHR ''[''" "c \<noteq> CHR ''{''" "c \<noteq> CHR ''n''" "c \<noteq> CHR ''t''" "c \<noteq> CHR ''f''"
    by (auto simp: json_space_def in_range_def cbyte_def)
  then have "read_literal (s @ t) = Some (JNum s, t)"
    using read_number_stop [OF assms] s by (simp add: read_literal_def has_prefix_def)
  then show ?thesis using c s by (subst parse_value.simps) (simp add: skip_ws_stop)
qed

lemma parse_string: "parse_value (json_quote s @ t) = Some (JStr (clean_text s), t)"
  by (subst parse_value.simps) (simp add: json_quote_def skip_ws_stop read_json_quoted)

lemma print_head:
  assumes "has_text j"
  shows "\<exists>c cs. print_json nl colon d j = c # cs \<and> \<not> json_space c \<and> c \<noteq> CHR '']'' \<and> c \<noteq> CHR ''}''"
proof (cases j)
  case (JNum s)
  then show ?thesis using number_head [of s] assms by (auto simp: json_space_def in_range_def cbyte_def)
qed (simp_all add: json_quote_def json_space_def)

lemma parse_elements_step:
  assumes "parse_value s = Some (v, r)" "skip_ws r = CHR '','' # cs"
  shows "parse_elements acc s = parse_elements (acc @ [v]) cs"
  using parse_shorter(1) [OF assms(1)] skip_ws_Cons [OF assms(2)] assms
  by (subst parse_elements.simps) simp

lemma parse_elements_last:
  assumes "parse_value s = Some (v, r)" "skip_ws r = CHR '']'' # cs"
  shows "parse_elements acc s = Some (JArr (acc @ [v]), cs)"
  using assms by (subst parse_elements.simps) simp

lemma parse_members_step:
  assumes "skip_ws s = CHR 0x22 # q" "read_string [] q = Some (k, r)" "skip_ws r = CHR '':'' # cs"
    "parse_value cs = Some (v, r2)" "skip_ws r2 = d # ds"
  shows "parse_members acc s =
    (if d = CHR '','' then parse_members (acc @ [(k, v)]) ds
     else if d = CHR ''}'' then Some (JObj (acc @ [(k, v)]), ds) else None)"
proof -
  have "length cs < length s"
    using skip_ws_Cons [OF assms(1)] read_string_shorter [OF assms(2)] skip_ws_Cons [OF assms(3)] by simp
  moreover have "length ds < length cs"
    using parse_shorter(1) [OF assms(4)] skip_ws_Cons [OF assms(5)] by simp
  ultimately show ?thesis using assms by (subst parse_members.simps) simp
qed

text \<open>What follows a value inside an array or an object stops a number.\<close>

definition layout_ok :: "(nat \<Rightarrow> string) \<Rightarrow> string \<Rightarrow> bool" where
  "layout_ok nl colon \<longleftrightarrow>
     (\<forall>d. list_all json_space (nl d) \<and> (\<forall>c t. stops (c # t) \<longrightarrow> stops (nl d @ c # t))) \<and>
     (\<exists>ws. colon = CHR '':'' # ws \<and> list_all json_space ws)"

lemma parse_array:
  assumes "layout_ok nl colon" "xs \<noteq> []"
    and "\<And>x t. x \<in> set xs \<Longrightarrow> stops t \<Longrightarrow> parse_value (pr x @ t) = Some (f x, t)"
  shows "parse_elements acc (nl d @ join_texts (CHR '','' # nl d) (map pr xs) @ nl e @ CHR '']'' # t) =
    Some (JArr (acc @ map f xs), t)"
  using assms(2,3)
proof (induction xs arbitrary: acc rule: induct_list012)
  case (2 x)
  have nl: "list_all json_space (nl d)" "list_all json_space (nl e)" "stops (nl e @ CHR '']'' # t)"
    using assms(1) by (auto simp: layout_ok_def stops_def)
  have "parse_value (nl d @ pr x @ nl e @ CHR '']'' # t) = Some (f x, nl e @ CHR '']'' # t)"
    using "2.prems"(2) nl by (simp add: parse_value_ws)
  then show ?case using nl by (simp add: parse_elements_last skip_ws_append skip_ws_stop)
next
  case (3 x y zs)
  let ?rest = "nl d @ join_texts (CHR '','' # nl d) (map pr (y # zs)) @ nl e @ CHR '']'' # t"
  have nl: "list_all json_space (nl d)" using assms(1) by (auto simp: layout_ok_def)
  have "parse_value (nl d @ pr x @ CHR '','' # ?rest) = Some (f x, CHR '','' # ?rest)"
    using "3.prems"(2) nl by (simp add: parse_value_ws stops_def)
  then have "parse_elements acc (nl d @ pr x @ CHR '','' # ?rest) = parse_elements (acc @ [f x]) ?rest"
    by (rule parse_elements_step) (simp add: skip_ws_stop)
  moreover have "parse_elements (acc @ [f x]) ?rest = Some (JArr ((acc @ [f x]) @ map f (y # zs)), t)"
    by (rule "3.IH"(2)) (use "3.prems" in auto)
  ultimately show ?case by simp
qed simp

lemma parse_object:
  assumes "layout_ok nl colon" "ms \<noteq> []"
    and "\<And>m t. m \<in> set ms \<Longrightarrow> stops t \<Longrightarrow> parse_value (pr m @ t) = Some (f m, t)"
  shows "parse_members acc (nl d @ join_texts (CHR '','' # nl d)
      (map (\<lambda>m. json_quote (fst m) @ colon @ pr m) ms) @ nl e @ CHR ''}'' # t) =
    Some (JObj (acc @ map (\<lambda>m. (clean_text (fst m), f m)) ms), t)"
  using assms(2,3)
proof (induction ms arbitrary: acc rule: induct_list012)
  case (2 x)
  obtain ws where ws: "colon = CHR '':'' # ws" "list_all json_space ws" using assms(1) by (auto simp: layout_ok_def)
  have nl: "list_all json_space (nl d)" "list_all json_space (nl e)" "stops (nl e @ CHR ''}'' # t)"
    using assms(1) by (auto simp: layout_ok_def stops_def)
  have "parse_value (ws @ pr x @ nl e @ CHR ''}'' # t) = Some (f x, nl e @ CHR ''}'' # t)"
    using "2.prems"(2) nl ws by (simp add: parse_value_ws)
  then show ?case using nl ws
    by (simp add: parse_members_step [where k = "clean_text (fst x)"] skip_ws_append skip_ws_stop json_quote_def read_json_quoted)
next
  case (3 x y zs)
  obtain ws where ws: "colon = CHR '':'' # ws" "list_all json_space ws" using assms(1) by (auto simp: layout_ok_def)
  let ?rest = "nl d @ join_texts (CHR '','' # nl d) (map (\<lambda>m. json_quote (fst m) @ colon @ pr m) (y # zs)) @ nl e @ CHR ''}'' # t"
  have nl: "list_all json_space (nl d)" using assms(1) by (auto simp: layout_ok_def)
  have "parse_value (ws @ pr x @ CHR '','' # ?rest) = Some (f x, CHR '','' # ?rest)"
    using "3.prems"(2) ws by (simp add: parse_value_ws stops_def)
  then have "parse_members acc (nl d @ json_quote (fst x) @ colon @ pr x @ CHR '','' # ?rest) =
      parse_members (acc @ [(clean_text (fst x), f x)]) ?rest"
    using nl ws
    by (simp add: parse_members_step [where k = "clean_text (fst x)"] skip_ws_append skip_ws_stop json_quote_def read_json_quoted)
  moreover have "parse_members (acc @ [(clean_text (fst x), f x)]) ?rest =
      Some (JObj ((acc @ [(clean_text (fst x), f x)]) @ map (\<lambda>m. (clean_text (fst m), f m)) (y # zs)), t)"
    by (rule "3.IH"(2)) (use "3.prems" in auto)
  ultimately show ?case by simp
qed simp

lemma parse_print:
  assumes "layout_ok nl colon"
  shows "has_text j \<Longrightarrow> stops t \<Longrightarrow> parse_value (print_json nl colon d j @ t) = Some (clean_json j, t)"
proof (induction j arbitrary: d t)
  case (JArr xs)
  show ?case
  proof (cases "xs = []")
    case True
    then show ?thesis by (subst parse_value.simps) (simp add: skip_ws_stop)
  next
    case False
    let ?body = "nl (Suc d) @ join_texts (CHR '','' # nl (Suc d)) (map (print_json nl colon (Suc d)) xs) @ nl d @ CHR '']'' # t"
    have "parse_elements [] ?body = Some (JArr ([] @ map clean_json xs), t)"
      by (rule parse_array [OF assms False]) (use JArr in \<open>auto simp: list_all_iff\<close>)
    moreover have "\<exists>c cs. skip_ws ?body = c # cs \<and> c \<noteq> CHR '']''"
    proof -
      obtain x ys where x: "xs = x # ys" using False by (cases xs) auto
      then obtain c cs where c: "print_json nl colon (Suc d) x = c # cs" "\<not> json_space c" "c \<noteq> CHR '']''"
        using print_head [of x nl colon "Suc d"] JArr.prems by auto
      have "\<exists>u. join_texts (CHR '','' # nl (Suc d)) (map (print_json nl colon (Suc d)) xs) = c # u"
        using x c by (cases ys) auto
      then show ?thesis using c assms by (auto simp: layout_ok_def skip_ws_append skip_ws_stop)
    qed
    ultimately show ?thesis using False by (subst parse_value.simps) (auto simp: skip_ws_stop)
  qed
next
  case (JObj ms)
  show ?case
  proof (cases "ms = []")
    case True
    then show ?thesis by (subst parse_value.simps) (simp add: skip_ws_stop)
  next
    case False
    let ?body = "nl (Suc d) @ join_texts (CHR '','' # nl (Suc d))
      (map (\<lambda>m. json_quote (fst m) @ colon @ print_json nl colon (Suc d) (snd m)) ms) @ nl d @ CHR ''}'' # t"
    have "parse_members [] ?body = Some (JObj ([] @ map (\<lambda>m. (clean_text (fst m), clean_json (snd m))) ms), t)"
      by (rule parse_object [OF assms False]) (use JObj in \<open>fastforce simp: list_all_iff snds.simps\<close>)
    moreover have "\<exists>cs. skip_ws ?body = CHR 0x22 # cs"
    proof -
      obtain x ys where x: "ms = x # ys" using False by (cases ms) auto
      then show ?thesis using assms
        by (cases ys) (auto simp: layout_ok_def skip_ws_append skip_ws_stop json_quote_def)
    qed
    ultimately show ?thesis using False by (subst parse_value.simps) (auto simp: skip_ws_stop)
  qed
next
  case (JNum s)
  then show ?case by (simp add: parse_number)
next
  case (JStr s)
  then show ?case by (simp add: parse_string)
next
  case (JBool b)
  then show ?case by (subst parse_value.simps) (simp add: skip_ws_stop json_space_def read_literal_def has_prefix_def)
next
  case JNull
  then show ?case by (subst parse_value.simps) (simp add: skip_ws_stop json_space_def read_literal_def has_prefix_def)
qed

lemma layouts_ok:
  "layout_ok (\<lambda>d. []) '':''"
  "layout_ok (\<lambda>d. CHR 0x0A # replicate (2 * d) (CHR '' '')) '': ''"
  by (auto simp: layout_ok_def json_space_def stops_def list_all_iff)

text \<open>Reading what \<open>Marshal\<close> or \<open>MarshalIndent\<close> printed, with blanks after it.\<close>

lemma parse_marshal_indent:
  assumes "has_text j" "t = [] \<or> t = [CHR 0x0A]"
  shows "parse_json (marshal_indent j @ t) = Some (clean_json j)"
proof -
  have "stops t" "skip_ws t = []" using assms(2) by (auto simp: stops_def skip_ws_def json_space_def)
  then show ?thesis using parse_print [OF layouts_ok(2) assms(1)] by (simp add: parse_json_def marshal_indent_def)
qed

lemma parse_marshal: "has_text j \<Longrightarrow> parse_json (marshal j) = Some (clean_json j)"
  using parse_print [OF layouts_ok(1), of j "[]" 0] by (simp add: parse_json_def marshal_def stops_def skip_ws_def)

section \<open>Integers\<close>

definition int_text :: "int \<Rightarrow> string" where
  "int_text i = (if i < 0 then CHR ''-'' # dec_text (nat (- i)) else dec_text (nat i))"

lemma dec_text_head: "n \<noteq> 0 \<Longrightarrow> hd (dec_text n) \<noteq> CHR ''0''"
proof (induction n rule: dec_text.induct)
  case (1 n)
  show ?case
  proof (cases "n < 10")
    case True
    have "cbyte (char_of (n + 48)) = n + 48" "cbyte (CHR ''0'') = 48" using True by (simp_all add: cbyte_def)
    then have "char_of (n + 48) \<noteq> CHR ''0''" using "1.prems" by (metis add_right_cancel add_0)
    then show ?thesis using True by (subst dec_text.simps) simp
  next
    case False
    then show ?thesis using "1.IH" by (subst dec_text.simps) simp
  qed
qed

lemma take_digits_dec: "take_digits (dec_text n) = (dec_text n, [])"
  using dec_text_digits [of n] by (simp add: take_digits_def list_all_iff takeWhile_eq_all_conv dropWhile_eq_Nil_conv)

lemma read_int_part_dec: "read_int_part (dec_text n) = Some (dec_text n, [])"
proof (cases "n = 0")
  case True
  have z: "dec_text 0 = ''0''" by code_simp
  show ?thesis using take_digits_dec [of 0] by (simp add: True z read_int_part_def)
qed (simp add: read_int_part_def take_digits_dec dec_text_head)

lemma dec_text_not_minus: "hd (dec_text n) \<noteq> CHR ''-''"
  using dec_text_digits [of n] by (cases "dec_text n") (auto simp: in_range_def cbyte_def)

lemma number_ok_int [simp]: "number_ok (int_text i)"
  by (simp add: number_ok_def read_json_number_def Let_def int_text_def read_int_part_dec dec_text_not_minus
      read_frac_def read_exp_def)

lemma parse_int_text:
  assumes "- (2 ^ 63) \<le> i" "i \<le> 2 ^ 63 - 1"
  shows "parse_int64 (int_text i) = Some i"
  using assms dec_text_digits [of "nat i"] dec_text_digits [of "nat (- i)"]
  by (auto simp: parse_int64_def Let_def int_text_def dec_text_not_minus dec_value_text)

end
