(* ===== verification/StateStore.thy ===== *)
theory StateStore
  imports Adoption Diagnostic JsonPrint
begin

text \<open>
  \<open>internal/state/state.go\<close>: the persistent identity and adoption state, its validation,
  the decoding of the state file, the atomic write with a fault at any stage, and
  \<open>LoadOrCreate\<close>.  The file system is the content of the target and of the temporary file;
  the checks on the inode are the value \<open>probe\<close> the system calls return.
\<close>

section \<open>State\<close>

definition current_version :: int where "current_version = 1"
definition max_state_bytes :: nat where "max_state_bytes = 1048576"
definition max_gcm_replay_nonces :: nat where "max_gcm_replay_nonces = 128"

record identity =
  i_mac :: string
  i_serial :: string
  i_guid :: string

record adoption =
  ad_key :: string
  ad_url :: string
  ad_cfg :: string
  ad_adopted :: bool
  ad_gcm :: bool
  ad_nonces :: "string list"

record state =
  st_version :: int
  st_identity :: identity
  st_adoption :: adoption

definition safe_text :: "string \<Rightarrow> nat \<Rightarrow> bool" where
  "safe_text v maximum \<longleftrightarrow> \<not> (v = [] \<or> maximum < length v) \<and> no_control v"

definition valid_uuid :: "string \<Rightarrow> bool" where
  "valid_uuid v \<longleftrightarrow>
     length v = 36 \<and> v ! 8 = CHR ''-'' \<and> v ! 13 = CHR ''-'' \<and> v ! 18 = CHR ''-'' \<and> v ! 23 = CHR ''-'' \<and>
     (case hex_decode (remove_char (CHR ''-'') v) of Some bs \<Rightarrow> length bs = 16 | None \<Rightarrow> False)"

definition valid_nonce_entry :: "string \<Rightarrow> bool" where
  "valid_nonce_entry e \<longleftrightarrow>
     length e = 32 \<and> (case hex_decode e of Some bs \<Rightarrow> length bs = 16 | None \<Rightarrow> False)"

fun nonces_valid :: "byte list list \<Rightarrow> string list \<Rightarrow> bool" where
  "nonces_valid seen [] = True"
| "nonces_valid seen (e # es) =
     (valid_nonce_entry e \<and> the (hex_decode e) \<notin> set seen \<and> nonces_valid (the (hex_decode e) # seen) es)"

definition valid_mac_text :: "string \<Rightarrow> bool" where
  "valid_mac_text v =
     (case parse_mac v of Some hw \<Rightarrow> length hw = 6 \<and> and (hw ! 0) 1 = 0 | None \<Rightarrow> False)"

definition state_valid :: "state \<Rightarrow> bool" where
  "state_valid s \<longleftrightarrow>
     (let a = st_adoption s; i = st_identity s in
      st_version s = current_version \<and> valid_mac_text (i_mac i) \<and>
      \<not> (i_serial i = [] \<or> i_guid i = []) \<and> safe_text (i_serial i) 128 \<and> valid_uuid (i_guid i) \<and>
      (case hex_decode (ad_key a) of Some k \<Rightarrow> length k = 16 | None \<Rightarrow> False) \<and>
      inform_url_parts_ok (ad_url a) \<and> safe_text (ad_cfg a) 128 \<and>
      \<not> (\<not> ad_adopted a \<and> ad_gcm a) \<and> length (ad_nonces a) \<le> max_gcm_replay_nonces \<and>
      \<not> (\<not> ad_gcm a \<and> ad_nonces a \<noteq> []) \<and> nonces_valid [] (ad_nonces a))"

section \<open>Decoding the state file\<close>

text \<open>\<open>DisallowUnknownFields\<close>: every key must fold to a field.\<close>

definition only_fields :: "string list \<Rightarrow> (string \<times> json) list \<Rightarrow> bool" where
  "only_fields fs ms = list_all (\<lambda>m. list_ex (\<lambda>f. field_matches f (fst m)) fs) ms"

fun bool_field :: "bool \<Rightarrow> json list \<Rightarrow> bool option" where
  "bool_field cur [] = Some cur"
| "bool_field cur (JBool b # js) = bool_field b js"
| "bool_field cur (JNull # js) = bool_field cur js"
| "bool_field cur (_ # js) = None"

text \<open>
  A slice field: null sets it to nil, an array is decoded over the backing array of the value
  the field has (a null element leaves what it finds there), and only its length is new.
\<close>

fun strings_over :: "string list \<Rightarrow> json list \<Rightarrow> string list option" where
  "strings_over back [] = Some []"
| "strings_over back (JStr v # js) = map_option (\<lambda>vs. v # vs) (strings_over (tl back) js)"
| "strings_over back (JNull # js) =
     map_option (\<lambda>vs. (if back = [] then [] else hd back) # vs) (strings_over (tl back) js)"
| "strings_over back (_ # js) = None"

fun strings_field :: "string list \<Rightarrow> nat \<Rightarrow> json list \<Rightarrow> string list option" where
  "strings_field back n [] = Some (take n back)"
| "strings_field back n (JArr xs # js) =
     (if xs = [] then strings_field [] 0 js
      else case strings_over back xs of None \<Rightarrow> None
           | Some vs \<Rightarrow> strings_field (vs @ drop (length vs) back) (length vs) js)"
| "strings_field back n (JNull # js) = strings_field [] 0 js"
| "strings_field back n (_ # js) = None"

definition decode_identity :: "identity \<Rightarrow> json \<Rightarrow> identity option" where
  "decode_identity cur j =
     (case j of
        JNull \<Rightarrow> Some cur
      | JObj ms \<Rightarrow>
          if \<not> only_fields [''mac'', ''serial'', ''guid''] ms then None
          else (case (string_field (i_mac cur) (members_named ''mac'' ms),
                      string_field (i_serial cur) (members_named ''serial'' ms),
                      string_field (i_guid cur) (members_named ''guid'' ms)) of
                  (Some m, Some s, Some g) \<Rightarrow> Some \<lparr>i_mac = m, i_serial = s, i_guid = g\<rparr>
                | _ \<Rightarrow> None)
      | _ \<Rightarrow> None)"

definition adoption_fields :: "string list" where
  "adoption_fields =
     [''auth_key'', ''inform_url'', ''cfg_version'', ''adopted'', ''use_aes_gcm'', ''gcm_replay_nonces'']"

definition decode_adoption :: "adoption \<Rightarrow> json \<Rightarrow> adoption option" where
  "decode_adoption cur j =
     (case j of
        JNull \<Rightarrow> Some cur
      | JObj ms \<Rightarrow>
          if \<not> only_fields adoption_fields ms then None
          else (case (string_field (ad_key cur) (members_named ''auth_key'' ms),
                      string_field (ad_url cur) (members_named ''inform_url'' ms),
                      string_field (ad_cfg cur) (members_named ''cfg_version'' ms),
                      bool_field (ad_adopted cur) (members_named ''adopted'' ms),
                      bool_field (ad_gcm cur) (members_named ''use_aes_gcm'' ms),
                      strings_field (ad_nonces cur) (length (ad_nonces cur)) (members_named ''gcm_replay_nonces'' ms)) of
                  (Some k, Some u, Some c, Some a, Some g, Some ns) \<Rightarrow>
                    Some \<lparr>ad_key = k, ad_url = u, ad_cfg = c, ad_adopted = a, ad_gcm = g, ad_nonces = ns\<rparr>
                | _ \<Rightarrow> None)
      | _ \<Rightarrow> None)"

fun fold_field :: "('a \<Rightarrow> json \<Rightarrow> 'a option) \<Rightarrow> 'a \<Rightarrow> json list \<Rightarrow> 'a option" where
  "fold_field f cur [] = Some cur"
| "fold_field f cur (j # js) = (case f cur j of None \<Rightarrow> None | Some v \<Rightarrow> fold_field f v js)"

definition zero_state :: state where
  "zero_state =
     \<lparr>st_version = 0, st_identity = \<lparr>i_mac = [], i_serial = [], i_guid = []\<rparr>,
      st_adoption = \<lparr>ad_key = [], ad_url = [], ad_cfg = [], ad_adopted = False, ad_gcm = False, ad_nonces = []\<rparr>\<rparr>"

definition decode_state :: "json \<Rightarrow> state option" where
  "decode_state j =
     (case j of
        JNull \<Rightarrow> Some zero_state
      | JObj ms \<Rightarrow>
          if \<not> only_fields [''version'', ''identity'', ''adoption''] ms then None
          else (case (int_field 0 (members_named ''version'' ms),
                      fold_field decode_identity (st_identity zero_state) (members_named ''identity'' ms),
                      fold_field decode_adoption (st_adoption zero_state) (members_named ''adoption'' ms)) of
                  (Some v, Some i, Some a) \<Rightarrow> Some \<lparr>st_version = v, st_identity = i, st_adoption = a\<rparr>
                | _ \<Rightarrow> None)
      | _ \<Rightarrow> None)"

section \<open>Printing the state file\<close>

definition identity_json :: "identity \<Rightarrow> json" where
  "identity_json i =
     JObj [(''mac'', JStr (i_mac i)), (''serial'', JStr (i_serial i)), (''guid'', JStr (i_guid i))]"

definition adoption_json :: "adoption \<Rightarrow> json" where
  "adoption_json a =
     JObj ([(''auth_key'', JStr (ad_key a)), (''inform_url'', JStr (ad_url a)),
            (''cfg_version'', JStr (ad_cfg a)), (''adopted'', JBool (ad_adopted a)),
            (''use_aes_gcm'', JBool (ad_gcm a))] @
           (if ad_nonces a = [] then [] else [(''gcm_replay_nonces'', JArr (map JStr (ad_nonces a)))]))"

definition state_json :: "state \<Rightarrow> json" where
  "state_json s =
     JObj [(''version'', JNum (int_text (st_version s))), (''identity'', identity_json (st_identity s)),
           (''adoption'', adoption_json (st_adoption s))]"

definition state_text :: "state \<Rightarrow> string" where
  "state_text s = marshal_indent (state_json s) @ [CHR 0x0A]"

section \<open>The atomic write\<close>

record file_system =
  fs_target :: "string option"
  fs_private :: bool
  fs_temp :: "string option"
  fs_synced :: bool   \<comment> \<open>the bytes of the temporary file, or of the target it became, are on disk\<close>
  fs_left :: "string list"   \<comment> \<open>temporary files that earlier writes could not remove\<close>

datatype stage =
    MkdirAll | CreateTemp | ChmodTemp | WriteTemp | SyncTemp | CloseTemp | Rename
  | ChmodTarget | OpenDir | SyncDir | RemoveTemp

text \<open>The calls of a write in their order; \<open>RemoveTemp\<close> is the deferred removal after a failure.\<close>

definition stages :: "stage list" where
  "stages = [MkdirAll, CreateTemp, ChmodTemp, WriteTemp, SyncTemp, CloseTemp, Rename, ChmodTarget, OpenDir, SyncDir]"

text \<open>One system call that succeeds.  A temporary file is created with owner permissions.\<close>

fun stage_effect :: "string \<Rightarrow> stage \<Rightarrow> file_system \<Rightarrow> file_system" where
  "stage_effect b CreateTemp fs = fs\<lparr>fs_temp := Some []\<rparr>"
| "stage_effect b WriteTemp fs = fs\<lparr>fs_temp := Some b, fs_synced := False\<rparr>"
| "stage_effect b SyncTemp fs = fs\<lparr>fs_synced := True\<rparr>"
| "stage_effect b Rename fs = fs\<lparr>fs_target := fs_temp fs, fs_private := True, fs_temp := None\<rparr>"
| "stage_effect b _ fs = fs"

text \<open>What a failing call leaves: a failing write may leave any prefix of the bytes.\<close>

definition stage_fault :: "nat \<Rightarrow> string \<Rightarrow> stage \<Rightarrow> file_system \<Rightarrow> file_system" where
  "stage_fault n b st fs = (if st = WriteTemp then fs\<lparr>fs_temp := Some (take n b)\<rparr> else fs)"

text \<open>
  The deferred removal of the temporary file, unless it has been renamed.  Its own error is ignored:
  where it fails too, the file stays in the directory.
\<close>

definition remove_temp :: "(stage \<Rightarrow> bool) \<Rightarrow> file_system \<Rightarrow> file_system" where
  "remove_temp fault fs =
     (case fs_temp fs of
        None \<Rightarrow> fs
      | Some t \<Rightarrow> fs\<lparr>fs_temp := None, fs_left := (if fault RemoveTemp then fs_left fs @ [t] else fs_left fs)\<rparr>)"

text \<open>\<open>savePrivateBytes\<close>: the stages in order, up to the first one that fails (\<open>fault\<close>).\<close>

fun run_stages :: "(stage \<Rightarrow> bool) \<Rightarrow> nat \<Rightarrow> string \<Rightarrow> stage list \<Rightarrow> file_system \<Rightarrow> bool \<times> file_system" where
  "run_stages fault n b [] fs = (True, fs)"
| "run_stages fault n b (st # rest) fs =
     (if fault st then (False, remove_temp fault (stage_fault n b st fs))
      else run_stages fault n b rest (stage_effect b st fs))"

definition save_private_bytes :: "(stage \<Rightarrow> bool) \<Rightarrow> nat \<Rightarrow> string \<Rightarrow> file_system \<Rightarrow> bool \<times> file_system" where
  "save_private_bytes fault n b fs = run_stages fault n b stages fs"

definition save :: "(stage \<Rightarrow> bool) \<Rightarrow> nat \<Rightarrow> state \<Rightarrow> file_system \<Rightarrow> (string go_error option) \<times> file_system" where
  "save fault n s fs =
     (if \<not> state_valid s then (Some (Leaf ''invalid state''), fs)
      else (case save_private_bytes fault n (state_text s) fs of
              (True, fs') \<Rightarrow> (None, fs')
            | (False, fs') \<Rightarrow> (wrap StateWrite (Some (Leaf ''save'')), fs')))"

section \<open>LoadOrCreate\<close>

datatype probe =
    Missing | LstatFailed bool | NotRegular | OpenFailed bool | Changed
  | Present nat nat string   \<comment> \<open>permission bits, size, content\<close>

definition normalize_mac :: "string \<Rightarrow> string" where
  "normalize_mac v = (case parse_mac v of None \<Rightarrow> v | Some hw \<Rightarrow> to_lower (mac_text hw))"

text \<open>\<open>strings.ToUpper\<close> on the hexadecimal text it is applied to.\<close>

definition upper_char :: "char \<Rightarrow> char" where
  "upper_char c = (if in_range 97 122 c then char_of (cbyte c - 32) else c)"

definition random_mac :: "byte list \<Rightarrow> string" where
  "random_mac r = mac_text ((and (or (r ! 0) 2) 0xFE) # tl r)"

definition uuid_text :: "byte list \<Rightarrow> string" where
  "uuid_text b =
     (let h = hex_encode b in
      take 8 h @ CHR ''-'' # take 4 (drop 8 h) @ CHR ''-'' # take 4 (drop 12 h) @ CHR ''-'' #
      take 4 (drop 16 h) @ CHR ''-'' # drop 20 h)"

definition random_uuid :: "byte list \<Rightarrow> string" where
  "random_uuid r =
     uuid_text (r[6 := or (and (r ! 6) 0x0F) 0x40, 8 := or (and (r ! 8) 0x3F) 0x80])"

type_synonym store_error = "string go_error"

definition read_state :: "string \<Rightarrow> (store_error, state) result" where
  "read_state content =
     (case parse_json (take (max_state_bytes + 1) content) of
        None \<Rightarrow> Inl (Leaf ''decode state'')
      | Some j \<Rightarrow>
          (case decode_state j of
             None \<Rightarrow> Inl (Leaf ''decode state'')
           | Some s \<Rightarrow> guard (\<not> state_valid s) (Leaf ''validate state'') (Inr s)))"

definition open_state :: "nat \<Rightarrow> nat \<Rightarrow> string \<Rightarrow> (store_error, state) result" where
  "open_state perm bytes content =
     guard (and perm 63 \<noteq> 0) (Failure StatePermissions (Leaf ''state file must not be accessible'')) (
     guard (bytes < 1 \<or> max_state_bytes < bytes) (Leaf ''state file has invalid size'') (read_state content))"

definition check_identity :: "string \<Rightarrow> string \<Rightarrow> state \<Rightarrow> (store_error, state) result" where
  "check_identity req_mac req_serial s =
     guard (req_mac \<noteq> [] \<and> \<not> equal_fold (normalize_mac req_mac) (i_mac (st_identity s)))
       (Failure IdentityMismatch (Leaf ''configured device MAC does not match persistent state'')) (
     guard (req_serial \<noteq> [] \<and> req_serial \<noteq> i_serial (st_identity s))
       (Failure IdentityMismatch (Leaf ''configured device serial does not match persistent state'')) (Inr s))"

definition set_url :: "string \<Rightarrow> state \<Rightarrow> state" where
  "set_url u s = s\<lparr>st_adoption := (st_adoption s)\<lparr>ad_url := u\<rparr>\<rparr>"

text \<open>A pending state follows the configured origin; a managed one keeps the negotiated one.\<close>

definition repoint :: "(stage \<Rightarrow> bool) \<Rightarrow> nat \<Rightarrow> string \<Rightarrow> string \<Rightarrow> state \<Rightarrow> file_system \<Rightarrow>
    (store_error, state) result \<times> file_system" where
  "repoint fault n url dflt s fs =
     (if \<not> ad_adopted (st_adoption s) \<and> equal_fold (ad_key (st_adoption s)) dflt \<and> ad_url (st_adoption s) \<noteq> url then
        (let s' = set_url url s in
         if \<not> state_valid s' then (Inl (Leaf ''validate configured pending state''), fs)
         else case save fault n s' fs of
           (None, fs') \<Rightarrow> (Inr s', fs')
         | (Some e, fs') \<Rightarrow> (Inl (Wrapped ''update pending state'' e), fs'))
      else (Inr s, fs))"

definition fresh_state :: "string \<Rightarrow> string \<Rightarrow> string \<Rightarrow> string \<Rightarrow> byte list \<Rightarrow> byte list \<Rightarrow> state" where
  "fresh_state req_mac req_serial url dflt rand_mac rand_uuid =
     (let mac = (if req_mac = [] then random_mac rand_mac else normalize_mac req_mac);
          serial = (if req_serial = [] then map upper_char (remove_char (CHR '':'') mac) else req_serial)
      in \<lparr>st_version = current_version,
          st_identity = \<lparr>i_mac = mac, i_serial = serial, i_guid = random_uuid rand_uuid\<rparr>,
          st_adoption = \<lparr>ad_key = dflt, ad_url = url, ad_cfg = ''0'', ad_adopted = False, ad_gcm = False, ad_nonces = []\<rparr>\<rparr>)"

definition create_state :: "(stage \<Rightarrow> bool) \<Rightarrow> nat \<Rightarrow> state \<Rightarrow> file_system \<Rightarrow>
    (store_error, state) result \<times> file_system" where
  "create_state fault n s fs =
     (if \<not> state_valid s then (Inl (Leaf ''invalid state''), fs)
      else case save fault n s fs of (None, fs') \<Rightarrow> (Inr s, fs') | (Some e, fs') \<Rightarrow> (Inl e, fs'))"

definition load_with :: "(store_error, state) result \<times> file_system \<Rightarrow> (store_error, state) result \<times> file_system" where
  "load_with r = (case r of (Inl e, fs) \<Rightarrow> (Inl (the (fallback StateInvalid (Some e))), fs) | (Inr s, fs) \<Rightarrow> (Inr s, fs))"

definition load_or_create :: "(stage \<Rightarrow> bool) \<Rightarrow> nat \<Rightarrow> probe \<Rightarrow> string \<Rightarrow> string \<Rightarrow> string \<Rightarrow>
    string \<Rightarrow> byte list \<Rightarrow> byte list \<Rightarrow> file_system \<Rightarrow> (store_error, state) result \<times> file_system" where
  "load_or_create fault n pr req_mac req_serial url dflt rand_mac rand_uuid fs =
     load_with
       (case pr of
          Missing \<Rightarrow> create_state fault n (fresh_state req_mac req_serial url dflt rand_mac rand_uuid) fs
        | LstatFailed denied \<Rightarrow>
            (Inl (Failure (if denied then StatePermissions else StateRead) (Leaf ''open state safely'')), fs)
        | NotRegular \<Rightarrow> (Inl (Leaf ''state path must be a regular file''), fs)
        | OpenFailed denied \<Rightarrow>
            (Inl (Failure (if denied then StatePermissions else StateRead) (Leaf ''open state safely'')), fs)
        | Changed \<Rightarrow> (Inl (Leaf ''state file changed while opening''), fs)
        | Present perm bytes content \<Rightarrow>
            (case open_state perm bytes content of
               Inl e \<Rightarrow> (Inl e, fs)
             | Inr s \<Rightarrow>
                 (case check_identity req_mac req_serial s of
                    Inl e \<Rightarrow> (Inl e, fs)
                  | Inr s \<Rightarrow> repoint fault n url dflt s fs)))"

end
