(* ===== verification/StateFacts.thy ===== *)
theory StateFacts
  imports StateStore
begin

text \<open>
  What the state store promises: the write is atomic at every fault and at every crash
  point, the state file reads back as the state it was written from, and
  \<open>LoadOrCreate\<close> returns only valid states of the requested identity, the same one at
  every restart.
\<close>

section \<open>The atomic write\<close>


lemma run_stages_target:
  "run_stages fault n b stages fs = (ok, fs') \<Longrightarrow>
     fs_temp fs' = None \<and> (ok \<longleftrightarrow> \<not> list_ex fault stages) \<and>
     fs_target fs' = (if list_ex fault (take 7 stages) then fs_target fs else Some b)"
  by (auto simp: stages_def stage_fault_def remove_temp_def split: if_splits option.splits)



lemma save_done:
  "save_private_bytes fault n b fs = (True, fs') \<Longrightarrow>
     fs_temp fs' = None \<and> fs_target fs' = Some b \<and> fs_private fs' \<and> fs_synced fs'"
  by (auto simp: save_private_bytes_def stages_def split: if_splits)



section \<open>The state file reads back\<close>

definition state_texts :: "state \<Rightarrow> string list" where
  "state_texts s =
     (let i = st_identity s; a = st_adoption s
      in [i_mac i, i_serial i, i_guid i, ad_key a, ad_url a, ad_cfg a] @ ad_nonces a)"

lemma fold_name_ascii: "list_all ascii s \<Longrightarrow> fold_name s = map lower_char s"
  by (induction s) (simp_all add: fold_name_def ascii_def)

lemma strings_over_strings: "strings_over bs (map JStr vs) = Some vs"
  by (induction vs arbitrary: bs) simp_all

lemma strings_field_strings: "strings_field [] 0 [JArr (map JStr vs)] = Some vs"
  by (simp add: strings_over_strings)

lemmas key_simps = field_matches_def fold_name_ascii ascii_def cbyte_def lower_char_def in_range_def
  members_named_def only_fields_def adoption_fields_def

lemma decode_identity_json: "decode_identity cur (identity_json i) = Some i"
  by (simp add: decode_identity_def identity_json_def key_simps)

lemma decode_adoption_json:
  assumes "ad_nonces cur = []"
  shows "decode_adoption cur (adoption_json a) = Some a"
  using assms by (simp add: decode_adoption_def adoption_json_def key_simps strings_over_strings)

lemma decode_state_json: "st_version s = 1 \<Longrightarrow> decode_state (state_json s) = Some s"
  by (simp add: decode_state_def state_json_def key_simps decode_identity_json decode_adoption_json zero_state_def
      parse_int_text)

lemma state_json_has_text: "has_text (state_json s)"
  by (simp add: state_json_def identity_json_def adoption_json_def list_all_iff)

lemma state_json_clean: "list_all valid_utf8 (state_texts s) \<Longrightarrow> clean_json (state_json s) = state_json s"
  by (simp add: state_json_def identity_json_def adoption_json_def state_texts_def Let_def valid_clean
      clean_ascii ascii_def cbyte_def list_all_iff comp_def)

lemma read_state_text:
  assumes "state_valid s" "list_all valid_utf8 (state_texts s)" "length (state_text s) \<le> max_state_bytes"
  shows "read_state (state_text s) = Inr s"
proof -
  have "parse_json (state_text s) = Some (state_json s)"
    using parse_marshal_indent [OF state_json_has_text, of "[CHR 0x0A]" s] state_json_clean [OF assms(2)]
    by (simp add: state_text_def)
  moreover have "st_version s = 1" using assms(1) by (simp add: state_valid_def Let_def current_version_def)
  ultimately show ?thesis using assms(1,3) by (simp add: read_state_def decode_state_json)
qed







section \<open>LoadOrCreate\<close>

lemma save_None: "save fault n s fs = (None, fs') \<Longrightarrow> state_valid s \<and> fs_target fs' = Some (state_text s)"
  by (auto simp: save_def wrap_def dest: save_done split: if_splits prod.splits bool.splits)

lemma save_private: "save fault n s fs = (None, fs') \<Longrightarrow> fs_private fs'"
  by (auto simp: save_def wrap_def dest: save_done split: if_splits prod.splits bool.splits)

text \<open>A save that fails leaves the old content, or the complete new one.\<close>

lemma save_Some_file:
  assumes "save fault n s fs = (Some e, fs')"
  shows "fs_target fs' = fs_target fs \<or> (state_valid s \<and> fs_target fs' = Some (state_text s))"
proof (cases "state_valid s")
  case True
  obtain ok fs1 where r: "run_stages fault n (state_text s) stages fs = (ok, fs1)" by fastforce
  then have "fs' = fs1" using assms True by (auto simp: save_def save_private_bytes_def wrap_def split: bool.splits)
  then show ?thesis using run_stages_target [OF r] True by (auto split: if_splits)
qed (use assms in \<open>simp add: save_def\<close>)

lemma save_Some: "save fault n s fs = (Some e, fs') \<Longrightarrow> as_failure e = None \<or> as_failure e = Some StateWrite"
  by (auto simp: save_def wrap_def split: if_splits prod.splits bool.splits)

lemma create_state_ok:
  "create_state fault n s fs = (Inr s', fs') \<Longrightarrow> s' = s \<and> state_valid s \<and> fs_target fs' = Some (state_text s)"
  by (auto simp: create_state_def dest: save_None split: if_splits prod.splits option.splits)

lemma repoint_ok:
  "repoint fault n url dflt s fs = (Inr s', fs') \<Longrightarrow> state_valid s \<Longrightarrow>
     state_valid s' \<and> st_identity s' = st_identity s \<and>
     (if ad_adopted (st_adoption s) then s' = s \<and> fs' = fs else s' = s \<or> s' = set_url url s)"
  by (auto simp: repoint_def Let_def set_url_def split: if_splits prod.splits option.splits)

definition store_codes :: "code list" where
  "store_codes = [StateInvalid, StatePermissions, StateRead, StateWrite, IdentityMismatch]"

definition error_in :: "code list \<Rightarrow> store_error \<Rightarrow> bool" where
  "error_in cs e = (case as_failure e of None \<Rightarrow> True | Some c \<Rightarrow> c \<in> set cs)"

lemma read_state_error: "read_state content = Inl e \<Longrightarrow> error_in store_codes e"
  by (auto simp: read_state_def error_in_def guard_def split: option.splits if_splits)

lemma open_state_error: "open_state perm n content = Inl e \<Longrightarrow> error_in store_codes e"
  by (auto simp: open_state_def guard_def error_in_def store_codes_def split: if_splits
      dest: read_state_error [unfolded error_in_def store_codes_def])

lemma check_identity_error: "check_identity m sr s = Inl e \<Longrightarrow> error_in store_codes e"
  by (auto simp: check_identity_def guard_def error_in_def store_codes_def split: if_splits)

lemma create_state_error: "create_state fault n s fs = (Inl e, fs') \<Longrightarrow> error_in store_codes e"
  by (auto simp: create_state_def error_in_def store_codes_def split: if_splits prod.splits option.splits dest!: save_Some)

lemma repoint_error: "repoint fault n url dflt s fs = (Inl e, fs') \<Longrightarrow> error_in store_codes e"
  by (auto simp: repoint_def Let_def error_in_def store_codes_def split: if_splits prod.splits option.splits dest!: save_Some)

lemma load_with_Inl:
  "load_with (Inl e, fs) = (Inl e', fs') \<Longrightarrow> error_in store_codes e \<Longrightarrow>
     as_failure e' \<in> Some ` set store_codes"
  by (auto simp: load_with_def fallback_def wrap_def error_in_def store_codes_def split: option.splits)

lemma load_with_simps:
  "load_with (Inr s, fs) = (Inr s', fs') \<longleftrightarrow> s' = s \<and> fs' = fs"
  "load_with (Inr s, fs) = (Inl e, fs') \<longleftrightarrow> False"
  "load_with (Inl e, fs) = (Inr s', fs') \<longleftrightarrow> False"
  by (auto simp: load_with_def)

lemma open_state_ok: "open_state perm n content = Inr s \<Longrightarrow> read_state content = Inr s \<and> state_valid s"
  by (auto simp: open_state_def read_state_def guard_def split: if_splits option.splits)

text \<open>The identity an operator asked for, where one was.\<close>

definition identity_matches :: "string \<Rightarrow> string \<Rightarrow> state \<Rightarrow> bool" where
  "identity_matches req_mac req_serial s =
     ((if req_mac = [] then True else equal_fold (normalize_mac req_mac) (i_mac (st_identity s))) \<and>
      (if req_serial = [] then True else req_serial = i_serial (st_identity s)))"

lemma check_identity_ok: "check_identity m sr s = Inr s' \<Longrightarrow> s' = s \<and> identity_matches m sr s"
  by (auto simp: check_identity_def identity_matches_def guard_def split: if_splits)

lemma fresh_pending [simp]:
  "ad_adopted (st_adoption (fresh_state m sr url dflt rm ru)) = False"
  "ad_url (st_adoption (fresh_state m sr url dflt rm ru)) = url"
  "ad_nonces (st_adoption (fresh_state m sr url dflt rm ru)) = []"
  by (simp_all add: fresh_state_def Let_def)

lemma fresh_matches: "identity_matches m sr (fresh_state m sr url dflt rm ru)"
  by (simp add: identity_matches_def fresh_state_def Let_def)

definition loaded_from :: "probe \<Rightarrow> string \<Rightarrow> state \<Rightarrow> bool" where
  "loaded_from pr url s =
     (case pr of
        Missing \<Rightarrow> ad_adopted (st_adoption s) = False \<and> ad_url (st_adoption s) = url
      | Present perm n content \<Rightarrow>
          (case read_state content of
             Inr old \<Rightarrow> st_identity s = st_identity old \<and>
               (if ad_adopted (st_adoption old) then s = old else s = old \<or> s = set_url url old)
           | Inl e \<Rightarrow> False)
      | _ \<Rightarrow> False)"

text \<open>
  The state a start may write: the fresh one, or the stored one with the configured origin; and what
  a start that returns \<open>s\<close> leaves of the file: nothing is written where \<open>s\<close> is what was read.
\<close>

definition written_state :: "probe \<Rightarrow> string \<Rightarrow> string \<Rightarrow> string \<Rightarrow> string \<Rightarrow> byte list \<Rightarrow> byte list \<Rightarrow> state option" where
  "written_state pr m sr url dflt rm ru =
     (case pr of
        Missing \<Rightarrow> Some (fresh_state m sr url dflt rm ru)
      | Present perm n content \<Rightarrow> (case read_state content of Inr old \<Rightarrow> Some (set_url url old) | Inl e \<Rightarrow> None)
      | _ \<Rightarrow> None)"

definition read_from :: "probe \<Rightarrow> state \<Rightarrow> bool" where
  "read_from pr s \<longleftrightarrow> (case pr of Present perm n content \<Rightarrow> read_state content = Inr s | _ \<Rightarrow> False)"

definition file_after :: "probe \<Rightarrow> state \<Rightarrow> file_system \<Rightarrow> file_system \<Rightarrow> bool" where
  "file_after pr s fs fs' \<longleftrightarrow>
     read_from pr s \<and> fs' = fs \<or> fs_target fs' = Some (state_text s) \<and> fs_private fs'"

definition file_refused :: "state option \<Rightarrow> string \<Rightarrow> string \<Rightarrow> file_system \<Rightarrow> file_system \<Rightarrow> bool" where
  "file_refused w m sr fs fs' \<longleftrightarrow>
     fs_target fs' = fs_target fs \<or>
     (\<exists>s. w = Some s \<and> state_valid s \<and> identity_matches m sr s \<and> fs_target fs' = Some (state_text s))"

lemma create_state_file:
  "create_state fault n s fs = (Inr s', fs') \<Longrightarrow> fs_target fs' = Some (state_text s) \<and> fs_private fs'"
  "create_state fault n s fs = (Inl e, fs') \<Longrightarrow>
     fs_target fs' = fs_target fs \<or> (state_valid s \<and> fs_target fs' = Some (state_text s))"
  by (auto simp: create_state_def dest: save_None save_private save_Some_file split: if_splits prod.splits option.splits)

lemma repoint_file:
  "repoint fault n url dflt s fs = (Inr s', fs') \<Longrightarrow>
     (s' = s \<and> fs' = fs) \<or> (fs_target fs' = Some (state_text s') \<and> fs_private fs')"
  "repoint fault n url dflt s fs = (Inl e, fs') \<Longrightarrow>
     fs_target fs' = fs_target fs \<or> (state_valid (set_url url s) \<and> fs_target fs' = Some (state_text (set_url url s)))"
  by (auto simp: repoint_def Let_def dest: save_None save_private save_Some_file split: if_splits prod.splits option.splits)

lemma load_or_create_cases:
  assumes "load_or_create fault n pr m sr url dflt rm ru fs = (r, fs')"
  obtains (refused) e where "r = Inl (the (fallback StateInvalid (Some e)))" "fs' = fs" "error_in store_codes e"
  | (created) q where "pr = Missing" "create_state fault n (fresh_state m sr url dflt rm ru) fs = (q, fs')" "load_with (q, fs') = (r, fs')"
  | (loaded) perm k content old q where "pr = Present perm k content" "read_state content = Inr old" "state_valid old"
      "identity_matches m sr old" "repoint fault n url dflt old fs = (q, fs')" "load_with (q, fs') = (r, fs')"
proof (cases pr)
  case Missing
  obtain q fs1 where q: "create_state fault n (fresh_state m sr url dflt rm ru) fs = (q, fs1)" by fastforce
  then have l: "load_with (q, fs1) = (r, fs')" using assms Missing by (simp add: load_or_create_def)
  moreover have "fs1 = fs'" using l by (auto simp: load_with_def split: sum.splits)
  ultimately show ?thesis using created Missing q by blast
next
  case (Present perm k content)
  show ?thesis
  proof (cases "open_state perm k content")
    case (Inl e)
    then show ?thesis using assms Present Inl open_state_error [OF Inl] refused [of e] by (auto simp: load_or_create_def load_with_def)
  next
    case (Inr old)
    note o = open_state_ok [OF Inr]
    show ?thesis
    proof (cases "check_identity m sr old")
      case (Inl e)
      then show ?thesis using assms Present Inr Inl check_identity_error [OF Inl] refused [of e] by (auto simp: load_or_create_def load_with_def)
    next
      case i: (Inr old')
      note i' = check_identity_ok [OF i]
      obtain q fs1 where q: "repoint fault n url dflt old fs = (q, fs1)" by fastforce
      then have l: "load_with (q, fs1) = (r, fs')" using assms Present Inr i i' by (simp add: load_or_create_def)
      moreover have "fs1 = fs'" using l by (auto simp: load_with_def split: sum.splits)
      ultimately show ?thesis using loaded Present o i' q by blast
    qed
  qed
qed (use assms refused in \<open>auto simp: load_or_create_def load_with_def error_in_def store_codes_def split: if_splits\<close>)

lemma load_or_create_result:
  "case load_or_create fault n pr m sr url dflt rm ru fs of
     (Inl e, fs') \<Rightarrow> as_failure e \<in> Some ` set store_codes \<and> file_refused (written_state pr m sr url dflt rm ru) m sr fs fs'
   | (Inr s, fs') \<Rightarrow> state_valid s \<and> identity_matches m sr s \<and> loaded_from pr url s \<and> file_after pr s fs fs'"
proof -
  obtain r fs' where r: "load_or_create fault n pr m sr url dflt rm ru fs = (r, fs')" by fastforce
  let ?goal = "case r of
     Inl e \<Rightarrow> as_failure e \<in> Some ` set store_codes \<and> file_refused (written_state pr m sr url dflt rm ru) m sr fs fs'
   | Inr s \<Rightarrow> state_valid s \<and> identity_matches m sr s \<and> loaded_from pr url s \<and> file_after pr s fs fs'"
  from r have ?goal
  proof (cases rule: load_or_create_cases)
    case (refused e)
    then have "load_with (Inl e, fs) = (r, fs)" by (simp add: load_with_def)
    then show ?thesis using refused load_with_Inl [of e fs _ fs] by (simp add: file_refused_def)
  next
    case (created q)
    show ?thesis
    proof (cases q)
      case (Inl e)
      then obtain e' where e': "r = Inl e'" using created(3) by (cases r) (simp_all add: load_with_simps)
      have "as_failure e' \<in> Some ` set store_codes"
        using created(2,3) load_with_Inl create_state_error unfolding Inl e' by blast
      then show ?thesis
        using create_state_file(2) [of fault n _ fs e fs'] created(1,2) fresh_matches [of m sr url dflt rm ru]
        by (auto simp: Inl e' file_refused_def written_state_def)
    next
      case (Inr s)
      then have s: "r = Inr s" using created(3) by (simp add: load_with_def)
      note c = created(2) [unfolded Inr]
      show ?thesis using create_state_ok [OF c] create_state_file(1) [OF c] fresh_matches [of m sr url dflt rm ru] created(1)
        by (simp add: s file_after_def loaded_from_def)
    qed
  next
    case (loaded perm k content old q)
    have old: "identity_matches m sr (set_url url old)" using loaded(4) by (simp add: identity_matches_def set_url_def)
    show ?thesis
    proof (cases q)
      case (Inl e)
      then obtain e' where e': "r = Inl e'" using loaded(6) by (cases r) (simp_all add: load_with_simps)
      have "as_failure e' \<in> Some ` set store_codes"
        using loaded(5,6) load_with_Inl repoint_error unfolding Inl e' by blast
      then show ?thesis
        using repoint_file(2) [of fault n url dflt old fs e fs'] loaded(1,2,5) old
        by (auto simp: Inl e' file_refused_def written_state_def)
    next
      case (Inr s)
      then have s: "r = Inr s" using loaded(6) by (simp add: load_with_def)
      note c = loaded(5) [unfolded Inr]
      have "file_after pr s fs fs'" using repoint_file(1) [OF c] loaded(1,2) by (auto simp: file_after_def read_from_def)
      then show ?thesis using repoint_ok [OF c loaded(3)] loaded(1,2,4)
        by (auto simp: s loaded_from_def identity_matches_def split: if_splits)
    qed
  qed
  then show ?thesis by (cases r) (simp_all add: r)
qed

text \<open>
  C22: \<open>LoadOrCreate\<close> returns only a valid state with the identity the operator asked for,
  and never another identity than the stored one: an adopted state comes back as it was
  stored, a pending one with at most the configured origin in place of the stored one, and a
  state is created only where the file is missing.  The file then holds exactly the state that
  is returned, readable by the owner only, or nothing was written and that state was read from it.
  Every failure carries one of the five codes of the store, and leaves the content of the file as it
  was, or, where only the end of the write failed, the complete text of the new state of that identity.
\<close>

theorem load_or_create_checked:
  "case load_or_create fault n pr m sr url dflt rm ru fs of
     (Inl e, fs') \<Rightarrow> as_failure e \<in> Some ` set store_codes \<and> file_refused (written_state pr m sr url dflt rm ru) m sr fs fs'
   | (Inr s, fs') \<Rightarrow> state_valid s \<and> identity_matches m sr s \<and> loaded_from pr url s \<and> file_after pr s fs fs'"
  by (rule load_or_create_result)


text \<open>What a later start finds where the target exists.\<close>

definition probe_of :: "file_system \<Rightarrow> probe" where
  "probe_of fs = (case fs_target fs of None \<Rightarrow> Missing | Some c \<Rightarrow> Present 384 (length c) c)"

lemma state_text_nonempty: "0 < length (state_text s)"
  by (simp add: state_text_def)

lemma check_identity_matches: "identity_matches m sr s \<Longrightarrow> check_identity m sr s = Inr s"
  by (auto simp: check_identity_def identity_matches_def split: if_splits)

text \<open>
  The identity survives a restart: a start that created the state is followed by one
  with the same arguments that reads the same state back and writes nothing, whatever new
  random bytes it draws and whichever system calls would fail.
\<close>

theorem restart_keeps_identity:
  assumes "load_or_create fault n Missing m sr url dflt rm ru fs = (Inr s, fs')"
    and "list_all valid_utf8 (state_texts s)" "length (state_text s) \<le> max_state_bytes"
  shows "load_or_create fault' n' (probe_of fs') m sr url dflt rm' ru' fs' = (Inr s, fs')"
proof -
  obtain r fs1 where c: "create_state fault n (fresh_state m sr url dflt rm ru) fs = (r, fs1)" by fastforce
  then have "r = Inr s" "fs1 = fs'" using assms(1)
    by (auto simp: load_or_create_def load_with_def split: sum.splits)
  then have s: "s = fresh_state m sr url dflt rm ru" "state_valid s" "fs_target fs' = Some (state_text s)"
    using create_state_ok c by blast+
  have "open_state 384 (length (state_text s)) (state_text s) = Inr s"
    using read_state_text [OF s(2) assms(2,3)] assms(3) state_text_nonempty [of s] by (simp add: open_state_def)
  moreover have "check_identity m sr s = Inr s"
    using fresh_matches s(1) by (simp add: check_identity_matches)
  moreover have "repoint fault' n' url dflt s fs' = (Inr s, fs')"
    using s(1) by (simp add: repoint_def)
  ultimately show ?thesis using s(3) by (simp add: load_or_create_def load_with_def probe_of_def)
qed

section \<open>A fresh identity\<close>

lemma hex_digit_class: "n < 16 \<Longrightarrow> in_range 48 57 (hex_digit n) \<or> in_range 97 102 (hex_digit n)"
  by (auto simp: hex_digit_def in_range_def cbyte_def)

lemma hex_encode_class: "c \<in> set (hex_encode bs) \<Longrightarrow> in_range 48 57 c \<or> in_range 97 102 c"
proof (induction bs)
  case (Cons b bs)
  have "unat b div 16 < 16" "unat b mod 16 < 16" using unat_byte [of b] by auto
  moreover have "c = hex_digit (unat b div 16) \<or> c = hex_digit (unat b mod 16) \<or> c \<in> set (hex_encode bs)"
    using Cons.prems by simp
  ultimately show ?case using Cons.IH hex_digit_class by blast
qed simp

lemma hex_encode_no_dash: "CHR ''-'' \<notin> set (hex_encode bs)"
  using hex_encode_class [of "CHR ''-''" bs] by (auto simp: in_range_def cbyte_def)

lemma remove_absent: "a \<notin> set s \<Longrightarrow> remove_char a s = s"
  by (induction s) (auto simp: remove_char_def)

lemma valid_uuid_text:
  assumes "length b = 16"
  shows "valid_uuid (uuid_text b)"
proof -
  let ?h = "hex_encode b"
  have part: "filter (\<lambda>c. c \<noteq> CHR ''-'') x = x" if "set x \<subseteq> set ?h" for x
    using that hex_encode_no_dash [of b] by (intro filter_True) auto
  have sub: "set (take n (drop m ?h)) \<subseteq> set ?h" "set (take n ?h) \<subseteq> set ?h" "set (drop n ?h) \<subseteq> set ?h" for n m
    by (auto dest: in_set_takeD in_set_dropD)
  have "remove_char (CHR ''-'') (uuid_text b) =
      take 8 ?h @ take 4 (drop 8 ?h) @ take 4 (drop 12 ?h) @ take 4 (drop 16 ?h) @ drop 20 ?h"
    by (simp only: uuid_text_def Let_def remove_char_def filter_append filter.simps part [OF sub(1)] part [OF sub(2)]
        part [OF sub(3)] if_False simp_thms)
  also have "\<dots> = ?h"
    using append_take_drop_id [of 8 ?h] append_take_drop_id [of 4 "drop 8 ?h"]
      append_take_drop_id [of 4 "drop 12 ?h"] append_take_drop_id [of 4 "drop 16 ?h"] by simp
  finally have "hex_decode (remove_char (CHR ''-'') (uuid_text b)) = Some b" by simp
  moreover have "length (uuid_text b) = 36" "uuid_text b ! 8 = CHR ''-''" "uuid_text b ! 13 = CHR ''-''"
      "uuid_text b ! 18 = CHR ''-''" "uuid_text b ! 23 = CHR ''-''"
    using assms by (simp_all add: uuid_text_def Let_def nth_append)
  ultimately show ?thesis using assms by (simp add: valid_uuid_def)
qed

lemma mac_text_class: "c \<in> set (mac_text bs) \<Longrightarrow> in_range 48 57 c \<or> in_range 97 102 c \<or> c = CHR '':''"
proof (induction bs rule: mac_text.induct)
  case (2 b)
  then show ?case using hex_encode_class [of c "[b]"] by (auto simp del: hex_encode_simps)
next
  case (3 b c' bs)
  then show ?case using hex_encode_class [of c "[b]"] by (auto simp del: hex_encode_simps)
qed simp

lemma serial_text:
  assumes "length bs = 6"
  shows "safe_text (map upper_char (remove_char (CHR '':'') (mac_text bs))) 128"
proof -
  let ?t = "remove_char (CHR '':'') (mac_text bs)"
  have cl: "in_range 48 57 c \<or> in_range 97 102 c" if "c \<in> set ?t" for c
    using that mac_text_class [of c bs] by (auto simp: remove_char_def)
  then have "list_all (\<lambda>c. \<not> (cbyte c < 32 \<or> cbyte c = 127)) (map upper_char ?t)"
    by (fastforce simp: list_all_iff upper_char_def in_range_def cbyte_def)
  moreover have "length ?t \<le> 17"
  proof -
    have "length (mac_text bs) = 17" using length_mac_text [of bs] assms by (cases bs) auto
    then show ?thesis using length_filter_le [of "\<lambda>c. c \<noteq> CHR '':''" "mac_text bs"] by (simp add: remove_char_def)
  qed
  moreover have "?t \<noteq> []"
  proof -
    obtain b cs where "bs = b # cs" using assms by (cases bs) auto
    then obtain u where "mac_text bs = hex_digit (unat b div 16) # u" by (cases cs) auto
    moreover have "hex_digit (unat b div 16) \<noteq> CHR '':''" using hex_digit_neq unat_byte [of b] by auto
    ultimately show ?thesis by (simp add: remove_char_def)
  qed
  ultimately show ?thesis by (simp add: safe_text_def no_control_bytes)
qed

lemma fresh_valid:
  assumes "length rm = 6" "length ru = 16" "inform_url_parts_ok url" "hex_decode dflt = Some key" "length key = 16"
  shows "state_valid (fresh_state [] [] url dflt rm ru) \<and>
    (\<exists>hw. parse_mac (i_mac (st_identity (fresh_state [] [] url dflt rm ru))) = Some hw \<and>
      and (hw ! 0) 3 = 2)"
proof -
  obtain r0 rs where rm: "rm = r0 # rs" "length rs = 5" using assms(1) by (cases rm) auto
  let ?hw = "(and (or r0 2) 0xFE) # rs"
  have m3: "and w 3 = take_bit 2 w" for w :: byte
    by (simp add: take_bit_eq_mask mask_eq_exp_minus_1)
  have bits: "and (and (or r0 2) 0xFE) 1 = (0::byte)" "and (and (or r0 2) 0xFE) 3 = (2::byte)"
    by (simp_all add: m3 take_bit_and take_bit_or and_one_eq mod2_eq_if even_and_iff)
  have mac: "random_mac rm = mac_text ?hw" using rm by (simp add: random_mac_def)
  have p: "parse_mac (mac_text ?hw) = Some ?hw" by (rule parse_mac_text) (use rm in \<open>simp add: mac_length_ok_def\<close>)
  have "valid_uuid (random_uuid ru)" using assms(2) by (simp add: random_uuid_def valid_uuid_text)
  moreover have "safe_text ''0'' 128" by (simp add: safe_text_def no_control_bytes cbyte_def)
  moreover have "random_uuid ru \<noteq> []" by (simp add: random_uuid_def uuid_text_def Let_def)
  moreover note s = serial_text [of ?hw]
  ultimately show ?thesis using assms rm p bits mac
    by (auto simp: state_valid_def fresh_state_def Let_def valid_mac_text_def safe_text_def)
qed

text \<open>
  A first start without a configured identity invents one that is always acceptable:
  for any random bytes the MAC is a locally administered unicast address, the serial and the
  UUID are well formed, and the new state is valid, given a valid origin and default key.
\<close>

theorem fresh_identity:
  assumes "length rm = 6" "length ru = 16" "inform_url_parts_ok url" "hex_decode dflt = Some key" "length key = 16"
  shows "state_valid (fresh_state [] [] url dflt rm ru) \<and>
    (\<exists>hw. parse_mac (i_mac (st_identity (fresh_state [] [] url dflt rm ru))) = Some hw \<and>
      and (hw ! 0) 3 = 2)"
  by (rule fresh_valid [OF assms])

text \<open>A concrete first start.\<close>

definition example_key :: string where "example_key = ''ba86f2bbe107c7c57eb5f2690775c712''"
definition example_url :: string where "example_url = ''http://unifi:8080/inform''"

definition example_state :: state where
  "example_state = fresh_state [] [] example_url example_key [1, 2, 3, 4, 5, 0xAB] (replicate 16 7)"

lemma example_parts:
  "inform_url_parts_ok example_url" "hex_decode example_key =
     Some [0xba, 0x86, 0xf2, 0xbb, 0xe1, 0x07, 0xc7, 0xc5, 0x7e, 0xb5, 0xf2, 0x69, 0x07, 0x75, 0xc7, 0x12]"
  by code_simp+

lemma example_valid: "state_valid example_state"
  unfolding example_state_def by (rule conjunct1 [OF fresh_valid [OF _ _ example_parts]]) simp_all

lemma example_texts:
  "state_texts example_state = [''02:02:03:04:05:ab'', ''0202030405AB'', ''07070707-0707-4707-8707-070707070707'',
     example_key, example_url, ''0'']"
  by code_simp

lemma example_fields:
  "i_mac (st_identity example_state) = ''02:02:03:04:05:ab''" "i_serial (st_identity example_state) = ''0202030405AB''"
  "i_guid (st_identity example_state) = ''07070707-0707-4707-8707-070707070707''"
  "ad_key (st_adoption example_state) = example_key" "ad_url (st_adoption example_state) = example_url"
  "ad_cfg (st_adoption example_state) = ''0''" "ad_nonces (st_adoption example_state) = []"
  using example_texts by (simp_all add: state_texts_def Let_def)

lemma quote_plain: "list_all (\<lambda>c. ascii c \<and> quote_char c = [c]) s \<Longrightarrow> json_body s = s"
  by (induction s) (auto simp: json_body_def json_segment_def ascii_def)

lemma example_json_size:
  "length (json_quote (i_mac (st_identity example_state))) = 19" "length (json_quote (i_serial (st_identity example_state))) = 14"
  "length (json_quote (i_guid (st_identity example_state))) = 38" "length (json_quote example_key) = 34"
  "length (json_quote example_url) = 26" "length (json_quote ''0'') = 3"
  unfolding example_fields example_key_def example_url_def
  by (simp_all add: json_quote_def quote_plain quote_char_def ascii_def cbyte_def)

lemma length_json_name: "list_all (\<lambda>c. ascii c \<and> quote_char c = [c]) s \<Longrightarrow> length (json_quote s) = length s + 2"
  by (simp add: json_quote_def quote_plain)

lemma length_int_one: "length (int_text 1) = 1"
  by code_simp

lemma example_size: "list_all valid_utf8 (state_texts example_state)" "length (state_text example_state) \<le> max_state_bytes"
proof -
  show "list_all valid_utf8 (state_texts example_state)"
    by (simp add: example_texts valid_utf8_all_ascii example_key_def example_url_def ascii_def cbyte_def)
  have "st_version example_state = 1"
    by (simp add: example_state_def fresh_state_def Let_def current_version_def)
  then show "length (state_text example_state) \<le> max_state_bytes"
    using example_json_size
    by (simp add: state_text_def marshal_indent_def state_json_def identity_json_def adoption_json_def
        example_fields length_json_name length_int_one quote_char_def ascii_def cbyte_def max_state_bytes_def)
qed

theorem fresh_identity_witness:
  "state_valid (fresh_state [] [] example_url example_key [1, 2, 3, 4, 5, 0xAB] (replicate 16 7))"
  by (rule conjunct1 [OF fresh_identity [OF _ _ example_parts]]) simp_all


definition empty_fs :: file_system where
  "empty_fs = \<lparr>fs_target = None, fs_private = False, fs_temp = None, fs_synced = False, fs_left = []\<rparr>"

definition example_fs :: file_system where
  "example_fs = \<lparr>fs_target = Some (state_text example_state), fs_private = True, fs_temp = None, fs_synced = True, fs_left = []\<rparr>"

lemma example_start:
  "load_or_create (\<lambda>_. False) 0 Missing [] [] example_url example_key [1, 2, 3, 4, 5, 0xAB] (replicate 16 7) empty_fs =
     (Inr example_state, example_fs)"
proof -
  have "save (\<lambda>_. False) 0 example_state empty_fs = (None, example_fs)"
    by (simp add: save_def example_valid save_private_bytes_def stages_def empty_fs_def example_fs_def)
  then show ?thesis
    by (simp add: load_or_create_def load_with_def create_state_def example_valid flip: example_state_def)
qed

theorem restart_keeps_identity_witness:
  "load_or_create (\<lambda>_. True) 0 (probe_of example_fs) [] [] example_url example_key [9, 9, 9, 9, 9, 9] (replicate 16 3)
     example_fs = (Inr example_state, example_fs)"
  by (rule restart_keeps_identity [OF example_start example_size])

end
