(* ===== verification/BoundedWindow.thy ===== *)
theory BoundedWindow
  imports Prelude
begin

text \<open>
  The interface of a replay window: it remembers the values it accepted, the oldest goes
  when the window is full, and a value it holds is refused.  The laws are what the gateway
  relies on; the lemmas say how long an accepted value is protected.
\<close>

text \<open>Offering values one after the other: a value the window holds is refused.\<close>

fun offer :: "('n \<Rightarrow> 'w \<Rightarrow> 'w) \<Rightarrow> ('w \<Rightarrow> 'n \<Rightarrow> bool) \<Rightarrow> 'n list \<Rightarrow> 'w \<Rightarrow> 'n list \<times> 'w" where
  "offer add has [] w = ([], w)"
| "offer add has (n # ns) w =
     (if has w n then offer add has ns w
      else let (acc, w') = offer add has ns (add n w) in (n # acc, w'))"

locale bounded_window =
  fixes add :: "'n \<Rightarrow> 'w \<Rightarrow> 'w"
    and has :: "'w \<Rightarrow> 'n \<Rightarrow> bool"
    and items :: "'w \<Rightarrow> 'n list"
    and inv :: "'w \<Rightarrow> bool"
    and good :: "'n \<Rightarrow> bool"
    and limit :: nat
  assumes limit_pos: "0 < limit"
    and has_iff: "inv w \<Longrightarrow> good n \<Longrightarrow> has w n \<longleftrightarrow> n \<in> set (items w)"
    and inv_items: "inv w \<Longrightarrow> distinct (items w) \<and> length (items w) \<le> limit"
    and inv_add: "inv w \<Longrightarrow> good n \<Longrightarrow> \<not> has w n \<Longrightarrow> inv (add n w)"
    and items_add: "inv w \<Longrightarrow> good n \<Longrightarrow> \<not> has w n \<Longrightarrow>
      items (add n w) = drop (if length (items w) = limit then 1 else 0) (items w) @ [n]"
begin

lemma added_is_held: "inv w \<Longrightarrow> good n \<Longrightarrow> \<not> has w n \<Longrightarrow> has (add n w) n"
  using has_iff [OF inv_add, of w n n] items_add [of w n] by simp

lemma offer_inv: "inv w \<Longrightarrow> \<forall>n \<in> set ns. good n \<Longrightarrow> inv (snd (offer add has ns w))"
  by (induction ns arbitrary: w) (auto simp: split_beta Let_def inv_add)

lemma held_while_room:
  assumes "inv w" "good n" "items w = xs @ n # ys" "length ys + length ns < limit" "\<forall>m \<in> set ns. good m"
  shows "has (snd (offer add has ns w)) n"
  using assms
proof (induction ns arbitrary: w xs ys)
  case Nil
  then show ?case by (simp add: has_iff)
next
  case (Cons m ns)
  show ?case
  proof (cases "has w m")
    case True
    then show ?thesis using Cons by simp
  next
    case False
    have m: "good m" using Cons.prems(5) by simp
    have "items (add m w) = drop (if length (items w) = limit then 1 else 0) xs @ n # ys @ [m]"
    proof (cases "length (items w) = limit")
      case True
      then obtain x xs' where "xs = x # xs'" using Cons.prems(3,4) by (cases xs) auto
      then show ?thesis using True Cons.prems(3) items_add [OF Cons.prems(1) m \<open>\<not> has w m\<close>] by simp
    next
      case False
      then show ?thesis using Cons.prems(3) items_add [OF Cons.prems(1) m \<open>\<not> has w m\<close>] by simp
    qed
    then have "has (snd (offer add has ns (add m w))) n"
      using Cons.prems(2,4,5) inv_add [OF Cons.prems(1) m False]
      by (intro Cons.IH [of "add m w" _ "ys @ [m]"]) simp_all
    then show ?thesis using False by (simp add: split_beta Let_def)
  qed
qed

text \<open>A value just accepted is refused while fewer than \<open>limit\<close> others have been offered.\<close>

lemma accepted_is_protected:
  assumes "inv w" "good n" "\<not> has w n" "length ns < limit" "\<forall>m \<in> set ns. good m"
  shows "has (snd (offer add has ns (add n w))) n"
proof -
  have "items (add n w) = drop (if length (items w) = limit then 1 else 0) (items w) @ n # []"
    using items_add assms by simp
  then show ?thesis using assms inv_add by (intro held_while_room [where ys = "[]"]) simp_all
qed

lemma bounded_after_offers:
  "inv w \<Longrightarrow> \<forall>m \<in> set ns. good m \<Longrightarrow> length (items (snd (offer add has ns w))) \<le> limit"
  using inv_items offer_inv by blast

end

end
