(* ===== verification/Receipts.thy ===== *)
theory Receipts
  imports StateFacts BoundedWindow
begin

text \<open>
  The receipts for reports the gateway does not act on: the strict classifiers of
  \<open>internal/unifi/inform/receipt.go\<close> and \<open>firmware.go\<close>, the version syntax of
  \<open>internal/unifi/firmware/version.go\<close>, and the private receipt files of
  \<open>internal/state/receipt.go\<close> and \<open>firmware.go\<close> with their replay windows.  A receipt's
  binding is an HMAC the model takes as a parameter.
\<close>

section \<open>Version text\<close>

definition version_part_ok :: "string \<Rightarrow> bool" where
  "version_part_ok part \<longleftrightarrow>
     \<not> (length part = 0 \<or> 10 < length part \<or> 1 < length part \<and> hd part = CHR ''0'') \<and>
     list_all (in_range 48 57) part \<and> dec_value 0 part < 2 ^ 32"

definition valid_version :: "string \<Rightarrow> bool" where
  "valid_version v =
     (if 43 < length v then False
      else let parts = split_char (CHR ''.'') v
           in (length parts = 3 \<or> length parts = 4) \<and> list_all version_part_ok parts)"

section \<open>Reports as one flat object of strings\<close>

text \<open>The token loop: exact names, each at most once, string values only.\<close>

fun flat_members :: "string list \<Rightarrow> string list \<Rightarrow> (string \<times> json) list \<Rightarrow> (string \<times> string) list option" where
  "flat_members allowed seen [] = Some []"
| "flat_members allowed seen ((k, JStr v) # ms) =
     (if k \<notin> set allowed \<or> k \<in> set seen then None
      else map_option (\<lambda>fs. (k, v) # fs) (flat_members allowed (k # seen) ms))"
| "flat_members allowed seen ((k, _) # ms) = None"

definition flat_object :: "nat \<Rightarrow> string list \<Rightarrow> string \<Rightarrow> (string \<times> string) list option" where
  "flat_object limit allowed body =
     (if length body = 0 \<or> limit < length body \<or> \<not> valid_utf8 body then None
      else (case parse_json body of
              Some (JObj ms) \<Rightarrow> flat_members allowed [] ms
            | _ \<Rightarrow> None))"

text \<open>\<open>fields[name]\<close> of a Go map: empty where the name is absent.\<close>

definition field_of :: "(string \<times> string) list \<Rightarrow> string \<Rightarrow> string" where
  "field_of fs name = (case map_of fs name of Some v \<Rightarrow> v | None \<Rightarrow> [])"

definition optional_field :: "(string \<times> string) list \<Rightarrow> string \<Rightarrow> (string \<Rightarrow> bool) \<Rightarrow> bool" where
  "optional_field fs name ok = (case map_of fs name of Some v \<Rightarrow> ok v | None \<Rightarrow> True)"

definition stamp_ok :: "string \<Rightarrow> bool" where
  "stamp_ok v \<longleftrightarrow> length v = 13 \<and> list_all (in_range 48 57) v"

section \<open>Configuration receipts\<close>

record config_receipt =
  cr_version :: string
  cr_unsupported :: "string list"

definition report_fields :: "string list" where
  "report_fields = [''_type'', ''mgmt_cfg'', ''system_cfg'', ''cfgversion'', ''server_time_in_utc'', ''blocked_sta'']"

definition inert_settings :: "string list" where
  "inert_settings = [''capability'', ''led_enabled'', ''mgmt_url'', ''report_crash'', ''selfrun_guest_mode'', ''stun_url'']"

definition management_char :: "char \<Rightarrow> bool" where
  "management_char c \<longleftrightarrow>
     \<not> (cbyte c < 32 \<and> c \<noteq> CHR 0x0A \<and> c \<noteq> CHR 0x0D \<and> c \<noteq> CHR 0x09 \<or> 126 < cbyte c)"

definition blank_tab :: "char list" where "blank_tab = [CHR '' '', CHR 0x09]"

text \<open>The loop over the lines of the management text: the names seen and the version so far.\<close>

fun receipt_lines :: "string set \<Rightarrow> string \<Rightarrow> string list \<Rightarrow> string option" where
  "receipt_lines seen version [] = Some version"
| "receipt_lines seen version (raw # rest) =
     (if 255 < length raw then None
      else let line = trim_set blank_tab raw in
        if line = [] then receipt_lines seen version rest
        else case cut (CHR ''='') line of
          None \<Rightarrow> None
        | Some (n, v) \<Rightarrow>
            (let name = trim_set blank_tab n; val = trim_set blank_tab v in
             if \<not> valid_token name 64 \<or> name \<in> seen \<or> CHR 0x0D \<in> set val \<or> CHR 0x09 \<in> set val then None
             else if name = ''cfgversion'' then
               (if \<not> valid_config_value val 128 then None
                else receipt_lines (insert name seen) val rest)
             else if name = ''use_aes_gcm'' then
               (if val \<noteq> ''true'' then None else receipt_lines (insert name seen) version rest)
             else if name \<in> set inert_settings then receipt_lines (insert name seen) version rest
             else None))"

definition management_version :: "string \<Rightarrow> string option" where
  "management_version m =
     (if length m = 0 \<or> 65536 < length m \<or> \<not> list_all management_char m then None
      else let ls = split_char (CHR 0x0A) (crlf_to_lf m) in
        if 256 < length ls then None
        else case receipt_lines {} [] ls of None \<Rightarrow> None | Some v \<Rightarrow> if v = [] then None else Some v)"

definition classify_config_receipt :: "string \<Rightarrow> config_receipt option" where
  "classify_config_receipt body =
     (case flat_object max_controller_response report_fields body of
        None \<Rightarrow> None
      | Some fs \<Rightarrow>
          if field_of fs ''_type'' \<noteq> ''setparam'' \<or> 65536 < length (field_of fs ''system_cfg'') then None
          else (case management_version (field_of fs ''mgmt_cfg'') of
             None \<Rightarrow> None
           | Some version \<Rightarrow>
               if \<not> optional_field fs ''cfgversion'' (\<lambda>outer. outer = version) then None
               else if field_of fs ''blocked_sta'' \<noteq> [] then None
               else if \<not> optional_field fs ''server_time_in_utc'' stamp_ok then None
               else Some \<lparr>cr_version = version,
                 cr_unsupported = unsupported_controller_settings (field_of fs ''system_cfg'')\<rparr>))"

section \<open>Firmware targets\<close>

definition firmware_fields :: "string list" where
  "firmware_fields = [''_type'', ''version'', ''url'', ''server_time_in_utc'', ''md5sum'', ''sha256sum'']"

definition digest_ok :: "nat \<Rightarrow> string \<Rightarrow> bool" where
  "digest_ok n v \<longleftrightarrow> length v = n \<and> hex_decode v \<noteq> None"

definition url_text_ok :: "string \<Rightarrow> bool" where
  "url_text_ok v \<longleftrightarrow> \<not> (length v = 0 \<or> 2048 < length v) \<and> list_all (\<lambda>c. \<not> (cbyte c < 32 \<or> 126 < cbyte c)) v"

definition classify_firmware_target :: "string \<Rightarrow> string option" where
  "classify_firmware_target body =
     (case flat_object 16384 firmware_fields body of
        None \<Rightarrow> None
      | Some fs \<Rightarrow>
          if field_of fs ''_type'' \<noteq> ''upgrade'' \<or> \<not> valid_version (field_of fs ''version'') then None
          else if \<not> optional_field fs ''url'' url_text_ok then None
          else if \<not> optional_field fs ''md5sum'' (digest_ok 32) \<or> \<not> optional_field fs ''sha256sum'' (digest_ok 64) then None
          else if \<not> optional_field fs ''server_time_in_utc'' stamp_ok then None
          else Some (field_of fs ''version''))"

section \<open>Receipt files\<close>

definition receipt_schema :: int where "receipt_schema = 1"
definition max_receipt_bytes :: nat where "max_receipt_bytes = 16384"

record receipt =
  r_schema :: int
  r_epoch :: string
  r_version :: string
  r_nonces :: "string list"

type_synonym nonce = "byte list"

text \<open>What the binding of a receipt is computed from; \<open>mac\<close> is HMAC-SHA256.\<close>

definition receipt_context :: "state \<Rightarrow> string \<Rightarrow> string" where
  "receipt_context s carrier =
     (let i = st_identity s; a = st_adoption s in
      marshal (JArr (map JStr [''n2u-config-receipt-v1'', i_mac i, i_serial i, i_guid i, ad_url a, ''gcm'', ad_cfg a, carrier])))"

definition firmware_context :: "state \<Rightarrow> string \<Rightarrow> string \<Rightarrow> string" where
  "firmware_context s carrier profile =
     (let i = st_identity s; a = st_adoption s in
      marshal (JArr (map JStr [''n2u-reported-firmware-v1'', i_mac i, i_serial i, i_guid i, ad_url a, ''gcm'', carrier, profile])))"

definition epoch_of :: "(byte list \<Rightarrow> string \<Rightarrow> byte list) \<Rightarrow> state \<Rightarrow> string \<Rightarrow> string option" where
  "epoch_of mac s context =
     (if \<not> state_valid s \<or> \<not> ad_adopted (st_adoption s) \<or> \<not> ad_gcm (st_adoption s) then None
      else map_option (\<lambda>key. hex_encode (mac key context)) (hex_decode (ad_key (st_adoption s))))"

definition receipt_epoch :: "(byte list \<Rightarrow> string \<Rightarrow> byte list) \<Rightarrow> state \<Rightarrow> string \<Rightarrow> string option" where
  "receipt_epoch mac s carrier = epoch_of mac s (receipt_context s carrier)"

definition firmware_epoch :: "(byte list \<Rightarrow> string \<Rightarrow> byte list) \<Rightarrow> state \<Rightarrow> string \<Rightarrow> string \<Rightarrow> string option" where
  "firmware_epoch mac s carrier profile = epoch_of mac s (firmware_context s carrier profile)"

definition new_receipt :: "string \<Rightarrow> string \<Rightarrow> receipt \<Rightarrow> nonce \<Rightarrow> receipt" where
  "new_receipt epoch version previous nonce =
     (let ns = (if r_epoch previous = epoch then r_nonces previous else []);
          kept = (if length ns = max_gcm_replay_nonces then tl ns else ns)
      in \<lparr>r_schema = receipt_schema, r_epoch = epoch, r_version = version, r_nonces = kept @ [hex_encode nonce]\<rparr>)"

definition receipt_contains :: "receipt \<Rightarrow> nonce \<Rightarrow> bool" where
  "receipt_contains r nonce \<longleftrightarrow> hex_encode nonce \<in> set (r_nonces r)"

fun receipt_nonces_ok :: "string set \<Rightarrow> string list \<Rightarrow> bool" where
  "receipt_nonces_ok seen [] = True"
| "receipt_nonces_ok seen (n # ns) =
     (if length n \<noteq> 32 \<or> n \<noteq> to_lower n \<or> n \<in> seen then False
      else if hex_decode n = None then False
      else receipt_nonces_ok (insert n seen) ns)"

definition receipt_valid :: "receipt \<Rightarrow> bool" where
  "receipt_valid r \<longleftrightarrow>
     \<not> (r_schema r \<noteq> receipt_schema \<or> \<not> safe_text (r_version r) 128 \<or> length (r_epoch r) \<noteq> 64 \<or>
        length (r_nonces r) = 0 \<or> max_gcm_replay_nonces < length (r_nonces r)) \<and>
     hex_decode (r_epoch r) \<noteq> None \<and> r_epoch r = to_lower (r_epoch r) \<and>
     list_all (\<lambda>c. \<not> (cbyte c < 32 \<or> 126 < cbyte c)) (r_version r) \<and> receipt_nonces_ok {} (r_nonces r)"

definition firmware_receipt_valid :: "receipt \<Rightarrow> bool" where
  "firmware_receipt_valid r \<longleftrightarrow> receipt_valid r \<and> valid_version (r_version r)"

text \<open>\<open>decodeReceipt\<close>: the members in order, each name once, all four there.\<close>

fun receipt_members :: "string \<Rightarrow> string list \<Rightarrow> (string \<times> json) list \<Rightarrow> receipt \<Rightarrow> (receipt \<times> string list) option" where
  "receipt_members marker seen [] r = Some (r, seen)"
| "receipt_members marker seen ((k, j) # ms) r =
     (if k \<in> set seen then None
      else if k = ''schema'' then
        (case int_field (r_schema r) [j] of None \<Rightarrow> None
         | Some v \<Rightarrow> receipt_members marker (k # seen) ms (r\<lparr>r_schema := v\<rparr>))
      else if k = ''epoch'' then
        (case string_field (r_epoch r) [j] of None \<Rightarrow> None
         | Some v \<Rightarrow> receipt_members marker (k # seen) ms (r\<lparr>r_epoch := v\<rparr>))
      else if k = marker then
        (case string_field (r_version r) [j] of None \<Rightarrow> None
         | Some v \<Rightarrow> receipt_members marker (k # seen) ms (r\<lparr>r_version := v\<rparr>))
      else if k = ''nonces'' then
        (case strings_field [] 0 [j] of None \<Rightarrow> None
         | Some v \<Rightarrow> receipt_members marker (k # seen) ms (r\<lparr>r_nonces := v\<rparr>))
      else None)"

definition empty_receipt :: receipt where
  "empty_receipt = \<lparr>r_schema = 0, r_epoch = [], r_version = [], r_nonces = []\<rparr>"

definition decode_receipt :: "string \<Rightarrow> string \<Rightarrow> receipt option" where
  "decode_receipt marker b =
     (case parse_json b of
        Some (JObj ms) \<Rightarrow>
          (case receipt_members marker [] ms empty_receipt of
             Some (r, seen) \<Rightarrow> if length seen = 4 \<and> receipt_valid r then Some r else None
           | None \<Rightarrow> None)
      | _ \<Rightarrow> None)"

text \<open>
  The file a receipt is read from: absent, unusable (not a private regular file of this
  user with one link, of a size outside the bounds, or changed while opening), or its bytes.
\<close>

datatype receipt_file = NoReceipt | UnusableReceipt | ReceiptBytes string

datatype receipt_error = ReceiptMissing | ReceiptBad

definition read_private_receipt :: "receipt_file \<Rightarrow> (receipt_error, string) result" where
  "read_private_receipt f =
     (case f of
        NoReceipt \<Rightarrow> Inl ReceiptMissing
      | UnusableReceipt \<Rightarrow> Inl ReceiptBad
      | ReceiptBytes b \<Rightarrow> guard (length b < 1 \<or> max_receipt_bytes < length b) ReceiptBad (Inr b))"

definition load_receipt :: "receipt_file \<Rightarrow> (receipt_error, receipt) result" where
  "load_receipt f =
     (case read_private_receipt f of
        Inl e \<Rightarrow> Inl e
      | Inr b \<Rightarrow> (case decode_receipt ''cfgversion'' b of None \<Rightarrow> Inl ReceiptBad | Some r \<Rightarrow> Inr r))"

definition load_firmware_receipt :: "receipt_file \<Rightarrow> (receipt_error, receipt) result" where
  "load_firmware_receipt f =
     (case read_private_receipt f of
        Inl e \<Rightarrow> Inl e
      | Inr b \<Rightarrow>
          (case decode_receipt ''version'' b of
             None \<Rightarrow> Inl ReceiptBad
           | Some r \<Rightarrow> guard (\<not> firmware_receipt_valid r) ReceiptBad (Inr r)))"

definition receipt_json :: "string \<Rightarrow> receipt \<Rightarrow> json" where
  "receipt_json marker r =
     JObj [(''schema'', JNum (int_text (r_schema r))), (''epoch'', JStr (r_epoch r)),
           (marker, JStr (r_version r)), (''nonces'', JArr (map JStr (r_nonces r)))]"

definition save_private_receipt :: "receipt_file \<Rightarrow> (stage \<Rightarrow> bool) \<Rightarrow> nat \<Rightarrow> string \<Rightarrow> file_system \<Rightarrow> bool \<times> file_system" where
  "save_private_receipt present fault n text fs =
     (if present = UnusableReceipt then (False, fs)
      else if max_receipt_bytes < length text + 1 then (False, fs)
      else save_private_bytes fault n (text @ [CHR 0x0A]) fs)"

definition save_receipt :: "receipt_file \<Rightarrow> (stage \<Rightarrow> bool) \<Rightarrow> nat \<Rightarrow> receipt \<Rightarrow> file_system \<Rightarrow> bool \<times> file_system" where
  "save_receipt present fault n r fs =
     (if \<not> receipt_valid r then (False, fs)
      else save_private_receipt present fault n (marshal (receipt_json ''cfgversion'' r)) fs)"

definition save_firmware_receipt :: "receipt_file \<Rightarrow> (stage \<Rightarrow> bool) \<Rightarrow> nat \<Rightarrow> receipt \<Rightarrow> file_system \<Rightarrow> bool \<times> file_system" where
  "save_firmware_receipt present fault n r fs =
     (if \<not> firmware_receipt_valid r then (False, fs)
      else save_private_receipt present fault n (marshal (receipt_json ''version'' r)) fs)"

end
