(* ===== verification/ReceiptFacts.thy ===== *)
theory ReceiptFacts
  imports Receipts
begin

text \<open>
  What the receipts promise: the version syntax is exactly the canonical text of three or
  four 32-bit numbers, the binding determines every field it covers, a receipt file reads
  back, and its nonce window is an instance of the interface of \<open>BoundedWindow\<close>.
\<close>

section \<open>Canonical versions\<close>

lemma dec_value_pos: "list_all (in_range 48 57) s \<Longrightarrow> s \<noteq> [] \<Longrightarrow> hd s \<noteq> CHR ''0'' \<Longrightarrow> 0 < dec_value 0 s"
proof (induction s rule: rev_induct)
  case (snoc c t)
  show ?case
  proof (cases "t = []")
    case True
    have "cbyte (CHR ''0'') = 48" by (simp add: cbyte_def)
    then have "cbyte c \<noteq> 48" using snoc.prems(3) True cbyte_inject [of c "CHR ''0''"] by auto
    then show ?thesis using snoc.prems True by (simp add: dec_value_append in_range_def)
  next
    case False
    then show ?thesis using snoc by (simp add: dec_value_append)
  qed
qed simp

lemma dec_text_value:
  "list_all (in_range 48 57) s \<Longrightarrow> s \<noteq> [] \<Longrightarrow> \<not> (1 < length s \<and> hd s = CHR ''0'') \<Longrightarrow> dec_text (dec_value 0 s) = s"
proof (induction s rule: rev_induct)
  case (snoc c t)
  have c: "48 \<le> cbyte c" "cbyte c \<le> 57" using snoc.prems(1) by (simp_all add: in_range_def)
  have inv: "char_of (cbyte c - 48 + 48) = c" using c by (simp add: cbyte_def)
  show ?case
  proof (cases "t = []")
    case True
    then show ?thesis using c inv by (subst dec_text.simps) (simp add: dec_value_append)
  next
    case False
    then have h: "hd t \<noteq> CHR ''0''" "list_all (in_range 48 57) t" using snoc.prems by (auto simp: neq_Nil_conv)
    then have t: "dec_text (dec_value 0 t) = t" "0 < dec_value 0 t"
      using snoc.IH False dec_value_pos by auto
    obtain d where d: "cbyte c = d + 48" "d < 10" using c le_Suc_ex [of 48 "cbyte c"] by (auto simp: add.commute)
    then have v: "dec_value 0 (t @ [c]) = 10 * dec_value 0 t + d" by (simp add: dec_value_append)
    have "(10 * dec_value 0 t + d) div 10 = dec_value 0 t" "(10 * dec_value 0 t + d) mod 10 = d"
        "\<not> 10 * dec_value 0 t + d < 10"
      using d t(2) by simp_all
    then show ?thesis using t inv d unfolding v by (subst dec_text.simps) simp
  qed
qed simp

lemma dec_text_length: "n < 10 ^ k \<Longrightarrow> 0 < k \<Longrightarrow> length (dec_text n) \<le> k"
proof (induction k arbitrary: n)
  case (Suc k)
  show ?case
  proof (cases "n < 10")
    case True
    then show ?thesis by (subst dec_text.simps) simp
  next
    case False
    then have "n div 10 < 10 ^ k" "0 < k" using Suc.prems by (auto simp: less_mult_imp_div_less intro: gr0I)
    then show ?thesis using Suc.IH [of "n div 10"] False by (subst dec_text.simps) simp
  qed
qed simp

lemma version_part_iff: "version_part_ok p \<longleftrightarrow> (\<exists>n < 2 ^ 32. p = dec_text n)"
proof
  assume "version_part_ok p"
  then show "\<exists>n < 2 ^ 32. p = dec_text n"
    using dec_text_value [of p] by (intro exI [of _ "dec_value 0 p"]) (auto simp: version_part_ok_def)
next
  assume "\<exists>n < 2 ^ 32. p = dec_text n"
  then obtain n where n: "n < 2 ^ 32" "p = dec_text n" by blast
  have "hd p \<noteq> CHR ''0''" if "1 < length p"
  proof (cases "n = 0")
    case True
    then show ?thesis using that n(2) by (simp add: dec_text.simps [of 0])
  qed (simp add: n(2) dec_text_head)
  moreover have "length p \<le> 10" using n dec_text_length [of n 10] by simp
  ultimately show "version_part_ok p"
    using n dec_text_digits [of n] by (auto simp: version_part_ok_def dec_value_text)
qed

lemma join_split: "join_texts [d] (split_char d s) = s"
proof (induction s)
  case (Cons c s)
  obtain x xs where x: "split_char d s = x # xs" using split_char_nonempty [of d s] by (cases "split_char d s") auto
  then show ?case using Cons by (cases xs) auto
qed simp

lemma split_join: "ps \<noteq> [] \<Longrightarrow> list_all (\<lambda>p. d \<notin> set p) ps \<Longrightarrow> split_char d (join_texts [d] ps) = ps"
proof (induction ps rule: induct_list012)
  case (2 x)
  then show ?case by (simp add: split_char_fresh)
next
  case (3 x y zs)
  then show ?case using split_char_append [of d x "join_texts [d] (y # zs)"] by simp
qed simp

lemma length_join: "list_all (\<lambda>p. length p \<le> k) ps \<Longrightarrow> length (join_texts [d] ps) \<le> length ps * (k + 1) - 1"
proof (induction ps rule: induct_list012)
  case (3 x y zs)
  then show ?case by (simp add: algebra_simps)
qed auto

lemma no_dot: "CHR ''.'' \<notin> set (dec_text n)"
  using dec_text_digits [of n] by (auto simp: list_all_iff in_range_def cbyte_def)

text \<open>
  The accepted versions are exactly the canonical ones: three or four 32-bit numbers in
  decimal without leading zeros, separated by dots; so two texts never denote one version.
\<close>

theorem valid_version_canonical:
  "valid_version v \<longleftrightarrow>
     (\<exists>ns. (length ns = 3 \<or> length ns = 4) \<and> list_all (\<lambda>n. n < 2 ^ 32) ns \<and> v = join_texts ''.'' (map dec_text ns))"
proof
  assume v: "valid_version v"
  define ps where "ps = split_char (CHR ''.'') v"
  have p: "length ps = 3 \<or> length ps = 4" "list_all version_part_ok ps"
    using v by (auto simp: valid_version_def Let_def ps_def split: if_splits)
  define ns where "ns = map (dec_value 0) ps"
  have d: "dec_text (dec_value 0 p) = p" "dec_value 0 p < 2 ^ 32" if "p \<in> set ps" for p
    using that p(2) unfolding list_all_iff version_part_iff by (metis dec_value_text)+
  then have "map dec_text ns = ps" "list_all (\<lambda>n. n < 2 ^ 32) ns"
    by (simp_all add: ns_def list_all_iff comp_def map_idI)
  then show "\<exists>ns. (length ns = 3 \<or> length ns = 4) \<and> list_all (\<lambda>n. n < 2 ^ 32) ns \<and> v = join_texts ''.'' (map dec_text ns)"
    using p(1) join_split [of "CHR ''.''" v] by (intro exI [of _ ns]) (auto simp: ns_def ps_def)
next
  assume "\<exists>ns. (length ns = 3 \<or> length ns = 4) \<and> list_all (\<lambda>n. n < 2 ^ 32) ns \<and> v = join_texts ''.'' (map dec_text ns)"
  then obtain ns where ns: "length ns = 3 \<or> length ns = 4" "list_all (\<lambda>n. n < 2 ^ 32) ns" "v = join_texts ''.'' (map dec_text ns)"
    by blast
  then have "split_char (CHR ''.'') v = map dec_text ns"
    by (auto intro!: split_join simp: list_all_iff no_dot)
  moreover have "list_all version_part_ok (map dec_text ns)"
    using ns(2) by (auto simp: list_all_iff version_part_iff)
  moreover have "list_all (\<lambda>p. length p \<le> 10) (map dec_text ns)"
    using ns(2) by (fastforce simp: list_all_iff intro: dec_text_length)
  then have "length v \<le> length ns * 11 - 1"
    using length_join [of 10 "map dec_text ns" "CHR ''.''"] ns(3) by simp
  then have "\<not> 43 < length v" using ns(1) by auto
  ultimately show "valid_version v" using ns(1) by (simp add: valid_version_def Let_def)
qed

section \<open>The binding\<close>

lemma marshal_strings_inject:
  assumes "list_all valid_utf8 xs" "list_all valid_utf8 ys"
  shows "marshal (JArr (map JStr xs)) = marshal (JArr (map JStr ys)) \<longleftrightarrow> xs = ys"
proof
  have p: "parse_json (marshal (JArr (map JStr zs))) = Some (JArr (map JStr zs))" if "list_all valid_utf8 zs" for zs
  proof -
    have "map clean_json (map JStr zs) = map JStr zs"
      using that by (simp add: list_all_iff valid_clean comp_def)
    then show ?thesis using parse_marshal [of "JArr (map JStr zs)"] by (simp add: list_all_iff)
  qed
  assume "marshal (JArr (map JStr xs)) = marshal (JArr (map JStr ys))"
  then have "map JStr xs = map JStr ys" using p [OF assms(1)] p [OF assms(2)] by (metis json.inject(4) option.inject)
  then show "xs = ys" by (simp add: inj_map_eq_map inj_def)
qed simp

text \<open>
  The context a receipt is bound to determines all it covers: two states with UTF-8
  texts have the same context exactly when identity, origin and configuration version are
  the same and the carrier is, separators inside the fields notwithstanding; and no
  configuration context is ever a firmware context.
\<close>

theorem receipt_context_injective:
  assumes "list_all valid_utf8 (c # state_texts s)" "list_all valid_utf8 (d # p # state_texts t)"
  shows "(receipt_context s c = receipt_context t d \<longleftrightarrow>
      st_identity s = st_identity t \<and> ad_url (st_adoption s) = ad_url (st_adoption t) \<and>
      ad_cfg (st_adoption s) = ad_cfg (st_adoption t) \<and> c = d) \<and>
    receipt_context s c \<noteq> firmware_context t d p"
proof -
  have a: "list_all valid_utf8 [''n2u-config-receipt-v1'', ''n2u-reported-firmware-v1'', ''gcm'']"
    by (simp add: valid_utf8_all_ascii ascii_def cbyte_def)
  have "identity.more i = ()" for i :: identity by simp
  then show ?thesis
    using a assms by (auto simp: receipt_context_def firmware_context_def Let_def state_texts_def marshal_strings_inject
        list_all_iff simp del: list.map(2) intro: identity.equality)
qed

section \<open>Receipt files\<close>

lemma receipt_nonces_ascii: "receipt_nonces_ok seen ns \<Longrightarrow> n \<in> set ns \<Longrightarrow> list_all ascii n"
  by (induction seen ns rule: receipt_nonces_ok.induct) (auto split: if_splits dest: hex_decode_ascii)

lemma printable_ascii: "list_all (\<lambda>c. \<not> (cbyte c < 32 \<or> 126 < cbyte c)) v \<Longrightarrow> list_all ascii v"
  by (auto simp: list_all_iff ascii_def)

lemma receipt_json_clean:
  assumes "receipt_valid r" "list_all ascii marker"
  shows "clean_json (receipt_json marker r) = receipt_json marker r"
proof -
  have "clean_text (r_epoch r) = r_epoch r" "clean_text (r_version r) = r_version r"
    using assms(1) by (auto simp: receipt_valid_def clean_ascii printable_ascii dest: hex_decode_ascii)
  moreover have "map clean_json (map JStr (r_nonces r)) = map JStr (r_nonces r)"
    using assms(1) by (auto simp: receipt_valid_def clean_ascii dest: receipt_nonces_ascii)
  ultimately show ?thesis
    using assms(2) by (simp add: receipt_json_def clean_ascii ascii_def cbyte_def comp_def)
qed

lemma strings_field_map [simp]: "strings_field [] 0 [JArr (map JStr vs)] = Some vs"
  by (rule strings_field_strings)

lemma decode_receipt_text:
  assumes "receipt_valid r" "marker = ''cfgversion'' \<or> marker = ''version''"
  shows "decode_receipt marker (marshal (receipt_json marker r) @ [CHR 0x0A]) = Some r"
proof -
  have "list_all ascii marker" using assms(2) by (auto simp: ascii_def cbyte_def)
  moreover have "has_text (receipt_json marker r)" by (simp add: receipt_json_def list_all_iff)
  moreover have "stops [CHR 0x0A]" "skip_ws [CHR 0x0A] = []" by (simp_all add: stops_def skip_ws_def json_space_def)
  ultimately have "parse_json (marshal (receipt_json marker r) @ [CHR 0x0A]) = Some (receipt_json marker r)"
    using parse_print [OF layouts_ok(1), of "receipt_json marker r" "[CHR 0x0A]" 0] receipt_json_clean [OF assms(1)]
    by (simp add: parse_json_def marshal_def)
  moreover obtain e v ns where r: "r = \<lparr>r_schema = 1, r_epoch = e, r_version = v, r_nonces = ns\<rparr>"
    using assms(1) by (cases r) (simp add: receipt_valid_def receipt_schema_def)
  moreover have "int_field 0 [JNum (int_text 1)] = Some 1" by (simp add: parse_int_text)
  ultimately show ?thesis
    using assms(1) unfolding r by (cases "marker = ''version''"; use assms(2) in \<open>simp add: decode_receipt_def receipt_json_def empty_receipt_def
      del: strings_field.simps int_field.simps\<close>)
qed

text \<open>
  A saved receipt is read back: where the save of a valid receipt succeeded, the
  target holds a text of at most 16 KiB from which exactly that receipt is loaded.
\<close>

theorem receipt_roundtrip:
  assumes "save_receipt present fault n r fs = (True, fs')"
  shows "\<exists>text. fs_target fs' = Some text \<and> load_receipt (ReceiptBytes text) = Inr r"
proof -
  let ?t = "marshal (receipt_json ''cfgversion'' r) @ [CHR 0x0A]"
  have v: "receipt_valid r" and l: "length ?t \<le> max_receipt_bytes"
      and s: "save_private_bytes fault n ?t fs = (True, fs')"
    using assms by (auto simp: save_receipt_def save_private_receipt_def split: if_splits)
  then have "fs_target fs' = Some ?t" using save_done by blast
  moreover have "load_receipt (ReceiptBytes ?t) = Inr r"
    using decode_receipt_text [OF v, of "''cfgversion''"] l by (simp add: load_receipt_def read_private_receipt_def)
  ultimately show ?thesis by blast
qed

section \<open>The nonce window\<close>

definition receipt_items :: "receipt \<Rightarrow> nonce list" where
  "receipt_items r = map (\<lambda>n. the (hex_decode n)) (r_nonces r)"

definition receipt_window :: "string \<Rightarrow> receipt \<Rightarrow> bool" where
  "receipt_window epoch r \<longleftrightarrow>
     r_epoch r = epoch \<and> map hex_encode (receipt_items r) = r_nonces r \<and> distinct (receipt_items r) \<and>
     length (receipt_items r) \<le> max_gcm_replay_nonces"

lemma receipt_has: "receipt_window epoch r \<Longrightarrow> receipt_contains r n \<longleftrightarrow> n \<in> set (receipt_items r)"
proof -
  assume "receipt_window epoch r"
  then have "set (r_nonces r) = hex_encode ` set (receipt_items r)"
    by (metis receipt_window_def set_map)
  then show ?thesis by (auto simp: receipt_contains_def)
qed

lemma receipt_items_add:
  assumes "receipt_window epoch r"
  shows "receipt_items (new_receipt epoch version r n) =
    drop (if length (receipt_items r) = max_gcm_replay_nonces then 1 else 0) (receipt_items r) @ [n]"
  using assms by (simp add: receipt_items_def new_receipt_def receipt_window_def Let_def drop_map drop_Suc map_tl)

lemma receipt_window_add:
  assumes "receipt_window epoch r" "\<not> receipt_contains r n"
  shows "receipt_window epoch (new_receipt epoch version r n)"
proof -
  let ?xs = "receipt_items r" and ?k = "if length (receipt_items r) = max_gcm_replay_nonces then 1 else 0"
  have items: "receipt_items (new_receipt epoch version r n) = drop ?k ?xs @ [n]"
    by (rule receipt_items_add [OF assms(1)])
  have len: "length (r_nonces r) = length ?xs" by (simp add: receipt_items_def)
  have enc: "r_nonces r = map hex_encode ?xs" and e: "r_epoch r = epoch" and d: "distinct ?xs"
      and l: "length ?xs \<le> max_gcm_replay_nonces"
    using assms(1) by (auto simp: receipt_window_def)
  have "r_nonces (new_receipt epoch version r n) = map hex_encode (drop ?k ?xs @ [n])"
    using e len by (simp add: new_receipt_def Let_def enc drop_Suc map_tl)
  moreover have "n \<notin> set (drop ?k ?xs)" using assms receipt_has in_set_dropD by metis
  moreover have "length (drop ?k ?xs @ [n]) \<le> max_gcm_replay_nonces"
    using l by (auto simp: max_gcm_replay_nonces_def)
  ultimately show ?thesis using items d by (simp add: receipt_window_def new_receipt_def Let_def)
qed

interpretation receipts: bounded_window "\<lambda>n r. new_receipt epoch version r n" receipt_contains receipt_items
  "receipt_window epoch" "\<lambda>n. True" max_gcm_replay_nonces
  for epoch version
proof unfold_locales
  show "0 < max_gcm_replay_nonces" by (simp add: max_gcm_replay_nonces_def)
qed (simp_all add: receipt_has receipt_items_add receipt_window_add, simp add: receipt_window_def)

lemma new_receipt_window: "r_epoch previous \<noteq> epoch \<Longrightarrow> receipt_window epoch (new_receipt epoch version previous n)"
  by (simp add: receipt_window_def new_receipt_def receipt_items_def Let_def max_gcm_replay_nonces_def)

text \<open>
  Within an epoch a nonce once recorded is refused until 128 further ones have been
  offered, at most 128 are kept, and a receipt of another epoch starts a fresh window with
  the one nonce it records.
\<close>

theorem receipt_replay_protection:
  assumes "receipt_window epoch r" "\<not> receipt_contains r n" "length ns < max_gcm_replay_nonces"
    and "r_epoch old \<noteq> epoch"
  shows "receipt_contains (snd (offer (\<lambda>m r. new_receipt epoch version r m) receipt_contains ns (new_receipt epoch version r n))) n \<and>
    length (receipt_items (snd (offer (\<lambda>m r. new_receipt epoch version r m) receipt_contains ns r))) \<le> max_gcm_replay_nonces \<and>
    receipt_window epoch (new_receipt epoch version old n) \<and> receipt_items (new_receipt epoch version old n) = [n]"
proof -
  have "receipt_items (new_receipt epoch version old n) = [n]"
    using assms(4) by (simp add: new_receipt_def receipt_items_def Let_def max_gcm_replay_nonces_def)
  then show ?thesis
    using receipts.accepted_is_protected [OF assms(1) _ assms(2,3)] receipts.bounded_after_offers [OF assms(1)]
      new_receipt_window [OF assms(4)] by simp
qed

definition example_receipt :: receipt where
  "example_receipt = \<lparr>r_schema = 1, r_epoch = ''e'', r_version = ''v'', r_nonces = []\<rparr>"

theorem receipt_replay_protection_witness:
  "receipt_contains (snd (offer (\<lambda>m r. new_receipt ''e'' ''v'' r m) receipt_contains [[8], [9]]
     (new_receipt ''e'' ''v'' example_receipt [7]))) [7]"
proof -
  have "receipt_window ''e'' example_receipt" "\<not> receipt_contains example_receipt [7]"
    by (simp_all add: receipt_window_def receipt_items_def receipt_contains_def example_receipt_def)
  from receipt_replay_protection [OF this, of "[[8], [9]]" "\<lparr>r_schema = 1, r_epoch = [], r_version = [], r_nonces = []\<rparr>" "''v''"]
  show ?thesis by (simp add: max_gcm_replay_nonces_def)
qed

text \<open>A receipt that validates, saved without a fault.\<close>

definition saved_receipt :: receipt where
  "saved_receipt = \<lparr>r_schema = 1, r_epoch = replicate 64 (CHR ''a''), r_version = ''7'', r_nonces = [replicate 32 (CHR ''1'')]\<rparr>"

lemma saved_receipt_valid: "receipt_valid saved_receipt"
  by code_simp

lemma saved_receipt_size: "length (marshal (receipt_json ''cfgversion'' saved_receipt)) + 1 \<le> max_receipt_bytes"
proof -
  have "length (json_quote (r_epoch saved_receipt)) = 66" "length (json_quote ''7'') = 3"
      "length (json_quote (replicate 32 (CHR ''1''))) = 34"
    by (simp_all add: saved_receipt_def length_json_name list_all_iff quote_char_def ascii_def cbyte_def)
  then show ?thesis
    by (simp add: marshal_def receipt_json_def length_json_name length_int_one quote_char_def ascii_def cbyte_def
        max_receipt_bytes_def saved_receipt_def)
qed

theorem receipt_roundtrip_witness:
  "\<exists>text. fs_target (snd (save_receipt NoReceipt (\<lambda>_. False) 0 saved_receipt empty_fs)) = Some text \<and>
     load_receipt (ReceiptBytes text) = Inr saved_receipt"
proof -
  have "fst (save_receipt NoReceipt (\<lambda>_. False) 0 saved_receipt empty_fs)"
    using saved_receipt_size
    by (simp add: save_receipt_def saved_receipt_valid save_private_receipt_def save_private_bytes_def stages_def)
  then show ?thesis
    by (intro receipt_roundtrip [of NoReceipt "\<lambda>_. False" 0 saved_receipt empty_fs]) (simp add: prod_eq_iff)
qed

theorem receipt_context_injective_witness:
  "receipt_context example_state ''a'' \<noteq> receipt_context example_state ''b''"
  using receipt_context_injective [of "''a''" example_state "''b''" "''p''" example_state] example_size(1)
  by (simp add: valid_utf8_all_ascii ascii_def cbyte_def)

end
