(* ===== verification/ConnectionLimit.thy ===== *)
theory ConnectionLimit
  imports Prelude
begin

text \<open>
  The connection limit of \<open>internal/health/health.go\<close>: \<open>limitedListener\<close> takes a slot of a
  buffered channel before it accepts and the connection gives it back when it is closed, once.
  The goroutines that accept and close interleave in any order, so the listener is a step
  relation; \<open>maximum\<close> is the capacity of the channel.
\<close>

record limited_listener =
  ll_slots :: nat          \<comment> \<open>the entries in the channel\<close>
  ll_accepting :: nat      \<comment> \<open>the goroutines that hold a slot and wait in the inner Accept\<close>
  ll_live :: "nat set"     \<comment> \<open>the connections whose release has not run\<close>
  ll_closed :: bool

definition max_health_connections :: nat where "max_health_connections = 32"

definition limit_connections :: limited_listener where
  "limit_connections = \<lparr>ll_slots = 0, ll_accepting = 0, ll_live = {}, ll_closed = False\<rparr>"

inductive listener_step :: "nat \<Rightarrow> limited_listener \<Rightarrow> limited_listener \<Rightarrow> bool" for maximum where
  take_slot: "ll_slots l < maximum \<Longrightarrow>
    listener_step maximum l (l\<lparr>ll_slots := ll_slots l + 1, ll_accepting := ll_accepting l + 1\<rparr>)"
| accept_refused: "ll_closed l \<Longrightarrow> listener_step maximum l l"
| accept_failed: "0 < ll_accepting l \<Longrightarrow>
    listener_step maximum l (l\<lparr>ll_slots := ll_slots l - 1, ll_accepting := ll_accepting l - 1\<rparr>)"
| accepted: "0 < ll_accepting l \<Longrightarrow> c \<notin> ll_live l \<Longrightarrow>
    listener_step maximum l (l\<lparr>ll_accepting := ll_accepting l - 1, ll_live := insert c (ll_live l)\<rparr>)"
| close_connection: "c \<in> ll_live l \<Longrightarrow>
    listener_step maximum l (l\<lparr>ll_slots := ll_slots l - 1, ll_live := ll_live l - {c}\<rparr>)"
| close_again: "c \<notin> ll_live l \<Longrightarrow> listener_step maximum l l"
| close_listener: "listener_step maximum l (l\<lparr>ll_closed := True\<rparr>)"

inductive_cases listener_stepE: "listener_step maximum l l'"

text \<open>Every slot is held by exactly one accepting goroutine or live connection.\<close>

definition slots_accounted :: "nat \<Rightarrow> limited_listener \<Rightarrow> bool" where
  "slots_accounted maximum l \<longleftrightarrow>
     finite (ll_live l) \<and> ll_slots l = ll_accepting l + card (ll_live l) \<and> ll_slots l \<le> maximum"

lemma slots_accounted_start: "slots_accounted maximum limit_connections"
  by (simp add: slots_accounted_def limit_connections_def)

lemma slots_accounted_step:
  "listener_step maximum l l' \<Longrightarrow> slots_accounted maximum l \<Longrightarrow> slots_accounted maximum l'"
proof (induction rule: listener_step.induct)
  case (close_connection c l)
  then have "0 < card (ll_live l)" by (auto simp: slots_accounted_def card_gt_0_iff)
  then show ?case using close_connection by (auto simp: slots_accounted_def)
qed (auto simp: slots_accounted_def)

lemma slots_accounted_reachable:
  "(listener_step maximum)\<^sup>*\<^sup>* limit_connections l \<Longrightarrow> slots_accounted maximum l"
  by (induction rule: rtranclp_induct) (auto intro: slots_accounted_start slots_accounted_step)

text \<open>
  However accepts and closes interleave, at most \<open>maximum\<close> connections are live, the
  channel holds exactly one entry per accepting goroutine and live connection, so a release
  never blocks; and while fewer connections are live or pending a slot can be taken.
\<close>

theorem connections_bounded:
  assumes "(listener_step maximum)\<^sup>*\<^sup>* limit_connections l"
  shows "card (ll_live l) \<le> maximum \<and> ll_slots l = ll_accepting l + card (ll_live l) \<and>
    (ll_live l \<noteq> {} \<longrightarrow> 0 < ll_slots l) \<and>
    (ll_accepting l + card (ll_live l) < maximum \<longrightarrow>
      (\<exists>l'. listener_step maximum l l' \<and> ll_accepting l' = ll_accepting l + 1))"
proof -
  note a = slots_accounted_reachable [OF assms, unfolded slots_accounted_def]
  have "\<exists>l'. listener_step maximum l l' \<and> ll_accepting l' = ll_accepting l + 1"
    if "ll_accepting l + card (ll_live l) < maximum"
    using listener_step.take_slot [of l maximum] that a by (intro exI conjI) auto
  moreover have "0 < card (ll_live l)" if "ll_live l \<noteq> {}" using that a by (simp add: card_gt_0_iff)
  ultimately show ?thesis using a by auto
qed

theorem connections_bounded_witness:
  "card (ll_live \<lparr>ll_slots = 1, ll_accepting = 0, ll_live = {7}, ll_closed = False\<rparr>) \<le> max_health_connections"
proof -
  let ?l1 = "\<lparr>ll_slots = 1, ll_accepting = 1, ll_live = {}, ll_closed = False\<rparr>"
  let ?l2 = "\<lparr>ll_slots = 1, ll_accepting = 0, ll_live = {7}, ll_closed = False\<rparr>"
  have "listener_step max_health_connections limit_connections ?l1"
    using listener_step.take_slot [of limit_connections max_health_connections]
    by (simp add: limit_connections_def max_health_connections_def)
  moreover have "listener_step max_health_connections ?l1 ?l2"
    using listener_step.accepted [of ?l1 7 max_health_connections] by simp
  ultimately have "(listener_step max_health_connections)\<^sup>*\<^sup>* limit_connections ?l2" by simp
  from connections_bounded [OF this] show ?thesis by simp
qed

end
