(* ===== verification/Replay.thy ===== *)
theory Replay
  imports Receipts BoundedWindow
begin

text \<open>
  The replay window of \<open>internal/gateway/gateway.go\<close>: two bounded rings of nonces, one for
  every accepted response, one for those that changed the persistent adoption state, bound
  to the epoch of key digest and mode.  SHA-256 is the parameter \<open>sha\<close>.  A ring keeps the
  order and the set the code looks nonces up in; a copy of the window is the value itself.
\<close>

section \<open>Rings\<close>

record nonce_ring =
  ring_order :: "nonce list"
  ring_seen :: "nonce set"

definition empty_ring :: nonce_ring where
  "empty_ring = \<lparr>ring_order = [], ring_seen = {}\<rparr>"

definition append_bounded_nonce :: "nonce \<Rightarrow> nonce_ring \<Rightarrow> nonce_ring" where
  "append_bounded_nonce nonce r =
     (if nonce \<in> ring_seen r then r
      else let r1 = (if length (ring_order r) = max_gcm_replay_nonces
                     then \<lparr>ring_order = tl (ring_order r), ring_seen = ring_seen r - {hd (ring_order r)}\<rparr>
                     else r)
           in \<lparr>ring_order = ring_order r1 @ [nonce], ring_seen = insert nonce (ring_seen r1)\<rparr>)"

text \<open>The set is the set of the order, which has no duplicates and at most 128 entries.\<close>

definition ring_ok :: "nonce_ring \<Rightarrow> bool" where
  "ring_ok r \<longleftrightarrow>
     ring_seen r = set (ring_order r) \<and> distinct (ring_order r) \<and> length (ring_order r) \<le> max_gcm_replay_nonces"

lemma empty_ring_ok [simp]: "ring_ok empty_ring"
  by (simp add: ring_ok_def empty_ring_def)

lemma append_order:
  "ring_ok r \<Longrightarrow> nonce \<notin> ring_seen r \<Longrightarrow>
   ring_order (append_bounded_nonce nonce r) =
     drop (if length (ring_order r) = max_gcm_replay_nonces then 1 else 0) (ring_order r) @ [nonce]"
  by (simp add: append_bounded_nonce_def Let_def drop_Suc)

lemma append_seen:
  assumes "ring_ok r"
  shows "ring_seen (append_bounded_nonce nonce r) = set (ring_order (append_bounded_nonce nonce r))"
proof (cases "length (ring_order r) = max_gcm_replay_nonces")
  case True
  then obtain x xs where "ring_order r = x # xs"
    by (cases "ring_order r") (auto simp: max_gcm_replay_nonces_def)
  then show ?thesis using assms True by (auto simp: append_bounded_nonce_def ring_ok_def Let_def)
next
  case False
  then show ?thesis using assms by (simp add: append_bounded_nonce_def ring_ok_def Let_def)
qed

lemma append_ring_ok [simp]:
  assumes "ring_ok r"
  shows "ring_ok (append_bounded_nonce nonce r)"
proof (cases "nonce \<in> ring_seen r")
  case True
  then show ?thesis using assms by (simp add: append_bounded_nonce_def)
next
  case False
  then show ?thesis
    using assms append_order [OF assms False] append_seen [OF assms, of nonce]
    by (auto simp: ring_ok_def max_gcm_replay_nonces_def dest: in_set_dropD)
qed

interpretation ring: bounded_window append_bounded_nonce "\<lambda>r n. n \<in> ring_seen r" ring_order ring_ok
    "\<lambda>_. True" max_gcm_replay_nonces
proof unfold_locales
  show "0 < max_gcm_replay_nonces" by (simp add: max_gcm_replay_nonces_def)
qed (auto simp: append_order, auto simp: ring_ok_def)

lemma fold_append_offer:
  "foldl (\<lambda>r n. append_bounded_nonce n r) r ns = snd (offer append_bounded_nonce (\<lambda>r n. n \<in> ring_seen r) ns r)"
  by (induction ns arbitrary: r) (auto simp: append_bounded_nonce_def split_beta Let_def)

section \<open>The window\<close>

record replay_epoch =
  ep_digest :: "byte list"
  ep_gcm :: bool

record replay_window =
  rw_epoch :: replay_epoch
  rw_ready :: bool
  rw_recent :: nonce_ring
  rw_protected :: nonce_ring

definition replay_epoch_for :: "(byte list \<Rightarrow> byte list) \<Rightarrow> adoption \<Rightarrow> (string, replay_epoch) result" where
  "replay_epoch_for sha a =
     (case hex_decode (ad_key a) of
        None \<Rightarrow> Inl ''gateway adoption replay epoch is invalid''
      | Some key \<Rightarrow>
          guard (length key \<noteq> 16) ''gateway adoption replay epoch is invalid''
            (Inr \<lparr>ep_digest = sha key, ep_gcm = ad_gcm a\<rparr>))"

fun load_protected :: "string list \<Rightarrow> nonce_ring \<Rightarrow> (string, nonce_ring) result" where
  "load_protected [] r = Inr r"
| "load_protected (e # es) r =
     (case hex_decode e of
        None \<Rightarrow> Inl ''gateway persistent replay window is invalid''
      | Some nonce \<Rightarrow>
          guard (length nonce \<noteq> 16) ''gateway persistent replay window is invalid'' (
          guard (nonce \<in> ring_seen r) ''gateway persistent replay window is invalid''
            (load_protected es \<lparr>ring_order = ring_order r @ [nonce], ring_seen = insert nonce (ring_seen r)\<rparr>)))"

definition new_replay_window :: "(byte list \<Rightarrow> byte list) \<Rightarrow> adoption \<Rightarrow> (string, replay_window) result" where
  "new_replay_window sha a =
     (case replay_epoch_for sha a of
        Inl e \<Rightarrow> Inl e
      | Inr epoch \<Rightarrow>
          (let w = \<lparr>rw_epoch = epoch, rw_ready = True, rw_recent = empty_ring, rw_protected = empty_ring\<rparr> in
           if \<not> ad_gcm a then Inr w
           else guard (max_gcm_replay_nonces < length (ad_nonces a)) ''gateway persistent replay window exceeds limit''
             (case load_protected (ad_nonces a) empty_ring of
                Inl e \<Rightarrow> Inl e
              | Inr r \<Rightarrow> Inr (w\<lparr>rw_protected := r\<rparr>))))"

text \<open>\<open>rebased\<close>; \<open>sync\<close> stores the same window, and leaves it as it was on an error.\<close>

definition rebased :: "(byte list \<Rightarrow> byte list) \<Rightarrow> adoption \<Rightarrow> replay_window \<Rightarrow> (string, replay_window) result" where
  "rebased sha a w =
     (case replay_epoch_for sha a of
        Inl e \<Rightarrow> Inl e
      | Inr epoch \<Rightarrow> if rw_ready w \<and> rw_epoch w = epoch then Inr w else new_replay_window sha a)"

definition sync_window :: "(byte list \<Rightarrow> byte list) \<Rightarrow> adoption \<Rightarrow> replay_window \<Rightarrow> (string, unit) result \<times> replay_window" where
  "sync_window sha a w =
     (case replay_epoch_for sha a of
        Inl e \<Rightarrow> (Inl e, w)
      | Inr epoch \<Rightarrow>
          if rw_ready w \<and> rw_epoch w = epoch then (Inr (), w)
          else (case new_replay_window sha a of Inl e \<Rightarrow> (Inl e, w) | Inr w' \<Rightarrow> (Inr (), w')))"

definition window_contains :: "replay_window \<Rightarrow> nonce \<Rightarrow> bool" where
  "window_contains w nonce \<longleftrightarrow> nonce \<in> ring_seen (rw_recent w) \<or> nonce \<in> ring_seen (rw_protected w)"

definition with_accepted :: "nonce \<Rightarrow> bool \<Rightarrow> replay_window \<Rightarrow> replay_window" where
  "with_accepted nonce protect w =
     (let w1 = w\<lparr>rw_recent := append_bounded_nonce nonce (rw_recent w)\<rparr>
      in if protect then w1\<lparr>rw_protected := append_bounded_nonce nonce (rw_protected w1)\<rparr> else w1)"

definition encoded_protected :: "replay_window \<Rightarrow> string list" where
  "encoded_protected w = map hex_encode (ring_order (rw_protected w))"

section \<open>The window is well formed\<close>

definition window_ok :: "replay_window \<Rightarrow> bool" where
  "window_ok w \<longleftrightarrow>
     ring_ok (rw_recent w) \<and> ring_ok (rw_protected w) \<and>
     (\<forall>n \<in> set (ring_order (rw_recent w)) \<union> set (ring_order (rw_protected w)). length n = 16)"

lemma with_accepted_fields [simp]:
  "rw_epoch (with_accepted n p w) = rw_epoch w" "rw_ready (with_accepted n p w) = rw_ready w"
  "rw_recent (with_accepted n p w) = append_bounded_nonce n (rw_recent w)"
  "rw_protected (with_accepted n p w) =
     (if p then append_bounded_nonce n (rw_protected w) else rw_protected w)"
  by (simp_all add: with_accepted_def Let_def)

lemma set_append_bounded: "set (ring_order (append_bounded_nonce n r)) \<subseteq> insert n (set (ring_order r))"
  by (auto simp: append_bounded_nonce_def Let_def dest: list.set_sel(2) [rotated] intro: list.set_sel(2) [rotated])

lemma with_accepted_ok: "window_ok w \<Longrightarrow> length n = 16 \<Longrightarrow> window_ok (with_accepted n p w)"
  using set_append_bounded [of n "rw_recent w"] set_append_bounded [of n "rw_protected w"]
  unfolding window_ok_def by auto

lemma load_protected_spec:
  assumes "nonces_valid seen es" "set seen = ring_seen r" "ring_seen r = set (ring_order r)" "distinct (ring_order r)"
  shows "\<exists>r'. load_protected es r = Inr r' \<and> ring_order r' = ring_order r @ map (\<lambda>e. the (hex_decode e)) es \<and>
    ring_seen r' = set (ring_order r') \<and> distinct (ring_order r') \<and>
    (\<forall>n \<in> set (drop (length (ring_order r)) (ring_order r')). length n = 16)"
  using assms
proof (induction es arbitrary: seen r)
  case (Cons e es)
  obtain n where n: "hex_decode e = Some n" "length n = 16" "n \<notin> set seen" "nonces_valid (n # seen) es"
    using Cons.prems(1) by (auto simp: valid_nonce_entry_def split: option.splits if_splits)
  let ?r = "\<lparr>ring_order = ring_order r @ [n], ring_seen = insert n (ring_seen r)\<rparr>"
  obtain r' where r': "load_protected es ?r = Inr r'"
      "ring_order r' = ring_order ?r @ map (\<lambda>e. the (hex_decode e)) es" "ring_seen r' = set (ring_order r')"
      "distinct (ring_order r')" "\<forall>n \<in> set (drop (length (ring_order ?r)) (ring_order r')). length n = 16"
    using Cons.IH [of "n # seen" ?r] Cons.prems n by auto
  then show ?case using n Cons.prems by auto
qed simp

lemma load_protected_encoded:
  "\<forall>n \<in> set ns. length n = 16 \<Longrightarrow> distinct (ring_order r @ ns) \<Longrightarrow> ring_seen r = set (ring_order r) \<Longrightarrow>
   load_protected (map hex_encode ns) r = Inr \<lparr>ring_order = ring_order r @ ns, ring_seen = set (ring_order r @ ns)\<rparr>"
proof (induction ns arbitrary: r)
  case Nil
  then show ?case by (cases r) simp
next
  case (Cons n ns)
  let ?r = "\<lparr>ring_order = ring_order r @ [n], ring_seen = insert n (ring_seen r)\<rparr>"
  have "load_protected (map hex_encode ns) ?r = Inr \<lparr>ring_order = ring_order ?r @ ns, ring_seen = set (ring_order ?r @ ns)\<rparr>"
    using Cons.prems by (intro Cons.IH) simp_all
  then show ?case using Cons.prems by simp
qed

text \<open>A valid adoption always has a window, and it is well formed.\<close>

lemma replay_epoch_exists:
  "hex_decode (ad_key a) = Some key \<Longrightarrow> length key = 16 \<Longrightarrow>
   replay_epoch_for sha a = Inr \<lparr>ep_digest = sha key, ep_gcm = ad_gcm a\<rparr>"
  by (simp add: replay_epoch_for_def)

lemma new_replay_window_ok:
  assumes "hex_decode (ad_key a) = Some key" "length key = 16" "length (ad_nonces a) \<le> max_gcm_replay_nonces"
    and "nonces_valid [] (ad_nonces a)"
  shows "\<exists>w. new_replay_window sha a = Inr w \<and> window_ok w \<and> rw_ready w \<and>
    replay_epoch_for sha a = Inr (rw_epoch w) \<and>
    (ad_gcm a \<longrightarrow> ring_order (rw_protected w) = map (\<lambda>e. the (hex_decode e)) (ad_nonces a))"
proof -
  obtain r where r: "load_protected (ad_nonces a) empty_ring = Inr r"
      "ring_order r = map (\<lambda>e. the (hex_decode e)) (ad_nonces a)" "ring_seen r = set (ring_order r)"
      "distinct (ring_order r)" "\<forall>n \<in> set (ring_order r). length n = 16"
    using load_protected_spec [OF assms(4), of empty_ring] by (auto simp: empty_ring_def)
  then show ?thesis
    using assms replay_epoch_exists [OF assms(1,2), of sha]
    by (simp add: new_replay_window_def Let_def window_ok_def ring_ok_def empty_ring_def)
qed

lemma rebased_cases:
  "rebased sha a w = Inr w' \<Longrightarrow>
   w' = w \<and> rw_ready w \<and> replay_epoch_for sha a = Inr (rw_epoch w) \<or> new_replay_window sha a = Inr w'"
  by (simp add: rebased_def split: sum.splits if_splits)

lemma sync_window_rebased:
  "sync_window sha a w = (case rebased sha a w of Inl e \<Rightarrow> (Inl e, w) | Inr w' \<Rightarrow> (Inr (), w'))"
  by (simp add: sync_window_def rebased_def split: sum.split)

section \<open>What the window protects\<close>

text \<open>Accepting responses one after the other, each with whether it changed the persistent state.\<close>

definition accept_all :: "(nonce \<times> bool) list \<Rightarrow> replay_window \<Rightarrow> replay_window" where
  "accept_all ops w = foldl (\<lambda>w (m, p). with_accepted m p w) w ops"

lemma accept_all_rings:
  "rw_recent (accept_all ops w) = foldl (\<lambda>r n. append_bounded_nonce n r) (rw_recent w) (map fst ops)"
  "rw_protected (accept_all ops w) =
     foldl (\<lambda>r n. append_bounded_nonce n r) (rw_protected w) (map fst (filter snd ops))"
  unfolding accept_all_def by (induction ops arbitrary: w) (auto simp: split_beta)

lemma ring_protects:
  "ring_ok r \<Longrightarrow> n \<notin> ring_seen r \<Longrightarrow> length ns < max_gcm_replay_nonces \<Longrightarrow>
   n \<in> ring_seen (foldl (\<lambda>r n. append_bounded_nonce n r) (append_bounded_nonce n r) ns)"
  unfolding fold_append_offer by (rule ring.accepted_is_protected) simp_all

lemma ring_bounded:
  "ring_ok r \<Longrightarrow> length (ring_order (foldl (\<lambda>r n. append_bounded_nonce n r) r ns)) \<le> max_gcm_replay_nonces"
  unfolding fold_append_offer by (rule ring.bounded_after_offers) simp_all

text \<open>
  A response is refused again while the window covers it.  One that changed the
  persistent state is held until 128 further state changes have been accepted, however many
  routine responses come between; any other one until 128 further responses have been
  accepted.  Both rings stay within 128 nonces.
\<close>

theorem replay_window_protects:
  assumes "window_ok w" "\<not> window_contains w n"
  shows "(length (filter snd ops) < max_gcm_replay_nonces \<longrightarrow>
      window_contains (accept_all ops (with_accepted n True w)) n) \<and>
    (length ops < max_gcm_replay_nonces \<longrightarrow> window_contains (accept_all ops (with_accepted n p w)) n) \<and>
    length (ring_order (rw_recent (accept_all ops w))) \<le> max_gcm_replay_nonces \<and>
    length (ring_order (rw_protected (accept_all ops w))) \<le> max_gcm_replay_nonces"
  using assms ring_protects [of "rw_recent w" n "map fst ops"]
    ring_protects [of "rw_protected w" n "map fst (filter snd ops)"] ring_bounded
  by (simp add: window_contains_def window_ok_def accept_all_rings)

definition fresh_window :: replay_window where
  "fresh_window = \<lparr>rw_epoch = \<lparr>ep_digest = [], ep_gcm = True\<rparr>, rw_ready = True, rw_recent = empty_ring,
     rw_protected = empty_ring\<rparr>"

theorem replay_window_protects_witness:
  "window_contains (accept_all [(replicate 16 2, False), (replicate 16 3, True)]
     (with_accepted (replicate 16 1) True fresh_window)) (replicate 16 1)"
proof -
  have "window_ok fresh_window" "\<not> window_contains fresh_window (replicate 16 1)"
    by (simp_all add: fresh_window_def window_ok_def window_contains_def empty_ring_def ring_ok_def)
  from replay_window_protects [OF this, of "[(replicate 16 2, False), (replicate 16 3, True)]"]
  show ?thesis by (simp add: max_gcm_replay_nonces_def)
qed

text \<open>
  The protection survives a restart: the nonces a GCM state is saved with are read back
  as exactly the protected ring, bound to the same key, by any start from that state.
\<close>

theorem replay_protection_survives_restart:
  assumes "window_ok w" "replay_epoch_for sha a = Inr (rw_epoch w)" "ad_gcm a" "rw_ready w"
  shows "new_replay_window sha (a\<lparr>ad_nonces := encoded_protected w\<rparr>) = Inr (w\<lparr>rw_recent := empty_ring\<rparr>)"
proof -
  have "load_protected (encoded_protected w) empty_ring = Inr (rw_protected w)"
    using assms(1) load_protected_encoded [of "ring_order (rw_protected w)" empty_ring]
    by (simp add: encoded_protected_def window_ok_def ring_ok_def empty_ring_def)
  moreover have "replay_epoch_for sha (a\<lparr>ad_nonces := encoded_protected w\<rparr>) = Inr (rw_epoch w)"
    using assms(2) by (cases "hex_decode (ad_key a)") (simp_all add: replay_epoch_for_def)
  moreover have "length (encoded_protected w) \<le> max_gcm_replay_nonces"
    using assms(1) by (simp add: encoded_protected_def window_ok_def ring_ok_def)
  ultimately show ?thesis using assms(3,4) by (simp add: new_replay_window_def Let_def not_less)
qed

definition example_adoption :: adoption where
  "example_adoption = \<lparr>ad_key = hex_encode (replicate 16 7), ad_url = [], ad_cfg = [], ad_adopted = True,
     ad_gcm = True, ad_nonces = []\<rparr>"

theorem replay_protection_survives_restart_witness:
  "new_replay_window (\<lambda>k. k) (example_adoption\<lparr>ad_nonces := encoded_protected
       (with_accepted (replicate 16 1) True (fresh_window\<lparr>rw_epoch := \<lparr>ep_digest = replicate 16 7, ep_gcm = True\<rparr>\<rparr>))\<rparr>) =
   Inr (with_accepted (replicate 16 1) True (fresh_window\<lparr>rw_epoch := \<lparr>ep_digest = replicate 16 7, ep_gcm = True\<rparr>\<rparr>)
     \<lparr>rw_recent := empty_ring\<rparr>)"
proof (rule replay_protection_survives_restart)
  show "window_ok (with_accepted (replicate 16 1) True (fresh_window\<lparr>rw_epoch := \<lparr>ep_digest = replicate 16 7, ep_gcm = True\<rparr>\<rparr>))"
    by (rule with_accepted_ok) (simp_all add: window_ok_def fresh_window_def empty_ring_def ring_ok_def)
qed (simp_all add: example_adoption_def fresh_window_def replay_epoch_for_def)

end
