(* ===== verification/Health.thy ===== *)
theory Health
  imports JsonPrint UpsModel
begin

text \<open>
  \<open>internal/health/health.go\<close>: the monitor the poll and inform loops report to, the snapshot
  and the three pages it serves, and the limit on live connections.  The counters are 64-bit
  words; a time is nanoseconds since Go's zero time.  What \<open>net/http\<close> does with a page is
  outside the model.
\<close>

section \<open>The monitor\<close>

datatype receipt_status =
    ReceiptDisabled | ReceiptPending | ReceiptReceived | ReceiptStored | ReceiptRejected
  | ReceiptStorageError | ReceiptRateLimited

fun status_string :: "receipt_status \<Rightarrow> string" where
  "status_string ReceiptPending = ''pending''"
| "status_string ReceiptReceived = ''received''"
| "status_string ReceiptStored = ''stored''"
| "status_string ReceiptRejected = ''rejected''"
| "status_string ReceiptStorageError = ''storage_error''"
| "status_string ReceiptRateLimited = ''rate_limited''"
| "status_string ReceiptDisabled = ''disabled''"

datatype inform_result = InformFailure | InformSuccess | InformPending

record monitor =
  mo_started :: int
  mo_stale_after :: int
  mo_upstream_at :: int
  mo_upstream_ok :: bool
  mo_inform_at :: int
  mo_inform_ok :: bool
  mo_adopted :: bool
  mo_receipt :: receipt_status
  mo_firmware :: receipt_status
  mo_ignored :: int
  mo_polls :: u64
  mo_poll_errors :: u64
  mo_informs :: u64
  mo_inform_errors :: u64
  mo_inform_pending :: u64

definition new_monitor :: "int \<Rightarrow> int \<Rightarrow> monitor" where
  "new_monitor now stale_after =
     \<lparr>mo_started = now, mo_stale_after = stale_after, mo_upstream_at = 0, mo_upstream_ok = False,
      mo_inform_at = 0, mo_inform_ok = False, mo_adopted = False, mo_receipt = ReceiptDisabled,
      mo_firmware = ReceiptDisabled, mo_ignored = 0, mo_polls = 0, mo_poll_errors = 0, mo_informs = 0,
      mo_inform_errors = 0, mo_inform_pending = 0\<rparr>"

definition record_config_receipt :: "receipt_status \<Rightarrow> monitor \<Rightarrow> monitor" where
  "record_config_receipt st m = m\<lparr>mo_receipt := st\<rparr>"

definition record_firmware_receipt :: "receipt_status \<Rightarrow> monitor \<Rightarrow> monitor" where
  "record_firmware_receipt st m = m\<lparr>mo_firmware := st\<rparr>"

definition set_ignored_settings :: "int \<Rightarrow> monitor \<Rightarrow> monitor" where
  "set_ignored_settings count m = (if count < 0 \<or> 5 < count then m else m\<lparr>mo_ignored := count\<rparr>)"

definition mark_poll :: "int \<Rightarrow> bool \<Rightarrow> monitor \<Rightarrow> monitor" where
  "mark_poll now ok m =
     (let m1 = m\<lparr>mo_polls := mo_polls m + 1,
                 mo_poll_errors := (if ok then mo_poll_errors m else mo_poll_errors m + 1),
                 mo_upstream_ok := ok\<rparr>
      in if ok then m1\<lparr>mo_upstream_at := now\<rparr> else m1)"

definition mark_inform :: "int \<Rightarrow> bool \<Rightarrow> inform_result \<Rightarrow> monitor \<Rightarrow> monitor" where
  "mark_inform now reached res m =
     (let m1 = m\<lparr>mo_informs := mo_informs m + 1\<rparr>;
          m2 = (case res of
                  InformSuccess \<Rightarrow> m1
                | InformPending \<Rightarrow> m1\<lparr>mo_inform_pending := mo_inform_pending m1 + 1\<rparr>
                | InformFailure \<Rightarrow> m1\<lparr>mo_inform_errors := mo_inform_errors m1 + 1\<rparr>);
          m3 = m2\<lparr>mo_inform_ok := reached\<rparr>
      in if reached then m3\<lparr>mo_inform_at := now\<rparr> else m3)"

definition set_adopted :: "bool \<Rightarrow> monitor \<Rightarrow> monitor" where
  "set_adopted v m = m\<lparr>mo_adopted := v\<rparr>"

section \<open>Snapshot\<close>

record health_snapshot =
  hs_firmware :: string
  hs_config :: string
  hs_ignored :: int
  hs_status :: string
  hs_fresh :: bool
  hs_reachable :: bool
  hs_adopted :: bool
  hs_uptime :: int

text \<open>\<open>Duration.Seconds\<close>, a binary64 sum of the whole and the fractional seconds, truncated.\<close>

definition truncated :: "rat \<Rightarrow> int" where
  "truncated v = (if 0 \<le> v then \<lfloor>v\<rfloor> else \<lceil>v\<rceil>)"

definition whole_seconds :: "int \<Rightarrow> int" where
  "whole_seconds d =
     (let s = (if 0 \<le> d then d div second else - ((- d) div second)); n = d - s * second in
      case fdiv (of_int n) (of_int second) of
        FNum q \<Rightarrow> (case round_rat (of_int s + q) of FNum v \<Rightarrow> truncated v | _ \<Rightarrow> 0)
      | _ \<Rightarrow> 0)"

definition upstream_fresh :: "int \<Rightarrow> monitor \<Rightarrow> bool" where
  "upstream_fresh now m \<longleftrightarrow>
     mo_upstream_ok m \<and> mo_upstream_at m \<noteq> 0 \<and> time_sub now (mo_upstream_at m) \<le> mo_stale_after m"

definition health_snapshot_of :: "int \<Rightarrow> monitor \<Rightarrow> health_snapshot \<times> bool" where
  "health_snapshot_of now m =
     (let fresh = upstream_fresh now m in
      (\<lparr>hs_firmware = status_string (mo_firmware m), hs_config = status_string (mo_receipt m),
        hs_ignored = mo_ignored m, hs_status = (if fresh then ''ready'' else ''not_ready''), hs_fresh = fresh,
        hs_reachable = mo_inform_ok m, hs_adopted = mo_adopted m,
        hs_uptime = whole_seconds (time_sub now (mo_started m))\<rparr>, fresh))"

section \<open>Pages\<close>

record page =
  pg_code :: nat
  pg_type :: string
  pg_body :: string

definition lf :: string where "lf = [CHR 0x0A]"

definition json_page :: "nat \<Rightarrow> json \<Rightarrow> page" where
  "json_page code j = \<lparr>pg_code = code, pg_type = ''application/json'', pg_body = marshal j @ lf\<rparr>"

definition snapshot_json :: "health_snapshot \<Rightarrow> json" where
  "snapshot_json s =
     JObj [(''reported_firmware_receipt'', JStr (hs_firmware s)), (''configuration_receipt'', JStr (hs_config s)),
           (''ignored_controller_setting_categories'', JNum (int_text (hs_ignored s))),
           (''status'', JStr (hs_status s)), (''upstream_fresh'', JBool (hs_fresh s)),
           (''controller_reachable'', JBool (hs_reachable s)), (''adopted'', JBool (hs_adopted s)),
           (''uptime_seconds'', JNum (int_text (hs_uptime s)))]"

definition bool_number :: "bool \<Rightarrow> string" where
  "bool_number v = (if v then ''1'' else ''0'')"

definition counter_text :: "u64 \<Rightarrow> string" where
  "counter_text n = dec_text (unat n)"

text \<open>One line per status; the firmware gauge has no line for a received receipt.\<close>

definition status_lines :: "string \<Rightarrow> receipt_status list \<Rightarrow> string \<Rightarrow> string list" where
  "status_lines metric sts current =
     map (\<lambda>st. metric @ ''{status='' @ CHR 0x22 # status_string st @ CHR 0x22 # ''} '' @
               bool_number (status_string st = current)) sts"

definition metrics_lines :: "monitor \<Rightarrow> health_snapshot \<Rightarrow> bool \<Rightarrow> string list" where
  "metrics_lines m s ready =
     [''# HELP n2u_ready Whether upstream NUT telemetry is fresh.'',
      ''# TYPE n2u_ready gauge'',
      ''n2u_ready '' @ bool_number ready,
      ''# TYPE n2u_controller_reachable gauge'',
      ''n2u_controller_reachable '' @ bool_number (hs_reachable s),
      ''# TYPE n2u_adopted gauge'',
      ''n2u_adopted '' @ bool_number (hs_adopted s),
      ''# TYPE n2u_nut_polls_total counter'',
      ''n2u_nut_polls_total '' @ counter_text (mo_polls m),
      ''# TYPE n2u_nut_poll_errors_total counter'',
      ''n2u_nut_poll_errors_total '' @ counter_text (mo_poll_errors m),
      ''# TYPE n2u_informs_total counter'',
      ''n2u_informs_total '' @ counter_text (mo_informs m),
      ''# TYPE n2u_inform_errors_total counter'',
      ''n2u_inform_errors_total '' @ counter_text (mo_inform_errors m),
      ''# HELP n2u_inform_pending_total HTTP 404 inform responses; adoption may be pending or the profile may be unrecognized.'',
      ''# TYPE n2u_inform_pending_total counter'',
      ''n2u_inform_pending_total '' @ counter_text (mo_inform_pending m),
      ''# HELP n2u_ignored_controller_setting_categories Unsupported setting categories in the last eligible configuration receipt; no settings are applied.'',
      ''# TYPE n2u_ignored_controller_setting_categories gauge'',
      ''n2u_ignored_controller_setting_categories '' @ int_text (hs_ignored s),
      ''# TYPE n2u_config_receipt_status gauge''] @
     status_lines ''n2u_config_receipt_status''
       [ReceiptDisabled, ReceiptPending, ReceiptReceived, ReceiptStored, ReceiptRejected, ReceiptStorageError, ReceiptRateLimited]
       (hs_config s) @
     [''# TYPE n2u_reported_firmware_receipt_status gauge''] @
     status_lines ''n2u_reported_firmware_receipt_status''
       [ReceiptDisabled, ReceiptPending, ReceiptStored, ReceiptRejected, ReceiptStorageError, ReceiptRateLimited]
       (hs_firmware s)"

definition serve_page :: "string \<Rightarrow> int \<Rightarrow> monitor \<Rightarrow> page option" where
  "serve_page path now m =
     (let (s, ready) = health_snapshot_of now m in
      if path = ''/healthz'' then Some (json_page 200 (JObj [(''status'', JStr ''alive'')]))
      else if path = ''/readyz'' then Some (json_page (if ready then 200 else 503) (snapshot_json s))
      else if path = ''/metrics'' then
        Some \<lparr>pg_code = 200, pg_type = ''text/plain; version=0.0.4; charset=utf-8'',
              pg_body = concat (map (\<lambda>l. l @ lf) (metrics_lines m s ready))\<rparr>
      else None)"

section \<open>Readiness over any history\<close>

datatype health_event =
    Polled int bool | Informed int bool inform_result | AdoptedSet bool
  | ConfigReceiptSet receipt_status | FirmwareReceiptSet receipt_status | IgnoredSet int

fun health_step :: "health_event \<Rightarrow> monitor \<Rightarrow> monitor" where
  "health_step (Polled now ok) m = mark_poll now ok m"
| "health_step (Informed now reached r) m = mark_inform now reached r m"
| "health_step (AdoptedSet v) m = set_adopted v m"
| "health_step (ConfigReceiptSet st) m = record_config_receipt st m"
| "health_step (FirmwareReceiptSet st) m = record_firmware_receipt st m"
| "health_step (IgnoredSet n) m = set_ignored_settings n m"

fun polls_of :: "health_event list \<Rightarrow> (int \<times> bool) list" where
  "polls_of [] = []"
| "polls_of (Polled now ok # es) = (now, ok) # polls_of es"
| "polls_of (_ # es) = polls_of es"

fun informs_of :: "health_event list \<Rightarrow> (bool \<times> inform_result) list" where
  "informs_of [] = []"
| "informs_of (Informed now reached r # es) = (reached, r) # informs_of es"
| "informs_of (_ # es) = informs_of es"

lemma polls_of_append [simp]: "polls_of (es @ fs) = polls_of es @ polls_of fs"
  by (induction es rule: polls_of.induct) simp_all

lemma informs_of_append [simp]: "informs_of (es @ fs) = informs_of es @ informs_of fs"
  by (induction es rule: informs_of.induct) simp_all

text \<open>What the monitor holds after a history, next to the history itself.\<close>

definition monitor_tracks :: "int \<Rightarrow> health_event list \<Rightarrow> monitor \<Rightarrow> bool" where
  "monitor_tracks stale es m \<longleftrightarrow>
     mo_stale_after m = stale \<and> 0 \<le> mo_ignored m \<and> mo_ignored m \<le> 5 \<and>
     mo_polls m = of_nat (length (polls_of es)) \<and>
     mo_poll_errors m = of_nat (length (filter (\<lambda>p. \<not> snd p) (polls_of es))) \<and>
     mo_informs m = of_nat (length (informs_of es)) \<and>
     mo_inform_errors m = of_nat (length (filter (\<lambda>i. snd i = InformFailure) (informs_of es))) \<and>
     mo_inform_pending m = of_nat (length (filter (\<lambda>i. snd i = InformPending) (informs_of es))) \<and>
     mo_upstream_ok m = (polls_of es \<noteq> [] \<and> snd (last (polls_of es))) \<and>
     (mo_upstream_ok m \<longrightarrow> mo_upstream_at m = fst (last (polls_of es))) \<and>
     mo_inform_ok m = (informs_of es \<noteq> [] \<and> fst (last (informs_of es)))"

lemma monitor_tracks_start: "monitor_tracks stale [] (new_monitor now stale)"
  by (simp add: monitor_tracks_def new_monitor_def)

lemma monitor_tracks_step: "monitor_tracks stale es m \<Longrightarrow> monitor_tracks stale (es @ [e]) (health_step e m)"
  by (cases e) (auto simp: monitor_tracks_def mark_poll_def mark_inform_def set_adopted_def
      record_config_receipt_def record_firmware_receipt_def set_ignored_settings_def Let_def split: inform_result.splits)

lemma monitor_tracks_all: "monitor_tracks stale es (foldl (\<lambda>m e. health_step e m) (new_monitor t stale) es)"
proof (induction es rule: rev_induct)
  case (snoc e es)
  then show ?case using monitor_tracks_step by simp
qed (simp add: monitor_tracks_start)

text \<open>The number of informs of a history that ended in a given way.\<close>

definition informs_ending :: "inform_result \<Rightarrow> health_event list \<Rightarrow> nat" where
  "informs_ending r es = length (filter (\<lambda>i. snd i = r) (informs_of es))"

text \<open>
  C37: Readiness is exactly the freshness of the last poll: whatever polls, informs and
  receipts came before, the page \<open>/readyz\<close> answers 200 when the last poll succeeded no longer
  than the stale time ago and 503 otherwise, and \<open>/healthz\<close> always answers 200.  Every counter counts
  its own events, as a 64-bit counter: the polls, the polls that failed, the informs, the informs that
  failed and the informs that are pending; and the metrics page has them under these names.
\<close>

theorem readiness_exact:
  "let m = foldl (\<lambda>m e. health_step e m) (new_monitor t stale) es;
       ready = (case rev (polls_of es) of [] \<Rightarrow> False
                | (polled, ok) # _ \<Rightarrow> ok \<and> polled \<noteq> 0 \<and> time_sub now polled \<le> stale)
   in map_option pg_code (serve_page ''/readyz'' now m) = Some (if ready then 200 else 503) \<and>
      map_option pg_code (serve_page ''/healthz'' now m) = Some 200 \<and>
      mo_polls m = of_nat (length (polls_of es)) \<and>
      mo_poll_errors m = of_nat (length (filter (\<lambda>p. \<not> snd p) (polls_of es))) \<and>
      mo_informs m = of_nat (length (informs_of es)) \<and>
      mo_inform_errors m = of_nat (informs_ending InformFailure es) \<and>
      mo_inform_pending m = of_nat (informs_ending InformPending es) \<and>
      set [''n2u_nut_polls_total '' @ counter_text (of_nat (length (polls_of es))),
           ''n2u_nut_poll_errors_total '' @ counter_text (of_nat (length (filter (\<lambda>p. \<not> snd p) (polls_of es)))),
           ''n2u_informs_total '' @ counter_text (of_nat (length (informs_of es))),
           ''n2u_inform_errors_total '' @ counter_text (of_nat (informs_ending InformFailure es)),
           ''n2u_inform_pending_total '' @ counter_text (of_nat (informs_ending InformPending es))]
        \<subseteq> set (metrics_lines m (fst (health_snapshot_of now m)) ready)"
proof -
  let ?m = "foldl (\<lambda>m e. health_step e m) (new_monitor t stale) es"
  note tracks = monitor_tracks_all [of stale es t, unfolded monitor_tracks_def]
  have "rev (polls_of es) = (if polls_of es = [] then [] else last (polls_of es) # tl (rev (polls_of es)))"
    by (metis hd_rev list.collapse rev_is_Nil_conv)
  moreover have "mo_polls ?m = of_nat (length (polls_of es))" "mo_informs ?m = of_nat (length (informs_of es))"
      "mo_poll_errors ?m = of_nat (length (filter (\<lambda>p. \<not> snd p) (polls_of es)))"
      "mo_inform_errors ?m = of_nat (informs_ending InformFailure es)" "mo_inform_pending ?m = of_nat (informs_ending InformPending es)"
    using tracks by (simp_all add: informs_ending_def)
  moreover from this have "set [''n2u_nut_polls_total '' @ counter_text (of_nat (length (polls_of es))),
           ''n2u_nut_poll_errors_total '' @ counter_text (of_nat (length (filter (\<lambda>p. \<not> snd p) (polls_of es)))),
           ''n2u_informs_total '' @ counter_text (of_nat (length (informs_of es))),
           ''n2u_inform_errors_total '' @ counter_text (of_nat (informs_ending InformFailure es)),
           ''n2u_inform_pending_total '' @ counter_text (of_nat (informs_ending InformPending es))]
        \<subseteq> set (metrics_lines ?m s ready)" for s ready
    unfolding metrics_lines_def by (simp only: set_append list.set insert_subset empty_subsetI Un_iff insert_iff simp_thms)
  ultimately show ?thesis
    using tracks
    by (auto simp: serve_page_def health_snapshot_of_def upstream_fresh_def json_page_def
        Let_def split_beta split: list.splits simp del: set_simps)
qed

end
