(* ===== verification/FloatText.thy ===== *)
theory FloatText
  imports GoFloat JsonPrint
begin

text \<open>
  \<open>strconv.FormatFloat\<close> as \<open>encoding/json\<close> and the system statistics use it: the decimal
  with the fewest digits that reads back as the value (the nearest one, ties to even), in
  positional notation between 1e-6 and 1e21 and with an exponent outside, and one decimal
  for \<open>'f', 1\<close>.  Seventeen digits always read back.
\<close>

fun lead_shift :: "nat \<Rightarrow> rat \<Rightarrow> nat" where
  "lead_shift 0 x = 0"
| "lead_shift (Suc f) x = (if 1 \<le> x then 0 else Suc (lead_shift f (x * 10)))"

definition dec_exp :: "rat \<Rightarrow> int" where
  "dec_exp x = (if 1 \<le> x then int (length (dec_text (nat \<lfloor>x\<rfloor>))) - 1 else - int (lead_shift 400 x))"

definition pow10 :: "int \<Rightarrow> rat" where
  "pow10 k = (if 0 \<le> k then 10 ^ nat k else 1 / 10 ^ nat (- k))"

definition reads_back :: "rat \<Rightarrow> rat \<Rightarrow> bool" where
  "reads_back x y \<longleftrightarrow> round_rat y = FNum x"

text \<open>The best decimal of \<open>x\<close> with \<open>n\<close> digits, if one reads back.\<close>

definition decimal_of :: "rat \<Rightarrow> nat \<Rightarrow> int option" where
  "decimal_of x n =
     (let sc = pow10 (int n - 1 - dec_exp x); lo = \<lfloor>x * sc\<rfloor>;
          okl = reads_back x (of_int lo / sc); okh = reads_back x (of_int (lo + 1) / sc); d = x * sc - of_int lo
      in if okl \<and> okh then Some (if d < 1 / 2 \<or> d = 1 / 2 \<and> even lo then lo else lo + 1)
         else if okl then Some lo else if okh then Some (lo + 1) else None)"

fun shortest :: "nat \<Rightarrow> rat \<Rightarrow> nat \<Rightarrow> int \<times> nat" where
  "shortest 0 x n = (\<lfloor>x * pow10 (int n - 1 - dec_exp x)\<rfloor>, n)"
| "shortest (Suc f) x n = (case decimal_of x n of Some d \<Rightarrow> (d, n) | None \<Rightarrow> shortest f x (Suc n))"

text \<open>The significant digits and the position of the point relative to their start.\<close>

definition float_digits :: "rat \<Rightarrow> string \<times> int" where
  "float_digits x =
     (let (d, n) = shortest 17 x 1; ds = dec_text (nat d); p = dec_exp x - int n + 1 + int (length ds)
      in (rev (dropWhile (\<lambda>c. c = CHR ''0'') (rev ds)), p))"

definition positional :: "string \<Rightarrow> int \<Rightarrow> string" where
  "positional ds p =
     (if p \<le> 0 then ''0.'' @ replicate (nat (- p)) (CHR ''0'') @ ds
      else if int (length ds) \<le> p then ds @ replicate (nat p - length ds) (CHR ''0'')
      else take (nat p) ds @ CHR ''.'' # drop (nat p) ds)"

definition exponential :: "string \<Rightarrow> int \<Rightarrow> string" where
  "exponential ds p =
     (let e = p - 1; es = dec_text (nat \<bar>e\<bar>);
          m = (if tl ds = [] then ds else hd ds # CHR ''.'' # tl ds)
      in m @ (if e < 0 then ''e-'' @ es else ''e+'' @ (if length es < 2 then CHR ''0'' # es else es)))"

definition float_text :: "rat \<Rightarrow> string" where
  "float_text x =
     (if x = 0 then ''0''
      else let a = \<bar>x\<bar>; (ds, p) = float_digits a; body = (if a < 1 / 1000000 \<or> 10 ^ 21 \<le> a then exponential ds p else positional ds p)
           in (if x < 0 then CHR ''-'' # body else body))"

text \<open>\<open>FormatFloat(v, 'f', 1, 64)\<close>: tenths, half to even on the exact value.\<close>

definition one_decimal_text :: "rat \<Rightarrow> string" where
  "one_decimal_text x =
     (let (n, d) = quotient_of \<bar>x\<bar>; t = nat (round_half_even (10 * n) d)
      in (if x < 0 then [CHR ''-''] else []) @ dec_text (t div 10) @ CHR ''.'' # dec_text (t mod 10))"

end
