(* ===== verification/DeviceProfile.thy ===== *)
theory DeviceProfile
  imports Receipts FloatText
begin

text \<open>
  The first half of \<open>internal/unifi/inform/uspda2c.go\<close>: the two pinned device profiles and
  the types of a power-device report.  A pointer field of the Go structs is an option; a
  time is nanoseconds since Go's zero time, which is 0.
\<close>

section \<open>Profiles\<close>

definition model_pro :: string where "model_pro = ''USPDA2C''"
definition model_ups :: string where "model_ups = ''USWDA26''"

definition cap_power_meter :: nat where "cap_power_meter = 2"
definition cap_ac :: nat where "cap_ac = 65536"
definition cap_usb :: nat where "cap_usb = 131072"

definition smart_nut_access :: nat where "smart_nut_access = 1"
definition smart_safe_shutdown :: nat where "smart_safe_shutdown = 8"

definition max_runtime_seconds :: nat where "max_runtime_seconds = 31 * 24 * 60 * 60"

datatype topology_source = TopologyProfile | CarrierFallback | ObservedNUT | OtherSource string

record device_profile =
  dp_model :: string
  dp_version :: string

record profile_metadata =
  pm_model :: string
  pm_display :: string
  pm_platform :: string
  pm_guid :: string
  pm_firmware :: string
  pm_discovery :: string
  pm_full :: string
  pm_sysid :: int
  pm_outlets :: nat

record profile_spec =
  ps_meta :: profile_metadata
  ps_known :: bool
  ps_required :: string
  ps_fw :: int
  ps_hw :: int
  ps_syserr :: int
  ps_adoption :: int
  ps_smart :: nat
  ps_outlet_caps :: "int list"

definition pro_spec :: profile_spec where
  "pro_spec =
     \<lparr>ps_meta = \<lparr>pm_model = ''UPS-2U-Pro'', pm_display = ''UPS Pro'', pm_platform = ''USPDA2x'', pm_guid = [],
        pm_firmware = ''1.6.1.4933'', pm_discovery = ''1.6.1.4933'',
        pm_full = ''USPDA2x.esp32s3.v1.6.1.4933.a9814b.260723.1639'', pm_sysid = 0xda2c, pm_outlets = 9\<rparr>,
      ps_known = True, ps_required = ''0.0.0'', ps_fw = 16779264, ps_hw = 136, ps_syserr = 0,
      ps_adoption = 2, ps_smart = 223, ps_outlet_caps = replicate 9 65539\<rparr>"

definition ups_spec :: profile_spec where
  "ups_spec =
     \<lparr>ps_meta = \<lparr>pm_model = ''UPS26'', pm_display = ''UPS26'', pm_platform = ''UPS26'',
        pm_guid = ''317875ca-ad3e-47e9-9430-47e3e2e1ab3d'',
        pm_firmware = ''1.6.1.413'', pm_discovery = ''1.6.1.413'',
        pm_full = ''UPS2U.esp32.v1.6.1.g5457.260723.0556'', pm_sysid = 0xda26, pm_outlets = 8\<rparr>,
      ps_known = True, ps_required = ''1.3.4'', ps_fw = 16779264, ps_hw = 128, ps_syserr = 0,
      ps_adoption = 2, ps_smart = 143, ps_outlet_caps = replicate 4 65549 @ replicate 4 65541\<rparr>"

definition spec_for_profile :: "device_profile \<Rightarrow> (string, profile_spec) result" where
  "spec_for_profile p =
     (if dp_model p = model_pro then
        guard (dp_version p \<noteq> [] \<and> dp_version p \<noteq> ''1.6.1'' \<and> dp_version p \<noteq> ''1.6.1.4933'')
          ''inform: USPDA2C profile requires firmware 1.6.1.4933'' (Inr pro_spec)
      else if dp_model p = model_ups then
        guard (dp_version p \<noteq> ''1.6.1'' \<and> dp_version p \<noteq> ''1.6.1.413'')
          ''inform: USWDA26 profile requires firmware 1.6.1.413'' (Inr ups_spec)
      else Inl ''inform: unsupported power-device profile'')"

definition resolve_profile :: "device_profile \<Rightarrow> (string, profile_metadata) result" where
  "resolve_profile p = (case spec_for_profile p of Inl e \<Rightarrow> Inl e | Inr s \<Rightarrow> Inr (ps_meta s))"

definition read_only_smart_power :: "device_profile \<Rightarrow> (string, nat) result" where
  "read_only_smart_power p =
     (case spec_for_profile p of
        Inl e \<Rightarrow> Inl e
      | Inr s \<Rightarrow> Inr (and (ps_smart s) (or smart_nut_access smart_safe_shutdown)))"

section \<open>Reports\<close>

record device_identity =
  di_mac :: string
  di_serial :: string
  di_hostname :: string
  di_ip :: string
  di_inform_ip :: string
  di_guid :: string
  di_hash :: string
  di_anon :: string
  di_board_rev :: "int option"
  di_manufacturer :: "int option"
  di_required :: string
  di_beacon :: bool
  di_discovery :: bool
  di_locating :: bool

record capabilities =
  cap_fw :: "int option"
  cap_hw :: "int option"
  cap_syserr :: "int option"
  cap_adoption :: "int option"
  cap_smart :: "int option"

record battery_pool =
  bp_available :: "int option"
  bp_level :: "int option"
  bp_budget :: "int option"
  bp_power :: "float64 option"
  bp_factor :: "float64 option"
  bp_output_v :: "float64 option"
  bp_input_v :: "float64 option"
  bp_output_a :: "float64 option"
  bp_charging :: "bool option"
  bp_ready :: "int option"
  bp_runtime :: "nat option"

record vbms =
  vb_battery :: battery_pool
  vb_epo :: "bool option"
  vb_thd :: "int option"
  vb_battery_mode :: "bool option"
  vb_avr :: "string option"
  vb_count :: "int option"
  vb_anomaly :: "nat option"
  vb_version :: "string option"
  vb_log :: "string option"

record interface_telemetry =
  it_mac :: string
  it_ip :: string
  it_netmask :: string
  it_up :: "bool option"

record nut_server =
  ns_enabled :: bool
  ns_id :: string
  ns_port :: int

record outlet_report =
  or_index :: int
  or_name :: string
  or_caps :: "int option"
  or_relay_group :: int
  or_relay :: "bool option"
  or_button_group :: int
  or_button :: "bool option"
  or_voltage :: "float64 option"
  or_current :: "float64 option"
  or_power :: "int option"
  or_factor :: "float64 option"
  or_energy1 :: "float64 option"
  or_energy7 :: "float64 option"
  or_energy30 :: "float64 option"

record power_report =
  pr_reported :: string
  pr_profile :: device_profile
  pr_source :: topology_source
  pr_identity :: device_identity
  pr_adoption :: adoption_state
  pr_observed :: int
  pr_uptime :: int
  pr_last_inform :: int
  pr_caps :: capabilities
  pr_memory :: "float64 option"
  pr_cpu :: "float64 option"
  pr_vbms :: vbms
  pr_interface :: interface_telemetry
  pr_outlets :: "outlet_report list"
  pr_beep :: "bool option"
  pr_nut :: "nut_server option"

section \<open>Validators\<close>

definition valid_optional_text :: "string \<Rightarrow> nat \<Rightarrow> bool" where
  "valid_optional_text v maximum \<longleftrightarrow> length v \<le> maximum \<and> no_control v"

definition valid_text :: "string \<Rightarrow> nat \<Rightarrow> bool" where
  "valid_text v maximum \<longleftrightarrow> v \<noteq> [] \<and> valid_optional_text v maximum"

definition valid_hash_id :: "string \<Rightarrow> bool" where
  "valid_hash_id v \<longleftrightarrow>
     length v = 16 \<and> v = to_lower v \<and>
     (case hex_decode v of Some bs \<Rightarrow> length bs = 8 \<and> \<not> zero_bytes bs | None \<Rightarrow> False)"

definition valid_uuid_text :: "string \<Rightarrow> bool" where
  "valid_uuid_text v \<longleftrightarrow>
     length v = 36 \<and> v = to_lower v \<and> v ! 8 = CHR ''-'' \<and> v ! 13 = CHR ''-'' \<and> v ! 18 = CHR ''-'' \<and> v ! 23 = CHR ''-'' \<and>
     (case hex_decode (remove_char (CHR ''-'') v) of Some bs \<Rightarrow> length bs = 16 \<and> \<not> zero_bytes bs | None \<Rightarrow> False)"

definition max_float64 :: rat where
  "max_float64 = of_int ((2 ^ 53 - 1) * 2 ^ 971)"

fun finite_range :: "float64 \<Rightarrow> rat \<Rightarrow> rat \<Rightarrow> bool" where
  "finite_range (FNum v) lo hi = (lo \<le> v \<and> v \<le> hi)"
| "finite_range _ lo hi = False"

definition optional_float_range :: "float64 option \<Rightarrow> rat \<Rightarrow> rat \<Rightarrow> bool" where
  "optional_float_range v lo hi = (case v of None \<Rightarrow> True | Some x \<Rightarrow> finite_range x lo hi)"

definition max_int :: int where "max_int = 2 ^ 63 - 1"

definition optional_int_range :: "int option \<Rightarrow> int \<Rightarrow> int \<Rightarrow> bool" where
  "optional_int_range v lo hi = (case v of None \<Rightarrow> True | Some x \<Rightarrow> lo \<le> x \<and> x \<le> hi)"

definition valid_optional_text_pointer :: "string option \<Rightarrow> nat \<Rightarrow> bool" where
  "valid_optional_text_pointer v maximum = (case v of None \<Rightarrow> True | Some t \<Rightarrow> valid_optional_text t maximum)"

fun validate_capability :: "bool \<Rightarrow> (int option \<times> int) list \<Rightarrow> (string, unit) result" where
  "validate_capability known [] = Inr ()"
| "validate_capability known ((None, expected) # rest) = validate_capability known rest"
| "validate_capability known ((Some v, expected) # rest) =
     guard (v < 0) ''inform: negative capability bitmap'' (
     guard (known \<and> v \<noteq> expected) ''inform: capability bitmap does not match firmware profile''
       (validate_capability known rest))"

text \<open>\<open>*v &^ mask != 0\<close>: a bit of \<open>v\<close> outside the mask.\<close>

definition outside_mask :: "int \<Rightarrow> int \<Rightarrow> bool" where
  "outside_mask v allowed \<longleftrightarrow> and v (not allowed) \<noteq> 0"

definition validate_capabilities :: "capabilities \<Rightarrow> profile_spec \<Rightarrow> (string, unit) result" where
  "validate_capabilities c s =
     (case validate_capability (ps_known s)
        [(cap_fw c, ps_fw s), (cap_hw c, ps_hw s), (cap_syserr c, ps_syserr s), (cap_adoption c, ps_adoption s)] of
        Inl e \<Rightarrow> Inl e
      | Inr () \<Rightarrow>
          (case cap_smart c of
             None \<Rightarrow> Inr ()
           | Some v \<Rightarrow>
               guard (v < 0 \<or> ps_known s \<and> outside_mask v (int (ps_smart s)))
                 ''inform: smart-power capability bitmap is not a firmware-supported subset'' (Inr ())))"

definition resolve_capabilities :: "capabilities \<Rightarrow> profile_spec \<Rightarrow> capabilities" where
  "resolve_capabilities c s =
     (if \<not> ps_known s then c
      else \<lparr>cap_fw = Some (ps_fw s), cap_hw = Some (ps_hw s), cap_syserr = Some (ps_syserr s),
            cap_adoption = Some (ps_adoption s),
            cap_smart = Some (case cap_smart c of Some v \<Rightarrow> v | None \<Rightarrow> int (ps_smart s))\<rparr>)"

end
