(* ===== verification/Payload.thy ===== *)
theory Payload
  imports DeviceProfile UpsModel
begin

text \<open>
  The second half of \<open>internal/unifi/inform/uspda2c.go\<close>: the validation of a power-device
  report, guard by guard in the order of the code, and the JSON payload built from it.
\<close>

section \<open>Outlets\<close>

definition wire_index :: "nat \<Rightarrow> outlet_report \<Rightarrow> int" where
  "wire_index offset o1 = (if or_index o1 = 0 then int offset + 1 else or_index o1)"

text \<open>The groups seen so far with their relay state (0 unknown, 1 off, 2 on), and the next group.\<close>

record group_scan =
  gs_states :: "int \<rightharpoonup> nat"
  gs_next :: int

definition relay_code :: "bool option \<Rightarrow> nat" where
  "relay_code r = (case r of None \<Rightarrow> 0 | Some False \<Rightarrow> 1 | Some True \<Rightarrow> 2)"

definition check_common :: "nat \<Rightarrow> nat \<Rightarrow> outlet_report \<Rightarrow> (string, unit) result" where
  "check_common n offset o1 =
     guard (\<not> valid_text (or_name o1) 128) ''inform: invalid outlet name'' (
     guard (\<not> optional_int_range (or_caps o1) 0 max_int \<or> \<not> optional_int_range (or_power o1) 0 max_int \<or>
            or_relay_group o1 < 1 \<or> int n < or_relay_group o1 \<or> or_button_group o1 < 0 \<or> int n < or_button_group o1 \<or>
            \<not> optional_float_range (or_factor o1) 0 1)
       ''inform: invalid outlet measurement or group'' (
     guard (wire_index offset o1 \<noteq> int offset + 1) ''inform: outlet indices must be contiguous and ordered'' (Inr ())))"

definition check_projected :: "bool \<Rightarrow> outlet_report \<Rightarrow> group_scan \<Rightarrow> (string, group_scan) result" where
  "check_projected carrier o1 g =
     (case or_caps o1 of
        None \<Rightarrow> Inl ''inform: projected outlet requires explicit index and capabilities''
      | Some caps \<Rightarrow>
          (let allowed = (if carrier then int cap_ac else int (or cap_power_meter (or cap_ac cap_usb)));
               physical = and caps (int (or cap_ac cap_usb));
               grp = or_relay_group o1; seen = gs_states g grp \<noteq> None; st = relay_code (or_relay o1) in
           guard (or_index o1 = 0) ''inform: projected outlet requires explicit index and capabilities'' (
           guard (outside_mask caps allowed) ''inform: projected outlet has unsupported capabilities'' (
           guard (physical \<noteq> int cap_ac \<and> physical \<noteq> int cap_usb)
             ''inform: projected outlet requires exactly one physical type'' (
           guard (or_button_group o1 \<noteq> 0 \<or> or_button o1 \<noteq> None)
             ''inform: projected topology cannot infer physical buttons'' (
           guard (\<not> seen \<and> grp \<noteq> gs_next g)
             ''inform: observed NUT relay groups must be dense in first-occurrence order'' (
           guard (case gs_states g grp of Some prior \<Rightarrow> prior \<noteq> st | None \<Rightarrow> False)
             ''inform: observed NUT relay group states must be consistent'' (
           guard ((or_current o1 \<noteq> None \<or> or_power o1 \<noteq> None) \<and> and caps (int cap_power_meter) = 0)
             ''inform: observed NUT current or power requires POWER_METER capability'' (
           guard (or_energy1 o1 \<noteq> None \<or> or_energy7 o1 \<noteq> None \<or> or_energy30 o1 \<noteq> None)
             ''inform: observed NUT topology has no rolling-energy projection'' (
           guard (carrier \<and> (caps \<noteq> int cap_ac \<or> or_relay o1 \<noteq> None \<or> or_voltage o1 \<noteq> None \<or>
                  or_current o1 \<noteq> None \<or> or_power o1 \<noteq> None \<or> or_factor o1 \<noteq> None))
             ''inform: carrier fallback may expose only AC-compatible topology''
             (Inr (g\<lparr>gs_states := (gs_states g)(grp \<mapsto> st),
                     gs_next := (if seen then gs_next g else gs_next g + 1)\<rparr>))))))))))))"

definition has_telemetry :: "outlet_report \<Rightarrow> bool" where
  "has_telemetry o1 \<longleftrightarrow>
     or_voltage o1 \<noteq> None \<or> or_current o1 \<noteq> None \<or> or_power o1 \<noteq> None \<or> or_factor o1 \<noteq> None \<or>
     or_energy1 o1 \<noteq> None \<or> or_energy7 o1 \<noteq> None \<or> or_energy30 o1 \<noteq> None"

definition check_profile_outlet :: "string \<Rightarrow> profile_spec \<Rightarrow> nat \<Rightarrow> outlet_report \<Rightarrow> (string, unit) result" where
  "check_profile_outlet model s offset o1 =
     (let caps_bad = (case or_caps o1 of Some c \<Rightarrow> c \<noteq> ps_outlet_caps s ! offset | None \<Rightarrow> False) in
      if model = model_ups then
        guard (or_relay_group o1 \<noteq> int (offset div 4) + 1 \<or> or_button_group o1 \<noteq> (if offset < 4 then 1 else 0))
          ''inform: USWDA26 outlets require 4+4 relay groups and buttons only on outlets 1-4'' (
        guard (4 \<le> offset \<and> or_button o1 \<noteq> None) ''inform: USWDA26 surge outlets do not expose button state'' (
        guard (has_telemetry o1) ''inform: USWDA26 firmware does not expose per-outlet electrical telemetry'' (
        guard caps_bad ''inform: USWDA26 outlet capabilities do not match firmware profile'' (Inr ()))))
      else if model = model_pro then
        guard (or_relay_group o1 \<noteq> int offset + 1 \<or> or_button_group o1 \<noteq> int offset + 1)
          ''inform: USPDA2C outlets require individual relay/button groups'' (
        guard caps_bad ''inform: USPDA2C outlet capabilities do not match firmware profile'' (Inr ()))
      else Inr ())"

definition check_measurements :: "outlet_report \<Rightarrow> (string, unit) result" where
  "check_measurements o1 =
     guard (\<not> list_all (\<lambda>v. optional_float_range v 0 max_float64)
        [or_voltage o1, or_current o1, or_energy1 o1, or_energy7 o1, or_energy30 o1])
       ''inform: invalid outlet measurement'' (Inr ())"

definition check_outlet :: "topology_source \<Rightarrow> string \<Rightarrow> profile_spec \<Rightarrow> nat \<Rightarrow> nat \<Rightarrow> outlet_report \<Rightarrow> group_scan \<Rightarrow>
    (string, group_scan) result" where
  "check_outlet src model s n offset o1 g =
     (case check_common n offset o1 of
        Inl e \<Rightarrow> Inl e
      | Inr () \<Rightarrow>
          (case (if src = CarrierFallback \<or> src = ObservedNUT then check_projected (src = CarrierFallback) o1 g else Inr g) of
             Inl e \<Rightarrow> Inl e
           | Inr g' \<Rightarrow>
               (case (if src = TopologyProfile then check_profile_outlet model s offset o1 else Inr ()) of
                  Inl e \<Rightarrow> Inl e
                | Inr () \<Rightarrow> (case check_measurements o1 of Inl e \<Rightarrow> Inl e | Inr () \<Rightarrow> Inr g'))))"

fun check_outlets :: "topology_source \<Rightarrow> string \<Rightarrow> profile_spec \<Rightarrow> nat \<Rightarrow> nat \<Rightarrow> outlet_report list \<Rightarrow> group_scan \<Rightarrow>
    (string, group_scan) result" where
  "check_outlets src model s n offset [] g = Inr g"
| "check_outlets src model s n offset (o1 # os) g =
     (case check_outlet src model s n offset o1 g of
        Inl e \<Rightarrow> Inl e
      | Inr g' \<Rightarrow> check_outlets src model s n (Suc offset) os g')"

definition no_scan :: group_scan where "no_scan = \<lparr>gs_states = Map.empty, gs_next = 1\<rparr>"

section \<open>The report\<close>

text \<open>\<open>net.ParseMAC\<close> and the tests on a device MAC.\<close>

definition device_mac :: "string \<Rightarrow> byte list option" where
  "device_mac v =
     (case parse_mac v of
        Some hw \<Rightarrow> if length hw = 6 \<and> and (hw ! 0) 1 = 0 then Some hw else None
      | None \<Rightarrow> None)"

definition check_identity_part :: "device_identity \<Rightarrow> profile_spec \<Rightarrow> (string, unit) result" where
  "check_identity_part i s =
     guard (case device_mac (di_mac i) of None \<Rightarrow> True | Some hw \<Rightarrow> zero_bytes hw)
       ''inform: invalid power-device identity MAC'' (
     guard (\<not> valid_text (di_serial i) 128 \<or> \<not> valid_text (di_hostname i) 63 \<or> \<not> valid_uuid_text (di_guid i) \<or>
            \<not> valid_hash_id (di_hash i) \<or> \<not> valid_uuid_text (di_anon i))
       ''inform: incomplete power-device identity'' (
     guard (di_required i \<noteq> [] \<and>
            (\<not> valid_config_value (di_required i) 128 \<or> ps_required s \<noteq> [] \<and> di_required i \<noteq> ps_required s))
       ''inform: required_version does not match firmware profile'' (
     guard (parse_ip_to4 (di_ip i) = None \<or> parse_ip_to4 (di_inform_ip i) = None)
       ''inform: power-device identity requires IPv4 addresses'' (Inr ()))))"

text \<open>Seconds of the Unix epoch of a Go time.\<close>

definition unix :: "int \<Rightarrow> int" where "unix t = t div second - 62135596800"

definition check_times :: "power_report \<Rightarrow> (string, unit) result" where
  "check_times r =
     guard (pr_observed r = 0 \<or> unix (pr_observed r) < 0 \<or>
            pr_last_inform r \<noteq> 0 \<and> (unix (pr_last_inform r) < 0 \<or> pr_observed r < pr_last_inform r) \<or> pr_uptime r < 0)
       ''inform: invalid power-device timestamps'' (Inr ())"

definition check_system :: "power_report \<Rightarrow> (string, unit) result" where
  "check_system r =
     guard (\<not> optional_float_range (pr_memory r) 0 100 \<or> \<not> optional_float_range (pr_cpu r) 0 100)
       ''inform: invalid system utilization'' (
     guard (case pr_nut r of None \<Rightarrow> False
            | Some n \<Rightarrow> \<not> ns_enabled n \<or> \<not> valid_token (ns_id n) 31 \<or> ns_port n < 1 \<or> 65535 < ns_port n)
       ''inform: invalid NUT server advertisement'' (Inr ()))"

definition check_battery :: "vbms \<Rightarrow> (string, unit) result" where
  "check_battery v =
     (let b = vb_battery v in
      guard (\<not> optional_int_range (bp_available b) 0 max_int \<or> \<not> optional_int_range (bp_ready b) 0 max_int \<or>
             \<not> optional_int_range (bp_level b) 0 100 \<or> \<not> optional_int_range (bp_budget b) 0 max_int)
        ''inform: invalid battery counters'' (
      guard (case (bp_available b, bp_ready b) of (Some a, Some q) \<Rightarrow> a < q | _ \<Rightarrow> False)
        ''inform: battery ready count exceeds available count'' (
      guard (case bp_runtime b of Some t \<Rightarrow> max_runtime_seconds < t | None \<Rightarrow> False)
        ''inform: battery runtime exceeds safety bound'' (
      guard (\<not> list_all (\<lambda>x. optional_float_range x 0 max_float64) [bp_power b, bp_output_v b, bp_input_v b, bp_output_a b])
        ''inform: invalid battery measurement'' (
      guard (\<not> optional_float_range (bp_factor b) 0 1 \<or> \<not> optional_int_range (vb_count v) 0 max_int \<or>
             \<not> optional_int_range (vb_thd v) 0 max_int)
        ''inform: invalid battery power factor'' (
      guard (case vb_avr v of Some m \<Rightarrow> m \<notin> {''false'', ''boost'', ''buck''} | None \<Rightarrow> False)
        ''inform: invalid AVR mode'' (
      guard (\<not> valid_optional_text_pointer (vb_version v) 128 \<or> \<not> valid_optional_text_pointer (vb_log v) 4096)
        ''inform: invalid BMS metadata'' (Inr ()))))))))"

definition check_interface :: "power_report \<Rightarrow> (string, unit) result" where
  "check_interface r =
     (let f = pr_interface r; i = pr_identity r in
      guard (case (device_mac (it_mac f), parse_mac (di_mac i)) of
               (Some hw, Some own) \<Rightarrow> \<not> equal_fold (mac_text hw) (mac_text own)
             | _ \<Rightarrow> True)
        ''inform: interface MAC must match device identity'' (
      guard (parse_ip_to4 (it_ip f) = None \<or>
             (case parse_ip_to4 (it_netmask f) of None \<Rightarrow> True | Some m \<Rightarrow> mask_size m = None) \<or>
             it_ip f \<noteq> di_ip i)
        ''inform: invalid interface IPv4 configuration'' (Inr ())))"

definition check_topology :: "power_report \<Rightarrow> profile_spec \<Rightarrow> (string, unit) result" where
  "check_topology r s =
     (let n = length (pr_outlets r); want = pm_outlets (ps_meta s) in
      case pr_source r of
        TopologyProfile \<Rightarrow> guard (n \<noteq> want) ''inform: profile requires exactly the outlets of its model'' (Inr ())
      | CarrierFallback \<Rightarrow> guard (n \<noteq> want) ''inform: carrier fallback requires exactly the outlets of its model'' (Inr ())
      | ObservedNUT \<Rightarrow> guard (n < 1 \<or> max_outlet_count < n) ''inform: observed NUT topology requires 1..64 outlets'' (Inr ())
      | OtherSource t \<Rightarrow> Inl ''inform: invalid outlet topology source'')"

definition then_check :: "(string, unit) result \<Rightarrow> (string, unit) result \<Rightarrow> (string, unit) result" where
  "then_check a b = (case a of Inl e \<Rightarrow> Inl e | Inr () \<Rightarrow> b)"

definition validate_report :: "power_report \<Rightarrow> profile_spec \<Rightarrow> (string, unit) result" where
  "validate_report r s =
     then_check (guard (\<not> adoption_valid (pr_adoption r)) ''inform: invalid adoption state'' (Inr ())) (
     then_check (check_identity_part (pr_identity r) s) (
     then_check (check_times r) (
     then_check (check_system r) (
     then_check (check_battery (pr_vbms r)) (
     then_check (check_interface r) (
     then_check (check_topology r s) (
     then_check (validate_capabilities (pr_caps r) s)
       (case check_outlets (pr_source r) (dp_model (pr_profile r)) s (length (pr_outlets r)) 0 (pr_outlets r) no_scan of
          Inl e \<Rightarrow> Inl e | Inr g \<Rightarrow> Inr ()))))))))"

section \<open>The payload\<close>

definition opt_field :: "string \<Rightarrow> ('a \<Rightarrow> json) \<Rightarrow> 'a option \<Rightarrow> (string \<times> json) list" where
  "opt_field name f v = (case v of None \<Rightarrow> [] | Some x \<Rightarrow> [(name, f x)])"

definition opt_text :: "string \<Rightarrow> string \<Rightarrow> (string \<times> json) list" where
  "opt_text name v = (if v = [] then [] else [(name, JStr v)])"

definition jint :: "int \<Rightarrow> json" where "jint i = JNum (int_text i)"

fun jfloat :: "float64 \<Rightarrow> json" where
  "jfloat (FNum v) = JNum (float_text v)"
| "jfloat _ = JNull"   \<comment> \<open>unreachable: refused by the validation\<close>

definition one_decimal :: "float64 option \<Rightarrow> string option" where
  "one_decimal v = (case v of Some (FNum x) \<Rightarrow> Some (one_decimal_text x) | _ \<Rightarrow> None)"

definition system_json :: "power_report \<Rightarrow> (string \<times> json) list" where
  "system_json r =
     (if pr_memory r \<noteq> None \<or> pr_cpu r \<noteq> None then
        [(''system-stats'', JObj (opt_field ''mem'' JStr (one_decimal (pr_memory r)) @
                                 opt_field ''cpu'' JStr (one_decimal (pr_cpu r))))]
      else [])"

definition battery_json :: "battery_pool \<Rightarrow> json" where
  "battery_json b =
     JObj (opt_field ''batt_available_cnt'' jint (bp_available b) @ opt_field ''batteryLevel'' jint (bp_level b) @
           opt_field ''device_total_power_budget'' jint (bp_budget b) @
           opt_field ''device_total_power_output'' jfloat (bp_power b) @
           opt_field ''device_total_power_factor'' jfloat (bp_factor b) @
           opt_field ''device_output_voltage'' jfloat (bp_output_v b) @
           opt_field ''device_input_voltage'' jfloat (bp_input_v b) @
           opt_field ''device_output_current'' jfloat (bp_output_a b) @
           opt_field ''ischarging'' JBool (bp_charging b) @ opt_field ''readycnt'' jint (bp_ready b) @
           opt_field ''timeToRemain'' (\<lambda>n. jint (int n)) (bp_runtime b))"

definition vbms_json :: "vbms \<Rightarrow> json" where
  "vbms_json v =
     JObj ([(''battpool'', battery_json (vb_battery v))] @ opt_field ''epo_enabled'' JBool (vb_epo v) @
           opt_field ''input_thd_level'' jint (vb_thd v) @ opt_field ''is_battery_mode'' JBool (vb_battery_mode v) @
           opt_field ''avr_mode'' JStr (vb_avr v) @ opt_field ''bms_num'' jint (vb_count v) @
           opt_field ''bms_run_anomaly'' (\<lambda>n. jint (int n)) (vb_anomaly v) @
           opt_field ''bms_version'' JStr (vb_version v) @ opt_field ''bms_log_file'' JStr (vb_log v))"

definition interface_json :: "interface_telemetry \<Rightarrow> json" where
  "interface_json f =
     JObj ([(''name'', JStr ''eth0''), (''mac'', JStr (to_lower (it_mac f))), (''ip'', JStr (it_ip f)),
            (''netmask'', JStr (it_netmask f)), (''num_port'', jint 1), (''speed'', jint 100)] @
           opt_field ''up'' JBool (it_up f) @ [(''full_duplex'', JBool True)])"

definition port_json :: "interface_telemetry \<Rightarrow> json" where
  "port_json f =
     JObj ([(''is_uplink'', JBool True), (''full_duplex'', JBool True), (''media'', JStr ''FE''), (''port_idx'', jint 1)] @
           opt_field ''up'' JBool (it_up f))"

definition outlet_caps_for :: "topology_source \<Rightarrow> profile_spec \<Rightarrow> nat \<Rightarrow> outlet_report \<Rightarrow> int option" where
  "outlet_caps_for src s offset o1 =
     (if src = TopologyProfile \<and> ps_outlet_caps s \<noteq> [] then Some (ps_outlet_caps s ! offset) else or_caps o1)"

definition outlet_json :: "topology_source \<Rightarrow> profile_spec \<Rightarrow> nat \<times> outlet_report \<Rightarrow> json" where
  "outlet_json src s x =
     (case x of (offset, o1) \<Rightarrow>
      JObj ([(''index'', jint (wire_index offset o1))] @
            opt_field ''outlet_caps'' jint (outlet_caps_for src s offset o1) @
            [(''relay_group'', jint (or_relay_group o1))] @ opt_field ''relay_state'' JBool (or_relay o1) @
            (if 0 < or_button_group o1 then [(''button_group'', jint (or_button_group o1))] else []) @
            opt_field ''button_state'' JBool (or_button o1) @ [(''name'', JStr (or_name o1))] @
            opt_field ''outlet_voltage'' jfloat (or_voltage o1) @ opt_field ''outlet_current'' jfloat (or_current o1) @
            opt_field ''outlet_power'' jint (or_power o1) @ opt_field ''outlet_power_factor'' jfloat (or_factor o1) @
            opt_field ''outlet_ac_energy_1'' jfloat (or_energy1 o1) @
            opt_field ''outlet_ac_energy_7'' jfloat (or_energy7 o1) @
            opt_field ''outlet_ac_energy_30'' jfloat (or_energy30 o1)))"

definition outlet_table_json :: "topology_source \<Rightarrow> profile_spec \<Rightarrow> outlet_report list \<Rightarrow> json" where
  "outlet_table_json src s os =
     (if os = [] then JNull else JArr (map (outlet_json src s) (zip [0..<length os] os)))"

definition nut_json :: "nut_server \<Rightarrow> json" where
  "nut_json n =
     JObj [(''enabled'', JBool True), (''id'', JStr (ns_id n)), (''port'', jint (ns_port n)),
           (''credential_required'', JBool False)]"

definition identity_members :: "power_report \<Rightarrow> profile_spec \<Rightarrow> (string \<times> json) list" where
  "identity_members r s =
     (let i = pr_identity r; m = ps_meta s; a = pr_adoption r in
      [(''mac'', JStr (to_lower (mac_text (the (parse_mac (di_mac i)))))), (''hostname'', JStr (di_hostname i)),
       (''serial'', JStr (di_serial i)), (''model'', JStr (pm_model m)), (''model_display'', JStr (pm_display m))] @
      opt_field ''board_rev'' jint (di_board_rev i) @ opt_field ''manufacturer_id'' jint (di_manufacturer i) @
      [(''version'', JStr (if pr_reported r \<noteq> [] then pr_reported r else pm_firmware m))] @
      opt_text ''required_version'' (if di_required i = [] then ps_required s else di_required i) @
      [(''sysid'', jint (pm_sysid m)), (''ip'', JStr (di_ip i)), (''time'', jint (unix (pr_observed r))),
       (''inform_url'', JStr (InformURL a)), (''inform_ip'', JStr (di_inform_ip i)),
       (''uptime'', jint (pr_uptime r div second)),
       (''last_inform'', jint (if pr_last_inform r = 0 then 0 else unix (pr_last_inform r))),
       (''cfgversion'', JStr (CfgVersion a)), (''default'', JBool (\<not> Adopted a)),
       (''state'', jint (if Adopted a then 2 else 0)), (''selfrun_beacon'', JBool (di_beacon i)),
       (''discovery_response'', JBool (di_discovery i))] @
      opt_text ''hash_id'' (di_hash i) @ opt_text ''anon_id'' (di_anon i) @
      [(''guid'', JStr (if pm_guid m \<noteq> [] then pm_guid m else di_guid i)), (''locating'', JBool (di_locating i))])"

definition capability_members :: "capabilities \<Rightarrow> (string \<times> json) list" where
  "capability_members c =
     opt_field ''fw_caps'' jint (cap_fw c) @ opt_field ''hw_caps'' jint (cap_hw c) @
     opt_field ''sys_error_caps'' jint (cap_syserr c) @
     [(''has_speaker'', JBool False), (''has_eth1'', JBool False)] @
     opt_field ''adoption_caps'' jint (cap_adoption c) @ opt_field ''smart_power_caps'' jint (cap_smart c)"

definition payload_json :: "power_report \<Rightarrow> profile_spec \<Rightarrow> json" where
  "payload_json r s =
     JObj (identity_members r s @ system_json r @ capability_members (resolve_capabilities (pr_caps r) s) @
           [(''vbms_table'', vbms_json (pr_vbms r)), (''if_table'', JArr [interface_json (pr_interface r)]),
            (''outlet_table'', outlet_table_json (pr_source r) s (pr_outlets r)),
            (''port_table'', JArr [port_json (pr_interface r)])] @
           opt_field ''beep_enabled'' JBool (pr_beep r) @ opt_field ''nut_server'' nut_json (pr_nut r))"

definition build_payload :: "power_report \<Rightarrow> (string, string) result" where
  "build_payload r =
     (case spec_for_profile (pr_profile r) of
        Inl e \<Rightarrow> Inl e
      | Inr s \<Rightarrow>
          (case validate_report r s of
             Inl e \<Rightarrow> Inl e
           | Inr () \<Rightarrow>
               guard (pr_reported r \<noteq> [] \<and> \<not> valid_version (pr_reported r))
                 ''inform: invalid reported firmware version'' (Inr (marshal (payload_json r s)))))"

end
