(* ===== verification/Config.thy ===== *)
theory Config
  imports Payload
begin

text \<open>
  \<open>internal/config/config.go\<close>: the environment is an association list of names and values;
  a secret file is what opening it shows.  \<open>ParseDuration\<close>, \<open>ParseBool\<close>, \<open>Atoi\<close> and
  \<open>filepath.Base\<close> are translated with it.  Durations are nanoseconds.
\<close>

section \<open>The standard functions it parses with\<close>

definition url_split :: "string \<Rightarrow> string \<times> string" where
  "url_split host =
     (let (h, p) = (case last_index_split (CHR '':'') host of
                      Some (a, b) \<Rightarrow> if valid_optional_port (CHR '':'' # b) then (a, b) else (host, [])
                    | None \<Rightarrow> (host, []))
      in (if h \<noteq> [] \<and> hd h = CHR ''['' \<and> last h = CHR '']'' then butlast (tl h) else h, p))"

definition url_hostname :: "url \<Rightarrow> string" where "url_hostname u = fst (url_split (u_host u))"
definition url_port :: "url \<Rightarrow> string" where "url_port u = snd (url_split (u_host u))"

definition base_name :: "string \<Rightarrow> string" where
  "base_name path =
     (if path = [] then ''.''
      else let p = rev (dropWhile (\<lambda>c. c = CHR ''/'') (rev path))
           in if p = [] then ''/'' else last (split_char (CHR ''/'') p))"

definition parse_bool :: "string \<Rightarrow> bool option" where
  "parse_bool s =
     (if s \<in> {''1'', ''t'', ''T'', ''TRUE'', ''true'', ''True''} then Some True
      else if s \<in> {''0'', ''f'', ''F'', ''FALSE'', ''false'', ''False''} then Some False else None)"

definition atoi :: "string \<Rightarrow> int option" where
  "atoi s = (let (neg, ds) = drop_sign s in
     if ds = [] \<or> \<not> list_all (in_range 48 57) ds then None
     else parse_int64 (if neg then CHR ''-'' # ds else ds))"

definition duration_units :: "(string \<times> int) list" where
  "duration_units =
     [(''ns'', 1), (''us'', 1000), ([CHR 0xC2, CHR 0xB5, CHR ''s''], 1000), ([CHR 0xCE, CHR 0xBC, CHR ''s''], 1000),
      (''ms'', 1000000), (''s'', second), (''m'', 60 * second), (''h'', 3600 * second)]"

definition float_of :: "float64 \<Rightarrow> rat" where
  "float_of f = (case f of FNum v \<Rightarrow> v | _ \<Rightarrow> 0)"

text \<open>\<open>leadingFraction\<close>: the digits read until they would overflow, and their scale.\<close>

fun leading_fraction :: "int \<Rightarrow> rat \<Rightarrow> bool \<Rightarrow> string \<Rightarrow> int \<times> rat" where
  "leading_fraction x sc over [] = (x, sc)"
| "leading_fraction x sc over (c # cs) =
     (if over \<or> (2 ^ 63 - 1) div 10 < x \<or> 2 ^ 63 < x * 10 + int (cbyte c - 48) then leading_fraction x sc True cs
      else leading_fraction (x * 10 + int (cbyte c - 48)) (float_of (fmul sc 10)) False cs)"

definition fraction_part :: "int \<Rightarrow> rat \<Rightarrow> int \<Rightarrow> int" where
  "fraction_part f sc unit = \<lfloor>float_of (fmul (float_of (round_rat (of_int f))) (float_of (fdiv (of_int unit) sc)))\<rfloor>"

text \<open>One number with its unit: its nanoseconds and the rest of the text.\<close>

definition duration_term :: "string \<Rightarrow> (int \<times> string) option" where
  "duration_term s =
     (let (ds, r1) = take_digits s; v = int (dec_value 0 ds);
          (fs, r2) = (case r1 of c # cs \<Rightarrow> if c = CHR ''.'' then take_digits cs else ([], r1) | [] \<Rightarrow> ([], r1));
          (f, sc) = leading_fraction 0 1 False fs;
          name = takeWhile (\<lambda>c. c \<noteq> CHR ''.'' \<and> \<not> in_range 48 57 c) r2;
          rest = dropWhile (\<lambda>c. c \<noteq> CHR ''.'' \<and> \<not> in_range 48 57 c) r2
      in if ds = [] \<and> fs = [] \<or> 2 ^ 63 < v then None
         else case map_of duration_units name of
           None \<Rightarrow> None
         | Some unit \<Rightarrow>
             if 2 ^ 63 div unit < v then None
             else let d = v * unit + (if 0 < f then fraction_part f sc unit else 0)
                  in if 2 ^ 63 < d then None else Some (d, rest))"

fun duration_terms :: "nat \<Rightarrow> int \<Rightarrow> string \<Rightarrow> int option" where
  "duration_terms fuel d [] = Some d"
| "duration_terms 0 d s = None"
| "duration_terms (Suc fuel) d s =
     (case duration_term s of
        None \<Rightarrow> None
      | Some (v, rest) \<Rightarrow> if 2 ^ 63 < d + v then None else duration_terms fuel (d + v) rest)"

definition parse_duration :: "string \<Rightarrow> int option" where
  "parse_duration s =
     (let (neg, t) = drop_sign s in
      if t = ''0'' then Some 0
      else if t = [] then None
      else case duration_terms (length t) 0 t of
        None \<Rightarrow> None
      | Some d \<Rightarrow> if neg then Some (- d) else if 2 ^ 63 - 1 < d then None else Some d)"

section \<open>The configuration\<close>

record nut_section =
  cn_address :: string
  cn_ups :: string
  cn_username :: string
  cn_password :: string
  cn_timeout :: int
  cn_insecure :: bool

record unifi_section =
  cu_model :: string
  cu_version :: string
  cu_inform_url :: string
  cu_interval :: int
  cu_timeout :: int
  cu_discovery :: int
  cu_volatile :: bool
  cu_receipts :: string
  cu_firmware_sync :: bool
  cu_nut_enabled :: bool
  cu_nut_id :: string
  cu_nut_port :: int

record device_section =
  cd_mode :: string
  cd_mac :: string
  cd_serial :: string
  cd_hostname :: string
  cd_ip :: string

record runtime_section =
  ct_status_file :: string
  ct_state_file :: string
  ct_health :: string
  ct_poll :: int
  ct_stale :: int

record config =
  c_nut :: nut_section
  c_unifi :: unifi_section
  c_device :: device_section
  c_runtime :: runtime_section
  c_log :: string

definition receipts_enabled :: "unifi_section \<Rightarrow> bool" where
  "receipts_enabled u \<longleftrightarrow> cu_receipts u = ''memory'' \<or> cu_receipts u = ''persistent''"

definition config_token :: "string \<Rightarrow> bool" where
  "config_token v \<longleftrightarrow>
     \<not> (v = [] \<or> 128 < length v) \<and>
     list_all (\<lambda>c. alnum_byte (cbyte c) \<or> c = CHR ''.'' \<or> c = CHR ''_'' \<or> c = CHR ''-'') v"

definition loopback_host :: "string \<Rightarrow> bool" where
  "loopback_host host \<longleftrightarrow>
     equal_fold host ''localhost'' \<or>
     (case parse_ip host of
        None \<Rightarrow> False
      | Some ip \<Rightarrow> (case to4 ip of Some q \<Rightarrow> q ! 0 = 127 | None \<Rightarrow> ip = replicate 15 0 @ [1]))"

definition minute :: int where "minute = 60 * second"

definition outside :: "int \<Rightarrow> int \<Rightarrow> int \<Rightarrow> bool" where
  "outside lo hi v \<longleftrightarrow> v < lo \<or> hi < v"

definition check_managed :: "config \<Rightarrow> (string, unit) result" where
  "check_managed c =
     (if ct_status_file (c_runtime c) = [] then Inr ()
      else
        guard (ct_status_file (c_runtime c) \<noteq> ''/run/n2u-network/status.json'' \<or> cd_mode (c_device c) \<noteq> ''separate'' \<or>
               cd_mac (c_device c) = [])
          ''managed addressing requires separate mode and a stable MAC'' (
        guard (case (split_host_port (cn_address (c_nut c)), parse_url (cu_inform_url (c_unifi c))) of
                 (Some (host, port), Some u) \<Rightarrow> parse_ip_to4 host = None \<or> parse_ip_to4 (url_hostname u) = None
               | _ \<Rightarrow> True)
          ''managed addressing requires IPv4 literal NUT and controller targets'' (Inr ())))"

definition check_modes :: "config \<Rightarrow> (string, unit) result" where
  "check_modes c =
     (let u = c_unifi c in
      guard (cd_mode (c_device c) \<notin> {[], ''shared'', ''separate''}) ''N2U_NETWORK_MODE must be shared or separate'' (
      guard (cu_firmware_sync u \<and> cu_receipts u \<noteq> ''persistent'')
        ''reported firmware synchronization requires persistent configuration receipts'' (
      guard (cu_firmware_sync u \<and> base_name (ct_state_file (c_runtime c)) = ''controller-firmware.json'')
        ''reported firmware receipt must not overwrite adoption state'' (
      guard (cu_receipts u \<notin> {[], ''off'', ''memory'', ''persistent''})
        ''N2U_UNIFI_HTTP_GCM_CONFIG_RECEIPT_MODE must be off, memory, or persistent'' (
      guard (cu_volatile u \<and> receipts_enabled u)
        ''configuration receipts and volatile cfgversion synchronization are mutually exclusive'' (Inr ()))))))"

definition check_durations :: "config \<Rightarrow> (string, unit) result" where
  "check_durations c =
     guard (outside second minute (cn_timeout (c_nut c))) ''N2U_NUT_TIMEOUT must be between 1 second and 1 minute'' (
     guard (outside second (10 * minute) (cu_interval (c_unifi c))) ''N2U_INFORM_INTERVAL must be between 1 second and 10 minutes'' (
     guard (outside second minute (cu_timeout (c_unifi c))) ''N2U_INFORM_TIMEOUT must be between 1 second and 1 minute'' (
     guard (outside (5 * second) (10 * minute) (cu_discovery (c_unifi c)))
       ''N2U_DISCOVERY_INTERVAL must be between 5 seconds and 10 minutes'' (
     guard (outside second (5 * minute) (ct_poll (c_runtime c))) ''N2U_POLL_INTERVAL must be between 1 second and 5 minutes'' (
     guard (outside (2 * second) (30 * minute) (ct_stale (c_runtime c)))
       ''N2U_STALE_AFTER must be between 2 seconds and 30 minutes'' (Inr ()))))))"

definition check_nut :: "config \<Rightarrow> (string, unit) result" where
  "check_nut c =
     (case split_host_port (cn_address (c_nut c)) of
        None \<Rightarrow> Inl ''N2U_NUT_ADDRESS''
      | Some (host, port) \<Rightarrow>
          guard (\<not> loopback_host host \<and> \<not> cn_insecure (c_nut c))
            ''remote plaintext NUT requires N2U_NUT_ALLOW_INSECURE_REMOTE=true'' (
          guard (\<not> config_token (cn_ups (c_nut c))) ''N2U_NUT_UPS must contain only letters, digits, '.', '_' or '-' '' (
          guard ((cn_username (c_nut c) = []) \<noteq> (cn_password (c_nut c) = []))
            ''N2U_NUT_USERNAME and N2U_NUT_PASSWORD[_FILE] must be supplied together'' (Inr ()))))"

definition check_unifi :: "config \<Rightarrow> (string, unit) result" where
  "check_unifi c =
     (let u = c_unifi c in
      guard (case parse_url (cu_inform_url u) of
               None \<Rightarrow> True
             | Some w \<Rightarrow> u_scheme w \<noteq> ''http'' \<and> u_scheme w \<noteq> ''https'' \<or> u_host w = [] \<or> u_user w \<or> u_query w \<noteq> [] \<or> u_fragment w \<noteq> [])
        ''N2U_INFORM_URL must be an http(s) URL without credentials, query, or fragment'' (
      guard (case parse_url (cu_inform_url u) of None \<Rightarrow> True | Some w \<Rightarrow> u_path w \<noteq> ''/inform'')
        ''N2U_INFORM_URL path must be /inform'' (
      guard (cu_model u \<noteq> ''USWDA26'' \<and> cu_model u \<noteq> ''USPDA2C'') ''N2U_UNIFI_MODEL must be USWDA26 or USPDA2C'' (
      guard (cu_model u = ''USWDA26'' \<and> cu_version u \<noteq> ''1.6.1'' \<and> cu_version u \<noteq> ''1.6.1.413'' \<or>
             cu_model u = ''USPDA2C'' \<and> cu_version u \<noteq> ''1.6.1'' \<and> cu_version u \<noteq> ''1.6.1.4933'')
        ''N2U_UNIFI_VERSION must select the firmware-proven 1.6.1 profile'' (
      guard (cu_nut_port u < 1 \<or> 65535 < cu_nut_port u) ''N2U_UNIFI_NUT_SERVER_PORT must be between 1 and 65535'' (
      guard (cu_nut_id u \<noteq> [] \<and> (31 < length (cu_nut_id u) \<or> \<not> config_token (cu_nut_id u)))
        ''N2U_UNIFI_NUT_SERVER_ID must contain 1-31 safe ASCII characters'' (
      guard (cu_nut_enabled u \<and> cu_nut_id u = [])
        ''N2U_UNIFI_NUT_SERVER_ID is required when advertisement is enabled'' (Inr ()))))))))"

definition check_device :: "config \<Rightarrow> (string, unit) result" where
  "check_device c =
     (let d = c_device c in
      guard (cd_mac d \<noteq> [] \<and> (case device_mac (cd_mac d) of None \<Rightarrow> True | Some hw \<Rightarrow> mac_text hw = ''00:00:00:00:00:00''))
        ''N2U_DEVICE_MAC must be a six-byte unicast MAC address'' (
      guard (cd_ip d \<noteq> [] \<and> parse_ip_to4 (cd_ip d) = None) ''N2U_DEVICE_IP must be an IPv4 address'' (
      guard (63 < length (cd_hostname d) \<or> \<not> config_token (cd_hostname d))
        ''N2U_DEVICE_HOSTNAME must contain 1-63 safe ASCII characters'' (Inr ()))))"

definition check_runtime :: "config \<Rightarrow> (string, unit) result" where
  "check_runtime c =
     (let t = c_runtime c in
      guard (ct_state_file t = [] \<or> ct_health t = []) ''state file and health address cannot be empty'' (
      guard (receipts_enabled (c_unifi c) \<and> base_name (ct_state_file t) = ''controller-receipt.json'')
        ''N2U_STATE_FILE cannot use the reserved controller-receipt.json name'' (
      guard (split_host_port (ct_health t) = None) ''N2U_HEALTH_ADDRESS'' (
      guard (ct_stale t < ct_poll t) ''N2U_STALE_AFTER must be at least N2U_POLL_INTERVAL'' (
      guard (c_log c \<notin> {''debug'', ''info'', ''warn'', ''error''})
        ''N2U_LOG_LEVEL must be debug, info, warn, or error'' (Inr ()))))))"

definition validate_config :: "config \<Rightarrow> (string, unit) result" where
  "validate_config c =
     then_check (check_managed c) (then_check (check_modes c) (then_check (check_durations c)
       (then_check (check_nut c) (then_check (check_unifi c) (then_check (check_device c) (check_runtime c))))))"

section \<open>Loading\<close>

type_synonym environment = "(string \<times> string) list"

definition env_value :: "environment \<Rightarrow> string \<Rightarrow> string \<Rightarrow> string" where
  "env_value env name dflt = (case map_of env name of Some v \<Rightarrow> v | None \<Rightarrow> dflt)"

definition max_secret_bytes :: nat where "max_secret_bytes = 65536"

datatype secret_file = SecretUnreadable | SecretIrregular | SecretFile nat "string option"

definition read_secret :: "(string \<Rightarrow> secret_file) \<Rightarrow> environment \<Rightarrow> string \<Rightarrow> (string, string) result" where
  "read_secret file env name =
     (let direct = map_of env name;
          path = (case map_of env (name @ ''_FILE'') of Some p \<Rightarrow> if p = [] then None else Some p | None \<Rightarrow> None)
      in case path of
        None \<Rightarrow> Inr (case direct of Some v \<Rightarrow> v | None \<Rightarrow> [])
      | Some p \<Rightarrow>
          if direct \<noteq> None then Inl (''set only one of '' @ name @ '' and '' @ name @ ''_FILE'')
          else (case file p of
             SecretUnreadable \<Rightarrow> Inl (''read '' @ name @ ''_FILE'')
           | SecretIrregular \<Rightarrow> Inl (''read '' @ name @ ''_FILE: secret must be a regular file'')
           | SecretFile n content \<Rightarrow>
               if max_secret_bytes < n then Inl (name @ ''_FILE is too large'')
               else (case content of
                  None \<Rightarrow> Inl (''read '' @ name @ ''_FILE'')
                | Some b \<Rightarrow> guard (max_secret_bytes < length b) (name @ ''_FILE is too large'')
                             (Inr (trim_suffix_char (CHR 0x0A) b)))))"

definition env_duration :: "environment \<Rightarrow> string \<Rightarrow> string \<Rightarrow> int \<Rightarrow> int \<Rightarrow> (string, int) result" where
  "env_duration env name dflt lo hi =
     (case parse_duration (env_value env name dflt) of
        None \<Rightarrow> Inl (name @ '' must be a duration in its range'')
      | Some d \<Rightarrow> guard (outside lo hi d) (name @ '' must be a duration in its range'') (Inr d))"

definition env_boolean :: "environment \<Rightarrow> string \<Rightarrow> (string, bool) result" where
  "env_boolean env name =
     (case map_of env name of
        None \<Rightarrow> Inr False
      | Some raw \<Rightarrow> (case parse_bool raw of None \<Rightarrow> Inl (name @ '' must be true or false'') | Some b \<Rightarrow> Inr b))"

definition env_integer :: "environment \<Rightarrow> string \<Rightarrow> string \<Rightarrow> int \<Rightarrow> int \<Rightarrow> (string, int) result" where
  "env_integer env name dflt lo hi =
     (case atoi (env_value env name dflt) of
        None \<Rightarrow> Inl (name @ '' must be an integer in its range'')
      | Some n \<Rightarrow> guard (outside lo hi n) (name @ '' must be an integer in its range'') (Inr n))"

definition known_environment :: "string list" where
  "known_environment =
     [''N2U_NETWORK_STATUS_FILE'', ''N2U_NETWORK_MODE'', ''N2U_UNIFI_HTTP_GCM_CONFIG_RECEIPT_MODE'',
      ''N2U_NUT_ADDRESS'', ''N2U_NUT_UPS'', ''N2U_NUT_USERNAME'', ''N2U_NUT_PASSWORD'', ''N2U_NUT_PASSWORD_FILE'',
      ''N2U_NUT_TIMEOUT'', ''N2U_NUT_ALLOW_INSECURE_REMOTE'', ''N2U_UNIFI_MODEL'', ''N2U_UNIFI_VERSION'',
      ''N2U_INFORM_URL'', ''N2U_UNIFI_HTTP_GCM_REPORTED_FIRMWARE_SYNC'', ''N2U_UNIFI_NUT_SERVER_ENABLED'',
      ''N2U_UNIFI_NUT_SERVER_ID'', ''N2U_UNIFI_NUT_SERVER_PORT'', ''N2U_UNIFI_HTTP_GCM_VOLATILE_CFGVERSION_SYNC'',
      ''N2U_INFORM_INTERVAL'', ''N2U_INFORM_TIMEOUT'', ''N2U_DISCOVERY_INTERVAL'', ''N2U_DEVICE_MAC'',
      ''N2U_DEVICE_SERIAL'', ''N2U_DEVICE_HOSTNAME'', ''N2U_DEVICE_IP'', ''N2U_STATE_FILE'', ''N2U_HEALTH_ADDRESS'',
      ''N2U_POLL_INTERVAL'', ''N2U_STALE_AFTER'', ''N2U_LOG_LEVEL'']"

definition env_prefix :: string where "env_prefix = ''N2U_''"

definition unknown_environment :: "environment \<Rightarrow> bool" where
  "unknown_environment env \<longleftrightarrow>
     list_ex (\<lambda>e. has_prefix (fst e) env_prefix \<and> fst e \<notin> set known_environment) env"

definition load_config :: "(string \<Rightarrow> secret_file) \<Rightarrow> environment \<Rightarrow> (string, config) result" where
  "load_config file env =
     bind (read_secret file env ''N2U_NUT_PASSWORD'') (\<lambda>password.
     bind (env_duration env ''N2U_NUT_TIMEOUT'' ''5s'' second minute) (\<lambda>timeout.
     bind (env_duration env ''N2U_INFORM_INTERVAL'' ''10s'' second (10 * minute)) (\<lambda>interval.
     bind (env_duration env ''N2U_INFORM_TIMEOUT'' ''10s'' second minute) (\<lambda>inform_timeout.
     bind (env_duration env ''N2U_DISCOVERY_INTERVAL'' ''30s'' (5 * second) (10 * minute)) (\<lambda>discovery.
     bind (env_duration env ''N2U_POLL_INTERVAL'' ''5s'' second (5 * minute)) (\<lambda>poll_interval.
     bind (env_duration env ''N2U_STALE_AFTER'' ''20s'' (2 * second) (30 * minute)) (\<lambda>stale.
     bind (env_boolean env ''N2U_NUT_ALLOW_INSECURE_REMOTE'') (\<lambda>insecure.
     bind (env_boolean env ''N2U_UNIFI_NUT_SERVER_ENABLED'') (\<lambda>nut_enabled.
     bind (env_boolean env ''N2U_UNIFI_HTTP_GCM_VOLATILE_CFGVERSION_SYNC'') (\<lambda>volatile.
     bind (env_boolean env ''N2U_UNIFI_HTTP_GCM_REPORTED_FIRMWARE_SYNC'') (\<lambda>firmware_sync.
     bind (env_integer env ''N2U_UNIFI_NUT_SERVER_PORT'' ''3493'' 1 65535) (\<lambda>port.
       let c = \<lparr>c_nut = \<lparr>cn_address = env_value env ''N2U_NUT_ADDRESS'' ''127.0.0.1:3493'',
                  cn_ups = env_value env ''N2U_NUT_UPS'' ''ups'', cn_username = env_value env ''N2U_NUT_USERNAME'' [],
                  cn_password = password, cn_timeout = timeout, cn_insecure = insecure\<rparr>,
                c_unifi = \<lparr>cu_model = env_value env ''N2U_UNIFI_MODEL'' ''USWDA26'',
                  cu_version = env_value env ''N2U_UNIFI_VERSION'' ''1.6.1'',
                  cu_inform_url = env_value env ''N2U_INFORM_URL'' ''http://unifi:8080/inform'',
                  cu_interval = interval, cu_timeout = inform_timeout, cu_discovery = discovery,
                  cu_volatile = volatile,
                  cu_receipts = env_value env ''N2U_UNIFI_HTTP_GCM_CONFIG_RECEIPT_MODE'' ''off'',
                  cu_firmware_sync = firmware_sync, cu_nut_enabled = nut_enabled,
                  cu_nut_id = env_value env ''N2U_UNIFI_NUT_SERVER_ID'' ''ups'', cu_nut_port = port\<rparr>,
                c_device = \<lparr>cd_mode = env_value env ''N2U_NETWORK_MODE'' ''separate'',
                  cd_mac = env_value env ''N2U_DEVICE_MAC'' [], cd_serial = env_value env ''N2U_DEVICE_SERIAL'' [],
                  cd_hostname = env_value env ''N2U_DEVICE_HOSTNAME'' ''nut-2-unifi-ups-gateway'',
                  cd_ip = env_value env ''N2U_DEVICE_IP'' []\<rparr>,
                c_runtime = \<lparr>ct_status_file = env_value env ''N2U_NETWORK_STATUS_FILE'' [],
                  ct_state_file = env_value env ''N2U_STATE_FILE'' ''/var/lib/n2u/state.json'',
                  ct_health = env_value env ''N2U_HEALTH_ADDRESS'' ''127.0.0.1:9199'',
                  ct_poll = poll_interval, ct_stale = stale\<rparr>,
                c_log = to_lower (env_value env ''N2U_LOG_LEVEL'' ''info'')\<rparr>
       in guard (unknown_environment env) ''unknown environment variable'' (
          guard (cd_mode (c_device c) = []) ''N2U_NETWORK_MODE must be shared or separate'' (
          guard (ct_status_file (c_runtime c) \<noteq> [] \<and> cd_ip (c_device c) \<noteq> [])
            ''managed addressing must not set N2U_DEVICE_IP'' (
          bind (validate_config c) (\<lambda>u. Inr c))))))))))))))))"

end
