(* ===== verification/Project.thy ===== *)
theory Project
  imports Config
begin

text \<open>
  \<open>internal/gateway/project.go\<close> and \<open>deriveDiscoveryIDs\<close> of \<open>gateway.go\<close>: the projection of
  an observation to a power-device report.  SHA-256 is the parameter \<open>sha\<close>.
\<close>

definition string_bytes :: "string \<Rightarrow> byte list" where
  "string_bytes s = map (\<lambda>c. of_nat (cbyte c)) s"

text \<open>The text of bytes.\<close>

definition text_of :: "byte list \<Rightarrow> string" where
  "text_of bs = map (\<lambda>b. char_of (unat b)) bs"

lemma text_of_string_bytes [simp]: "text_of (string_bytes s) = s"
proof -
  have "char_of (unat (of_nat (cbyte c) :: byte)) = c" for c
    using cbyte_less [of c] by (simp add: unat_of_nat) (simp add: cbyte_def)
  then show ?thesis by (simp add: text_of_def string_bytes_def comp_def)
qed

lemma length_text [simp]: "length (string_bytes s) = length s" "length (text_of bs) = length bs"
  by (simp_all add: string_bytes_def text_of_def)

definition derive_ids :: "(byte list \<Rightarrow> byte list) \<Rightarrow> string \<Rightarrow> byte list \<Rightarrow> string \<Rightarrow> byte list \<times> byte list" where
  "derive_ids sha guid mac model =
     (let hash = take 8 (sha (string_bytes ''n2u-hash-id'' @ 0 # string_bytes guid @ mac));
          anon = take 16 (sha (string_bytes ''n2u-anon-id'' @ 0 # string_bytes guid @ mac))
      in (hash, if model = model_ups
                then anon[6 := or (and (anon ! 6) 0x0F) 0x80, 8 := or (and (anon ! 8) 0x0F) 0x40]
                else anon))"

record network_identity =
  nw_device_ip :: string
  nw_inform_ip :: string
  nw_netmask :: string
  nw_mac :: string

definition rounded_int :: "rat \<Rightarrow> int" where "rounded_int v = round_away v"

definition rounded_nat :: "rat \<Rightarrow> nat" where "rounded_nat v = nat (round_away v)"

text \<open>A known measurement becomes a pointer.\<close>

definition float_pointer :: "measurement \<Rightarrow> float64 option" where
  "float_pointer m = (if m_known m then Some (FNum (m_val m)) else None)"

definition integer_string :: "nat \<Rightarrow> string" where
  "integer_string v = (if v \<le> 9 then dec_text v else ''unknown'')"

definition outlet_row :: "int \<Rightarrow> string \<Rightarrow> int \<Rightarrow> int \<Rightarrow> outlet_report" where
  "outlet_row index name caps grp =
     \<lparr>or_index = index, or_name = name, or_caps = Some caps, or_relay_group = grp, or_relay = None,
      or_button_group = 0, or_button = None, or_voltage = None, or_current = None, or_power = None,
      or_factor = None, or_energy1 = None, or_energy7 = None, or_energy30 = None\<rparr>"

definition observed_row :: "outlet \<Rightarrow> outlet_report" where
  "observed_row o1 =
     outlet_row (int (o_index o1)) (o_name o1)
       (int (or (if o_type o1 = OutletTypeUSB then cap_usb else cap_ac) (if o_power_meter o1 then cap_power_meter else 0)))
       (int (o_relay_group o1))"

definition fallback_row :: "string \<Rightarrow> outlet list \<Rightarrow> nat \<Rightarrow> outlet_report" where
  "fallback_row model os i =
     (let grp = (if i < length os then o_relay_group (os ! i) else i div 4 + 1);
          name = (if i < length os then o_name (os ! i) else ''Outlet '' @ integer_string (i + 1))
      in outlet_row (int i + 1) name (int cap_ac) (if model = model_pro then int i + 1 else int grp))"

definition project_topology :: "string \<Rightarrow> ups_state \<Rightarrow> outlet_report list" where
  "project_topology model s =
     (if s_topology_observed s then map observed_row (s_outlets s)
      else map (fallback_row model (s_outlets s)) [0..<(if model = model_pro then 9 else 8)])"

definition relay_pointer :: "relay_state \<Rightarrow> bool option" where
  "relay_pointer r = (case r of RelayOn \<Rightarrow> Some True | RelayOff \<Rightarrow> Some False | _ \<Rightarrow> None)"

definition outlet_relay_state :: "ups_state \<Rightarrow> outlet \<Rightarrow> relay_state" where
  "outlet_relay_state s o1 =
     (if 1 \<le> o_relay_group o1 \<and> o_relay_group o1 \<le> length (s_groups s)
      then g_relay (s_groups s ! (o_relay_group o1 - 1)) else o_relay o1)"

definition unit_range :: "measurement \<Rightarrow> float64 option" where
  "unit_range m = (if m_known m \<and> 0 \<le> m_val m \<and> m_val m \<le> 1 then Some (FNum (m_val m)) else None)"

definition add_telemetry :: "ups_state \<Rightarrow> outlet_report \<Rightarrow> outlet \<Rightarrow> outlet_report" where
  "add_telemetry s row o1 =
     row\<lparr>or_relay := (case relay_pointer (outlet_relay_state s o1) of Some b \<Rightarrow> Some b | None \<Rightarrow> or_relay row),
         or_voltage := (case float_pointer (o_voltage o1) of Some v \<Rightarrow> Some v | None \<Rightarrow> or_voltage row),
         or_current := (case float_pointer (o_current o1) of Some v \<Rightarrow> Some v | None \<Rightarrow> or_current row),
         or_power := (if m_known (o_power_w o1) then Some (rounded_int (m_val (o_power_w o1))) else or_power row),
         or_factor := (case unit_range (o_power_factor o1) of Some v \<Rightarrow> Some v | None \<Rightarrow> or_factor row)\<rparr>"

definition project_telemetry :: "ups_state \<Rightarrow> outlet_report list \<Rightarrow> outlet_report list" where
  "project_telemetry s rows =
     (if \<not> s_topology_observed s then rows
      else map (\<lambda>(i, row). if length (s_outlets s) \<le> i then row else add_telemetry s row (s_outlets s ! i))
             (zip [0..<length rows] rows))"

definition no_battery :: battery_pool where
  "no_battery = \<lparr>bp_available = None, bp_level = None, bp_budget = None, bp_power = None, bp_factor = None,
     bp_output_v = None, bp_input_v = None, bp_output_a = None, bp_charging = None, bp_ready = None, bp_runtime = None\<rparr>"

definition truth_pointer :: "truth \<Rightarrow> bool option" where
  "truth_pointer t = (if t_known t then Some (t_val t) else None)"

definition project_battery :: "ups_state \<Rightarrow> battery_pool" where
  "project_battery s =
     (let charge = b_charge (s_battery s); runtime = b_runtime (s_battery s); e = s_electrical s;
          nominal = e_power_nominal_w e; budget = rounded_int (m_val nominal)
      in \<lparr>bp_available = (if m_known charge then Some 1 else None),
          bp_level = (if m_known charge then Some (rounded_int (m_val charge)) else None),
          bp_budget = (if m_known nominal \<and> 0 < m_val nominal \<and> 0 < budget then Some budget else None),
          bp_power = float_pointer (e_power_w e), bp_factor = unit_range (e_power_factor e),
          bp_output_v = float_pointer (e_output_voltage e), bp_input_v = float_pointer (e_input_voltage e),
          bp_output_a = float_pointer (e_output_current e),
          bp_charging = truth_pointer (st_charging (s_status s)),
          bp_ready = (if m_known charge then Some 1 else None),
          bp_runtime = (if m_known runtime then Some (rounded_nat (m_val runtime)) else None)\<rparr>)"

definition vbms_of :: "battery_pool \<Rightarrow> bool option \<Rightarrow> vbms" where
  "vbms_of b on_battery =
     \<lparr>vb_battery = b, vb_epo = None, vb_thd = None, vb_battery_mode = on_battery, vb_avr = None, vb_count = None,
      vb_anomaly = None, vb_version = None, vb_log = None\<rparr>"

definition beep_pointer :: "beeper_status \<Rightarrow> bool option" where
  "beep_pointer b = (case b of BeeperEnabled \<Rightarrow> Some True | BeeperDisabled \<Rightarrow> Some False | _ \<Rightarrow> None)"

definition adoption_from_state :: "state \<Rightarrow> adoption_state" where
  "adoption_from_state p =
     (let a = st_adoption p in
      \<lparr>AuthKey = ad_key a, InformURL = ad_url a, CfgVersion = ad_cfg a, Adopted = ad_adopted a, UseAESGCM = ad_gcm a\<rparr>)"

definition identity_report :: "(byte list \<Rightarrow> byte list) \<Rightarrow> config \<Rightarrow> state \<Rightarrow> network_identity \<Rightarrow> byte list \<Rightarrow> device_identity" where
  "identity_report sha cfg p nw mac =
     (let i = st_identity p; (hash, anon) = derive_ids sha (i_guid i) mac (cu_model (c_unifi cfg)) in
      \<lparr>di_mac = i_mac i, di_serial = i_serial i, di_hostname = cd_hostname (c_device cfg), di_ip = nw_device_ip nw,
       di_inform_ip = nw_inform_ip nw, di_guid = i_guid i, di_hash = hex_encode hash, di_anon = uuid_text anon,
       di_board_rev = None, di_manufacturer = None, di_required = [], di_beacon = False, di_discovery = False,
       di_locating = False\<rparr>)"

definition smart_power_for :: "config \<Rightarrow> device_profile \<Rightarrow> int option" where
  "smart_power_for cfg p =
     (case read_only_smart_power p of
        Inl e \<Rightarrow> None
      | Inr v \<Rightarrow> Some (if cu_nut_enabled (c_unifi cfg) then int v else and (int v) (not (int smart_nut_access))))"

definition profile_of :: "config \<Rightarrow> device_profile" where
  "profile_of cfg = \<lparr>dp_model = cu_model (c_unifi cfg), dp_version = cu_version (c_unifi cfg)\<rparr>"

definition project_device :: "(byte list \<Rightarrow> byte list) \<Rightarrow> config \<Rightarrow> state \<Rightarrow> network_identity \<Rightarrow> byte list \<Rightarrow> ups_state \<Rightarrow>
    int \<Rightarrow> int \<Rightarrow> int \<Rightarrow> string \<Rightarrow> power_report" where
  "project_device sha cfg p nw mac s now started last_inform reported =
     (let model = cu_model (c_unifi cfg); rows = project_topology model s; live = (s_availability s = Available);
          i = st_identity p
      in \<lparr>pr_reported = reported, pr_profile = profile_of cfg,
          pr_source = (if s_topology_observed s then ObservedNUT else CarrierFallback),
          pr_identity = identity_report sha cfg p nw mac, pr_adoption = adoption_from_state p,
          pr_observed = now, pr_uptime = max 0 (time_sub now started), pr_last_inform = last_inform,
          pr_caps = \<lparr>cap_fw = None, cap_hw = None, cap_syserr = None, cap_adoption = None,
                    cap_smart = smart_power_for cfg (profile_of cfg)\<rparr>,
          pr_memory = None, pr_cpu = None,
          pr_vbms = (if live then vbms_of (project_battery s) (truth_pointer (st_on_battery (s_status s)))
                     else vbms_of no_battery None),
          pr_interface = \<lparr>it_mac = i_mac i, it_ip = nw_device_ip nw, it_netmask = nw_netmask nw,
                         it_up = (if live then Some True else None)\<rparr>,
          pr_outlets = (if live then project_telemetry s rows else rows),
          pr_beep = (if live then beep_pointer (s_beeper s) else None),
          pr_nut = (if cu_nut_enabled (c_unifi cfg)
                    then Some \<lparr>ns_enabled = True, ns_id = cu_nut_id (c_unifi cfg), ns_port = cu_nut_port (c_unifi cfg)\<rparr>
                    else None)\<rparr>)"

end
