(* ===== verification/Trust.thy ===== *)
theory Trust
  imports Config InformCodec
begin

text \<open>
  What the gateway trusts a controller with: \<open>internal/gateway/controller.go\<close> (the inform
  URL, the one origin a transition may stay on, the bounded exchange) and
  \<open>confineAdoptedPlainHTTPResponse\<close> with \<open>setParamHasOnlyCfgVersion\<close> of \<open>gateway.go\<close>.  The
  HTTP client is the answer it gives, \<open>http_answer\<close>.
\<close>

section \<open>Origins\<close>

definition parse_controller_url :: "string \<Rightarrow> (string, url) result" where
  "parse_controller_url raw =
     guard (length raw = 0 \<or> 2048 < length raw) ''invalid controller inform URL'' (
     case parse_url raw of
       None \<Rightarrow> Inl ''invalid controller inform URL''
     | Some u \<Rightarrow>
         guard (u_scheme u \<noteq> ''http'' \<and> u_scheme u \<noteq> ''https'' \<or> u_host u = [] \<or> u_user u \<or> u_query u \<noteq> [] \<or> u_fragment u \<noteq> [])
           ''invalid controller inform URL'' (
         guard (u_path u \<noteq> ''/inform'') ''invalid controller inform URL path'' (Inr u)))"

definition effective_port :: "url \<Rightarrow> string" where
  "effective_port u =
     (if url_port u \<noteq> [] then url_port u else if equal_fold (u_scheme u) ''https'' then ''443'' else ''80'')"

definition same_origin :: "url \<Rightarrow> url \<Rightarrow> bool" where
  "same_origin l r \<longleftrightarrow>
     equal_fold (u_scheme l) (u_scheme r) \<and> equal_fold (url_hostname l) (url_hostname r) \<and>
     effective_port l = effective_port r"

definition authorize_transition :: "string \<Rightarrow> string \<Rightarrow> (string, unit) result" where
  "authorize_transition current proposed =
     bind (parse_controller_url current) (\<lambda>from.
     bind (parse_controller_url proposed) (\<lambda>to.
     guard (\<not> same_origin from to) ''controller inform origin change is not authorized'' (Inr ())))"

definition plain_http :: "string \<Rightarrow> bool" where
  "plain_http raw = (case parse_controller_url raw of Inl e \<Rightarrow> False | Inr u \<Rightarrow> u_scheme u = ''http'')"

definition over_https :: "string \<Rightarrow> bool" where
  "over_https raw = (case parse_controller_url raw of Inl e \<Rightarrow> False | Inr u \<Rightarrow> u_scheme u = ''https'')"

section \<open>The exchange\<close>

definition max_controller_wire_response :: int where
  "max_controller_wire_response = int header_length + 1048576"

text \<open>
  \<open>ErrAdoptionPending\<close>, the answer 404, is the one value errors are compared with; a
  \<open>controllerResponseError\<close> around an error says that a response was received.
\<close>

datatype adoption_mark = ErrAdoptionPending

datatype exchange_error =
    Received "adoption_mark go_error"
  | Unreached "adoption_mark go_error"

fun is_pending :: "adoption_mark go_error \<Rightarrow> bool" where
  "is_pending (Domain m) = (m = ErrAdoptionPending)"
| "is_pending (Wrapped op e) = is_pending e"
| "is_pending (Failure c e) = is_pending e"
| "is_pending _ = False"

fun exchange_cause :: "exchange_error \<Rightarrow> adoption_mark go_error" where
  "exchange_cause (Received e) = e"
| "exchange_cause (Unreached e) = e"

fun controller_response_received :: "exchange_error \<Rightarrow> bool" where
  "controller_response_received (Received e) = True"
| "controller_response_received (Unreached e) = is_pending e"

text \<open>The transport's error, or the status, the announced length and what reading the body gives.\<close>

datatype http_answer =
    NoResponse "adoption_mark go_error"
  | Response int int "byte list option"

definition unspecified4 :: "byte list \<Rightarrow> bool" where "unspecified4 q \<longleftrightarrow> q = [0, 0, 0, 0]"
definition multicast4 :: "byte list \<Rightarrow> bool" where "multicast4 q \<longleftrightarrow> and (q ! 0) 0xF0 = 0xE0"

text \<open>\<open>newBoundHTTPController\<close>: the two addresses a connection is pinned to, none when unbound.\<close>

definition new_bound_controller :: "int \<Rightarrow> string \<Rightarrow> string \<Rightarrow> (string, (byte list \<times> byte list) option) result" where
  "new_bound_controller timeout source_ip controller_ip =
     guard (timeout \<le> 0 \<or> 60 * second < timeout) ''controller timeout must be positive and at most one minute'' (
     if source_ip \<noteq> [] \<or> controller_ip \<noteq> [] then
       (case (parse_ip_to4 source_ip, parse_ip_to4 controller_ip) of
          (Some src, Some dst) \<Rightarrow>
            guard (unspecified4 src \<or> multicast4 src \<or> unspecified4 dst \<or> multicast4 dst)
              ''controller binding requires usable source and destination IPv4 addresses'' (Inr (Some (src, dst)))
        | _ \<Rightarrow> Inl ''controller binding requires usable source and destination IPv4 addresses'')
     else Inr None)"

definition exchange :: "(string \<Rightarrow> byte list \<Rightarrow> http_answer) \<Rightarrow> string \<Rightarrow> byte list \<Rightarrow> (exchange_error, byte list) result" where
  "exchange client endpoint packet =
     guard (length packet = 0 \<or> header_length + 1048576 < length packet)
       (Unreached (Leaf ''controller exchange has invalid input'')) (
     guard (parse_url endpoint = None) (Unreached (Leaf ''create controller request'')) (
     case client endpoint packet of
       NoResponse e \<Rightarrow> Inl (Unreached (network e ControllerDNS ControllerTimeout ControllerTransport))
     | Response status announced body \<Rightarrow>
         guard (status = 404) (Received (Domain ErrAdoptionPending)) (
         guard (status \<noteq> 200) (Received (Failure ControllerHTTP (Leaf ''controller returned a non-success status''))) (
         guard (max_controller_wire_response < announced) (Received (Leaf ''controller response exceeds limit'')) (
         case body of
           None \<Rightarrow> Inl (Received (Leaf ''read controller response''))
         | Some b \<Rightarrow>
             guard (length b = 0 \<or> max_controller_wire_response < int (length b))
               (Received (Leaf ''controller response has invalid size'')) (Inr b))))))"

section \<open>Confining responses over plain HTTP\<close>

text \<open>
  The next adoption state and the outcome after the confinement, with the configuration
  version that may be reported and whether it may.
\<close>

definition confine_adopted_plain_http :: "adoption_state \<Rightarrow> adoption_state \<Rightarrow> outcome \<Rightarrow> mode \<Rightarrow> bool \<Rightarrow> bool \<Rightarrow>
    adoption_state \<times> outcome \<times> string option" where
  "confine_adopted_plain_http current next1 out md allow_volatile only_version =
     (if \<not> Adopted current then (next1, out, None)
      else let endpoint = parse_controller_url (InformURL current);
               https = (case endpoint of Inr u \<Rightarrow> u_scheme u = ''https'' | Inl e \<Rightarrow> False);
               http = (case endpoint of Inr u \<Rightarrow> u_scheme u = ''http'' | Inl e \<Rightarrow> False) in
        if https then (next1, out, None)
        else if md = mode_cbc \<and> equal_fold (AuthKey current) default_key \<and> \<not> equal_fold (AuthKey next1) default_key
        then (next1, out, None)
        else let upgrade = (md = mode_cbc \<and> UseAESGCM next1 \<and> \<not> UseAESGCM current \<and>
                            equal_fold (AuthKey next1) (AuthKey current));
                 retain = (allow_volatile \<and> http \<and> md = mode_gcm \<and> UseAESGCM current \<and>
                           \<not> equal_fold (AuthKey current) default_key \<and> Kind out = ResponseSetParam \<and> only_version \<and>
                           equal_fold (AuthKey next1) (AuthKey current) \<and> InformURL next1 = InformURL current \<and>
                           UseAESGCM next1 = UseAESGCM current \<and> Adopted next1 = Adopted current);
                 base = (outcome_of (Kind out))\<lparr>CycleIntents := CycleIntents out,
                                               UnsupportedSettings := UnsupportedSettings out\<rparr>
             in (if upgrade then current\<lparr>UseAESGCM := True\<rparr> else current,
                 if upgrade then base\<lparr>StateChanged := True\<rparr> else base,
                 if retain then Some (CfgVersion next1) else None))"

text \<open>The entries of \<open>mgmt_cfg\<close>: exactly one, and its name is \<open>cfgversion\<close>.\<close>

fun count_cfgversion :: "string list \<Rightarrow> nat \<Rightarrow> nat option" where
  "count_cfgversion [] n = Some n"
| "count_cfgversion (raw # rest) n =
     (let line = trim_space raw in
      if line = [] then count_cfgversion rest n
      else case cut (CHR ''='') line of
        None \<Rightarrow> None
      | Some (name, v) \<Rightarrow> if trim_space name \<noteq> ''cfgversion'' then None else count_cfgversion rest (n + 1))"

definition set_param_has_only_cfgversion :: "string \<Rightarrow> bool" where
  "set_param_has_only_cfgversion body =
     (case parse_json body of
        Some (JObj ms) \<Rightarrow>
          (case (string_field [] (members_named ''_type'' ms), string_field [] (members_named ''mgmt_cfg'' ms)) of
             (Some t, Some m) \<Rightarrow>
               t = ''setparam'' \<and>
               count_cfgversion (split_char (CHR 0x0A) (replace_char (CHR 0x0D) (CHR 0x0A) m)) 0 = Some 1
           | _ \<Rightarrow> False)
      | _ \<Rightarrow> False)"

section \<open>What a response over plain HTTP can do\<close>

lemma cfgversion_lines:
  "count_cfgversion ls n = Some k \<Longrightarrow> mgmt_lines seen ls s = Inr s' \<Longrightarrow>
   n \<le> k \<and> (s' = s \<or> (\<exists>v. valid_config_value v 128 \<and> s' = s\<lparr>CfgVersion := v\<rparr>))"
proof (induction ls n arbitrary: seen s rule: count_cfgversion.induct)
  case (2 raw rest n)
  show ?case
  proof (cases "trim_space raw = []")
    case True
    then show ?thesis using 2 by simp
  next
    case False
    obtain name v where c: "cut (CHR ''='') (trim_space raw) = Some (name, v)" "trim_space name = ''cfgversion''"
        "count_cfgversion rest (n + 1) = Some k"
      using "2.prems"(1) False by (auto simp: Let_def split: option.splits if_splits)
    then obtain s1 where e: "mgmt_entry (trim_space name) (trim_space v) s = Inr s1"
        "mgmt_lines (insert (trim_space name) seen) rest s1 = Inr s'"
      using "2.prems"(2) False by (auto simp: Let_def split: if_splits sum.splits)
    have "valid_config_value (trim_space v) 128 \<and> s1 = s\<lparr>CfgVersion := trim_space v\<rparr>"
      using e(1) c(2) by (auto simp: mgmt_entry_def)
    moreover have "n + 1 \<le> k \<and> (s' = s1 \<or> (\<exists>v. valid_config_value v 128 \<and> s' = s1\<lparr>CfgVersion := v\<rparr>))"
      by (rule "2.IH"(2) [OF refl False c(1) refl _ c(3) e(2)]) (simp add: c(2))
    ultimately show ?thesis by auto
  qed
qed simp

text \<open>A response with a single \<open>cfgversion\<close> entry changes the version and adopts, nothing else.\<close>

lemma only_cfgversion_effect:
  assumes "apply_controller_response body s = (Inr out, s2)" "set_param_has_only_cfgversion body" "Adopted s"
  shows "s2 = s \<or> (\<exists>v. valid_config_value v 128 \<and> s2 = s\<lparr>CfgVersion := v\<rparr>)"
  using apply_controller_response_cases [of body s]
proof cases
  case (applied j r)
  obtain ms t m where j: "parse_json body = Some (JObj ms)" "string_field [] (members_named ''_type'' ms) = Some ''setparam''"
      "string_field [] (members_named ''mgmt_cfg'' ms) = Some m"
      "count_cfgversion (split_char (CHR 0x0A) (replace_char (CHR 0x0D) (CHR 0x0A) m)) 0 = Some 1"
    using assms(2) by (auto simp: set_param_has_only_cfgversion_def split: option.splits json.splits)
  then have "j = JObj ms" using applied(2) by (auto simp: validate_unique_json_def split: if_splits)
  then have r: "rType r = ''setparam''" "rMgmtCfg r = m"
    using applied(3) j by (auto simp: decode_response_def decode_members_def split: option.splits)
  obtain out1 s1 mark where k: "apply_kind r s = Inr (out1, s1, mark)" "mark_managed mark (out1, s1) = (out, s2)"
    using apply_response_Inr [of r s out s2] applied(4) assms(1) by metis
  obtain s' where m: "apply_mgmt_cfg m s = Inr s'" "s1 = s'" using k(1) r by (auto simp: apply_kind_def split: sum.splits)
  have "mgmt_lines {} (split_char (CHR 0x0A) (replace_char (CHR 0x0D) (CHR 0x0A) m)) s = Inr s'"
    using m(1) by (simp add: apply_mgmt_cfg_def Let_def)
  from cfgversion_lines [OF j(4) this] show ?thesis
    using k(2) m(2) assms(3) by (auto simp: mark_managed_def split: if_splits)
qed (use assms in simp)

text \<open>
  Over plain HTTP an adopted device is not at the mercy of the network.  A response
  leaves its adoption state as it is, with two exceptions, both only in CBC mode: a state
  with the public default key takes the response that installs a key, and a session may go
  up to GCM under the key it has.  Nothing but the kind, the relay intents and the names of
  unsupported settings is left of the outcome then: no restart, upgrade or new interval.  A
  configuration version is handed on for reporting only when the operator allowed it, for a
  GCM response that carries that one setting.
\<close>

theorem plain_http_confined:
  assumes "apply_controller_response body current = (Inr out, next1)" "Adopted current"
    and "\<not> over_https (InformURL current)"
    and "confine_adopted_plain_http current next1 out md allow (set_param_has_only_cfgversion body) = (next2, out2, version)"
  shows "(next2 = current \<or>
      md = mode_cbc \<and> \<not> UseAESGCM current \<and> next2 = current\<lparr>UseAESGCM := True\<rparr> \<or>
      md = mode_cbc \<and> equal_fold (AuthKey current) default_key \<and> next2 = next1 \<and>
        \<not> equal_fold (AuthKey next2) default_key) \<and>
    (equal_fold (AuthKey next2) (AuthKey current) \<longrightarrow>
      \<not> RestartRequested out2 \<and> UpgradeVersion out2 = [] \<and> Interval out2 = 0 \<and> \<not> InformURLChanged out2 \<and>
      StateChanged out2 = (next2 \<noteq> current)) \<and>
    (\<forall>v. version = Some v \<longrightarrow> allow \<and> md = mode_gcm \<and> UseAESGCM current \<and> next2 = current \<and>
      next1 = current\<lparr>CfgVersion := v\<rparr>)"
proof -
  let ?install = "md = mode_cbc \<and> equal_fold (AuthKey current) default_key \<and> \<not> equal_fold (AuthKey next1) default_key"
  have https: "\<not> (case parse_controller_url (InformURL current) of Inr u \<Rightarrow> u_scheme u = ''https'' | Inl e \<Rightarrow> False)"
    using assms(3) by (auto simp: over_https_def split: sum.splits)
  show ?thesis
  proof (cases ?install)
    case True
    then have "next2 = next1" "version = None" using assms(2,4) https by (simp_all add: confine_adopted_plain_http_def Let_def)
    moreover have "\<not> equal_fold (AuthKey next1) (AuthKey current)"
      using True equal_fold_trans by blast
    ultimately show ?thesis using True by simp
  next
    case False
    let ?up = "md = mode_cbc \<and> UseAESGCM next1 \<and> \<not> UseAESGCM current \<and> equal_fold (AuthKey next1) (AuthKey current)"
    let ?base = "(outcome_of (Kind out))\<lparr>CycleIntents := CycleIntents out, UnsupportedSettings := UnsupportedSettings out\<rparr>"
    have n: "next2 = (if ?up then current\<lparr>UseAESGCM := True\<rparr> else current)"
        "out2 = (if ?up then ?base\<lparr>StateChanged := True\<rparr> else ?base)"
        and v: "version = Some w \<Longrightarrow> allow \<and> md = mode_gcm \<and> UseAESGCM current \<and>
          set_param_has_only_cfgversion body \<and> w = CfgVersion next1" for w
      using assms(2,4) https False
      unfolding confine_adopted_plain_http_def Let_def by (simp_all split: if_splits)
    have "current \<noteq> current\<lparr>UseAESGCM := True\<rparr>" if ?up
      using that by (metis adoption_state.select_convs(5) adoption_state.surjective adoption_state.update_convs(5))
    moreover have "next1 = current\<lparr>CfgVersion := w\<rparr> \<and> \<not> ?up" if "version = Some w" for w
      using v [OF that] only_cfgversion_effect [OF assms(1) _ assms(2)] by (auto simp: mode_cbc_def mode_gcm_def)
    ultimately show ?thesis using n v by (auto simp: outcome_of_def)
  qed
qed

text \<open>A reboot request, sent in the clear to an adopted device.\<close>

definition reboot_json :: json where "reboot_json = JObj [(''_type'', JStr ''reboot'')]"

definition reboot_body :: string where "reboot_body = marshal reboot_json"

lemma parse_reboot: "parse_json reboot_body = Some reboot_json"
  unfolding reboot_body_def reboot_json_def
  by (subst parse_marshal) (simp_all add: clean_ascii ascii_def cbyte_def)

lemma reboot_text: "reboot_body = CHR ''{'' # CHR 0x22 # ''_type'' @ CHR 0x22 # CHR '':'' # CHR 0x22 # ''reboot'' @ CHR 0x22 # ''}''"
  by code_simp

lemma reboot_size: "reboot_body \<noteq> []" "\<not> max_controller_response < length reboot_body"
  by (simp_all add: reboot_text max_controller_response_def)

lemma decode_reboot:
  "decode_response reboot_json =
     Some \<lparr>rType = ''reboot'', rCmd = [], rInterval = 0, rMgmtCfg = [], rSystemCfg = [], rVersion = [], rOutletTable = None\<rparr>"
proof -
  have "fold_name ''_type'' \<noteq> fold_name f"
    if "f \<in> {''cmd'', ''interval'', ''mgmt_cfg'', ''system_cfg'', ''version'', ''outlet_table''}" for f
    using that by (auto simp: fold_name_def ascii_def cbyte_def lower_char_def in_range_def)
  then show ?thesis
    by (simp add: reboot_json_def decode_response_def decode_members_def members_named_def field_matches_def raw_field_def)
qed

lemma walk_reboot: "json_walk 32 0 reboot_json"
  by (simp add: reboot_json_def)

lemma apply_reboot:
  "adoption_valid s \<Longrightarrow> Adopted s \<Longrightarrow>
   apply_controller_response reboot_body s = (Inr ((outcome_of ResponseReboot)\<lparr>RestartRequested := True\<rparr>), s)"
  by (simp add: apply_controller_response_def validate_unique_json_def parse_reboot decode_reboot reboot_size
      walk_reboot apply_response_def apply_kind_def valid_token_def
      token_char_def alnum_byte_def in_range_def cbyte_def mark_managed_def)

lemma demo_not_https: "\<not> over_https (InformURL demo_adoption)"
proof -
  have "parse_url ''http://h/inform'' = Some \<lparr>u_scheme = ''http'', u_opaque = False, u_user = False, u_host = ''h'',
      u_path = ''/inform'', u_query = [], u_fragment = []\<rparr>"
    by (simp add: parse_url_def cut_def get_scheme_def scheme_char_def alnum_byte_def
        cbyte_def in_range_def lower_char_def cut_query_def has_prefix_def parse_authority_def
        last_index_split_def parse_host_def unescape_host_def host_char_def ascii_def Let_def)
  then show ?thesis
    by (simp add: over_https_def demo_adoption_def parse_controller_url_def)
qed

theorem plain_http_confined_witness:
  "let (out, next1) = ((outcome_of ResponseReboot)\<lparr>RestartRequested := True\<rparr>, demo_adoption);
       (next2, out2, version) = confine_adopted_plain_http demo_adoption next1 out mode_gcm True False
   in next2 = demo_adoption \<and> \<not> RestartRequested out2"
proof -
  let ?out = "(outcome_of ResponseReboot)\<lparr>RestartRequested := True\<rparr>"
  have a: "apply_controller_response reboot_body demo_adoption = (Inr ?out, demo_adoption)" "Adopted demo_adoption"
    using apply_reboot [OF demo_adoption_valid] by (simp_all add: demo_adoption_def)
  have h: "\<not> over_https (InformURL demo_adoption)" by (rule demo_not_https)
  have "set_param_has_only_cfgversion reboot_body = False"
    by (auto simp: set_param_has_only_cfgversion_def parse_reboot reboot_json_def members_named_def field_matches_def
        split: option.splits)
  then obtain next2 out2 version where
      c: "confine_adopted_plain_http demo_adoption demo_adoption ?out mode_gcm True False = (next2, out2, version)"
      "set_param_has_only_cfgversion reboot_body = False"
    by (metis prod_cases3)
  have "next2 = demo_adoption \<and> \<not> RestartRequested out2"
    using plain_http_confined [OF a h, of mode_gcm True next2 out2 version] c equal_fold_refl
    by (auto simp: mode_cbc_def mode_gcm_def)
  then show ?thesis using c(1) by simp
qed

end
