(* ===== verification/LocalNetwork.thy ===== *)
theory LocalNetwork
  imports Project Trust
begin

unbundle bit_operations_syntax

text \<open>
  The addresses the gateway may use: \<open>internal/netconfig/lease.go\<close> (the status the network
  agent hands over and the address check) and \<open>internal/gateway/network.go\<close> (the controller's
  IPv4 address and the one local interface that owns the configured address).  The resolver
  and the list of interfaces are what the system calls return.
\<close>

section \<open>IPv4 addresses as words\<close>

definition addr_word :: "byte list \<Rightarrow> u32" where
  "addr_word q = of_nat (be_value q)"

text \<open>\<open>IsGlobalUnicast\<close>, \<open>IsLoopback\<close> and \<open>IsLinkLocalUnicast\<close> on four bytes.\<close>

definition loopback4 :: "byte list \<Rightarrow> bool" where "loopback4 q \<longleftrightarrow> q ! 0 = 127"
definition link_local4 :: "byte list \<Rightarrow> bool" where "link_local4 q \<longleftrightarrow> q ! 0 = 169 \<and> q ! 1 = 254"

definition global_unicast4 :: "byte list \<Rightarrow> bool" where
  "global_unicast4 q \<longleftrightarrow>
     q \<noteq> [255, 255, 255, 255] \<and> \<not> unspecified4 q \<and> \<not> loopback4 q \<and> \<not> multicast4 q \<and> \<not> link_local4 q"

section \<open>The lease status\<close>

record status =
  ls_generation :: string
  ls_sequence :: u64
  ls_address :: string
  ls_prefix :: int
  ls_router :: string
  ls_valid_until :: int

text \<open>\<open>netip.ParseAddr\<close> followed by \<open>usable\<close>, which asks for four bytes.\<close>

definition usable :: "byte list \<Rightarrow> bool" where
  "usable q \<longleftrightarrow>
     length q = 4 \<and> global_unicast4 q \<and> \<not> loopback4 q \<and> \<not> link_local4 q \<and> q ! 0 \<noteq> 0 \<and> q ! 0 < 224"

definition usable_address :: "string \<Rightarrow> byte list option" where
  "usable_address s = (case parse_ip s of Some q \<Rightarrow> if usable q then Some q else None | None \<Rightarrow> None)"

definition host_mask :: "int \<Rightarrow> u32" where
  "host_mask bits = push_bit (nat (32 - bits)) 1 - 1"

definition masked :: "u32 \<Rightarrow> int \<Rightarrow> u32" where
  "masked x bits = x AND NOT (mask (nat (32 - bits)))"

definition validate_address :: "string \<Rightarrow> int \<Rightarrow> string \<Rightarrow> (string, unit) result" where
  "validate_address address bits router =
     (case usable_address address of
        None \<Rightarrow> Inl ''invalid network address''
      | Some ip \<Rightarrow>
          guard (bits < 1 \<or> 30 < bits) ''invalid network address'' (
          let x = addr_word ip; y = masked x bits in
          guard (x = y \<or> x = y OR host_mask bits) ''network or broadcast address'' (
          case usable_address router of
            None \<Rightarrow> Inl ''invalid network router''
          | Some r \<Rightarrow>
              guard (masked (addr_word r) bits \<noteq> y \<or> r = ip \<or> addr_word r = y) ''invalid network router'' (
              guard (addr_word r = y OR host_mask bits) ''broadcast router'' (Inr ())))))"

definition status_valid :: "int \<Rightarrow> status \<Rightarrow> (string, unit) result" where
  "status_valid now s =
     guard (length (ls_generation s) \<noteq> 32 \<or> ls_sequence s = 0 \<or> ls_valid_until s \<le> now \<or> now + 5 * second < ls_valid_until s)
       ''network status is not current'' (
     guard (\<not> list_all (\<lambda>c. in_range 48 57 c \<or> in_range 97 102 c) (ls_generation s)) ''invalid network generation''
       (validate_address (ls_address s) (ls_prefix s) (ls_router s)))"

definition same_network :: "status \<Rightarrow> status \<Rightarrow> bool" where
  "same_network s other \<longleftrightarrow>
     ls_generation s = ls_generation other \<and> ls_address s = ls_address other \<and> ls_prefix s = ls_prefix other \<and>
     ls_router s = ls_router other"

section \<open>Which hosts an address check accepts\<close>

lemma host_mask_eq: "1 \<le> bits \<Longrightarrow> bits \<le> 32 \<Longrightarrow> host_mask bits = mask (nat (32 - bits))"
  by (simp add: host_mask_def mask_eq_exp_minus_1 push_bit_eq_mult)

lemma masked_or_take_bit: "x AND NOT (mask n) OR take_bit n x = (x :: u32)"
  by (rule bit_word_eqI) (auto simp: bit_simps)

lemma is_network: "x = x AND NOT (mask n) \<longleftrightarrow> take_bit n (x :: u32) = 0"
proof
  assume "x = x AND NOT (mask n)"
  then have "take_bit n x = take_bit n (x AND NOT (mask n))" by simp
  also have "\<dots> = 0" by (rule bit_word_eqI) (auto simp: bit_simps)
  finally show "take_bit n x = 0" .
next
  assume "take_bit n x = 0"
  then show "x = x AND NOT (mask n)" using masked_or_take_bit [of x n] by simp
qed

lemma same_prefix_cases:
  assumes "(z :: u32) AND NOT (mask n) = x AND NOT (mask n)"
  shows "z = x AND NOT (mask n) OR mask n \<longleftrightarrow> take_bit n z = mask n"
    and "z = x AND NOT (mask n) \<longleftrightarrow> take_bit n z = 0"
proof -
  have "take_bit n (x AND NOT (mask n) OR mask n) = mask n" by (rule bit_word_eqI) (auto simp: bit_simps)
  then show "z = x AND NOT (mask n) OR mask n \<longleftrightarrow> take_bit n z = mask n"
    using masked_or_take_bit [of z n] assms by metis
  show "z = x AND NOT (mask n) \<longleftrightarrow> take_bit n z = 0" using is_network [of z n] assms by metis
qed

lemma unat_host: "unat (take_bit n (x :: u32)) = unat x mod 2 ^ n"
  by (metis take_bit_eq_mod unsigned_take_bit_eq)

lemma unat_network: "unat (drop_bit n (x :: u32)) = unat x div 2 ^ n"
  by (metis drop_bit_eq_div unat_drop_bit_eq)

lemma host_zero: "take_bit n (x :: u32) = 0 \<longleftrightarrow> unat x mod 2 ^ n = 0"
  using unat_host [of n x] by (metis unsigned_0 unsigned_word_eqI)

lemma host_ones: "n \<le> 32 \<Longrightarrow> take_bit n (x :: u32) = mask n \<longleftrightarrow> unat x mod 2 ^ n = 2 ^ n - 1"
proof -
  assume "n \<le> 32"
  have "unat (- 1 :: u32) = mask 32" by (simp add: mask_eq_exp_minus_1 unsigned_minus_1_eq_mask)
  then have "unat (take_bit n (- 1 :: u32)) = mask n"
    using \<open>n \<le> 32\<close> by (simp only: unsigned_take_bit_eq take_bit_of_mask min_absorb1)
  then have "unat (mask n :: u32) = 2 ^ n - 1" by (simp add: mask_eq_exp_minus_1)
  then show ?thesis using unat_host [of n x] by (metis unsigned_word_eqI)
qed

lemma masked_div: "masked z bits = masked x bits \<longleftrightarrow> unat z div 2 ^ nat (32 - bits) = unat x div 2 ^ nat (32 - bits)"
proof -
  let ?n = "nat (32 - bits)"
  have "masked z bits = masked x bits \<longleftrightarrow> drop_bit ?n z = drop_bit ?n x"
  proof
    assume "masked z bits = masked x bits"
    then have "drop_bit ?n (masked z bits) = drop_bit ?n (masked x bits)" by simp
    moreover have "drop_bit ?n (masked w bits) = drop_bit ?n w" for w
      unfolding masked_def by (rule bit_word_eqI) (auto simp: bit_simps dest: bit_imp_le_length)
    ultimately show "drop_bit ?n z = drop_bit ?n x" by simp
  next
    assume d: "drop_bit ?n z = drop_bit ?n x"
    have "masked w bits = push_bit ?n (drop_bit ?n w)" for w
      unfolding masked_def by (rule bit_word_eqI) (auto simp: bit_simps dest: bit_imp_le_length)
    then show "masked z bits = masked x bits" using d by simp
  qed
  also have "\<dots> \<longleftrightarrow> unat (drop_bit ?n z) = unat (drop_bit ?n x)" by (simp add: unsigned_word_eqI word_unat_eq_iff)
  finally show ?thesis unfolding unat_network .
qed

lemma usable_length: "usable_address s = Some q \<Longrightarrow> length q = 4"
  by (auto simp: usable_address_def usable_def split: option.splits if_splits)

text \<open>The number of the host within its network, and of the network.\<close>

definition host_number :: "int \<Rightarrow> byte list \<Rightarrow> nat" where
  "host_number bits q = be_value q mod 2 ^ nat (32 - bits)"

definition network_number :: "int \<Rightarrow> byte list \<Rightarrow> nat" where
  "network_number bits q = be_value q div 2 ^ nat (32 - bits)"

lemma unat_addr_word: "length q = 4 \<Longrightarrow> unat (addr_word q) = be_value q"
  using be_value_less [of q] by (simp add: addr_word_def unat_of_nat take_bit_eq_mod)

lemma addr_word_inject: "length q = 4 \<Longrightarrow> length r = 4 \<Longrightarrow> be_value q = be_value r \<longleftrightarrow> q = r"
  using be_bytes_value [of q] be_bytes_value [of r] by metis

lemma validate_address_hosts:
  "validate_address address bits router = Inr () \<longleftrightarrow>
     (\<exists>ip r. usable_address address = Some ip \<and> usable_address router = Some r \<and> 1 \<le> bits \<and> bits \<le> 30 \<and>
        network_number bits r = network_number bits ip \<and> host_number bits r \<noteq> host_number bits ip \<and>
        (\<forall>q \<in> {ip, r}. 0 < host_number bits q \<and> host_number bits q < 2 ^ nat (32 - bits) - 1))"
proof (cases "(1 \<le> bits \<and> bits \<le> 30) \<and> usable_address address \<noteq> None \<and> usable_address router \<noteq> None")
  case False
  then show ?thesis by (auto simp: validate_address_def Let_def split: option.splits)
next
  case True
  then obtain ip r where a: "usable_address address = Some ip" "usable_address router = Some r" by auto
  let ?n = "nat (32 - bits)" and ?x = "addr_word ip" and ?z = "addr_word r"
  have n: "?n \<le> 32" "host_mask bits = mask ?n" using True by (auto simp: host_mask_eq nat_le_iff)
  note l = usable_length [OF a(1)] usable_length [OF a(2)]
  have num: "host_number bits q = unat (addr_word q) mod 2 ^ ?n" "network_number bits q = unat (addr_word q) div 2 ^ ?n"
    if "length q = 4" for q using that by (simp_all add: host_number_def network_number_def unat_addr_word)
  have bound: "host_number bits q < 2 ^ ?n" for q by (simp add: host_number_def)
  have edge: "(w = masked w bits) = (unat w mod 2 ^ ?n = 0)" "(w = masked w bits OR host_mask bits) = (unat w mod 2 ^ ?n = 2 ^ ?n - 1)" for w
    unfolding n masked_def using same_prefix_cases [of w ?n w] host_zero [of ?n w] host_ones [OF n(1), of w] by simp_all
  have inner: "(0 < host_number bits q \<and> host_number bits q < 2 ^ ?n - 1) =
      (\<not> (addr_word q = masked (addr_word q) bits \<or> addr_word q = masked (addr_word q) bits OR host_mask bits))"
    if "length q = 4" for q using bound [of q] unfolding edge num [OF that] by linarith
  have same: "(r = ip) = (host_number bits r = host_number bits ip)" if "network_number bits r = network_number bits ip"
    using that addr_word_inject [OF l(2,1)] div_mult_mod_eq [of "be_value r" "2 ^ ?n"] div_mult_mod_eq [of "be_value ip" "2 ^ ?n"]
    unfolding host_number_def network_number_def by metis
  have net: "(masked ?z bits \<noteq> masked ?x bits) = (network_number bits r \<noteq> network_number bits ip)"
    unfolding num(2) [OF l(1)] num(2) [OF l(2)] masked_div by simp
  show ?thesis
  proof (cases "network_number bits r = network_number bits ip")
    case True
    then have "masked ?z bits = masked ?x bits" using net by simp
    then show ?thesis
      using True a same [OF True] inner [OF l(1)] inner [OF l(2)] \<open>(1 \<le> bits \<and> bits \<le> 30) \<and> _\<close>
      by (auto simp: validate_address_def Let_def not_less)
  next
    case False
    then show ?thesis using a net by (auto simp: validate_address_def Let_def)
  qed
qed

definition proper_host :: "int \<Rightarrow> byte list \<Rightarrow> bool" where
  "proper_host bits q \<longleftrightarrow> 0 < host_number bits q \<and> host_number bits q < 2 ^ nat (32 - bits) - 1"

text \<open>
  The address check accepts exactly the host addresses of a subnet: a usable address
  with a prefix of 1 to 30 bits whose host number is neither that of the network nor that of
  its broadcast, and a usable router with another such number in the same network.
\<close>

theorem validate_address_exact:
  "validate_address address bits router = Inr () \<longleftrightarrow>
     (\<exists>ip r. usable_address address = Some ip \<and> usable_address router = Some r \<and> 1 \<le> bits \<and> bits \<le> 30 \<and>
        network_number bits r = network_number bits ip \<and> host_number bits r \<noteq> host_number bits ip \<and>
        proper_host bits ip \<and> proper_host bits r)"
  unfolding validate_address_hosts by (auto simp: proper_host_def)

section \<open>The controller's address\<close>

fun text_less :: "string \<Rightarrow> string \<Rightarrow> bool" where
  "text_less [] ys = (ys \<noteq> [])"
| "text_less (x # xs) [] = False"
| "text_less (x # xs) (y # ys) = (cbyte x < cbyte y \<or> x = y \<and> text_less xs ys)"

text \<open>The first of the sorted candidates.\<close>

fun least_text :: "string \<Rightarrow> string list \<Rightarrow> string" where
  "least_text m [] = m"
| "least_text m (t # ts) = least_text (if text_less t m then t else m) ts"

definition resolve_ipv4 :: "(string \<Rightarrow> byte list list option) \<Rightarrow> string \<Rightarrow> (string, byte list) result" where
  "resolve_ipv4 resolver host =
     (case parse_ip_to4 host of
        Some q \<Rightarrow> Inr q
      | None \<Rightarrow>
          (case resolver host of
             None \<Rightarrow> Inl ''IPv4 resolver failed''
           | Some addresses \<Rightarrow>
               (case map ip4_text (filter (\<lambda>q. \<not> unspecified4 q \<and> \<not> multicast4 q) (List.map_filter to4 addresses)) of
                  [] \<Rightarrow> Inl ''IPv4 resolver returned no usable address''
                | t # ts \<Rightarrow> Inr (the (parse_ip_to4 (least_text t ts))))))"

definition controller_ipv4 :: "(string \<Rightarrow> byte list list option) \<Rightarrow> string \<Rightarrow> (string go_error, byte list) result" where
  "controller_ipv4 resolver inform_url =
     (case parse_controller_url inform_url of
        Inl e \<Rightarrow> Inl (Leaf e)
      | Inr u \<Rightarrow>
          (case resolve_ipv4 resolver (url_hostname u) of
             Inl e \<Rightarrow> Inl (Failure ControllerDNS (Leaf ''controller has no usable IPv4 address''))
           | Inr q \<Rightarrow> Inr q))"

section \<open>The local interface\<close>

text \<open>An address of an interface: an IP network, or something else.\<close>

datatype interface_address = IPNet "byte list" "byte list" | OtherAddress

record interface_observation =
  io_up :: bool
  io_loopback :: bool
  io_broadcast :: bool
  io_mac :: "byte list"
  io_addrs :: "interface_address list"

text \<open>\<open>IP.Equal\<close> against four bytes.\<close>

definition ip_equal4 :: "byte list \<Rightarrow> byte list \<Rightarrow> bool" where
  "ip_equal4 a q \<longleftrightarrow> to4 a = Some q"

definition broadcast_of :: "byte list \<Rightarrow> byte list \<Rightarrow> byte list" where
  "broadcast_of q m = map2 (\<lambda>a b. (a AND b) OR NOT b) q m"

definition network_of :: "byte list \<Rightarrow> byte list \<Rightarrow> byte list" where
  "network_of q m = map2 (\<lambda>a b. a AND b) q m"

text \<open>The checks on the interface that owns the address, and the identity it gives.\<close>

definition interface_identity :: "byte list \<Rightarrow> interface_observation \<Rightarrow> byte list \<Rightarrow> network_identity option" where
  "interface_identity q f m =
     (let ones = (if length m = 4 then mask_size m else None) in
      if \<not> io_up f \<or> io_loopback f \<or> \<not> io_broadcast f \<or> length (io_mac f) \<noteq> 6 \<or> io_mac f ! 0 AND 1 \<noteq> 0 \<or>
         mac_text (io_mac f) = ''00:00:00:00:00:00'' \<or> (case ones of None \<Rightarrow> True | Some n \<Rightarrow> n < 1 \<or> 30 < n)
      then None
      else if q = network_of q m \<or> q = broadcast_of q m then None
      else Some \<lparr>nw_device_ip = ip4_text q, nw_inform_ip = [], nw_netmask = ip4_text m, nw_mac = mac_text (io_mac f)\<rparr>)"

text \<open>The loop over the addresses: each match must pass the checks, and is counted.\<close>

fun scan_interfaces :: "byte list \<Rightarrow> (interface_observation \<times> interface_address) list \<Rightarrow> nat \<times> network_identity option \<Rightarrow>
    (nat \<times> network_identity option) option" where
  "scan_interfaces q [] acc = Some acc"
| "scan_interfaces q ((f, OtherAddress) # rest) acc = scan_interfaces q rest acc"
| "scan_interfaces q ((f, IPNet a m) # rest) acc =
     (if \<not> ip_equal4 a q then scan_interfaces q rest acc
      else case interface_identity q f m of
        None \<Rightarrow> None
      | Some i \<Rightarrow> scan_interfaces q rest (fst acc + 1, Some i))"

definition interface_pairs :: "interface_observation list \<Rightarrow> (interface_observation \<times> interface_address) list" where
  "interface_pairs fs = concat (map (\<lambda>f. map (Pair f) (io_addrs f)) fs)"

definition select_local_network_identity :: "string \<Rightarrow> interface_observation list \<Rightarrow> network_identity option" where
  "select_local_network_identity configured fs =
     (case parse_ip_to4 configured of
        None \<Rightarrow> None
      | Some q \<Rightarrow>
          if \<not> global_unicast4 q \<or> loopback4 q \<or> link_local4 q then None
          else (case scan_interfaces q (interface_pairs fs) (0, None) of
             Some (n, i) \<Rightarrow> if n = 1 then i else None
           | None \<Rightarrow> None))"

definition owners :: "byte list \<Rightarrow> interface_observation list \<Rightarrow> (interface_observation \<times> byte list) list" where
  "owners q fs =
     List.map_filter (\<lambda>(f, a). case a of IPNet b m \<Rightarrow> if ip_equal4 b q then Some (f, m) else None | OtherAddress \<Rightarrow> None)
       (interface_pairs fs)"

lemma scan_interfaces_owners:
  "scan_interfaces q ps (n, i) =
     (let os = List.map_filter (\<lambda>(f, a). case a of IPNet b m \<Rightarrow> if ip_equal4 b q then Some (f, m) else None | OtherAddress \<Rightarrow> None) ps
      in if list_all (\<lambda>(f, m). interface_identity q f m \<noteq> None) os
         then Some (n + length os, if os = [] then i else interface_identity q (fst (last os)) (snd (last os)))
         else None)"
  by (induction q ps "(n, i)" arbitrary: n i rule: scan_interfaces.induct)
     (auto simp: List.map_filter_simps Let_def split: option.splits)

text \<open>
  The gateway uses an address only when exactly one interface address of the machine
  equals it and that interface is up, not a loopback, broadcast capable, with a six-byte
  unicast MAC that is not all zero and a netmask of 1 to 30 bits that makes the address a
  host; the MAC and the mask are those of that interface.  In every other case it fails.
\<close>

theorem local_identity_exact:
  "select_local_network_identity configured fs = Some i \<longleftrightarrow>
     (\<exists>q f m. parse_ip_to4 configured = Some q \<and> global_unicast4 q \<and> owners q fs = [(f, m)] \<and>
        interface_identity q f m = Some i)"
proof (cases "parse_ip_to4 configured")
  case (Some q)
  have "select_local_network_identity configured fs = Some i \<longleftrightarrow>
      global_unicast4 q \<and> list_all (\<lambda>(f, m). interface_identity q f m \<noteq> None) (owners q fs) \<and>
      length (owners q fs) = 1 \<and> (case last (owners q fs) of (f, m) \<Rightarrow> interface_identity q f m = Some i)"
    using Some by (auto simp: select_local_network_identity_def scan_interfaces_owners owners_def Let_def
        global_unicast4_def split_beta)
  also have "\<dots> \<longleftrightarrow> (\<exists>f m. global_unicast4 q \<and> owners q fs = [(f, m)] \<and> interface_identity q f m = Some i)"
    by (auto simp: length_Suc_conv)
  finally show ?thesis using Some by auto
qed (simp add: select_local_network_identity_def)

end
