(* ===== verification/Gateway.thy ===== *)
theory Gateway
  imports Replay Health LocalNetwork
begin

text \<open>
  The runtime of \<open>internal/gateway\<close>: construction (\<open>New\<close>), the poll, the inform exchange with
  its commit (\<open>gateway.go\<close>), and the receipt handlers (\<open>receipt.go\<close>, \<open>firmware.go\<close>).  The
  mutex of the code makes an inform one step; what the outside does during a step is its
  environment: the clock, the network status, the HTTP answer and which system calls fail.
  SHA-256, HMAC and AES are the fields of \<open>primitives\<close>.  The three private files the gateway
  writes are part of its state.
\<close>

section \<open>State\<close>

record primitives =
  pm_sha :: "byte list \<Rightarrow> byte list"
  pm_hmac :: "byte list \<Rightarrow> string \<Rightarrow> byte list"
  pm_crypto :: crypto

record disk =
  dk_state :: file_system
  dk_receipt :: file_system
  dk_firmware :: file_system

record gateway =
  g_cfg :: config
  g_encoder :: encoder
  g_monitor :: monitor
  g_network :: network_identity
  g_generation :: string
  g_started :: int
  g_mac :: "byte list"
  g_replay :: replay_window
  g_receipt :: receipt
  g_receipt_epoch :: string
  g_receipt_blocked :: bool
  g_receipt_last :: int
  g_firmware :: receipt
  g_firmware_epoch :: string
  g_firmware_blocked :: bool
  g_firmware_last :: int
  g_persistent :: state
  g_reported_cfg :: string
  g_reported_fw :: string
  g_latest :: snapshot
  g_have_latest :: bool
  g_upstream_ok :: bool
  g_last_inform :: int
  g_next_discovery :: u32
  g_disk :: disk

text \<open>What one inform meets: the time, \<open>netconfig.ReadStatus\<close>, the HTTP client, failing calls.\<close>

record inform_env =
  ie_now :: int
  ie_status :: "status option"
  ie_client :: "string \<Rightarrow> byte list \<Rightarrow> http_answer"
  ie_fault :: "stage \<Rightarrow> bool"
  ie_written :: nat

datatype inform_error =
    NetworkNotCurrent | NoObservation | NotAvailable | PayloadRefused string | EpochInvalid string
  | EncodeFailed codec_error | ExchangeFailed exchange_error | DecodeFailed codec_error | NonceOmitted
  | ResponseReplayed | FirmwareRefused string | ReceiptRefused string | ResponseRefused string
  | ReceiptSettingRejected | FirmwareTargetRejected | TransitionRefused string | SaveFailed store_error

definition monitor_step :: "(monitor \<Rightarrow> monitor) \<Rightarrow> gateway \<Rightarrow> gateway" where
  "monitor_step f g = g\<lparr>g_monitor := f (g_monitor g)\<rparr>"

section \<open>Receipts\<close>

definition receipt_write_interval :: int where "receipt_write_interval = 30 * second"

definition receipts_eligible :: "gateway \<Rightarrow> state \<Rightarrow> mode \<Rightarrow> bool" where
  "receipts_eligible g s md \<longleftrightarrow>
     receipts_enabled (c_unifi (g_cfg g)) \<and> plain_http (ad_url (st_adoption s)) \<and> ad_adopted (st_adoption s) \<and>
     ad_gcm (st_adoption s) \<and> md = mode_gcm \<and> \<not> equal_fold (ad_key (st_adoption s)) default_key"

definition reset_receipt_context :: "primitives \<Rightarrow> state \<Rightarrow> gateway \<Rightarrow> gateway" where
  "reset_receipt_context pm s g =
     (let g1 = g\<lparr>g_receipt := empty_receipt, g_receipt_epoch := []\<rparr> in
      if \<not> receipts_enabled (c_unifi (g_cfg g)) then g1
      else let g2 = monitor_step (record_config_receipt ReceiptPending) g1;
               g3 = (if g_receipt_blocked g2 then monitor_step (record_config_receipt ReceiptStorageError) g2 else g2)
           in if receipts_eligible g3 s mode_gcm
              then g3\<lparr>g_receipt_epoch :=
                     (case receipt_epoch (pm_hmac pm) s (cu_model (c_unifi (g_cfg g))) of Some e \<Rightarrow> e | None \<Rightarrow> [])\<rparr>
              else g3)"

definition block_receipts :: "gateway \<Rightarrow> gateway" where
  "block_receipts g = monitor_step (record_config_receipt ReceiptStorageError) (g\<lparr>g_receipt_blocked := True\<rparr>)"

text \<open>The receipt file as \<open>LoadReceipt\<close> finds it in the state directory.\<close>

definition receipt_file_of :: "file_system \<Rightarrow> receipt_file" where
  "receipt_file_of fs =
     (case fs_target fs of None \<Rightarrow> NoReceipt | Some b \<Rightarrow> if fs_private fs then ReceiptBytes b else UnusableReceipt)"

definition initialize_receipt :: "primitives \<Rightarrow> gateway \<Rightarrow> gateway" where
  "initialize_receipt pm g0 =
     (let g = reset_receipt_context pm (g_persistent g0) g0 in
      if g_receipt_epoch g = [] \<or> cu_receipts (c_unifi (g_cfg g)) \<noteq> ''persistent'' then g
      else case load_receipt (receipt_file_of (dk_receipt (g_disk g))) of
        Inl ReceiptMissing \<Rightarrow> g
      | Inl ReceiptBad \<Rightarrow> block_receipts g
      | Inr r \<Rightarrow>
          if r_epoch r \<noteq> g_receipt_epoch g then g
          else monitor_step (record_config_receipt ReceiptStored)
                 (g\<lparr>g_receipt := r, g_reported_cfg := r_version r\<rparr>))"

definition receipt_done :: "gateway \<Rightarrow> receipt_status" where
  "receipt_done g = (if cu_receipts (c_unifi (g_cfg g)) = ''persistent'' then ReceiptStored else ReceiptReceived)"

definition store_receipt :: "receipt \<Rightarrow> gateway \<Rightarrow> gateway" where
  "store_receipt r g =
     monitor_step (record_config_receipt (receipt_done g)) (g\<lparr>g_receipt := r, g_reported_cfg := r_version r\<rparr>)"

definition accept_config_receipt :: "config_receipt \<Rightarrow> nonce \<Rightarrow> inform_env \<Rightarrow> gateway \<Rightarrow> (string, unit) result \<times> gateway" where
  "accept_config_receipt candidate nonce env g0 =
     (if g_receipt_blocked g0 \<or> g_receipt_epoch g0 = [] then
        (Inl ''configuration receipt storage unavailable'', monitor_step (record_config_receipt ReceiptStorageError) g0)
      else let g = monitor_step (set_ignored_settings (int (length (cr_unsupported candidate)))) g0 in
        if cr_version candidate = r_version (g_receipt g) then
          (Inr (), monitor_step (record_config_receipt (receipt_done g)) g)
        else let next1 = new_receipt (g_receipt_epoch g) (cr_version candidate) (g_receipt g) nonce in
          if cu_receipts (c_unifi (g_cfg g)) = ''persistent'' then
            (if g_receipt_last g \<noteq> 0 \<and> time_sub (ie_now env) (g_receipt_last g) < receipt_write_interval then
               (Inl ''configuration receipt write deferred by local rate limit'',
                monitor_step (record_config_receipt ReceiptRateLimited) g)
             else let (ok, fs) = save_receipt (receipt_file_of (dk_receipt (g_disk g))) (ie_fault env) (ie_written env) next1
                                   (dk_receipt (g_disk g));
                      g1 = g\<lparr>g_receipt_last := ie_now env, g_disk := (g_disk g)\<lparr>dk_receipt := fs\<rparr>\<rparr>
                  in if ok then (Inr (), store_receipt next1 g1)
                     else (Inl ''configuration receipt commit failed'', block_receipts g1))
          else (Inr (), store_receipt next1 g))"

section \<open>Reported firmware\<close>

definition reset_firmware_context :: "primitives \<Rightarrow> state \<Rightarrow> gateway \<Rightarrow> gateway" where
  "reset_firmware_context pm s g =
     (let g1 = g\<lparr>g_firmware := empty_receipt, g_firmware_epoch := []\<rparr> in
      if \<not> cu_firmware_sync (c_unifi (g_cfg g)) then g1
      else let g2 = monitor_step (record_firmware_receipt ReceiptPending) g1;
               g3 = (if g_firmware_blocked g2 \<or> g_receipt_blocked g2
                     then monitor_step (record_firmware_receipt ReceiptStorageError) g2 else g2)
           in if \<not> receipts_eligible g3 s mode_gcm then g3
              else case resolve_profile (profile_of (g_cfg g3)) of
                Inl e \<Rightarrow> g3
              | Inr p \<Rightarrow> g3\<lparr>g_firmware_epoch :=
                   (case firmware_epoch (pm_hmac pm) s (cu_model (c_unifi (g_cfg g))) (pm_full p) of Some e \<Rightarrow> e | None \<Rightarrow> [])\<rparr>)"

definition block_firmware_receipts :: "gateway \<Rightarrow> gateway" where
  "block_firmware_receipts g =
     monitor_step (record_firmware_receipt ReceiptStorageError) (g\<lparr>g_firmware_blocked := True\<rparr>)"

definition initialize_firmware_receipt :: "primitives \<Rightarrow> gateway \<Rightarrow> gateway" where
  "initialize_firmware_receipt pm g0 =
     (let g = reset_firmware_context pm (g_persistent g0) g0 in
      if g_firmware_epoch g = [] \<or> g_receipt_blocked g then g
      else case load_firmware_receipt (receipt_file_of (dk_firmware (g_disk g))) of
        Inl ReceiptMissing \<Rightarrow> g
      | Inl ReceiptBad \<Rightarrow> block_firmware_receipts g
      | Inr r \<Rightarrow>
          if r_epoch r \<noteq> g_firmware_epoch g then g
          else monitor_step (record_firmware_receipt ReceiptStored)
                 (g\<lparr>g_firmware := r, g_reported_fw := r_version r\<rparr>))"

definition accept_firmware_target :: "string \<Rightarrow> nonce \<Rightarrow> inform_env \<Rightarrow> gateway \<Rightarrow> (string, unit) result \<times> gateway" where
  "accept_firmware_target version nonce env g =
     (if g_firmware_blocked g \<or> g_receipt_blocked g \<or> g_firmware_epoch g = [] then
        (Inl ''reported firmware storage unavailable'', monitor_step (record_firmware_receipt ReceiptStorageError) g)
      else if version = r_version (g_firmware g) then
        (Inr (), monitor_step (record_firmware_receipt ReceiptStored) g)
      else if g_firmware_last g \<noteq> 0 \<and> time_sub (ie_now env) (g_firmware_last g) < receipt_write_interval then
        (Inl ''reported firmware write deferred by local rate limit'',
         monitor_step (record_firmware_receipt ReceiptRateLimited) g)
      else let next1 = new_receipt (g_firmware_epoch g) version (g_firmware g) nonce;
               (ok, fs) = save_firmware_receipt (receipt_file_of (dk_firmware (g_disk g))) (ie_fault env) (ie_written env) next1
                            (dk_firmware (g_disk g));
               g1 = g\<lparr>g_firmware_last := ie_now env, g_disk := (g_disk g)\<lparr>dk_firmware := fs\<rparr>\<rparr>
           in if ok then (Inr (), monitor_step (record_firmware_receipt ReceiptStored)
                                    (g1\<lparr>g_firmware := next1, g_reported_fw := r_version next1\<rparr>))
              else (Inl ''reported firmware receipt commit failed'', block_firmware_receipts g1))"

section \<open>Polling\<close>

definition map_observation :: "gateway \<Rightarrow> snapshot \<Rightarrow> int \<Rightarrow> ups_state" where
  "map_observation g snap now = from_snapshot now snap \<lparr>Now = now, StaleAfter = ct_stale (c_runtime (g_cfg g))\<rparr>"

text \<open>The poller's answer at time \<open>now\<close>; the error is passed on, or is that of the telemetry.\<close>

definition poll_once :: "int \<Rightarrow> ('e, snapshot) result \<Rightarrow> gateway \<Rightarrow> ('e option, unit) result \<times> gateway" where
  "poll_once now polled g =
     (case polled of
        Inl e \<Rightarrow> (Inl (Some e), monitor_step (mark_poll now False) (g\<lparr>g_upstream_ok := False\<rparr>))
      | Inr snap \<Rightarrow>
          if s_availability (map_observation g snap now) \<noteq> Available then
            (Inl None, monitor_step (mark_poll now False) (g\<lparr>g_upstream_ok := False\<rparr>))
          else (Inr (), monitor_step (mark_poll now True)
                          (g\<lparr>g_latest := snap, g_have_latest := True, g_upstream_ok := True\<rparr>)))"

section \<open>Informing\<close>

definition managed_network_current :: "status option \<Rightarrow> gateway \<Rightarrow> bool" where
  "managed_network_current st g \<longleftrightarrow>
     ct_status_file (c_runtime (g_cfg g)) = [] \<or>
     (case st of None \<Rightarrow> False
      | Some s \<Rightarrow> ls_address s = nw_device_ip (g_network g) \<and> ls_generation s = g_generation g)"

definition adoption_to_state :: "adoption_state \<Rightarrow> adoption" where
  "adoption_to_state a =
     \<lparr>ad_key = AuthKey a, ad_url = InformURL a, ad_cfg = CfgVersion a, ad_adopted = Adopted a, ad_gcm = UseAESGCM a,
      ad_nonces = []\<rparr>"

definition inform_mode :: "gateway \<Rightarrow> mode" where
  "inform_mode g = (if ad_gcm (st_adoption (g_persistent g)) then mode_gcm else mode_cbc)"

text \<open>A response that was acknowledged without effect on the adoption.\<close>

definition note_accepted :: "nonce \<Rightarrow> int \<Rightarrow> gateway \<Rightarrow> gateway" where
  "note_accepted nonce now g = g\<lparr>g_replay := with_accepted nonce False (g_replay g), g_last_inform := now\<rparr>"

text \<open>The persistent state that follows, and the replay window, before anything is stored.\<close>

definition next_state :: "primitives \<Rightarrow> mode \<Rightarrow> nonce option \<Rightarrow> adoption_state \<Rightarrow> gateway \<Rightarrow>
    (inform_error, state \<times> replay_window) result" where
  "next_state pm md nonce next1 g =
     (let p = g_persistent g; a = st_adoption p; a0 = adoption_to_state next1;
          changed = (next1 \<noteq> adoption_from_state p) in
      case (replay_epoch_for (pm_sha pm) a, replay_epoch_for (pm_sha pm) a0) of
        (Inl e, _) \<Rightarrow> Inl (EpochInvalid e)
      | (_, Inl e) \<Rightarrow> Inl (EpochInvalid e)
      | (Inr current, Inr epoch) \<Rightarrow>
          (let same = (epoch = current);
               a1 = (if same then a0\<lparr>ad_nonces := ad_nonces a\<rparr> else a0);
               w1 = (case nonce of None \<Rightarrow> g_replay g | Some n \<Rightarrow> with_accepted n (changed \<and> same) (g_replay g));
               a2 = (if changed \<and> md = mode_gcm \<and> same then a1\<lparr>ad_nonces := encoded_protected w1\<rparr> else a1)
           in case rebased (pm_sha pm) a2 w1 of
                Inl e \<Rightarrow> Inl (EpochInvalid e)
              | Inr w2 \<Rightarrow> Inr (p\<lparr>st_adoption := a2\<rparr>, w2)))"

text \<open>The commit: the state file first, then the process.\<close>

definition commit :: "primitives \<Rightarrow> inform_env \<Rightarrow> mode \<Rightarrow> nonce option \<Rightarrow> string option \<Rightarrow> adoption_state \<Rightarrow> outcome \<Rightarrow>
    gateway \<Rightarrow> (inform_error, outcome) result \<times> gateway" where
  "commit pm env md nonce volatile next1 out g =
     (case next_state pm md nonce next1 g of
        Inl e \<Rightarrow> (Inl e, g)
      | Inr (p', w') \<Rightarrow>
          (let changed = (next1 \<noteq> adoption_from_state (g_persistent g));
               (failed, fs) = (if changed then save (ie_fault env) (ie_written env) p' (dk_state (g_disk g))
                               else (None, dk_state (g_disk g)));
               g1 = g\<lparr>g_disk := (g_disk g)\<lparr>dk_state := fs\<rparr>\<rparr>
           in case failed of
                Some e \<Rightarrow> (Inl (SaveFailed (the (wrap StateWrite (Some e)))), g1)
              | None \<Rightarrow>
                  (let g2 = g1\<lparr>g_persistent := p',
                               g_reported_cfg := (if changed then ad_cfg (st_adoption p')
                                                  else case volatile of Some v \<Rightarrow> v | None \<Rightarrow> g_reported_cfg g),
                               g_reported_fw := (if changed then [] else g_reported_fw g),
                               g_last_inform := ie_now env, g_replay := w'\<rparr>;
                       g3 = (if changed then reset_firmware_context pm p' (reset_receipt_context pm p' g2) else g2)
                   in (Inr out, monitor_step (set_adopted (ad_adopted (st_adoption p'))) g3))))"

text \<open>A response that is not a receipt: apply it, confine it, authorize the endpoint, commit.\<close>

definition apply_and_commit :: "primitives \<Rightarrow> inform_env \<Rightarrow> mode \<Rightarrow> nonce option \<Rightarrow> string \<Rightarrow> gateway \<Rightarrow>
    (inform_error, outcome) result \<times> gateway" where
  "apply_and_commit pm env md nonce body g =
     (let current = adoption_from_state (g_persistent g);
          receipt_eligible = receipts_eligible g (g_persistent g) md;
          firmware_eligible = (receipt_eligible \<and> cu_firmware_sync (c_unifi (g_cfg g)))
      in case apply_controller_response body current of
           (Inl e, _) \<Rightarrow> (Inl (ResponseRefused e), g)
         | (Inr out, next0) \<Rightarrow>
             if receipt_eligible \<and> Kind out = ResponseSetParam then
               (Inl ReceiptSettingRejected, monitor_step (record_config_receipt ReceiptRejected) g)
             else if firmware_eligible \<and> Kind out = ResponseUpgrade then
               (Inl FirmwareTargetRejected, monitor_step (record_firmware_receipt ReceiptRejected) g)
             else let (next1, out1, volatile) =
                        confine_adopted_plain_http current next0 out md (cu_volatile (c_unifi (g_cfg g)))
                          (set_param_has_only_cfgversion body)
                  in case (if InformURL next1 \<noteq> InformURL current
                           then authorize_transition (InformURL current) (InformURL next1) else Inr ()) of
                       Inl e \<Rightarrow> (Inl (TransitionRefused e), g)
                     | Inr () \<Rightarrow> commit pm env md nonce volatile next1 (out1\<lparr>Interval := 0\<rparr>) g)"

text \<open>An authenticated response that is not a replay.\<close>

definition accept_response :: "primitives \<Rightarrow> inform_env \<Rightarrow> mode \<Rightarrow> nonce option \<Rightarrow> string \<Rightarrow> gateway \<Rightarrow>
    (inform_error, outcome) result \<times> gateway" where
  "accept_response pm env md nonce body g =
     (let receipt_eligible = receipts_eligible g (g_persistent g) md;
          firmware_eligible = (receipt_eligible \<and> cu_firmware_sync (c_unifi (g_cfg g)));
          n = (case nonce of Some n \<Rightarrow> n | None \<Rightarrow> replicate 16 0) in
      case (if firmware_eligible then classify_firmware_target body else None) of
        Some target \<Rightarrow>
          (case accept_firmware_target target n env g of
             (Inl e, g') \<Rightarrow> (Inl (FirmwareRefused e), g')
           | (Inr (), g') \<Rightarrow> (Inr (outcome_of ResponseReportedFirmware), note_accepted n (ie_now env) g'))
      | None \<Rightarrow>
          (case (if receipt_eligible then classify_config_receipt body else None) of
             Some candidate \<Rightarrow>
               (case accept_config_receipt candidate n env g of
                  (Inl e, g') \<Rightarrow> (Inl (ReceiptRefused e), g')
                | (Inr (), g') \<Rightarrow>
                    (Inr ((outcome_of ResponseSetParam)\<lparr>UnsupportedSettings := cr_unsupported candidate\<rparr>),
                     note_accepted n (ie_now env) g'))
           | None \<Rightarrow> apply_and_commit pm env md nonce body g))"

definition handle_response :: "primitives \<Rightarrow> inform_env \<Rightarrow> mode \<Rightarrow> packet \<Rightarrow> gateway \<Rightarrow>
    (inform_error, outcome) result \<times> gateway" where
  "handle_response pm env md p g =
     (if md = mode_gcm then
        (case p_nonce p of
           None \<Rightarrow> (Inl NonceOmitted, g)
         | Some n \<Rightarrow>
             if window_contains (g_replay g) n \<or> receipt_contains (g_receipt g) n \<or> receipt_contains (g_firmware g) n
             then (Inl ResponseReplayed, g)
             else accept_response pm env md (Some n) (text_of (p_payload p)) g)
      else accept_response pm env md None (text_of (p_payload p)) g)"

text \<open>The exchange: the result, whether a controller was reached, and the state.\<close>

definition exchange_once :: "primitives \<Rightarrow> inform_env \<Rightarrow> mode \<Rightarrow> byte list \<Rightarrow> gateway \<Rightarrow>
    (inform_error, outcome) result \<times> bool \<times> inform_result \<times> gateway" where
  "exchange_once pm env md wire g =
     (case exchange (ie_client env) (ad_url (st_adoption (g_persistent g))) wire of
        Inl e \<Rightarrow> (Inl (ExchangeFailed e), controller_response_received e,
                 if is_pending (exchange_cause e) then InformPending else InformFailure, g)
      | Inr response \<Rightarrow>
          (case decode (pm_crypto pm) \<lparr>d_limits = \<lparr>MaxWireBody = 0, MaxPlaintext = 0\<rparr>, d_mac = Some (g_mac g), d_mode = Some md\<rparr>
                  response (ad_key (st_adoption (g_persistent g))) of
             Inl e \<Rightarrow> (Inl (DecodeFailed e), True, InformFailure, g)
           | Inr p \<Rightarrow>
               (case handle_response pm env md p g of
                  (r, g') \<Rightarrow> (r, True, if isOk r then InformSuccess else InformFailure, g'))))"

text \<open>The report of the current observation, with the versions that are only reported.\<close>

definition inform_report :: "primitives \<Rightarrow> int \<Rightarrow> ups_state \<Rightarrow> gateway \<Rightarrow> power_report" where
  "inform_report pm now observation g =
     (let p = g_persistent g; shown = p\<lparr>st_adoption := (st_adoption p)\<lparr>ad_cfg := g_reported_cfg g\<rparr>\<rparr>
      in project_device (pm_sha pm) (g_cfg g) shown (g_network g) (g_mac g) observation now (g_started g)
           (g_last_inform g) (g_reported_fw g))"

definition inform_once :: "primitives \<Rightarrow> inform_env \<Rightarrow> gateway \<Rightarrow> (inform_error, outcome) result \<times> gateway" where
  "inform_once pm env g =
     (if \<not> managed_network_current (ie_status env) g then (Inl NetworkNotCurrent, g)
      else if \<not> g_have_latest g \<or> \<not> g_upstream_ok g then (Inl NoObservation, g)
      else let observation = map_observation g (g_latest g) (ie_now env) in
        if s_availability observation \<noteq> Available then (Inl NotAvailable, g)
        else case build_payload (inform_report pm (ie_now env) observation g) of
          Inl e \<Rightarrow> (Inl (PayloadRefused e), g)
        | Inr payload \<Rightarrow>
            (let md = inform_mode g; a = st_adoption (g_persistent g) in
             case sync_window (pm_sha pm) a (g_replay g) of
               (Inl e, _) \<Rightarrow> (Inl (EpochInvalid e), g)
             | (Inr (), w) \<Rightarrow>
                 (case encode (pm_crypto pm)
                         \<lparr>p_mac = g_mac g, p_version = 0, p_payload = string_bytes payload, p_nonce = None\<rparr>
                         (ad_key a) md (g_encoder g) of
                    (Inl e, enc) \<Rightarrow> (Inl (EncodeFailed e), g\<lparr>g_replay := w, g_encoder := enc\<rparr>)
                  | (Inr wire, enc) \<Rightarrow>
                      (case exchange_once pm env md wire (g\<lparr>g_replay := w, g_encoder := enc\<rparr>) of
                         (r, reached, res, g') \<Rightarrow> (r, monitor_step (mark_inform (ie_now env) reached res) g')))))"

definition cycle :: "primitives \<Rightarrow> inform_env \<Rightarrow> int \<Rightarrow> ('e, snapshot) result \<Rightarrow> gateway \<Rightarrow>
    ('e option + inform_error, outcome) result \<times> gateway" where
  "cycle pm env now polled g =
     (case poll_once now polled g of
        (Inl e, g') \<Rightarrow> (Inl (Inl e), g')
      | (Inr (), g') \<Rightarrow> (case inform_once pm env g' of (Inl e, g2) \<Rightarrow> (Inl (Inr e), g2) | (Inr out, g2) \<Rightarrow> (Inr out, g2)))"

section \<open>Construction\<close>

text \<open>What the construction meets: the clock, the network, the state file and random bytes.\<close>

record start_env =
  se_now :: int
  se_status :: "status option"
  se_interfaces :: "interface_observation list option"
  se_resolver :: "string \<Rightarrow> byte list list option"
  se_probe :: probe
  se_fault :: "stage \<Rightarrow> bool"
  se_written :: nat
  se_rand_mac :: "byte list"
  se_rand_uuid :: "byte list"
  se_random :: "byte list option"

definition network_invalid :: "string \<Rightarrow> string go_error" where
  "network_invalid t = Failure NetworkIdentityInvalid (Leaf t)"

definition lift_error :: "(string, 'a) result \<Rightarrow> (string go_error, 'a) result" where
  "lift_error r = (case r of Inl t \<Rightarrow> Inl (Leaf t) | Inr a \<Rightarrow> Inr a)"

text \<open>The managed status: the generation it starts with, empty without a status file.\<close>

definition start_generation :: "config \<Rightarrow> start_env \<Rightarrow> (string go_error, string) result" where
  "start_generation cfg env =
     (if ct_status_file (c_runtime cfg) = [] then Inr []
      else case se_status env of
        None \<Rightarrow> Inl (network_invalid ''managed address is not current'')
      | Some s \<Rightarrow> guard (ls_address s \<noteq> cd_ip (c_device cfg)) (network_invalid ''managed address is not current'')
                   (Inr (ls_generation s)))"

text \<open>The interface that owns the address, with its MAC in canonical form.\<close>

definition start_network :: "config \<Rightarrow> start_env \<Rightarrow> (string go_error, network_identity) result" where
  "start_network cfg env =
     guard (cd_mode (c_device cfg) \<noteq> ''shared'' \<and> cd_mac (c_device cfg) = [])
       (network_invalid ''separate mode requires an explicit stable interface MAC'') (
     case se_interfaces env of
       None \<Rightarrow> Inl (network_invalid ''read network interfaces'')
     | Some fs \<Rightarrow>
         (case select_local_network_identity (cd_ip (c_device cfg)) fs of
            None \<Rightarrow> Inl (network_invalid ''device IP requires one active Ethernet interface'')
          | Some nw \<Rightarrow>
              (case device_mac (nw_mac nw) of
                 None \<Rightarrow> Inl (network_invalid ''network interface has no usable Ethernet MAC'')
               | Some hw \<Rightarrow>
                   guard (mac_text hw = ''00:00:00:00:00:00'')
                     (network_invalid ''network interface has no usable Ethernet MAC'') (
                   guard (cd_mac (c_device cfg) \<noteq> [] \<and>
                          (case parse_mac (cd_mac (c_device cfg)) of None \<Rightarrow> True | Some own \<Rightarrow> mac_text own \<noteq> mac_text hw))
                     (Failure IdentityMismatch (Leaf ''configured device MAC does not match its network interface''))
                     (Inr (nw\<lparr>nw_mac := mac_text hw\<rparr>))))))"

definition start_client :: "config \<Rightarrow> nut_config" where
  "start_client cfg =
     \<lparr>Address = cn_address (c_nut cfg), UPSName = cn_ups (c_nut cfg), Username = cn_username (c_nut cfg),
      Password = cn_password (c_nut cfg), Timeout = cn_timeout (c_nut cfg), MaxLineBytes = 0, MaxListItems = 0, MaxTotalBytes = 0\<rparr>"

text \<open>What follows the load of the state: the controller's address, the encoder, the window.\<close>

definition start_inform_ip :: "start_env \<Rightarrow> state \<Rightarrow> network_identity \<Rightarrow> (string go_error, network_identity) result" where
  "start_inform_ip env p nw =
     bind (if nw_inform_ip nw = [] then
             (case controller_ipv4 (se_resolver env) (ad_url (st_adoption p)) of
                Inl e \<Rightarrow> Inl e | Inr q \<Rightarrow> Inr (nw\<lparr>nw_inform_ip := ip4_text q\<rparr>))
           else Inr nw)
       (\<lambda>nw. guard (parse_ip_to4 (nw_device_ip nw) = None \<or> parse_ip_to4 (nw_inform_ip nw) = None \<or>
                    parse_ip_to4 (nw_netmask nw) = None)
               (Leaf ''gateway network identity requires IPv4 values'') (Inr nw))"

definition build_gateway :: "primitives \<Rightarrow> config \<Rightarrow> start_env \<Rightarrow> string \<Rightarrow> network_identity \<Rightarrow> state \<Rightarrow> disk \<Rightarrow>
    (string go_error, gateway) result" where
  "build_gateway pm cfg env generation nw0 p dk =
     guard (\<not> adoption_valid (adoption_from_state p)) (Leaf ''inform: invalid adoption state'') (
     bind (start_inform_ip env p nw0) (\<lambda>nw.
     bind (lift_error (new_bound_controller (cu_timeout (c_unifi cfg)) (nw_device_ip nw) (nw_inform_ip nw))) (\<lambda>_.
     case parse_mac (i_mac (st_identity p)) of
       None \<Rightarrow> Inl (Leaf ''gateway persistent MAC is invalid'')
     | Some hw \<Rightarrow>
         guard (length hw \<noteq> 6) (Leaf ''gateway persistent MAC is invalid'') (
         case new_encoder (se_random env) default_codec_limits packet_version of
           Inl e \<Rightarrow> Inl (Leaf ''inform: encoder'')
         | Inr enc \<Rightarrow>
             bind (lift_error (new_replay_window (pm_sha pm) (st_adoption p))) (\<lambda>w.
             Inr (initialize_firmware_receipt pm (initialize_receipt pm
               \<lparr>g_cfg = cfg, g_encoder = enc,
                g_monitor = set_adopted (ad_adopted (st_adoption p)) (new_monitor (se_now env) (ct_stale (c_runtime cfg))),
                g_network = nw, g_generation = generation, g_started = se_now env, g_mac = hw, g_replay = w,
                g_receipt = empty_receipt, g_receipt_epoch = [], g_receipt_blocked = False, g_receipt_last = 0,
                g_firmware = empty_receipt, g_firmware_epoch = [], g_firmware_blocked = False, g_firmware_last = 0,
                g_persistent = p, g_reported_cfg = ad_cfg (st_adoption p), g_reported_fw = [],
                g_latest = \<lparr>SnapUPSName = [], Variables = None, CollectedAt = 0\<rparr>, g_have_latest = False, g_upstream_ok = False,
                g_last_inform = 0, g_next_discovery = 1, g_disk = dk\<rparr>)))))))"

definition new_gateway :: "primitives \<Rightarrow> config \<Rightarrow> start_env \<Rightarrow> disk \<Rightarrow> (string go_error, gateway) result \<times> disk" where
  "new_gateway pm cfg env dk =
     (case bind (lift_error (validate_config cfg)) (\<lambda>_.
           bind (start_generation cfg env) (\<lambda>generation.
           bind (lift_error (resolve_profile (profile_of cfg))) (\<lambda>_.
           bind (start_network cfg env) (\<lambda>nw.
           bind (lift_error (new_client (start_client cfg))) (\<lambda>_. Inr (generation, nw)))))) of
        Inl e \<Rightarrow> (Inl e, dk)
      | Inr (generation, nw) \<Rightarrow>
          (case load_or_create (se_fault env) (se_written env) (se_probe env) (nw_mac nw) (cd_serial (c_device cfg))
                  (cu_inform_url (c_unifi cfg)) default_key (se_rand_mac env) (se_rand_uuid env) (dk_state dk) of
             (Inl e, fs) \<Rightarrow> (Inl e, dk\<lparr>dk_state := fs\<rparr>)
           | (Inr p, fs) \<Rightarrow>
               (build_gateway pm cfg env generation nw p (dk\<lparr>dk_state := fs\<rparr>), dk\<lparr>dk_state := fs\<rparr>)))"

end
