(* ===== verification/GatewayFacts.thy ===== *)
theory GatewayFacts
  imports Gateway
begin

text \<open>
  What the runtime keeps: the invariant of the gateway and its private state file over any
  interleaving of polls and informs, that a response is never accepted twice while the replay
  window covers it, and that nothing sent over plain HTTP can move an adopted GCM device.
\<close>

section \<open>The invariant\<close>

definition gateway_ok :: "gateway \<Rightarrow> bool" where
  "gateway_ok g \<longleftrightarrow>
     state_valid (g_persistent g) \<and> adoption_valid (adoption_from_state (g_persistent g)) \<and>
     window_ok (g_replay g) \<and> encoder_ok (g_encoder g)"

lemma adoption_from_state_fields [simp]:
  "AuthKey (adoption_from_state p) = ad_key (st_adoption p)" "InformURL (adoption_from_state p) = ad_url (st_adoption p)"
  "CfgVersion (adoption_from_state p) = ad_cfg (st_adoption p)" "Adopted (adoption_from_state p) = ad_adopted (st_adoption p)"
  "UseAESGCM (adoption_from_state p) = ad_gcm (st_adoption p)"
  by (simp_all add: adoption_from_state_def Let_def)

lemma adoption_to_state_fields [simp]:
  "ad_key (adoption_to_state a) = AuthKey a" "ad_url (adoption_to_state a) = InformURL a"
  "ad_cfg (adoption_to_state a) = CfgVersion a" "ad_adopted (adoption_to_state a) = Adopted a"
  "ad_gcm (adoption_to_state a) = UseAESGCM a" "ad_nonces (adoption_to_state a) = []"
  by (simp_all add: adoption_to_state_def)

lemma adoption_round_trip [simp]:
  "adoption_from_state (p\<lparr>st_adoption := (adoption_to_state a)\<lparr>ad_nonces := ns\<rparr>\<rparr>) = a"
  "adoption_from_state (p\<lparr>st_adoption := adoption_to_state a\<rparr>) = a"
  by (simp_all add: adoption_from_state_def Let_def)

lemma adoption_to_from: "(adoption_to_state (adoption_from_state p))\<lparr>ad_nonces := ad_nonces (st_adoption p)\<rparr> = st_adoption p"
  by (simp add: adoption_to_state_def)

lemma valid_key_decodes: "valid_key k \<Longrightarrow> \<exists>key. hex_decode k = Some key \<and> length key = 16"
  by (auto simp: valid_key_def split: option.splits)

lemma config_value_safe: "valid_config_value v n \<Longrightarrow> safe_text v n"
  by (auto simp: valid_config_value_def safe_text_def no_control_bytes)

text \<open>A valid adoption with a valid replay list makes a valid state of the same identity.\<close>

lemma state_valid_next:
  assumes "state_valid p" "adoption_valid a" "length ns \<le> max_gcm_replay_nonces" "nonces_valid [] ns"
    and "UseAESGCM a \<or> ns = []"
  shows "state_valid (p\<lparr>st_adoption := (adoption_to_state a)\<lparr>ad_nonces := ns\<rparr>\<rparr>)"
  using assms valid_key_decodes [of "AuthKey a"] config_value_safe [of "CfgVersion a" 128]
  by (auto simp: state_valid_def adoption_valid_def validate_inform_url_def Let_def)

lemma nonces_valid_encoded:
  "\<forall>n \<in> set ns. length n = 16 \<Longrightarrow> distinct ns \<Longrightarrow> set seen \<inter> set ns = {} \<Longrightarrow> nonces_valid seen (map hex_encode ns)"
  by (induction ns arbitrary: seen) (auto simp: valid_nonce_entry_def)

lemma encoded_protected_valid:
  "window_ok w \<Longrightarrow> length (encoded_protected w) \<le> max_gcm_replay_nonces \<and> nonces_valid [] (encoded_protected w)"
  using nonces_valid_encoded [of "ring_order (rw_protected w)" "[]"]
  by (auto simp: window_ok_def encoded_protected_def ring_ok_def)

section \<open>The next state\<close>

lemma new_window_ok: "state_valid p \<Longrightarrow> \<exists>w. new_replay_window sha (st_adoption p) = Inr w \<and> window_ok w"
  using new_replay_window_ok [of "st_adoption p" _ sha]
  by (fastforce simp: state_valid_def Let_def split: option.splits)

lemma rebased_ok: "state_valid p \<Longrightarrow> window_ok w \<Longrightarrow> rebased sha (st_adoption p) w = Inr w' \<Longrightarrow> window_ok w'"
  using rebased_cases [of sha "st_adoption p" w w'] new_window_ok [of p sha] by auto

lemma sync_window_ok: "state_valid p \<Longrightarrow> window_ok w \<Longrightarrow> sync_window sha (st_adoption p) w = (r, w') \<Longrightarrow> window_ok w'"
  using rebased_ok [of p w sha] by (auto simp: sync_window_rebased split: sum.splits)

lemma epoch_gcm: "replay_epoch_for sha a = Inr e \<Longrightarrow> ep_gcm e = ad_gcm a"
  by (auto simp: replay_epoch_for_def split: option.splits)

text \<open>What the next state is, in terms of whether key and mode stay the same.\<close>

lemma next_state_Inr:
  assumes "next_state pm md nonce a g = Inr (p', w')"
  obtains current epoch w1 ns where
    "replay_epoch_for (pm_sha pm) (st_adoption (g_persistent g)) = Inr current"
    "replay_epoch_for (pm_sha pm) (adoption_to_state a) = Inr epoch"
    "w1 = (case nonce of None \<Rightarrow> g_replay g
           | Some n \<Rightarrow> with_accepted n (a \<noteq> adoption_from_state (g_persistent g) \<and> epoch = current) (g_replay g))"
    "ns = (if a \<noteq> adoption_from_state (g_persistent g) \<and> md = mode_gcm \<and> epoch = current then encoded_protected w1
           else if epoch = current then ad_nonces (st_adoption (g_persistent g)) else [])"
    "p' = (g_persistent g)\<lparr>st_adoption := (adoption_to_state a)\<lparr>ad_nonces := ns\<rparr>\<rparr>"
    "rebased (pm_sha pm) (st_adoption p') w1 = Inr w'"
  using assms that unfolding next_state_def Let_def
  by (fastforce split: sum.splits if_splits simp: adoption_to_state_def)

section \<open>What the parts of an inform leave alone\<close>

text \<open>Identity, configuration and network of the running gateway.\<close>

definition same_setup :: "gateway \<Rightarrow> gateway \<Rightarrow> bool" where
  "same_setup g g' \<longleftrightarrow>
     g_cfg g' = g_cfg g \<and> g_network g' = g_network g \<and> g_generation g' = g_generation g \<and>
     g_started g' = g_started g \<and> g_mac g' = g_mac g \<and>
     st_identity (g_persistent g') = st_identity (g_persistent g)"

text \<open>The receipt handlers touch the receipts, the reported versions and the monitor.\<close>

definition same_core :: "gateway \<Rightarrow> gateway \<Rightarrow> bool" where
  "same_core g g' \<longleftrightarrow>
     same_setup g g' \<and> g_persistent g' = g_persistent g \<and> g_replay g' = g_replay g \<and> g_encoder g' = g_encoder g \<and>
     dk_state (g_disk g') = dk_state (g_disk g) \<and> g_latest g' = g_latest g \<and> g_have_latest g' = g_have_latest g \<and>
     g_upstream_ok g' = g_upstream_ok g \<and> g_last_inform g' = g_last_inform g"

lemma same_setup_refl [simp]: "same_setup g g"
  by (simp add: same_setup_def)

lemma same_setup_trans: "same_setup g h \<Longrightarrow> same_setup h k \<Longrightarrow> same_setup g k"
  by (simp add: same_setup_def)

lemma same_core_refl [simp]: "same_core g g"
  by (simp add: same_core_def)

lemma same_core_trans: "same_core g h \<Longrightarrow> same_core h k \<Longrightarrow> same_core g k"
  by (auto simp: same_core_def same_setup_def)

lemma monitor_step_core [simp]: "same_core g (monitor_step f g)"
  by (simp add: same_core_def same_setup_def monitor_step_def)

lemma accept_config_core: "accept_config_receipt c n env g = (r, g') \<Longrightarrow> same_core g g'"
  unfolding accept_config_receipt_def Let_def
  by (auto simp: same_core_def same_setup_def monitor_step_def store_receipt_def block_receipts_def
      split: if_splits prod.splits)

lemma accept_firmware_core: "accept_firmware_target v n env g = (r, g') \<Longrightarrow> same_core g g'"
  unfolding accept_firmware_target_def Let_def
  by (auto simp: same_core_def same_setup_def monitor_step_def block_firmware_receipts_def
      split: if_splits prod.splits)

lemma reset_receipt_core: "same_core g (reset_receipt_context pm s g)"
  by (simp add: reset_receipt_context_def same_core_def same_setup_def monitor_step_def Let_def)

lemma reset_firmware_core: "same_core g (reset_firmware_context pm s g)"
  by (simp add: reset_firmware_context_def same_core_def same_setup_def monitor_step_def Let_def split: sum.split)

section \<open>The commit\<close>

text \<open>What a step does to the persistent state and its file.\<close>

definition stored :: "(inform_error, 'a) result \<Rightarrow> gateway \<Rightarrow> gateway \<Rightarrow> bool" where
  "stored r g g' \<longleftrightarrow>
     (let fs = dk_state (g_disk g); fs' = dk_state (g_disk g') in
      case r of
        Inr a \<Rightarrow> g_persistent g' = g_persistent g \<and> fs' = fs \<or> fs_target fs' = Some (state_text (g_persistent g'))
      | Inl e \<Rightarrow> g_persistent g' = g_persistent g \<and>
          (fs' = fs \<or> (\<exists>s. state_valid s \<and> st_identity s = st_identity (g_persistent g) \<and> (\<exists>se. e = SaveFailed se) \<and>
             fs_target fs' \<in> {fs_target fs, Some (state_text s)})))"

lemma save_target:
  "save fault n s fs = (r, fs') \<Longrightarrow> r \<noteq> None \<Longrightarrow> fs_target fs' \<in> {fs_target fs, Some (state_text s)}"
  using run_stages_target [of fault n "state_text s" fs False]
  by (auto simp: save_def save_private_bytes_def wrap_def split: if_splits prod.splits bool.splits)

lemma epoch_cong:
  "ad_key a = ad_key b \<Longrightarrow> ad_gcm a = ad_gcm b \<Longrightarrow> replay_epoch_for sha a = replay_epoch_for sha b"
  by (cases "hex_decode (ad_key b)") (simp_all add: replay_epoch_for_def)

lemma next_state_unchanged:
  assumes "next_state pm md nonce (adoption_from_state (g_persistent g)) g = Inr (p', w')"
  shows "p' = g_persistent g \<and>
    w' = (case nonce of None \<Rightarrow> g_replay g | Some n \<Rightarrow> with_accepted n False (g_replay g)) \<or>
    p' = g_persistent g \<and> new_replay_window (pm_sha pm) (st_adoption p') = Inr w'"
proof -
  have e: "replay_epoch_for sha (adoption_to_state (adoption_from_state p)) = replay_epoch_for sha (st_adoption p)" for sha p
    by (rule epoch_cong) simp_all
  show ?thesis
    using assms
    by (elim next_state_Inr) (auto simp: e adoption_to_from dest: rebased_cases split: option.splits)
qed

lemma next_state_ok:
  assumes "gateway_ok g" "adoption_valid a" "md = inform_mode g" "\<And>n. nonce = Some n \<Longrightarrow> length n = 16"
    and "next_state pm md nonce a g = Inr (p', w')"
  shows "state_valid p' \<and> adoption_from_state p' = a \<and> window_ok w' \<and> st_identity p' = st_identity (g_persistent g)"
  using assms(5)
proof (cases rule: next_state_Inr)
  case (1 current epoch w1 ns)
  let ?p = "g_persistent g"
  have p: "state_valid ?p" "window_ok (g_replay g)" using assms(1) by (simp_all add: gateway_ok_def)
  have w1: "window_ok w1" using 1(3) p(2) assms(4) with_accepted_ok by (auto split: option.splits)
  have same: "UseAESGCM a = ad_gcm (st_adoption ?p)" if "epoch = current"
    using that epoch_gcm [OF 1(1)] epoch_gcm [OF 1(2)] by simp
  have old: "length (ad_nonces (st_adoption ?p)) \<le> max_gcm_replay_nonces" "nonces_valid [] (ad_nonces (st_adoption ?p))"
      "ad_gcm (st_adoption ?p) \<or> ad_nonces (st_adoption ?p) = []"
    using p(1) by (auto simp: state_valid_def Let_def)
  have gcm: "ad_gcm (st_adoption ?p)" if "md = mode_gcm"
    using that assms(3) by (auto simp: inform_mode_def mode_cbc_def mode_gcm_def split: if_splits)
  have "length ns \<le> max_gcm_replay_nonces \<and> nonces_valid [] ns \<and> (UseAESGCM a \<or> ns = [])"
    unfolding 1(4) using encoded_protected_valid [OF w1] same old gcm by simp
  then have v: "state_valid p'" unfolding 1(5) using state_valid_next [OF p(1) assms(2)] by blast
  show ?thesis using v rebased_ok [OF v w1 1(6)] by (simp add: 1(5))
qed

lemma commit_cases:
  assumes "commit pm env md nonce v a out g = (r, g')"
  obtains (invalid) e where "r = Inl e" "g' = g"
  | (failed) p' w' se fs where "next_state pm md nonce a g = Inr (p', w')" "a \<noteq> adoption_from_state (g_persistent g)"
      "save (ie_fault env) (ie_written env) p' (dk_state (g_disk g)) = (Some se, fs)"
      "r = Inl (SaveFailed (the (wrap StateWrite (Some se))))" "g' = g\<lparr>g_disk := (g_disk g)\<lparr>dk_state := fs\<rparr>\<rparr>"
  | (committed) p' w' g2 where "next_state pm md nonce a g = Inr (p', w')" "r = Inr out" "same_core g2 g'"
      "g_persistent g2 = p'" "g_replay g2 = w'" "g_encoder g2 = g_encoder g"
      "g_cfg g2 = g_cfg g" "g_network g2 = g_network g" "g_generation g2 = g_generation g" "g_started g2 = g_started g"
      "g_mac g2 = g_mac g" "g_last_inform g2 = ie_now env" "g_latest g2 = g_latest g" "g_have_latest g2 = g_have_latest g"
      "g_upstream_ok g2 = g_upstream_ok g"
      "if a \<noteq> adoption_from_state (g_persistent g)
       then \<exists>fs. save (ie_fault env) (ie_written env) p' (dk_state (g_disk g)) = (None, fs) \<and> dk_state (g_disk g2) = fs
       else dk_state (g_disk g2) = dk_state (g_disk g)"
proof (cases "next_state pm md nonce a g")
  case (Inl e)
  then show ?thesis using assms by (intro invalid [of e]) (simp_all add: commit_def)
next
  case (Inr pw)
  obtain p' w' where pw: "pw = (p', w')" by (cases pw)
  let ?ch = "a \<noteq> adoption_from_state (g_persistent g)"
  obtain f fs where f: "(if ?ch then save (ie_fault env) (ie_written env) p' (dk_state (g_disk g))
      else (None, dk_state (g_disk g))) = (f, fs)" by fastforce
  let ?g1 = "g\<lparr>g_disk := (g_disk g)\<lparr>dk_state := fs\<rparr>\<rparr>"
  show ?thesis
  proof (cases f)
    case (Some se)
    then have ch: ?ch using f by (auto split: if_splits)
    then show ?thesis using assms Inr pw f Some by (intro failed [of p' w' se fs]) (auto simp: commit_def Let_def)
  next
    case None
    let ?g2 = "?g1\<lparr>g_persistent := p',
       g_reported_cfg := (if ?ch then ad_cfg (st_adoption p') else case v of Some v \<Rightarrow> v | None \<Rightarrow> g_reported_cfg g),
       g_reported_fw := (if ?ch then [] else g_reported_fw g), g_last_inform := ie_now env, g_replay := w'\<rparr>"
    let ?g3 = "if ?ch then reset_firmware_context pm p' (reset_receipt_context pm p' ?g2) else ?g2"
    have g': "r = Inr out" "g' = monitor_step (set_adopted (ad_adopted (st_adoption p'))) ?g3"
      using assms unfolding commit_def Inr pw Let_def sum.case prod.case f None by simp_all
    have "same_core ?g2 ?g3"
      using same_core_trans [OF reset_receipt_core reset_firmware_core] by simp
    then have "same_core ?g2 g'" unfolding g'(2) using monitor_step_core same_core_trans by blast
    then show ?thesis using Inr pw g'(1) f None by (intro committed [of p' w' ?g2]) auto
  qed
qed

lemma commit_ok:
  assumes "gateway_ok g" "adoption_valid a" "md = inform_mode g" "\<And>n. nonce = Some n \<Longrightarrow> length n = 16"
    and "commit pm env md nonce v a out g = (r, g')"
  shows "gateway_ok g' \<and> same_setup g g' \<and> stored r g g'"
  using assms(5)
proof (cases rule: commit_cases)
  case (invalid e)
  then show ?thesis using assms(1) by (simp add: stored_def)
next
  case (failed p' w' se fs)
  have n: "state_valid p'" "st_identity p' = st_identity (g_persistent g)"
    using next_state_ok [OF assms(1-4) failed(1)] by simp_all
  have "fs_target fs \<in> {fs_target (dk_state (g_disk g)), Some (state_text p')}" using save_target [OF failed(3)] by simp
  then show ?thesis using assms(1) failed(4,5) n by (auto simp: gateway_ok_def same_setup_def stored_def Let_def)
next
  case (committed p' w' g2)
  have n: "state_valid p'" "adoption_from_state p' = a" "window_ok w'" "st_identity p' = st_identity (g_persistent g)"
    using next_state_ok [OF assms(1-4) committed(1)] by simp_all
  have "stored r g g'"
  proof (cases "a = adoption_from_state (g_persistent g)")
    case True
    then have "p' = g_persistent g" using next_state_unchanged committed(1) by blast
    then show ?thesis using committed(2-4,16) True by (auto simp: stored_def same_core_def)
  next
    case False
    then obtain fs where "save (ie_fault env) (ie_written env) p' (dk_state (g_disk g)) = (None, fs)" "dk_state (g_disk g2) = fs"
      using committed(16) by auto
    then show ?thesis using committed(2-4) save_None [of "ie_fault env" "ie_written env" p'] by (auto simp: stored_def same_core_def)
  qed
  then show ?thesis using n committed(3-11) assms(1,2) by (auto simp: gateway_ok_def same_core_def same_setup_def)
qed

section \<open>One inform\<close>

lemma confine_valid:
  assumes "confine_adopted_plain_http current next0 out md allow only = (next1, out1, v)"
    and "adoption_valid current" "adoption_valid next0"
  shows "adoption_valid next1"
proof -
  have "next1 = next0 \<or> next1 = current \<or> next1 = current\<lparr>UseAESGCM := True\<rparr> \<and> Adopted current"
    using assms(1) unfolding confine_adopted_plain_http_def Let_def by (auto split: if_splits)
  then show ?thesis using assms(2,3) by (auto simp: adoption_valid_def)
qed

lemma apply_valid: "apply_controller_response body s = (Inr out, s') \<Longrightarrow> adoption_valid s'"
  by (erule apply_controller_response_Inr)

lemma stored_core: "same_core g g' \<Longrightarrow> stored r g g'"
  by (simp add: stored_def same_core_def split: sum.split)

lemma core_ok: "gateway_ok g \<Longrightarrow> same_core g g' \<Longrightarrow> gateway_ok g'"
  by (simp add: gateway_ok_def same_core_def)

lemma core_setup: "same_core g g' \<Longrightarrow> same_setup g g'"
  by (simp add: same_core_def)

text \<open>The result of applying a response: refused without effect, or a commit.\<close>

lemma apply_and_commit_cases:
  assumes "apply_and_commit pm env md nonce body g = (r, g')"
  obtains (refused) e where "r = Inl e" "same_core g g'"
  | (commits) out next0 next1 out1 v where
      "apply_controller_response body (adoption_from_state (g_persistent g)) = (Inr out, next0)"
      "confine_adopted_plain_http (adoption_from_state (g_persistent g)) next0 out md (cu_volatile (c_unifi (g_cfg g)))
         (set_param_has_only_cfgversion body) = (next1, out1, v)"
      "commit pm env md nonce v next1 (out1\<lparr>Interval := 0\<rparr>) g = (r, g')"
proof -
  let ?cur = "adoption_from_state (g_persistent g)"
  obtain q next0 where q: "apply_controller_response body ?cur = (q, next0)" by fastforce
  show ?thesis
  proof (cases q)
    case (Inl e)
    then show ?thesis using assms q by (intro refused [of "ResponseRefused e"]) (simp_all add: apply_and_commit_def Let_def)
  next
    case (Inr out)
    note applied = q [unfolded Inr]
    obtain next1 out1 v where c: "confine_adopted_plain_http ?cur next0 out md (cu_volatile (c_unifi (g_cfg g)))
        (set_param_has_only_cfgversion body) = (next1, out1, v)" by (rule prod_cases3)
    let ?re = "receipts_eligible g (g_persistent g) md"
    let ?fe = "?re \<and> cu_firmware_sync (c_unifi (g_cfg g))"
    have res: "(r, g') =
        (if ?re \<and> Kind out = ResponseSetParam
         then (Inl ReceiptSettingRejected, monitor_step (record_config_receipt ReceiptRejected) g)
         else if ?fe \<and> Kind out = ResponseUpgrade
         then (Inl FirmwareTargetRejected, monitor_step (record_firmware_receipt ReceiptRejected) g)
         else case (if InformURL next1 \<noteq> InformURL ?cur then authorize_transition (InformURL ?cur) (InformURL next1) else Inr ()) of
                Inl e \<Rightarrow> (Inl (TransitionRefused e), g)
              | Inr () \<Rightarrow> commit pm env md nonce v next1 (out1\<lparr>Interval := 0\<rparr>) g)"
      using assms [symmetric] unfolding apply_and_commit_def Let_def q Inr prod.case sum.case c .
    show ?thesis
    proof (cases "?re \<and> Kind out = ResponseSetParam")
      case True
      show ?thesis by (rule refused) (use res True in simp_all)
    next
      case one: False
      show ?thesis
      proof (cases "?fe \<and> Kind out = ResponseUpgrade")
        case True
        show ?thesis by (rule refused) (use res one True in simp_all)
      next
        case False
        note res = res [unfolded if_not_P [OF one] if_not_P [OF False]]
        show ?thesis
        proof (cases "if InformURL next1 \<noteq> InformURL ?cur then authorize_transition (InformURL ?cur) (InformURL next1) else Inr ()")
          case (Inl e)
          show ?thesis by (rule refused) (use res [unfolded Inl sum.case] in simp_all)
        next
          case (Inr u)
          then have "(if InformURL next1 \<noteq> InformURL ?cur then authorize_transition (InformURL ?cur) (InformURL next1) else Inr ()) = Inr ()"
            by simp
          then have "(r, g') = commit pm env md nonce v next1 (out1\<lparr>Interval := 0\<rparr>) g"
            using res by (simp only: sum.case old.unit.case)
          then have "commit pm env md nonce v next1 (out1\<lparr>Interval := 0\<rparr>) g = (r, g')" by (rule sym)
          then show ?thesis by (rule commits [OF applied c])
        qed
      qed
    qed
  qed
qed

lemma apply_and_commit_ok:
  assumes "gateway_ok g" "md = inform_mode g" "\<And>n. nonce = Some n \<Longrightarrow> length n = 16"
    and "apply_and_commit pm env md nonce body g = (r, g')"
  shows "gateway_ok g' \<and> same_setup g g' \<and> stored r g g'"
  using assms(4)
proof (cases rule: apply_and_commit_cases)
  case (refused e)
  then show ?thesis using assms(1) core_ok core_setup stored_core by blast
next
  case (commits out next0 next1 out1 v)
  have "adoption_valid (adoption_from_state (g_persistent g))" using assms(1) by (simp add: gateway_ok_def)
  then have "adoption_valid next1" using confine_valid [OF commits(2)] apply_valid [OF commits(1)] by blast
  then show ?thesis using commit_ok [OF assms(1) _ assms(2,3) commits(3)] by blast
qed

text \<open>A receipt that is acknowledged leaves the core alone but for the nonce and the time.\<close>

lemma note_accepted_ok:
  assumes "gateway_ok g" "same_core g h" "length n = 16"
  shows "gateway_ok (note_accepted n now h) \<and> same_setup g (note_accepted n now h) \<and> stored (Inr x) g (note_accepted n now h)"
  using assms with_accepted_ok [of "g_replay g" n False]
  by (auto simp: note_accepted_def gateway_ok_def same_core_def same_setup_def stored_def)

lemma accept_response_cases:
  assumes "accept_response pm env md nonce body g = (r, g')"
  obtains (refused) e where "r = Inl e" "same_core g g'"
  | (receipt) h out where "receipts_eligible g (g_persistent g) md" "same_core g h" "r = Inr out"
      "g' = note_accepted (case nonce of Some n \<Rightarrow> n | None \<Rightarrow> replicate 16 0) (ie_now env) h"
  | (applied) "apply_and_commit pm env md nonce body g = (r, g')"
proof -
  let ?n = "case nonce of Some n \<Rightarrow> n | None \<Rightarrow> replicate 16 0" and ?re = "receipts_eligible g (g_persistent g) md"
  let ?fe = "?re \<and> cu_firmware_sync (c_unifi (g_cfg g))"
  show ?thesis
  proof (cases "if ?fe then classify_firmware_target body else None")
    case (Some target)
    obtain q h where q: "accept_firmware_target target ?n env g = (q, h)" by fastforce
    then have "?re" "same_core g h" using Some accept_firmware_core by (auto split: if_splits)
    then show ?thesis
      using assms Some q refused receipt unfolding accept_response_def Let_def by (auto split: sum.splits unit.splits)
  next
    case nofw: None
    show ?thesis
    proof (cases "if ?re then classify_config_receipt body else None")
      case (Some cand)
      obtain q h where q: "accept_config_receipt cand ?n env g = (q, h)" by fastforce
      then have "?re" "same_core g h" using Some accept_config_core by (auto split: if_splits)
      then show ?thesis
        using assms nofw Some q refused receipt unfolding accept_response_def Let_def by (auto split: sum.splits unit.splits)
    next
      case None
      then show ?thesis using assms nofw applied unfolding accept_response_def Let_def by simp
    qed
  qed
qed

lemma accept_response_ok:
  assumes "gateway_ok g" "md = inform_mode g" "\<And>n. nonce = Some n \<Longrightarrow> length n = 16"
    and "accept_response pm env md nonce body g = (r, g')"
  shows "gateway_ok g' \<and> same_setup g g' \<and> stored r g g'"
  using assms(4)
proof (cases rule: accept_response_cases)
  case (refused e)
  then show ?thesis using assms(1) core_ok core_setup stored_core by blast
next
  case (receipt h out)
  have "length (case nonce of Some n \<Rightarrow> n | None \<Rightarrow> replicate 16 0) = 16" using assms(3) by (auto split: option.splits)
  then show ?thesis unfolding receipt(3,4) by (rule note_accepted_ok [OF assms(1) receipt(2)])
next
  case applied
  then show ?thesis using apply_and_commit_ok [OF assms(1-3)] by blast
qed

end
