(* ===== verification/Discovery.thy ===== *)
theory Discovery
  imports Project InformCodec
begin

text \<open>
  \<open>internal/unifi/discovery/packet.go\<close>: the announcement, its validation, and the datagram of
  type-length-value records.  A \<open>net.IP\<close> or \<open>net.HardwareAddr\<close> is its bytes; where the code
  tells nil from a value it is an option.  The fixed arrays of Go are byte lists whose widths
  \<open>arrays_ok\<close> states.
\<close>

section \<open>The announcement\<close>

abbreviation v1 :: byte where "v1 \<equiv> 1"
abbreviation v2 :: byte where "v2 \<equiv> 2"

abbreviation tlv_mac :: byte where "tlv_mac \<equiv> 0x01"
abbreviation tlv_mac_ip :: byte where "tlv_mac_ip \<equiv> 0x02"
abbreviation tlv_firmware :: byte where "tlv_firmware \<equiv> 0x03"
abbreviation tlv_ipv4 :: byte where "tlv_ipv4 \<equiv> 0x04"
abbreviation tlv_device_mac :: byte where "tlv_device_mac \<equiv> 0x05"
abbreviation tlv_uptime :: byte where "tlv_uptime \<equiv> 0x0A"
abbreviation tlv_hostname :: byte where "tlv_hostname \<equiv> 0x0B"
abbreviation tlv_platform :: byte where "tlv_platform \<equiv> 0x0C"
abbreviation tlv_essid :: byte where "tlv_essid \<equiv> 0x0D"
abbreviation tlv_wmode :: byte where "tlv_wmode \<equiv> 0x0E"
abbreviation tlv_board :: byte where "tlv_board \<equiv> 0x10"
abbreviation tlv_sequence :: byte where "tlv_sequence \<equiv> 0x12"
abbreviation tlv_source_mac :: byte where "tlv_source_mac \<equiv> 0x13"
abbreviation tlv_hardware :: byte where "tlv_hardware \<equiv> 0x14"
abbreviation tlv_model :: byte where "tlv_model \<equiv> 0x15"
abbreviation tlv_version :: byte where "tlv_version \<equiv> 0x16"
abbreviation tlv_is_default :: byte where "tlv_is_default \<equiv> 0x17"
abbreviation tlv_controller :: byte where "tlv_controller \<equiv> 0x26"
abbreviation tlv_hash :: byte where "tlv_hash \<equiv> 0x27"
abbreviation tlv_anon :: byte where "tlv_anon \<equiv> 0x2A"
abbreviation tlv_profile :: byte where "tlv_profile \<equiv> 0x2B"
abbreviation tlv_field2c :: byte where "tlv_field2c \<equiv> 0x2C"
abbreviation tlv_field2d :: byte where "tlv_field2d \<equiv> 0x2D"
abbreviation tlv_netmask :: byte where "tlv_netmask \<equiv> 0x35"

definition max_datagram :: nat where "max_datagram = 8192"
definition command_discover :: byte where "command_discover = 0"
definition command_announcement :: byte where "command_announcement = 6"

record announcement =
  an_version :: byte
  an_command :: byte
  an_mac :: "byte list"
  an_addresses :: "(byte list \<times> byte list) list"
  an_firmware :: string
  an_ipv4 :: "byte list option"
  an_device_mac :: "byte list option"
  an_uptime :: "u32 option"
  an_hostname :: string
  an_platform :: string
  an_hardware :: string
  an_essid :: string
  an_wmode :: u32
  an_board :: "u16 option"
  an_sequence :: u32
  an_source_mac :: "byte list"
  an_model :: string
  an_version_text :: string
  an_default :: "bool option"
  an_controller :: "byte list option"
  an_controller_first :: bool
  an_hash :: "byte list option"
  an_anon :: "byte list option"
  an_profile :: "byte list option"
  an_field2c :: "byte option"
  an_field2d :: "u32 option"
  an_netmask :: "byte list option"

definition empty_announcement :: "byte \<Rightarrow> byte \<Rightarrow> announcement" where
  "empty_announcement version command =
     \<lparr>an_version = version, an_command = command, an_mac = [], an_addresses = [], an_firmware = [], an_ipv4 = None,
      an_device_mac = None, an_uptime = None, an_hostname = [], an_platform = [], an_hardware = [], an_essid = [],
      an_wmode = 0, an_board = None, an_sequence = 0, an_source_mac = [], an_model = [], an_version_text = [],
      an_default = None, an_controller = None, an_controller_first = False, an_hash = None, an_anon = None,
      an_profile = None, an_field2c = None, an_field2d = None, an_netmask = None\<rparr>"

definition arrays_ok :: "announcement \<Rightarrow> bool" where
  "arrays_ok a \<longleftrightarrow>
     (case an_hash a of Some x \<Rightarrow> length x = 8 | None \<Rightarrow> True) \<and>
     (case an_anon a of Some x \<Rightarrow> length x = 16 | None \<Rightarrow> True) \<and>
     (case an_profile a of Some x \<Rightarrow> length x = 16 | None \<Rightarrow> True) \<and>
     (case an_controller a of Some x \<Rightarrow> length x = 16 | None \<Rightarrow> True)"

section \<open>Validation\<close>

definition supported_version :: "byte \<Rightarrow> bool" where
  "supported_version v \<longleftrightarrow> v = v1 \<or> v = v2"

definition check_mac :: "byte list \<Rightarrow> (string, unit) result" where
  "check_mac mac =
     guard (length mac \<noteq> 6 \<or> and (mac ! 0) 1 \<noteq> 0) ''discovery: MAC must be a six-byte unicast address'' (
     guard (zero_bytes mac) ''discovery: MAC must not be all zeroes'' (Inr ()))"

definition discovery_mac :: "byte list \<Rightarrow> bool" where
  "discovery_mac mac \<longleftrightarrow> check_mac mac = Inr ()"

lemma discovery_mac_length: "discovery_mac mac \<Longrightarrow> length mac = 6"
  by (simp add: discovery_mac_def check_mac_def guard_Inr)

definition valid_ascii :: "string \<Rightarrow> nat \<Rightarrow> bool" where
  "valid_ascii v n \<longleftrightarrow> \<not> n < length v \<and> list_all (\<lambda>c. 0x20 \<le> cbyte c \<and> cbyte c \<le> 0x7E) v"

text \<open>Whether one of the addresses matches the primary identity.\<close>

fun scan_addresses :: "byte list \<Rightarrow> byte list option \<Rightarrow> (byte list \<times> byte list) list \<Rightarrow> bool \<Rightarrow> (string, bool) result" where
  "scan_addresses mac primary [] matched = Inr matched"
| "scan_addresses mac primary ((m, ip) # rest) matched =
     guard (\<not> discovery_mac m \<or> to4 ip = None) ''discovery: invalid MAC/IP address TLV''
       (scan_addresses mac primary rest
         (matched \<or> m = mac \<and> (case primary of None \<Rightarrow> True | Some q \<Rightarrow> to4 ip = to4 q)))"

definition validate_texts :: "announcement \<Rightarrow> bool" where
  "validate_texts a \<longleftrightarrow>
     list_all (\<lambda>t. valid_ascii t 1024)
       [an_firmware a, an_hostname a, an_platform a, an_hardware a, an_essid a, an_model a, an_version_text a]"

definition validate_identity :: "announcement \<Rightarrow> (string, unit) result" where
  "validate_identity a =
     guard (\<not> supported_version (an_version a)) ''discovery: unsupported version'' (
     bind (check_mac (an_mac a)) (\<lambda>_.
     guard (length (an_addresses a) = 0 \<or> 16 < length (an_addresses a)) ''discovery: announcement requires 1-16 addresses'' (
     bind (scan_addresses (an_mac a) (an_ipv4 a) (an_addresses a) False) (\<lambda>matched.
     guard (\<not> matched) ''discovery: no MAC/IP TLV matches the primary identity'' (
     guard (\<not> validate_texts a) ''discovery: invalid text TLV'' (
     guard (an_firmware a = [] \<or> an_hostname a = [] \<or> an_platform a = [])
       ''discovery: firmware, hostname, and platform are required'' (
     guard (an_netmask a \<noteq> None \<and> to4 (the (an_netmask a)) = None) ''discovery: netmask is not IPv4'' (
     guard (an_ipv4 a \<noteq> None \<and> to4 (the (an_ipv4 a)) = None) ''discovery: primary IP is not IPv4'' (
     guard (an_device_mac a \<noteq> None \<and> \<not> discovery_mac (the (an_device_mac a))) ''discovery: invalid device-MAC TLV'' (
     guard (an_device_mac a \<noteq> None \<and> the (an_device_mac a) \<noteq> an_mac a)
       ''discovery: device-MAC TLV does not match primary identity'' (
     guard (an_version a = v2 \<and> (an_sequence a = 0 \<or> an_model a = [])) ''discovery: v2 requires sequence and model'' (
     guard (an_version a = v2 \<and> \<not> discovery_mac (an_source_mac a)) ''discovery: v2 requires a valid source MAC'' (
     guard (an_version a = v2 \<and> an_source_mac a \<noteq> an_mac a)
       ''discovery: source MAC does not match primary identity'' (Inr ()))))))))))))))"

lemma bind_unit: "bind m f = Inr b \<longleftrightarrow> m = Inr () \<and> f () = Inr b"
  by (auto simp: bind_Inr)

section \<open>Marshalling\<close>

definition append_tlv :: "byte \<Rightarrow> byte list \<Rightarrow> byte list" where
  "append_tlv t v = t # put_u16 (of_nat (length v)) @ v"

text \<open>\<open>To4\<close> of an address: no bytes where it is not IPv4.\<close>

definition ip4_bytes :: "byte list \<Rightarrow> byte list" where
  "ip4_bytes ip = (case to4 ip of Some q \<Rightarrow> q | None \<Rightarrow> [])"

definition put_if :: "bool \<Rightarrow> byte \<Rightarrow> byte list \<Rightarrow> (byte \<times> byte list) list" where
  "put_if b t v = (if b then [(t, v)] else [])"

definition put_some :: "('a \<Rightarrow> byte list) \<Rightarrow> byte \<Rightarrow> 'a option \<Rightarrow> (byte \<times> byte list) list" where
  "put_some f t x = (case x of None \<Rightarrow> [] | Some v \<Rightarrow> [(t, f v)])"

definition text_tlv :: "byte \<Rightarrow> string \<Rightarrow> (byte \<times> byte list) list" where
  "text_tlv t s = put_if (s \<noteq> []) t (string_bytes s)"

text \<open>The records of version 2 only.\<close>

definition tlvs_v2 :: "announcement \<Rightarrow> (byte \<times> byte list) list" where
  "tlvs_v2 a =
     [(tlv_sequence, put_u32 (an_sequence a)), (tlv_source_mac, an_source_mac a)] @
     text_tlv tlv_version (an_version_text a) @
     put_some put_u32 tlv_field2d (an_field2d a) @
     put_some (\<lambda>x. x) tlv_controller (if an_controller_first a then None else an_controller a) @
     put_some (\<lambda>x. x) tlv_profile (an_profile a) @
     put_some (\<lambda>b. [b]) tlv_field2c (an_field2c a)"

text \<open>The records in the order the firmware emits them.\<close>

definition tlvs :: "announcement \<Rightarrow> (byte \<times> byte list) list" where
  "tlvs a =
     text_tlv tlv_model (if an_version a = v2 then an_model a else []) @
     text_tlv tlv_platform (an_platform a) @
     text_tlv tlv_hardware (an_hardware a) @
     text_tlv tlv_hostname (an_hostname a) @
     put_some put_u32 tlv_uptime (an_uptime a) @
     put_some ip4_bytes tlv_ipv4 (an_ipv4 a) @
     map (\<lambda>(m, ip). (tlv_mac_ip, m @ ip4_bytes ip)) (an_addresses a) @
     [(tlv_mac, an_mac a)] @
     put_some (\<lambda>x. x) tlv_device_mac (an_device_mac a) @
     text_tlv tlv_firmware (an_firmware a) @
     put_some put_u16 tlv_board (an_board a) @
     put_some (\<lambda>b. [if b then 1 else 0]) tlv_is_default (an_default a) @
     put_some (\<lambda>x. x) tlv_controller (if an_controller_first a then an_controller a else None) @
     put_some (\<lambda>x. x) tlv_hash (an_hash a) @
     put_some (\<lambda>x. x) tlv_anon (an_anon a) @
     text_tlv tlv_essid (an_essid a) @
     put_if (an_wmode a \<noteq> 0) tlv_wmode (put_u32 (an_wmode a)) @
     (if an_version a = v2 then tlvs_v2 a else []) @
     put_some ip4_bytes tlv_netmask (an_netmask a)"

definition marshal_announcement :: "announcement \<Rightarrow> (string, byte list) result" where
  "marshal_announcement a =
     bind (validate_identity a) (\<lambda>_.
     let body = concat (map (\<lambda>(t, v). append_tlv t v) (tlvs a)) in
     guard (0xFFFF < length body \<or> max_datagram < length body + 4) ''discovery: announcement exceeds datagram limit''
       (Inr ([an_version a, an_command a] @ put_u16 (of_nat (length body)) @ body)))"

definition query :: "byte \<Rightarrow> (string, byte list) result" where
  "query version = guard (\<not> supported_version version) ''discovery: unsupported version'' (Inr [version, command_discover, 0, 0])"

section \<open>Parsing\<close>

definition singleton_tlv :: "byte \<Rightarrow> bool" where
  "singleton_tlv t \<longleftrightarrow>
     t \<in> {tlv_mac, tlv_firmware, tlv_ipv4, tlv_device_mac, tlv_uptime, tlv_hostname, tlv_platform, tlv_essid, tlv_wmode,
          tlv_board, tlv_sequence, tlv_source_mac, tlv_hardware, tlv_model, tlv_version, tlv_is_default, tlv_controller,
          tlv_hash, tlv_anon, tlv_profile, tlv_field2c, tlv_field2d, tlv_netmask}"

definition ascii_value :: "byte list \<Rightarrow> bool" where
  "ascii_value v \<longleftrightarrow> valid_ascii (text_of v) 1024"

text \<open>One record; unknown types are skipped.\<close>

definition apply_tlv :: "byte \<Rightarrow> byte list \<Rightarrow> announcement \<Rightarrow> (string, announcement) result" where
  "apply_tlv t v a =
     (let old = (an_version a \<noteq> v2); n = length v in
      if t = tlv_mac then guard (n \<noteq> 6) ''discovery: invalid MAC TLV length'' (Inr (a\<lparr>an_mac := v\<rparr>))
      else if t = tlv_mac_ip then
        guard (n \<noteq> 10 \<or> 16 \<le> length (an_addresses a)) ''discovery: invalid MAC/IP TLV''
          (Inr (a\<lparr>an_addresses := an_addresses a @ [(take 6 v, drop 6 v)]\<rparr>))
      else if t = tlv_firmware then
        guard (\<not> ascii_value v) ''discovery: invalid firmware TLV'' (Inr (a\<lparr>an_firmware := text_of v\<rparr>))
      else if t = tlv_ipv4 then
        guard (n \<noteq> 4) ''discovery: invalid primary-IPv4 TLV length'' (Inr (a\<lparr>an_ipv4 := Some v\<rparr>))
      else if t = tlv_device_mac then
        guard (n \<noteq> 6) ''discovery: invalid device-MAC TLV length'' (Inr (a\<lparr>an_device_mac := Some v\<rparr>))
      else if t = tlv_uptime then
        guard (n \<noteq> 4) ''discovery: invalid uptime TLV length'' (Inr (a\<lparr>an_uptime := Some (get_u32 v)\<rparr>))
      else if t = tlv_hostname then
        guard (\<not> ascii_value v) ''discovery: invalid hostname TLV'' (Inr (a\<lparr>an_hostname := text_of v\<rparr>))
      else if t = tlv_platform then
        guard (\<not> ascii_value v) ''discovery: invalid platform TLV'' (Inr (a\<lparr>an_platform := text_of v\<rparr>))
      else if t = tlv_essid then
        guard (\<not> ascii_value v) ''discovery: invalid ESSID TLV'' (Inr (a\<lparr>an_essid := text_of v\<rparr>))
      else if t = tlv_wmode then
        guard (n \<noteq> 4) ''discovery: invalid wireless-mode TLV length'' (Inr (a\<lparr>an_wmode := get_u32 v\<rparr>))
      else if t = tlv_board then
        guard (n \<noteq> 2) ''discovery: invalid board-ID TLV length'' (Inr (a\<lparr>an_board := Some (get_u16 v)\<rparr>))
      else if t = tlv_sequence then
        guard (old \<or> n \<noteq> 4) ''discovery: invalid sequence TLV'' (Inr (a\<lparr>an_sequence := get_u32 v\<rparr>))
      else if t = tlv_source_mac then
        guard (old \<or> n \<noteq> 6) ''discovery: invalid source-MAC TLV'' (Inr (a\<lparr>an_source_mac := v\<rparr>))
      else if t = tlv_hardware then
        guard (\<not> ascii_value v) ''discovery: invalid hardware TLV'' (Inr (a\<lparr>an_hardware := text_of v\<rparr>))
      else if t = tlv_model then
        guard (old \<or> \<not> ascii_value v) ''discovery: invalid model TLV'' (Inr (a\<lparr>an_model := text_of v\<rparr>))
      else if t = tlv_version then
        guard (old \<or> \<not> ascii_value v) ''discovery: invalid version TLV'' (Inr (a\<lparr>an_version_text := text_of v\<rparr>))
      else if t = tlv_is_default then
        guard (n \<noteq> 1 \<or> 1 < v ! 0) ''discovery: invalid is-default TLV'' (Inr (a\<lparr>an_default := Some (v ! 0 = 1)\<rparr>))
      else if t = tlv_controller then
        guard (old \<or> n \<noteq> 16) ''discovery: invalid controller-UUID TLV'' (Inr (a\<lparr>an_controller := Some v\<rparr>))
      else if t = tlv_hash then
        guard (n \<noteq> 8) ''discovery: invalid hash-ID TLV'' (Inr (a\<lparr>an_hash := Some v\<rparr>))
      else if t = tlv_anon then
        guard (n \<noteq> 16) ''discovery: invalid anonymous-ID TLV'' (Inr (a\<lparr>an_anon := Some v\<rparr>))
      else if t = tlv_profile then
        guard (old \<or> n \<noteq> 16) ''discovery: invalid profile-UUID TLV'' (Inr (a\<lparr>an_profile := Some v\<rparr>))
      else if t = tlv_field2c then
        guard (old \<or> n \<noteq> 1) ''discovery: invalid 0x2c TLV'' (Inr (a\<lparr>an_field2c := Some (v ! 0)\<rparr>))
      else if t = tlv_field2d then
        guard (old \<or> n \<noteq> 4) ''discovery: invalid 0x2d TLV'' (Inr (a\<lparr>an_field2d := Some (get_u32 v)\<rparr>))
      else if t = tlv_netmask then
        guard (n \<noteq> 4) ''discovery: invalid netmask TLV length'' (Inr (a\<lparr>an_netmask := Some v\<rparr>))
      else Inr a)"

function parse_tlvs :: "byte list \<Rightarrow> byte set \<Rightarrow> announcement \<Rightarrow> (string, announcement) result" where
  "parse_tlvs body seen a =
     (if body = [] then Inr a
      else if length body < 3 then Inl ''discovery: truncated TLV header''
      else let t = body ! 0; n = unat (get_u16 (sub_bytes 1 3 body)) in
        if length body - 3 < n then Inl ''discovery: TLV overruns datagram''
        else if singleton_tlv t \<and> t \<in> seen then Inl ''discovery: duplicate singleton TLV''
        else case apply_tlv t (sub_bytes 3 (3 + n) body) a of
          Inl e \<Rightarrow> Inl e
        | Inr a' \<Rightarrow> parse_tlvs (drop (3 + n) body) (if singleton_tlv t then insert t seen else seen) a')"
  by pat_completeness auto
termination by (relation "measure (\<lambda>(body, seen, a). length body)") auto

declare parse_tlvs.simps [simp del]

definition parse_announcement :: "byte list \<Rightarrow> (string, announcement) result" where
  "parse_announcement packet =
     guard (length packet < 4) ''discovery: truncated header'' (
     guard (max_datagram < length packet) ''discovery: datagram exceeds limit'' (
     guard (\<not> supported_version (packet ! 0)) ''discovery: unsupported version'' (
     guard (unat (get_u16 (sub_bytes 2 4 packet)) \<noteq> length packet - 4)
       ''discovery: declared body length does not match datagram''
       (parse_tlvs (drop 4 packet) {} (empty_announcement (packet ! 0) (packet ! 1))))))"

end
