(* ===== verification/DiscoveryFacts.thy ===== *)
theory DiscoveryFacts
  imports Discovery
begin

text \<open>
  The datagram of an announcement reads back as the announcement in its canonical form, and
  everything the parser returns is within the bounds of the protocol.
\<close>

section \<open>Parsing what was marshalled\<close>

text \<open>The records one after the other, when none is repeated.\<close>

fun apply_list :: "(byte \<times> byte list) list \<Rightarrow> announcement \<Rightarrow> (string, announcement) result" where
  "apply_list [] a = Inr a"
| "apply_list ((t, v) # ts) a = (case apply_tlv t v a of Inl e \<Rightarrow> Inl e | Inr a' \<Rightarrow> apply_list ts a')"

definition distinct_tlvs :: "(byte \<times> byte list) list \<Rightarrow> bool" where
  "distinct_tlvs ts \<longleftrightarrow> distinct (filter singleton_tlv (map fst ts))"

lemma parse_tlvs_step:
  assumes "3 \<le> length body" "body ! 0 = t" "unat (get_u16 (sub_bytes 1 3 body)) = n" "n \<le> length body - 3"
    and "\<not> (singleton_tlv t \<and> t \<in> seen)" "sub_bytes 3 (3 + n) body = v" "drop (3 + n) body = rest"
  shows "parse_tlvs body seen a =
    (case apply_tlv t v a of
       Inl e \<Rightarrow> Inl e
     | Inr a' \<Rightarrow> parse_tlvs rest (if singleton_tlv t then insert t seen else seen) a')"
proof -
  have "body \<noteq> []" "\<not> length body < 3" "\<not> length body - 3 < n" using assms(1,4) by auto
  then show ?thesis using assms(2,3,5-7) by (subst parse_tlvs.simps) (simp only: Let_def if_False simp_thms)
qed

lemma parse_append_tlv:
  assumes "length v < 65536" "\<not> (singleton_tlv t \<and> t \<in> seen)"
  shows "parse_tlvs (append_tlv t v @ rest) seen a =
    (case apply_tlv t v a of
       Inl e \<Rightarrow> Inl e
     | Inr a' \<Rightarrow> parse_tlvs rest (if singleton_tlv t then insert t seen else seen) a')"
proof (rule parse_tlvs_step [OF _ _ _ _ assms(2)])
  let ?b = "append_tlv t v @ rest"
  have b: "?b = t # put_u16 (of_nat (length v)) @ v @ rest" by (simp add: append_tlv_def)
  show "unat (get_u16 (sub_bytes 1 3 ?b)) = length v"
    using assms(1) by (simp add: b sub_bytes_def) (simp add: unat_of_nat)
  have "3 + length v = Suc (length (put_u16 (of_nat (length v))) + length v)" by simp
  then show "drop (3 + length v) ?b = rest" unfolding b by (simp only: drop_Suc_Cons drop_append) simp
  show "sub_bytes 3 (3 + length v) ?b = v" "?b ! 0 = t" "3 \<le> length ?b" "length v \<le> length ?b - 3"
    by (simp_all add: b sub_bytes_def)
qed

lemma parse_tlvs_list:
  "\<forall>(t, v) \<in> set ts. length v < 65536 \<Longrightarrow> distinct_tlvs ts \<Longrightarrow> seen \<inter> set (filter singleton_tlv (map fst ts)) = {} \<Longrightarrow>
   parse_tlvs (concat (map (\<lambda>(t, v). append_tlv t v) ts)) seen a = apply_list ts a"
proof (induction ts arbitrary: seen a)
  case Nil
  then show ?case by (simp add: parse_tlvs.simps)
next
  case (Cons x ts)
  obtain t v where x: "x = (t, v)" by (cases x)
  have d: "distinct_tlvs ts" using Cons.prems(2) by (simp add: distinct_tlvs_def split: if_splits)
  show ?case
    using Cons.prems Cons.IH [OF _ d]
    by (auto simp: x parse_append_tlv distinct_tlvs_def split: sum.split if_splits)
qed

text \<open>One record at a time.\<close>

lemma apply_text_tlv:
  assumes "\<And>v. ascii_value v \<Longrightarrow> apply_tlv t v a = Inr (f (text_of v) a)" "valid_ascii s 1024" "f [] a = a"
  shows "apply_list (text_tlv t s @ ts) a = apply_list ts (f s a)"
  using assms by (auto simp: text_tlv_def put_if_def ascii_value_def)

lemma apply_put_some:
  assumes "\<And>v. x = Some v \<Longrightarrow> apply_tlv t (g v) a = Inr (f (Some v) a)" "f None a = a"
  shows "apply_list (put_some g t x @ ts) a = apply_list ts (f x a)"
  using assms by (auto simp: put_some_def split: option.split)

text \<open>A field that already has the value is not changed by storing it again.\<close>

lemma same_field:
  "an_mac a = x0 \<Longrightarrow> a\<lparr>an_mac := x0\<rparr> = a"
  "an_addresses a = x1 \<Longrightarrow> a\<lparr>an_addresses := x1\<rparr> = a"
  "an_firmware a = x2 \<Longrightarrow> a\<lparr>an_firmware := x2\<rparr> = a"
  "an_ipv4 a = x3 \<Longrightarrow> a\<lparr>an_ipv4 := x3\<rparr> = a"
  "an_device_mac a = x4 \<Longrightarrow> a\<lparr>an_device_mac := x4\<rparr> = a"
  "an_uptime a = x5 \<Longrightarrow> a\<lparr>an_uptime := x5\<rparr> = a"
  "an_hostname a = x6 \<Longrightarrow> a\<lparr>an_hostname := x6\<rparr> = a"
  "an_platform a = x7 \<Longrightarrow> a\<lparr>an_platform := x7\<rparr> = a"
  "an_hardware a = x8 \<Longrightarrow> a\<lparr>an_hardware := x8\<rparr> = a"
  "an_essid a = x9 \<Longrightarrow> a\<lparr>an_essid := x9\<rparr> = a"
  "an_wmode a = x10 \<Longrightarrow> a\<lparr>an_wmode := x10\<rparr> = a"
  "an_board a = x11 \<Longrightarrow> a\<lparr>an_board := x11\<rparr> = a"
  "an_sequence a = x12 \<Longrightarrow> a\<lparr>an_sequence := x12\<rparr> = a"
  "an_source_mac a = x13 \<Longrightarrow> a\<lparr>an_source_mac := x13\<rparr> = a"
  "an_model a = x14 \<Longrightarrow> a\<lparr>an_model := x14\<rparr> = a"
  "an_version_text a = x15 \<Longrightarrow> a\<lparr>an_version_text := x15\<rparr> = a"
  "an_default a = x16 \<Longrightarrow> a\<lparr>an_default := x16\<rparr> = a"
  "an_controller a = x17 \<Longrightarrow> a\<lparr>an_controller := x17\<rparr> = a"
  "an_hash a = x18 \<Longrightarrow> a\<lparr>an_hash := x18\<rparr> = a"
  "an_anon a = x19 \<Longrightarrow> a\<lparr>an_anon := x19\<rparr> = a"
  "an_profile a = x20 \<Longrightarrow> a\<lparr>an_profile := x20\<rparr> = a"
  "an_field2c a = x21 \<Longrightarrow> a\<lparr>an_field2c := x21\<rparr> = a"
  "an_field2d a = x22 \<Longrightarrow> a\<lparr>an_field2d := x22\<rparr> = a"
  "an_netmask a = x23 \<Longrightarrow> a\<lparr>an_netmask := x23\<rparr> = a"
  by (cases a; simp)+

text \<open>The records of the announcement, each stored in its field.\<close>

lemma put_model:
  "an_version a = v2 \<Longrightarrow> valid_ascii s 1024 \<Longrightarrow> an_model a = [] \<Longrightarrow>
   apply_list (text_tlv tlv_model s @ ts) a = apply_list ts (a\<lparr>an_model := s\<rparr>)"
  by (rule apply_text_tlv) (simp_all add: apply_tlv_def same_field)

lemma put_platform:
  "valid_ascii s 1024 \<Longrightarrow> an_platform a = [] \<Longrightarrow>
   apply_list (text_tlv tlv_platform s @ ts) a = apply_list ts (a\<lparr>an_platform := s\<rparr>)"
  by (rule apply_text_tlv) (simp_all add: apply_tlv_def same_field)

lemma put_hardware:
  "valid_ascii s 1024 \<Longrightarrow> an_hardware a = [] \<Longrightarrow>
   apply_list (text_tlv tlv_hardware s @ ts) a = apply_list ts (a\<lparr>an_hardware := s\<rparr>)"
  by (rule apply_text_tlv) (simp_all add: apply_tlv_def same_field)

lemma put_hostname:
  "valid_ascii s 1024 \<Longrightarrow> an_hostname a = [] \<Longrightarrow>
   apply_list (text_tlv tlv_hostname s @ ts) a = apply_list ts (a\<lparr>an_hostname := s\<rparr>)"
  by (rule apply_text_tlv) (simp_all add: apply_tlv_def same_field)

lemma put_firmware:
  "valid_ascii s 1024 \<Longrightarrow> an_firmware a = [] \<Longrightarrow>
   apply_list (text_tlv tlv_firmware s @ ts) a = apply_list ts (a\<lparr>an_firmware := s\<rparr>)"
  by (rule apply_text_tlv) (simp_all add: apply_tlv_def same_field)

lemma put_essid:
  "valid_ascii s 1024 \<Longrightarrow> an_essid a = [] \<Longrightarrow>
   apply_list (text_tlv tlv_essid s @ ts) a = apply_list ts (a\<lparr>an_essid := s\<rparr>)"
  by (rule apply_text_tlv) (simp_all add: apply_tlv_def same_field)

lemma put_version_text:
  "an_version a = v2 \<Longrightarrow> valid_ascii s 1024 \<Longrightarrow> an_version_text a = [] \<Longrightarrow>
   apply_list (text_tlv tlv_version s @ ts) a = apply_list ts (a\<lparr>an_version_text := s\<rparr>)"
  by (rule apply_text_tlv) (simp_all add: apply_tlv_def same_field)

lemma put_uptime:
  "an_uptime a = None \<Longrightarrow>
   apply_list (put_some put_u32 tlv_uptime x @ ts) a = apply_list ts (a\<lparr>an_uptime := x\<rparr>)"
  by (rule apply_put_some) (simp_all add: apply_tlv_def same_field)

lemma put_board:
  "an_board a = None \<Longrightarrow>
   apply_list (put_some put_u16 tlv_board x @ ts) a = apply_list ts (a\<lparr>an_board := x\<rparr>)"
  by (rule apply_put_some) (simp_all add: apply_tlv_def same_field)

lemma put_default:
  "an_default a = None \<Longrightarrow>
   apply_list (put_some (\<lambda>b. [if b then 1 else 0]) tlv_is_default x @ ts) a = apply_list ts (a\<lparr>an_default := x\<rparr>)"
  by (rule apply_put_some) (simp_all add: apply_tlv_def same_field)

lemma put_field2d:
  "an_version a = v2 \<Longrightarrow> an_field2d a = None \<Longrightarrow>
   apply_list (put_some put_u32 tlv_field2d x @ ts) a = apply_list ts (a\<lparr>an_field2d := x\<rparr>)"
  by (rule apply_put_some) (simp_all add: apply_tlv_def same_field)

lemma put_field2c:
  "an_version a = v2 \<Longrightarrow> an_field2c a = None \<Longrightarrow>
   apply_list (put_some (\<lambda>b. [b]) tlv_field2c x @ ts) a = apply_list ts (a\<lparr>an_field2c := x\<rparr>)"
  by (rule apply_put_some) (simp_all add: apply_tlv_def same_field)

lemma put_device_mac:
  "(\<And>v. x = Some v \<Longrightarrow> length v = 6) \<Longrightarrow> an_device_mac a = None \<Longrightarrow>
   apply_list (put_some (\<lambda>x. x) tlv_device_mac x @ ts) a = apply_list ts (a\<lparr>an_device_mac := x\<rparr>)"
  by (rule apply_put_some) (simp_all add: apply_tlv_def same_field)

lemma put_hash:
  "(\<And>v. x = Some v \<Longrightarrow> length v = 8) \<Longrightarrow> an_hash a = None \<Longrightarrow>
   apply_list (put_some (\<lambda>x. x) tlv_hash x @ ts) a = apply_list ts (a\<lparr>an_hash := x\<rparr>)"
  by (rule apply_put_some) (simp_all add: apply_tlv_def same_field)

lemma put_anon:
  "(\<And>v. x = Some v \<Longrightarrow> length v = 16) \<Longrightarrow> an_anon a = None \<Longrightarrow>
   apply_list (put_some (\<lambda>x. x) tlv_anon x @ ts) a = apply_list ts (a\<lparr>an_anon := x\<rparr>)"
  by (rule apply_put_some) (simp_all add: apply_tlv_def same_field)

lemma put_profile:
  "an_version a = v2 \<Longrightarrow> (\<And>v. x = Some v \<Longrightarrow> length v = 16) \<Longrightarrow> an_profile a = None \<Longrightarrow>
   apply_list (put_some (\<lambda>x. x) tlv_profile x @ ts) a = apply_list ts (a\<lparr>an_profile := x\<rparr>)"
  by (rule apply_put_some) (simp_all add: apply_tlv_def same_field)

lemma put_controller:
  "an_version a = v2 \<Longrightarrow> (\<And>v. x = Some v \<Longrightarrow> length v = 16) \<Longrightarrow> an_controller a = None \<Longrightarrow>
   apply_list (put_some (\<lambda>x. x) tlv_controller x @ ts) a = apply_list ts (a\<lparr>an_controller := x\<rparr>)"
  by (rule apply_put_some) (simp_all add: apply_tlv_def same_field)

lemma ip4_bytes_length: "to4 ip \<noteq> None \<Longrightarrow> length (ip4_bytes ip) = 4"
  by (auto simp: ip4_bytes_def to4_length)

lemma put_ipv4:
  "(\<And>v. x = Some v \<Longrightarrow> to4 v \<noteq> None) \<Longrightarrow> an_ipv4 a = None \<Longrightarrow>
   apply_list (put_some ip4_bytes tlv_ipv4 x @ ts) a = apply_list ts (a\<lparr>an_ipv4 := map_option ip4_bytes x\<rparr>)"
  by (rule apply_put_some) (simp_all add: apply_tlv_def same_field ip4_bytes_length)

lemma put_netmask:
  "(\<And>v. x = Some v \<Longrightarrow> to4 v \<noteq> None) \<Longrightarrow> an_netmask a = None \<Longrightarrow>
   apply_list (put_some ip4_bytes tlv_netmask x) a = Inr (a\<lparr>an_netmask := map_option ip4_bytes x\<rparr>)"
  using apply_put_some [of x tlv_netmask ip4_bytes a "\<lambda>x a. a\<lparr>an_netmask := map_option ip4_bytes x\<rparr>" "[]"]
  by (simp add: apply_tlv_def same_field ip4_bytes_length)

lemma put_wmode:
  "an_wmode a = 0 \<Longrightarrow>
   apply_list (put_if (w \<noteq> 0) tlv_wmode (put_u32 w) @ ts) a = apply_list ts (a\<lparr>an_wmode := w\<rparr>)"
  by (auto simp: put_if_def apply_tlv_def same_field)

lemma put_addresses:
  "\<forall>(m, ip) \<in> set as. length m = 6 \<and> to4 ip \<noteq> None \<Longrightarrow> length (an_addresses a) + length as \<le> 16 \<Longrightarrow>
   apply_list (map (\<lambda>(m, ip). (tlv_mac_ip, m @ ip4_bytes ip)) as @ ts) a =
   apply_list ts (a\<lparr>an_addresses := an_addresses a @ map (\<lambda>(m, ip). (m, ip4_bytes ip)) as\<rparr>)"
proof (induction as arbitrary: a)
  case Nil
  then show ?case by (simp add: same_field)
next
  case (Cons x as)
  then show ?case by (cases x) (auto simp: apply_tlv_def ip4_bytes_length)
qed

section \<open>No record is repeated\<close>

definition has_type :: "byte \<Rightarrow> (byte \<times> byte list) list \<Rightarrow> bool" where
  "has_type t ts \<longleftrightarrow> t \<in> set (map fst ts)"

lemma has_type_simps [simp]:
  "\<not> has_type t []" "has_type t (p # ts) \<longleftrightarrow> t = fst p \<or> has_type t ts" "has_type t (ts @ us) \<longleftrightarrow> has_type t ts \<or> has_type t us"
  by (auto simp: has_type_def)

lemma has_type_record [simp]:
  "t' \<noteq> t \<Longrightarrow> \<not> has_type t' (text_tlv t s)" "t' \<noteq> t \<Longrightarrow> \<not> has_type t' (put_some g t x)"
  "t' \<noteq> t \<Longrightarrow> \<not> has_type t' (put_if b t v)"
  "t' \<noteq> tlv_mac_ip \<Longrightarrow> \<not> has_type t' (map (\<lambda>(m, ip). (tlv_mac_ip, m @ ip4_bytes ip)) as)"
  by (auto simp: has_type_def text_tlv_def put_if_def put_some_def split: option.splits)

lemma distinct_record:
  assumes "map fst seg = [] \<or> map fst seg = [t]" "\<not> has_type t ts" "distinct_tlvs ts"
  shows "distinct_tlvs (seg @ ts)"
  using assms by (auto simp: distinct_tlvs_def has_type_def simp del: set_map)

lemma distinct_text: "\<not> has_type t ts \<Longrightarrow> distinct_tlvs ts \<Longrightarrow> distinct_tlvs (text_tlv t s @ ts)"
  by (rule distinct_record) (auto simp: text_tlv_def put_if_def)

lemma distinct_some: "\<not> has_type t ts \<Longrightarrow> distinct_tlvs ts \<Longrightarrow> distinct_tlvs (put_some g t x @ ts)"
  by (rule distinct_record) (auto simp: put_some_def split: option.split)

lemma distinct_if: "\<not> has_type t ts \<Longrightarrow> distinct_tlvs ts \<Longrightarrow> distinct_tlvs (put_if b t v @ ts)"
  by (rule distinct_record) (auto simp: put_if_def)

lemma distinct_one: "\<not> has_type t ts \<Longrightarrow> distinct_tlvs ts \<Longrightarrow> distinct_tlvs ((t, v) # ts)"
  using distinct_record [of "[(t, v)]" t ts] by simp

lemma repeatable: "\<not> singleton_tlv tlv_mac_ip"
  by (simp add: singleton_tlv_def)

lemma distinct_addresses: "distinct_tlvs (map (\<lambda>(m, ip). (tlv_mac_ip, m @ ip4_bytes ip)) as @ ts) = distinct_tlvs ts"
  by (induction as) (simp_all add: distinct_tlvs_def repeatable split_beta)

lemma distinct_last: "distinct_tlvs (put_some g t x)"
  by (simp add: distinct_tlvs_def put_some_def split: option.split)

lemmas distinct_records = distinct_text distinct_some distinct_if distinct_one distinct_last

lemma no_records [simp]: "text_tlv t [] = []" "put_some g t None = []"
  by (simp_all add: text_tlv_def put_if_def put_some_def)

lemma distinct_tlvs_tlvs: "distinct_tlvs (tlvs a)"
proof (cases "an_version a = v2")
  case True
  show ?thesis
  proof (cases "an_controller_first a")
    case True
    then show ?thesis using \<open>an_version a = v2\<close>
      by (simp add: tlvs_def tlvs_v2_def distinct_addresses distinct_records)
  next
    case False
    then show ?thesis using \<open>an_version a = v2\<close>
      by (simp add: tlvs_def tlvs_v2_def distinct_addresses distinct_records)
  qed
next
  case False
  then show ?thesis by (simp add: tlvs_def distinct_addresses distinct_records)
qed

section \<open>The round trip\<close>

text \<open>
  What of an announcement is on the wire: the addresses in four bytes, the fields of version 2
  only there; the order flag is not.
\<close>

definition canonical :: "announcement \<Rightarrow> announcement" where
  "canonical a =
     (let new = (an_version a = v2) in
      a\<lparr>an_addresses := map (\<lambda>(m, ip). (m, ip4_bytes ip)) (an_addresses a),
        an_ipv4 := map_option ip4_bytes (an_ipv4 a), an_netmask := map_option ip4_bytes (an_netmask a),
        an_controller_first := False,
        an_sequence := (if new then an_sequence a else 0), an_source_mac := (if new then an_source_mac a else []),
        an_model := (if new then an_model a else []), an_version_text := (if new then an_version_text a else []),
        an_controller := (if new then an_controller a else None), an_profile := (if new then an_profile a else None),
        an_field2c := (if new then an_field2c a else None), an_field2d := (if new then an_field2d a else None)\<rparr>)"

text \<open>What the validation gives the proof.\<close>

definition ready_to_send :: "announcement \<Rightarrow> bool" where
  "ready_to_send a \<longleftrightarrow>
     supported_version (an_version a) \<and> length (an_mac a) = 6 \<and> length (an_addresses a) \<le> 16 \<and>
     (\<forall>(m, ip) \<in> set (an_addresses a). length m = 6 \<and> to4 ip \<noteq> None) \<and> validate_texts a \<and>
     (\<forall>q. an_netmask a = Some q \<longrightarrow> to4 q \<noteq> None) \<and> (\<forall>q. an_ipv4 a = Some q \<longrightarrow> to4 q \<noteq> None) \<and>
     (\<forall>m. an_device_mac a = Some m \<longrightarrow> length m = 6) \<and> (an_version a = v2 \<longrightarrow> length (an_source_mac a) = 6)"

lemma scan_addresses_Inr:
  "scan_addresses mac primary as matched = Inr b \<Longrightarrow> \<forall>(m, ip) \<in> set as. length m = 6 \<and> to4 ip \<noteq> None"
proof (induction as arbitrary: matched)
  case (Cons p as)
  obtain m ip where p: "p = (m, ip)" by (cases p)
  obtain matched' where rest: "discovery_mac m" "to4 ip \<noteq> None" "scan_addresses mac primary as matched' = Inr b"
    using Cons.prems unfolding p scan_addresses.simps guard_Inr by blast
  from Cons.IH [OF rest(3)] show ?case using rest(1,2) by (auto simp: p discovery_mac_length)
qed simp

lemma validated_ready:
  assumes "validate_identity a = Inr ()"
  shows "ready_to_send a"
proof -
  have v: "supported_version (an_version a)" "discovery_mac (an_mac a)" "length (an_addresses a) \<le> 16"
      "\<exists>b. scan_addresses (an_mac a) (an_ipv4 a) (an_addresses a) False = Inr b" "validate_texts a"
      "\<not> (an_netmask a \<noteq> None \<and> to4 (the (an_netmask a)) = None)" "\<not> (an_ipv4 a \<noteq> None \<and> to4 (the (an_ipv4 a)) = None)"
      "\<not> (an_device_mac a \<noteq> None \<and> \<not> discovery_mac (the (an_device_mac a)))"
      "\<not> (an_version a = v2 \<and> \<not> discovery_mac (an_source_mac a))"
    using assms unfolding validate_identity_def guard_Inr bind_unit bind_Inr discovery_mac_def not_not de_Morgan_disj not_less by blast+
  have six: "discovery_mac m \<Longrightarrow> length m = 6" for m by (rule discovery_mac_length)
  obtain b where "scan_addresses (an_mac a) (an_ipv4 a) (an_addresses a) False = Inr b" using v(4) by blast
  from scan_addresses_Inr [OF this]
  have "\<forall>(m, ip) \<in> set (an_addresses a). length m = 6 \<and> to4 ip \<noteq> None" .
  moreover have "\<forall>q. an_netmask a = Some q \<longrightarrow> to4 q \<noteq> None" "\<forall>q. an_ipv4 a = Some q \<longrightarrow> to4 q \<noteq> None"
    using v(6,7) by force+
  moreover have "\<forall>m. an_device_mac a = Some m \<longrightarrow> length m = 6" using v(8) six by force
  ultimately show ?thesis unfolding ready_to_send_def using v(1,2,3,5,9) six by blast
qed

text \<open>Every record is shorter than the body.\<close>

lemma tlv_shorter: "(t, v) \<in> set ts \<Longrightarrow> length v < length (concat (map (\<lambda>(t, v). append_tlv t v) ts))"
  by (induction ts) (auto simp: append_tlv_def)

lemma texts_of: "ready_to_send a \<Longrightarrow> valid_ascii (an_firmware a) 1024 \<and> valid_ascii (an_hostname a) 1024 \<and>
    valid_ascii (an_platform a) 1024 \<and> valid_ascii (an_hardware a) 1024 \<and> valid_ascii (an_essid a) 1024 \<and>
    valid_ascii (an_model a) 1024 \<and> valid_ascii (an_version_text a) 1024"
  by (simp add: ready_to_send_def validate_texts_def)

lemmas put_records = put_model put_platform put_hardware put_hostname put_firmware put_essid put_version_text put_uptime
  put_board put_default put_field2d put_field2c put_device_mac put_hash put_anon put_profile put_controller put_ipv4
  put_netmask put_wmode put_addresses

lemma single_records:
  "length v = 6 \<Longrightarrow> apply_list ((tlv_mac, v) # ts) a = apply_list ts (a\<lparr>an_mac := v\<rparr>)"
  "an_version a = v2 \<Longrightarrow> apply_list ((tlv_sequence, put_u32 n) # ts) a = apply_list ts (a\<lparr>an_sequence := n\<rparr>)"
  "an_version a = v2 \<Longrightarrow> length v = 6 \<Longrightarrow> apply_list ((tlv_source_mac, v) # ts) a = apply_list ts (a\<lparr>an_source_mac := v\<rparr>)"
  by (simp_all add: apply_tlv_def)

lemma arrays: "arrays_ok a \<Longrightarrow> an_hash a = Some x \<Longrightarrow> length x = 8"
  "arrays_ok a \<Longrightarrow> an_anon a = Some x \<Longrightarrow> length x = 16"
  "arrays_ok a \<Longrightarrow> an_profile a = Some x \<Longrightarrow> length x = 16"
  "arrays_ok a \<Longrightarrow> an_controller a = Some x \<Longrightarrow> length x = 16"
  by (auto simp: arrays_ok_def)

lemma apply_tlvs_v2:
  assumes "ready_to_send a" "arrays_ok a" "an_version a = v2"
  shows "apply_list (tlvs a) (empty_announcement v2 (an_command a)) = Inr (canonical a)"
proof (cases "an_controller_first a")
  case True
  show ?thesis
    using texts_of [OF assms(1)] arrays [OF assms(2)] assms(1,3) True
    unfolding tlvs_def tlvs_v2_def append_assoc append_Cons append_Nil
    by (simp add: put_records single_records empty_announcement_def ready_to_send_def canonical_def del: apply_list.simps(2))
next
  case False
  show ?thesis
    using texts_of [OF assms(1)] arrays [OF assms(2)] assms(1,3) False
    unfolding tlvs_def tlvs_v2_def append_assoc append_Cons append_Nil
    by (simp add: put_records single_records empty_announcement_def ready_to_send_def canonical_def del: apply_list.simps(2))
qed

text \<open>Version 1 has no controller identity on the wire; \<open>Marshal\<close> emits it only with the order flag.\<close>

definition controller_fits :: "announcement \<Rightarrow> bool" where
  "controller_fits a \<longleftrightarrow> an_version a = v2 \<or> \<not> an_controller_first a \<or> an_controller a = None"

lemma apply_tlvs_v1:
  assumes "ready_to_send a" "arrays_ok a" "an_version a = v1" "controller_fits a"
  shows "apply_list (tlvs a) (empty_announcement v1 (an_command a)) = Inr (canonical a)"
proof -
  have no: "(if an_controller_first a then an_controller a else None) = None"
    using assms(3,4) by (auto simp: controller_fits_def)
  have old: "an_version a \<noteq> v2" using assms(3) by simp
  show ?thesis
    using texts_of [OF assms(1)] arrays [OF assms(2)] assms(1,3)
    unfolding tlvs_def append_assoc append_Cons append_Nil no if_not_P [OF old]
    by (simp add: put_records single_records empty_announcement_def ready_to_send_def canonical_def del: apply_list.simps(2))
qed

lemma apply_tlvs:
  assumes "ready_to_send a" "arrays_ok a" "controller_fits a"
  shows "apply_list (tlvs a) (empty_announcement (an_version a) (an_command a)) = Inr (canonical a)"
proof -
  have "an_version a = v1 \<or> an_version a = v2" using assms(1) by (simp add: ready_to_send_def supported_version_def)
  then show ?thesis using apply_tlvs_v1 [OF assms(1,2) _ assms(3)] apply_tlvs_v2 [OF assms(1,2)] by auto
qed

text \<open>The datagram.\<close>

lemma marshal_Inr:
  assumes "marshal_announcement a = Inr packet"
  obtains body where "body = concat (map (\<lambda>(t, v). append_tlv t v) (tlvs a))" "length body \<le> 8188"
    "packet = [an_version a, an_command a] @ put_u16 (of_nat (length body)) @ body" "validate_identity a = Inr ()"
  using assms unfolding marshal_announcement_def bind_Inr Let_def guard_Inr max_datagram_def
  by (auto simp: not_less)

lemma parse_datagram:
  assumes "supported_version v" "length body \<le> 8188"
  shows "parse_announcement ([v, c] @ put_u16 (of_nat (length body)) @ body) = parse_tlvs body {} (empty_announcement v c)"
proof -
  let ?p = "[v, c] @ put_u16 (of_nat (length body)) @ body"
  have n: "length ?p = 4 + length body" by simp
  have f: "unat (get_u16 (sub_bytes 2 4 ?p)) = length body"
    using assms(2) by (simp add: sub_bytes_def) (simp add: unat_of_nat)
  have d: "drop 4 ?p = body" "?p ! 0 = v" "?p ! 1 = c" by simp_all
  show ?thesis
    unfolding parse_announcement_def max_datagram_def guard_def d f n using assms by simp
qed

lemma tlvs_short:
  assumes "length (concat (map (\<lambda>(t, v). append_tlv t v) ts)) \<le> 8188"
  shows "\<forall>(t, v) \<in> set ts. length v < 65536"
  using assms tlv_shorter by fastforce

lemma marshal_parse:
  assumes "marshal_announcement a = Inr packet" "arrays_ok a"
  shows "parse_announcement packet = apply_list (tlvs a) (empty_announcement (an_version a) (an_command a))"
proof -
  obtain body where b: "body = concat (map (\<lambda>(t, v). append_tlv t v) (tlvs a))" "length body \<le> 8188"
    "packet = [an_version a, an_command a] @ put_u16 (of_nat (length body)) @ body" "validate_identity a = Inr ()"
    using marshal_Inr [OF assms(1)] .
  have "supported_version (an_version a)" using validated_ready [OF b(4)] by (simp add: ready_to_send_def)
  from parse_datagram [OF this b(2)] have "parse_announcement packet = parse_tlvs body {} (empty_announcement (an_version a) (an_command a))"
    by (simp only: b(3))
  also have "\<dots> = apply_list (tlvs a) (empty_announcement (an_version a) (an_command a))"
    unfolding b(1) by (rule parse_tlvs_list) (use tlvs_short b(1,2) distinct_tlvs_tlvs in auto)
  finally show ?thesis .
qed

lemma discovery_roundtrip:
  assumes "marshal_announcement a = Inr packet" "arrays_ok a" "controller_fits a"
  shows "parse_announcement packet = Inr (canonical a)"
proof -
  have "ready_to_send a" using assms(1) by (rule marshal_Inr) (rule validated_ready)
  from apply_tlvs [OF this assms(2,3)] show ?thesis using marshal_parse [OF assms(1,2)] by simp
qed

text \<open>
  The case \<open>controller_fits\<close> leaves out: a version 1 announcement whose controller identity
  goes first is marshalled with a record the parser refuses.
\<close>

lemma v1_controller_unreadable:
  assumes "marshal_announcement a = Inr packet" "arrays_ok a" "an_version a = v1" "an_controller_first a" "an_controller a = Some c"
  shows "parse_announcement packet = Inl ''discovery: invalid controller-UUID TLV''"
proof -
  have r: "ready_to_send a" using assms(1) by (rule marshal_Inr) (rule validated_ready)
  have old: "an_version a \<noteq> v2" using assms(3) by simp
  have refused: "apply_list ((tlv_controller, c) # ts) b = Inl ''discovery: invalid controller-UUID TLV''" if "an_version b \<noteq> v2" for ts b
    using that by (simp add: apply_tlv_def guard_def)
  show ?thesis
    using texts_of [OF r] arrays [OF assms(2)] r assms(3) marshal_parse [OF assms(1,2)]
    unfolding tlvs_def append_assoc append_Cons append_Nil if_not_P [OF old] if_P [OF assms(4)] assms(5)
    by (simp add: put_records single_records refused put_some_def [of _ tlv_controller "Some c"] empty_announcement_def ready_to_send_def
        del: apply_list.simps(2))
qed

section \<open>What the parser returns\<close>

definition announcement_ok :: "announcement \<Rightarrow> bool" where
  "announcement_ok a \<longleftrightarrow>
     supported_version (an_version a) \<and> (an_mac a = [] \<or> length (an_mac a) = 6) \<and> length (an_addresses a) \<le> 16 \<and>
     list_all (\<lambda>(m, ip). length m = 6 \<and> length ip = 4) (an_addresses a) \<and> validate_texts a \<and> arrays_ok a \<and>
     pred_option (\<lambda>q. length q = 4) (an_ipv4 a) \<and> pred_option (\<lambda>q. length q = 4) (an_netmask a) \<and>
     pred_option (\<lambda>m. length m = 6) (an_device_mac a) \<and> \<not> an_controller_first a \<and>
     (an_version a = v2 \<and> (an_source_mac a = [] \<or> length (an_source_mac a) = 6) \<or>
      an_version a = v1 \<and> an_sequence a = 0 \<and> an_source_mac a = [] \<and> an_model a = [] \<and> an_version_text a = [] \<and>
      an_controller a = None \<and> an_profile a = None \<and> an_field2c a = None \<and> an_field2d a = None)"

lemma empty_announcement_ok: "supported_version v \<Longrightarrow> announcement_ok (empty_announcement v c)"
  by (auto simp: announcement_ok_def empty_announcement_def arrays_ok_def validate_texts_def valid_ascii_def supported_version_def)

text \<open>Storing a record of the right width keeps the announcement well formed.\<close>

lemma stored_ok:
  "announcement_ok a \<Longrightarrow> length v = 6 \<Longrightarrow> announcement_ok (a\<lparr>an_mac := v\<rparr>)"
  "announcement_ok a \<Longrightarrow> length v = 4 \<Longrightarrow> announcement_ok (a\<lparr>an_ipv4 := Some v\<rparr>)"
  "announcement_ok a \<Longrightarrow> length v = 4 \<Longrightarrow> announcement_ok (a\<lparr>an_netmask := Some v\<rparr>)"
  "announcement_ok a \<Longrightarrow> length v = 6 \<Longrightarrow> announcement_ok (a\<lparr>an_device_mac := Some v\<rparr>)"
  "announcement_ok a \<Longrightarrow> announcement_ok (a\<lparr>an_uptime := Some n\<rparr>)"
  "announcement_ok a \<Longrightarrow> announcement_ok (a\<lparr>an_wmode := w\<rparr>)"
  "announcement_ok a \<Longrightarrow> announcement_ok (a\<lparr>an_board := Some b\<rparr>)"
  "announcement_ok a \<Longrightarrow> announcement_ok (a\<lparr>an_default := Some d\<rparr>)"
  "announcement_ok a \<Longrightarrow> length v = 8 \<Longrightarrow> announcement_ok (a\<lparr>an_hash := Some v\<rparr>)"
  "announcement_ok a \<Longrightarrow> length v = 16 \<Longrightarrow> announcement_ok (a\<lparr>an_anon := Some v\<rparr>)"
  "announcement_ok a \<Longrightarrow> valid_ascii s 1024 \<Longrightarrow> announcement_ok (a\<lparr>an_firmware := s\<rparr>)"
  "announcement_ok a \<Longrightarrow> valid_ascii s 1024 \<Longrightarrow> announcement_ok (a\<lparr>an_hostname := s\<rparr>)"
  "announcement_ok a \<Longrightarrow> valid_ascii s 1024 \<Longrightarrow> announcement_ok (a\<lparr>an_platform := s\<rparr>)"
  "announcement_ok a \<Longrightarrow> valid_ascii s 1024 \<Longrightarrow> announcement_ok (a\<lparr>an_hardware := s\<rparr>)"
  "announcement_ok a \<Longrightarrow> valid_ascii s 1024 \<Longrightarrow> announcement_ok (a\<lparr>an_essid := s\<rparr>)"
  "announcement_ok a \<Longrightarrow> length v = 10 \<Longrightarrow> length (an_addresses a) < 16 \<Longrightarrow>
   announcement_ok (a\<lparr>an_addresses := an_addresses a @ [(take 6 v, drop 6 v)]\<rparr>)"
  unfolding announcement_ok_def validate_texts_def arrays_ok_def by simp_all

lemma stored_v2_ok:
  "announcement_ok a \<Longrightarrow> an_version a = v2 \<Longrightarrow> announcement_ok (a\<lparr>an_sequence := n\<rparr>)"
  "announcement_ok a \<Longrightarrow> an_version a = v2 \<Longrightarrow> length v = 6 \<Longrightarrow> announcement_ok (a\<lparr>an_source_mac := v\<rparr>)"
  "announcement_ok a \<Longrightarrow> an_version a = v2 \<Longrightarrow> valid_ascii s 1024 \<Longrightarrow> announcement_ok (a\<lparr>an_model := s\<rparr>)"
  "announcement_ok a \<Longrightarrow> an_version a = v2 \<Longrightarrow> valid_ascii s 1024 \<Longrightarrow> announcement_ok (a\<lparr>an_version_text := s\<rparr>)"
  "announcement_ok a \<Longrightarrow> an_version a = v2 \<Longrightarrow> length v = 16 \<Longrightarrow> announcement_ok (a\<lparr>an_controller := Some v\<rparr>)"
  "announcement_ok a \<Longrightarrow> an_version a = v2 \<Longrightarrow> length v = 16 \<Longrightarrow> announcement_ok (a\<lparr>an_profile := Some v\<rparr>)"
  "announcement_ok a \<Longrightarrow> an_version a = v2 \<Longrightarrow> announcement_ok (a\<lparr>an_field2c := Some c\<rparr>)"
  "announcement_ok a \<Longrightarrow> an_version a = v2 \<Longrightarrow> announcement_ok (a\<lparr>an_field2d := Some n\<rparr>)"
  unfolding announcement_ok_def validate_texts_def arrays_ok_def by simp_all

text \<open>The branches one by one, each with its guard.\<close>

lemma branchE: "(if c then x else y) = z \<Longrightarrow> (x = z \<Longrightarrow> P) \<Longrightarrow> (y = z \<Longrightarrow> P) \<Longrightarrow> P"
  by (auto split: if_splits)

lemma guardE: "guard c e (Inr x) = Inr y \<Longrightarrow> (\<not> c \<Longrightarrow> y = x \<Longrightarrow> P) \<Longrightarrow> P"
  by (simp add: guard_Inr)

lemma apply_tlv_ok:
  assumes "apply_tlv t v a = Inr a'" "announcement_ok a"
  shows "announcement_ok a'"
  using assms(1) unfolding apply_tlv_def Let_def
  by (elim branchE guardE)
    (simp_all add: assms(2) stored_ok stored_v2_ok ascii_value_def not_le, use assms(2) in simp)

lemma parse_tlvs_ok: "parse_tlvs body seen a = Inr a' \<Longrightarrow> announcement_ok a \<Longrightarrow> announcement_ok a'"
proof (induction body seen a rule: parse_tlvs.induct)
  case (1 body seen a)
  show ?case
    using 1(2) unfolding parse_tlvs.simps [of body seen a] Let_def
    using 1(1) [OF _ _ refl refl] 1(3) apply_tlv_ok
    by (auto split: if_splits sum.splits)
qed

lemma parse_announcement_ok:
  assumes "parse_announcement packet = Inr a"
  shows "announcement_ok a"
  using assms parse_tlvs_ok [OF _ empty_announcement_ok] unfolding parse_announcement_def guard_Inr by blast

lemma ip4_bytes_of4: "length q = 4 \<Longrightarrow> ip4_bytes q = q"
  by (simp add: ip4_bytes_def to4_def)

lemma canonical_parsed:
  assumes "announcement_ok a"
  shows "canonical a = a"
proof -
  have "map (\<lambda>(m, ip). (m, ip4_bytes ip)) (an_addresses a) = an_addresses a"
    by (rule map_idI) (use assms in \<open>auto simp: announcement_ok_def list_all_iff ip4_bytes_of4\<close>)
  moreover have "map_option ip4_bytes (an_ipv4 a) = an_ipv4 a" "map_option ip4_bytes (an_netmask a) = an_netmask a"
    using assms by (cases "an_ipv4 a"; cases "an_netmask a"; simp add: announcement_ok_def ip4_bytes_of4)+
  ultimately show ?thesis using assms by (auto simp: canonical_def Let_def announcement_ok_def same_field)
qed

end
