(* ===== verification/DiscoveryService.thy ===== *)
theory DiscoveryService
  imports DiscoveryFacts LocalNetwork
begin

text \<open>
  The fingerprints of the two devices (\<open>uspda2c.go\<close>, \<open>uswda26.go\<close>) and the two services of
  \<open>service.go\<close>: the announcer that broadcasts a template and the responder that answers probes.
  The mutex of each makes the step over its sequence counter atomic; what a socket reports is
  an argument.
\<close>

section \<open>Fingerprints\<close>

definition uspda2c_platform :: string where "uspda2c_platform = ''esp32s3''"
definition uspda2c_hardware :: string where "uspda2c_hardware = ''ESP32-S3''"
definition uspda2c_model :: string where "uspda2c_model = ''UPSPROEU''"
definition uspda2c_version :: string where "uspda2c_version = ''1.6.1.4933''"
definition uspda2c_board :: u16 where "uspda2c_board = 0xDA2C"
definition uspda2c_field2d :: u32 where "uspda2c_field2d = 2"

definition uswda26_platform :: string where "uswda26_platform = ''UPS26''"
definition uswda26_hardware :: string where "uswda26_hardware = ''UPS 2U''"
definition uswda26_model :: string where "uswda26_model = ''UPS26''"
definition uswda26_firmware :: string where "uswda26_firmware = ''UPS2U.esp32.v1.6.1.g5457.260723.0556''"
definition uswda26_version :: string where "uswda26_version = ''1.6.1.413''"
definition uswda26_board :: u16 where "uswda26_board = 0xDA26"
definition uswda26_field2c :: byte where "uswda26_field2c = 3"
definition uswda26_field2d :: u32 where "uswda26_field2d = 2"
definition uswda26_profile :: "byte list" where
  "uswda26_profile = [0x31, 0x78, 0x75, 0xCA, 0xAD, 0x3E, 0x47, 0xE9, 0x94, 0x30, 0x47, 0xE3, 0xE2, 0xE1, 0xAB, 0x3D]"

text \<open>The dynamic fields, the same for both devices.\<close>

record discovery_identity =
  fi_mac :: "byte list"
  fi_ip :: "byte list"
  fi_hostname :: string
  fi_uptime :: u32
  fi_sequence :: u32
  fi_default :: bool
  fi_hash :: "byte list"
  fi_anon :: "byte list"
  fi_controller :: "byte list option"

definition new_uspda2c :: "discovery_identity \<Rightarrow> (string, announcement) result" where
  "new_uspda2c i =
     bind (check_mac (fi_mac i)) (\<lambda>_.
     case to4 (fi_ip i) of
       None \<Rightarrow> Inl ''discovery: USPDA2C requires IPv4''
     | Some ip \<Rightarrow>
         guard (\<not> valid_ascii (fi_hostname i) 63 \<or> fi_hostname i = []) ''discovery: USPDA2C requires a valid hostname'' (
         guard (fi_sequence i = 0) ''discovery: USPDA2C sequence must be nonzero'' (
         guard (zero_bytes (fi_hash i) \<or> zero_bytes (fi_anon i)) ''discovery: USPDA2C opaque identities must be nonzero'' (
         let a = (empty_announcement v2 command_announcement)\<lparr>
               an_mac := fi_mac i, an_device_mac := Some (fi_mac i), an_addresses := [(fi_mac i, ip)], an_ipv4 := Some ip,
               an_firmware := uspda2c_version, an_uptime := Some (fi_uptime i), an_hostname := fi_hostname i,
               an_platform := uspda2c_platform, an_hardware := uspda2c_hardware, an_board := Some uspda2c_board,
               an_sequence := fi_sequence i, an_source_mac := fi_mac i, an_model := uspda2c_model,
               an_version_text := uspda2c_version, an_default := Some (fi_default i), an_hash := Some (fi_hash i),
               an_anon := Some (fi_anon i), an_field2d := Some uspda2c_field2d, an_controller := fi_controller i\<rparr>
         in bind (validate_identity a) (\<lambda>_. Inr a)))))"

definition new_uswda26 :: "discovery_identity \<Rightarrow> (string, announcement) result" where
  "new_uswda26 i =
     bind (check_mac (fi_mac i)) (\<lambda>_.
     case to4 (fi_ip i) of
       None \<Rightarrow> Inl ''discovery: USWDA26 requires IPv4''
     | Some ip \<Rightarrow>
         guard (\<not> valid_ascii (fi_hostname i) 63 \<or> fi_hostname i = []) ''discovery: USWDA26 requires a valid hostname'' (
         guard (fi_sequence i = 0) ''discovery: USWDA26 sequence must be nonzero'' (
         guard (zero_bytes (fi_hash i) \<or> zero_bytes (fi_anon i)) ''discovery: USWDA26 opaque identities must be nonzero'' (
         let a = (empty_announcement v2 command_announcement)\<lparr>
               an_mac := fi_mac i, an_device_mac := Some (fi_mac i), an_addresses := [(fi_mac i, ip)], an_ipv4 := Some ip,
               an_firmware := uswda26_firmware, an_uptime := Some (fi_uptime i), an_hostname := fi_hostname i,
               an_platform := uswda26_platform, an_hardware := uswda26_hardware, an_board := Some uswda26_board,
               an_sequence := fi_sequence i, an_source_mac := fi_mac i, an_model := uswda26_model,
               an_version_text := uswda26_version, an_default := Some (fi_default i), an_hash := Some (fi_hash i),
               an_anon := Some (fi_anon i), an_profile := Some uswda26_profile, an_field2c := Some uswda26_field2c,
               an_field2d := Some uswda26_field2d, an_controller := fi_controller i,
               an_controller_first := (fi_controller i \<noteq> None)\<rparr>
         in bind (validate_identity a) (\<lambda>_. Inr a)))))"

section \<open>Destinations and sources\<close>

text \<open>A \<open>net.Addr\<close>: a UDP address, or one of another kind.\<close>

datatype net_addr = Udp "byte list" int | OtherAddr

definition discovery_port :: int where "discovery_port = 10001"

definition default_destinations :: "net_addr list" where
  "default_destinations = [Udp [255, 255, 255, 255] discovery_port]"

definition destination_ok :: "net_addr \<Rightarrow> bool" where
  "destination_ok d = (case d of Udp ip port \<Rightarrow> \<not> (to4 ip = None \<or> port \<noteq> discovery_port) | OtherAddr \<Rightarrow> False)"

definition private4 :: "byte list \<Rightarrow> bool" where
  "private4 q \<longleftrightarrow> q ! 0 = 10 \<or> q ! 0 = 172 \<and> and (q ! 1) 0xF0 = 16 \<or> q ! 0 = 192 \<and> q ! 1 = 168"

definition private_source :: "net_addr \<Rightarrow> bool" where
  "private_source source =
     (case source of
        Udp ip port \<Rightarrow>
          (case to4 ip of
             None \<Rightarrow> False
           | Some q \<Rightarrow> \<not> port < 1 \<and> (private4 q \<or> loopback4 q \<or> link_local4 q))
      | OtherAddr \<Rightarrow> False)"

text \<open>The copy of a template: an empty slice becomes nil.\<close>

definition nil_if_empty :: "byte list option \<Rightarrow> byte list option" where
  "nil_if_empty x = (if x = Some [] then None else x)"

definition clone_announcement :: "announcement \<Rightarrow> announcement" where
  "clone_announcement a =
     a\<lparr>an_netmask := nil_if_empty (an_netmask a), an_ipv4 := nil_if_empty (an_ipv4 a),
       an_device_mac := nil_if_empty (an_device_mac a)\<rparr>"

section \<open>The announcer\<close>

record announcer =
  ac_template :: announcement
  ac_destinations :: "net_addr list"
  ac_next :: u32

definition new_announcer :: "announcement \<Rightarrow> net_addr list \<Rightarrow> (string, announcer) result" where
  "new_announcer template destinations =
     (let ds = (if destinations = [] then default_destinations else destinations);
          t = (if an_sequence template = 0 then template\<lparr>an_sequence := 1\<rparr> else template)
      in guard (\<not> list_all destination_ok ds) ''discovery: destination must be IPv4 UDP port 10001'' (
         guard (an_command template \<noteq> command_announcement) ''discovery: announcer requires command 6'' (
         guard (an_version template \<noteq> v2) ''discovery: announcer requires version 2'' (
         bind (validate_identity t) (\<lambda>_.
         Inr \<lparr>ac_template = clone_announcement t, ac_destinations = ds, ac_next = an_sequence t\<rparr>)))))"

text \<open>One write: the socket failed, or took so many bytes.\<close>

definition write_failure :: "int option \<Rightarrow> byte list \<Rightarrow> string list" where
  "write_failure w packet =
     (case w of
        None \<Rightarrow> [''discovery: announce write failed'']
      | Some n \<Rightarrow> if n \<noteq> int (length packet) then [''short write''] else [])"

text \<open>
  \<open>Announce\<close>: the joined failures (none is success), the datagrams sent, and the announcer
  with its counter advanced.  \<open>w i\<close> is the outcome of the i-th write.
\<close>

definition announce :: "(nat \<Rightarrow> int option) \<Rightarrow> announcer \<Rightarrow> string list \<times> (byte list \<times> net_addr) list \<times> announcer" where
  "announce w a =
     (let t = clone_announcement (ac_template a); new = (an_version t = v2) in
      if new \<and> ac_next a = 0 then ([''discovery: announcement sequence exhausted''], [], a)
      else
        let t' = (if new then t\<lparr>an_sequence := ac_next a\<rparr> else t);
            a' = (if new then a\<lparr>ac_next := ac_next a + 1\<rparr> else a)
        in case marshal_announcement t' of
             Inl e \<Rightarrow> ([e], [], a')
           | Inr packet \<Rightarrow>
               (concat (map (\<lambda>i. write_failure (w i) packet) [0..<length (ac_destinations a)]),
                map (\<lambda>d. (packet, d)) (ac_destinations a), a'))"

text \<open>\<open>Run\<close>: at once and then at each tick, until a failure; one function of outcomes per tick.\<close>

fun announcer_ticks :: "(nat \<Rightarrow> int option) list \<Rightarrow> announcer \<Rightarrow> string list \<times> (byte list \<times> net_addr) list \<times> announcer" where
  "announcer_ticks [] a = ([], [], a)"
| "announcer_ticks (w # ws) a =
     (case announce w a of
        (failures, sent, a') \<Rightarrow>
          if failures \<noteq> [] then (failures, sent, a')
          else case announcer_ticks ws a' of (failures', sent', a'') \<Rightarrow> (failures', sent @ sent', a''))"

definition announcer_run :: "int \<Rightarrow> (nat \<Rightarrow> int option) \<Rightarrow> (nat \<Rightarrow> int option) list \<Rightarrow> announcer \<Rightarrow>
    string list \<times> (byte list \<times> net_addr) list \<times> announcer" where
  "announcer_run interval w ws a =
     (if interval \<le> 0 then ([''discovery: announcement interval must be positive''], [], a)
      else announcer_ticks (w # ws) a)"

section \<open>The responder\<close>

record responder =
  rs_template :: announcement
  rs_next :: u32

definition new_responder :: "announcement \<Rightarrow> (string, responder) result" where
  "new_responder template =
     (let t = template\<lparr>an_version := v2, an_sequence := (if an_sequence template = 0 then 1 else an_sequence template)\<rparr>
      in bind (validate_identity t) (\<lambda>_. Inr \<lparr>rs_template = clone_announcement t, rs_next = an_sequence t\<rparr>))"

text \<open>\<open>ResponseFor\<close>: None is a request that is not handled.\<close>

definition response_for :: "byte list \<Rightarrow> responder \<Rightarrow> (string, byte list option) result \<times> responder" where
  "response_for request r =
     (case parse_announcement request of
        Inl e \<Rightarrow> (Inl e, r)
      | Inr parsed \<Rightarrow>
          if an_command parsed \<noteq> command_discover \<or> length request \<noteq> 4 then (Inr None, r)
          else
            let t = (clone_announcement (rs_template r))\<lparr>an_version := an_version parsed, an_command := command_discover\<rparr>;
                new = (an_version t = v2)
            in if new \<and> rs_next r = 0 then (Inl ''discovery: response sequence exhausted'', r)
               else
                 let t' = (if new then t\<lparr>an_sequence := rs_next r\<rparr> else t);
                     r' = (if new then r\<lparr>rs_next := rs_next r + 1\<rparr> else r)
                 in case marshal_announcement t' of
                      Inl e \<Rightarrow> (Inl e, r')
                    | Inr packet \<Rightarrow> (Inr (Some packet), r'))"

text \<open>One datagram of \<open>Serve\<close>, and the answers over a run of them.\<close>

definition serve_datagram :: "byte list \<Rightarrow> net_addr \<Rightarrow> responder \<Rightarrow> byte list option \<times> responder" where
  "serve_datagram request source r =
     (if max_datagram < length request \<or> \<not> private_source source then (None, r)
      else case response_for request r of
        (Inl e, r') \<Rightarrow> (None, r')
      | (Inr answer, r') \<Rightarrow> (answer, r'))"

fun serve :: "(byte list \<times> net_addr) list \<Rightarrow> responder \<Rightarrow> byte list list \<times> responder" where
  "serve [] r = ([], r)"
| "serve ((request, source) # rest) r =
     (case serve_datagram request source r of
        (answer, r') \<Rightarrow>
          (case serve rest r' of (answers, r'') \<Rightarrow> ((case answer of None \<Rightarrow> answers | Some p \<Rightarrow> p # answers), r'')))"

end
