(* ===== verification/DiscoveryRuns.thy ===== *)
theory DiscoveryRuns
  imports DiscoveryService
begin

text \<open>
  A valid announcement always fits its datagram; the responder answers probes only, never its
  own answers; the sequence numbers on the wire increase.
\<close>

section \<open>Every valid announcement has a datagram\<close>

definition tlv_size :: "(byte \<times> byte list) list \<Rightarrow> nat" where
  "tlv_size ts = sum_list (map (\<lambda>(t, v). 3 + length v) ts)"

lemma length_tlvs: "length (concat (map (\<lambda>(t, v). append_tlv t v) ts)) = tlv_size ts"
  by (induction ts) (auto simp: tlv_size_def append_tlv_def)

lemma tlv_size_simps:
  "tlv_size [] = 0" "tlv_size ((t, v) # ts) = 3 + length v + tlv_size ts" "tlv_size (ts @ us) = tlv_size ts + tlv_size us"
  by (simp_all add: tlv_size_def)

lemma size_text: "valid_ascii s 1024 \<Longrightarrow> tlv_size (text_tlv t s) \<le> 1027"
  by (simp add: text_tlv_def put_if_def tlv_size_def valid_ascii_def)

lemma size_some: "(\<And>v. x = Some v \<Longrightarrow> length (f v) \<le> n) \<Longrightarrow> tlv_size (put_some f t x) \<le> 3 + n"
  by (cases x) (simp_all add: put_some_def tlv_size_def)

lemma size_if: "tlv_size (put_if b t v) \<le> 3 + length v"
  by (simp add: put_if_def tlv_size_def)

lemma size_addresses:
  "\<forall>(m, ip) \<in> set as. length m = 6 \<and> to4 ip \<noteq> None \<Longrightarrow>
   tlv_size (map (\<lambda>(m, ip). (tlv_mac_ip, m @ ip4_bytes ip)) as) = 13 * length as"
proof (induction as)
  case (Cons x as)
  then show ?case using ip4_bytes_length by (cases x) (simp add: tlv_size_def)
qed (simp add: tlv_size_def)

lemma size_fixed:
  "tlv_size (put_some put_u32 t n) \<le> 7" "tlv_size (put_some put_u16 t b) \<le> 5" "tlv_size (put_some (\<lambda>b. [g b]) t d) \<le> 4"
  using size_some [of n put_u32 4 t] size_some [of b put_u16 2 t] size_some [of d "\<lambda>b. [g b]" 1 t] by simp_all

lemma size_array: "(\<And>v. x = Some v \<Longrightarrow> length v \<le> 16) \<Longrightarrow> tlv_size (put_some (\<lambda>x. x) t x) \<le> 19"
  using size_some [of x "\<lambda>x. x" 16 t] by simp

lemma size_ip: "(\<And>v. x = Some v \<Longrightarrow> to4 v \<noteq> None) \<Longrightarrow> tlv_size (put_some ip4_bytes t x) \<le> 7"
  using size_some [of x ip4_bytes 4 t] by (simp add: ip4_bytes_length)

lemma tlvs_v2_size:
  assumes "ready_to_send a" "arrays_ok a" "an_version a = v2"
  shows "tlv_size (tlvs_v2 a) \<le> 1300"
proof -
  have "length (an_source_mac a) = 6" using assms(1,3) by (simp add: ready_to_send_def)
  moreover have "tlv_size (text_tlv tlv_version (an_version_text a)) \<le> 1027" using texts_of [OF assms(1)] size_text by blast
  moreover have "tlv_size (put_some (\<lambda>x. x) tlv_controller (if an_controller_first a then None else an_controller a)) \<le> 19"
    by (rule size_array) (use arrays(4) [OF assms(2)] in \<open>auto split: if_splits\<close>)
  moreover have "tlv_size (put_some (\<lambda>x. x) tlv_profile (an_profile a)) \<le> 19"
    by (rule size_array) (use arrays(3) [OF assms(2)] in auto)
  ultimately show ?thesis
    using size_fixed(1) [of tlv_field2d "an_field2d a"] size_fixed(3) [of "\<lambda>b. b" tlv_field2c "an_field2c a"]
    by (simp add: tlvs_v2_def tlv_size_simps)
qed

lemma tlvs_size:
  assumes "ready_to_send a" "arrays_ok a"
  shows "tlv_size (tlvs a) \<le> 8188"
proof -
  have texts: "tlv_size (text_tlv tlv_model (if an_version a = v2 then an_model a else [])) \<le> 1027"
      "tlv_size (text_tlv tlv_platform (an_platform a)) \<le> 1027" "tlv_size (text_tlv tlv_hardware (an_hardware a)) \<le> 1027"
      "tlv_size (text_tlv tlv_hostname (an_hostname a)) \<le> 1027" "tlv_size (text_tlv tlv_firmware (an_firmware a)) \<le> 1027"
      "tlv_size (text_tlv tlv_essid (an_essid a)) \<le> 1027"
    using texts_of [OF assms(1)] by (auto intro!: size_text simp: valid_ascii_def tlv_size_simps(1))
  have ids: "tlv_size (put_some (\<lambda>x. x) tlv_device_mac (an_device_mac a)) \<le> 19"
      "tlv_size (put_some (\<lambda>x. x) tlv_controller (if an_controller_first a then an_controller a else None)) \<le> 19"
      "tlv_size (put_some (\<lambda>x. x) tlv_hash (an_hash a)) \<le> 19" "tlv_size (put_some (\<lambda>x. x) tlv_anon (an_anon a)) \<le> 19"
    by (rule size_array; use assms(1) arrays [OF assms(2)] in \<open>force simp: ready_to_send_def split: if_splits\<close>)+
  have ips: "tlv_size (put_some ip4_bytes tlv_ipv4 (an_ipv4 a)) \<le> 7" "tlv_size (put_some ip4_bytes tlv_netmask (an_netmask a)) \<le> 7"
    by (rule size_ip; use assms(1) in \<open>simp add: ready_to_send_def\<close>)+
  have as: "tlv_size (map (\<lambda>(m, ip). (tlv_mac_ip, m @ ip4_bytes ip)) (an_addresses a)) \<le> 208"
    using size_addresses [of "an_addresses a"] assms(1) by (simp add: ready_to_send_def)
  have v: "tlv_size (if an_version a = v2 then tlvs_v2 a else []) \<le> 1300"
    using tlvs_v2_size [OF assms] by (simp add: tlv_size_def)
  have m: "tlv_size [(tlv_mac, an_mac a)] = 9" "tlv_size (put_if (an_wmode a \<noteq> 0) tlv_wmode (put_u32 (an_wmode a))) \<le> 7"
    using assms(1) size_if [of "an_wmode a \<noteq> 0" tlv_wmode "put_u32 (an_wmode a)"] by (simp_all add: ready_to_send_def tlv_size_simps)
  show ?thesis
    unfolding tlvs_def tlv_size_simps(3)
    using texts ids ips as v m size_fixed(1) [of tlv_uptime "an_uptime a"] size_fixed(2) [of tlv_board "an_board a"]
      size_fixed(3) [of "\<lambda>b. if b then 1 else 0" tlv_is_default "an_default a"]
    by linarith
qed

lemma marshal_total:
  assumes "validate_identity a = Inr ()" "arrays_ok a"
  shows "\<exists>packet. marshal_announcement a = Inr packet"
  using tlvs_size [OF validated_ready [OF assms(1)] assms(2)] assms(1)
  by (simp add: marshal_announcement_def length_tlvs bind_unit max_datagram_def guard_def Let_def)

section \<open>The responder\<close>

text \<open>A validated template is its own copy, and stays valid under either version and any sequence number.\<close>

lemma clone_validated:
  assumes "validate_identity a = Inr ()"
  shows "clone_announcement a = a"
proof -
  have "an_netmask a \<noteq> Some []" "an_ipv4 a \<noteq> Some []" "an_device_mac a \<noteq> Some []"
    using validated_ready [OF assms] by (auto simp: ready_to_send_def to4_def)
  then show ?thesis by (simp add: clone_announcement_def nil_if_empty_def same_field)
qed

lemma validated_version:
  assumes "validate_identity a = Inr ()" "an_version a = v2" "supported_version v" "n \<noteq> 0"
  shows "validate_identity (a\<lparr>an_version := v, an_command := c, an_sequence := n\<rparr>) = Inr ()"
  using assms unfolding validate_identity_def guard_Inr bind_unit bind_Inr by (auto simp: validate_texts_def)

definition responder_ok :: "responder \<Rightarrow> bool" where
  "responder_ok r \<longleftrightarrow>
     validate_identity (rs_template r) = Inr () \<and> an_version (rs_template r) = v2 \<and> arrays_ok (rs_template r)"

lemma new_responder_ok:
  assumes "new_responder t = Inr r" "arrays_ok t"
  shows "responder_ok r \<and> rs_next r \<noteq> 0 \<and> rs_next r = an_sequence (rs_template r)"
proof -
  let ?t = "t\<lparr>an_version := v2, an_sequence := (if an_sequence t = 0 then 1 else an_sequence t)\<rparr>"
  have v: "validate_identity ?t = Inr ()" "r = \<lparr>rs_template = clone_announcement ?t, rs_next = an_sequence ?t\<rparr>"
    using assms(1) by (simp_all add: new_responder_def Let_def bind_unit)
  then show ?thesis using assms(2) clone_validated [OF v(1)] by (simp add: responder_ok_def arrays_ok_def)
qed

text \<open>What a request of four bytes parses to, and what the answer to it is.\<close>

lemma parse_probe:
  assumes "parse_announcement request = Inr parsed" "length request = 4"
  shows "parsed = empty_announcement (request ! 0) (request ! 1) \<and> supported_version (request ! 0) \<and>
    unat (get_u16 (sub_bytes 2 4 request)) = 0"
proof -
  have n: "drop 4 request = []" using assms(2) by simp
  then show ?thesis
    using assms unfolding parse_announcement_def guard_Inr n by (simp add: parse_tlvs.simps)
qed

definition answer_to :: "byte \<Rightarrow> responder \<Rightarrow> announcement" where
  "answer_to v r =
     (rs_template r)\<lparr>an_version := v, an_command := command_discover,
       an_sequence := (if v = v2 then rs_next r else an_sequence (rs_template r))\<rparr>"

lemma response_Some:
  assumes "response_for request r = (Inr (Some p), r')" "responder_ok r"
  shows "length request = 4 \<and> request ! 1 = command_discover \<and> supported_version (request ! 0) \<and>
    unat (get_u16 (sub_bytes 2 4 request)) = 0 \<and> (request ! 0 = v2 \<longrightarrow> rs_next r \<noteq> 0) \<and>
    marshal_announcement (answer_to (request ! 0) r) = Inr p \<and>
    r' = (if request ! 0 = v2 then r\<lparr>rs_next := rs_next r + 1\<rparr> else r)"
proof -
  obtain parsed where p: "parse_announcement request = Inr parsed"
    using assms(1) by (cases "parse_announcement request") (auto simp: response_for_def)
  have four: "length request = 4" "an_command parsed = command_discover"
    using assms(1) p by (auto simp: response_for_def split: if_splits)
  from parse_probe [OF p four(1)] have q: "parsed = empty_announcement (request ! 0) (request ! 1)"
    "supported_version (request ! 0)" "unat (get_u16 (sub_bytes 2 4 request)) = 0" by auto
  have c: "clone_announcement (rs_template r) = rs_template r" using assms(2) clone_validated by (simp add: responder_ok_def)
  have e: "an_version parsed = request ! 0" "an_command parsed = request ! 1" by (simp_all add: q(1) empty_announcement_def)
  let ?t = "(rs_template r)\<lparr>an_version := request ! 0, an_command := command_discover\<rparr>"
  let ?r = "if request ! 0 = v2 then r\<lparr>rs_next := rs_next r + 1\<rparr> else r"
  have t: "(if request ! 0 = v2 then ?t\<lparr>an_sequence := rs_next r\<rparr> else ?t) = answer_to (request ! 0) r"
    by (simp add: answer_to_def)
  have t1: "an_version ?t = request ! 0" by simp
  have "(if request ! 0 = v2 \<and> rs_next r = 0 then (Inl ''discovery: response sequence exhausted'', r)
      else case marshal_announcement (answer_to (request ! 0) r) of Inl e \<Rightarrow> (Inl e, ?r) | Inr packet \<Rightarrow> (Inr (Some packet), ?r)) =
      (Inr (Some p), r')"
    using assms(1) four unfolding response_for_def p c Let_def sum.case e(1) t1 t by simp
  then show ?thesis using four q(2,3) e(2) by (auto split: if_splits sum.splits)
qed

lemma answer_valid:
  assumes "responder_ok r" "supported_version v" "v = v2 \<longrightarrow> rs_next r \<noteq> 0"
  shows "validate_identity (answer_to v r) = Inr () \<and> arrays_ok (answer_to v r)"
proof -
  have "an_sequence (rs_template r) \<noteq> 0"
    using assms(1) unfolding responder_ok_def validate_identity_def guard_Inr bind_unit bind_Inr by auto
  then show ?thesis
    using assms validated_version [of "rs_template r"] by (auto simp: responder_ok_def answer_to_def arrays_ok_def)
qed

lemma response_keeps:
  assumes "response_for request r = (x, r')" "responder_ok r"
  shows "responder_ok r' \<and> rs_template r' = rs_template r"
  using assms by (auto simp: response_for_def responder_ok_def Let_def split: sum.splits if_splits)

lemma marshal_longer:
  assumes "marshal_announcement a = Inr p"
  shows "4 < length p"
proof -
  obtain body where b: "body = concat (map (\<lambda>(t, v). append_tlv t v) (tlvs a))"
    "p = [an_version a, an_command a] @ put_u16 (of_nat (length body)) @ body"
    using assms by (rule marshal_Inr)
  have "body \<noteq> []" unfolding b(1) tlvs_def by (simp add: append_tlv_def)
  then show ?thesis by (simp add: b(2))
qed

lemma no_answer_to_long:
  assumes "4 < length p"
  shows "response_for p r \<noteq> (Inr (Some q), r')"
  using assms by (auto simp: response_for_def split: sum.splits)

section \<open>Sequence numbers\<close>

definition wire_sequence :: "byte list \<Rightarrow> u32" where
  "wire_sequence p = (case parse_announcement p of Inr a \<Rightarrow> an_sequence a | Inl _ \<Rightarrow> 0)"

definition v2_sequences :: "byte list list \<Rightarrow> u32 list" where
  "v2_sequences ps = map wire_sequence (filter (\<lambda>p. p ! 0 = v2) ps)"

lemma v2_sequences_simps:
  "v2_sequences [] = []" "p ! 0 = v2 \<Longrightarrow> v2_sequences (p # ps) = wire_sequence p # v2_sequences ps"
  "p ! 0 \<noteq> v2 \<Longrightarrow> v2_sequences (p # ps) = v2_sequences ps"
  by (simp_all add: v2_sequences_def)

lemma marshal_version: "marshal_announcement a = Inr p \<Longrightarrow> p ! 0 = an_version a"
  by (erule marshal_Inr) simp

lemma wire_sequence_marshal:
  assumes "marshal_announcement a = Inr p" "arrays_ok a" "an_version a = v2"
  shows "wire_sequence p = an_sequence a"
proof -
  have "parse_announcement p = Inr (canonical a)"
    by (rule discovery_roundtrip) (use assms in \<open>simp_all add: controller_fits_def\<close>)
  then show ?thesis using assms(3) by (simp add: wire_sequence_def canonical_def Let_def)
qed

lemma less_plus_one: "n + 1 \<noteq> 0 \<Longrightarrow> n < n + 1" for n :: u32
  using unatSuc [of n] by (simp add: word_less_nat_alt add.commute)

lemma serve_datagram_cases:
  assumes "serve_datagram request source r = (x, r')" "responder_ok r"
  obtains (silent) "x = None" "responder_ok r'" "rs_next r' = rs_next r"
  | (failed) e where "x = None" "response_for request r = (Inl e, r')"
  | (answered) p where "x = Some p" "response_for request r = (Inr (Some p), r')" "private_source source"
proof -
  obtain y q where y: "response_for request r = (y, q)" by fastforce
  show ?thesis
  proof (cases "max_datagram < length request \<or> \<not> private_source source")
    case True
    then show ?thesis using silent assms by (simp add: serve_datagram_def)
  next
    case False
    then have s: "(case y of Inl e \<Rightarrow> (None, q) | Inr answer \<Rightarrow> (answer, q)) = (x, r')"
      using assms(1) by (simp add: serve_datagram_def y)
    show ?thesis
    proof (cases y)
      case (Inl e)
      then show ?thesis using failed y s by simp
    next
      case (Inr answer)
      then have "answer = x" "q = r'" using s by simp_all
      moreover have "rs_next r' = rs_next r" if "answer = None"
        using y Inr that \<open>q = r'\<close> by (auto simp: response_for_def Let_def split: sum.splits if_splits)
      ultimately show ?thesis
        using silent answered y Inr False response_keeps [OF y assms(2)] by (cases x) auto
    qed
  qed
qed

lemma response_failed:
  assumes "response_for request r = (Inl e, r')" "responder_ok r"
  shows "rs_next r' = rs_next r"
proof (rule ccontr)
  assume no: "rs_next r' \<noteq> rs_next r"
  obtain parsed where p: "parse_announcement request = Inr parsed" "length request = 4" "an_command parsed = command_discover"
    using assms(1) no by (auto simp: response_for_def split: sum.splits if_splits)
  from parse_probe [OF p(1,2)] have v: "an_version parsed = request ! 0" "supported_version (request ! 0)"
    by (simp_all add: empty_announcement_def)
  let ?t = "(rs_template r)\<lparr>an_version := request ! 0, an_command := command_discover\<rparr>"
  have t: "(if request ! 0 = v2 then ?t\<lparr>an_sequence := rs_next r\<rparr> else ?t) = answer_to (request ! 0) r"
    by (simp add: answer_to_def)
  have t1: "an_version ?t = request ! 0" by simp
  have c: "clone_announcement (rs_template r) = rs_template r" using assms(2) clone_validated by (simp add: responder_ok_def)
  have "request ! 0 = v2 \<longrightarrow> rs_next r \<noteq> 0"
    using assms(1) no p unfolding response_for_def p(1) c Let_def sum.case v(1) t1 t by (auto split: if_splits)
  from answer_valid [OF assms(2) v(2) this] obtain packet where "marshal_announcement (answer_to (request ! 0) r) = Inr packet"
    using marshal_total by blast
  then show False
    using assms(1) no p unfolding response_for_def p(1) c Let_def sum.case v(1) t1 t by (auto split: if_splits)
qed

lemma serve_sequences:
  "serve reqs r = (answers, r') \<Longrightarrow> responder_ok r \<Longrightarrow>
   sorted_wrt (<) (v2_sequences answers) \<and> (\<forall>n \<in> set (v2_sequences answers). rs_next r \<noteq> 0 \<and> rs_next r \<le> n)"
proof (induction reqs arbitrary: r answers)
  case Nil
  then show ?case by (simp add: v2_sequences_simps)
next
  case (Cons x reqs)
  obtain request source where x: "x = (request, source)" by (cases x)
  obtain y r1 where y: "serve_datagram request source r = (y, r1)" by fastforce
  obtain rest where rest: "serve reqs r1 = (rest, r')" "answers = (case y of None \<Rightarrow> rest | Some p \<Rightarrow> p # rest)"
    using Cons.prems(1) by (auto simp: x y split: prod.splits)
  from y Cons.prems(2) show ?case
  proof (cases rule: serve_datagram_cases)
    case silent
    then show ?thesis using Cons.IH [OF rest(1)] rest(2) by simp
  next
    case (failed e)
    then show ?thesis
      using Cons.IH [OF rest(1)] rest(2) response_keeps [OF failed(2) Cons.prems(2)] response_failed [OF failed(2) Cons.prems(2)] by simp
  next
    case (answered p)
    note a = response_Some [OF answered(2) Cons.prems(2)]
    have ok: "responder_ok r1" using response_keeps [OF answered(2) Cons.prems(2)] by simp
    note IH = Cons.IH [OF rest(1) ok]
    have p0: "p ! 0 = request ! 0" using a marshal_version by (fastforce simp: answer_to_def)
    show ?thesis
    proof (cases "request ! 0 = v2")
      case True
      have "wire_sequence p = an_sequence (answer_to (request ! 0) r)"
        by (rule wire_sequence_marshal) (use a True Cons.prems(2) in \<open>simp_all add: answer_to_def responder_ok_def arrays_ok_def\<close>)
      then have n: "wire_sequence p = rs_next r" using True by (simp add: answer_to_def)
      have "rs_next r1 = rs_next r + 1" "rs_next r \<noteq> 0" using a True by auto
      then have "rs_next r < n \<and> n \<noteq> 0" if "n \<in> set (v2_sequences rest)" for n
        using IH that less_plus_one [of "rs_next r"] by fastforce
      then show ?thesis
        using IH True p0 n \<open>rs_next r \<noteq> 0\<close> by (auto simp: rest(2) answered(1) v2_sequences_simps intro: less_imp_le)
    next
      case False
      then show ?thesis using IH a p0 by (simp add: rest(2) answered(1) v2_sequences_simps)
    qed
  qed
qed

text \<open>A probe is answered as long as there is a sequence number.\<close>

lemma put_get_u16: "length bs = 2 \<Longrightarrow> put_u16 (get_u16 bs) = bs"
  using be_value_less [of bs] be_bytes_value [of bs] by (simp add: put_u16_def get_u16_def unat_of_nat)

lemma probe_bytes:
  assumes "length request = 4" "unat (get_u16 (sub_bytes 2 4 request)) = 0" "request ! 1 = c"
  shows "request = [request ! 0, c, 0, 0]"
proof -
  obtain a b x y where r: "request = [a, b, x, y]" using assms(1) by (auto simp: numeral_eq_Suc length_Suc_conv)
  have "put_u16 (get_u16 [x, y]) = put_u16 0" using assms(2) by (simp add: r sub_bytes_def unat_eq_0)
  then have "[x, y] = put_u16 0" by (subst (asm) put_get_u16) simp_all
  also have "put_u16 0 = [0, 0]" by code_simp
  finally have "x = 0 \<and> y = 0" by simp
  then show ?thesis using r assms(3) by simp
qed

lemma probe_answered:
  assumes "responder_ok r" "rs_next r \<noteq> 0"
  shows "\<exists>p r'. response_for [2, 0, 0, 0] r = (Inr (Some p), r')"
proof -
  have v: "supported_version 2" by (simp add: supported_version_def)
  obtain p where p: "marshal_announcement (answer_to 2 r) = Inr p"
    using marshal_total answer_valid [OF assms(1) v] assms(2) by blast
  have q: "parse_announcement [2, 0, 0, 0] = Inr (empty_announcement 2 0)" by code_simp
  have c: "clone_announcement (rs_template r) = rs_template r" using assms(1) clone_validated by (simp add: responder_ok_def)
  have "(rs_template r)\<lparr>an_version := 2, an_command := command_discover, an_sequence := rs_next r\<rparr> = answer_to 2 r"
    by (simp add: answer_to_def)
  then show ?thesis
    using p assms(2) by (simp add: response_for_def q c Let_def empty_announcement_def command_discover_def)
qed

lemma serve_keeps: "serve reqs r = (answers, r') \<Longrightarrow> responder_ok r \<Longrightarrow> responder_ok r'"
proof (induction reqs arbitrary: r answers)
  case (Cons x reqs)
  obtain request source where x: "x = (request, source)" by (cases x)
  obtain y r1 where y: "serve_datagram request source r = (y, r1)" by fastforce
  have "responder_ok r1"
    using y Cons.prems(2) by (cases rule: serve_datagram_cases) (use response_keeps Cons.prems(2) in blast)+
  then show ?case using Cons.prems(1) Cons.IH by (auto simp: x y split: prod.splits)
qed simp

section \<open>The properties\<close>

definition demo_identity :: discovery_identity where
  "demo_identity =
     \<lparr>fi_mac = [2, 2, 3, 4, 5, 6], fi_ip = [192, 0, 2, 7], fi_hostname = ''ups'', fi_uptime = 70, fi_sequence = 9, fi_default = True,
      fi_hash = [1, 0, 0, 0, 0, 0, 0, 8], fi_anon = [1, 2, 3, 4, 5, 6, 7, 8, 9, 10, 11, 12, 13, 14, 15, 16], fi_controller = None\<rparr>"

definition demo_announcement :: announcement where
  "demo_announcement =
     (case new_uswda26 demo_identity of Inr a \<Rightarrow> a | Inl _ \<Rightarrow> empty_announcement v2 command_announcement)"

lemma demo_made: "new_uswda26 demo_identity = Inr demo_announcement"
  unfolding demo_announcement_def by code_simp

lemma demo_valid: "validate_identity demo_announcement = Inr ()" "arrays_ok demo_announcement"
    "an_version demo_announcement = v2" "an_controller demo_announcement = None"
  by code_simp+

lemma demo_responder: "\<exists>r. new_responder demo_announcement = Inr r"
proof -
  have "demo_announcement\<lparr>an_version := v2, an_sequence := an_sequence demo_announcement\<rparr> = demo_announcement"
    using demo_valid(3) by simp
  moreover have "an_sequence demo_announcement \<noteq> 0" by code_simp
  ultimately show ?thesis using demo_valid(1) by (simp add: new_responder_def Let_def bind_unit)
qed

text \<open>
  C13: Every valid announcement has a datagram within the limit, and parsing it gives the
  announcement back: addresses in four bytes, and under version 1 without the version 2 fields.
\<close>

theorem announcement_roundtrip:
  assumes "validate_identity a = Inr ()" "arrays_ok a" "controller_fits a"
  shows "\<exists>packet. marshal_announcement a = Inr packet \<and> length packet \<le> max_datagram \<and>
    parse_announcement packet = Inr (canonical a)"
proof -
  obtain packet where p: "marshal_announcement a = Inr packet" using marshal_total [OF assms(1,2)] by blast
  then have "length packet \<le> max_datagram" by (rule marshal_Inr) (simp add: max_datagram_def)
  then show ?thesis using p discovery_roundtrip [OF p assms(2,3)] by blast
qed

theorem announcement_roundtrip_witness:
  "\<exists>packet. marshal_announcement demo_announcement = Inr packet \<and> length packet \<le> max_datagram \<and>
    parse_announcement packet = Inr (canonical demo_announcement)"
  by (rule announcement_roundtrip) (simp_all add: demo_valid controller_fits_def)

text \<open>
  C38: Whatever datagram the parser accepts, the announcement it returns is well formed: a
  known version, addresses and identities of the protocol's widths, at most 16 addresses,
  printable texts of at most 1024 bytes, and none of the version 2 fields under version 1.  If
  it is a valid identity it marshals to a datagram that parses to the same announcement.
\<close>

theorem parsed_announcements:
  assumes "parse_announcement packet = Inr a"
  shows "announcement_ok a \<and>
    (validate_identity a = Inr () \<longrightarrow> (\<exists>packet'. marshal_announcement a = Inr packet' \<and> parse_announcement packet' = Inr a))"
proof -
  have ok: "announcement_ok a" using assms by (rule parse_announcement_ok)
  have fits: "arrays_ok a" "controller_fits a" using ok by (simp_all add: announcement_ok_def controller_fits_def)
  show ?thesis
    using ok marshal_total [OF _ fits(1)] discovery_roundtrip [OF _ fits] canonical_parsed [OF ok] by metis
qed

theorem parsed_announcements_witness: "announcement_ok (empty_announcement 1 0)"
proof -
  have "parse_announcement [1, 0, 0, 0] = Inr (empty_announcement 1 0)" by code_simp
  from parsed_announcements [OF this] show ?thesis by simp
qed

text \<open>
  C26: The responder answers the four-byte probes of the two versions only, and no responder
  answers what a responder sends: two of them never exchange packets forever.
\<close>

theorem responder_no_loop:
  assumes "new_responder t = Inr r0" "arrays_ok t" "serve reqs r0 = (answers, r)" "response_for request r = (Inr (Some p), r')"
  shows "query (request ! 0) = Inr request \<and> (\<nexists>other q other'. response_for p other = (Inr (Some q), other'))"
proof -
  have ok: "responder_ok r" using serve_keeps [OF assms(3)] new_responder_ok [OF assms(1,2)] by simp
  note a = response_Some [OF assms(4) ok]
  have "request = [request ! 0, command_discover, 0, 0]" using a probe_bytes by blast
  then have "query (request ! 0) = Inr request" using a by (simp add: query_def guard_def)
  moreover have "4 < length p" using a marshal_longer by blast
  ultimately show ?thesis using no_answer_to_long by blast
qed

theorem responder_no_loop_witness:
  "\<exists>r p r'. new_responder demo_announcement = Inr r \<and> response_for [2, 0, 0, 0] r = (Inr (Some p), r') \<and>
     (\<nexists>other q other'. response_for p other = (Inr (Some q), other'))"
proof -
  obtain r where r: "new_responder demo_announcement = Inr r"
    using demo_responder by blast
  have ready: "responder_ok r" "rs_next r \<noteq> 0" using new_responder_ok [OF r demo_valid(2)] by metis+
  obtain p r' where p: "response_for [2, 0, 0, 0] r = (Inr (Some p), r')" using probe_answered [OF ready(1)] ready(2) by auto
  have "serve [] r = ([], r)" by simp
  from responder_no_loop [OF r demo_valid(2) this p] show ?thesis using r p by blast
qed

text \<open>
  Over any run of the responder the version 2 answers carry strictly increasing sequence
  numbers, from the template's on; when the counter is used up it stays silent.
\<close>

theorem responder_sequences:
  assumes "new_responder t = Inr r" "arrays_ok t" "serve reqs r = (answers, r')"
  shows "sorted_wrt (<) (v2_sequences answers) \<and> list_all (\<lambda>n. rs_next r \<le> n) (v2_sequences answers)"
  using serve_sequences [OF assms(3)] new_responder_ok [OF assms(1,2)] by (auto simp: list_all_iff)

theorem responder_sequences_witness:
  "\<exists>r. new_responder demo_announcement = Inr r \<and>
     sorted_wrt (<) (v2_sequences (fst (serve [([2, 0, 0, 0], Udp [10, 0, 0, 1] 10001), ([2, 0, 0, 0], Udp [10, 0, 0, 1] 10001)] r)))"
proof -
  obtain r where r: "new_responder demo_announcement = Inr r" using demo_responder by blast
  then show ?thesis using responder_sequences [OF r demo_valid(2) prod.collapse [symmetric]] by blast
qed

end
