(* ===== verification/GatewayDiscovery.thy ===== *)
theory GatewayDiscovery
  imports GatewayFacts DiscoveryRuns
begin

text \<open>
  The discovery announcements of the gateway (\<open>discoveryAnnouncement\<close> and
  \<open>announcementLoop\<close> of \<open>internal/gateway/gateway.go\<close>), and what is on the wire.
\<close>

section \<open>The announcement\<close>

text \<open>The uptime in whole seconds, at least one and at most what 32 bits hold.\<close>

definition discovery_uptime :: "int \<Rightarrow> int \<Rightarrow> u32" where
  "discovery_uptime now started =
     (let d = time_sub now started; s = (if 0 \<le> d then d div second else - ((- d) div second)); s1 = (if s < 1 then 1 else s)
      in of_int (if 2 ^ 32 - 1 < s1 then 2 ^ 32 - 1 else s1))"

definition discovery_identity_of :: "primitives \<Rightarrow> int \<Rightarrow> gateway \<Rightarrow> discovery_identity" where
  "discovery_identity_of pm now g =
     (let p = g_persistent g; (hash, anon) = derive_ids (pm_sha pm) (i_guid (st_identity p)) (g_mac g) (cu_model (c_unifi (g_cfg g)))
      in \<lparr>fi_mac = g_mac g,
          fi_ip = (case parse_ip_to4 (nw_device_ip (g_network g)) of None \<Rightarrow> [] | Some ip \<Rightarrow> ip),
          fi_hostname = cd_hostname (c_device (g_cfg g)), fi_uptime = discovery_uptime now (g_started g),
          fi_sequence = g_next_discovery g, fi_default = (\<not> ad_adopted (st_adoption p)), fi_hash = hash, fi_anon = anon,
          fi_controller = None\<rparr>)"

text \<open>The version the controller last reported replaces the built-in one.\<close>

definition with_reported :: "gateway \<Rightarrow> announcement \<Rightarrow> announcement" where
  "with_reported g a =
     (let v = g_reported_fw g in
      if v = [] then a
      else let b = a\<lparr>an_version_text := v\<rparr>
           in if cu_model (c_unifi (g_cfg g)) = model_pro then b\<lparr>an_firmware := v\<rparr> else b)"

definition discovery_announcement :: "primitives \<Rightarrow> int \<Rightarrow> byte \<Rightarrow> byte \<Rightarrow> gateway \<Rightarrow> (string, announcement) result \<times> gateway" where
  "discovery_announcement pm now version command g =
     (if version \<noteq> v2 \<or> command \<noteq> command_announcement
      then (Inl ''gateway emits only firmware-proven v2 command-6 discovery'', g)
      else case resolve_profile (profile_of (g_cfg g)) of
        Inl e \<Rightarrow> (Inl e, g)
      | Inr _ \<Rightarrow>
          if g_next_discovery g = 0 then (Inl ''discovery sequence exhausted'', g)
          else
            let g' = g\<lparr>g_next_discovery := g_next_discovery g + 1\<rparr>; i = discovery_identity_of pm now g
            in case (if cu_model (c_unifi (g_cfg g)) = model_pro then new_uspda2c i else new_uswda26 i) of
                 Inl e \<Rightarrow> (Inl e, g')
               | Inr a \<Rightarrow> (Inr (with_reported g a), g'))"

text \<open>
  One turn of the loop: None is its end.  Otherwise whether a warning is logged, what was sent,
  and the gateway.  \<open>w\<close> is the outcome of the write.
\<close>

definition announcement_step :: "primitives \<Rightarrow> bool \<Rightarrow> status option \<Rightarrow> int \<Rightarrow> int option \<Rightarrow> gateway \<Rightarrow>
    (bool \<times> (byte list \<times> net_addr) list \<times> gateway) option" where
  "announcement_step pm cancelled st now w g =
     (if cancelled \<or> \<not> managed_network_current st g then None
      else case discovery_announcement pm now v2 command_announcement g of
        (Inl e, g') \<Rightarrow> Some (True, [], g')
      | (Inr a, g') \<Rightarrow>
          (case marshal_announcement a of
             Inl e \<Rightarrow> Some (True, [], g')
           | Inr packet \<Rightarrow>
               Some (write_failure w packet \<noteq> [], [(packet, Udp [255, 255, 255, 255] discovery_port)], g')))"

section \<open>What an announcement holds\<close>

lemma derive_ids_length:
  assumes "\<And>x. length (sha x) = 32" "derive_ids sha guid mac model = (hash, anon)"
  shows "length hash = 8 \<and> length anon = 16"
  using assms by (auto simp: derive_ids_def Let_def split: if_splits)

lemma fingerprint_Inr:
  assumes "(if pro then new_uspda2c i else new_uswda26 i) = Inr a"
  shows "validate_identity a = Inr () \<and> an_version a = v2 \<and> an_command a = command_announcement \<and> an_mac a = fi_mac i \<and>
    an_sequence a = fi_sequence i \<and> an_default a = Some (fi_default i) \<and> an_uptime a = Some (fi_uptime i) \<and>
    an_hostname a = fi_hostname i \<and> an_hash a = Some (fi_hash i) \<and> an_anon a = Some (fi_anon i) \<and>
    an_controller a = fi_controller i \<and> an_profile a \<in> {None, Some uswda26_profile} \<and>
    (\<exists>ip. to4 (fi_ip i) = Some ip \<and> an_addresses a = [(fi_mac i, ip)] \<and> an_ipv4 a = Some ip)"
proof (cases pro)
  case True
  then show ?thesis
    using assms by (auto simp: new_uspda2c_def bind_unit Let_def guard_Inr empty_announcement_def split: option.splits)
next
  case False
  then show ?thesis
    using assms by (auto simp: new_uswda26_def bind_unit Let_def guard_Inr empty_announcement_def split: option.splits)
qed

lemma with_reported_fields:
  "an_version (with_reported g a) = an_version a" "an_command (with_reported g a) = an_command a"
  "an_mac (with_reported g a) = an_mac a" "an_sequence (with_reported g a) = an_sequence a"
  "an_default (with_reported g a) = an_default a" "an_hash (with_reported g a) = an_hash a"
  "an_anon (with_reported g a) = an_anon a" "an_controller (with_reported g a) = an_controller a"
  "an_profile (with_reported g a) = an_profile a" "an_addresses (with_reported g a) = an_addresses a"
  "an_ipv4 (with_reported g a) = an_ipv4 a"
  by (simp_all add: with_reported_def Let_def)

lemma announced_fields:
  assumes "discovery_announcement pm now v c g = (Inr a, g')" "\<And>x. length (pm_sha pm x) = 32"
  shows "an_version a = v2 \<and> an_command a = command_announcement \<and> an_mac a = g_mac g \<and> an_sequence a = g_next_discovery g \<and>
    an_default a = Some (\<not> ad_adopted (st_adoption (g_persistent g))) \<and> an_controller a = None \<and> arrays_ok a \<and>
    (\<exists>ip. parse_ip_to4 (nw_device_ip (g_network g)) = Some ip \<and> an_addresses a = [(g_mac g, ip)] \<and> an_ipv4 a = Some ip) \<and>
    g' = g\<lparr>g_next_discovery := g_next_discovery g + 1\<rparr> \<and> g_next_discovery g \<noteq> 0"
proof -
  let ?i = "discovery_identity_of pm now g"
  obtain b where b: "(if cu_model (c_unifi (g_cfg g)) = model_pro then new_uspda2c ?i else new_uswda26 ?i) = Inr b"
      "a = with_reported g b" "g' = g\<lparr>g_next_discovery := g_next_discovery g + 1\<rparr>" "g_next_discovery g \<noteq> 0"
    using assms(1) by (auto simp: discovery_announcement_def Let_def split: if_splits sum.splits)
  obtain hash anon where ids: "derive_ids (pm_sha pm) (i_guid (st_identity (g_persistent g))) (g_mac g)
      (cu_model (c_unifi (g_cfg g))) = (hash, anon)" by fastforce
  have i: "fi_mac ?i = g_mac g" "fi_sequence ?i = g_next_discovery g" "fi_controller ?i = None" "fi_hash ?i = hash" "fi_anon ?i = anon"
      "fi_default ?i = (\<not> ad_adopted (st_adoption (g_persistent g)))"
      "fi_ip ?i = (case parse_ip_to4 (nw_device_ip (g_network g)) of None \<Rightarrow> [] | Some ip \<Rightarrow> ip)"
    by (simp_all add: discovery_identity_of_def ids)
  note f = fingerprint_Inr [OF b(1)]
  have "arrays_ok b" using f i(3-5) derive_ids_length [OF assms(2) ids] by (auto simp: arrays_ok_def uswda26_profile_def)
  moreover have "parse_ip_to4 (nw_device_ip (g_network g)) = Some ip" if "to4 (fi_ip ?i) = Some ip" for ip
    using that unfolding i(7) by (auto simp: parse_ip_to4_def to4_def bind_eq_Some_conv split: option.splits if_splits)
  ultimately show ?thesis
    using f b i by (auto simp: with_reported_fields arrays_ok_def)
qed

lemma announcement_step_core:
  assumes "announcement_step pm cancelled st now w g = Some (warned, sent, g')"
  shows "same_core g g'"
  using assms
  by (auto simp: announcement_step_def discovery_announcement_def same_core_def same_setup_def Let_def split: if_splits sum.splits prod.splits)

section \<open>The wire\<close>

lemma announcement_step_sent:
  assumes "announcement_step pm cancelled st now w g = Some (warned, [(packet, d)], g')"
  obtains a where "discovery_announcement pm now v2 command_announcement g = (Inr a, g')" "marshal_announcement a = Inr packet"
    "d = Udp [255, 255, 255, 255] discovery_port" "managed_network_current st g"
  using assms by (auto simp: announcement_step_def split: if_splits sum.splits prod.splits)

lemma sent_sequence:
  assumes "announcement_step pm cancelled st now w g = Some (warned, [(packet, d)], g')" "\<And>x. length (pm_sha pm x) = 32"
  shows "wire_sequence packet = g_next_discovery g \<and> g_next_discovery g \<noteq> 0 \<and> g_next_discovery g' = g_next_discovery g + 1"
proof -
  obtain a where a: "discovery_announcement pm now v2 command_announcement g = (Inr a, g')" "marshal_announcement a = Inr packet"
    using announcement_step_sent [OF assms(1)] by blast
  note f = announced_fields [OF a(1) assms(2)]
  have "arrays_ok a" "an_version a = v2" using f by blast+
  from wire_sequence_marshal [OF a(2) this] f show ?thesis by simp
qed

text \<open>The counter of a step that announces nothing.\<close>

lemma step_counter:
  assumes "announcement_step pm cancelled st now w g = Some (warned, sent, g')"
  shows "g_next_discovery g' = g_next_discovery g \<or> g_next_discovery g \<noteq> 0 \<and> g_next_discovery g' = g_next_discovery g + 1"
  using assms
  by (auto simp: announcement_step_def discovery_announcement_def Let_def split: if_splits sum.splits prod.splits)

text \<open>
  What the gateway broadcasts.  Every datagram of the announcement loop goes to the
  broadcast address, while the managed network is current, and parses as a version 2
  announcement of the gateway's own MAC and device address, marked as default exactly while
  the device is not adopted, under the next sequence number, and without a controller identity.
\<close>

theorem announced_datagram:
  assumes "announcement_step pm cancelled st now w g = Some (warned, [(packet, d)], g')" "\<And>x. length (pm_sha pm x) = 32"
  shows "d = Udp [255, 255, 255, 255] discovery_port \<and> managed_network_current st g \<and> length packet \<le> max_datagram \<and>
    (\<exists>a ip. parse_announcement packet = Inr a \<and> an_version a = v2 \<and> an_command a = command_announcement \<and>
       an_mac a = g_mac g \<and> parse_ip_to4 (nw_device_ip (g_network g)) = Some ip \<and> an_addresses a = [(g_mac g, ip)] \<and>
       an_ipv4 a = Some ip \<and> an_default a = Some (\<not> ad_adopted (st_adoption (g_persistent g))) \<and>
       an_sequence a = g_next_discovery g \<and> an_controller a = None)"
proof -
  obtain a where a: "discovery_announcement pm now v2 command_announcement g = (Inr a, g')" "marshal_announcement a = Inr packet"
    and d: "d = Udp [255, 255, 255, 255] discovery_port" "managed_network_current st g"
    using announcement_step_sent [OF assms(1)] by blast
  note f = announced_fields [OF a(1) assms(2)]
  obtain ip where ip: "parse_ip_to4 (nw_device_ip (g_network g)) = Some ip" "an_addresses a = [(g_mac g, ip)]" "an_ipv4 a = Some ip"
    using f by blast
  have "length ip = 4" using ip(1) to4_length by (auto simp: parse_ip_to4_def bind_eq_Some_conv)
  then have four: "ip4_bytes ip = ip" by (rule ip4_bytes_of4)
  have "length packet \<le> max_datagram" using a(2) by (rule marshal_Inr) (simp add: max_datagram_def)
  moreover have "parse_announcement packet = Inr (canonical a)"
    by (rule discovery_roundtrip [OF a(2)]) (use f in \<open>simp_all add: controller_fits_def\<close>)
  ultimately show ?thesis using d f ip four by (simp add: canonical_def)
qed

text \<open>
  The broadcast reveals nothing of the adoption but whether the device is adopted: with
  another key, controller URL, configuration version, mode and nonce list the same bytes are
  sent.
\<close>

theorem announcement_key_free:
  assumes "ad_adopted other = ad_adopted (st_adoption (g_persistent g))"
  shows "map_option (\<lambda>(warned, sent, g'). (warned, sent))
      (announcement_step pm cancelled st now w (g\<lparr>g_persistent := (g_persistent g)\<lparr>st_adoption := other\<rparr>\<rparr>)) =
    map_option (\<lambda>(warned, sent, g'). (warned, sent)) (announcement_step pm cancelled st now w g)"
proof -
  let ?h = "g\<lparr>g_persistent := (g_persistent g)\<lparr>st_adoption := other\<rparr>\<rparr>"
  have "discovery_identity_of pm now ?h = discovery_identity_of pm now g"
    using assms by (simp add: discovery_identity_of_def Let_def)
  moreover have "with_reported ?h = with_reported g" by (rule ext) (simp add: with_reported_def Let_def)
  ultimately have same: "fst (discovery_announcement pm now v2 command_announcement ?h) =
      fst (discovery_announcement pm now v2 command_announcement g)"
    by (simp add: discovery_announcement_def Let_def split: sum.split)
  have current: "managed_network_current st ?h = managed_network_current st g"
    by (cases st) (simp_all add: managed_network_current_def)
  obtain x k where x: "discovery_announcement pm now v2 command_announcement ?h = (x, k)" by fastforce
  obtain k' where y: "discovery_announcement pm now v2 command_announcement g = (x, k')"
    using same x by (metis fst_conv prod.collapse)
  show ?thesis unfolding announcement_step_def current x y prod.case by (simp split: sum.split)
qed

end
