(* ===== verification/GatewayRuns.thy ===== *)
theory GatewayRuns
  imports GatewayDiscovery
begin

text \<open>
  Runs of the gateway: polls and informs in any order.  The invariant, the fate of the state
  file, the refusal of a replayed response, and the device that plain HTTP cannot move.
\<close>

section \<open>One inform\<close>

lemma decode_nonce_length:
  assumes "decode c d data k = Inr p" "p_nonce p = Some n"
  shows "length n = 16"
proof -
  have "check_header d (effective_limits (d_limits d)) data = Inr ()" "n = sub_bytes 16 32 data"
    using assms by (auto simp: decode_def Let_def split: sum.splits option.splits if_splits)
  moreover from this have "header_length \<le> length data"
    unfolding check_header_def Let_def guard_Inr by auto
  ultimately show ?thesis by (simp add: sub_bytes_def header_length_def)
qed

lemma handle_response_ok:
  assumes "gateway_ok g" "md = inform_mode g" "\<And>n. p_nonce p = Some n \<Longrightarrow> length n = 16"
    and "handle_response pm env md p g = (r, g')"
  shows "gateway_ok g' \<and> same_setup g g' \<and> stored r g g'"
proof (cases "\<exists>e. (r, g') = (Inl e, g)")
  case True
  then show ?thesis using assms(1) by (auto simp: stored_def)
next
  case False
  then obtain nonce where "accept_response pm env md nonce (text_of (p_payload p)) g = (r, g')" "nonce = None \<or> nonce = p_nonce p"
    using assms(4) by (auto simp: handle_response_def split: if_splits option.splits)
  then show ?thesis using accept_response_ok [OF assms(1,2), of nonce] assms(3) by auto
qed

lemma exchange_once_ok:
  assumes "gateway_ok g" "md = inform_mode g" "exchange_once pm env md wire g = (r, reached, res, g')"
  shows "gateway_ok g' \<and> same_setup g g' \<and> stored r g g'"
proof (cases "\<exists>e. r = Inl e \<and> g' = g")
  case True
  then show ?thesis using assms(1) by (auto simp: stored_def)
next
  case False
  then obtain d response p where d: "decode (pm_crypto pm) d response (ad_key (st_adoption (g_persistent g))) = Inr p"
      "handle_response pm env md p g = (r, g')"
    using assms(3) by (auto simp: exchange_once_def split: sum.splits prod.splits)
  show ?thesis by (rule handle_response_ok [OF assms(1,2) _ d(2)]) (rule decode_nonce_length [OF d(1)])
qed

text \<open>An inform that gets to the wire: the window is synchronised and the packet encoded first.\<close>

definition inform_packet :: "gateway \<Rightarrow> string \<Rightarrow> packet" where
  "inform_packet g payload = \<lparr>p_mac = g_mac g, p_version = 0, p_payload = string_bytes payload, p_nonce = None\<rparr>"

lemma inform_once_cases:
  assumes "inform_once pm env g = (r, g')"
  obtains (early) e where "r = Inl e" "g' = g"
  | (encoded) payload q w enc where
      "managed_network_current (ie_status env) g" "g_have_latest g" "g_upstream_ok g"
      "sync_window (pm_sha pm) (st_adoption (g_persistent g)) (g_replay g) = (Inr (), w)"
      "encode (pm_crypto pm) (inform_packet g payload) (ad_key (st_adoption (g_persistent g))) (inform_mode g) (g_encoder g) = (q, enc)"
      "(\<exists>e. q = Inl e \<and> r = Inl (EncodeFailed e) \<and> g' = g\<lparr>g_replay := w, g_encoder := enc\<rparr>) \<or>
       (\<exists>wire reached res h. q = Inr wire \<and>
          exchange_once pm env (inform_mode g) wire (g\<lparr>g_replay := w, g_encoder := enc\<rparr>) = (r, reached, res, h) \<and>
          g' = monitor_step (mark_inform (ie_now env) reached res) h)"
proof (cases "\<exists>e. r = Inl e \<and> g' = g")
  case True
  then show ?thesis using early by blast
next
  case late: False
  then have here: "managed_network_current (ie_status env) g" "g_have_latest g" "g_upstream_ok g"
      "s_availability (map_observation g (g_latest g) (ie_now env)) = Available"
    using assms by (auto simp: inform_once_def Let_def split: if_splits)
  let ?rep = "inform_report pm (ie_now env) (map_observation g (g_latest g) (ie_now env)) g"
  obtain payload where pay: "build_payload ?rep = Inr payload"
    using assms late here by (cases "build_payload ?rep") (auto simp: inform_once_def Let_def)
  obtain x w where sync: "sync_window (pm_sha pm) (st_adoption (g_persistent g)) (g_replay g) = (x, w)" by fastforce
  have x: "x = Inr ()" using assms late here pay sync by (cases x) (auto simp: inform_once_def Let_def)
  obtain q enc where q: "encode (pm_crypto pm) (inform_packet g payload) (ad_key (st_adoption (g_persistent g))) (inform_mode g)
      (g_encoder g) = (q, enc)" by fastforce
  have res: "(r, g') = (case (q, enc) of (Inl e, enc) \<Rightarrow> (Inl (EncodeFailed e), g\<lparr>g_replay := w, g_encoder := enc\<rparr>)
      | (Inr wire, enc) \<Rightarrow> (case exchange_once pm env (inform_mode g) wire (g\<lparr>g_replay := w, g_encoder := enc\<rparr>) of
          (r, reached, res, g') \<Rightarrow> (r, monitor_step (mark_inform (ie_now env) reached res) g')))"
    using assms here
    unfolding inform_once_def Let_def pay sync x q [unfolded inform_packet_def] prod.case sum.case old.unit.case
    by simp
  show ?thesis
    by (rule encoded [OF here(1-3) sync [unfolded x] q]) (use res in \<open>auto split: sum.splits prod.splits\<close>)
qed

lemma stored_same_core: "stored r g k \<Longrightarrow> same_core k g' \<Longrightarrow> stored r g g'"
  by (cases r) (simp_all add: stored_def same_core_def)

lemma inform_once_ok:
  assumes "gateway_ok g" "inform_once pm env g = (r, g')"
  shows "gateway_ok g' \<and> same_setup g g' \<and> stored r g g'"
  using assms(2)
proof (cases rule: inform_once_cases)
  case (early e)
  then show ?thesis using assms(1) by (simp add: stored_def)
next
  case (encoded payload q w enc)
  let ?h = "g\<lparr>g_replay := w, g_encoder := enc\<rparr>"
  have "window_ok w" using encoded(4) sync_window_ok assms(1) by (auto simp: gateway_ok_def)
  moreover have "encoder_ok enc" using encoded(5) encode_keeps_ok [of "g_encoder g"] assms(1)
    by (metis gateway_ok_def snd_conv)
  ultimately have h: "gateway_ok ?h" "same_setup g ?h" "stored r g k \<longleftrightarrow> stored r ?h k" "inform_mode ?h = inform_mode g" for k
    using assms(1) by (simp_all add: gateway_ok_def same_setup_def stored_def inform_mode_def split: sum.split)
  from encoded(6) show ?thesis
  proof (elim disjE exE conjE)
    fix e assume "r = Inl (EncodeFailed e)" "g' = ?h"
    then show ?thesis using h by (simp add: stored_def)
  next
    fix wire reached res k assume e: "exchange_once pm env (inform_mode g) wire ?h = (r, reached, res, k)"
      "g' = monitor_step (mark_inform (ie_now env) reached res) k"
    have "gateway_ok k \<and> same_setup ?h k \<and> stored r ?h k" using exchange_once_ok [OF h(1) _ e(1)] h(4) by simp
    moreover have "same_core k g'" unfolding e(2) by simp
    ultimately show ?thesis using h stored_same_core core_ok core_setup same_setup_trans by meson
  qed
qed

lemma poll_once_frame:
  assumes "poll_once now polled g = (r, g')"
  shows "same_setup g g' \<and> g_persistent g' = g_persistent g \<and> g_disk g' = g_disk g \<and> g_replay g' = g_replay g \<and>
    g_encoder g' = g_encoder g"
  using assms by (auto simp: poll_once_def same_setup_def monitor_step_def split: sum.splits if_splits)

section \<open>What an accepted response does to the window\<close>

definition same_keys :: "gateway \<Rightarrow> gateway \<Rightarrow> bool" where
  "same_keys g h \<longleftrightarrow>
     ad_key (st_adoption (g_persistent h)) = ad_key (st_adoption (g_persistent g)) \<and>
     ad_gcm (st_adoption (g_persistent h)) = ad_gcm (st_adoption (g_persistent g))"

text \<open>The window belongs to the key and mode in force.\<close>

definition synced :: "primitives \<Rightarrow> gateway \<Rightarrow> bool" where
  "synced pm g \<longleftrightarrow>
     rw_ready (g_replay g) \<and>
     replay_epoch_for (pm_sha pm) (st_adoption (g_persistent g)) = Inr (rw_epoch (g_replay g))"

lemma synced_keeps:
  "synced pm g \<Longrightarrow> same_keys g h \<Longrightarrow> rw_ready (g_replay h) = rw_ready (g_replay g) \<Longrightarrow>
   rw_epoch (g_replay h) = rw_epoch (g_replay g) \<Longrightarrow> synced pm h"
  using epoch_cong [of "st_adoption (g_persistent h)" "st_adoption (g_persistent g)" "pm_sha pm"]
  by (simp add: synced_def same_keys_def)

lemma sync_window_synced:
  assumes "sync_window (pm_sha pm) (st_adoption (g_persistent g)) (g_replay g) = (Inr (), w)"
  shows "synced pm (g\<lparr>g_replay := w, g_encoder := enc\<rparr>)" "synced pm g \<Longrightarrow> w = g_replay g"
proof -
  have "rebased (pm_sha pm) (st_adoption (g_persistent g)) (g_replay g) = Inr w"
    using assms by (simp add: sync_window_rebased split: sum.splits)
  then show "synced pm (g\<lparr>g_replay := w, g_encoder := enc\<rparr>)"
    by (auto simp: synced_def new_replay_window_def Let_def dest!: rebased_cases split: sum.splits if_splits)
  show "synced pm g \<Longrightarrow> w = g_replay g"
    using assms by (simp add: sync_window_def synced_def)
qed

lemma next_state_window:
  assumes "synced pm g" "next_state pm md (Some n) a g = Inr (p', w')"
    and "AuthKey a = ad_key (st_adoption (g_persistent g))" "UseAESGCM a = ad_gcm (st_adoption (g_persistent g))"
  shows "\<exists>b. w' = with_accepted n b (g_replay g)"
  using assms(2)
proof (cases rule: next_state_Inr)
  case (1 current epoch w1 ns)
  have "replay_epoch_for (pm_sha pm) (st_adoption p') = Inr (rw_epoch (g_replay g))"
    using assms(1,3,4) epoch_cong [of "st_adoption p'" "st_adoption (g_persistent g)"] 1(5) by (simp add: synced_def)
  then have "w' = w1" using 1(3,6) assms(1) by (simp add: rebased_def synced_def)
  then show ?thesis using 1(3) by auto
qed

lemma commit_window:
  assumes "synced pm g" "commit pm env md (Some n) v a out g = (r, g')" "same_keys g g'"
  shows "(case r of Inl e \<Rightarrow> g_replay g' = g_replay g | Inr x \<Rightarrow> \<exists>b. g_replay g' = with_accepted n b (g_replay g))"
  using assms(2)
proof (cases rule: commit_cases)
  case (committed p' w' g2)
  have "AuthKey a = ad_key (st_adoption p')" "UseAESGCM a = ad_gcm (st_adoption p')"
    using committed(1) by (auto elim!: next_state_Inr)
  moreover have "g_persistent g' = p'" "g_replay g' = w'" using committed(3-5) by (simp_all add: same_core_def)
  ultimately show ?thesis
    using next_state_window [OF assms(1) committed(1)] assms(3) committed(2) by (simp add: same_keys_def)
qed simp_all

lemma accept_response_window:
  assumes "synced pm g" "accept_response pm env md (Some n) body g = (r, g')" "same_keys g g'"
  shows "(case r of Inl e \<Rightarrow> g_replay g' = g_replay g | Inr x \<Rightarrow> \<exists>b. g_replay g' = with_accepted n b (g_replay g))"
  using assms(2)
proof (cases rule: accept_response_cases)
  case (receipt h out)
  then have "g_replay g' = with_accepted n False (g_replay g)" by (simp add: note_accepted_def same_core_def)
  then show ?thesis using receipt(3) by auto
next
  case applied
  then show ?thesis
  proof (cases rule: apply_and_commit_cases)
    case (commits out next0 next1 out1 v)
    show ?thesis by (rule commit_window [OF assms(1) commits(3) assms(3)])
  qed (simp add: same_core_def)
qed (simp add: same_core_def)

text \<open>The decoder of the exchange, and a controller that answers every request with the same bytes.\<close>

definition response_packet :: "primitives \<Rightarrow> gateway \<Rightarrow> byte list \<Rightarrow> (codec_error, packet) result" where
  "response_packet pm g response =
     decode (pm_crypto pm) \<lparr>d_limits = \<lparr>MaxWireBody = 0, MaxPlaintext = 0\<rparr>, d_mac = Some (g_mac g), d_mode = Some (inform_mode g)\<rparr>
       response (ad_key (st_adoption (g_persistent g)))"

definition answers :: "inform_env \<Rightarrow> byte list \<Rightarrow> bool" where
  "answers env response \<longleftrightarrow> (\<forall>url wire. \<exists>announced. ie_client env url wire = Response 200 announced (Some response))"

lemma exchange_once_response:
  assumes "exchange_once pm env (inform_mode g) wire g = (r, reached, res, g')"
  shows "(\<exists>e. r = Inl e \<and> g' = g) \<or>
    (\<exists>response p. (answers env answer \<longrightarrow> response = answer) \<and> response_packet pm g response = Inr p \<and>
       handle_response pm env (inform_mode g) p g = (r, g'))"
proof (cases "exchange (ie_client env) (ad_url (st_adoption (g_persistent g))) wire")
  case (Inl e)
  then show ?thesis using assms by (auto simp: exchange_once_def)
next
  case (Inr response)
  have "response = answer" if same: "answers env answer"
  proof -
    obtain a where "ie_client env (ad_url (st_adoption (g_persistent g))) wire = Response 200 a (Some answer)"
      using same by (auto simp: answers_def)
    then show ?thesis using Inr by (auto simp: exchange_def)
  qed
  then show ?thesis using assms Inr
    by (auto simp: exchange_once_def response_packet_def split: sum.splits prod.splits)
qed

lemma handle_response_gcm:
  assumes "handle_response pm env mode_gcm p g = (r, g')"
  shows "(\<exists>e. r = Inl e \<and> g' = g) \<or>
    (\<exists>n. p_nonce p = Some n \<and> \<not> window_contains (g_replay g) n \<and>
       accept_response pm env mode_gcm (Some n) (text_of (p_payload p)) g = (r, g'))"
  using assms by (auto simp: handle_response_def split: option.splits if_splits)

lemma inform_window:
  assumes "inform_once pm env g = (r, g')" "inform_mode g = mode_gcm"
  shows "(case r of
       Inl e \<Rightarrow> synced pm g \<and> same_keys g g' \<longrightarrow> g_replay g' = g_replay g
     | Inr x \<Rightarrow> (\<exists>response p n w. (answers env answer \<longrightarrow> response = answer) \<and> response_packet pm g response = Inr p \<and>
         p_nonce p = Some n \<and> \<not> window_contains w n \<and> (synced pm g \<longrightarrow> w = g_replay g) \<and>
         (same_keys g g' \<longrightarrow> synced pm g' \<and> (\<exists>b. g_replay g' = with_accepted n b w))))"
  using assms(1)
proof (cases rule: inform_once_cases)
  case (encoded payload q w enc)
  let ?h = "g\<lparr>g_replay := w, g_encoder := enc\<rparr>"
  note w = sync_window_synced [OF encoded(4)]
  from encoded(6) consider e where "r = Inl e" "g' = ?h"
    | wire reached res k where "exchange_once pm env (inform_mode ?h) wire ?h = (r, reached, res, k)"
        "g' = monitor_step (mark_inform (ie_now env) reached res) k"
    by (auto simp: inform_mode_def)
  then show ?thesis
  proof cases
    case (1 e)
    then show ?thesis using w(2) by simp
  next
    case (2 wire reached res k)
    have k: "g_replay k = g_replay g'" "g_persistent k = g_persistent g'"
      using 2(2) by (simp_all add: monitor_step_def)
    have keys: "same_keys ?h k \<longleftrightarrow> same_keys g g'" using k(2) by (simp add: same_keys_def)
    have m: "inform_mode ?h = mode_gcm" "\<And>x. response_packet pm ?h x = response_packet pm g x"
      using assms(2) by (simp_all add: inform_mode_def response_packet_def)
    from exchange_once_response [OF 2(1), of answer] consider e where "r = Inl e" "k = ?h"
      | response p where "answers env answer \<longrightarrow> response = answer" "response_packet pm g response = Inr p"
          "handle_response pm env mode_gcm p ?h = (r, k)"
      unfolding m by blast
    then show ?thesis
    proof cases
      case (1 e)
      then show ?thesis using w(2) k(1) by simp
    next
      case (2 response p)
      note answer = 2(1,2)
      from handle_response_gcm [OF 2(3)] consider e where "r = Inl e" "k = ?h"
        | n where "p_nonce p = Some n" "\<not> window_contains w n"
            "accept_response pm env mode_gcm (Some n) (text_of (p_payload p)) ?h = (r, k)"
        by auto
      then show ?thesis
      proof cases
        case (1 e)
        then show ?thesis using w(2) k(1) by simp
      next
        case (2 n)
        note acc = accept_response_window [OF w(1) 2(3), unfolded keys]
        show ?thesis
        proof (cases r)
          case (Inl e)
          then show ?thesis using acc w(2) k(1) by auto
        next
          case (Inr x)
          have "synced pm g' \<and> (\<exists>b. g_replay g' = with_accepted n b w)" if same: "same_keys g g'"
          proof -
            obtain b where b: "g_replay g' = with_accepted n b w" using acc [OF same] Inr k(1) by auto
            have "synced pm g'"
              by (rule synced_keeps [OF w(1) [of enc]]) (use b same in \<open>simp_all add: same_keys_def\<close>)
            then show ?thesis using b by blast
          qed
          moreover have "synced pm g \<longrightarrow> w = g_replay g" using w(2) by simp
          ultimately show ?thesis using answer 2(1,2) unfolding Inr sum.case by blast
        qed
      qed
    qed
  qed
qed simp

section \<open>Runs\<close>

text \<open>Any interleaving of polls, informs and announcements.\<close>

inductive runs :: "primitives \<Rightarrow> gateway \<Rightarrow> gateway \<Rightarrow> bool" for pm g where
  start: "runs pm g g"
| polled: "runs pm g h \<Longrightarrow> poll_once now (polled :: (nut_error, snapshot) result) h = (r, k) \<Longrightarrow> runs pm g k"
| informed: "runs pm g h \<Longrightarrow> inform_once pm env h = (r, k) \<Longrightarrow> runs pm g k"
| announced: "runs pm g h \<Longrightarrow> announcement_step pm cancelled st now w h = Some (warned, sent, k) \<Longrightarrow> runs pm g k"

text \<open>A run under one key and mode, with the number of responses it accepts.\<close>

inductive session :: "primitives \<Rightarrow> gateway \<Rightarrow> nat \<Rightarrow> gateway \<Rightarrow> bool" for pm g where
  start: "session pm g 0 g"
| polled: "session pm g n h \<Longrightarrow> poll_once now (polled :: (nut_error, snapshot) result) h = (r, k) \<Longrightarrow> session pm g n k"
| refused: "session pm g n h \<Longrightarrow> inform_once pm env h = (Inl e, k) \<Longrightarrow> session pm g n k"
| announced: "session pm g n h \<Longrightarrow> announcement_step pm cancelled st now w h = Some (warned, sent, k) \<Longrightarrow> session pm g n k"
| accepted: "session pm g n h \<Longrightarrow> inform_once pm env h = (Inr out, k) \<Longrightarrow> same_keys h k \<Longrightarrow> session pm g (Suc n) k"

lemma session_runs: "session pm g n h \<Longrightarrow> runs pm g h"
  by (induction rule: session.induct) (auto intro: runs.intros)

text \<open>The state file holds the text of some valid state of the gateway's identity.\<close>

definition file_ok :: "gateway \<Rightarrow> bool" where
  "file_ok g \<longleftrightarrow> (\<exists>s. state_valid s \<and> st_identity s = st_identity (g_persistent g) \<and>
     fs_target (dk_state (g_disk g)) = Some (state_text s))"

lemma stored_file_ok:
  "stored r g g' \<Longrightarrow> gateway_ok g' \<Longrightarrow> same_setup g g' \<Longrightarrow> file_ok g \<Longrightarrow> file_ok g'"
  by (cases r) (fastforce simp: stored_def file_ok_def gateway_ok_def same_setup_def Let_def)+

lemma runs_ok: "runs pm g h \<Longrightarrow> gateway_ok g \<Longrightarrow> file_ok g \<Longrightarrow> gateway_ok h \<and> same_setup g h \<and> file_ok h"
proof (induction rule: runs.induct)
  case (polled h now polled r k)
  then show ?case using poll_once_frame [of now polled h r k]
    by (auto simp: gateway_ok_def same_setup_def file_ok_def)
next
  case (informed h env r k)
  then show ?case using inform_once_ok [of h pm env r k] stored_file_ok same_setup_trans by blast
next
  case (announced h cancelled st now w warned sent k)
  then show ?case using announcement_step_core [OF announced.hyps(2)]
    by (auto simp: gateway_ok_def same_core_def same_setup_def file_ok_def)
qed simp

section \<open>Announcements in a run\<close>

text \<open>Only an announcement moves the discovery counter.\<close>

lemma counter_helpers [simp]:
  "g_next_discovery (monitor_step f g) = g_next_discovery g"
  "g_next_discovery (reset_receipt_context pm s g) = g_next_discovery g"
  "g_next_discovery (reset_firmware_context pm s g) = g_next_discovery g"
  "g_next_discovery (store_receipt r g) = g_next_discovery g"
  "g_next_discovery (block_receipts g) = g_next_discovery g"
  "g_next_discovery (block_firmware_receipts g) = g_next_discovery g"
  "g_next_discovery (note_accepted n now g) = g_next_discovery g"
  by (simp_all add: monitor_step_def reset_receipt_context_def reset_firmware_context_def store_receipt_def
      block_receipts_def block_firmware_receipts_def note_accepted_def Let_def split: sum.split)

lemma counter_receipts:
  "accept_config_receipt c n env g = (r, g') \<Longrightarrow> g_next_discovery g' = g_next_discovery g"
  "accept_firmware_target t n env g = (r, g') \<Longrightarrow> g_next_discovery g' = g_next_discovery g"
  by (auto simp: accept_config_receipt_def accept_firmware_target_def Let_def split: if_splits prod.splits)

lemmas counter_split = Let_def split_beta if_distrib [where f = snd] if_distrib [where f = g_next_discovery]

lemma counter_commit [simp]: "g_next_discovery (snd (commit pm env md nonce v next1 out g)) = g_next_discovery g"
  by (simp add: commit_def counter_split split: sum.split option.split split del: if_split cong: if_cong)

lemma counter_apply [simp]: "g_next_discovery (snd (apply_and_commit pm env md nonce body g)) = g_next_discovery g"
  by (simp add: apply_and_commit_def counter_split split: sum.split unit.split split del: if_split cong: if_cong)

lemma counter_accept: "g_next_discovery (snd (accept_response pm env md nonce body g)) = g_next_discovery g"
  unfolding accept_response_def Let_def
  by (auto dest: counter_receipts split: sum.splits prod.splits option.splits unit.splits)

lemma counter_handle: "handle_response pm env md p g = (r, g') \<Longrightarrow> g_next_discovery g' = g_next_discovery g"
  by (auto simp: handle_response_def split: option.splits if_splits) (metis counter_accept snd_conv)+

lemma counter_exchange: "exchange_once pm env md wire g = (r, reached, res, g') \<Longrightarrow> g_next_discovery g' = g_next_discovery g"
  by (auto simp: exchange_once_def dest: counter_handle split: sum.splits prod.splits)

lemma counter_inform:
  assumes "inform_once pm env g = (r, g')"
  shows "g_next_discovery g' = g_next_discovery g"
  using assms by (cases rule: inform_once_cases) (auto dest: counter_exchange)

lemma counter_poll: "poll_once now polled g = (r, g') \<Longrightarrow> g_next_discovery g' = g_next_discovery g"
  by (auto simp: poll_once_def split: sum.splits if_splits)

lemma runs_counter:
  "runs pm g h \<Longrightarrow> g_next_discovery h \<noteq> 0 \<Longrightarrow> g_next_discovery g \<noteq> 0 \<and> g_next_discovery g \<le> g_next_discovery h"
proof (induction rule: runs.induct)
  case (polled h now polled r k)
  then show ?case using counter_poll by metis
next
  case (informed h env r k)
  then show ?case using counter_inform by metis
next
  case (announced h cancelled st now w warned sent k)
  then have "g_next_discovery h \<noteq> 0 \<and> g_next_discovery h \<le> g_next_discovery k"
    using step_counter [OF announced.hyps(2)] less_plus_one [of "g_next_discovery h"] by auto
  then show ?case using announced.IH by force
qed simp

text \<open>
  C27: No two announcements of a gateway carry the same sequence number: one that is sent after
  another, whatever polls, informs and further announcements lie between, has a greater one.
\<close>

theorem announcement_sequences_increase:
  assumes "announcement_step pm c1 st1 now1 w1 g = Some (warned1, [(p1, d1)], g1)" "runs pm g1 h"
    and "announcement_step pm c2 st2 now2 w2 h = Some (warned2, [(p2, d2)], h1)" "\<And>x. length (pm_sha pm x) = 32"
  shows "wire_sequence p1 < wire_sequence p2"
proof -
  have n: "wire_sequence p1 = g_next_discovery g" "g_next_discovery g1 = g_next_discovery g + 1"
    and m: "wire_sequence p2 = g_next_discovery h" "g_next_discovery h \<noteq> 0"
    using sent_sequence [OF assms(1,4)] sent_sequence [OF assms(3,4)] by auto
  have "g_next_discovery g1 \<noteq> 0 \<and> g_next_discovery g1 \<le> g_next_discovery h" using runs_counter [OF assms(2)] m(2) by simp
  then show ?thesis using n m less_plus_one [of "g_next_discovery g"] by (auto intro: less_le_trans)
qed

section \<open>Replayed responses\<close>

lemma same_keys_trans: "same_keys g h \<Longrightarrow> same_keys h k \<Longrightarrow> same_keys g k"
  by (simp add: same_keys_def)

lemma same_keys_mode: "same_keys g h \<Longrightarrow> inform_mode h = inform_mode g"
  by (simp add: same_keys_def inform_mode_def)

lemma inform_refused_keys: "gateway_ok g \<Longrightarrow> inform_once pm env g = (Inl e, k) \<Longrightarrow> g_persistent k = g_persistent g"
  using inform_once_ok [of g pm env "Inl e" k] by (simp add: stored_def Let_def)

text \<open>In a session the recent ring takes one nonce for every accepted response.\<close>

lemma session_window:
  assumes "session pm g n h" "gateway_ok g" "synced pm g" "inform_mode g = mode_gcm"
  shows "gateway_ok h \<and> synced pm h \<and> same_keys g h \<and>
    (\<exists>ns. length ns = n \<and> rw_recent (g_replay h) = foldl (\<lambda>r m. append_bounded_nonce m r) (rw_recent (g_replay g)) ns)"
  using assms
proof (induction rule: session.induct)
  case start
  then show ?case by (simp add: same_keys_def)
next
  case (polled n h now polled r k)
  then show ?case using poll_once_frame [of now polled h r k]
    by (auto simp: gateway_ok_def same_keys_def synced_def)
next
  case (refused n h env e k)
  then have h: "gateway_ok h" "synced pm h" "same_keys g h" "inform_mode h = mode_gcm"
    using same_keys_mode by auto
  have p: "g_persistent k = g_persistent h" by (rule inform_refused_keys [OF h(1) refused.hyps(2)])
  then have k: "same_keys h k" by (simp add: same_keys_def)
  have "g_replay k = g_replay h" using inform_window [OF refused.hyps(2) h(4)] h(2) k by simp
  then show ?case
    using inform_once_ok [OF h(1) refused.hyps(2)] refused h k p same_keys_trans by (auto simp: synced_def)
next
  case (announced n h cancelled st now w warned sent k)
  then show ?case using announcement_step_core [OF announced.hyps(2)]
    by (auto simp: gateway_ok_def same_keys_def synced_def same_core_def)
next
  case (accepted n h env out k)
  then have h: "gateway_ok h" "synced pm h" "same_keys g h" "inform_mode h = mode_gcm"
    using same_keys_mode by auto
  obtain m b where b: "g_replay k = with_accepted m b (g_replay h)" "synced pm k"
    using inform_window [OF accepted.hyps(2) h(4), of "[]"] h(2) accepted.hyps(3) by auto
  obtain ns where "length ns = n" "rw_recent (g_replay h) = foldl (\<lambda>r m. append_bounded_nonce m r) (rw_recent (g_replay g)) ns"
    using accepted by auto
  then have "length (ns @ [m]) = Suc n \<and>
      rw_recent (g_replay k) = foldl (\<lambda>r m. append_bounded_nonce m r) (rw_recent (g_replay g)) (ns @ [m])"
    by (simp add: b(1))
  then show ?case
    using inform_once_ok [OF h(1) accepted.hyps(2)] b(2) same_keys_trans [OF h(3) accepted.hyps(3)] by blast
qed

lemma handle_response_window:
  assumes "handle_response pm env mode_gcm p g = (Inr out, g')" "synced pm g" "same_keys g g'" "p_nonce p = Some n"
  shows "\<not> window_contains (g_replay g) n \<and> synced pm g' \<and> (\<exists>b. g_replay g' = with_accepted n b (g_replay g))"
proof -
  have a: "\<not> window_contains (g_replay g) n" "accept_response pm env mode_gcm (Some n) (text_of (p_payload p)) g = (Inr out, g')"
    using handle_response_gcm [OF assms(1)] assms(4) by auto
  obtain b where b: "g_replay g' = with_accepted n b (g_replay g)"
    using accept_response_window [OF assms(2) a(2) assms(3)] by auto
  have "synced pm g'" by (rule synced_keeps [OF assms(2,3)]) (simp_all add: b)
  then show ?thesis using a(1) b by blast
qed

text \<open>
  C1: A controller's response cannot be replayed.  After a GCM response has been accepted,
  every inform whose answer authenticates under the same nonce is refused and leaves the
  persistent state as it is, whatever polls and informs came between, as long as key and mode
  are the same and fewer than 128 further responses were accepted.
\<close>

theorem accepted_response_refused:
  assumes "gateway_ok g" "synced pm g" "inform_mode g = mode_gcm" "p_nonce p = Some n" "length n = 16"
    and "handle_response pm env mode_gcm p g = (Inr out, g1)" "same_keys g g1"
    and "session pm g1 k h" "k < max_gcm_replay_nonces"
    and "answers env' response" "response_packet pm h response = Inr p'" "p_nonce p' = Some n"
  shows "\<exists>e h'. inform_once pm env' h = (Inl e, h') \<and> g_persistent h' = g_persistent h"
proof -
  have ok: "gateway_ok g1" using handle_response_ok [OF assms(1) assms(3) [symmetric] _ assms(6)] assms(4,5) by simp
  obtain b where g1: "\<not> window_contains (g_replay g) n" "synced pm g1" "g_replay g1 = with_accepted n b (g_replay g)"
    using handle_response_window [OF assms(6,2,7,4)] by blast
  have mode1: "inform_mode g1 = mode_gcm" using same_keys_mode [OF assms(7)] assms(3) by simp
  obtain ns where h: "gateway_ok h" "synced pm h" "same_keys g1 h" "length ns = k"
      "rw_recent (g_replay h) = foldl (\<lambda>r m. append_bounded_nonce m r) (append_bounded_nonce n (rw_recent (g_replay g))) ns"
    using session_window [OF assms(8) ok g1(2) mode1] unfolding g1(3) by auto
  have "ring_ok (rw_recent (g_replay g))" "n \<notin> ring_seen (rw_recent (g_replay g))"
    using assms(1) g1(1) by (simp_all add: gateway_ok_def window_ok_def window_contains_def)
  then have held: "window_contains (g_replay h) n"
    using ring_protects [of "rw_recent (g_replay g)" n ns] h(4,5) assms(9) by (simp add: window_contains_def)
  obtain r h' where i: "inform_once pm env' h = (r, h')" by fastforce
  show ?thesis
  proof (cases r)
    case (Inl e)
    then show ?thesis using i inform_refused_keys [OF h(1)] by blast
  next
    case (Inr x)
    have "inform_mode h = mode_gcm" using same_keys_mode [OF h(3)] mode1 by simp
    then show ?thesis
      using inform_window [OF i, of response] assms(10-12) h(2) held unfolding Inr by auto
  qed
qed

section \<open>A device that plain HTTP cannot move\<close>

definition confined :: "gateway \<Rightarrow> bool" where
  "confined g \<longleftrightarrow> ad_adopted (st_adoption (g_persistent g)) \<and> ad_gcm (st_adoption (g_persistent g)) \<and>
     \<not> over_https (ad_url (st_adoption (g_persistent g)))"

definition unmoved :: "gateway \<Rightarrow> gateway \<Rightarrow> bool" where
  "unmoved g h \<longleftrightarrow> g_persistent h = g_persistent g \<and> dk_state (g_disk h) = dk_state (g_disk g)"

lemma same_core_unmoved: "same_core g h \<Longrightarrow> unmoved g h"
  by (simp add: same_core_def unmoved_def)

lemma confine_gcm:
  assumes "confine_adopted_plain_http current next0 out mode_gcm allow only = (next1, out1, v)"
    and "Adopted current" "\<not> over_https (InformURL current)"
  shows "next1 = current"
proof -
  have "\<not> (case parse_controller_url (InformURL current) of Inr u \<Rightarrow> u_scheme u = ''https'' | Inl e \<Rightarrow> False)"
    using assms(3) by (simp add: over_https_def split: sum.splits)
  then show ?thesis using assms(1,2) by (simp add: confine_adopted_plain_http_def mode_cbc_def mode_gcm_def Let_def)
qed

lemma apply_and_commit_unmoved:
  assumes "confined g" "apply_and_commit pm env mode_gcm nonce body g = (r, g')"
  shows "unmoved g g'"
  using assms(2)
proof (cases rule: apply_and_commit_cases)
  case (refused e)
  then show ?thesis by (simp add: same_core_unmoved)
next
  case (commits out next0 next1 out1 v)
  have next1: "next1 = adoption_from_state (g_persistent g)"
    using confine_gcm [OF commits(2)] assms(1) by (simp add: confined_def)
  from commits(3) show ?thesis
  proof (cases rule: commit_cases)
    case (committed p' w' g2)
    have "p' = g_persistent g" using next_state_unchanged committed(1) unfolding next1 by blast
    then show ?thesis using committed(3,4,16) next1 by (simp add: unmoved_def same_core_def)
  qed (simp_all add: next1 unmoved_def)
qed

lemma inform_once_unmoved:
  assumes "confined g" "inform_once pm env g = (r, g')"
  shows "unmoved g g'"
  using assms(2)
proof (cases rule: inform_once_cases)
  case (encoded payload q w enc)
  let ?h = "g\<lparr>g_replay := w, g_encoder := enc\<rparr>"
  have c: "confined ?h" "inform_mode g = mode_gcm" "inform_mode ?h = mode_gcm"
    using assms(1) by (simp_all add: confined_def inform_mode_def)
  have u: "unmoved ?h k \<Longrightarrow> unmoved g k" for k by (simp add: unmoved_def)
  from encoded(6) consider "g' = ?h"
    | wire reached res k where "exchange_once pm env (inform_mode ?h) wire ?h = (r, reached, res, k)"
        "g' = monitor_step (mark_inform (ie_now env) reached res) k"
    unfolding c by auto
  then show ?thesis
  proof cases
    case (2 wire reached res k)
    have "unmoved ?h k"
    proof (cases "k = ?h")
      case False
      then obtain n body where "accept_response pm env mode_gcm (Some n) body ?h = (r, k)"
        using exchange_once_response [OF 2(1)] handle_response_gcm unfolding c by metis
      then show ?thesis
      proof (cases rule: accept_response_cases)
        case applied
        then show ?thesis by (rule apply_and_commit_unmoved [OF c(1)])
      qed (simp_all add: same_core_def unmoved_def note_accepted_def)
    qed (simp add: unmoved_def)
    then show ?thesis using u 2(2) by (simp add: unmoved_def monitor_step_def)
  qed (simp add: unmoved_def)
qed (simp add: unmoved_def)

lemma runs_unmoved: "runs pm g h \<Longrightarrow> confined g \<Longrightarrow> unmoved g h"
proof (induction rule: runs.induct)
  case (polled h now polled r k)
  then show ?case using poll_once_frame [of now polled h r k] by (simp add: unmoved_def)
next
  case (informed h env r k)
  then have "unmoved g h" "confined h" by (simp_all add: unmoved_def confined_def)
  then show ?case using inform_once_unmoved [OF _ informed.hyps(2)] by (simp add: unmoved_def)
next
  case (announced h cancelled st now w warned sent k)
  then show ?case using same_core_unmoved [OF announcement_step_core [OF announced.hyps(2)]] by (simp add: unmoved_def)
qed (simp add: unmoved_def)

section \<open>An example\<close>

definition demo_primitives :: primitives where
  "demo_primitives = \<lparr>pm_sha = (\<lambda>k. k), pm_hmac = (\<lambda>_ _. []), pm_crypto = plain_crypto\<rparr>"

definition demo_state :: state where
  "demo_state = example_state\<lparr>st_adoption := (adoption_to_state demo_adoption)\<lparr>ad_nonces := []\<rparr>\<rparr>"

definition demo_gateway_config :: config where
  "demo_gateway_config =
     \<lparr>c_nut = \<lparr>cn_address = ''localhost:3493'', cn_ups = ''ups'', cn_username = [], cn_password = [], cn_timeout = 5 * second,
        cn_insecure = False\<rparr>,
      c_unifi = \<lparr>cu_model = [], cu_version = [], cu_inform_url = ''http://h/inform'', cu_interval = 10 * second,
        cu_timeout = 5 * second, cu_discovery = 0, cu_volatile = False, cu_receipts = ''off'', cu_firmware_sync = False,
        cu_nut_enabled = False, cu_nut_id = [], cu_nut_port = 0\<rparr>,
      c_device = \<lparr>cd_mode = ''shared'', cd_mac = [], cd_serial = [], cd_hostname = ''ups'', cd_ip = ''192.0.2.2''\<rparr>,
      c_runtime = \<lparr>ct_status_file = [], ct_state_file = ''/s'', ct_health = [], ct_poll = 5 * second, ct_stale = 60 * second\<rparr>,
      c_log = ''info''\<rparr>"

definition demo_file :: "string option \<Rightarrow> file_system" where
  "demo_file t = \<lparr>fs_target = t, fs_private = True, fs_temp = None, fs_synced = True, fs_left = []\<rparr>"

definition demo_gateway :: gateway where
  "demo_gateway =
     \<lparr>g_cfg = demo_gateway_config, g_encoder = demo_encoder, g_monitor = new_monitor 0 (60 * second),
      g_network = \<lparr>nw_device_ip = ''192.0.2.2'', nw_inform_ip = ''192.0.2.1'', nw_netmask = ''255.255.255.0'', nw_mac = []\<rparr>,
      g_generation = [], g_started = 0, g_mac = [2, 2, 3, 4, 5, 0xAB],
      g_replay = \<lparr>rw_epoch = \<lparr>ep_digest = the (hex_decode default_key), ep_gcm = True\<rparr>, rw_ready = True,
        rw_recent = empty_ring, rw_protected = empty_ring\<rparr>,
      g_receipt = empty_receipt, g_receipt_epoch = [], g_receipt_blocked = False, g_receipt_last = 0,
      g_firmware = empty_receipt, g_firmware_epoch = [], g_firmware_blocked = False, g_firmware_last = 0,
      g_persistent = demo_state, g_reported_cfg = ''0'', g_reported_fw = [],
      g_latest = \<lparr>SnapUPSName = ''ups'', Variables = Some [''ups.status'' \<mapsto> ''OL''], CollectedAt = 0\<rparr>,
      g_have_latest = True, g_upstream_ok = True, g_last_inform = 0, g_next_discovery = 1,
      g_disk = \<lparr>dk_state = demo_file (Some (state_text demo_state)), dk_receipt = demo_file None, dk_firmware = demo_file None\<rparr>\<rparr>"

definition demo_env :: "byte list \<Rightarrow> inform_env" where
  "demo_env response = \<lparr>ie_now = 1, ie_status = None, ie_client = (\<lambda>_ _. Response 200 (int (length response)) (Some response)),
     ie_fault = (\<lambda>_. False), ie_written = 0\<rparr>"

lemma demo_state_valid: "state_valid demo_state" "adoption_from_state demo_state = demo_adoption"
  unfolding demo_state_def
  by (rule state_valid_next [OF example_valid demo_adoption_valid]) (simp_all add: demo_adoption_def)

lemma demo_gateway_ok: "gateway_ok demo_gateway" "file_ok demo_gateway" "synced demo_primitives demo_gateway"
    "inform_mode demo_gateway = mode_gcm"
proof -
  show "gateway_ok demo_gateway"
    using demo_state_valid demo_adoption_valid
    by (simp add: gateway_ok_def demo_gateway_def window_ok_def encoder_ok_def demo_encoder_def limits_valid_def
        default_codec_limits_def block_size_def, simp add: empty_ring_def)
  show "file_ok demo_gateway"
    using demo_state_valid(1) by (auto simp: file_ok_def demo_gateway_def demo_file_def)
  have "valid_key default_key" using demo_adoption_valid by (simp add: adoption_valid_def demo_adoption_def)
  then show "synced demo_primitives demo_gateway"
    using valid_key_decodes [of default_key]
    by (auto simp: synced_def demo_gateway_def demo_state_def demo_adoption_def demo_primitives_def replay_epoch_for_def)
  show "inform_mode demo_gateway = mode_gcm"
    by (simp add: inform_mode_def demo_gateway_def demo_state_def demo_adoption_def)
qed

lemma decode_default_limits:
  "decode c \<lparr>d_limits = \<lparr>MaxWireBody = 0, MaxPlaintext = 0\<rparr>, d_mac = m, d_mode = md\<rparr> w k =
   decode c \<lparr>d_limits = default_codec_limits, d_mac = m, d_mode = md\<rparr> w k"
proof -
  have "effective_limits \<lparr>MaxWireBody = 0, MaxPlaintext = 0\<rparr> = effective_limits default_codec_limits"
    by (simp add: effective_limits_def default_codec_limits_def)
  then show ?thesis by (simp add: decode_def check_header_def)
qed

lemma demo_accepts:
  assumes "p_payload p = string_bytes reboot_body" "p_nonce p = Some n"
  shows "\<exists>out g1. handle_response demo_primitives env mode_gcm p demo_gateway = (Inr out, g1) \<and> same_keys demo_gateway g1"
proof -
  let ?g = demo_gateway and ?out = "(outcome_of ResponseReboot)\<lparr>RestartRequested := True\<rparr>"
  have cur: "adoption_from_state (g_persistent ?g) = demo_adoption" "Adopted demo_adoption" "UseAESGCM demo_adoption"
    using demo_state_valid(2) by (simp_all add: demo_gateway_def demo_adoption_def)
  have off: "\<not> receipts_eligible ?g (g_persistent ?g) mode_gcm"
    by (simp add: receipts_eligible_def demo_gateway_def demo_gateway_config_def receipts_enabled_def)
  obtain next1 out1 v where c: "confine_adopted_plain_http demo_adoption demo_adoption ?out mode_gcm
      (cu_volatile (c_unifi (g_cfg ?g))) (set_param_has_only_cfgversion reboot_body) = (next1, out1, v)"
    by (rule prod_cases3)
  have next1: "next1 = demo_adoption"
    using c by (auto simp: confine_adopted_plain_http_def mode_cbc_def mode_gcm_def Let_def split: if_splits)
  have "\<exists>w. next_state demo_primitives mode_gcm (Some n) demo_adoption ?g = Inr (demo_state, w)"
  proof -
    let ?E = "rw_epoch (g_replay ?g)" and ?a = "adoption_to_state demo_adoption"
    have p: "g_persistent ?g = demo_state" by (simp add: demo_gateway_def)
    have e: "replay_epoch_for (pm_sha demo_primitives) (st_adoption demo_state) = Inr ?E"
      using demo_gateway_ok(3) by (simp add: synced_def p)
    have a: "st_adoption demo_state = ?a\<lparr>ad_nonces := []\<rparr>" by (simp add: demo_state_def)
    have e': "replay_epoch_for (pm_sha demo_primitives) ?a = Inr ?E"
      using e epoch_cong [of ?a "st_adoption demo_state"] by (simp add: a)
    have r: "rebased (pm_sha demo_primitives) (st_adoption demo_state) w = Inr w" if "rw_ready w" "rw_epoch w = ?E" for w
      using that e by (simp add: rebased_def)
    have "rw_ready (g_replay ?g)" by (simp add: demo_gateway_def)
    then show ?thesis
      using r [of "with_accepted n False (g_replay ?g)"] cur(1)
      unfolding next_state_def Let_def p e e' prod.case sum.case
      by (simp add: a)
  qed
  then obtain w where w: "next_state demo_primitives mode_gcm (Some n) demo_adoption ?g = Inr (demo_state, w)" by blast
  have "\<exists>g1. commit demo_primitives env mode_gcm (Some n) v demo_adoption (out1\<lparr>Interval := 0\<rparr>) ?g = (Inr (out1\<lparr>Interval := 0\<rparr>), g1) \<and>
      g_persistent g1 = demo_state"
    using cur(1) by (simp add: commit_def w monitor_step_def)
  then obtain g1 where g1: "commit demo_primitives env mode_gcm (Some n) v demo_adoption (out1\<lparr>Interval := 0\<rparr>) ?g =
      (Inr (out1\<lparr>Interval := 0\<rparr>), g1)" "g_persistent g1 = demo_state" by blast
  have same: "(if InformURL demo_adoption \<noteq> InformURL demo_adoption then x else Inr ()) = Inr ()" for x :: "(string, unit) result"
    by simp
  have "apply_and_commit demo_primitives env mode_gcm (Some n) reboot_body ?g = (Inr (out1\<lparr>Interval := 0\<rparr>), g1)"
    unfolding apply_and_commit_def Let_def cur(1) apply_reboot [OF demo_adoption_valid cur(2)] prod.case sum.case
      c [unfolded next1] same sum.case old.unit.case
    using off g1(1) by simp
  then have "handle_response demo_primitives env mode_gcm p ?g = (Inr (out1\<lparr>Interval := 0\<rparr>), g1)"
    using off assms by (simp add: handle_response_def accept_response_def demo_gateway_def window_contains_def
        receipt_contains_def empty_ring_def empty_receipt_def Let_def)
  moreover have "same_keys ?g g1" using g1(2) by (simp add: same_keys_def demo_gateway_def)
  ultimately show ?thesis by blast
qed

section \<open>Properties\<close>

text \<open>
  C3: Whatever polls and informs come, in any order and with any answers and failing system
  calls, the gateway keeps its invariant (a valid persistent state, a valid adoption, a
  well-formed replay window, a well-formed encoder), its configuration, its network and its
  identity, and the state file always holds a complete valid state of that identity.
\<close>

theorem gateway_invariant:
  assumes "runs pm g h" "gateway_ok g" "file_ok g"
  shows "gateway_ok h \<and> same_setup g h \<and> file_ok h"
  using runs_ok [OF assms] .

theorem gateway_invariant_witness:
  "\<exists>h. runs demo_primitives demo_gateway h \<and> \<not> g_upstream_ok h \<and> gateway_ok h \<and> same_setup demo_gateway h \<and> file_ok h"
proof -
  let ?h = "snd (poll_once 1 (Inl (Leaf ''refused'') :: (nut_error, snapshot) result) demo_gateway)"
  have "runs demo_primitives demo_gateway ?h" by (rule runs.polled [OF runs.start]) (simp add: prod_eq_iff)
  moreover have "\<not> g_upstream_ok ?h" by (simp add: poll_once_def monitor_step_def)
  ultimately show ?thesis using gateway_invariant demo_gateway_ok(1,2) by blast
qed

text \<open>
  C6: An inform is atomic on the persistent state.  When it succeeds, the state file holds
  the text of the state the process goes on with; when it fails, the process keeps the state
  it had and the file is current as well, except that a failed save may leave the complete
  text of the next state of the same identity.
\<close>

definition file_current :: "gateway \<Rightarrow> bool" where
  "file_current g \<longleftrightarrow> fs_target (dk_state (g_disk g)) = Some (state_text (g_persistent g))"

theorem inform_atomic:
  assumes "gateway_ok g" "file_current g" "inform_once pm env g = (r, g')"
  shows "case r of
      Inr out \<Rightarrow> file_current g'
    | Inl e \<Rightarrow> g_persistent g' = g_persistent g \<and>
        (file_current g' \<or>
         (\<exists>se s. e = SaveFailed se \<and> state_valid s \<and> st_identity s = st_identity (g_persistent g) \<and>
            fs_target (dk_state (g_disk g')) = Some (state_text s)))"
  using inform_once_ok [OF assms(1,3)] assms(2)
  by (cases r) (auto simp: stored_def file_current_def Let_def)

theorem inform_atomic_witness:
  "\<exists>r g'. inform_once demo_primitives (demo_env []) (demo_gateway\<lparr>g_upstream_ok := False\<rparr>) = (r, g') \<and> r = Inl NoObservation \<and>
     g_persistent g' = demo_state \<and> file_current g'"
proof -
  let ?g = "demo_gateway\<lparr>g_upstream_ok := False\<rparr>"
  have i: "inform_once demo_primitives (demo_env []) ?g = (Inl NoObservation, ?g)"
    by (simp add: inform_once_def managed_network_current_def demo_gateway_def demo_gateway_config_def)
  have "gateway_ok ?g" "file_current ?g"
    using demo_gateway_ok(1) by (simp_all add: gateway_ok_def file_current_def demo_gateway_def demo_file_def)
  from inform_atomic [OF this i] show ?thesis using i by (auto simp: demo_gateway_def)
qed

theorem accepted_response_refused_witness:
  "\<exists>n out g1 wire e h'.
     handle_response demo_primitives (demo_env [])
       mode_gcm \<lparr>p_mac = g_mac demo_gateway, p_version = packet_version, p_payload = string_bytes reboot_body, p_nonce = Some n\<rparr>
       demo_gateway = (Inr out, g1) \<and>
     inform_once demo_primitives (demo_env wire) g1 = (Inl e, h') \<and> g_persistent h' = g_persistent g1"
proof -
  let ?plain = "\<lparr>p_mac = g_mac demo_gateway, p_version = 0, p_payload = string_bytes reboot_body, p_nonce = None\<rparr>"
  let ?n = "replicate 8 7 @ put_u64 1"
  let ?p = "\<lparr>p_mac = g_mac demo_gateway, p_version = packet_version, p_payload = string_bytes reboot_body, p_nonce = Some ?n\<rparr>"
  obtain out g1 where h: "handle_response demo_primitives (demo_env []) mode_gcm ?p demo_gateway = (Inr out, g1)"
      "same_keys demo_gateway g1"
    using demo_accepts [of ?p ?n "demo_env []"] by auto
  have size: "string_bytes reboot_body \<noteq> []" "length (string_bytes reboot_body) = 18"
    by (simp_all add: string_bytes_def reboot_text)
  have key: "\<exists>k. parse_key default_key = Some k"
    using demo_adoption_valid
    by (auto simp: adoption_valid_def demo_adoption_def valid_key_def parse_key_def block_size_def split: option.splits)
  have "validate_mac (g_mac demo_gateway)" by (simp add: demo_gateway_def validate_mac_def zero_bytes_def)
  then obtain wire e' where w: "encode plain_crypto ?plain default_key mode_gcm demo_encoder = (Inr wire, e')"
    using key size
    by (auto simp: encode_def demo_encoder_def default_codec_limits_def block_size_def mode_gcm_def mode_cbc_def
        next_gcm_nonce_def seal_packet_def plain_crypto_def Let_def)
  have "decode plain_crypto \<lparr>d_limits = e_limits demo_encoder, d_mac = Some (g_mac demo_gateway), d_mode = Some mode_gcm\<rparr>
      wire default_key = Inr ?p"
    using decode_after_encode [OF plain_crypto_ok _ _ w refl] demo_gateway_ok(1)
    by (simp add: gateway_ok_def demo_gateway_def, simp add: demo_encoder_def)
  then have d: "response_packet demo_primitives demo_gateway wire = Inr ?p"
    unfolding response_packet_def demo_gateway_ok(4) decode_default_limits
    by (simp add: demo_primitives_def demo_encoder_def, simp add: demo_gateway_def demo_state_def demo_adoption_def)
  have "gateway_ok g1 \<and> same_setup demo_gateway g1"
    using handle_response_ok [OF demo_gateway_ok(1) demo_gateway_ok(4) [symmetric] _ h(1)] by (simp add: put_u64_def)
  then have "response_packet demo_primitives g1 wire = response_packet demo_primitives demo_gateway wire"
    using h(2) same_keys_mode [OF h(2)] by (simp add: response_packet_def same_keys_def same_setup_def)
  then have d1: "response_packet demo_primitives g1 wire = Inr ?p" using d by simp
  have "\<exists>e h'. inform_once demo_primitives (demo_env wire) g1 = (Inl e, h') \<and> g_persistent h' = g_persistent g1"
    by (rule accepted_response_refused [OF demo_gateway_ok(1,3,4) _ _ h session.start _ _ d1])
      (simp_all add: max_gcm_replay_nonces_def answers_def demo_env_def put_u64_def)
  then show ?thesis using h(1) by blast
qed

text \<open>
  C2: A device that is adopted, speaks GCM and has an inform URL that is not HTTPS keeps its
  persistent state and its state file exactly as they are through every run: no answer on the
  network can move its endpoint, change its key or mode, or make it write the state file.
\<close>

theorem plain_http_frozen:
  assumes "runs pm g h" "ad_adopted (st_adoption (g_persistent g))" "ad_gcm (st_adoption (g_persistent g))"
    and "\<not> over_https (ad_url (st_adoption (g_persistent g)))"
  shows "g_persistent h = g_persistent g \<and> dk_state (g_disk h) = dk_state (g_disk g)"
  using runs_unmoved [OF assms(1)] assms(2-4) by (simp add: confined_def unmoved_def)

theorem plain_http_frozen_witness:
  "\<exists>h. runs demo_primitives demo_gateway h \<and> \<not> g_upstream_ok h \<and> g_persistent h = demo_state"
proof -
  let ?h = "snd (poll_once 1 (Inl (Leaf ''refused'') :: (nut_error, snapshot) result) demo_gateway)"
  have r: "runs demo_primitives demo_gateway ?h" by (rule runs.polled [OF runs.start]) (simp add: prod_eq_iff)
  have "ad_adopted (st_adoption (g_persistent demo_gateway))" "ad_gcm (st_adoption (g_persistent demo_gateway))"
      "\<not> over_https (ad_url (st_adoption (g_persistent demo_gateway)))"
    using demo_not_https by (simp_all add: demo_gateway_def demo_state_def demo_adoption_def)
  from plain_http_frozen [OF r this] show ?thesis
    using r by (intro exI [of _ ?h]) (simp add: poll_once_def monitor_step_def demo_gateway_def)
qed

section \<open>An example of the announcements\<close>

definition announcing_primitives :: primitives where
  "announcing_primitives = demo_primitives\<lparr>pm_sha := (\<lambda>_. replicate 32 1)\<rparr>"

definition announcing_gateway :: gateway where
  "announcing_gateway =
     demo_gateway\<lparr>g_cfg := demo_gateway_config\<lparr>c_unifi := (c_unifi demo_gateway_config)\<lparr>cu_model := model_ups, cu_version := ''1.6.1''\<rparr>\<rparr>\<rparr>"

lemma announcing_primitives_sha: "length (pm_sha announcing_primitives x) = 32"
  by (simp add: announcing_primitives_def)

lemma announcing_identity:
  "discovery_identity_of announcing_primitives 0 (announcing_gateway\<lparr>g_next_discovery := n\<rparr>) =
     \<lparr>fi_mac = [2, 2, 3, 4, 5, 0xAB], fi_ip = [192, 0, 2, 2], fi_hostname = ''ups'', fi_uptime = 1, fi_sequence = n,
      fi_default = False, fi_hash = replicate 8 1,
      fi_anon = (replicate 16 1)[6 := 0x81, 8 := 0x41], fi_controller = None\<rparr>"
proof -
  have ip: "parse_ip_to4 ''192.0.2.2'' = Some [192, 0, 2, 2]" by code_simp
  have w: "or (and 1 0x0F) 0x80 = (0x81 :: byte)" "or (and 1 0x0F) 0x40 = (0x41 :: byte)" by code_simp+
  show ?thesis
    by (simp add: discovery_identity_of_def announcing_gateway_def announcing_primitives_def demo_gateway_def
        demo_gateway_config_def derive_ids_def ip discovery_uptime_def time_sub_def demo_state_def demo_adoption_def
        adoption_to_state_def numeral_eq_Suc w)
qed

lemma announcing_fingerprint:
  "isOk (new_uswda26 (discovery_identity_of announcing_primitives 0 (announcing_gateway\<lparr>g_next_discovery := 1\<rparr>)))"
  "isOk (new_uswda26 (discovery_identity_of announcing_primitives 0 (announcing_gateway\<lparr>g_next_discovery := 2\<rparr>)))"
  unfolding announcing_identity by code_simp+

lemma announcing_step:
  assumes "n = 1 \<or> n = 2"
  shows "\<exists>packet warned. announcement_step announcing_primitives False None 0 w (announcing_gateway\<lparr>g_next_discovery := n\<rparr>) =
    Some (warned, [(packet, Udp [255, 255, 255, 255] discovery_port)], announcing_gateway\<lparr>g_next_discovery := n + 1\<rparr>)"
proof -
  let ?g = "announcing_gateway\<lparr>g_next_discovery := n\<rparr>"
  have cfg: "cu_model (c_unifi (g_cfg ?g)) = model_ups" "profile_of (g_cfg ?g) = \<lparr>dp_model = model_ups, dp_version = ''1.6.1''\<rparr>"
      "managed_network_current None ?g" "g_reported_fw ?g = []"
    by (simp_all add: announcing_gateway_def profile_of_def managed_network_current_def demo_gateway_def demo_gateway_config_def)
  obtain p where p: "resolve_profile (profile_of (g_cfg ?g)) = Inr p"
    unfolding cfg(2) by (auto simp: resolve_profile_def spec_for_profile_def model_ups_def model_pro_def guard_def)
  obtain a where a: "new_uswda26 (discovery_identity_of announcing_primitives 0 ?g) = Inr a"
    using announcing_fingerprint assms by (auto simp: isOk_def split: sum.splits)
  have nz: "(g_next_discovery ?g = 0) = False" "(model_ups = model_pro) = False" using assms by (auto simp: model_ups_def model_pro_def)
  have d: "discovery_announcement announcing_primitives 0 v2 command_announcement ?g =
      (Inr a, announcing_gateway\<lparr>g_next_discovery := n + 1\<rparr>)"
    by (simp only: discovery_announcement_def p a cfg(1) Let_def sum.case nz with_reported_def cfg(4) if_True if_False simp_thms) simp
  have "validate_identity a = Inr ()" using fingerprint_Inr [of False "discovery_identity_of announcing_primitives 0 ?g" a] a by simp
  moreover have "arrays_ok a" using announced_fields [OF d announcing_primitives_sha] by blast
  ultimately obtain packet where "marshal_announcement a = Inr packet" using marshal_total by blast
  then show ?thesis by (simp add: announcement_step_def cfg(3) d)
qed

theorem announced_datagram_witness:
  "\<exists>packet a. announcement_step announcing_primitives False None 0 None (announcing_gateway\<lparr>g_next_discovery := 1\<rparr>) \<noteq> None \<and>
     parse_announcement packet = Inr a \<and> an_mac a = [2, 2, 3, 4, 5, 0xAB]"
proof -
  obtain packet warned where s: "announcement_step announcing_primitives False None 0 None (announcing_gateway\<lparr>g_next_discovery := 1\<rparr>) =
      Some (warned, [(packet, Udp [255, 255, 255, 255] discovery_port)], announcing_gateway\<lparr>g_next_discovery := 1 + 1\<rparr>)"
    using announcing_step by blast
  have "g_mac (announcing_gateway\<lparr>g_next_discovery := 1\<rparr>) = [2, 2, 3, 4, 5, 0xAB]"
    by (simp add: announcing_gateway_def demo_gateway_def)
  then show ?thesis using announced_datagram [OF s announcing_primitives_sha] s by auto
qed

theorem announcement_key_free_witness:
  "map_option (\<lambda>(warned, sent, g'). (warned, sent))
      (announcement_step announcing_primitives False None 0 (Some 0)
         (demo_gateway\<lparr>g_persistent := (g_persistent demo_gateway)\<lparr>st_adoption := (st_adoption demo_state)\<lparr>ad_key := []\<rparr>\<rparr>\<rparr>)) =
    map_option (\<lambda>(warned, sent, g'). (warned, sent))
      (announcement_step announcing_primitives False None 0 (Some 0) demo_gateway)"
  by (rule announcement_key_free) (simp add: demo_gateway_def)

theorem announcement_sequences_increase_witness:
  "\<exists>p1 p2 g1. announcement_step announcing_primitives False None 0 None (announcing_gateway\<lparr>g_next_discovery := 1\<rparr>) =
      Some (True, [(p1, Udp [255, 255, 255, 255] discovery_port)], g1) \<and> wire_sequence p1 < wire_sequence p2"
proof -
  let ?g = "\<lambda>n. announcing_gateway\<lparr>g_next_discovery := n\<rparr>" and ?d = "Udp [255, 255, 255, 255] discovery_port"
  obtain p1 w1 where s1: "announcement_step announcing_primitives False None 0 None (?g 1) = Some (w1, [(p1, ?d)], ?g (1 + 1))"
    using announcing_step by blast
  obtain p2 w2 where s2: "announcement_step announcing_primitives False None 0 None (?g (1 + 1)) = Some (w2, [(p2, ?d)], ?g (1 + 1 + 1))"
    using announcing_step [of "1 + 1" None] by auto
  have "w1 = True"
    using s1 by (auto simp: announcement_step_def write_failure_def split: if_splits sum.splits prod.splits)
  then show ?thesis using announcement_sequences_increase [OF s1 runs.start s2 announcing_primitives_sha] s1 by blast
qed

end
