(* ===== verification/GatewayStart.thy ===== *)
theory GatewayStart
  imports GatewayRuns
begin

text \<open>
  What the construction of the gateway establishes: the invariant every run then keeps.
\<close>

lemma load_or_create_valid:
  assumes "load_or_create fault n pr m sr url dflt rm ru fs = (Inr s, fs')"
  shows "state_valid s \<and> identity_matches m sr s \<and> file_after pr s fs fs'"
  using load_or_create_result [where fault = fault and n = n and pr = pr and m = m and sr = sr and url = url and dflt = dflt
    and rm = rm and ru = ru and fs = fs] by (simp add: assms)

lemma initialize_receipt_core: "same_core g (initialize_receipt pm g)"
proof -
  let ?h = "reset_receipt_context pm (g_persistent g) g"
  have "same_core ?h (initialize_receipt pm g)"
    by (simp add: initialize_receipt_def Let_def block_receipts_def same_core_def same_setup_def monitor_step_def
        split: sum.split receipt_error.split)
  then show ?thesis using same_core_trans reset_receipt_core by blast
qed

lemma initialize_disk [simp]:
  "g_disk (initialize_receipt pm g) = g_disk g" "g_disk (initialize_firmware_receipt pm g) = g_disk g"
proof -
  have "g_disk (reset_receipt_context pm s g) = g_disk g" "g_disk (reset_firmware_context pm s g) = g_disk g" for s g
    by (simp_all add: reset_receipt_context_def reset_firmware_context_def monitor_step_def Let_def split: sum.split)
  then show "g_disk (initialize_receipt pm g) = g_disk g" "g_disk (initialize_firmware_receipt pm g) = g_disk g"
    by (simp_all add: initialize_receipt_def initialize_firmware_receipt_def Let_def monitor_step_def block_receipts_def
        block_firmware_receipts_def split: sum.split receipt_error.split)
qed

lemma initialize_firmware_receipt_core: "same_core g (initialize_firmware_receipt pm g)"
proof -
  let ?h = "reset_firmware_context pm (g_persistent g) g"
  have "same_core ?h (initialize_firmware_receipt pm g)"
    by (simp add: initialize_firmware_receipt_def Let_def block_firmware_receipts_def same_core_def same_setup_def
        monitor_step_def split: sum.split receipt_error.split)
  then show ?thesis using same_core_trans reset_firmware_core by blast
qed

text \<open>What a started gateway is: bound to its state, with a fresh window and nothing observed.\<close>

definition started :: "primitives \<Rightarrow> config \<Rightarrow> state \<Rightarrow> gateway \<Rightarrow> bool" where
  "started pm cfg p g \<longleftrightarrow>
     gateway_ok g \<and> synced pm g \<and> g_persistent g = p \<and> g_cfg g = cfg \<and>
     ring_order (rw_recent (g_replay g)) = [] \<and>
     (ad_gcm (st_adoption p) \<longrightarrow> ring_order (rw_protected (g_replay g)) = map (\<lambda>e. the (hex_decode e)) (ad_nonces (st_adoption p))) \<and>
     Some (g_mac g) = parse_mac (i_mac (st_identity p)) \<and> e_next (g_encoder g) = 1 \<and> \<not> g_have_latest g"

lemma new_window_started:
  assumes "state_valid p" "new_replay_window sha (st_adoption p) = Inr w"
  shows "window_ok w \<and> rw_ready w \<and> replay_epoch_for sha (st_adoption p) = Inr (rw_epoch w) \<and> ring_order (rw_recent w) = [] \<and>
    (ad_gcm (st_adoption p) \<longrightarrow> ring_order (rw_protected w) = map (\<lambda>e. the (hex_decode e)) (ad_nonces (st_adoption p)))"
proof -
  have "rw_recent w = empty_ring"
    using assms(2) by (auto simp: new_replay_window_def Let_def split: sum.splits if_splits)
  moreover have "\<exists>w. new_replay_window sha (st_adoption p) = Inr w \<and> window_ok w \<and> rw_ready w \<and>
      replay_epoch_for sha (st_adoption p) = Inr (rw_epoch w) \<and>
      (ad_gcm (st_adoption p) \<longrightarrow> ring_order (rw_protected w) = map (\<lambda>e. the (hex_decode e)) (ad_nonces (st_adoption p)))"
    using assms(1) new_replay_window_ok [of "st_adoption p" _ sha]
    by (fastforce simp: state_valid_def Let_def split: option.splits)
  ultimately show ?thesis using assms(2) by (auto simp: empty_ring_def)
qed

lemma lift_error_Inr [simp]: "lift_error r = Inr a \<longleftrightarrow> r = Inr a"
  by (cases r) (simp_all add: lift_error_def)

lemma same_core_started:
  assumes "same_core g h" "g_mac h = g_mac g"
  shows "started pm cfg p h \<longleftrightarrow> started pm cfg p g"
  using assms by (simp add: started_def same_core_def same_setup_def gateway_ok_def synced_def)

lemma build_gateway_started:
  assumes "build_gateway pm cfg env generation nw0 p dk = Inr g" "state_valid p"
  shows "started pm cfg p g \<and> g_disk g = dk"
proof -
  obtain hw where hw: "parse_mac (i_mac (st_identity p)) = Some hw"
    using assms(1) by (cases "parse_mac (i_mac (st_identity p))") (auto simp: build_gateway_def bind_Inr)
  obtain enc where enc: "new_encoder (se_random env) default_codec_limits packet_version = Inr enc"
    using assms(1) hw
    by (cases "new_encoder (se_random env) default_codec_limits packet_version") (auto simp: build_gateway_def bind_Inr)
  obtain g0 where g: "g = initialize_firmware_receipt pm (initialize_receipt pm g0)" and
      g0: "adoption_valid (adoption_from_state p)" "parse_mac (i_mac (st_identity p)) = Some (g_mac g0)"
      "new_encoder (se_random env) default_codec_limits packet_version = Inr (g_encoder g0)"
      "new_replay_window (pm_sha pm) (st_adoption p) = Inr (g_replay g0)" "g_persistent g0 = p" "g_cfg g0 = cfg"
      "\<not> g_have_latest g0" "g_disk g0 = dk"
    using assms(1) hw enc by (fastforce simp: build_gateway_def bind_Inr)
  have e: "encoder_ok (g_encoder g0) \<and> e_next (g_encoder g0) = 1"
    using new_encoder_ok [OF g0(3)] by (simp add: default_codec_limits_def)
  have "started pm cfg p g0"
    using new_window_started [OF assms(2) g0(4)] g0(1,2,5-7) e assms(2)
    by (simp add: started_def gateway_ok_def synced_def)
  moreover have c: "same_core g0 g" unfolding g
    using same_core_trans initialize_receipt_core initialize_firmware_receipt_core by blast
  moreover have "g_mac g = g_mac g0" using c by (simp add: same_core_def same_setup_def)
  ultimately show ?thesis using same_core_started [of g0 g] g0(8) by (simp add: g)
qed

text \<open>
  C23: \<open>New\<close> returns only a gateway that satisfies the invariant of the runs and is bound to the state
  that was loaded: its state is the very one \<open>LoadOrCreate\<close> returned for the MAC of the interface that
  owns the configured address and for the configured serial, and has that MAC and serial; its replay window
  is bound to the stored key and mode and protects exactly the stored nonces, its MAC is that of the state,
  its nonce counter starts at one, and nothing has been observed yet.  The state file is the one the load
  left: it holds that state, as the runs require of it, or it was left as it was found and that state was
  read from it.  A refused start leaves both receipt files alone.
\<close>

theorem new_gateway_started:
  "case new_gateway pm cfg env dk of
     (Inl e, dk') \<Rightarrow> dk_receipt dk' = dk_receipt dk \<and> dk_firmware dk' = dk_firmware dk
   | (Inr g, dk') \<Rightarrow>
       (case start_network cfg env of
          Inl e \<Rightarrow> False
        | Inr nw \<Rightarrow>
            load_or_create (se_fault env) (se_written env) (se_probe env) (nw_mac nw) (cd_serial (c_device cfg))
              (cu_inform_url (c_unifi cfg)) default_key (se_rand_mac env) (se_rand_uuid env) (dk_state dk) =
              (Inr (g_persistent g), dk_state dk') \<and>
            identity_matches (nw_mac nw) (cd_serial (c_device cfg)) (g_persistent g)) \<and>
       started pm cfg (g_persistent g) g \<and> g_disk g = dk' \<and>
       dk_receipt dk' = dk_receipt dk \<and> dk_firmware dk' = dk_firmware dk \<and>
       (file_ok g \<or> read_from (se_probe env) (g_persistent g) \<and> dk_state dk' = dk_state dk)"
proof (cases "fst (new_gateway pm cfg env dk)")
  case (Inl e)
  then show ?thesis by (auto simp: new_gateway_def split: sum.splits prod.splits)
next
  case (Inr g)
  then obtain nw where e: "start_network cfg env = Inr nw"
    by (cases "start_network cfg env") (auto simp: new_gateway_def bind_def split: sum.splits prod.splits)
  obtain generation p fs where l: "load_or_create (se_fault env) (se_written env) (se_probe env) (nw_mac nw)
        (cd_serial (c_device cfg)) (cu_inform_url (c_unifi cfg)) default_key (se_rand_mac env) (se_rand_uuid env) (dk_state dk) = (Inr p, fs)"
      and b: "build_gateway pm cfg env generation nw p (dk\<lparr>dk_state := fs\<rparr>) = Inr g"
      and d: "new_gateway pm cfg env dk = (Inr g, dk\<lparr>dk_state := fs\<rparr>)"
    using Inr by (auto simp: new_gateway_def bind_def e split: sum.splits prod.splits)
  have v: "state_valid p" "identity_matches (nw_mac nw) (cd_serial (c_device cfg)) p" "file_after (se_probe env) p (dk_state dk) fs"
    using load_or_create_valid [OF l] by simp_all
  have s: "started pm cfg p g" "g_disk g = dk\<lparr>dk_state := fs\<rparr>" using build_gateway_started [OF b v(1)] by simp_all
  then have p: "g_persistent g = p" by (simp add: started_def)
  then have "file_ok g \<or> read_from (se_probe env) p \<and> fs = dk_state dk" using v(1,3) s(2) by (auto simp: file_after_def file_ok_def)
  then show ?thesis using s v(2) by (simp add: d e l p)
qed

end
