(* ===== verification/Dhcp.thy ===== *)
theory Dhcp
  imports LocalNetwork InformCodec
begin

text \<open>
  \<open>internal/netagent/dhcp.go\<close>: the messages of the DHCP client and the check of a server's
  reply; and the frames of \<open>link_linux.go\<close> that carry them (\<open>checksum\<close>, \<open>ipv4Broadcast\<close>,
  \<open>dhcpPayload\<close>).  A nil \<open>net.IP\<close> is the empty list; durations are nanoseconds.
\<close>

section \<open>Messages\<close>

record lease =
  le_address :: string
  le_prefix :: int
  le_router :: string
  le_server :: string
  le_duration :: int
  le_renew :: int
  le_rebind :: int

definition no_lease :: lease where
  "no_lease = \<lparr>le_address = [], le_prefix = 0, le_router = [], le_server = [], le_duration = 0, le_renew = 0, le_rebind = 0\<rparr>"

definition magic_cookie :: "byte list" where "magic_cookie = [99, 130, 83, 99]"

text \<open>\<open>copy\<close> of \<open>v\<close> into \<open>n\<close> zero bytes.\<close>

definition copied :: "nat \<Rightarrow> byte list \<Rightarrow> byte list" where
  "copied n v = take n v @ replicate (n - length v) 0"

definition ip_option :: "byte \<Rightarrow> byte list \<Rightarrow> byte list" where
  "ip_option code ip = (case to4 ip of None \<Rightarrow> [] | Some q \<Rightarrow> [code, 4] @ q)"

text \<open>The 240 bytes before the options, with the broadcast flag unless there is a current address.\<close>

definition dhcp_header :: "byte list \<Rightarrow> byte list \<Rightarrow> byte list \<Rightarrow> byte list" where
  "dhcp_header xid mac current =
     [1, 1, 6, 0] @ copied 4 xid @ [0, 0] @
     (case to4 current of None \<Rightarrow> [0x80, 0, 0, 0, 0, 0] | Some q \<Rightarrow> [0, 0] @ q) @
     replicate 12 0 @ copied 6 mac @ replicate 202 0 @ magic_cookie"

definition dhcp_packet :: "byte \<Rightarrow> byte list \<Rightarrow> byte list \<Rightarrow> byte list \<Rightarrow> byte list \<Rightarrow> byte list \<Rightarrow> byte list" where
  "dhcp_packet kind xid mac requested server current =
     (let p = dhcp_header xid mac current @ [53, 1, kind, 61, 7, 1] @ mac @ ip_option 50 requested @ ip_option 54 server @
                [55, 5, 1, 3, 51, 58, 59, 57, 2, 5, 220, 255]
      in p @ replicate (300 - length p) 0)"

section \<open>Replies\<close>

text \<open>The options from a position on: None where the code refuses the reply.\<close>

fun scan_options :: "byte list \<Rightarrow> (byte \<rightharpoonup> byte list) \<Rightarrow> (byte \<rightharpoonup> byte list) option" where
  "scan_options [] opts = None"
| "scan_options (code # rest) opts =
     (if code = 255 then Some opts
      else if code = 0 then scan_options rest opts
      else case rest of
        [] \<Rightarrow> None
      | n # rest' \<Rightarrow>
          if length rest' < unat n then None
          else if opts code \<noteq> None then None
          else scan_options (drop (unat n) rest') (opts(code \<mapsto> take (unat n) rest')))"

definition opt_bytes :: "(byte \<rightharpoonup> byte list) \<Rightarrow> byte \<Rightarrow> byte list" where
  "opt_bytes opts code = (case opts code of None \<Rightarrow> [] | Some v \<Rightarrow> v)"

text \<open>A timer option in nanoseconds, or its default.\<close>

definition timer_option :: "(byte \<rightharpoonup> byte list) \<Rightarrow> byte \<Rightarrow> int \<Rightarrow> int option" where
  "timer_option opts code d0 =
     (case opts code of
        None \<Rightarrow> Some d0
      | Some v \<Rightarrow> if length v \<noteq> 4 then None else Some (int (unat (get_u32 v)) * second))"

definition bad_reply :: "(string, byte \<times> lease) result" where
  "bad_reply = Inl ''invalid DHCP reply''"

definition reply_framed :: "byte list \<Rightarrow> byte list \<Rightarrow> byte list \<Rightarrow> bool" where
  "reply_framed p xid mac \<longleftrightarrow>
     \<not> (length p < 241 \<or> 1500 < length p \<or> length mac \<noteq> 6 \<or> p ! 0 \<noteq> 2 \<or> p ! 1 \<noteq> 1 \<or> p ! 2 \<noteq> 6 \<or>
        sub_bytes 4 8 p \<noteq> xid \<or> sub_bytes 28 34 p \<noteq> mac \<or> sub_bytes 236 240 p \<noteq> magic_cookie)"

definition options_acceptable :: "(byte \<rightharpoonup> byte list) \<Rightarrow> byte list \<Rightarrow> bool" where
  "options_acceptable opts mac \<longleftrightarrow>
     \<not> (length (opt_bytes opts 53) \<noteq> 1 \<or> length (opt_bytes opts 54) \<noteq> 4) \<and>
     opts 52 = None \<and> opts 121 = None \<and> opts 249 = None \<and>
     (case opts 61 of Some i \<Rightarrow> i = 1 # mac | None \<Rightarrow> True)"

definition server_usable :: "string \<Rightarrow> bool" where
  "server_usable server =
     (case parse_ip_to4 server of
        None \<Rightarrow> False
      | Some s \<Rightarrow> \<not> (\<not> global_unicast4 s \<or> loopback4 s \<or> link_local4 s \<or> s ! 0 = 0 \<or> 224 \<le> s ! 0))"

text \<open>The lease of an offer or an acknowledgement.\<close>

definition reply_lease :: "byte \<Rightarrow> byte list \<Rightarrow> (byte \<rightharpoonup> byte list) \<Rightarrow> lease \<Rightarrow> (string, byte \<times> lease) result" where
  "reply_lease kind p opts l0 =
     (if length (opt_bytes opts 1) \<noteq> 4 \<or> length (opt_bytes opts 3) \<noteq> 4 \<or> length (opt_bytes opts 51) \<noteq> 4 then bad_reply
      else let l1 = l0\<lparr>le_address := ip4_text (sub_bytes 16 20 p), le_router := ip4_text (opt_bytes opts 3)\<rparr> in
        case mask_size (opt_bytes opts 1) of
          None \<Rightarrow> bad_reply
        | Some bits \<Rightarrow>
            if validate_address (le_address l1) (int bits) (le_router l1) \<noteq> Inr () then bad_reply
            else let seconds = unat (get_u32 (opt_bytes opts 51)); d = int seconds * second in
              if seconds < 30 \<or> 7 * 24 * 3600 < seconds then bad_reply
              else case (timer_option opts 58 (d div 2), timer_option opts 59 (d * 7 div 8)) of
                (Some renew, Some rebind) \<Rightarrow>
                  if renew \<le> 0 \<or> rebind \<le> renew \<or> d \<le> rebind then bad_reply
                  else Inr (kind, l1\<lparr>le_prefix := int bits, le_duration := d, le_renew := renew, le_rebind := rebind\<rparr>)
              | _ \<Rightarrow> bad_reply)"

definition reply :: "byte list \<Rightarrow> byte list \<Rightarrow> byte list \<Rightarrow> (string, byte \<times> lease) result" where
  "reply p xid mac =
     (if \<not> reply_framed p xid mac then bad_reply
      else case scan_options (drop 240 p) Map.empty of
        None \<Rightarrow> bad_reply
      | Some opts \<Rightarrow>
          if \<not> options_acceptable opts mac then bad_reply
          else let l = no_lease\<lparr>le_server := ip4_text (opt_bytes opts 54)\<rparr>; kind = opt_bytes opts 53 ! 0 in
            if \<not> server_usable (le_server l) then bad_reply
            else if kind = 6 then Inr (kind, l)
            else if kind \<noteq> 2 \<and> kind \<noteq> 5 then bad_reply
            else reply_lease kind p opts l)"

section \<open>Frames\<close>

text \<open>The 32-bit sum of the 16-bit words, and its carries folded in.\<close>

fun word_sum :: "byte list \<Rightarrow> u32 \<Rightarrow> u32" where
  "word_sum (a # b # rest) s = word_sum rest (s + ucast (get_u16 [a, b]))"
| "word_sum [a] s = s + push_bit 8 (ucast a)"
| "word_sum [] s = s"

lemma carry_decreases:
  fixes s :: u32
  assumes "drop_bit 16 s \<noteq> 0"
  shows "unat ((s AND 65535) + drop_bit 16 s) < unat s"
proof -
  have a: "unat (s AND 65535) = unat s mod 65536"
  proof -
    have "(65535 :: u32) = mask 16" by (simp add: mask_eq_exp_minus_1)
    then have "s AND 65535 = take_bit 16 s" by (simp add: take_bit_eq_mask)
    then show ?thesis using unat_host [of 16 s] by simp
  qed
  have d: "unat (drop_bit 16 s) = unat s div 65536" using unat_network [of 16 s] by simp
  have "unat s < 4294967296" using unsigned_less [of s, where ?'a = nat] by simp
  then have small: "unat s mod 65536 + unat s div 65536 < 4294967296" by linarith
  have "unat s div 65536 \<noteq> 0" using assms d by (metis unsigned_eq_0_iff)
  then have "unat s mod 65536 + unat s div 65536 < unat s" using div_mult_mod_eq [of "unat s" 65536] by linarith
  then show ?thesis using small by (simp add: unat_word_ariths a d)
qed

function fold_carry :: "u32 \<Rightarrow> u32" where
  "fold_carry s = (if drop_bit 16 s = 0 then s else fold_carry ((s AND 65535) + drop_bit 16 s))"
  by pat_completeness auto
termination by (relation "measure unat") (use carry_decreases in auto)

declare fold_carry.simps [simp del]

definition checksum :: "byte list \<Rightarrow> u16" where
  "checksum p = NOT (ucast (fold_carry (word_sum p 0)))"

text \<open>The IPv4 header with its checksum bytes, and the broadcast frame from port 68 to port 67.\<close>

definition ip_header :: "nat \<Rightarrow> byte list \<Rightarrow> byte list \<Rightarrow> byte list" where
  "ip_header n_total cs source =
     [0x45, 0] @ put_u16 (of_nat n_total) @ [0, 0, 0, 0, 64, 17] @ cs @ source @ [255, 255, 255, 255]"

definition udp_datagram :: "byte list \<Rightarrow> byte list" where
  "udp_datagram payload = put_u16 68 @ put_u16 67 @ put_u16 (of_nat (8 + length payload)) @ [0, 0] @ payload"

definition ipv4_frame :: "byte list \<Rightarrow> byte list \<Rightarrow> byte list" where
  "ipv4_frame source payload =
     (let n = 28 + length payload
      in ip_header n (put_u16 (checksum (ip_header n [0, 0] source))) source @ udp_datagram payload)"

definition ipv4_broadcast :: "byte list \<Rightarrow> byte list" where
  "ipv4_broadcast payload = ipv4_frame [0, 0, 0, 0] payload"

text \<open>The frame of a rebinding request: the source is written over, and the checksum made again.\<close>

definition rebind_frame :: "byte list \<Rightarrow> byte list \<Rightarrow> byte list" where
  "rebind_frame source payload =
     (let p = ipv4_broadcast payload; q = take 10 p @ [0, 0] @ source @ drop 16 p
      in take 10 q @ put_u16 (checksum (take 20 q)) @ drop 12 q)"

text \<open>The payload of a UDP datagram from port 67 to port 68; None is nil.\<close>

definition dhcp_payload :: "byte list \<Rightarrow> byte list option" where
  "dhcp_payload p =
     (if length p < 28 \<or> drop_bit 4 (p ! 0) \<noteq> 4 \<or> p ! 9 \<noteq> 17 then None
      else let h = unat (p ! 0 AND 15) * 4; n_total = unat (get_u16 (sub_bytes 2 4 p)) in
        if h < 20 \<or> length p < n_total \<or> n_total < h + 8 \<or> get_u16 (sub_bytes 6 8 p) AND 0x3FFF \<noteq> 0 \<or> checksum (take h p) \<noteq> 0
        then None
        else let u = sub_bytes h n_total p in
          if get_u16 (sub_bytes 0 2 u) \<noteq> 67 \<or> get_u16 (sub_bytes 2 4 u) \<noteq> 68 \<or> unat (get_u16 (sub_bytes 4 6 u)) \<noteq> length u
          then None
          else if get_u16 (sub_bytes 6 8 u) \<noteq> 0 \<and>
                  checksum (sub_bytes 12 20 p @ [0, 17, u ! 4, u ! 5] @ u) \<noteq> 0 then None
          else Some (drop 8 u))"

end
