(* ===== verification/NetLink.thy ===== *)
theory NetLink
  imports Dhcp "HOL-Library.Multiset"
begin

text \<open>
  The interfaces and routes of \<open>internal/netagent/link_linux.go\<close> and \<open>aux_linux.go\<close>: which
  interface the agent may take, which addresses and default routes it may remove, and which
  subnets it refuses.  What the kernel reports is an argument; a read that fails is None.
  Integers in netlink messages are little endian here, the order of the deployed machines.
\<close>

section \<open>Netlink attributes\<close>

definition put_le :: "nat \<Rightarrow> nat \<Rightarrow> byte list" where "put_le n v = rev (be_bytes n v)"
definition get_le :: "byte list \<Rightarrow> nat" where "get_le bs = be_value (rev bs)"

definition u32_bytes :: "u32 \<Rightarrow> byte list" where "u32_bytes v = put_le 4 (unat v)"

text \<open>The length rounded up to four.\<close>

definition aligned :: "nat \<Rightarrow> nat" where "aligned n = (n + 3) div 4 * 4"

definition attr :: "u16 \<Rightarrow> byte list \<Rightarrow> byte list" where
  "attr kind v =
     (let n = 4 + length v; p = put_le 2 (n mod 65536) @ put_le 2 (unat kind) @ v
      in p @ replicate (aligned n - n) 0)"

section \<open>Requests to the kernel\<close>

text \<open>The rtnetlink message: length, kind, flags with request and acknowledgement, sequence 1.\<close>

definition rtnl_message :: "nat \<Rightarrow> nat \<Rightarrow> byte list \<Rightarrow> byte list" where
  "rtnl_message kind flags body =
     put_le 4 (16 + length body) @ put_le 2 kind @ put_le 2 (or flags 5) @ put_le 4 1 @ [0, 0, 0, 0] @ body"

datatype rtnl_error = RtnlText string | Errno int

text \<open>
  The answers in one datagram, each its sequence number, type and data: the verdict, or None
  where none of them answers the request.
\<close>

fun rtnl_answer :: "(nat \<times> nat \<times> byte list) list \<Rightarrow> (rtnl_error, unit) result option" where
  "rtnl_answer [] = None"
| "rtnl_answer ((seq, kind, d) # rest) =
     (if seq \<noteq> 1 \<or> kind \<noteq> 2 then rtnl_answer rest
      else if length d < 4 then Some (Inl (RtnlText ''network control short response''))
      else let code = signed (of_nat (get_le (take 4 d)) :: u32) :: int in
        Some (if code \<noteq> 0 then Inl (Errno (- code)) else Inr ()))"

text \<open>One request: its kind, flags and body.\<close>

type_synonym request = "nat \<times> nat \<times> byte list"

definition address_request :: "int \<Rightarrow> byte list \<Rightarrow> int \<Rightarrow> u32 \<Rightarrow> bool \<Rightarrow> request" where
  "address_request ifindex a bits lifetime remove =
     (let p = [2, of_int bits, 0, 0] @ u32_bytes (of_int ifindex) @ attr 2 a @ attr 1 a;
          cache = u32_bytes lifetime @ u32_bytes lifetime @ replicate 8 0
      in if remove then (21, 0, p) else (20, 0x500, p @ attr 6 cache))"

definition default_route_request :: "int \<Rightarrow> byte list \<Rightarrow> bool \<Rightarrow> request" where
  "default_route_request ifindex router remove =
     (let p = [2, 0, 0, 0, 254, 4, 0, 1, 0, 0, 0, 0] @ attr 5 router @ attr 4 (u32_bytes (of_int ifindex)) @ attr 6 (u32_bytes 42760)
      in if remove then (25, 0, p) else (24, 0x600, p))"

text \<open>A removal that finds nothing succeeds.\<close>

definition address_result :: "bool \<Rightarrow> (rtnl_error, unit) result \<Rightarrow> (rtnl_error, unit) result" where
  "address_result remove r = (if remove \<and> (r = Inl (Errno 99) \<or> r = Inl (Errno 2)) then Inr () else r)"

definition route_result :: "bool \<Rightarrow> (rtnl_error, unit) result \<Rightarrow> (rtnl_error, unit) result" where
  "route_result remove r = (if remove \<and> (r = Inl (Errno 3) \<or> r = Inl (Errno 2)) then Inr () else r)"

section \<open>Messages of the kernel\<close>

record route_message =
  rm_type :: nat
  rm_data :: "byte list"

text \<open>
  \<open>syscall.ParseNetlinkRouteAttr\<close> on the bytes after the message's header: each attribute states its
  length and is padded to four bytes; the kernel pads the last one too.
\<close>

function route_attrs :: "byte list \<Rightarrow> (nat \<times> byte list) list option" where
  "route_attrs b =
     (if length b < 4 then Some []
      else let n = get_le (take 2 b) in
        if n < 4 \<or> length b < n then None
        else case route_attrs (drop (aligned n) b) of
          None \<Rightarrow> None
        | Some rest \<Rightarrow> Some ((get_le (sub_bytes 2 4 b), sub_bytes 4 n b) # rest))"
  by pat_completeness auto

termination
  by (relation "measure length") (auto simp: aligned_def)

declare route_attrs.simps [simp del]

section \<open>Interfaces\<close>

text \<open>An interface as reported, with the kernel's link metadata; None where it cannot be read.\<close>

record link =
  li_index :: int
  li_mac :: "byte list"
  li_flags :: u32
  li_info :: "route_message list option"
  li_addrs :: "interface_address list option"

definition flag_up :: u32 where "flag_up = 1"
definition flag_broadcast :: u32 where "flag_broadcast = 2"
definition flag_loopback :: u32 where "flag_loopback = 4"

text \<open>Whether the nested attributes of the link information name the kind.\<close>

function nested_kind :: "byte list \<Rightarrow> byte list \<Rightarrow> bool" where
  "nested_kind kind b =
     (if length b < 4 then False
      else let n = get_le (take 2 b) in
        if n < 4 \<or> length b < n then False
        else if and (get_le (sub_bytes 2 4 b)) 0x3FFF = 1 \<and> sub_bytes 4 n b = kind then True
        else if length b < aligned n then False
        else nested_kind kind (drop (aligned n) b))"
  by pat_completeness auto

termination
  by (relation "measure (length o snd)") (auto simp: aligned_def)

declare nested_kind.simps [simp del]

text \<open>The link messages of the interface, up to the first whose attributes do not parse.\<close>

fun scan_links :: "int \<Rightarrow> byte list \<Rightarrow> route_message list \<Rightarrow> bool" where
  "scan_links index kind [] = False"
| "scan_links index kind (m # ms) =
     (let d = rm_data m in
      if rm_type m \<noteq> 16 \<or> length d < 16 \<or> sint (of_nat (get_le (sub_bytes 4 8 d)) :: u32) \<noteq> index \<or> get_le (sub_bytes 2 4 d) \<noteq> 1
      then scan_links index kind ms
      else case route_attrs (drop 16 d) of
        None \<Rightarrow> False
      | Some attrs \<Rightarrow> list_ex (\<lambda>(t, v). and t 0x3FFF = 18 \<and> nested_kind kind v) attrs \<or> scan_links index kind ms)"

definition require_link_kind :: "link \<Rightarrow> string \<Rightarrow> bool" where
  "require_link_kind l kind \<longleftrightarrow>
     (case li_info l of None \<Rightarrow> False | Some ms \<Rightarrow> scan_links (li_index l) (string_bytes kind @ [0]) ms)"

definition active_ethernet :: "link \<Rightarrow> bool" where
  "active_ethernet l \<longleftrightarrow>
     length (li_mac l) = 6 \<and> li_mac l ! 0 AND 1 = 0 \<and> li_flags l AND flag_up \<noteq> 0 \<and>
     li_flags l AND flag_broadcast \<noteq> 0 \<and> li_flags l AND flag_loopback = 0"

text \<open>Link-local unicast of an address that is not IPv4: \<open>fe80::/10\<close>.\<close>

definition link_local6 :: "byte list \<Rightarrow> bool" where
  "link_local6 ip \<longleftrightarrow> length ip = 16 \<and> ip ! 0 = 0xFE \<and> ip ! 1 AND 0xC0 = 0x80"

definition mask_bits :: "byte list \<Rightarrow> nat option" where
  "mask_bits m = (if length m = 4 then mask_size m else None)"

text \<open>Whether the bootstrap subnet \<open>169.254.254.0/24\<close> contains the address.\<close>

definition in_bootstrap :: "byte list \<Rightarrow> bool" where
  "in_bootstrap ip \<longleftrightarrow> (case to4 ip of None \<Rightarrow> False | Some q \<Rightarrow> take 3 q = [169, 254, 254])"

fun bootstrap_count :: "interface_address list \<Rightarrow> nat \<Rightarrow> nat option" where
  "bootstrap_count [] n = Some n"
| "bootstrap_count (OtherAddress # rest) n = None"
| "bootstrap_count (IPNet ip m # rest) n =
     (if to4 ip = None \<and> link_local6 ip then bootstrap_count rest n
      else if mask_bits m \<noteq> Some 24 \<or> \<not> in_bootstrap ip then None
      else bootstrap_count rest (n + 1))"

definition bootstrap_interface :: "link \<Rightarrow> bool" where
  "bootstrap_interface l \<longleftrightarrow> (case li_addrs l of None \<Rightarrow> False | Some as \<Rightarrow> bootstrap_count as 0 = Some 1)"

text \<open>The last of the interfaces that pass, and how many do.\<close>

definition select_by :: "(link \<Rightarrow> bool) \<Rightarrow> link list \<Rightarrow> nat \<times> link option" where
  "select_by ok ls = (let found = filter ok ls in (length found, if found = [] then None else Some (last found)))"

definition selected_interface :: "byte list \<Rightarrow> link list option \<Rightarrow> (string, link) result" where
  "selected_interface mac links =
     (case links of
        None \<Rightarrow> Inl ''interface lookup failed''
      | Some ls \<Rightarrow>
          (let byMac = select_by (\<lambda>l. mac_text (li_mac l) = mac_text mac) ls;
               (count, selected) = (if fst byMac = 0
                 then select_by (\<lambda>l. \<not> (\<not> active_ethernet l \<or> \<not> require_link_kind l ''macvlan'' \<or> \<not> bootstrap_interface l)) ls
                 else byMac)
           in case selected of
                None \<Rightarrow> Inl ''one active LAN interface is required''
              | Some l \<Rightarrow>
                  guard (count \<noteq> 1 \<or> \<not> active_ethernet l) ''one active LAN interface is required'' (
                  guard (\<not> require_link_kind l ''macvlan'') ''unexpected managed interface kind'' (Inr l))))"

text \<open>The addresses the preparation may remove: only those of the bootstrap subnet.\<close>

fun bootstrap_list :: "interface_address list \<Rightarrow> (string, (byte list \<times> byte list) list) result" where
  "bootstrap_list [] = Inr []"
| "bootstrap_list (OtherAddress # rest) = Inl ''unexpected interface address''"
| "bootstrap_list (IPNet ip m # rest) =
     (if to4 ip = None then
        (if link_local6 ip then bootstrap_list rest else Inl ''managed LAN must be IPv4 only'')
      else guard (mask_bits m \<noteq> Some 24 \<or> \<not> in_bootstrap ip) ''refusing to replace an unmanaged address'' (
        bind (bootstrap_list rest) (\<lambda>more. Inr ((ip, m) # more))))"

definition bootstrap_addresses :: "link \<Rightarrow> (string, (byte list \<times> byte list) list) result" where
  "bootstrap_addresses l =
     (case li_addrs l of None \<Rightarrow> Inl ''interface addresses unavailable'' | Some as \<Rightarrow> bootstrap_list as)"

section \<open>Overlap with the other subnets\<close>

definition cidr_mask :: "int \<Rightarrow> byte list" where
  "cidr_mask bits = be_bytes 4 (mask_value (nat bits))"

text \<open>\<open>IPNet.Contains\<close> on IPv4, and \<open>IP.Mask\<close>; a mask of 16 bytes counts by its last four.\<close>

definition mask4 :: "byte list \<Rightarrow> byte list" where "mask4 m = (if length m = 16 then drop 12 m else m)"

definition net_contains :: "byte list \<Rightarrow> byte list \<Rightarrow> byte list \<Rightarrow> bool" where
  "net_contains net m ip \<longleftrightarrow> length (mask4 m) = 4 \<and> network_of net (mask4 m) = network_of ip (mask4 m)"

definition overlaps :: "byte list \<Rightarrow> byte list \<Rightarrow> interface_address \<Rightarrow> bool" where
  "overlaps wanted wm a =
     (case a of
        OtherAddress \<Rightarrow> False
      | IPNet ip m \<Rightarrow>
          (case to4 ip of
             None \<Rightarrow> False
           | Some q \<Rightarrow> net_contains q m wanted \<or> net_contains wanted wm (network_of q (mask4 m))))"

definition no_other_subnet_overlap :: "int \<Rightarrow> lease \<Rightarrow> link list option \<Rightarrow> (string, unit) result" where
  "no_other_subnet_overlap index l links =
     (case links of
        None \<Rightarrow> Inl ''interface lookup failed''
      | Some ls \<Rightarrow>
          (let wm = cidr_mask (le_prefix l);
               wanted = network_of (the (parse_ip_to4 (le_address l))) wm;
               others = filter (\<lambda>f. \<not> (li_index f = index \<or> li_flags f AND flag_loopback \<noteq> 0)) ls
           in case find (\<lambda>f. li_addrs f = None \<or> list_ex (overlaps wanted wm) (the (li_addrs f))) others of
                None \<Rightarrow> Inr ()
              | Some f \<Rightarrow> Inl (if li_addrs f = None then ''interface addresses unavailable''
                               else ''LAN overlaps another attached subnet'')))"

section \<open>The auxiliary interface\<close>

record auxiliary =
  ax_link :: "link option"
  ax_address :: string
  ax_prefix :: int
  ax_router :: "byte list"

definition no_auxiliary :: auxiliary where
  "no_auxiliary = \<lparr>ax_link = None, ax_address = [], ax_prefix = 0, ax_router = []\<rparr>"

text \<open>The text of an address that parses as IPv4 and is written canonically.\<close>

definition canonical4 :: "string \<Rightarrow> bool" where
  "canonical4 s \<longleftrightarrow> (case parse_ip_to4 s of None \<Rightarrow> False | Some q \<Rightarrow> ip4_text q = s)"

fun aux_addresses_ok :: "auxiliary \<Rightarrow> interface_address list \<Rightarrow> nat \<Rightarrow> bool" where
  "aux_addresses_ok a [] n = (n = 1)"
| "aux_addresses_ok a (OtherAddress # rest) n = False"
| "aux_addresses_ok a (IPNet ip m # rest) n =
     (if to4 ip = None \<and> link_local6 ip then aux_addresses_ok a rest n
      else case (mask_bits m, to4 ip) of
        (Some bits, Some q) \<Rightarrow> int bits = ax_prefix a \<and> ip4_text q = ax_address a \<and> aux_addresses_ok a rest (n + 1)
      | _ \<Rightarrow> False)"

text \<open>\<open>unchanged\<close>: the interface of that index as the kernel shows it now.\<close>

definition aux_unchanged :: "auxiliary \<Rightarrow> (int \<Rightarrow> link option) \<Rightarrow> bool" where
  "aux_unchanged a fresh =
     (case ax_link a of
        None \<Rightarrow> True
      | Some l \<Rightarrow>
          (case fresh (li_index l) of
             None \<Rightarrow> False
           | Some f \<Rightarrow>
               li_flags f = li_flags l \<and> li_mac f = li_mac l \<and>
               require_link_kind f ''veth'' \<and>
               (case li_addrs f of None \<Rightarrow> False | Some as \<Rightarrow> aux_addresses_ok a as 0)))"

definition aux_matches_of :: "byte list \<Rightarrow> link list \<Rightarrow> (link \<times> byte list) list" where
  "aux_matches_of q ls =
     concat (map (\<lambda>l. List.map_filter (\<lambda>a. case a of IPNet ip m \<Rightarrow> if ip_equal4 ip q then Some (l, m) else None | OtherAddress \<Rightarrow> None)
       (the (li_addrs l))) ls)"

definition auxiliary_interface :: "int \<Rightarrow> string \<Rightarrow> string \<Rightarrow> link list option \<Rightarrow> (int \<Rightarrow> link option) \<Rightarrow> (string, auxiliary) result" where
  "auxiliary_interface lan address router links fresh =
     (if address = [] \<and> router = [] then Inr no_auxiliary
      else guard (\<not> canonical4 address \<or> \<not> canonical4 router) ''invalid auxiliary network tuple'' (
      case links of
        None \<Rightarrow> Inl ''auxiliary interface inventory unavailable''
      | Some ls \<Rightarrow>
          guard (\<exists>l \<in> set ls. li_addrs l = None) ''auxiliary address inventory unavailable'' (
          case aux_matches_of (the (parse_ip_to4 address)) ls of
            [(l, m)] \<Rightarrow>
              (let found = \<lparr>ax_link = Some l, ax_address = address,
                     ax_prefix = (case mask_bits m of None \<Rightarrow> 0 | Some b \<Rightarrow> int b), ax_router = the (parse_ip_to4 router)\<rparr>
               in guard (li_index l = lan \<or> \<not> active_ethernet l \<or> \<not> require_link_kind l ''veth'' \<or>
                         validate_address address (ax_prefix found) router \<noteq> Inr () \<or> \<not> aux_unchanged found fresh)
                    ''one explicit auxiliary veth interface is required'' (Inr found))
          | _ \<Rightarrow> Inl ''one explicit auxiliary veth interface is required'')))"

section \<open>Routes\<close>

fun aux_attrs_ok :: "auxiliary \<Rightarrow> int \<Rightarrow> (nat \<times> byte list) list \<Rightarrow> nat set \<Rightarrow> bool" where
  "aux_attrs_ok a index [] seen = True"
| "aux_attrs_ok a index ((t, v) # rest) seen =
     (if t \<in> seen \<or> length v \<noteq> 4 then False
      else (if t = 15 then get_le v = 254
            else if t = 4 then get_le v = nat (index mod 2 ^ 32)
            else if t = 5 then v = ax_router a
            else False) \<and> aux_attrs_ok a index rest (insert t seen))"

definition aux_header :: "byte list" where "aux_header = [2, 0, 0, 0, 254, 3, 0, 1, 0, 0, 0, 0]"

definition aux_matches :: "auxiliary \<Rightarrow> byte list \<Rightarrow> (nat \<times> byte list) list \<Rightarrow> bool" where
  "aux_matches a d attrs \<longleftrightarrow>
     (case ax_link a of
        None \<Rightarrow> False
      | Some l \<Rightarrow> 12 \<le> length d \<and> take 12 d = aux_header \<and> length attrs = 3 \<and> aux_attrs_ok a (li_index l) attrs {})"

text \<open>The last value of an attribute of four bytes, or zero.\<close>

definition attr_u32 :: "nat \<Rightarrow> (nat \<times> byte list) list \<Rightarrow> nat" where
  "attr_u32 kind attrs = foldl (\<lambda>x (t, v). if t = kind \<and> length v = 4 then get_le v else x) 0 attrs"

text \<open>The routes to remove, and all routes of the main table as they were.\<close>

record route_plan =
  pl_remove :: "byte list list"
  pl_snapshot :: "byte list list"

definition own_route :: "int \<Rightarrow> byte list \<Rightarrow> (nat \<times> byte list) list \<Rightarrow> bool" where
  "own_route index d attrs \<longleftrightarrow> int (attr_u32 4 attrs) = index \<and> attr_u32 6 attrs = 42760 \<and> d ! 5 = 4"

fun inspect_routes :: "int \<Rightarrow> bool \<Rightarrow> auxiliary \<Rightarrow> route_message list \<Rightarrow> nat \<Rightarrow> (string, route_plan) result" where
  "inspect_routes index recovery a [] n = Inr \<lparr>pl_remove = [], pl_snapshot = []\<rparr>"
| "inspect_routes index recovery a (m # ms) n =
     (let d = rm_data m in
      if rm_type m \<noteq> 24 \<or> length d < 12 \<or> d ! 4 \<noteq> 254 then inspect_routes index recovery a ms n
      else case route_attrs (drop 12 d) of
        None \<Rightarrow> Inl ''invalid route attributes''
      | Some attrs \<Rightarrow>
          if d ! 1 = 0 then
            (if aux_matches a d attrs then
               (if 1 \<le> n then Inl ''ambiguous auxiliary defaults''
                else bind (inspect_routes index recovery a ms (n + 1))
                       (\<lambda>p. Inr \<lparr>pl_remove = d # pl_remove p, pl_snapshot = d # pl_snapshot p\<rparr>))
             else if recovery \<and> own_route index d attrs then
               bind (inspect_routes index recovery a ms n)
                 (\<lambda>p. Inr \<lparr>pl_remove = d # pl_remove p, pl_snapshot = d # pl_snapshot p\<rparr>)
             else Inl ''managed namespace must have no existing default route'')
          else if int (attr_u32 4 attrs) = index \<and> d ! 5 \<noteq> 2 then Inl ''refusing to change a routed LAN interface''
          else bind (inspect_routes index recovery a ms n) (\<lambda>p. Inr (p\<lparr>pl_snapshot := d # pl_snapshot p\<rparr>)))"

definition routes_of :: "int \<Rightarrow> bool \<Rightarrow> auxiliary \<Rightarrow> route_message list option \<Rightarrow> (string, route_plan) result" where
  "routes_of index recovery a routes =
     (case routes of None \<Rightarrow> Inl ''routes unavailable'' | Some ms \<Rightarrow> inspect_routes index recovery a ms 0)"

section \<open>Preparing the interface\<close>

text \<open>
  What one preparation meets, in the order of the calls: the routes before, the auxiliary
  interface, the kernel's verdict on the MAC, the interfaces and addresses after it, the routes,
  the auxiliary interface, the verdicts on each removal, and what is left.
\<close>

record prepare_env =
  pe_routes_before :: "route_message list option"
  pe_aux_before :: "int \<Rightarrow> link option"
  pe_mac_result :: "(rtnl_error, unit) result"
  pe_links :: "link list option"
  pe_addrs_after :: "interface_address list option"
  pe_routes_after :: "route_message list option"
  pe_aux_after :: "int \<Rightarrow> link option"
  pe_route_results :: "nat \<Rightarrow> (rtnl_error, unit) result"
  pe_addr_results :: "nat \<Rightarrow> (rtnl_error, unit) result"
  pe_addrs_left :: "interface_address list option"
  pe_routes_left :: "route_message list option"
  pe_aux_left :: "int \<Rightarrow> link option"

datatype prepare_request = SetMac int "byte list" | DeleteRoute "byte list" | DeleteAddress int "byte list"

definition mac_request :: "int \<Rightarrow> byte list \<Rightarrow> request" where
  "mac_request index mac = (16, 0, [0, 0, 0, 0] @ u32_bytes (of_int index) @ replicate 8 0 @ attr 1 mac)"

text \<open>Whether it was asked to change the MAC, and the interface as read back.\<close>

definition install_mac :: "link \<Rightarrow> byte list \<Rightarrow> (rtnl_error, unit) result \<Rightarrow> link list option \<Rightarrow>
    prepare_request list \<times> (string, link) result" where
  "install_mac l mac r links =
     (let changes = (mac_text (li_mac l) \<noteq> mac_text mac) in
      (if changes then [SetMac (li_index l) mac] else [],
       if changes \<and> r \<noteq> Inr () then Inl ''network configuration rejected''
       else case selected_interface mac links of
         Inl e \<Rightarrow> Inl ''managed MAC readback failed''
       | Inr actual \<Rightarrow>
           guard (li_index actual \<noteq> li_index l \<or> mac_text (li_mac actual) \<noteq> mac_text mac) ''managed MAC readback failed''
             (Inr actual)))"

text \<open>Requests one after the other until one fails.\<close>

fun until_failure :: "(nat \<Rightarrow> bool) \<Rightarrow> nat \<Rightarrow> prepare_request list \<Rightarrow> prepare_request list \<times> bool" where
  "until_failure ok n [] = ([], True)"
| "until_failure ok n (q # qs) =
     (if ok n then (case until_failure ok (n + 1) qs of (rs, b) \<Rightarrow> (q # rs, b)) else ([q], False))"

definition same_addresses :: "(byte list \<times> byte list) list \<Rightarrow> (byte list \<times> byte list) list \<Rightarrow> bool" where
  "same_addresses xs ys \<longleftrightarrow> map (to4 o fst) xs = map (to4 o fst) ys"

definition prepare_removals :: "prepare_env \<Rightarrow> auxiliary \<Rightarrow> link \<Rightarrow> (byte list \<times> byte list) list \<Rightarrow> route_plan \<Rightarrow>
    prepare_request list \<times> (string, link) result" where
  "prepare_removals env a actual remove plan =
     (case until_failure (\<lambda>n. pe_route_results env n = Inr ()) 0 (map DeleteRoute (pl_remove plan)) of
        (rs, False) \<Rightarrow> (rs, Inl ''network configuration rejected'')
      | (rs, True) \<Rightarrow>
          (case until_failure (\<lambda>n. address_result True (pe_addr_results env n) = Inr ()) 0
                  (map (\<lambda>(ip, m). DeleteAddress (li_index actual) ip) remove) of
             (qs, False) \<Rightarrow> (rs @ qs, Inl ''network configuration rejected'')
           | (qs, True) \<Rightarrow>
               (rs @ qs,
                case bootstrap_addresses (actual\<lparr>li_addrs := pe_addrs_left env\<rparr>) of
                  Inl e \<Rightarrow> Inl ''bootstrap removal readback failed''
                | Inr left1 \<Rightarrow>
                    guard (left1 \<noteq> []) ''bootstrap removal readback failed'' (
                    bind (routes_of (li_index actual) False no_auxiliary (pe_routes_left env)) (\<lambda>_.
                    guard (\<not> aux_unchanged a (pe_aux_left env)) ''auxiliary network changed'' (Inr actual))))))"

definition prepare_with_aux :: "prepare_env \<Rightarrow> link \<Rightarrow> byte list \<Rightarrow> auxiliary \<Rightarrow> prepare_request list \<times> (string, link) result" where
  "prepare_with_aux env l mac a =
     (let recovery = (mac_text (li_mac l) = mac_text mac) in
      case bind (bootstrap_addresses l) (\<lambda>remove.
           bind (routes_of (li_index l) recovery a (pe_routes_before env)) (\<lambda>before.
           guard (\<not> aux_unchanged a (pe_aux_before env)) ''auxiliary network changed'' (Inr (remove, before)))) of
        Inl e \<Rightarrow> ([], Inl e)
      | Inr (remove, before) \<Rightarrow>
          (case install_mac l mac (pe_mac_result env) (pe_links env) of
             (qs, Inl e) \<Rightarrow> (qs, Inl e)
           | (qs, Inr actual) \<Rightarrow>
               (case bootstrap_addresses (actual\<lparr>li_addrs := pe_addrs_after env\<rparr>) of
                  Inl e \<Rightarrow> (qs, Inl ''bootstrap addresses changed during preparation'')
                | Inr after \<Rightarrow>
                    if \<not> same_addresses after remove then (qs, Inl ''bootstrap addresses changed during preparation'')
                    else case routes_of (li_index actual) recovery a (pe_routes_after env) of
                      Inl e \<Rightarrow> (qs, Inl e)
                    | Inr plan \<Rightarrow>
                        if \<not> aux_unchanged a (pe_aux_after env) \<or> mset (pl_snapshot before) \<noteq> mset (pl_snapshot plan)
                        then (qs, Inl ''network routes changed during preparation'')
                        else case prepare_removals env a actual remove plan of (rs, r) \<Rightarrow> (qs @ rs, r))))"

end
