(* ===== verification/NetLinkFacts.thy ===== *)
theory NetLinkFacts
  imports NetLink
begin

text \<open>
  What the preparation of the interface may change: the MAC of the selected interface, the
  addresses of the bootstrap subnet, and the default routes it was told about or left behind;
  and what the overlap check excludes.
\<close>

section \<open>Routes\<close>

text \<open>A default route of the main table that the agent may remove.\<close>

definition removable_route :: "int \<Rightarrow> bool \<Rightarrow> auxiliary \<Rightarrow> byte list \<Rightarrow> bool" where
  "removable_route index recovery a d \<longleftrightarrow>
     d ! 1 = 0 \<and> d ! 4 = 254 \<and> (case route_attrs (drop 12 d) of
        None \<Rightarrow> False
      | Some attrs \<Rightarrow> aux_matches a d attrs \<or> recovery \<and> own_route index d attrs)"

lemma inspect_routes_removes:
  "inspect_routes index recovery a ms n = Inr p \<Longrightarrow> d \<in> set (pl_remove p) \<Longrightarrow> removable_route index recovery a d"
proof (induction ms arbitrary: n p)
  case Nil
  then show ?case by auto
next
  case (Cons m ms)
  let ?d = "rm_data m"
  show ?case
  proof (cases "rm_type m \<noteq> 24 \<or> length ?d < 12 \<or> ?d ! 4 \<noteq> 254")
    case True
    then show ?thesis using Cons by (auto simp: Let_def)
  next
    case main: False
    then obtain attrs where attrs: "route_attrs (drop 12 ?d) = Some attrs" using Cons.prems(1) by (cases "route_attrs (drop 12 ?d)") (auto simp: Let_def)
    show ?thesis
    proof (cases "?d ! 1 = 0 \<and> (aux_matches a ?d attrs \<or> recovery \<and> own_route index ?d attrs)")
      case True
      then obtain k q where "inspect_routes index recovery a ms k = Inr q" "pl_remove p = ?d # pl_remove q"
        using Cons.prems(1) main attrs by (auto simp: Let_def bind_Inr split: if_splits)
      then show ?thesis using Cons.IH Cons.prems(2) True main attrs by (auto simp: removable_route_def)
    next
      case False
      then obtain k q where "inspect_routes index recovery a ms k = Inr q" "pl_remove p = pl_remove q"
        using Cons.prems(1) main attrs by (auto simp: Let_def bind_Inr split: if_splits)
      then show ?thesis using Cons.IH Cons.prems(2) by auto
    qed
  qed
qed

lemma routes_of_removes:
  "routes_of index recovery a routes = Inr p \<Longrightarrow> d \<in> set (pl_remove p) \<Longrightarrow> removable_route index recovery a d"
  using inspect_routes_removes by (auto simp: routes_of_def split: option.splits)

section \<open>Addresses\<close>

lemma bootstrap_list_addresses: "bootstrap_list as = Inr bs \<Longrightarrow> (ip, m) \<in> set bs \<Longrightarrow> in_bootstrap ip \<and> mask_bits m = Some 24"
  by (induction as arbitrary: bs rule: bootstrap_list.induct) (auto simp: guard_Inr bind_Inr split: if_splits)

lemma bootstrap_addresses_in: "bootstrap_addresses l = Inr bs \<Longrightarrow> (ip, m) \<in> set bs \<Longrightarrow> in_bootstrap ip"
  using bootstrap_list_addresses by (auto simp: bootstrap_addresses_def split: option.splits)

lemma until_failure_subset: "until_failure ok n qs = (rs, b) \<Longrightarrow> set rs \<subseteq> set qs"
proof (induction qs arbitrary: n rs b)
  case (Cons q qs)
  show ?case
  proof (cases "ok n")
    case True
    obtain rs' b' where u: "until_failure ok (n + 1) qs = (rs', b')" by fastforce
    then show ?thesis using True Cons.IH [OF u] Cons.prems by auto
  qed (use Cons.prems in auto)
qed simp

section \<open>The preparation\<close>

lemma selected_interface_Inr:
  assumes "selected_interface mac links = Inr l"
  shows "active_ethernet l \<and> require_link_kind l ''macvlan''"
  using assms by (auto simp: selected_interface_def Let_def guard_Inr split: option.splits prod.splits)

lemma install_mac_Inr:
  assumes "install_mac l mac r links = (qs, Inr actual)"
  shows "li_index actual = li_index l \<and> mac_text (li_mac actual) = mac_text mac \<and> active_ethernet actual \<and>
    require_link_kind actual ''macvlan'' \<and> (mac_text (li_mac l) \<noteq> mac_text mac \<longrightarrow> r = Inr ())"
  using assms selected_interface_Inr
  by (auto simp: install_mac_def Let_def guard_Inr split: if_splits sum.splits)

lemma install_mac_requests:
  assumes "install_mac l mac r links = (qs, x)"
  shows "set qs \<subseteq> {SetMac (li_index l) mac} \<and> (qs \<noteq> [] \<longrightarrow> mac_text (li_mac l) \<noteq> mac_text mac)"
  using assms by (auto simp: install_mac_def Let_def split: if_splits)

lemma prepare_removals_requests:
  assumes "prepare_removals env a actual remove plan = (rs, x)" "q \<in> set rs"
  shows "(\<exists>d \<in> set (pl_remove plan). q = DeleteRoute d) \<or> (\<exists>(ip, m) \<in> set remove. q = DeleteAddress (li_index actual) ip)"
proof -
  obtain r1 b1 where u: "until_failure (\<lambda>n. pe_route_results env n = Inr ()) 0 (map DeleteRoute (pl_remove plan)) = (r1, b1)" by fastforce
  obtain r2 b2 where v: "until_failure (\<lambda>n. address_result True (pe_addr_results env n) = Inr ()) 0
      (map (\<lambda>(ip, m). DeleteAddress (li_index actual) ip) remove) = (r2, b2)" by fastforce
  have "set rs \<subseteq> set r1 \<union> set r2"
    using assms(1) by (cases b1; cases b2) (auto simp: prepare_removals_def u v)
  then show ?thesis using assms(2) until_failure_subset [OF u] until_failure_subset [OF v] by fastforce
qed

lemma prepare_removals_Inr: "prepare_removals env a actual remove plan = (rs, Inr x) \<Longrightarrow> x = actual"
  by (auto simp: prepare_removals_def bind_Inr guard_Inr split: prod.splits bool.splits sum.splits)

lemma prepare_cases:
  assumes "prepare_with_aux env l mac a = (qs, r)"
  obtains (refused) e where "qs = []" "r = Inl e"
  | (unchanged) e where "qs = fst (install_mac l mac (pe_mac_result env) (pe_links env))" "r = Inl e"
  | (removals) actual remove plan qs1 rs where
      "install_mac l mac (pe_mac_result env) (pe_links env) = (qs1, Inr actual)" "bootstrap_addresses l = Inr remove"
      "routes_of (li_index actual) (mac_text (li_mac l) = mac_text mac) a (pe_routes_after env) = Inr plan"
      "prepare_removals env a actual remove plan = (rs, r)" "qs = qs1 @ rs"
proof -
  let ?rec = "mac_text (li_mac l) = mac_text mac"
  let ?pre = "bind (bootstrap_addresses l) (\<lambda>remove. bind (routes_of (li_index l) ?rec a (pe_routes_before env)) (\<lambda>before.
      guard (\<not> aux_unchanged a (pe_aux_before env)) ''auxiliary network changed'' (Inr (remove, before))))"
  show ?thesis
  proof (cases ?pre)
    case (Inl e)
    then have "qs = []" "r = Inl e" using assms by (auto simp: prepare_with_aux_def Let_def)
    then show ?thesis using refused by blast
  next
    case (Inr x)
    obtain remove before where x: "x = (remove, before)" by (cases x)
    have pre: "bootstrap_addresses l = Inr remove" using Inr unfolding x bind_Inr guard_Inr by auto
    obtain qs1 y where i: "install_mac l mac (pe_mac_result env) (pe_links env) = (qs1, y)" by fastforce
    show ?thesis
    proof (cases y)
      case (Inl e)
      then have "qs = qs1" "r = Inl e" using assms i Inr x by (auto simp: prepare_with_aux_def Let_def)
      then show ?thesis using unchanged i by simp
    next
      case actual: (Inr actual)
      show ?thesis
      proof (cases "\<exists>e. qs = qs1 \<and> r = Inl e")
        case True
        then show ?thesis using unchanged i by auto
      next
        case on: False
        obtain after where after: "bootstrap_addresses (actual\<lparr>li_addrs := pe_addrs_after env\<rparr>) = Inr after"
          using assms i Inr x actual on by (cases "bootstrap_addresses (actual\<lparr>li_addrs := pe_addrs_after env\<rparr>)")
            (auto simp: prepare_with_aux_def Let_def)
        have same: "same_addresses after remove"
          using assms i Inr x actual on after by (cases "same_addresses after remove") (auto simp: prepare_with_aux_def Let_def)
        obtain plan where plan: "routes_of (li_index actual) ?rec a (pe_routes_after env) = Inr plan"
          using assms i Inr x actual on after same by (cases "routes_of (li_index actual) ?rec a (pe_routes_after env)")
            (auto simp: prepare_with_aux_def Let_def)
        obtain rs z where rs: "prepare_removals env a actual remove plan = (rs, z)" by fastforce
        have "qs = qs1 @ rs \<and> r = z"
          using assms i Inr x actual on after same plan rs by (auto simp: prepare_with_aux_def Let_def split: if_splits)
        then show ?thesis using removals [OF i [unfolded actual] pre plan] rs by simp
      qed
    qed
  qed
qed

text \<open>
  C25: The preparation touches nothing but its own: it sets only the MAC of the interface it was
  given, removes only addresses of the bootstrap subnet, and of the routes only default routes
  of the main table that are the auxiliary one it was told about or, when the interface already
  has the MAC, the agent's own left-over.  No route and no address is removed before the MAC was
  accepted, and success means the interface is the same one, active, a macvlan, with the MAC.
\<close>

theorem prepare_touches_own:
  assumes "prepare_with_aux env l mac a = (qs, r)"
  shows "list_all (\<lambda>q. case q of
        SetMac i m \<Rightarrow> i = li_index l \<and> m = mac \<and> mac_text (li_mac l) \<noteq> mac_text mac
      | DeleteRoute d \<Rightarrow> removable_route (li_index l) (mac_text (li_mac l) = mac_text mac) a d
      | DeleteAddress i ip \<Rightarrow> i = li_index l \<and> in_bootstrap ip) qs \<and>
    (mac_text (li_mac l) \<noteq> mac_text mac \<and> pe_mac_result env \<noteq> Inr () \<longrightarrow> set qs \<subseteq> {SetMac (li_index l) mac}) \<and>
    (\<forall>actual. r = Inr actual \<longrightarrow> li_index actual = li_index l \<and> mac_text (li_mac actual) = mac_text mac \<and>
       active_ethernet actual \<and> require_link_kind actual ''macvlan'')"
  using assms
proof (cases rule: prepare_cases)
  case (refused e)
  then show ?thesis by simp
next
  case (unchanged e)
  obtain qs1 x where i: "install_mac l mac (pe_mac_result env) (pe_links env) = (qs1, x)" by fastforce
  then show ?thesis using unchanged install_mac_requests [OF i] by (auto simp: list_all_iff)
next
  case (removals actual remove plan qs1 rs)
  note i = install_mac_requests [OF removals(1)] install_mac_Inr [OF removals(1)]
  have routes: "removable_route (li_index l) (mac_text (li_mac l) = mac_text mac) a d" if "d \<in> set (pl_remove plan)" for d
    using routes_of_removes [OF removals(3) that] i(2) by simp
  have "list_all (\<lambda>q. case q of
        SetMac i m \<Rightarrow> i = li_index l \<and> m = mac \<and> mac_text (li_mac l) \<noteq> mac_text mac
      | DeleteRoute d \<Rightarrow> removable_route (li_index l) (mac_text (li_mac l) = mac_text mac) a d
      | DeleteAddress i ip \<Rightarrow> i = li_index l \<and> in_bootstrap ip) qs"
    using i(1) routes prepare_removals_requests [OF removals(4)] bootstrap_addresses_in [OF removals(2)] i(2)
    unfolding removals(5) list_all_iff by fastforce
  moreover have "r = Inr x \<Longrightarrow> x = actual" for x using prepare_removals_Inr removals(4) by blast
  ultimately show ?thesis using i(2) by auto
qed

section \<open>Attributes written and read\<close>

lemma length_put_le [simp]: "length (put_le n v) = n"
  by (simp add: put_le_def length_be_bytes)

lemma get_put_le: "v < 256 ^ n \<Longrightarrow> get_le (put_le n v) = v"
  by (simp add: get_le_def put_le_def be_value_bytes)

lemma route_attrs_attr:
  assumes "length v \<le> 60000"
  shows "route_attrs (attr k v @ rest) = (case route_attrs rest of None \<Rightarrow> None | Some xs \<Rightarrow> Some ((unat k, v) # xs))"
proof -
  let ?n = "4 + length v" and ?b = "attr k v @ rest"
  let ?pad = "replicate (aligned ?n - ?n) (0 :: byte)"
  have b: "?b = put_le 2 ?n @ put_le 2 (unat k) @ v @ ?pad @ rest" using assms by (simp add: attr_def Let_def)
  have al: "?n \<le> aligned ?n" unfolding aligned_def by presburger
  have "get_le (take 2 ?b) = ?n" unfolding b using get_put_le [of ?n 2] assms by simp
  moreover have "get_le (sub_bytes 2 4 ?b) = unat k"
    unfolding b using get_put_le [of "unat k" 2] unsigned_less [of k] by (simp add: sub_bytes_def)
  moreover have "sub_bytes 4 ?n ?b = v" unfolding b by (simp add: sub_bytes_def)
  moreover have "drop (aligned ?n) ?b = rest" unfolding b using al by simp
  moreover have "\<not> length ?b < 4" "\<not> ?n < 4" "\<not> length ?b < ?n" unfolding b by simp_all
  ultimately show ?thesis by (subst route_attrs.simps) (simp add: Let_def cong: option.case_cong)
qed

lemma route_attrs_Nil [simp]: "route_attrs [] = Some []"
  by (subst route_attrs.simps) simp

section \<open>An example\<close>

text \<open>A restart: the interface has the MAC and the agent's own default route, and nothing is left of them.\<close>

definition demo_info :: "byte list" where
  "demo_info = [0, 0, 1, 0, 5, 0, 0, 0, 0, 0, 0, 0, 0, 0, 0, 0, 16, 0, 18, 0, 12, 0, 1, 0] @ string_bytes ''macvlan'' @ [0]"

definition demo_link :: link where
  "demo_link = \<lparr>li_index = 5, li_mac = [2, 0, 0, 0, 0, 30], li_flags = 3, li_info = Some [\<lparr>rm_type = 16, rm_data = demo_info\<rparr>],
     li_addrs = Some [IPNet [169, 254, 254, 2] [255, 255, 255, 0]]\<rparr>"

definition demo_route :: "byte list" where
  "demo_route = [2, 0, 0, 0, 254, 4, 0, 1, 0, 0, 0, 0,
     8, 0, 5, 0, 192, 0, 2, 1, 8, 0, 4, 0, 5, 0, 0, 0, 8, 0, 6, 0, 8, 167, 0, 0]"

definition demo_prepare :: prepare_env where
  "demo_prepare =
     \<lparr>pe_routes_before = Some [\<lparr>rm_type = 24, rm_data = demo_route\<rparr>], pe_aux_before = (\<lambda>_. None), pe_mac_result = Inr (),
      pe_links = Some [demo_link], pe_addrs_after = li_addrs demo_link,
      pe_routes_after = Some [\<lparr>rm_type = 24, rm_data = demo_route\<rparr>], pe_aux_after = (\<lambda>_. None), pe_route_results = (\<lambda>_. Inr ()),
      pe_addr_results = (\<lambda>_. Inl (Errno 99)), pe_addrs_left = Some [], pe_routes_left = Some [], pe_aux_left = (\<lambda>_. None)\<rparr>"

lemma demo_masks: "mask_bits [255, 255, 255, 0] = Some 24" "mask_bits [255, 255, 0, 0] = Some 16"
  by (simp_all add: mask_bits_def mask_size_def mask_value_def be_value_def upt_rec)

lemma demo_in_bootstrap: "in_bootstrap [169, 254, 254, 2]" "to4 [169, 254, 254, 2] = Some [169, 254, 254, 2]"
  by (simp_all add: in_bootstrap_def to4_def)

lemma demo_addresses:
  "bootstrap_addresses demo_link = Inr [([169, 254, 254, 2], [255, 255, 255, 0])]"
  "bootstrap_addresses (demo_link\<lparr>li_addrs := Some []\<rparr>) = Inr []"
  by (simp_all add: bootstrap_addresses_def demo_link_def demo_masks demo_in_bootstrap guard_def)

lemma demo_route_attrs:
  "route_attrs [8, 0, 5, 0, 192, 0, 2, 1, 8, 0, 4, 0, 5, 0, 0, 0, 8, 0, 6, 0, 8, 167, 0, 0] =
     Some [(5, [192, 0, 2, 1]), (4, [5, 0, 0, 0]), (6, [8, 167, 0, 0])]"
proof -
  have e: "route_attrs ([8, 0, k, 0, a, b, c, d] @ rest) =
      (case route_attrs rest of None \<Rightarrow> None | Some xs \<Rightarrow> Some ((unat k, [a, b, c, d]) # xs))" for k a b c d rest
  proof -
    let ?b = "8 # 0 # k # 0 # a # b # c # d # rest"
    have "get_le (take 2 ?b) = 8" "get_le (sub_bytes 2 4 ?b) = unat k" "sub_bytes 4 8 ?b = [a, b, c, d]"
      by (simp_all add: get_le_def be_value_def sub_bytes_def)
    then show ?thesis unfolding append.simps by (subst route_attrs.simps) (simp add: aligned_def cong: option.case_cong)
  qed
  have n: "route_attrs [] = Some []" by (subst route_attrs.simps) simp
  show ?thesis
    using e [of 5 192 0 2 1 "[8, 0, 4, 0, 5, 0, 0, 0, 8, 0, 6, 0, 8, 167, 0, 0]"] e [of 4 5 0 0 0 "[8, 0, 6, 0, 8, 167, 0, 0]"]
      e [of 6 8 167 0 0 "[]"] n
    by simp
qed

lemma demo_routes:
  "routes_of 5 True no_auxiliary (Some [\<lparr>rm_type = 24, rm_data = demo_route\<rparr>]) =
     Inr \<lparr>pl_remove = [demo_route], pl_snapshot = [demo_route]\<rparr>"
  "routes_of 5 False no_auxiliary (Some []) = Inr \<lparr>pl_remove = [], pl_snapshot = []\<rparr>"
  using demo_route_attrs
  by (simp_all add: routes_of_def demo_route_def aux_matches_def no_auxiliary_def own_route_def attr_u32_def get_le_def be_value_def Let_def)

lemma demo_kind: "require_link_kind demo_link ''macvlan''"
proof -
  let ?k = "string_bytes ''macvlan'' @ [0]"
  have k: "length ?k = 8" by (simp add: string_bytes_def)
  let ?n = "[12, 0, 1, 0] @ ?k"
  have n: "nested_kind ?k ?n"
    using k by (subst nested_kind.simps) (simp add: get_le_def be_value_def sub_bytes_def)
  have p: "put_le 2 v = [of_nat v, of_nat (v div 256)]" for v unfolding put_le_def numeral_2_eq_2 by simp
  have "attr 18 ?n = [16, 0, 18, 0] @ ?n"
    using k by (simp add: attr_def aligned_def p)
  then have a: "route_attrs ([16, 0, 18, 0] @ ?n) = Some [(18, ?n)]"
    using route_attrs_attr [of ?n 18 "[]"] k by simp
  have d: "drop 16 demo_info = [16, 0, 18, 0] @ ?n" by (simp add: demo_info_def)
  have h: "sub_bytes 4 8 demo_info = [5, 0, 0, 0]" "sub_bytes 2 4 demo_info = [1, 0]" "\<not> length demo_info < 16"
    by (simp_all add: demo_info_def sub_bytes_def)
  have "scan_links 5 ?k [\<lparr>rm_type = 16, rm_data = demo_info\<rparr>]"
    using n by (simp only: scan_links.simps Let_def route_message.select_convs d h a option.case)
      (simp add: get_le_def be_value_def)
  then show ?thesis by (simp add: require_link_kind_def demo_link_def)
qed

lemma demo_selected:
  "selected_interface (li_mac demo_link) (Some [demo_link]) = Inr demo_link"
proof -
  have "active_ethernet demo_link" by (simp add: active_ethernet_def demo_link_def flag_up_def flag_broadcast_def flag_loopback_def)
  then show ?thesis using demo_kind by (simp add: selected_interface_def select_by_def guard_def)
qed

lemma demo_unchanged: "aux_unchanged no_auxiliary f"
  by (simp add: aux_unchanged_def no_auxiliary_def)

lemma demo_prepared:
  "prepare_with_aux demo_prepare demo_link (li_mac demo_link) no_auxiliary =
     ([DeleteRoute demo_route, DeleteAddress 5 [169, 254, 254, 2]], Inr demo_link)"
proof -
  have i: "install_mac demo_link (li_mac demo_link) (Inr ()) (Some [demo_link]) = ([], Inr demo_link)"
    by (simp add: install_mac_def demo_selected guard_def)
  have l: "li_index demo_link = 5" "demo_link\<lparr>li_addrs := li_addrs demo_link\<rparr> = demo_link" by (simp_all add: demo_link_def)
  have r: "prepare_removals demo_prepare no_auxiliary demo_link [([169, 254, 254, 2], [255, 255, 255, 0])]
      \<lparr>pl_remove = [demo_route], pl_snapshot = [demo_route]\<rparr> =
    ([DeleteRoute demo_route, DeleteAddress 5 [169, 254, 254, 2]], Inr demo_link)"
    by (simp add: prepare_removals_def demo_prepare_def address_result_def demo_addresses demo_routes demo_unchanged l guard_def)
  show ?thesis
    using r unfolding prepare_with_aux_def
    by (simp add: demo_prepare_def l i demo_addresses demo_routes demo_unchanged guard_def same_addresses_def)
qed

theorem prepare_touches_own_witness:
  "removable_route 5 True no_auxiliary demo_route \<and> in_bootstrap [169, 254, 254, 2] \<and> active_ethernet demo_link"
  using prepare_touches_own [OF demo_prepared] by (simp add: demo_link_def)

text \<open>
  The agent recognises what it installed.  The default route it asks the kernel for, reported
  back unchanged after a restart, parses into the router, the interface and the reserved metric,
  is its own route, and is planned for removal; without the recovery the agent refuses it.
\<close>

theorem own_route_recovered:
  assumes "default_route_request index router remove = (kind, fl, d)" "length router = 4" "0 \<le> index" "index < 2 ^ 31"
  shows "route_attrs (drop 12 d) = Some [(5, router), (4, put_le 4 (nat index)), (6, put_le 4 42760)] \<and>
    inspect_routes index True no_auxiliary [\<lparr>rm_type = 24, rm_data = d\<rparr>] 0 = Inr \<lparr>pl_remove = [d], pl_snapshot = [d]\<rparr> \<and>
    inspect_routes index False no_auxiliary [\<lparr>rm_type = 24, rm_data = d\<rparr>] 0 =
      Inl ''managed namespace must have no existing default route''"
proof -
  let ?h = "[2, 0, 0, 0, 254, 4, 0, 1, 0, 0, 0, 0] :: byte list"
  let ?as = "attr 5 router @ attr 4 (u32_bytes (of_int index)) @ attr 6 (u32_bytes 42760) @ []"
  have d: "d = ?h @ ?as" using assms(1) by (auto simp: default_route_request_def Let_def split: if_splits)
  have "unat (of_int index :: u32) = nat index"
    using assms(3,4) by (simp add: unat_eq_nat_uint uint_word_of_int)
  then have u: "u32_bytes (of_int index) = put_le 4 (nat index)" "u32_bytes 42760 = put_le 4 42760" by (simp_all add: u32_bytes_def)
  have a: "route_attrs ?as = Some [(5, router), (4, put_le 4 (nat index)), (6, put_le 4 42760)]"
    unfolding u using assms(2) by (simp only: route_attrs_attr length_put_le route_attrs_Nil) simp
  have r: "route_attrs (drop 12 d) = Some [(5, router), (4, put_le 4 (nat index)), (6, put_le 4 42760)]" using a d by simp
  have "get_le (put_le 4 (nat index)) = nat index" "get_le (put_le 4 42760) = 42760"
    using assms(3,4) by (simp_all add: get_put_le)
  then have o: "attr_u32 4 [(5, router), (4, put_le 4 (nat index)), (6, put_le 4 42760)] = nat index"
    "attr_u32 6 [(5, router), (4, put_le 4 (nat index)), (6, put_le 4 42760)] = 42760"
    by (simp_all add: attr_u32_def)
  have h: "d ! 4 = 254" "d ! 1 = 0" "d ! 5 = 4" "\<not> length d < 12" by (simp_all add: d)
  have m: "\<not> aux_matches no_auxiliary d as" for as by (simp add: aux_matches_def no_auxiliary_def)
  show ?thesis using r h o m assms(3) by (simp add: Let_def own_route_def)
qed

theorem own_route_recovered_witness:
  "\<exists>d. default_route_request 5 [192, 0, 2, 1] False = (24, 0x600, d) \<and>
     inspect_routes 5 True no_auxiliary [\<lparr>rm_type = 24, rm_data = d\<rparr>] 0 = Inr \<lparr>pl_remove = [d], pl_snapshot = [d]\<rparr>"
proof -
  obtain d where d: "default_route_request 5 [192, 0, 2, 1] False = (24, 0x600, d)" by (simp add: default_route_request_def Let_def)
  from own_route_recovered [OF this] show ?thesis using d by simp
qed

section \<open>The overlap check\<close>

text \<open>Two masks of leading ones: the shorter one is contained in the longer.\<close>

lemma bit_mask_value: "n \<le> 32 \<Longrightarrow> bit (mask_value n) j \<longleftrightarrow> 32 - n \<le> j \<and> j < 32"
proof -
  assume n: "n \<le> 32"
  have "mask_value n = push_bit (32 - n) (mask n)"
    using n by (simp add: mask_value_def push_bit_eq_mult mask_eq_exp_minus_1 diff_mult_distrib flip: power_add)
  then show ?thesis using n by (auto simp: bit_push_bit_iff_nat bit_mask_iff)
qed

lemma mask_value_and: "a \<le> b \<Longrightarrow> b \<le> 32 \<Longrightarrow> and (mask_value a) (mask_value b) = mask_value a"
  by (rule bit_eqI) (auto simp: bit_and_iff bit_mask_value)

lemma network_of_be_bytes: "network_of (be_bytes n v) (be_bytes n w) = be_bytes n (and v w)"
proof (induction n)
  case (Suc n)
  have "(of_nat (v div 256 ^ n) :: byte) AND of_nat (w div 256 ^ n) = of_nat (and v w div 256 ^ n)"
  proof -
    have d: "x div 256 ^ n = drop_bit (8 * n) x" for x :: nat by (simp add: drop_bit_eq_div power_mult)
    show ?thesis unfolding d by (rule bit_eqI) (auto simp: bit_and_iff bit_of_nat_iff bit_drop_bit_eq)
  qed
  then show ?case using Suc by (simp add: network_of_def)
qed (simp add: network_of_def)

lemma network_of_assoc:
  "length x = length m \<Longrightarrow> length m = length k \<Longrightarrow> network_of (network_of x m) k = network_of x (network_of m k)"
  by (induction x m k rule: list_induct3) (simp_all add: network_of_def and.assoc)

lemma length_network_of [simp]: "length (network_of x m) = min (length x) (length m)"
  by (simp add: network_of_def)

lemma mask_size_bytes: "mask_size m = Some b \<Longrightarrow> length m = 4 \<Longrightarrow> m = be_bytes 4 (mask_value b) \<and> b \<le> 32"
proof -
  assume m: "mask_size m = Some b" "length m = 4"
  then have "be_value m = mask_value b" "b < 33" by (auto simp: mask_size_def find_Some_iff)
  then show ?thesis using be_bytes_value [of m] m(2) by simp
qed

lemma cidr_chain:
  assumes "mask_bits m = Some b" "0 \<le> bits" "bits \<le> 32"
  shows "length m = 4 \<and> length (cidr_mask bits) = 4 \<and>
    (network_of m (cidr_mask bits) = cidr_mask bits \<or> network_of (cidr_mask bits) m = m) \<and>
    network_of (cidr_mask bits) (cidr_mask bits) = cidr_mask bits"
proof -
  have m: "length m = 4" "m = be_bytes 4 (mask_value b)" "b \<le> 32"
    using assms(1) mask_size_bytes by (auto simp: mask_bits_def split: if_splits)
  let ?a = "nat bits"
  have a: "?a \<le> 32" using assms(3) by simp
  have "network_of m (cidr_mask bits) = cidr_mask bits" if "?a \<le> b"
    unfolding m(2) cidr_mask_def network_of_be_bytes using mask_value_and [OF that m(3)] by (simp add: and.commute)
  moreover have "network_of (cidr_mask bits) m = m" if "b \<le> ?a"
    unfolding m(2) cidr_mask_def network_of_be_bytes using mask_value_and [OF that a] by (simp add: and.commute)
  moreover have "network_of (cidr_mask bits) (cidr_mask bits) = cidr_mask bits"
    unfolding cidr_mask_def network_of_be_bytes by simp
  ultimately show ?thesis using m(1) by (auto simp: cidr_mask_def length_be_bytes intro: le_cases)
qed

lemma disjoint_nets:
  assumes "mask_bits m = Some b" "0 \<le> bits" "bits \<le> 32" "length q = 4" "length w = 4" "length x = 4"
    and "\<not> (net_contains q m (network_of w (cidr_mask bits)) \<or>
            net_contains (network_of w (cidr_mask bits)) (cidr_mask bits) (network_of q (mask4 m)))"
  shows "\<not> (net_contains w (cidr_mask bits) x \<and> net_contains q m x)"
proof
  let ?k = "cidr_mask bits"
  note c = cidr_chain [OF assms(1-3)]
  have m4: "mask4 m = m" "mask4 ?k = ?k" using c by (simp_all add: mask4_def)
  assume "net_contains w ?k x \<and> net_contains q m x"
  then have same: "network_of w ?k = network_of x ?k" "network_of q m = network_of x m" by (simp_all add: net_contains_def m4)
  have l: "length x = length m" "length m = length ?k" "length ?k = length m" "length x = length ?k" using c assms(6) by simp_all
  show False
  proof (cases "network_of m ?k = ?k")
    case True
    have "network_of (network_of q m) ?k = network_of x ?k"
      unfolding same(2) using network_of_assoc [OF l(1,2)] True by simp
    moreover have "network_of (network_of w ?k) ?k = network_of x ?k"
      unfolding same(1) using network_of_assoc [OF l(4) refl] c by simp
    ultimately show ?thesis using assms(7) c by (simp add: net_contains_def m4)
  next
    case False
    then have "network_of ?k m = m" using c by blast
    then have "network_of (network_of w ?k) m = network_of q m"
      unfolding same using network_of_assoc [OF l(4,3)] by simp
    then show ?thesis using assms(7) c by (simp add: net_contains_def m4)
  qed
qed

text \<open>
  The agent never configures a subnet another interface is attached to: when the overlap
  check passes, no IPv4 address lies both in the subnet of the lease and in a subnet of another
  interface that is not a loopback.
\<close>

theorem overlap_excluded:
  assumes "no_other_subnet_overlap index l (Some ls) = Inr ()" "parse_ip_to4 (le_address l) = Some w" "0 \<le> le_prefix l" "le_prefix l \<le> 32"
    and "f \<in> set ls" "li_index f \<noteq> index" "li_flags f AND flag_loopback = 0" "li_addrs f = Some as" "IPNet ip m \<in> set as"
    and "to4 ip = Some q" "mask_bits m = Some b" "length x = 4"
  shows "\<not> (net_contains w (cidr_mask (le_prefix l)) x \<and> net_contains q m x)"
proof -
  let ?k = "cidr_mask (le_prefix l)"
  have "\<not> list_ex (overlaps (network_of w ?k) ?k) as"
    using assms(1,2,5-8) by (auto simp: no_other_subnet_overlap_def Let_def find_None_iff split: option.splits)
  then have "\<not> overlaps (network_of w ?k) ?k (IPNet ip m)" using assms(9) by (auto simp: list_ex_iff)
  then have "\<not> (net_contains q m (network_of w ?k) \<or> net_contains (network_of w ?k) ?k (network_of q (mask4 m)))"
    using assms(10) by (simp add: overlaps_def)
  moreover have "length q = 4" "length w = 4"
    using to4_length assms(2,10) by (auto simp: parse_ip_to4_def bind_eq_Some_conv)
  ultimately show ?thesis using disjoint_nets [OF assms(11,3,4)] assms(12) by blast
qed

text \<open>Two interfaces, and the lease of the own one.\<close>

definition demo_other :: link where
  "demo_other = \<lparr>li_index = 6, li_mac = [2, 0, 0, 0, 0, 31], li_flags = 3, li_info = None,
     li_addrs = Some [IPNet [10, 1, 2, 3] [255, 255, 0, 0]]\<rparr>"

theorem overlap_excluded_witness:
  "\<not> (net_contains [192, 0, 2, 30] (cidr_mask 24) [10, 1, 9, 9] \<and> net_contains [10, 1, 2, 3] [255, 255, 0, 0] [10, 1, 9, 9]) \<and>
   net_contains [10, 1, 2, 3] [255, 255, 0, 0] [10, 1, 9, 9]"
proof -
  let ?l = "no_lease\<lparr>le_address := ''192.0.2.30'', le_prefix := 24\<rparr>"
  have four: "(4 :: nat) = Suc (Suc (Suc (Suc 0)))" by simp
  have k: "cidr_mask 24 = [255, 255, 255, 0]" unfolding cidr_mask_def four by (simp add: mask_value_def)
  have a: "parse_ip_to4 ''192.0.2.30'' = Some [192, 0, 2, 30]" by code_simp
  have f: "li_flags demo_other AND flag_loopback = 0" by code_simp
  have n: "network_of [192, 0, 2, 30] [255, 255, 255, 0] = [192, 0, 2, 0]" "network_of [10, 1, 2, 3] [255, 255, 0, 0] = [10, 1, 0, 0]"
      "network_of [192, 0, 2, 0] [255, 255, 255, 0] = [192, 0, 2, 0]" "network_of [10, 1, 0, 0] [255, 255, 255, 0] = [10, 1, 0, 0]"
      "network_of [192, 0, 2, 0] [255, 255, 0, 0] = [192, 0, 0, 0]" "network_of [10, 1, 9, 9] [255, 255, 0, 0] = [10, 1, 0, 0]"
    by (simp_all add: network_of_def)
  have "no_other_subnet_overlap 5 ?l (Some [demo_link, demo_other]) = Inr ()"
    using f by (simp add: no_other_subnet_overlap_def Let_def demo_link_def demo_other_def k a n overlaps_def to4_def net_contains_def mask4_def)
  moreover have "parse_ip_to4 (le_address ?l) = Some [192, 0, 2, 30]" "to4 [10, 1, 2, 3] = Some [10, 1, 2, 3]"
    "mask_bits [255, 255, 0, 0] = Some 16" "net_contains [10, 1, 2, 3] [255, 255, 0, 0] [10, 1, 9, 9]"
    using a demo_masks n by (simp_all add: to4_def net_contains_def mask4_def)
  moreover note f
  moreover have "li_addrs demo_other = Some [IPNet [10, 1, 2, 3] [255, 255, 0, 0]]" "li_index demo_other \<noteq> 5"
    by (simp_all add: demo_other_def)
  ultimately show ?thesis
    using overlap_excluded [of 5 ?l "[demo_link, demo_other]" "[192, 0, 2, 30]" demo_other
        "[IPNet [10, 1, 2, 3] [255, 255, 0, 0]]" "[10, 1, 2, 3]" "[255, 255, 0, 0]" "[10, 1, 2, 3]" 16 "[10, 1, 9, 9]"]
    by simp
qed

end
