(* ===== verification/NetAgent.thy ===== *)
theory NetAgent
  imports NetLink
begin

text \<open>
  \<open>internal/netagent/run_linux.go\<close>: the owner of the address (\<open>withdraw\<close>, \<open>install\<close>,
  \<open>heartbeat\<close>), the address probe, and the DHCP client as one turn of its loop.  What a turn
  meets (the clock, random bytes, packets, verdicts of the kernel) is its environment; each
  call has a field of its own.  Times are nanoseconds since Go's zero time.
\<close>

section \<open>Configuration\<close>

record agent_config =
  nc_mac :: string
  nc_mode :: string
  nc_static :: string
  nc_router :: string
  nc_aux_address :: string
  nc_aux_router :: string

text \<open>\<open>net.ParseCIDR\<close>: the address and the number of leading ones.\<close>

definition parse_cidr :: "string \<Rightarrow> (byte list \<times> nat) option" where
  "parse_cidr s =
     (case cut (CHR ''/'') s of
        None \<Rightarrow> None
      | Some (a, m) \<Rightarrow>
          (case parse_ip a of
             None \<Rightarrow> None
           | Some ip \<Rightarrow>
               let n = dec_value 0 m
               in if m = [] \<or> \<not> list_all (in_range 48 57) m \<or> 8 * length ip < n then None else Some (ip, n)))"

text \<open>An IPv6 address has no IPv4 text and fails the address check.\<close>

definition validate_agent :: "agent_config \<Rightarrow> (string, byte list \<times> lease) result" where
  "validate_agent c =
     (case parse_mac (nc_mac c) of
        None \<Rightarrow> Inl ''invalid managed MAC''
      | Some mac \<Rightarrow>
          guard (length mac \<noteq> 6 \<or> mac ! 0 AND 1 \<noteq> 0 \<or> mac = replicate 6 0) ''invalid managed MAC'' (
          if nc_mode c = ''dhcp'' \<and> nc_static c = [] \<and> nc_router c = [] then Inr (mac, no_lease)
          else guard (nc_mode c \<noteq> ''static'') ''invalid address mode'' (
          case parse_cidr (nc_static c) of
            None \<Rightarrow> Inl ''invalid static address''
          | Some (ip, bits) \<Rightarrow>
              (case to4 ip of
                 None \<Rightarrow> Inl ''invalid static network''
               | Some q \<Rightarrow>
                   (let l = no_lease\<lparr>le_address := ip4_text q, le_prefix := int bits, le_router := nc_router c\<rparr>
                    in guard (validate_address (le_address l) (le_prefix l) (le_router l) \<noteq> Inr ()) ''invalid static network''
                         (Inr (mac, l)))))))"

section \<open>The owner of the address\<close>

text \<open>What was asked of the kernel and sent, in order.\<close>

datatype net_request =
    PutAddress string int u32 int | DropAddress string int | PutRoute string | DropRoute string
  | Broadcast "byte list" | Unicast string "byte list" | ArpFrame "byte list"

record owner =
  ow_index :: int
  ow_lease :: lease
  ow_expires :: int
  ow_status :: status
  ow_file :: "status option"
  ow_log :: "net_request list"

definition logged :: "net_request list \<Rightarrow> owner \<Rightarrow> owner" where
  "logged rs o1 = o1\<lparr>ow_log := ow_log o1 @ rs\<rparr>"

text \<open>Whether the status file could be removed (or was absent), the route and the address.\<close>

record withdraw_env =
  we_removed :: bool
  we_route :: bool
  we_address :: bool

definition withdraw :: "withdraw_env \<Rightarrow> owner \<Rightarrow> (string, unit) result \<times> owner" where
  "withdraw e o1 =
     (if \<not> we_removed e then (Inl ''network handoff withdrawal failed'', o1)
      else let o2 = o1\<lparr>ow_file := None\<rparr>; l = ow_lease o1 in
        if le_address l = [] then (Inr (), o2)
        else let o3 = logged [DropRoute (le_router l), DropAddress (le_address l) (le_prefix l)] (o2\<lparr>ow_lease := no_lease\<rparr>)
             in (if \<not> we_route e \<or> \<not> we_address e then Inl ''network withdrawal failed'' else Inr (), o3))"

record beat_env =
  be_withdraw :: withdraw_env
  be_address :: "(string, unit) result"
  be_publish :: "(string, unit) result"

text \<open>The whole seconds left, at most four; the conversion to 32 bits wraps.\<close>

definition seconds_left :: "int \<Rightarrow> int \<Rightarrow> u32" where
  "seconds_left expires now =
     (let d = time_sub expires now; left1 = (if expires \<noteq> 0 \<and> d < 4 * second then d else 4 * second)
      in of_int (if 0 \<le> left1 then left1 div second else - ((- left1) div second)))"

definition heartbeat :: "beat_env \<Rightarrow> int \<Rightarrow> owner \<Rightarrow> (string, unit) result \<times> owner" where
  "heartbeat e now o1 =
     (let l = ow_lease o1 in
      if le_address l = [] then (Inr (), o1)
      else let seconds = seconds_left (ow_expires o1) now in
        if seconds < 1 then withdraw (be_withdraw e) o1
        else let o2 = logged [PutAddress (le_address l) (le_prefix l) seconds now] o1 in
          case be_address e of
            Inl t \<Rightarrow> (Inl t, o2)
          | Inr _ \<Rightarrow>
              (let s = (ow_status o2)\<lparr>ls_sequence := ls_sequence (ow_status o2) + 1,
                         ls_valid_until := now + int (unat seconds) * second - second div 2\<rparr>;
                   o3 = o2\<lparr>ow_status := s\<rparr>
               in case be_publish e of Inl t \<Rightarrow> (Inl t, o3) | Inr _ \<Rightarrow> (Inr (), o3\<lparr>ow_file := Some s\<rparr>)))"

record install_env =
  in_links :: "link list option"
  in_withdraw :: withdraw_env
  in_nonce :: "byte list option"
  in_address :: "(string, unit) result"
  in_route :: "(string, unit) result"
  in_now :: int
  in_beat :: beat_env

definition same_lease :: "lease \<Rightarrow> lease \<Rightarrow> bool" where
  "same_lease l m \<longleftrightarrow> \<not> (le_address l \<noteq> le_address m \<or> le_prefix l \<noteq> le_prefix m \<or> le_router l \<noteq> le_router m)"

text \<open>The new address and route, before the lease is taken over.\<close>

definition configure :: "install_env \<Rightarrow> lease \<Rightarrow> owner \<Rightarrow> (string, unit) result \<times> owner" where
  "configure e l o1 =
     (case withdraw (in_withdraw e) o1 of
        (Inl t, o2) \<Rightarrow> (Inl t, o2)
      | (Inr (), o2) \<Rightarrow>
          (case in_nonce e of
             None \<Rightarrow> (Inl ''network entropy unavailable'', o2)
           | Some nonce \<Rightarrow>
               (let s = \<lparr>ls_generation = hex_encode nonce, ls_sequence = 0, ls_address = le_address l, ls_prefix = le_prefix l,
                         ls_router = le_router l, ls_valid_until = 0\<rparr>;
                    o3 = logged [PutAddress (le_address l) (le_prefix l) 4 (in_now e)] (o2\<lparr>ow_status := s\<rparr>)
                in case in_address e of
                     Inl t \<Rightarrow> (Inl t, o3)
                   | Inr _ \<Rightarrow>
                       (let o4 = logged [PutRoute (le_router l)] o3
                        in case in_route e of
                             Inl t \<Rightarrow> (Inl t, logged [DropAddress (le_address l) (le_prefix l)] o4)
                           | Inr _ \<Rightarrow> (Inr (), o4)))))"

definition install :: "install_env \<Rightarrow> lease \<Rightarrow> int \<Rightarrow> owner \<Rightarrow> (string, unit) result \<times> owner" where
  "install e l expires o1 =
     (case no_other_subnet_overlap (ow_index o1) l (in_links e) of
        Inl t \<Rightarrow> (Inl t, o1)
      | Inr _ \<Rightarrow>
          (case (if same_lease l (ow_lease o1) then (Inr (), o1) else configure e l o1) of
             (Inl t, o2) \<Rightarrow> (Inl t, o2)
           | (Inr (), o2) \<Rightarrow> heartbeat (in_beat e) (in_now e) (o2\<lparr>ow_lease := l, ow_expires := expires\<rparr>)))"

section \<open>Address conflicts\<close>

definition arp_packet :: "byte list \<Rightarrow> byte list \<Rightarrow> bool \<Rightarrow> byte list" where
  "arp_packet mac ip probe =
     (let q = (case to4 ip of None \<Rightarrow> replicate 4 0 | Some q \<Rightarrow> q)
      in [0, 1, 8, 0, 6, 4, 0, 1] @ copied 6 mac @ (if probe then replicate 4 0 else q) @ replicate 6 0 @ q)"

definition arp_conflict :: "byte list \<Rightarrow> byte list \<Rightarrow> byte list \<Rightarrow> bool \<Rightarrow> bool" where
  "arp_conflict p mac ip probing \<longleftrightarrow>
     \<not> (length p < 28 \<or> p ! 0 \<noteq> 0 \<or> p ! 1 \<noteq> 1 \<or> p ! 2 \<noteq> 8 \<or> p ! 3 \<noteq> 0 \<or> p ! 4 \<noteq> 6 \<or> p ! 5 \<noteq> 4 \<or> p ! 6 \<noteq> 0 \<or>
        (p ! 7 \<noteq> 1 \<and> p ! 7 \<noteq> 2) \<or> sub_bytes 8 14 p = mac) \<and>
     (let q = (case to4 ip of None \<Rightarrow> [] | Some q \<Rightarrow> q)
      in sub_bytes 14 18 p = q \<or> probing \<and> sub_bytes 14 18 p = [0, 0, 0, 0] \<and> sub_bytes 24 28 p = q)"

datatype probe_result = Free | Conflict | Cancelled | ProbeFailed string

text \<open>One turn of the probe: cancellation, the clock, the send, random bytes, the clock after it, the read.\<close>

record probe_turn =
  pt_cancelled :: bool
  pt_now :: int
  pt_sent :: "(string, unit) result"
  pt_random :: "byte option"
  pt_after :: int
  pt_read :: "(string, byte list) result"

definition jitter :: "byte \<Rightarrow> int" where "jitter b = int (unat b) * second div 256"

text \<open>The loop over its turns, with the probes sent so far; None where the turns run out.\<close>

fun probe_loop :: "byte list \<Rightarrow> byte list \<Rightarrow> probe_turn list \<Rightarrow> int \<Rightarrow> nat \<Rightarrow> probe_result option" where
  "probe_loop mac ip [] next1 sent = None"
| "probe_loop mac ip (t # ts) next1 sent =
     (if pt_cancelled t then Some Cancelled
      else
        let due = (next1 < pt_now t); check = (\<lambda>n s. case pt_read t of
            Inl e \<Rightarrow> Some (ProbeFailed e)
          | Inr p \<Rightarrow> if arp_conflict p mac ip True then Some Conflict else probe_loop mac ip ts n s)
        in if \<not> due then check next1 sent
           else if sent = 3 then Some Free
           else case pt_sent t of
             Inl e \<Rightarrow> Some (ProbeFailed e)
           | Inr _ \<Rightarrow>
               (case pt_random t of
                  None \<Rightarrow> Some (ProbeFailed ''network entropy unavailable'')
                | Some b \<Rightarrow>
                    check (if sent + 1 = 3 then pt_after t + 2 * second else pt_after t + second + jitter b) (sent + 1)))"

definition arp_probe :: "byte list \<Rightarrow> byte list \<Rightarrow> byte option \<Rightarrow> int \<Rightarrow> probe_turn list \<Rightarrow> probe_result option" where
  "arp_probe mac ip random now turns =
     (case random of
        None \<Rightarrow> Some (ProbeFailed ''network entropy unavailable'')
      | Some b \<Rightarrow> probe_loop mac ip turns (now + jitter b) 0)"

end
