(* ===== verification/NetRun.thy ===== *)
theory NetRun
  imports NetAgent
begin

text \<open>
  The loops of \<open>internal/netagent/run_linux.go\<close>: the static address, and the DHCP client, each
  as one turn.  A turn ends the loop or goes on; \<open>Run\<close> withdraws whatever is installed when the
  loop ends.
\<close>

section \<open>A turn\<close>

datatype phase = Init | Selecting | Requesting | Bound | Renewing | Rebinding

record client =
  cl_owner :: owner
  cl_phase :: phase
  cl_xid :: "byte list"
  cl_offered :: lease
  cl_acquired :: int
  cl_attempt :: int
  cl_next :: int
  cl_beat :: int
  cl_retry :: int

text \<open>\<open>Stop\<close> leaves the loop, with an error or none; \<open>Again\<close> starts its next turn; \<open>Go\<close> is still in this one.\<close>

datatype step = Stop "string option" client | Again client | Go client

definition and_then :: "step \<Rightarrow> (client \<Rightarrow> step) \<Rightarrow> step" where
  "and_then s f = (case s of Go c \<Rightarrow> f c | _ \<Rightarrow> s)"

text \<open>
  The environment of a turn: the clock, the withdrawal at expiry, the heartbeat, random bytes
  for a new transaction (rebinding, renewing, discovery), the ARP packet, the sends, the packet
  read, and what an answer to it needs.
\<close>

record turn_env =
  te_now :: int
  te_expire :: withdraw_env
  te_beat :: beat_env
  te_rebind_xid :: "byte list option"
  te_renew_xid :: "byte list option"
  te_init_xid :: "byte list option"
  te_arp :: "(string, byte list) result"
  te_discover :: "(string, unit) result"
  te_rebind :: "(string, unit) result"
  te_read :: "(string, byte list) result"
  te_offer_now :: int
  te_request :: "(string, unit) result"
  te_nak :: withdraw_env
  te_nak_now :: int
  te_change :: withdraw_env
  te_probe :: "probe_result"
  te_pause :: bool
  te_ack_now :: int
  te_install :: install_env
  te_bound_now :: int
  te_announce :: "(string, unit) result"

definition send :: "net_request \<Rightarrow> client \<Rightarrow> client" where
  "send r c = c\<lparr>cl_owner := logged [r] (cl_owner c)\<rparr>"

text \<open>The address of a lease in text, parsed again.\<close>

definition lease_ip :: "string \<Rightarrow> byte list" where
  "lease_ip s = (case parse_ip_to4 s of None \<Rightarrow> [] | Some q \<Rightarrow> q)"

definition restart :: "client \<Rightarrow> client" where
  "restart c = c\<lparr>cl_phase := Init, cl_next := 0\<rparr>"

section \<open>While there is a lease\<close>

definition turn_expire :: "turn_env \<Rightarrow> client \<Rightarrow> step" where
  "turn_expire e c =
     (if te_now e < ow_expires (cl_owner c) then Go c
      else case withdraw (te_expire e) (cl_owner c) of
        (Inl t, o1) \<Rightarrow> Stop (Some t) (c\<lparr>cl_owner := o1\<rparr>)
      | (Inr (), o1) \<Rightarrow> Go (restart (c\<lparr>cl_owner := o1\<rparr>)))"

definition turn_beat :: "turn_env \<Rightarrow> client \<Rightarrow> step" where
  "turn_beat e c =
     (if te_now e \<le> cl_beat c then Go c
      else case heartbeat (te_beat e) (te_now e) (cl_owner c) of
        (Inl t, o1) \<Rightarrow> Stop (Some t) (c\<lparr>cl_owner := o1\<rparr>)
      | (Inr (), o1) \<Rightarrow>
          (let c1 = c\<lparr>cl_owner := o1, cl_beat := te_now e + second\<rparr>
           in Go (if le_address (ow_lease o1) = [] then restart c1 else c1)))"

definition turn_rebind :: "turn_env \<Rightarrow> client \<Rightarrow> step" where
  "turn_rebind e c =
     (let l = ow_lease (cl_owner c) in
      if le_address l \<noteq> [] \<and> le_rebind l \<le> time_sub (te_now e) (cl_acquired c) \<and> cl_phase c \<noteq> Rebinding then
        (let c1 = c\<lparr>cl_phase := Rebinding, cl_next := 0, cl_attempt := te_now e\<rparr>
         in case te_rebind_xid e of None \<Rightarrow> Stop (Some ''network entropy unavailable'') c1 | Some x \<Rightarrow> Go (c1\<lparr>cl_xid := x\<rparr>))
      else Go c)"

definition turn_renew :: "turn_env \<Rightarrow> client \<Rightarrow> step" where
  "turn_renew e c =
     (let l = ow_lease (cl_owner c) in
      if le_address l \<noteq> [] \<and> le_renew l \<le> time_sub (te_now e) (cl_acquired c) \<and> cl_phase c = Bound then
        (let c1 = c\<lparr>cl_phase := Renewing, cl_next := 0, cl_attempt := te_now e\<rparr>
         in case te_renew_xid e of None \<Rightarrow> Stop (Some ''network entropy unavailable'') c1 | Some x \<Rightarrow> Go (c1\<lparr>cl_xid := x\<rparr>))
      else Go c)"

definition decline :: "byte list \<Rightarrow> byte list \<Rightarrow> string \<Rightarrow> string \<Rightarrow> net_request" where
  "decline xid mac address server = Broadcast (ipv4_broadcast (dhcp_packet 4 xid mac (lease_ip address) (lease_ip server) []))"

definition turn_arp :: "byte list \<Rightarrow> turn_env \<Rightarrow> client \<Rightarrow> step" where
  "turn_arp mac e c =
     (let l = ow_lease (cl_owner c) in
      case te_arp e of
        Inl t \<Rightarrow> Stop (Some t) c
      | Inr p \<Rightarrow>
          if le_address l \<noteq> [] \<and> arp_conflict p mac (lease_ip (le_address l)) False
          then Stop (Some ''address conflict'') (send (decline (cl_xid c) mac (le_address l) (le_server l)) c)
          else Go c)"

definition turn_lease :: "byte list \<Rightarrow> turn_env \<Rightarrow> client \<Rightarrow> step" where
  "turn_lease mac e c =
     (if le_address (ow_lease (cl_owner c)) = [] then Go c
      else and_then (turn_expire e c) (\<lambda>c. and_then (turn_beat e c) (\<lambda>c. and_then (turn_rebind e c) (\<lambda>c.
           and_then (turn_renew e c) (turn_arp mac e)))))"

section \<open>The timer\<close>

definition backoff :: "turn_env \<Rightarrow> client \<Rightarrow> client" where
  "backoff e c = c\<lparr>cl_next := te_now e + cl_retry c, cl_retry := (if cl_retry c < 16 * second then cl_retry c * 2 else cl_retry c)\<rparr>"

definition turn_discover :: "byte list \<Rightarrow> turn_env \<Rightarrow> client \<Rightarrow> step" where
  "turn_discover mac e c =
     and_then
       (if cl_phase c = Init then
          (case te_init_xid e of
             None \<Rightarrow> Stop (Some ''network entropy unavailable'') c
           | Some x \<Rightarrow> Go (c\<lparr>cl_xid := x, cl_retry := 4 * second\<rparr>))
        else Go c)
       (\<lambda>c. let c1 = send (Broadcast (ipv4_broadcast (dhcp_packet 1 (cl_xid c) mac [] [] [])))
                     (c\<lparr>cl_phase := Selecting, cl_attempt := te_now e\<rparr>)
            in case te_discover e of Inl t \<Rightarrow> Stop (Some t) c1 | Inr _ \<Rightarrow> Go (backoff e c1))"

definition turn_timer :: "byte list \<Rightarrow> turn_env \<Rightarrow> client \<Rightarrow> step" where
  "turn_timer mac e c =
     (if te_now e < cl_next c then Go c
      else
        let l = ow_lease (cl_owner c); msg = dhcp_packet 3 (cl_xid c) mac [] [] (lease_ip (le_address l)) in
        case cl_phase c of
          Requesting \<Rightarrow> Again (restart c)
        | Renewing \<Rightarrow> Go (backoff e (send (Unicast (le_server l) msg) c))
        | Rebinding \<Rightarrow>
            (let c1 = send (Broadcast (rebind_frame (lease_ip (le_address l)) msg)) c
             in case te_rebind e of Inl t \<Rightarrow> Stop (Some t) c1 | Inr _ \<Rightarrow> Go (backoff e c1))
        | Bound \<Rightarrow> Go (backoff e c)
        | _ \<Rightarrow> turn_discover mac e c)"

section \<open>The answer\<close>

definition turn_offer :: "byte list \<Rightarrow> turn_env \<Rightarrow> lease \<Rightarrow> client \<Rightarrow> step" where
  "turn_offer mac e l c =
     (let c1 = send (Broadcast (ipv4_broadcast (dhcp_packet 3 (cl_xid c) mac (lease_ip (le_address l)) (lease_ip (le_server l)) [])))
                 (c\<lparr>cl_offered := l, cl_phase := Requesting, cl_attempt := te_offer_now e, cl_next := te_offer_now e + 8 * second\<rparr>)
      in case te_request e of Inl t \<Rightarrow> Stop (Some t) c1 | Inr _ \<Rightarrow> Again c1)"

definition turn_nak :: "turn_env \<Rightarrow> client \<Rightarrow> step" where
  "turn_nak e c =
     (case withdraw (te_nak e) (cl_owner c) of
        (Inl t, o1) \<Rightarrow> Stop (Some t) (c\<lparr>cl_owner := o1\<rparr>)
      | (Inr (), o1) \<Rightarrow> Again (c\<lparr>cl_owner := o1, cl_phase := Init, cl_next := te_nak_now e + second\<rparr>))"

text \<open>An acknowledged lease that differs is probed after the old one is withdrawn.\<close>

definition turn_change :: "byte list \<Rightarrow> turn_env \<Rightarrow> lease \<Rightarrow> client \<Rightarrow> step" where
  "turn_change mac e l c =
     (if same_lease l (ow_lease (cl_owner c)) then Go c
      else case withdraw (te_change e) (cl_owner c) of
        (Inl t, o1) \<Rightarrow> Stop (Some t) (c\<lparr>cl_owner := o1\<rparr>)
      | (Inr (), o1) \<Rightarrow>
          (let c1 = c\<lparr>cl_owner := o1\<rparr>
           in case te_probe e of
                Free \<Rightarrow> Go c1
              | Cancelled \<Rightarrow> Stop None c1
              | ProbeFailed t \<Rightarrow> Stop (Some t) c1
              | Conflict \<Rightarrow>
                  (let c2 = send (decline (cl_xid c) mac (le_address l) (le_server l)) c1
                   in if \<not> te_pause e then Stop None c2 else Again (restart c2))))"

definition turn_bind :: "byte list \<Rightarrow> turn_env \<Rightarrow> lease \<Rightarrow> bool \<Rightarrow> client \<Rightarrow> step" where
  "turn_bind mac e l changed c =
     (let expires = cl_attempt c + le_duration l in
      if \<not> te_ack_now e + 5 * second < expires then Again (restart c)
      else case install (te_install e) l expires (cl_owner c) of
        (Inl t, o1) \<Rightarrow> Stop (Some t) (c\<lparr>cl_owner := o1\<rparr>)
      | (Inr (), o1) \<Rightarrow>
          (let c1 = c\<lparr>cl_owner := o1, cl_acquired := cl_attempt c, cl_phase := Bound, cl_next := te_bound_now e + le_renew l,
                       cl_retry := 4 * second\<rparr>
           in if changed then
                (let c2 = send (ArpFrame (arp_packet mac (lease_ip (le_address l)) False)) c1
                 in case te_announce e of Inl t \<Rightarrow> Stop (Some t) c2 | Inr _ \<Rightarrow> Go c2)
              else Go c1))"

definition answer_expected :: "client \<Rightarrow> byte \<Rightarrow> lease \<Rightarrow> bool" where
  "answer_expected c kind l \<longleftrightarrow>
     \<not> (cl_phase c \<noteq> Requesting \<and> cl_phase c \<noteq> Renewing \<and> cl_phase c \<noteq> Rebinding) \<and>
     \<not> (cl_phase c = Requesting \<and> le_server l \<noteq> le_server (cl_offered c) \<or>
        cl_phase c = Renewing \<and> le_server l \<noteq> le_server (ow_lease (cl_owner c)))"

definition turn_answer :: "byte list \<Rightarrow> turn_env \<Rightarrow> byte \<Rightarrow> lease \<Rightarrow> client \<Rightarrow> step" where
  "turn_answer mac e kind l c =
     (if cl_phase c = Selecting \<and> kind = 2 then turn_offer mac e l c
      else if \<not> answer_expected c kind l then Again c
      else if kind = 6 then turn_nak e c
      else if kind \<noteq> 5 \<or> cl_phase c = Requesting \<and> le_address l \<noteq> le_address (cl_offered c) then Again c
      else and_then (turn_change mac e l c) (turn_bind mac e l (\<not> same_lease l (ow_lease (cl_owner c)))))"

definition turn_read :: "byte list \<Rightarrow> turn_env \<Rightarrow> client \<Rightarrow> step" where
  "turn_read mac e c =
     (case te_read e of
        Inl t \<Rightarrow> Stop (Some t) c
      | Inr p \<Rightarrow>
          (case dhcp_payload p of
             None \<Rightarrow> Again c
           | Some payload \<Rightarrow>
               (case reply payload (cl_xid c) mac of
                  Inl _ \<Rightarrow> Again c
                | Inr (kind, l) \<Rightarrow> turn_answer mac e kind l c)))"

definition dhcp_turn :: "byte list \<Rightarrow> turn_env \<Rightarrow> client \<Rightarrow> step" where
  "dhcp_turn mac e c = and_then (turn_lease mac e c) (\<lambda>c. and_then (turn_timer mac e c) (turn_read mac e))"

text \<open>The loop: turns one after the other, each in an environment that satisfies \<open>P\<close>.\<close>

inductive dhcp_run :: "(turn_env \<Rightarrow> bool) \<Rightarrow> byte list \<Rightarrow> client \<Rightarrow> client \<Rightarrow> bool" for P mac c where
  begin_run: "dhcp_run P mac c c"
| turn_again: "dhcp_run P mac c d \<Longrightarrow> P e \<Longrightarrow> dhcp_turn mac e d = Again d' \<Longrightarrow> dhcp_run P mac c d'"
| turn_go: "dhcp_run P mac c d \<Longrightarrow> P e \<Longrightarrow> dhcp_turn mac e d = Go d' \<Longrightarrow> dhcp_run P mac c d'"

definition new_owner :: "int \<Rightarrow> owner" where
  "new_owner index = \<lparr>ow_index = index, ow_lease = no_lease, ow_expires = 0,
     ow_status = \<lparr>ls_generation = [], ls_sequence = 0, ls_address = [], ls_prefix = 0, ls_router = [], ls_valid_until = 0\<rparr>,
     ow_file = None, ow_log = []\<rparr>"

definition new_dhcp :: "int \<Rightarrow> client" where
  "new_dhcp index = \<lparr>cl_owner = new_owner index, cl_phase = Init, cl_xid = replicate 4 0, cl_offered = no_lease, cl_acquired = 0,
     cl_attempt = 0, cl_next = 0, cl_beat = 0, cl_retry = 4 * second\<rparr>"

section \<open>A static address\<close>

record static_env =
  se_probe_result :: probe_result
  se_install :: install_env
  se_announce :: "(string, unit) result"
  se_next :: int

definition static_start :: "byte list \<Rightarrow> lease \<Rightarrow> static_env \<Rightarrow> owner \<Rightarrow> (string option, int) result \<times> owner" where
  "static_start mac l e o1 =
     (case se_probe_result e of
        Conflict \<Rightarrow> (Inl (Some ''address conflict''), o1)
      | ProbeFailed t \<Rightarrow> (Inl (Some t), o1)
      | Cancelled \<Rightarrow> (Inl (Some ''context canceled''), o1)
      | Free \<Rightarrow>
          (case install (se_install e) l 0 o1 of
             (Inl t, o2) \<Rightarrow> (Inl (Some t), o2)
           | (Inr (), o2) \<Rightarrow>
               (let o3 = logged [ArpFrame (arp_packet mac (lease_ip (le_address l)) False)] o2
                in case se_announce e of Inl t \<Rightarrow> (Inl (Some t), o3) | Inr _ \<Rightarrow> (Inr (se_next e + second), o3))))"

text \<open>One turn: the packet read, the clock, the heartbeat and the clock after it.\<close>

definition static_turn :: "byte list \<Rightarrow> lease \<Rightarrow> (string, byte list) result \<Rightarrow> int \<Rightarrow> beat_env \<Rightarrow> int \<Rightarrow> int \<Rightarrow> owner \<Rightarrow>
    (string, int) result \<times> owner" where
  "static_turn mac l packet now e later next1 o1 =
     (case packet of
        Inl t \<Rightarrow> (Inl t, o1)
      | Inr p \<Rightarrow>
          if arp_conflict p mac (lease_ip (le_address l)) False then (Inl ''address conflict'', o1)
          else if \<not> next1 < now then (Inr next1, o1)
          else case heartbeat e now o1 of
            (Inl t, o2) \<Rightarrow> (Inl t, o2)
          | (Inr (), o2) \<Rightarrow> (Inr (later + second), o2))"

section \<open>The start\<close>

text \<open>What \<open>Run\<close> meets before its loop.\<close>

record start_run =
  sr_links :: "link list option"
  sr_paused :: bool
  sr_links_again :: "link list option"
  sr_links_aux :: "link list option"
  sr_fresh :: "int \<Rightarrow> link option"
  sr_prepare :: prepare_env
  sr_directory :: bool
  sr_withdraw :: withdraw_env
  sr_socket :: "(string, unit) result"

text \<open>The preparation's requests, and the interface, the MAC and the static lease; an error is None where it is no error.\<close>

definition agent_start :: "agent_config \<Rightarrow> start_run \<Rightarrow> prepare_request list \<times> (string option, link \<times> byte list \<times> lease) result" where
  "agent_start c e =
     (case validate_agent c of
        Inl t \<Rightarrow> ([], Inl (Some t))
      | Inr (mac, static) \<Rightarrow>
          (case selected_interface mac (sr_links e) of
             Inl t \<Rightarrow> ([], Inl (Some t))
           | Inr l \<Rightarrow>
               if \<not> sr_paused e then ([], Inl None)
               else case selected_interface mac (sr_links_again e) of
                 Inl t \<Rightarrow> ([], Inl (Some ''managed interface changed before preparation''))
               | Inr f \<Rightarrow>
                   if li_index f \<noteq> li_index l \<or> mac_text (li_mac f) \<noteq> mac_text (li_mac l)
                   then ([], Inl (Some ''managed interface changed before preparation''))
                   else case auxiliary_interface (li_index f) (nc_aux_address c) (nc_aux_router c) (sr_links_aux e) (sr_fresh e) of
                     Inl t \<Rightarrow> ([], Inl (Some t))
                   | Inr a \<Rightarrow>
                       (case prepare_with_aux (sr_prepare e) f mac a of
                          (rs, Inl t) \<Rightarrow> (rs, Inl (Some t))
                        | (rs, Inr actual) \<Rightarrow>
                            (rs, if \<not> sr_directory e then Inl (Some ''network handoff directory unavailable'')
                                 else case withdraw (sr_withdraw e) (new_owner (li_index actual)) of
                                   (Inl t, _) \<Rightarrow> Inl (Some t)
                                 | (Inr _, _) \<Rightarrow>
                                     (case sr_socket e of Inl t \<Rightarrow> Inl (Some t) | Inr _ \<Rightarrow> Inr (actual, mac, static))))))"

end
