(* ===== verification/DhcpFacts.thy ===== *)
theory DhcpFacts
  imports Dhcp
begin

text \<open>
  The frames carry checksums that verify, the messages read back option by option, and a reply
  is accepted only for the own transaction and with a lease within its bounds.
\<close>

section \<open>The Internet checksum\<close>

text \<open>The sum without the width.\<close>

fun nat_words :: "byte list \<Rightarrow> nat" where
  "nat_words (a # b # rest) = unat (get_u16 [a, b]) + nat_words rest"
| "nat_words [a] = 256 * unat a"
| "nat_words [] = 0"

lemma unat_ucast16: "unat (ucast (x :: u16) :: u32) = unat x"
proof -
  have "unat x < 2 ^ 32" using unsigned_less [of x, where ?'a = nat] by simp
  then show ?thesis by (simp only: unsigned_ucast_eq take_bit_nat_eq_self_iff len_of_numeral_defs) (simp add: take_bit_nat_eq_self)
qed

lemma unat_ucast8: "unat (ucast (x :: byte) :: u32) = unat x"
proof -
  have "unat x < 2 ^ 32" using unsigned_less [of x, where ?'a = nat] by simp
  then show ?thesis by (simp only: unsigned_ucast_eq take_bit_nat_eq_self_iff len_of_numeral_defs) (simp add: take_bit_nat_eq_self)
qed

lemma nat_words_bound: "nat_words p \<le> 65535 * length p"
proof (induction p rule: nat_words.induct)
  case (1 a b rest)
  then show ?case using unsigned_less [of "get_u16 [a, b]", where ?'a = nat] by simp
next
  case (2 a)
  then show ?case using unsigned_less [of a, where ?'a = nat] by simp
qed simp

lemma word_sum_nat:
  "unat s + nat_words p < 4294967296 \<Longrightarrow> unat (word_sum p s) = unat s + nat_words p"
proof (induction p s rule: word_sum.induct)
  case (1 a b rest s)
  have "unat (s + ucast (get_u16 [a, b]) :: u32) = unat s + unat (get_u16 [a, b])"
    using 1(2) by (simp add: unat_word_ariths unat_ucast16)
  then show ?case using 1 by simp
next
  case (2 a s)
  have a: "unat (push_bit 8 (ucast a) :: u32) = 256 * unat a"
    using unsigned_less [of a, where ?'a = nat] by (simp add: push_bit_eq_mult unat_word_ariths unat_ucast8)
  then show ?case using 2 by (simp add: unat_word_ariths)
qed simp

lemma word_sum_add: "word_sum p (s + t) = word_sum p s + t"
  by (induction p s rule: word_sum.induct) (simp_all add: algebra_simps)

lemma word_sum_append: "even (length p) \<Longrightarrow> word_sum (p @ q) s = word_sum q (word_sum p s)"
  by (induction p s rule: word_sum.induct) simp_all

lemma word_sum_u16: "word_sum (put_u16 w) s = s + ucast w"
proof -
  obtain a b where ab: "put_u16 w = [a, b]" using length_put(1) [of w] by (auto simp: numeral_eq_Suc length_Suc_conv simp del: length_put)
  then have "get_u16 [a, b] = w" using get_put(1) [of w] by simp
  then show ?thesis by (simp add: ab)
qed

lemma fold_carry_value:
  "unat (fold_carry s) < 65536 \<and> unat (fold_carry s) mod 65535 = unat s mod 65535 \<and> (unat (fold_carry s) = 0 \<longleftrightarrow> unat s = 0)"
proof (induction s rule: fold_carry.induct)
  case (1 s)
  have d: "unat (drop_bit 16 s) = unat s div 65536" using unat_network [of 16 s] by simp
  show ?case
  proof (cases "drop_bit 16 s = 0")
    case True
    then have "unat s div 65536 = 0" using d by simp
    then show ?thesis using True by (subst (1 2 3) fold_carry.simps) (simp add: div_eq_0_iff)
  next
    case False
    let ?t = "(s AND 65535) + drop_bit 16 s"
    have "(65535 :: u32) = mask 16" by (simp add: mask_eq_exp_minus_1)
    then have a: "unat (s AND 65535) = unat s mod 65536" using unat_host [of 16 s] by (simp add: take_bit_eq_mask)
    have "unat s < 4294967296" using unsigned_less [of s, where ?'a = nat] by simp
    then have t: "unat ?t = unat s mod 65536 + unat s div 65536" by (simp add: unat_word_ariths a d)
    have "unat s = unat s div 65536 * 65535 + unat ?t" unfolding t using div_mult_mod_eq [of "unat s" 65536] by linarith
    then have "unat s mod 65535 = (unat s div 65536 * 65535 + unat ?t) mod 65535" by simp
    then have m: "unat ?t mod 65535 = unat s mod 65535" by simp
    have "unat s div 65536 \<noteq> 0" using False d by (metis unsigned_eq_0_iff)
    then have z: "unat ?t \<noteq> 0" "unat s \<noteq> 0" using t by auto
    show ?thesis using 1 [OF False] m z False by (subst (1 2 3) fold_carry.simps) simp
  qed
qed

lemma unat_not16: "unat (NOT (x :: u16)) = 65535 - unat x"
proof -
  have "uint (NOT x) = take_bit 16 (NOT (uint x))" by (simp add: unsigned_not_eq)
  also have "\<dots> = (- 1 - uint x) mod 65536" by (simp add: take_bit_eq_mod not_eq_complement minus_diff_commute)
  also have "\<dots> = 65535 - uint x"
  proof -
    have "(- 1 - uint x) mod 65536 = (65535 - uint x + 65536 * (- 1)) mod 65536" by simp
    also have "\<dots> = (65535 - uint x) mod 65536" by (rule mod_mult_self2)
    also have "\<dots> = 65535 - uint x" 
    proof (rule mod_pos_pos_trivial)
      have "uint x < 65536" using unsigned_less [of x, where ?'a = int] by simp
      then show "0 \<le> 65535 - uint x" by linarith
      have "0 \<le> uint x" by simp
      then show "65535 - uint x < 65536" by linarith
    qed
    finally show ?thesis .
  qed
  finally have "uint (NOT x) = 65535 - uint x" .
  then have "int (unat (NOT x)) = 65535 - int (unat x)" by simp
  then show ?thesis by linarith
qed

lemma unat_checksum: "unat (checksum p) = 65535 - unat (fold_carry (word_sum p 0))"
proof -
  have "unat (ucast (fold_carry (word_sum p 0)) :: u16) = unat (fold_carry (word_sum p 0))"
    using fold_carry_value [of "word_sum p 0"] by (simp add: unsigned_ucast_eq take_bit_eq_mod)
  then show ?thesis by (simp add: checksum_def unat_not16)
qed

lemma checksum_verifies:
  assumes "even (length pre)" "length (pre @ post) \<le> 60000" "nat_words (pre @ [0, 0] @ post) \<noteq> 0"
  shows "checksum (pre @ put_u16 (checksum (pre @ [0, 0] @ post)) @ post) = 0"
proof -
  let ?z = "pre @ [0, 0] @ post" and ?c = "checksum (pre @ [0, 0] @ post)"
  let ?f = "pre @ put_u16 ?c @ post"
  have z0: "[0, 0] = put_u16 0" by code_simp
  have sum: "word_sum ?f 0 = word_sum ?z 0 + ucast ?c"
    using assms(1) by (simp only: z0 word_sum_append [of pre] word_sum_append [of "put_u16 _"] length_put even_numeral
        word_sum_u16 word_sum_add [of post]) simp
  have n: "nat_words ?z \<le> 65535 * 60002" using nat_words_bound [of ?z] assms(2) by simp
  then have A: "unat (word_sum ?z 0) = nat_words ?z" using word_sum_nat [of 0 ?z] by simp
  let ?r = "unat (fold_carry (word_sum ?z 0))"
  have r: "?r < 65536" "?r mod 65535 = nat_words ?z mod 65535" using fold_carry_value [of "word_sum ?z 0"] A by auto
  have c: "unat (ucast ?c :: u32) = 65535 - ?r" by (simp add: unat_ucast16 unat_checksum)
  have total: "unat (word_sum ?f 0) = nat_words ?z + (65535 - ?r)"
    unfolding sum using n by (simp add: unat_word_ariths A [simplified] c [simplified])
  have multiple: "(nat_words ?z + (65535 - ?r)) mod 65535 = 0"
  proof -
    have "(nat_words ?z + (65535 - ?r)) mod 65535 = (?r + (65535 - ?r)) mod 65535"
      by (rule mod_add_cong) (simp_all only: r(2))
    also have "\<dots> = 0" using r(1) by simp
    finally show ?thesis .
  qed
  have v: "unat (word_sum ?f 0) mod 65535 = 0" "unat (word_sum ?f 0) \<noteq> 0"
    unfolding total using assms(3) multiple by (simp_all only: add_is_0 simp_thms)
  have one: "n = 65535" if "n mod 65535 = 0" "n \<noteq> 0" "n < 65536" for n :: nat
  proof -
    have "65535 dvd n" using that(1) by (rule mod_0_imp_dvd)
    then obtain k where k: "n = 65535 * k" by (rule dvdE)
    then have "0 < k" "k < 2" using that(2,3) by (simp_all add: gr0_conv_Suc)
    then show ?thesis using k by simp
  qed
  have "unat (fold_carry (word_sum ?f 0)) = 65535"
    by (rule one) (use fold_carry_value [of "word_sum ?f 0"] v in argo)+
  then have "unat (checksum ?f) = 0" unfolding unat_checksum by (simp only: diff_self_eq_0)
  then show ?thesis by (metis unsigned_eq_0_iff)
qed

section \<open>The frames\<close>

lemma frame_checksum:
  assumes "length source = 4"
  shows "checksum (ip_header n (put_u16 (checksum (ip_header n [0, 0] source))) source) = 0"
proof -
  let ?pre = "[0x45, 0] @ put_u16 (of_nat n) @ [0, 0, 0, 0, 64, 17]" and ?post = "source @ [255, 255, 255, 255]"
  have h: "ip_header n cs source = ?pre @ cs @ ?post" for cs by (simp add: ip_header_def)
  have "get_u16 [0x45, 0] = 0x4500" by (simp add: get_u16_def be_value_def)
  then have n: "nat_words (?pre @ [0, 0] @ ?post) \<noteq> 0" by simp
  have "even (length ?pre)" "length (?pre @ ?post) \<le> 60000" using assms by simp_all
  from checksum_verifies [OF this n] show ?thesis unfolding h .
qed

lemma length_ip_header: "length cs = 2 \<Longrightarrow> length source = 4 \<Longrightarrow> length (ip_header n cs source) = 20"
  by (simp add: ip_header_def)

lemma take_frame:
  assumes "length source = 4"
  shows "take 20 (ipv4_frame source payload) =
    ip_header (28 + length payload) (put_u16 (checksum (ip_header (28 + length payload) [0, 0] source))) source"
  using assms by (simp add: ipv4_frame_def Let_def length_ip_header)

lemma rebind_frame_eq:
  assumes "length source = 4"
  shows "rebind_frame source payload = ipv4_frame source payload"
proof -
  let ?n = "28 + length payload"
  obtain pre :: "byte list" where q: "pre = [0x45, 0] @ put_u16 (of_nat ?n) @ [0, 0, 0, 0, 64, 17]" by blast
  have pre: "length pre = 10" "\<And>cs src. ip_header ?n cs src = pre @ cs @ src @ [255, 255, 255, 255]"
    by (simp_all add: q ip_header_def)
  show ?thesis
    using assms pre(1) by (simp add: rebind_frame_def ipv4_broadcast_def ipv4_frame_def pre(2) Let_def)
qed

text \<open>What is taken from a frame is a part of it, after the two headers.\<close>

lemma payload_segment:
  assumes "dhcp_payload p = Some u"
  shows "\<exists>pre post. p = pre @ u @ post \<and> 28 \<le> length pre"
proof -
  let ?h = "unat (p ! 0 AND 15) * 4" and ?t = "unat (get_u16 (sub_bytes 2 4 p))"
  have h: "20 \<le> ?h" "?t \<le> length p" "?h + 8 \<le> ?t" "u = drop 8 (sub_bytes ?h ?t p)"
    using assms unfolding dhcp_payload_def Let_def by (auto split: if_splits)
  have "u = drop (?h + 8) (take ?t p)" unfolding h(4) by (simp add: sub_bytes_def drop_take add.commute)
  then have "p = take (?h + 8) (take ?t p) @ u @ drop ?t p" by (metis append_assoc append_take_drop_id)
  moreover have "28 \<le> length (take (?h + 8) (take ?t p))" using h by simp
  ultimately show ?thesis by blast
qed

lemma own_frame_ignored: "dhcp_payload (ipv4_broadcast payload) = None"
proof (rule ccontr)
  let ?p = "ipv4_broadcast payload" and ?t = "unat (get_u16 (sub_bytes 2 4 (ipv4_broadcast payload)))"
  assume "dhcp_payload ?p \<noteq> None"
  then obtain u where u: "dhcp_payload ?p = Some u" by blast
  have p: "?p = ip_header (28 + length payload) (put_u16 (checksum (ip_header (28 + length payload) [0, 0] [0, 0, 0, 0]))) [0, 0, 0, 0] @
      put_u16 68 @ put_u16 67 @ put_u16 (of_nat (8 + length payload)) @ [0, 0] @ payload"
    by (simp add: ipv4_broadcast_def ipv4_frame_def Let_def udp_datagram_def)
  have "?p ! 0 = 0x45" by (simp add: p ip_header_def)
  moreover have "unat ((0x45 :: byte) AND 15) * 4 = 20" by code_simp
  ultimately have h: "unat (?p ! 0 AND 15) * 4 = 20" by simp
  have c: "28 \<le> ?t" "get_u16 (sub_bytes 0 2 (sub_bytes 20 ?t ?p)) = 67"
    using u unfolding dhcp_payload_def Let_def h by (auto split: if_splits)
  have "sub_bytes 0 2 (sub_bytes 20 ?t ?p) = take 2 (drop 20 ?p)" using c(1) by (simp add: sub_bytes_def take_drop min_def)
  also have "\<dots> = put_u16 68" unfolding p by (simp add: length_ip_header)
  finally have "get_u16 (put_u16 68) = 67" using c(2) by simp
  then show False by simp
qed

section \<open>The options of a message\<close>

lemma scan_option:
  assumes "code \<noteq> 255" "code \<noteq> 0" "length v < 256" "opts code = None"
  shows "scan_options (code # of_nat (length v) # v @ rest) opts = scan_options rest (opts(code \<mapsto> v))"
  using assms by (simp add: unat_of_nat)

lemma scan_short:
  assumes "code \<noteq> 255" "code \<noteq> 0" "length v = n" "n < 256" "b = of_nat n" "opts code = None"
  shows "scan_options (code # b # v @ rest) opts = scan_options rest (opts(code \<mapsto> v))"
  using scan_option [of code v opts rest] assms by simp

lemma scan_ip_option:
  assumes "code \<noteq> 255" "code \<noteq> 0" "opts code = None"
  shows "scan_options (ip_option code ip @ rest) opts =
    scan_options rest (case to4 ip of None \<Rightarrow> opts | Some q \<Rightarrow> opts(code \<mapsto> q))"
proof (cases "to4 ip")
  case (Some q)
  then have "length q = 4" by (rule to4_length)
  then show ?thesis using scan_short [of code q 4 4 opts rest] assms Some by (simp add: ip_option_def)
qed (simp add: ip_option_def)

lemma packet_layout:
  assumes "length mac = 6" "length xid = 4"
  shows "length (dhcp_header xid mac current) = 240" "sub_bytes 4 8 (dhcp_header xid mac current) = xid"
    "sub_bytes 28 34 (dhcp_header xid mac current) = mac"
proof -
  let ?c = "case to4 current of None \<Rightarrow> [0x80, 0, 0, 0, 0, 0] | Some q \<Rightarrow> [0, 0] @ q"
  have c: "length ?c = 6" using to4_length [of current] by (auto split: option.split)
  have h: "dhcp_header xid mac current = [1, 1, 6, 0] @ xid @ [0, 0] @ ?c @ replicate 12 0 @ mac @ replicate 202 0 @ magic_cookie"
    using assms by (simp add: dhcp_header_def copied_def)
  show "length (dhcp_header xid mac current) = 240" unfolding h using assms c by (simp add: magic_cookie_def)
  show "sub_bytes 4 8 (dhcp_header xid mac current) = xid"
    by (rule slice_split [where pre = "[1, 1, 6, 0]"]) (simp_all add: h assms)
  show "sub_bytes 28 34 (dhcp_header xid mac current) = mac"
    by (rule slice_split [where pre = "[1, 1, 6, 0] @ xid @ [0, 0] @ ?c @ replicate 12 0"]) (simp_all add: h assms c)
qed

lemma packet_options:
  assumes "length mac = 6" "length xid = 4"
  shows "length (dhcp_packet kind xid mac requested server current) = 300"
    and "\<exists>opts. scan_options (drop 240 (dhcp_packet kind xid mac requested server current)) Map.empty = Some opts \<and>
      opts 53 = Some [kind] \<and> opts 61 = Some (1 # mac) \<and> opts 50 = to4 requested \<and> opts 54 = to4 server"
proof -
  note h = packet_layout(1) [OF assms, of current]
  let ?ips = "ip_option 50 requested @ ip_option 54 server"
  let ?opts = "[53, 1, kind, 61, 7, 1] @ mac @ ?ips @ [55, 5, 1, 3, 51, 58, 59, 57, 2, 5, 220, 255]"
  have ips: "length ?ips \<le> 12" using to4_length by (auto simp: ip_option_def split: option.split)
  have p: "dhcp_packet kind xid mac requested server current =
      dhcp_header xid mac current @ ?opts @ replicate (300 - length (dhcp_header xid mac current @ ?opts)) 0"
    by (simp add: dhcp_packet_def Let_def)
  have o: "length ?opts \<le> 60" using assms(1) ips by simp
  show "length (dhcp_packet kind xid mac requested server current) = 300"
    unfolding p using h o by (simp only: length_append length_replicate)
  let ?pad = "replicate (300 - length (dhcp_header xid mac current @ ?opts)) 0 :: byte list"
  have d: "drop 240 (dhcp_packet kind xid mac requested server current) = ?opts @ ?pad" unfolding p using h by simp
  let ?m0 = "Map.empty(53 \<mapsto> [kind], 61 \<mapsto> 1 # mac) :: byte \<rightharpoonup> byte list"
  let ?m1 = "case to4 requested of None \<Rightarrow> ?m0 | Some q \<Rightarrow> ?m0(50 \<mapsto> q)"
  let ?m2 = "case to4 server of None \<Rightarrow> ?m1 | Some q \<Rightarrow> ?m1(54 \<mapsto> q)"
  have free: "?m0 50 = None" "?m1 54 = None" "?m2 55 = None" "?m2 57 = None" by (simp_all split: option.split)
  have a: "scan_options (?opts @ ?pad) Map.empty =
      scan_options (?ips @ [55, 5, 1, 3, 51, 58, 59, 57, 2, 5, 220, 255] @ ?pad) ?m0"
    using scan_short [of 53 "[kind]" 1 1 Map.empty] scan_short [of 61 "1 # mac" 7 7 "Map.empty(53 \<mapsto> [kind])"] assms(1) by simp
  have b: "\<dots> = scan_options ([55, 5, 1, 3, 51, 58, 59] @ [57, 2, 5, 220] @ 255 # ?pad) ?m2"
    using scan_ip_option [of 50 ?m0 requested] scan_ip_option [of 54 ?m1 server] free(1,2) by simp
  have c: "\<dots> = Some (?m2(55 \<mapsto> [1, 3, 51, 58, 59], 57 \<mapsto> [5, 220]))"
    using scan_short [of 55 "[1, 3, 51, 58, 59]" 5 5 ?m2] scan_short [of 57 "[5, 220]" 2 2 "?m2(55 \<mapsto> [1, 3, 51, 58, 59])"] free(3,4)
    by simp
  show "\<exists>opts. scan_options (drop 240 (dhcp_packet kind xid mac requested server current)) Map.empty = Some opts \<and>
      opts 53 = Some [kind] \<and> opts 61 = Some (1 # mac) \<and> opts 50 = to4 requested \<and> opts 54 = to4 server"
    unfolding d a b c by (intro exI conjI, rule refl) (auto split: option.split)
qed

section \<open>Replies\<close>

definition lease_ok :: "lease \<Rightarrow> bool" where
  "lease_ok l \<longleftrightarrow>
     validate_address (le_address l) (le_prefix l) (le_router l) = Inr () \<and> server_usable (le_server l) \<and>
     30 * second \<le> le_duration l \<and> le_duration l \<le> 7 * 24 * 3600 * second \<and>
     0 < le_renew l \<and> le_renew l < le_rebind l \<and> le_rebind l < le_duration l"

lemma reply_lease_ok:
  assumes "reply_lease kind p opts l0 = Inr (k, l)" "server_usable (le_server l0)"
  shows "k = kind \<and> lease_ok l \<and> le_server l = le_server l0 \<and> le_address l = ip4_text (sub_bytes 16 20 p)"
proof -
  obtain bits where b: "mask_size (opt_bytes opts 1) = Some bits"
    using assms(1) by (auto simp: reply_lease_def bad_reply_def Let_def split: if_splits option.splits)
  obtain n where n: "unat (get_u32 (opt_bytes opts 51)) = n" by blast
  let ?d = "int n * second"
  obtain renew rebind where t: "timer_option opts 58 (?d div 2) = Some renew" "timer_option opts 59 (?d * 7 div 8) = Some rebind"
    using assms(1) by (auto simp: reply_lease_def bad_reply_def Let_def b n split: if_splits option.splits)
  have g: "validate_address (ip4_text (sub_bytes 16 20 p)) (int bits) (ip4_text (opt_bytes opts 3)) = Inr ()"
      "30 \<le> n" "n \<le> 7 * 24 * 3600" "0 < renew" "renew < rebind" "rebind < ?d"
      "k = kind" "l = l0\<lparr>le_address := ip4_text (sub_bytes 16 20 p), le_router := ip4_text (opt_bytes opts 3), le_prefix := int bits,
        le_duration := ?d, le_renew := renew, le_rebind := rebind\<rparr>"
    using assms(1) by (auto simp: reply_lease_def bad_reply_def Let_def b n t split: if_splits)
  have "30 * second \<le> ?d" "?d \<le> 7 * 24 * 3600 * second" using g(2,3) by (simp_all add: second_def)
  then show ?thesis using g assms(2) by (simp add: lease_ok_def)
qed

lemma reply_Inr:
  assumes "reply p xid mac = Inr (kind, l)"
  shows "reply_framed p xid mac \<and> kind \<in> {2, 5, 6} \<and> server_usable (le_server l) \<and> (kind \<noteq> 6 \<longrightarrow> lease_ok l)"
proof -
  have f: "reply_framed p xid mac" using assms by (auto simp: reply_def bad_reply_def split: if_splits)
  obtain opts where o: "scan_options (drop 240 p) Map.empty = Some opts"
    using assms by (auto simp: reply_def bad_reply_def split: if_splits option.splits)
  let ?l = "no_lease\<lparr>le_server := ip4_text (opt_bytes opts 54)\<rparr>" and ?k = "opt_bytes opts 53 ! 0"
  have s: "server_usable (le_server ?l)" using assms by (auto simp: reply_def bad_reply_def Let_def o split: if_splits)
  consider "kind = 6" "l = ?l" | "?k = 2 \<or> ?k = 5" "reply_lease ?k p opts ?l = Inr (kind, l)"
    using assms by (auto simp: reply_def bad_reply_def Let_def o split: if_splits)
  then show ?thesis
  proof cases
    case 1
    then show ?thesis using f s by simp
  next
    case 2
    then show ?thesis using f s reply_lease_ok [OF 2(2) s] by auto
  qed
qed

end
