(* ===== verification/NetRunFacts.thy ===== *)
theory NetRunFacts
  imports NetRun DhcpFacts
begin

text \<open>
  The address agent never outlives its lease: what it publishes is accepted by the gateway's
  reader, and only before the lease ends; and a lease is taken only from the server's
  acknowledgement of the own transaction, after the address was probed.
\<close>

section \<open>The seconds of a heartbeat\<close>

lemma second_pos: "0 < second" by (simp add: second_def)

lemma seconds_left_bounds:
  assumes "expires = 0 \<or> now \<le> expires"
  shows "unat (seconds_left expires now) \<le> 4"
    and "expires \<noteq> 0 \<Longrightarrow> int (unat (seconds_left expires now)) * second \<le> expires - now"
proof -
  let ?left = "if expires \<noteq> 0 \<and> time_sub expires now < 4 * second then time_sub expires now else 4 * second"
  have left: "0 \<le> ?left" "?left \<le> 4 * second" "expires \<noteq> 0 \<Longrightarrow> ?left \<le> expires - now"
    using assms by (auto simp: time_sub_def second_def)
  have q: "0 \<le> ?left div second" "?left div second \<le> 4" "?left div second * second \<le> ?left"
    using left second_pos by (auto simp: second_def pos_imp_zdiv_nonneg_iff)
  have s: "seconds_left expires now = of_int (?left div second)" using left(1) by (simp add: seconds_left_def Let_def)
  have u: "int (unat (of_int (?left div second) :: u32)) = ?left div second"
    using q(1,2) by (simp add: uint_word_of_int)
  show "unat (seconds_left expires now) \<le> 4" using u q(2) unfolding s by linarith
  show "int (unat (seconds_left expires now)) * second \<le> expires - now" if "expires \<noteq> 0"
    unfolding s u using q(3) left(3) [OF that] by linarith
qed

text \<open>
  The deadline of a heartbeat, whenever it is made: before the end of the lease, or, where the lease
  has ended a second or more before and the conversion to 32 bits wraps, 136 years after it.
\<close>

definition far_future :: int where "far_future = 2 ^ 32 * second"

lemma heartbeat_deadline:
  assumes "expires \<noteq> 0" "\<not> seconds_left expires now < 1"
  defines "deadline \<equiv> now + int (unat (seconds_left expires now)) * second - second div 2"
  shows "deadline < expires \<or> expires + far_future - second div 2 \<le> deadline"
proof (cases "now \<le> expires")
  case True
  then have "int (unat (seconds_left expires now)) * second \<le> expires - now" using seconds_left_bounds(2) assms(1) by blast
  then show ?thesis by (simp add: deadline_def second_def)
next
  case False
  let ?left = "time_sub expires now"
  let ?k = "(- ?left) div second" and ?n = "int (unat (seconds_left expires now))"
  have left: "?left < 0" "?left = - (2 ^ 63) \<or> ?left = expires - now" "- (2 ^ 63) \<le> ?left"
    using False by (auto simp: time_sub_def)
  have n: "seconds_left expires now = of_int (- ?k)" using left(1) assms(1) by (simp add: seconds_left_def second_def)
  have "?n = uint (of_int (- ?k) :: u32)" unfolding n by (rule uint_nat [symmetric])
  also have "\<dots> = (- ?k) mod 2 ^ 32" by (simp only: uint_word_of_int) simp
  finally have m: "?n = (- ?k) mod 2 ^ 32" .
  have "0 < unat (seconds_left expires now)" using assms(2) by (simp add: word_less_nat_alt)
  then have pos: "1 \<le> ?n" by linarith
  have k: "0 \<le> ?k" "?k * second \<le> - ?left" using left(1) by (simp_all add: second_def pos_imp_zdiv_nonneg_iff)
  show ?thesis
  proof (cases "?left = expires - now")
    case True
    have "?k mod 2 ^ 32 \<noteq> 0" using pos unfolding m zmod_zminus1_eq_if by auto
    then have "?n = 2 ^ 32 - ?k mod 2 ^ 32" unfolding m zmod_zminus1_eq_if by simp
    moreover have "?k mod 2 ^ 32 \<le> ?k" using k(1) by (rule zmod_le_nonneg_dividend)
    ultimately have "2 ^ 32 \<le> ?n + ?k" by linarith
    then have "2 ^ 32 * second \<le> (?n + ?k) * second" by (simp add: second_def)
    then show ?thesis using k(2) True by (simp add: deadline_def far_future_def algebra_simps)
  next
    case sat: False
    then have "expires - now < - (2 ^ 63)" using left by (auto simp: time_sub_def split: if_splits)
    moreover have "second \<le> ?n * second" using pos by (simp add: second_def)
    ultimately show ?thesis by (simp add: deadline_def far_future_def second_def)
  qed
qed

text \<open>An expiry that has passed by a second or more wraps to the largest lifetimes there are.\<close>

lemma seconds_left_wraps:
  assumes "expires \<noteq> 0" "now = expires + second"
  shows "seconds_left expires now = - 1"
  using assms by (simp add: seconds_left_def time_sub_def second_def)

section \<open>The owner\<close>

definition status_of_lease :: "status \<Rightarrow> lease \<Rightarrow> bool" where
  "status_of_lease s l \<longleftrightarrow>
     ls_address s = le_address l \<and> ls_prefix s = le_prefix l \<and> ls_router s = le_router l \<and>
     length (ls_generation s) = 32 \<and> list_all (\<lambda>c. in_range 48 57 c \<or> in_range 97 102 c) (ls_generation s)"

definition owner_ok :: "owner \<Rightarrow> bool" where
  "owner_ok o1 \<longleftrightarrow>
     (le_address (ow_lease o1) \<noteq> [] \<longrightarrow> lease_ok (ow_lease o1) \<and> status_of_lease (ow_status o1) (ow_lease o1)) \<and>
     (case ow_file o1 of
        None \<Rightarrow> True
      | Some s \<Rightarrow> le_address (ow_lease o1) \<noteq> [] \<and> status_of_lease s (ow_lease o1) \<and>
          (ls_valid_until s < ow_expires o1 \<or> ow_expires o1 + far_future - second div 2 \<le> ls_valid_until s))"

text \<open>What a reader that accepts the file knows.\<close>

lemma owner_file_accepted:
  assumes "owner_ok o1" "ow_file o1 = Some s" "status_valid now s = Inr ()"
  shows "(now < ow_expires o1 \<or> ow_expires o1 + (2 ^ 32 - 6) * second < now) \<and> lease_ok (ow_lease o1) \<and>
    status_of_lease s (ow_lease o1)"
proof -
  have "now < ls_valid_until s" "ls_valid_until s \<le> now + 5 * second" using assms(3) by (auto simp: status_valid_def guard_def split: if_splits)
  then show ?thesis using assms(1,2) by (auto simp: owner_ok_def far_future_def second_def)
qed

lemma no_lease_empty [simp]: "le_address no_lease = []"
  by (simp add: no_lease_def)

lemma logged_fields [simp]:
  "ow_lease (logged rs o1) = ow_lease o1" "ow_expires (logged rs o1) = ow_expires o1" "ow_status (logged rs o1) = ow_status o1"
  "ow_file (logged rs o1) = ow_file o1" "ow_log (logged rs o1) = ow_log o1 @ rs"
  by (simp_all add: logged_def)

lemma withdraw_ok:
  assumes "withdraw e o1 = (Inr (), o2)"
  shows "le_address (ow_lease o2) = [] \<and> ow_file o2 = None \<and> owner_ok o2 \<and>
    ow_lease o2 = (if le_address (ow_lease o1) = [] then ow_lease o1 else no_lease)"
  using assms by (auto simp: withdraw_def Let_def owner_ok_def split: if_splits)

lemma heartbeat_ok:
  assumes "heartbeat e now o1 = (Inr (), o2)" "le_address (ow_lease o1) \<noteq> [] \<Longrightarrow> lease_ok (ow_lease o1) \<and> status_of_lease (ow_status o1) (ow_lease o1)"
    and "le_address (ow_lease o1) \<noteq> [] \<Longrightarrow> ow_expires o1 \<noteq> 0" "le_address (ow_lease o1) = [] \<Longrightarrow> ow_file o1 = None"
  shows "owner_ok o2 \<and> (ow_lease o2 = ow_lease o1 \<and> ow_expires o2 = ow_expires o1 \<or> le_address (ow_lease o2) = [])"
proof (cases "le_address (ow_lease o1) = []")
  case True
  then show ?thesis using assms(1,4) by (auto simp: heartbeat_def owner_ok_def)
next
  case lease: False
  let ?n = "seconds_left (ow_expires o1) now"
  show ?thesis
  proof (cases "?n < 1")
    case True
    then have "withdraw (be_withdraw e) o1 = (Inr (), o2)" using assms(1) lease by (simp add: heartbeat_def Let_def)
    then show ?thesis using withdraw_ok by blast
  next
    case False
    then have "now + int (unat ?n) * second - second div 2 < ow_expires o1 \<or>
        ow_expires o1 + far_future - second div 2 \<le> now + int (unat ?n) * second - second div 2"
      using heartbeat_deadline assms(3) lease by blast
    then show ?thesis
      using assms(1,2) lease False
      by (auto simp: heartbeat_def Let_def owner_ok_def status_of_lease_def split: sum.splits)
  qed
qed

lemma hex_generation:
  "length (hex_encode n) = 2 * length n \<and> list_all (\<lambda>c. in_range 48 57 c \<or> in_range 97 102 c) (hex_encode n)"
proof -
  have d: "in_range 48 57 (hex_digit k) \<or> in_range 97 102 (hex_digit k)" if "k < 16" for k
    using that by (auto simp: hex_digit_def in_range_def cbyte_def)
  have "list_all (\<lambda>c. in_range 48 57 c \<or> in_range 97 102 c) (hex_encode n)"
  proof (induction n)
    case (Cons b n)
    have "unat b div 16 < 16" "unat b mod 16 < 16" using unat_byte [of b] by simp_all
    then show ?case using Cons d by simp
  qed simp
  then show ?thesis by simp
qed

lemma configure_ok:
  assumes "configure e l o1 = (Inr (), o2)" "\<And>n. in_nonce e = Some n \<Longrightarrow> length n = 16"
  shows "status_of_lease (ow_status o2) l \<and> ow_file o2 = None"
proof -
  obtain q o3 where q: "withdraw (in_withdraw e) o1 = (q, o3)" by fastforce
  have u: "q = Inr ()" using assms(1) by (cases q) (simp_all add: configure_def q)
  obtain n where n: "in_nonce e = Some n"
    using assms(1) unfolding configure_def q u prod.case sum.case old.unit.case by (cases "in_nonce e") simp_all
  have "length (hex_encode n) = 32" using assms(2) [OF n] by simp
  moreover obtain a where "in_address e = Inr a"
    using assms(1) unfolding configure_def q u n prod.case sum.case old.unit.case option.case Let_def by (cases "in_address e") simp_all
  moreover obtain b where "in_route e = Inr b"
    using assms(1) calculation(2) unfolding configure_def q u n prod.case sum.case old.unit.case option.case Let_def
    by (cases "in_route e") simp_all
  ultimately show ?thesis
    using assms(1) withdraw_ok [OF q [unfolded u]] hex_generation [of n]
    unfolding configure_def q u n prod.case sum.case old.unit.case option.case Let_def by (auto simp: status_of_lease_def)
qed

lemma install_ok:
  assumes "install e l expires o1 = (Inr (), o2)" "owner_ok o1" "lease_ok l" "le_address l \<noteq> []" "expires \<noteq> 0"
    and "\<And>n. in_nonce e = Some n \<Longrightarrow> length n = 16"
  shows "owner_ok o2 \<and> (ow_lease o2 = l \<and> ow_expires o2 = expires \<or> le_address (ow_lease o2) = [])"
proof -
  obtain q o3 where q: "(if same_lease l (ow_lease o1) then (Inr (), o1) else configure e l o1) = (q, o3)" by fastforce
  have u: "q = Inr ()" using assms(1) by (cases q) (simp_all add: install_def q split: sum.splits)
  have c: "(if same_lease l (ow_lease o1) then (Inr (), o1) else configure e l o1) = (Inr (), o3)"
      "heartbeat (in_beat e) (in_now e) (o3\<lparr>ow_lease := l, ow_expires := expires\<rparr>) = (Inr (), o2)"
    using assms(1) unfolding install_def q u prod.case sum.case old.unit.case by (simp_all split: sum.splits)
  have "status_of_lease (ow_status o3) l"
  proof (cases "same_lease l (ow_lease o1)")
    case True
    then have "le_address (ow_lease o1) \<noteq> []" using assms(4) by (simp add: same_lease_def)
    then show ?thesis using True c(1) assms(2) by (auto simp: owner_ok_def status_of_lease_def same_lease_def)
  next
    case False
    then show ?thesis using c(1) configure_ok [OF _ assms(6)] by auto
  qed
  then show ?thesis using heartbeat_ok [OF c(2)] assms(3-5) by simp
qed

section \<open>The turns\<close>

definition client_ok :: "client \<Rightarrow> bool" where
  "client_ok c \<longleftrightarrow>
     owner_ok (cl_owner c) \<and> 0 \<le> cl_attempt c \<and> (le_address (ow_lease (cl_owner c)) \<noteq> [] \<longrightarrow> 0 < ow_expires (cl_owner c))"

definition step_ok :: "step \<Rightarrow> bool" where
  "step_ok s \<longleftrightarrow> (case s of Stop t c \<Rightarrow> True | Again c \<Rightarrow> client_ok c | Go c \<Rightarrow> client_ok c)"

lemma step_ok_simps [simp]: "step_ok (Stop t c)" "step_ok (Again c) = client_ok c" "step_ok (Go c) = client_ok c"
  by (simp_all add: step_ok_def)

lemma and_then_ok: "step_ok s \<Longrightarrow> (\<And>c. s = Go c \<Longrightarrow> client_ok c \<Longrightarrow> step_ok (f c)) \<Longrightarrow> step_ok (and_then s f)"
  by (auto simp: and_then_def split: step.split)

text \<open>
  What any turn meets, whatever the calls take: a clock past Go's zero time, which is the year one, and
  a nonce that fills its array of 16 bytes.
\<close>

definition clocked :: "turn_env \<Rightarrow> bool" where
  "clocked e \<longleftrightarrow>
     0 \<le> te_now e \<and> 0 \<le> te_offer_now e \<and> (case in_nonce (te_install e) of Some n \<Rightarrow> length n = 16 | None \<Rightarrow> True)"

lemma send_client [simp]:
  "client_ok (send r c) = client_ok c" "ow_lease (cl_owner (send r c)) = ow_lease (cl_owner c)"
  "ow_expires (cl_owner (send r c)) = ow_expires (cl_owner c)" "cl_xid (send r c) = cl_xid c" "cl_phase (send r c) = cl_phase c"
  "ow_file (cl_owner (send r c)) = ow_file (cl_owner c)" "cl_offered (send r c) = cl_offered c" "cl_attempt (send r c) = cl_attempt c"
  by (simp_all add: send_def client_ok_def owner_ok_def split: option.split)

lemma restart_client [simp]:
  "client_ok (restart c) = client_ok c" "cl_owner (restart c) = cl_owner c" "cl_attempt (restart c) = cl_attempt c"
  by (simp_all add: restart_def client_ok_def)

lemma client_fields [simp]:
  "client_ok (c\<lparr>cl_phase := p\<rparr>) = client_ok c" "client_ok (c\<lparr>cl_xid := x\<rparr>) = client_ok c"
  "client_ok (c\<lparr>cl_next := n\<rparr>) = client_ok c" "client_ok (c\<lparr>cl_retry := n\<rparr>) = client_ok c"
  "client_ok (c\<lparr>cl_beat := n\<rparr>) = client_ok c" "client_ok (c\<lparr>cl_offered := l\<rparr>) = client_ok c"
  "client_ok (c\<lparr>cl_acquired := n\<rparr>) = client_ok c"
  "0 \<le> n \<Longrightarrow> client_ok c \<Longrightarrow> client_ok (c\<lparr>cl_attempt := n\<rparr>)"
  by (simp_all add: client_ok_def)

lemma withdrawn_client: "withdraw w (cl_owner c) = (Inr (), o2) \<Longrightarrow> client_ok c \<Longrightarrow> client_ok (c\<lparr>cl_owner := o2\<rparr>)"
  using withdraw_ok [of w "cl_owner c" o2] by (simp add: client_ok_def)

lemma turn_expire_ok:
  assumes "client_ok c"
  shows "step_ok (turn_expire e c)"
  using assms withdrawn_client withdraw_ok
  by (auto simp: turn_expire_def split: sum.splits prod.splits unit.splits if_splits)

lemma turn_beat_ok:
  assumes "client_ok c"
  shows "step_ok (turn_beat e c)"
proof (cases "te_now e \<le> cl_beat c")
  case False
  obtain r o2 where h: "heartbeat (te_beat e) (te_now e) (cl_owner c) = (r, o2)" by fastforce
  show ?thesis
  proof (cases r)
    case (Inr u)
    then have r: "r = Inr ()" by simp
    then have "heartbeat (te_beat e) (te_now e) (cl_owner c) = (Inr (), o2)" using h by simp
    note k = heartbeat_ok [OF this]
    have "owner_ok o2 \<and> (ow_lease o2 = ow_lease (cl_owner c) \<and> ow_expires o2 = ow_expires (cl_owner c) \<or> le_address (ow_lease o2) = [])"
      by (rule k) (use assms in \<open>auto simp: client_ok_def owner_ok_def split: option.splits\<close>)
    then have "client_ok (c\<lparr>cl_owner := o2\<rparr>)" using assms(1) by (auto simp: client_ok_def)
    moreover have "turn_beat e c = (let c1 = c\<lparr>cl_owner := o2, cl_beat := te_now e + second\<rparr>
        in Go (if le_address (ow_lease o2) = [] then restart c1 else c1))"
      using False unfolding turn_beat_def h r prod.case sum.case old.unit.case by simp
    ultimately show ?thesis by (simp add: Let_def client_ok_def)
  qed (use False h in \<open>simp add: turn_beat_def\<close>)
qed (simp add: turn_beat_def assms)

lemma turn_rebind_ok: "client_ok c \<Longrightarrow> 0 \<le> te_now e \<Longrightarrow> step_ok (turn_rebind e c)"
  by (auto simp: turn_rebind_def Let_def split: option.split)

lemma turn_renew_ok: "client_ok c \<Longrightarrow> 0 \<le> te_now e \<Longrightarrow> step_ok (turn_renew e c)"
  by (auto simp: turn_renew_def Let_def split: option.split)

lemma turn_arp_ok: "client_ok c \<Longrightarrow> step_ok (turn_arp mac e c)"
  by (auto simp: turn_arp_def Let_def split: sum.split)

lemma turn_lease_ok:
  assumes "client_ok c" "0 \<le> te_now e"
  shows "step_ok (turn_lease mac e c)"
proof -
  have "step_ok (and_then (turn_expire e c) (\<lambda>c. and_then (turn_beat e c) (\<lambda>c. and_then (turn_rebind e c) (\<lambda>c.
           and_then (turn_renew e c) (turn_arp mac e)))))"
  proof (rule and_then_ok [OF turn_expire_ok [OF assms(1)]])
    fix d assume d: "turn_expire e c = Go d"
    then have "client_ok d" using turn_expire_ok [OF assms(1), of e] by simp
    from turn_beat_ok [OF this] show "step_ok (and_then (turn_beat e d) (\<lambda>c. and_then (turn_rebind e c) (\<lambda>c. and_then (turn_renew e c) (turn_arp mac e))))"
      by (intro and_then_ok turn_rebind_ok turn_renew_ok turn_arp_ok) (simp_all add: assms(2))
  qed
  then show ?thesis using assms(1) by (simp add: turn_lease_def)
qed

lemma backoff_client [simp]: "client_ok (backoff e c) = client_ok c"
  by (simp add: backoff_def client_ok_def)

lemma turn_discover_ok: "client_ok c \<Longrightarrow> 0 \<le> te_now e \<Longrightarrow> step_ok (turn_discover mac e c)"
  unfolding turn_discover_def
  by (rule and_then_ok) (auto simp: Let_def split: option.split sum.split)

lemma turn_timer_ok:
  assumes "client_ok c" "0 \<le> te_now e"
  shows "step_ok (turn_timer mac e c)"
  using assms turn_discover_ok [OF assms] by (cases "cl_phase c") (auto simp: turn_timer_def Let_def split: sum.split)

lemma turn_offer_ok: "client_ok c \<Longrightarrow> 0 \<le> te_offer_now e \<Longrightarrow> step_ok (turn_offer mac e l c)"
  by (auto simp: turn_offer_def Let_def split: sum.split)

lemma turn_nak_ok:
  assumes "client_ok c"
  shows "step_ok (turn_nak e c)"
proof -
  obtain r o2 where w: "withdraw (te_nak e) (cl_owner c) = (r, o2)" by fastforce
  show ?thesis
  proof (cases r)
    case (Inr u)
    then have r: "r = Inr ()" by simp
    have "client_ok (c\<lparr>cl_owner := o2\<rparr>)" using withdrawn_client w r assms by simp
    then show ?thesis unfolding turn_nak_def w r prod.case sum.case old.unit.case by (simp add: client_ok_def)
  qed (simp add: turn_nak_def w)
qed

text \<open>After a change only a free address goes on, and nothing is installed.\<close>

lemma turn_change_cases:
  assumes "client_ok c"
  obtains t d where "turn_change mac e l c = Stop t d"
  | d where "turn_change mac e l c = Again d" "client_ok d" "le_address (ow_lease (cl_owner d)) = []"
  | d where "turn_change mac e l c = Go d" "client_ok d" "same_lease l (ow_lease (cl_owner c))" "d = c"
  | d where "turn_change mac e l c = Go d" "client_ok d" "\<not> same_lease l (ow_lease (cl_owner c))" "te_probe e = Free"
      "le_address (ow_lease (cl_owner d)) = []"
proof (cases "same_lease l (ow_lease (cl_owner c))")
  case True
  then show ?thesis using that(3) assms by (simp add: turn_change_def)
next
  case False
  obtain r o2 where w: "withdraw (te_change e) (cl_owner c) = (r, o2)" by fastforce
  show ?thesis
  proof (cases r)
    case (Inl t)
    then show ?thesis using that(1) False w by (simp add: turn_change_def)
  next
    case (Inr u)
    then have r: "r = Inr ()" by simp
    have k: "client_ok (c\<lparr>cl_owner := o2\<rparr>)" "le_address (ow_lease o2) = []" using withdrawn_client withdraw_ok w r assms by auto
    have t: "turn_change mac e l c =
      (let c1 = c\<lparr>cl_owner := o2\<rparr>
       in case te_probe e of Free \<Rightarrow> Go c1 | Cancelled \<Rightarrow> Stop None c1 | ProbeFailed t \<Rightarrow> Stop (Some t) c1
          | Conflict \<Rightarrow> (let c2 = send (decline (cl_xid c) mac (le_address l) (le_server l)) c1
              in if \<not> te_pause e then Stop None c2 else Again (restart c2)))"
      using False unfolding turn_change_def w r prod.case sum.case old.unit.case by (simp cong: probe_result.case_cong)
    show ?thesis
    proof (cases "te_probe e")
      case Free
      then show ?thesis using that(4) [OF _ k(1) False] t k(2) by simp
    next
      case Conflict
      then show ?thesis using that(1,2) t k by (cases "te_pause e") (simp_all add: Let_def)
    next
      case Cancelled
      then show ?thesis using that(1) t by simp
    next
      case (ProbeFailed x)
      then show ?thesis using that(1) t by simp
    qed
  qed
qed

lemma lease_ok_address: "lease_ok l \<Longrightarrow> le_address l \<noteq> [] \<and> 0 < le_duration l"
  by (auto simp: lease_ok_def validate_address_def usable_address_def parse_ip_def second_def split: option.splits)

text \<open>What the turn does once it takes a lease over.\<close>

lemma turn_bind_cases:
  assumes "client_ok c" "lease_ok l" "clocked e"
  obtains t d where "turn_bind mac e l changed c = Stop t d"
  | "turn_bind mac e l changed c = Again (restart c)"
  | d where "turn_bind mac e l changed c = Go d" "client_ok d"
      "ow_lease (cl_owner d) = l \<or> le_address (ow_lease (cl_owner d)) = []"
proof (cases "te_ack_now e + 5 * second < cl_attempt c + le_duration l")
  case False
  then show ?thesis using that(2) by (simp add: turn_bind_def Let_def)
next
  case early: True
  let ?x = "cl_attempt c + le_duration l"
  obtain r o2 where w: "install (te_install e) l ?x (cl_owner c) = (r, o2)" by fastforce
  show ?thesis
  proof (cases r)
    case (Inl t)
    then show ?thesis using that(1) early w by (simp add: turn_bind_def Let_def)
  next
    case (Inr u)
    then have r: "r = Inr ()" by simp
    note l = lease_ok_address [OF assms(2)]
    have pos: "0 < ?x" using l assms(1) by (simp add: client_ok_def)
    have n: "length n = 16" if "in_nonce (te_install e) = Some n" for n using assms(3) that by (simp add: clocked_def)
    have "owner_ok o2 \<and> (ow_lease o2 = l \<and> ow_expires o2 = ?x \<or> le_address (ow_lease o2) = [])"
      by (rule install_ok [OF w [unfolded r]]) (use assms l pos early n in \<open>auto simp: client_ok_def clocked_def\<close>)
    then have o2: "client_ok (c\<lparr>cl_owner := o2\<rparr>)" "ow_lease o2 = l \<or> le_address (ow_lease o2) = []"
      using pos assms(1) by (auto simp: client_ok_def)
    let ?c1 = "c\<lparr>cl_owner := o2, cl_acquired := cl_attempt c, cl_phase := Bound, cl_next := te_bound_now e + le_renew l,
                       cl_retry := 4 * second\<rparr>"
    have c1: "client_ok ?c1" using o2(1) by (simp add: client_ok_def)
    have b: "turn_bind mac e l changed c =
       (if changed then
                (let c2 = send (ArpFrame (arp_packet mac (lease_ip (le_address l)) False)) ?c1
                 in case te_announce e of Inl t \<Rightarrow> Stop (Some t) c2 | Inr _ \<Rightarrow> Go c2)
              else Go ?c1)"
      using early unfolding turn_bind_def Let_def w r prod.case sum.case old.unit.case by simp
    show ?thesis
    proof (cases changed)
      case True
      then show ?thesis using that(1,3) b c1 o2(2) by (cases "te_announce e") (simp_all add: Let_def)
    next
      case False
      then show ?thesis using that(3) [of ?c1] b c1 o2(2) by simp
    qed
  qed
qed

lemma turn_answer_ok:
  assumes "client_ok c" "clocked e" "kind \<noteq> 6 \<longrightarrow> lease_ok l"
  shows "step_ok (turn_answer mac e kind l c)"
proof -
  have "step_ok (and_then (turn_change mac e l c) (turn_bind mac e l b))" if "lease_ok l" for b
  proof (rule and_then_ok)
    show "step_ok (turn_change mac e l c)" by (rule turn_change_cases [OF assms(1), of mac e l]) simp_all
    show "step_ok (turn_bind mac e l b d)" if "client_ok d" for d
      by (rule turn_bind_cases [OF that \<open>lease_ok l\<close> assms(2), of mac b]) (simp_all add: that)
  qed
  moreover have "step_ok (turn_offer mac e l c)" "step_ok (turn_nak e c)"
    using turn_offer_ok turn_nak_ok assms(1,2) by (simp_all add: clocked_def)
  ultimately show ?thesis using assms(1,3) by (simp add: turn_answer_def)
qed

lemma turn_read_ok:
  assumes "client_ok c" "clocked e"
  shows "step_ok (turn_read mac e c)"
proof (cases "te_read e")
  case (Inr p)
  show ?thesis
  proof (cases "dhcp_payload p")
    case payload: (Some u)
    show ?thesis
    proof (cases "reply u (cl_xid c) mac")
      case reply: (Inr x)
      obtain kind l where x: "x = (kind, l)" by (cases x)
      have "kind \<noteq> 6 \<longrightarrow> lease_ok l" using reply_Inr reply unfolding x by blast
      from turn_answer_ok [OF assms this] show ?thesis by (simp add: turn_read_def Inr payload reply x)
    qed (simp add: turn_read_def Inr payload assms)
  qed (simp add: turn_read_def Inr assms)
qed (simp add: turn_read_def)

lemma dhcp_turn_ok: "client_ok c \<Longrightarrow> clocked e \<Longrightarrow> step_ok (dhcp_turn mac e c)"
  unfolding dhcp_turn_def
  by (intro and_then_ok turn_lease_ok turn_timer_ok turn_read_ok) (simp_all add: clocked_def)

lemma new_dhcp_ok: "client_ok (new_dhcp index)"
  by (simp add: client_ok_def new_dhcp_def new_owner_def owner_ok_def)

lemma dhcp_run_ok: "dhcp_run clocked mac c d \<Longrightarrow> client_ok c \<Longrightarrow> client_ok d"
proof (induction rule: dhcp_run.induct)
  case (turn_again d e d')
  then show ?case using dhcp_turn_ok [of d e mac] by simp
next
  case (turn_go d e d')
  then show ?case using dhcp_turn_ok [of d e mac] by simp
qed

section \<open>Where a lease comes from\<close>

text \<open>The stages before the answer keep the lease or give it up.\<close>

definition lease_kept :: "lease \<Rightarrow> step \<Rightarrow> bool" where
  "lease_kept l s \<longleftrightarrow>
     (case s of
        Stop t c \<Rightarrow> True
      | Again c \<Rightarrow> ow_lease (cl_owner c) = l \<or> le_address (ow_lease (cl_owner c)) = []
      | Go c \<Rightarrow> ow_lease (cl_owner c) = l \<or> le_address (ow_lease (cl_owner c)) = [])"

lemma lease_kept_simps [simp]:
  "lease_kept l (Stop t c)"
  "lease_kept l (Again c) \<longleftrightarrow> ow_lease (cl_owner c) = l \<or> le_address (ow_lease (cl_owner c)) = []"
  "lease_kept l (Go c) \<longleftrightarrow> ow_lease (cl_owner c) = l \<or> le_address (ow_lease (cl_owner c)) = []"
  by (simp_all add: lease_kept_def)

lemma and_then_kept:
  assumes "lease_kept l s" "\<And>c. s = Go c \<Longrightarrow> lease_kept (ow_lease (cl_owner c)) (f c)"
  shows "lease_kept l (and_then s f)"
proof (cases s)
  case (Go c)
  then show ?thesis using assms(1) assms(2) [OF Go]
    by (cases "f c") (auto simp: and_then_def)
qed (use assms in \<open>simp_all add: and_then_def\<close>)

lemma heartbeat_lease: "heartbeat e now o1 = (Inr (), o2) \<Longrightarrow> ow_lease o2 = ow_lease o1 \<or> le_address (ow_lease o2) = []"
  using withdraw_ok [of "be_withdraw e" o1 o2] by (auto simp: heartbeat_def Let_def split: if_splits sum.splits)

lemma turn_lease_kept: "lease_kept (ow_lease (cl_owner c)) (turn_lease mac e c)"
proof -
  have expire: "lease_kept (ow_lease (cl_owner c)) (turn_expire e c)" for c
    using withdraw_ok by (auto simp: turn_expire_def split: sum.splits prod.splits unit.splits)
  have beat: "lease_kept (ow_lease (cl_owner c)) (turn_beat e c)" for c
  proof (cases "te_now e \<le> cl_beat c")
    case False
    obtain r o2 where h: "heartbeat (te_beat e) (te_now e) (cl_owner c) = (r, o2)" by fastforce
    show ?thesis
    proof (cases r)
      case (Inr u)
      then have r: "r = Inr ()" by simp
      show ?thesis
        using False heartbeat_lease [OF h [unfolded r]] unfolding turn_beat_def h r prod.case sum.case old.unit.case
        by (auto simp: Let_def)
    qed (use False h in \<open>simp add: turn_beat_def\<close>)
  qed (simp add: turn_beat_def)
  have rest: "lease_kept (ow_lease (cl_owner c)) (turn_rebind e c)" "lease_kept (ow_lease (cl_owner c)) (turn_renew e c)"
    "lease_kept (ow_lease (cl_owner c)) (turn_arp mac e c)" for c
    by (auto simp: turn_rebind_def turn_renew_def turn_arp_def Let_def split: option.split sum.split)
  have "lease_kept (ow_lease (cl_owner c)) (and_then (turn_expire e c) (\<lambda>c. and_then (turn_beat e c) (\<lambda>c. and_then (turn_rebind e c)
      (\<lambda>c. and_then (turn_renew e c) (turn_arp mac e)))))"
    by (intro and_then_kept expire beat rest)
  then show ?thesis by (simp add: turn_lease_def)
qed

lemma turn_timer_kept: "lease_kept (ow_lease (cl_owner c)) (turn_timer mac e c)"
proof -
  have b: "ow_lease (cl_owner (backoff e d)) = ow_lease (cl_owner d)" for d by (simp add: backoff_def)
  have "lease_kept (ow_lease (cl_owner c)) (turn_discover mac e c)"
    unfolding turn_discover_def by (rule and_then_kept) (auto simp: Let_def b split: option.split sum.split)
  then show ?thesis by (cases "cl_phase c") (auto simp: turn_timer_def Let_def b split: sum.split)
qed

lemma turn_nak_kept: "lease_kept m (turn_nak e c)"
proof -
  obtain r o2 where w: "withdraw (te_nak e) (cl_owner c) = (r, o2)" by fastforce
  show ?thesis
  proof (cases r)
    case (Inr u)
    then have r: "r = Inr ()" by simp
    show ?thesis using withdraw_ok [OF w [unfolded r]] unfolding turn_nak_def w r prod.case sum.case old.unit.case by simp
  qed (simp add: turn_nak_def w)
qed

text \<open>The acknowledgement a lease was taken from.\<close>

definition acknowledged :: "byte list \<Rightarrow> turn_env \<Rightarrow> client \<Rightarrow> lease \<Rightarrow> bool" where
  "acknowledged mac e c l \<longleftrightarrow>
     (\<exists>p u. te_read e = Inr p \<and> dhcp_payload p = Some u \<and> reply u (cl_xid c) mac = Inr (5, l)) \<and>
     (cl_phase c = Requesting \<and> le_server l = le_server (cl_offered c) \<and> le_address l = le_address (cl_offered c) \<or>
      cl_phase c = Renewing \<and> le_server l = le_server (ow_lease (cl_owner c)) \<or> cl_phase c = Rebinding) \<and>
     (same_lease l (ow_lease (cl_owner c)) \<or> te_probe e = Free)"

definition went_on :: "step \<Rightarrow> client \<Rightarrow> bool" where
  "went_on s d \<longleftrightarrow> s = Again d \<or> s = Go d"

lemma kept_on: "lease_kept l s \<Longrightarrow> went_on s d \<Longrightarrow> ow_lease (cl_owner d) = l \<or> le_address (ow_lease (cl_owner d)) = []"
  by (auto simp: went_on_def)

lemma went_on_and_then:
  assumes "went_on (and_then s f) d"
  obtains "s = Again d" | c where "s = Go c" "went_on (f c) d"
  using assms by (cases s) (auto simp: and_then_def went_on_def)

lemma turn_answer_source:
  assumes "client_ok c" "clocked e" "kind \<noteq> 6 \<longrightarrow> lease_ok l" "went_on (turn_answer mac e kind l c) d"
    and "le_address (ow_lease (cl_owner d)) \<noteq> []" "ow_lease (cl_owner d) \<noteq> ow_lease (cl_owner c)"
  shows "kind = 5 \<and> ow_lease (cl_owner d) = l \<and> answer_expected c kind l \<and>
    (cl_phase c = Requesting \<longrightarrow> le_address l = le_address (cl_offered c)) \<and> (same_lease l (ow_lease (cl_owner c)) \<or> te_probe e = Free)"
proof -
  let ?b = "\<not> same_lease l (ow_lease (cl_owner c))"
  have "\<not> went_on (turn_offer mac e l c) d"
    using assms(6) by (auto simp: turn_offer_def went_on_def Let_def split: sum.splits)
  moreover have "\<not> went_on (turn_nak e c) d" using kept_on [OF turn_nak_kept [of "ow_lease (cl_owner c)"]] assms(5,6) by blast
  ultimately have a: "answer_expected c kind l" "kind = 5" "cl_phase c = Requesting \<longrightarrow> le_address l = le_address (cl_offered c)"
    "went_on (and_then (turn_change mac e l c) (turn_bind mac e l ?b)) d"
    using assms(4,6) by (auto simp: turn_answer_def went_on_def split: if_splits)
  have l: "lease_ok l" using assms(3) a(2) by simp
  have bind: "ow_lease (cl_owner d) = l"
    if "client_ok k" "went_on (turn_bind mac e l ?b k) d" "ow_lease (cl_owner k) = ow_lease (cl_owner c) \<or> le_address (ow_lease (cl_owner k)) = []" for k
    by (rule turn_bind_cases [OF that(1) l assms(2), of mac ?b]) (use that(2,3) assms(5,6) in \<open>auto simp: went_on_def\<close>)
  have "ow_lease (cl_owner d) = l \<and> (same_lease l (ow_lease (cl_owner c)) \<or> te_probe e = Free)"
    by (rule turn_change_cases [OF assms(1), of mac e l]; rule went_on_and_then [OF a(4)])
      (use bind assms(5) in \<open>auto simp: went_on_def\<close>)
  then show ?thesis using a by blast
qed

lemma turn_read_source:
  assumes "client_ok c" "clocked e" "went_on (turn_read mac e c) d"
    and "le_address (ow_lease (cl_owner d)) \<noteq> []" "ow_lease (cl_owner d) \<noteq> ow_lease (cl_owner c)"
  shows "acknowledged mac e c (ow_lease (cl_owner d))"
proof -
  obtain p where p: "te_read e = Inr p" using assms(3) by (cases "te_read e") (auto simp: turn_read_def went_on_def)
  obtain u where u: "dhcp_payload p = Some u"
    using assms(3,5) p by (cases "dhcp_payload p") (auto simp: turn_read_def went_on_def)
  obtain kind l where r: "reply u (cl_xid c) mac = Inr (kind, l)"
    using assms(3,5) p u by (cases "reply u (cl_xid c) mac") (auto simp: turn_read_def went_on_def)
  have l: "kind \<noteq> 6 \<longrightarrow> lease_ok l" using reply_Inr [OF r] by blast
  have "went_on (turn_answer mac e kind l c) d" using assms(3) by (simp add: turn_read_def p u r)
  from turn_answer_source [OF assms(1,2) l this assms(4,5)] show ?thesis
    using p u r by (auto simp: acknowledged_def answer_expected_def)
qed

section \<open>An example\<close>

definition demo_mac :: "byte list" where "demo_mac = [2, 0, 0, 0, 0, 30]"
definition demo_xid :: "byte list" where "demo_xid = [1, 2, 3, 4]"

definition demo_reply :: "byte \<Rightarrow> byte list" where
  "demo_reply kind =
     [2, 1, 6, 0] @ demo_xid @ replicate 8 0 @ [192, 0, 2, 30] @ replicate 8 0 @ demo_mac @ replicate 202 0 @ magic_cookie @
     [53, 1, kind, 54, 4, 192, 0, 2, 1, 1, 4, 255, 255, 255, 0, 3, 4, 192, 0, 2, 1, 51, 4, 0, 0, 0, 120, 255]"

text \<open>A server's frame, without a UDP checksum.\<close>

definition server_frame :: "byte list \<Rightarrow> byte list \<Rightarrow> byte list" where
  "server_frame source payload =
     (let n = 28 + length payload
      in ip_header n (put_u16 (checksum (ip_header n [0, 0] source))) source @
         put_u16 67 @ put_u16 68 @ put_u16 (of_nat (8 + length payload)) @ [0, 0] @ payload)"

lemma server_frame_read:
  assumes "length source = 4" "length payload \<le> 1472"
  shows "dhcp_payload (server_frame source payload) = Some payload"
proof -
  let ?n = "28 + length payload" and ?p = "server_frame source payload"
  let ?h = "ip_header ?n (put_u16 (checksum (ip_header ?n [0, 0] source))) source"
  let ?u = "put_u16 67 @ put_u16 68 @ put_u16 (of_nat (8 + length payload)) @ [0, 0] @ payload"
  have p: "?p = ?h @ ?u" by (simp add: server_frame_def Let_def)
  have h: "length ?h = 20" using assms(1) by (simp add: length_ip_header)
  have len: "length ?p = ?n" unfolding p using h by simp
  have b: "?p ! 0 = 0x45" "?p ! 9 = 17" by (simp_all add: p ip_header_def nth_append)
  have c: "drop_bit 4 (0x45 :: byte) = 4" "unat ((0x45 :: byte) AND 15) * 4 = 20" by code_simp+
  have t: "sub_bytes 2 4 ?p = put_u16 (of_nat ?n)"
    by (rule slice_split [where pre = "[0x45, 0]"]) (simp_all add: p ip_header_def)
  have n: "unat (get_u16 (sub_bytes 2 4 ?p)) = ?n" unfolding t get_put by (simp only: unat_of_nat) (use assms(2) in simp)
  have f: "sub_bytes 6 8 ?p = [0, 0]"
    by (rule slice_split [where pre = "[0x45, 0] @ put_u16 (of_nat ?n) @ [0, 0]"]) (simp_all add: p ip_header_def)
  have f0: "get_u16 [0, 0] = 0" by code_simp
  have k: "checksum (take 20 ?p) = 0" unfolding p using h frame_checksum [OF assms(1)] by simp
  have u: "sub_bytes 20 ?n ?p = ?u" unfolding p using h by (simp add: sub_bytes_def)
  have us: "sub_bytes 0 2 ?u = put_u16 67" "sub_bytes 2 4 ?u = put_u16 68" "sub_bytes 4 6 ?u = put_u16 (of_nat (8 + length payload))"
      "sub_bytes 6 8 ?u = [0, 0]" "length ?u = 8 + length payload" "drop 8 ?u = payload"
    by (simp_all add: sub_bytes_def)
  have m: "unat (of_nat (8 + length payload) :: u16) = 8 + length payload" by (simp only: unat_of_nat) (use assms(2) in simp)
  show ?thesis
    unfolding dhcp_payload_def Let_def b c n f f0 k u us len get_put m by simp
qed

definition demo_lease :: lease where
  "demo_lease = \<lparr>le_address = ''192.0.2.30'', le_prefix = 24, le_router = ''192.0.2.1'', le_server = ''192.0.2.1'',
     le_duration = 120 * second, le_renew = 60 * second, le_rebind = 105 * second\<rparr>"

lemma demo_options:
  "scan_options (drop 240 (demo_reply kind)) Map.empty =
     Some (Map.empty(53 \<mapsto> [kind], 54 \<mapsto> [192, 0, 2, 1], 1 \<mapsto> [255, 255, 255, 0], 3 \<mapsto> [192, 0, 2, 1], 51 \<mapsto> [0, 0, 0, 120]))"
proof -
  have d: "drop 240 (demo_reply kind) =
      [53, 1, kind, 54, 4, 192, 0, 2, 1, 1, 4, 255, 255, 255, 0, 3, 4, 192, 0, 2, 1, 51, 4, 0, 0, 0, 120, 255]"
    by (simp add: demo_reply_def demo_xid_def demo_mac_def magic_cookie_def)
  show ?thesis unfolding d by simp
qed

lemma demo_framed: "reply_framed (demo_reply kind) demo_xid demo_mac"
proof -
  have s: "sub_bytes 4 8 (demo_reply kind) = demo_xid" "sub_bytes 28 34 (demo_reply kind) = demo_mac"
      "sub_bytes 236 240 (demo_reply kind) = magic_cookie"
    by (simp_all add: demo_reply_def sub_bytes_def demo_xid_def demo_mac_def magic_cookie_def)
  have l: "length (demo_reply kind) = 268" "length demo_mac = 6"
    by (simp_all add: demo_reply_def demo_xid_def demo_mac_def magic_cookie_def)
  have b: "demo_reply kind ! 0 = 2" "demo_reply kind ! 1 = 1" "demo_reply kind ! 2 = 6" by (simp_all add: demo_reply_def)
  show ?thesis unfolding reply_framed_def s l b by simp
qed

lemma demo_reply_read:
  assumes "kind = 2 \<or> kind = 5"
  shows "reply (demo_reply kind) demo_xid demo_mac = Inr (kind, demo_lease)"
proof -
  have server: "server_usable (ip4_text [192, 0, 2, 1])" by code_simp
  have y: "sub_bytes 16 20 (demo_reply kind) = [192, 0, 2, 30]"
    by (simp add: demo_reply_def sub_bytes_def demo_xid_def demo_mac_def)
  have t: "ip4_text [192, 0, 2, 30] = ''192.0.2.30''" "ip4_text [192, 0, 2, 1] = ''192.0.2.1''" by code_simp+
  have a: "usable_address ''192.0.2.30'' = Some [192, 0, 2, 30]" "usable_address ''192.0.2.1'' = Some [192, 0, 2, 1]" by code_simp+
  have v: "validate_address ''192.0.2.30'' 24 ''192.0.2.1'' = Inr ()"
    unfolding validate_address_hosts using a by (simp add: network_number_def host_number_def be_value_def)
  have m: "mask_size [255, 255, 255, 0] = Some 24"
    by (simp add: mask_size_def mask_value_def be_value_def upt_rec)
  have s: "unat (get_u32 [0, 0, 0, 120]) = 120" by code_simp
  have ne: "kind \<noteq> 6" "kind \<noteq> 2 \<and> kind \<noteq> 5 \<longleftrightarrow> False" using assms by auto
  show ?thesis
    using server assms
    by (simp add: reply_def demo_framed demo_options options_acceptable_def opt_bytes_def ne reply_lease_def y t v m s timer_option_def
        no_lease_def demo_lease_def second_def)
qed

definition demo_withdraw :: withdraw_env where "demo_withdraw = \<lparr>we_removed = True, we_route = True, we_address = True\<rparr>"
definition demo_beat :: beat_env where "demo_beat = \<lparr>be_withdraw = demo_withdraw, be_address = Inr (), be_publish = Inr ()\<rparr>"

definition demo_turn :: "byte \<Rightarrow> int \<Rightarrow> turn_env" where
  "demo_turn kind now =
     \<lparr>te_now = now, te_expire = demo_withdraw, te_beat = demo_beat, te_rebind_xid = None, te_renew_xid = None,
      te_init_xid = Some demo_xid, te_arp = Inr [], te_discover = Inr (), te_rebind = Inr (),
      te_read = Inr (server_frame [192, 0, 2, 1] (demo_reply kind)), te_offer_now = now, te_request = Inr (), te_nak = demo_withdraw,
      te_nak_now = now, te_change = demo_withdraw, te_probe = Free, te_pause = True, te_ack_now = now,
      te_install = \<lparr>in_links = Some [], in_withdraw = demo_withdraw, in_nonce = Some (replicate 16 7), in_address = Inr (),
        in_route = Inr (), in_now = now, in_beat = demo_beat\<rparr>,
      te_bound_now = now, te_announce = Inr ()\<rparr>"

lemma demo_clocked: "0 \<le> now \<Longrightarrow> clocked (demo_turn kind now)"
  by (simp add: clocked_def demo_turn_def second_def)

lemma demo_payload: "dhcp_payload (server_frame [192, 0, 2, 1] (demo_reply kind)) = Some (demo_reply kind)"
  by (rule server_frame_read) (simp_all add: demo_reply_def demo_xid_def demo_mac_def magic_cookie_def)

lemma demo_offer:
  "\<exists>c. dhcp_turn demo_mac (demo_turn 2 second) (new_dhcp 7) = Again c \<and> cl_phase c = Requesting \<and> cl_xid c = demo_xid \<and>
     cl_offered c = demo_lease \<and> ow_lease (cl_owner c) = no_lease \<and> cl_attempt c = second \<and> cl_next c = 9 * second"
  using demo_reply_read [of 2]
  by (simp add: dhcp_turn_def and_then_def turn_lease_def turn_timer_def turn_discover_def turn_read_def turn_answer_def turn_offer_def
      demo_turn_def demo_payload new_dhcp_def new_owner_def second_def backoff_def send_def)

lemma demo_ack:
  assumes "cl_phase c = Requesting" "cl_xid c = demo_xid" "cl_offered c = demo_lease" "ow_lease (cl_owner c) = no_lease"
    "cl_attempt c = second" "cl_next c = 9 * second"
  shows "\<exists>d s. dhcp_turn demo_mac (demo_turn 5 (2 * second)) c = Go d \<and> ow_lease (cl_owner d) = demo_lease \<and>
    ow_expires (cl_owner d) = 121 * second \<and> ow_file (cl_owner d) = Some s \<and> ls_generation s = hex_encode (replicate 16 7) \<and>
    ls_sequence s = 1 \<and> ls_address s = le_address demo_lease \<and> ls_prefix s = 24 \<and> ls_router s = le_router demo_lease \<and>
    ls_valid_until s = 5 * second + second div 2"
proof -
  have n: "seconds_left (121 * second) (2 * second) = 4" by code_simp
  have neq: "\<not> same_lease demo_lease no_lease" by (simp add: same_lease_def demo_lease_def no_lease_def)
  have e: "le_address no_lease = []" "le_duration demo_lease = 120 * second" "le_address demo_lease \<noteq> []"
    by (simp_all add: demo_lease_def)
  have a: "answer_expected c 5 demo_lease" using assms by (simp add: answer_expected_def)
  let ?e = "demo_turn 5 (2 * second)"
  have "dhcp_turn demo_mac ?e c = turn_answer demo_mac ?e 5 demo_lease c"
    using demo_reply_read [of 5] assms
    by (simp add: dhcp_turn_def and_then_def turn_lease_def turn_timer_def turn_read_def demo_turn_def demo_payload e second_def)
  also have "\<dots> = and_then (turn_change demo_mac ?e demo_lease c) (turn_bind demo_mac ?e demo_lease True)"
    using assms a neq by (simp add: turn_answer_def)
  finally have turn: "dhcp_turn demo_mac ?e c = and_then (turn_change demo_mac ?e demo_lease c) (turn_bind demo_mac ?e demo_lease True)" .
  let ?i = "te_install ?e"
  have f: "te_change ?e = demo_withdraw" "te_probe ?e = Free" "te_ack_now ?e = 2 * second" "te_announce ?e = Inr ()"
      "in_links ?i = Some []" "in_withdraw ?i = demo_withdraw" "in_nonce ?i = Some (replicate 16 7)" "in_address ?i = Inr ()"
      "in_route ?i = Inr ()" "in_now ?i = 2 * second" "in_beat ?i = demo_beat" "be_address demo_beat = Inr ()" "be_publish demo_beat = Inr ()"
    by (simp_all add: demo_turn_def demo_beat_def)
  have w: "withdraw demo_withdraw o1 = (Inr (), o1\<lparr>ow_file := None\<rparr>)" if "ow_lease o1 = no_lease" for o1
    using that by (simp add: withdraw_def demo_withdraw_def)
  let ?o = "(cl_owner c)\<lparr>ow_file := None\<rparr>"
  have change: "turn_change demo_mac ?e demo_lease c = Go (c\<lparr>cl_owner := ?o\<rparr>)"
    using neq unfolding turn_change_def f w [OF assms(4)] prod.case sum.case old.unit.case assms(4) by (simp add: Let_def)
  have o: "ow_lease ?o = no_lease" using assms(4) by simp
  let ?s = "\<lparr>ls_generation = hex_encode (replicate 16 7), ls_sequence = 0, ls_address = le_address demo_lease,
      ls_prefix = le_prefix demo_lease, ls_router = le_router demo_lease, ls_valid_until = 0\<rparr>"
  obtain o4 where conf: "configure ?i demo_lease ?o = (Inr (), o4)" "ow_status o4 = ?s"
    unfolding configure_def f w [OF o] prod.case sum.case old.unit.case option.case Let_def by fastforce
  let ?t = "?s\<lparr>ls_sequence := 1, ls_valid_until := 5 * second + second div 2\<rparr>"
  obtain o5 where beat: "heartbeat demo_beat (2 * second) (o4\<lparr>ow_lease := demo_lease, ow_expires := 121 * second\<rparr>) = (Inr (), o5)"
      "ow_lease o5 = demo_lease" "ow_expires o5 = 121 * second" "ow_file o5 = Some ?t"
    unfolding heartbeat_def f sum.case using e(3) n conf(2) by (simp add: Let_def second_def)
  have no_overlap: "no_other_subnet_overlap x demo_lease (Some []) = Inr ()" for x
    by (simp add: no_other_subnet_overlap_def Let_def)
  have "install ?i demo_lease (121 * second) ?o = (Inr (), o5)"
    using neq unfolding install_def f no_overlap sum.case o if_not_P [OF neq] conf(1) prod.case old.unit.case beat(1) by simp
  then have i: "install ?i demo_lease (121 * second) (cl_owner (c\<lparr>cl_owner := ?o\<rparr>)) = (Inr (), o5)" by simp
  have x: "cl_attempt (c\<lparr>cl_owner := ?o\<rparr>) + le_duration demo_lease = 121 * second" using assms(5) e(2) by simp
  have g: "2 * second + 5 * second < 121 * second" by (simp add: second_def)
  obtain d where "turn_bind demo_mac ?e demo_lease True (c\<lparr>cl_owner := ?o\<rparr>) = Go d" "ow_lease (cl_owner d) = ow_lease o5"
      "ow_expires (cl_owner d) = ow_expires o5" "ow_file (cl_owner d) = ow_file o5"
    unfolding turn_bind_def x Let_def f i prod.case sum.case old.unit.case using g by (simp add: send_def)
  moreover have "le_prefix demo_lease = 24" by (simp add: demo_lease_def)
  ultimately show ?thesis unfolding turn change and_then_def step.case using beat(2-4) by simp
qed

section \<open>The properties\<close>

text \<open>
  C4: The gateway never uses an address past its lease.  In every run of the DHCP client, however long
  its calls take, a status file that the gateway's reader accepts at some time names the address of the
  lease the agent holds, and that lease has not ended by then; the one exception is a reading 136 years
  after its end, where the lifetime in seconds has wrapped around 32 bits.  Of the turns it is assumed
  only that the clock is past the year one.
\<close>

theorem published_within_lease:
  assumes "dhcp_run clocked mac (new_dhcp index) c" "ow_file (cl_owner c) = Some s" "status_valid now s = Inr ()"
  shows "(now < ow_expires (cl_owner c) \<or> ow_expires (cl_owner c) + (2 ^ 32 - 6) * second < now) \<and>
    lease_ok (ow_lease (cl_owner c)) \<and> ls_address s = le_address (ow_lease (cl_owner c)) \<and>
    ls_prefix s = le_prefix (ow_lease (cl_owner c)) \<and> ls_router s = le_router (ow_lease (cl_owner c))"
proof -
  have "owner_ok (cl_owner c)" using dhcp_run_ok [OF assms(1) new_dhcp_ok] by (simp add: client_ok_def)
  from owner_file_accepted [OF this assms(2,3)] show ?thesis by (simp add: status_of_lease_def)
qed

lemma demo_run:
  "\<exists>c d s. dhcp_run clocked demo_mac (new_dhcp 7) c \<and> dhcp_turn demo_mac (demo_turn 5 (2 * second)) c = Go d \<and>
     ow_lease (cl_owner c) = no_lease \<and> dhcp_run clocked demo_mac (new_dhcp 7) d \<and> ow_lease (cl_owner d) = demo_lease \<and>
     ow_file (cl_owner d) = Some s \<and> status_valid (3 * second) s = Inr ()"
proof -
  obtain c where c: "dhcp_turn demo_mac (demo_turn 2 second) (new_dhcp 7) = Again c" "cl_phase c = Requesting" "cl_xid c = demo_xid"
    "cl_offered c = demo_lease" "ow_lease (cl_owner c) = no_lease" "cl_attempt c = second" "cl_next c = 9 * second"
    using demo_offer by blast
  have p: "clocked (demo_turn k n)" if "0 \<le> n" for k n using that by (rule demo_clocked)
  have "0 \<le> second" by (simp add: second_def)
  then have run: "dhcp_run clocked demo_mac (new_dhcp 7) c" using dhcp_run.turn_again [OF dhcp_run.begin_run _ c(1)] p by blast
  obtain d s where d: "dhcp_turn demo_mac (demo_turn 5 (2 * second)) c = Go d" "ow_lease (cl_owner d) = demo_lease"
    "ow_file (cl_owner d) = Some s" "ls_generation s = hex_encode (replicate 16 7)" "ls_sequence s = 1"
    "ls_address s = le_address demo_lease" "ls_prefix s = 24" "ls_router s = le_router demo_lease"
    "ls_valid_until s = 5 * second + second div 2"
    using demo_ack [OF c(2-7)] by blast
  have "0 \<le> 2 * second" by (simp add: second_def)
  then have "dhcp_run clocked demo_mac (new_dhcp 7) d" using dhcp_run.turn_go [OF run _ d(1)] p by blast
  moreover have a: "usable_address ''192.0.2.30'' = Some [192, 0, 2, 30]" "usable_address ''192.0.2.1'' = Some [192, 0, 2, 1]" by code_simp+
  have "validate_address ''192.0.2.30'' 24 ''192.0.2.1'' = Inr ()"
    unfolding validate_address_hosts using a by (simp add: network_number_def host_number_def be_value_def)
  then have "status_valid (3 * second) s = Inr ()"
    using hex_generation [of "replicate 16 7"] d(4-9)
    by (simp add: status_valid_def guard_def second_def demo_lease_def)
  ultimately show ?thesis using run d c(5) by blast
qed

theorem published_within_lease_witness:
  "\<exists>c s. dhcp_run clocked demo_mac (new_dhcp 7) c \<and> ow_file (cl_owner c) = Some s \<and> ow_lease (cl_owner c) = demo_lease \<and>
     ls_address s = le_address demo_lease"
proof -
  obtain d s where d: "dhcp_run clocked demo_mac (new_dhcp 7) d" "ow_file (cl_owner d) = Some s" "status_valid (3 * second) s = Inr ()"
      "ow_lease (cl_owner d) = demo_lease"
    using demo_run by blast
  then show ?thesis using published_within_lease [OF d(1-3)] by auto
qed

text \<open>
  C12: A lease is taken only from the server's acknowledgement.  Whenever a turn of the loop ends
  with a lease it did not begin with, the packet it read is a DHCP acknowledgement of the own
  transaction that passed every check, from the server and for the address that were asked for,
  or while rebinding; and a lease that changes address, prefix or router was probed and found
  free.  The transaction, the phase and the server are those of the client that reads the packet, the
  one the lease and timer stages of this turn leave; and its lease is the one it began the turn with,
  or none.  The clock is past the year one.
\<close>

theorem lease_from_acknowledgement:
  assumes "dhcp_run clocked mac (new_dhcp index) c" "clocked e" "went_on (dhcp_turn mac e c) d"
    and "le_address (ow_lease (cl_owner d)) \<noteq> []" "ow_lease (cl_owner d) \<noteq> ow_lease (cl_owner c)"
  shows "\<exists>c1 k. turn_lease mac e c = Go c1 \<and> turn_timer mac e c1 = Go k \<and> acknowledged mac e k (ow_lease (cl_owner d)) \<and>
    (ow_lease (cl_owner k) = ow_lease (cl_owner c) \<or> le_address (ow_lease (cl_owner k)) = [])"
proof -
  have ok: "client_ok c" using dhcp_run_ok [OF assms(1) new_dhcp_ok] .
  have now: "0 \<le> te_now e" using assms(2) by (simp add: clocked_def)
  from assms(3) show ?thesis unfolding dhcp_turn_def
  proof (rule went_on_and_then)
    assume "turn_lease mac e c = Again d"
    then show ?thesis using kept_on [OF turn_lease_kept] assms(4,5) by (metis went_on_def)
  next
    fix c1 assume c1: "turn_lease mac e c = Go c1" "went_on (and_then (turn_timer mac e c1) (turn_read mac e)) d"
    have k1: "ow_lease (cl_owner c1) = ow_lease (cl_owner c) \<or> le_address (ow_lease (cl_owner c1)) = []" "client_ok c1"
      using turn_lease_kept [of c mac e] turn_lease_ok [OF ok now, of mac] c1(1) by simp_all
    from c1(2) show ?thesis
    proof (rule went_on_and_then)
      assume "turn_timer mac e c1 = Again d"
      then show ?thesis using kept_on [OF turn_timer_kept] k1(1) assms(4,5) by (metis went_on_def)
    next
      fix c2 assume c2: "turn_timer mac e c1 = Go c2" "went_on (turn_read mac e c2) d"
      have k2: "ow_lease (cl_owner c2) = ow_lease (cl_owner c) \<or> le_address (ow_lease (cl_owner c2)) = []" "client_ok c2"
        using turn_timer_kept [of c1 mac e] turn_timer_ok [OF k1(2) now, of mac] c2(1) k1(1) by auto
      have "ow_lease (cl_owner d) \<noteq> ow_lease (cl_owner c2)" using k2(1) assms(4,5) by auto
      from turn_read_source [OF k2(2) assms(2) c2(2) assms(4) this] show ?thesis using k2(1) c1(1) c2(1) by blast
    qed
  qed
qed

theorem lease_from_acknowledgement_witness:
  "\<exists>c c1 k. dhcp_run clocked demo_mac (new_dhcp 7) c \<and> turn_lease demo_mac (demo_turn 5 (2 * second)) c = Go c1 \<and>
     turn_timer demo_mac (demo_turn 5 (2 * second)) c1 = Go k \<and> acknowledged demo_mac (demo_turn 5 (2 * second)) k demo_lease"
proof -
  obtain c d where c: "dhcp_run clocked demo_mac (new_dhcp 7) c" "dhcp_turn demo_mac (demo_turn 5 (2 * second)) c = Go d"
    "ow_lease (cl_owner c) = no_lease" "ow_lease (cl_owner d) = demo_lease"
    using demo_run by blast
  have "clocked (demo_turn 5 (2 * second))" by (rule demo_clocked) (simp add: second_def)
  moreover have "le_address demo_lease \<noteq> []" "demo_lease \<noteq> no_lease" by (simp_all add: demo_lease_def no_lease_def)
  ultimately show ?thesis
    using lease_from_acknowledgement [OF c(1), of "demo_turn 5 (2 * second)" d] c by (auto simp: went_on_def)
qed




text \<open>
  The heartbeat of a lease that has ended a second ago: the remaining time is negative, and the
  conversion makes it the kernel's infinite lifetime instead of a withdrawal.
\<close>

lemma ended_lease_made_permanent:
  assumes "le_address (ow_lease o1) \<noteq> []" "ow_expires o1 \<noteq> 0" "now = ow_expires o1 + second"
  shows "PutAddress (le_address (ow_lease o1)) (le_prefix (ow_lease o1)) (- 1) now \<in> set (ow_log (snd (heartbeat e now o1)))"
  using assms(1) unfolding heartbeat_def seconds_left_wraps [OF assms(2,3)]
  by (simp add: Let_def split: sum.split)

end
