(* ===== verification/NetExchangeFacts.thy ===== *)
theory NetExchangeFacts
  imports NetRunFacts
begin

text \<open>
  The exchanges of the address agent: how long an address is watched before it is used, what a
  DHCP client message says on the wire, and what an accepted reply guarantees.
\<close>

section \<open>The probe\<close>

text \<open>The least time between the next action and the end, from the probes sent so far.\<close>

definition probe_time :: "nat \<Rightarrow> int" where
  "probe_time sent = (if sent = 0 then 4 else if sent = 1 then 3 else if sent = 2 then 2 else 0) * second"

definition watched :: "byte list \<Rightarrow> byte list \<Rightarrow> probe_turn \<Rightarrow> bool" where
  "watched mac ip t \<longleftrightarrow> \<not> pt_cancelled t \<and> (\<exists>p. pt_read t = Inr p \<and> \<not> arp_conflict p mac ip True)"

lemma jitter_nonneg: "0 \<le> jitter b"
  by (simp add: jitter_def second_def)

lemma probe_loop_free:
  assumes "probe_loop mac ip ts next1 sent = Some Free" "sent \<le> 3" "\<forall>t \<in> set ts. pt_now t \<le> pt_after t"
  shows "\<exists>us t rest. ts = us @ t # rest \<and> 3 \<le> length us + sent \<and> list_all (watched mac ip) us \<and> next1 + probe_time sent < pt_now t"
  using assms
proof (induction ts arbitrary: next1 sent)
  case (Cons t ts)
  show ?case
  proof (cases "next1 < pt_now t \<and> sent = 3")
    case True
    then show ?thesis by (intro exI [of _ "[]"] exI [of _ t] exI [of _ ts]) (simp add: probe_time_def)
  next
    case more: False
    obtain n s where step: "probe_loop mac ip ts n s = Some Free" "watched mac ip t" "s \<le> 3" "sent \<le> s" "s \<le> sent + 1"
      "next1 + probe_time sent \<le> n + probe_time s"
    proof (cases "next1 < pt_now t")
      case False
      then show ?thesis
        using Cons.prems(1,2) that [of next1 sent]
        by (auto simp: watched_def split: if_splits sum.splits)
    next
      case due: True
      then have sent: "sent < 3" "sent \<noteq> 3" using more Cons.prems(2) by auto
      obtain b p where b: "pt_random t = Some b" "pt_read t = Inr p" "\<not> arp_conflict p mac ip True" "\<not> pt_cancelled t"
        "probe_loop mac ip ts (if sent + 1 = 3 then pt_after t + 2 * second else pt_after t + second + jitter b) (sent + 1) = Some Free"
        using Cons.prems(1) due sent by (auto split: if_splits sum.splits option.splits)
      have "pt_now t \<le> pt_after t" using Cons.prems(3) by simp
      then have "next1 + probe_time sent \<le>
          (if sent + 1 = 3 then pt_after t + 2 * second else pt_after t + second + jitter b) + probe_time (sent + 1)"
        using due sent jitter_nonneg [of b] by (cases "sent = 0"; cases "sent = 1") (auto simp: probe_time_def second_def)
      then show ?thesis using that [OF b(5)] b sent by (auto simp: watched_def)
    qed
    obtain us u rest where "ts = us @ u # rest" "3 \<le> length us + s" "list_all (watched mac ip) us" "n + probe_time s < pt_now u"
      using Cons.IH [OF step(1,3)] Cons.prems(3) by auto
    then show ?thesis
      using step(2,4-6) by (intro exI [of _ "t # us"] exI [of _ u] exI [of _ rest]) auto
  qed
qed simp

text \<open>
  An address is used only after it was watched.  When the probe reports an address free, at
  least three packets were read in a row, none of them shows another host that has or claims the
  address, and at least four seconds have passed since the probe began, by a clock that does not
  go back within a turn.
\<close>

theorem probe_watches:
  assumes "arp_probe mac ip random now turns = Some Free" "\<forall>t \<in> set turns. pt_now t \<le> pt_after t"
  shows "\<exists>us t rest. turns = us @ t # rest \<and> 3 \<le> length us \<and> list_all (watched mac ip) us \<and> now + 4 * second < pt_now t"
proof -
  obtain b where b: "probe_loop mac ip turns (now + jitter b) 0 = Some Free"
    using assms(1) by (auto simp: arp_probe_def split: option.splits)
  obtain us t rest where us: "turns = us @ t # rest" "3 \<le> length us" "list_all (watched mac ip) us" "now + jitter b + 4 * second < pt_now t"
    using probe_loop_free [OF b _ assms(2)] by (auto simp: probe_time_def)
  moreover have "now + 4 * second < pt_now t" using us(4) jitter_nonneg [of b] by linarith
  ultimately show ?thesis by blast
qed

definition demo_probe_turn :: "int \<Rightarrow> probe_turn" where
  "demo_probe_turn now = \<lparr>pt_cancelled = False, pt_now = now, pt_sent = Inr (), pt_random = Some 0, pt_after = now, pt_read = Inr []\<rparr>"

theorem probe_watches_witness:
  "\<exists>us t rest. map demo_probe_turn [second, 3 * second, 5 * second, 8 * second] = us @ t # rest \<and> 3 \<le> length us \<and>
     list_all (watched [2, 0, 0, 0, 0, 30] [192, 0, 2, 30]) us \<and> 4 * second < pt_now t"
proof -
  have "arp_probe [2, 0, 0, 0, 0, 30] [192, 0, 2, 30] (Some 0) 0 (map demo_probe_turn [second, 3 * second, 5 * second, 8 * second]) = Some Free"
    by (simp add: arp_probe_def demo_probe_turn_def jitter_def arp_conflict_def second_def)
  from probe_watches [OF this] show ?thesis by (simp add: demo_probe_turn_def)
qed

text \<open>The clock of the turns: it does not go back, and a turn takes at most \<open>g\<close>.\<close>

fun steady :: "int \<Rightarrow> int \<Rightarrow> probe_turn list \<Rightarrow> bool" where
  "steady g previous [] \<longleftrightarrow> True"
| "steady g previous (t # ts) \<longleftrightarrow>
     previous \<le> pt_now t \<and> pt_now t \<le> previous + g \<and> pt_now t \<le> pt_after t \<and>
     (ts \<noteq> [] \<longrightarrow> pt_after t \<le> pt_now (hd ts)) \<and> steady g (pt_now t) ts"

text \<open>The longest the probe takes after its next action, waits and slow turns.\<close>

definition probe_left :: "int \<Rightarrow> nat \<Rightarrow> int" where
  "probe_left g sent = (if sent = 0 then 6 * second + 6 * g else if sent = 1 then 4 * second + 4 * g
     else if sent = 2 then 2 * second + 2 * g else 0)"

lemma jitter_less: "jitter b < second"
proof -
  have "unat b < 256" by (rule unat_byte)
  then have "int (unat b) \<le> 255" by linarith
  then show ?thesis by (simp add: jitter_def second_def)
qed

lemma probe_loop_ends:
  assumes "steady g previous ts" "previous \<le> next1" "sent \<le> 3" "0 \<le> g" "ts \<noteq> []" "next1 + probe_left g sent < pt_now (last ts)"
  shows "probe_loop mac ip ts next1 sent \<noteq> None"
  using assms
proof (induction ts arbitrary: previous next1 sent)
  case (Cons t ts)
  let ?check = "\<lambda>n s. case pt_read t of Inl e \<Rightarrow> Some (ProbeFailed e)
    | Inr p \<Rightarrow> if arp_conflict p mac ip True then Some Conflict else probe_loop mac ip ts n s"
  have check: "?check n s \<noteq> None" if "pt_now t \<le> n" "s \<le> 3" "ts \<noteq> []" "n + probe_left g s < pt_now (last ts)" for n s
    using Cons.IH [of "pt_now t" n s] Cons.prems(1,4) that by (auto split: sum.split)
  have final: "ts = [] \<Longrightarrow> next1 + probe_left g sent < pt_now t" and rest: "ts \<noteq> [] \<Longrightarrow> next1 + probe_left g sent < pt_now (last ts)"
    using Cons.prems(6) by auto
  have left: "0 \<le> probe_left g sent" "sent < 3 \<Longrightarrow> 2 * g \<le> probe_left g sent"
    using Cons.prems(3,4) by (auto simp: probe_left_def second_def)
  have now: "pt_now t \<le> next1 + g" using Cons.prems(1,2) by simp
  show ?case
  proof (cases "next1 < pt_now t")
    case False
    then have "ts \<noteq> []" using final left by fastforce
    then have "?check next1 sent \<noteq> None" using check [of next1 sent] False rest Cons.prems(3) by simp
    then show ?thesis using False by (simp add: Let_def)
  next
    case due: True
    show ?thesis
    proof (cases "sent = 3")
      case False
      then have s: "sent < 3" using Cons.prems(3) by simp
      then have "ts \<noteq> []" using final left(2) now Cons.prems(4) by fastforce
      then have later: "pt_after t \<le> pt_now t + g"
        using Cons.prems(1) by (cases ts) simp_all
      have "?check (if sent + 1 = 3 then pt_after t + 2 * second else pt_after t + second + jitter b) (sent + 1) \<noteq> None" for b
      proof (rule check)
        let ?n = "if sent + 1 = 3 then pt_after t + 2 * second else pt_after t + second + jitter b"
        have "pt_now t \<le> pt_after t" using Cons.prems(1) by simp
        then show "pt_now t \<le> ?n" using jitter_nonneg [of b] by (simp add: second_def)
        have "?n + probe_left g (sent + 1) \<le> next1 + probe_left g sent"
          using s later now jitter_less [of b] by (cases "sent = 0"; cases "sent = 1") (auto simp: probe_left_def)
        then show "?n + probe_left g (sent + 1) < pt_now (last ts)" using rest \<open>ts \<noteq> []\<close> by linarith
      qed (use s \<open>ts \<noteq> []\<close> in simp_all)
      then show ?thesis using due False by (auto simp: Let_def split: sum.split option.split)
    qed (use due in \<open>simp add: Let_def\<close>)
  qed
qed simp

text \<open>
  C40: The probe ends.  Whatever is sent and received, if no turn takes longer than \<open>g\<close>, the probe
  has returned a result once its turns reach past seven seconds and six times \<open>g\<close>.
\<close>

theorem probe_ends:
  assumes "steady g now turns" "turns \<noteq> []" "0 \<le> g" "now + 7 * second + 6 * g < pt_now (last turns)"
  shows "arp_probe mac ip random now turns \<noteq> None"
proof (cases random)
  case (Some b)
  have "now + jitter b + probe_left g 0 < pt_now (last turns)"
    using assms(4) jitter_less [of b] by (simp add: probe_left_def)
  from probe_loop_ends [OF assms(1) _ _ assms(3,2) this] show ?thesis
    using jitter_nonneg [of b] Some by (simp add: arp_probe_def)
qed (simp add: arp_probe_def)

theorem probe_ends_witness:
  "arp_probe [2, 0, 0, 0, 0, 30] [192, 0, 2, 30] (Some 200) 0 (map demo_probe_turn [5 * second, 10 * second, 20 * second, 40 * second, 60 * second, 80 * second,
     100 * second, 120 * second, 140 * second]) \<noteq> None"
  by (rule probe_ends [of "20 * second"]) (simp_all add: demo_probe_turn_def second_def)

section \<open>What the client says\<close>

text \<open>
  A message of the client says what it was built from.  The message has the length of a
  BOOTP message, its transaction and its hardware address are in place, and the option reader
  reads back its type, the client identifier and the two addresses; the frame it is broadcast in
  has a valid header checksum, and the client never takes its own frame for an answer.
\<close>

theorem client_messages:
  assumes "length mac = 6" "length xid = 4"
  shows "(let p = dhcp_packet kind xid mac requested server current; f = ipv4_broadcast p in
     length p = 300 \<and> take 3 p = [1, 1, 6] \<and> sub_bytes 4 8 p = xid \<and> sub_bytes 28 34 p = mac \<and> sub_bytes 236 240 p = magic_cookie \<and>
     (\<exists>opts. scan_options (drop 240 p) Map.empty = Some opts \<and> opts 53 = Some [kind] \<and> opts 61 = Some (1 # mac) \<and>
        opts 50 = to4 requested \<and> opts 54 = to4 server) \<and>
     checksum (take 20 f) = 0 \<and> drop 28 f = p \<and> dhcp_payload f = None)"
proof -
  let ?h = "dhcp_header xid mac current" and ?p = "dhcp_packet kind xid mac requested server current"
  note h = packet_layout [OF assms, of current]
  obtain rest where p: "?p = ?h @ rest" by (auto simp: dhcp_packet_def Let_def)
  have s: "sub_bytes i j ?p = sub_bytes i j ?h" if "j \<le> 240" for i j
    unfolding p using h(1) that by (simp add: sub_bytes_def)
  have m: "sub_bytes 236 240 ?h = magic_cookie"
  proof -
    obtain pre where pre: "?h = pre @ magic_cookie" unfolding dhcp_header_def by (metis append.assoc)
    then have "length pre = 236" using h(1) by (simp add: magic_cookie_def)
    then show ?thesis unfolding pre by (simp add: sub_bytes_def magic_cookie_def)
  qed
  have t: "take 3 ?p = [1, 1, 6]" unfolding p dhcp_header_def by simp
  let ?n = "28 + length ?p"
  let ?i = "ip_header ?n (put_u16 (checksum (ip_header ?n [0, 0] [0, 0, 0, 0]))) [0, 0, 0, 0]"
  obtain u where f: "ipv4_broadcast ?p = ?i @ u @ ?p" "length u = 8"
    by (auto simp: ipv4_broadcast_def ipv4_frame_def Let_def udp_datagram_def)
  have i: "length ?i = 20" by (simp add: length_ip_header)
  have c: "checksum (take 20 (ipv4_broadcast ?p)) = 0" unfolding f(1) using i frame_checksum [of "[0, 0, 0, 0]" ?n] by simp
  have d: "drop 28 (ipv4_broadcast ?p) = ?p" unfolding f(1) using i f(2) by simp
  show ?thesis
    unfolding Let_def s [OF order.refl] c d own_frame_ignored
    using t s [of 8 4] s [of 34 28] h m packet_options [OF assms, of kind requested server current] by simp
qed

theorem client_messages_witness:
  "length (dhcp_packet 1 demo_xid demo_mac [] [] []) = 300 \<and> dhcp_payload (ipv4_broadcast (dhcp_packet 1 demo_xid demo_mac [] [] [])) = None"
  using client_messages [of demo_mac demo_xid 1 "[]" "[]" "[]"] by (simp add: demo_mac_def demo_xid_def Let_def)

section \<open>What a reply guarantees\<close>

text \<open>
  A reply that is accepted answers this client: it carries the transaction and the hardware
  address it was asked with, and comes from a server that can be addressed.  Any lease it offers
  or acknowledges is one the gateway accepts: a usable address and router in one subnet, for
  thirty seconds up to a week, with the renewal before the rebinding and that before the end.
\<close>

theorem reply_checked:
  assumes "reply p xid mac = Inr (kind, l)"
  shows "sub_bytes 4 8 p = xid \<and> sub_bytes 28 34 p = mac \<and> length mac = 6 \<and> kind \<in> {2, 5, 6} \<and> server_usable (le_server l) \<and>
    (kind \<noteq> 6 \<longrightarrow> lease_ok l)"
  using reply_Inr [OF assms] by (auto simp: reply_framed_def)

theorem reply_checked_witness:
  "lease_ok demo_lease \<and> server_usable (le_server demo_lease)"
  using reply_checked [OF demo_reply_read [of 5]] by simp

end
