(* ===== verification/GoTime.thy ===== *)
theory GoTime
  imports Trust
begin

text \<open>
  The JSON text of a \<open>time.Time\<close>: RFC 3339 with up to nine digits of a second.  A time is the
  number of nanoseconds since Go's zero time, the first of January of the year 1; the local time
  zone is a whole number of minutes.  The parser of \<open>time\<close> is its exact form, and a more lenient
  one, a parameter, for the texts that do not have that form.
\<close>

section \<open>The calendar\<close>

definition leap_year :: "nat \<Rightarrow> bool" where
  "leap_year y \<longleftrightarrow> 4 dvd y \<and> (\<not> 100 dvd y \<or> 400 dvd y)"

definition month_lengths :: "nat \<Rightarrow> nat list" where
  "month_lengths y = [31, if leap_year y then 29 else 28, 31, 30, 31, 30, 31, 31, 30, 31, 30, 31]"

text \<open>The days from the first of January of the year 0 to that of another year.\<close>

definition days_before :: "nat \<Rightarrow> nat" where
  "days_before y = 365 * y + (y + 3) div 4 + (y + 399) div 400 - (y + 99) div 100"

lemma Suc_div:
  assumes "n = Suc m"
  shows "(Suc y + m) div n = (y + m) div n + (if n dvd y then 1 else (0 :: nat))"
proof -
  have n: "0 < n" using assms by simp
  have "Suc y + m = y + n" using assms by simp
  then have "(Suc y + m) div n = Suc (y div n)" using n by (metis Suc_eq_plus1 div_add_self2 less_not_refl2)
  moreover have "(y + m) div n = y div n + (if n dvd y then 0 else 1)"
  proof (cases "n dvd y")
    case True
    then obtain k where k: "y = n * k" by (elim dvdE)
    have "(m + n * k) div n = k" using assms by (subst div_mult_self2) simp_all
    then show ?thesis using n True k by (simp add: add.commute)
  next
    case False
    then have "0 < y mod n" by (simp add: mod_greater_zero_iff_not_dvd)
    then have "y + m = y mod n - 1 + n * (y div n + 1)"
      using assms mult_div_mod_eq[of n y] unfolding distrib_left by linarith
    moreover have "y mod n - 1 < n" using n mod_less_divisor[of n y] by linarith
    ultimately show ?thesis using False n by (simp only: div_mult_self2 if_False div_less)
  qed
  ultimately show ?thesis by simp
qed

lemma leap_arith:
  assumes "b \<le> (a :: nat)" "Q \<longrightarrow> P" "R \<longrightarrow> Q"
  shows "365 * Suc y + (a + (if P then 1 else 0)) + (c + (if R then 1 else 0)) - (b + (if Q then 1 else 0)) =
    365 * y + a + c - b + (if P \<and> (\<not> Q \<or> R) then 366 else 365)"
  using assms by (cases P; cases Q; cases R) simp_all

lemma days_before_Suc: "days_before (Suc y) = days_before y + (if leap_year y then 366 else 365)"
proof -
  have four: "4 dvd y" if "100 dvd y" using that dvd_trans[of 4 100 y] by simp
  have hundred: "100 dvd y" if "400 dvd y" using that dvd_trans[of 100 400 y] by simp
  define a b c where abc: "a = (y + 3) div 4" "b = (y + 99) div 100" "c = (y + 399) div 400"
  have "(Suc y + 3) div 4 = a + (if 4 dvd y then 1 else 0)" unfolding abc by (rule Suc_div) simp
  moreover have "(Suc y + 99) div 100 = b + (if 100 dvd y then 1 else 0)" unfolding abc by (rule Suc_div) simp
  moreover have "(Suc y + 399) div 400 = c + (if 400 dvd y then 1 else 0)" unfolding abc by (rule Suc_div) simp
  ultimately have next_year: "days_before (Suc y) = 365 * Suc y + (a + (if 4 dvd y then 1 else 0)) +
      (c + (if 400 dvd y then 1 else 0)) - (b + (if 100 dvd y then 1 else 0))"
    unfolding days_before_def by (simp only:)
  have year: "days_before y = 365 * y + a + c - b" by (simp add: days_before_def abc)
  have "b \<le> a"
  proof (cases "y = 0")
    case False
    moreover have "100 * b \<le> y + 99" unfolding abc by linarith
    ultimately have "4 * b \<le> y + 3" by linarith
    then show ?thesis unfolding abc by linarith
  qed (simp add: abc)
  then show ?thesis using four hundred leap_arith[of b a "100 dvd y" "4 dvd y" "400 dvd y"]
    unfolding next_year year leap_year_def by blast
qed

lemma days_before_le: "365 * y \<le> days_before y" "days_before y \<le> 366 * y"
proof (induction y)
  case 0
  show "365 * 0 \<le> days_before 0" "days_before 0 \<le> 366 * 0" by (simp_all add: days_before_def)
next
  case (Suc y)
  then show "365 * Suc y \<le> days_before (Suc y)" "days_before (Suc y) \<le> 366 * Suc y" by (simp_all add: days_before_Suc)
qed

text \<open>The year of a day, sought from a year that is not after it.\<close>

function year_from :: "nat \<Rightarrow> nat \<Rightarrow> nat" where
  "year_from y d = (if days_before (Suc y) \<le> d then year_from (Suc y) d else y)"
  by pat_completeness auto

termination
proof (relation "measure (\<lambda>(y, d). Suc d - y)", goal_cases)
  case (2 y d)
  then have "y < Suc d" using days_before_le(1)[of "Suc y"] unfolding mult_Suc_right by linarith
  then show ?case by simp
qed simp

declare year_from.simps [simp del]

lemma year_from_spec: "days_before y \<le> d \<Longrightarrow> days_before (year_from y d) \<le> d \<and> d < days_before (Suc (year_from y d))"
  by (induction y d rule: year_from.induct) (subst (1 2) year_from.simps, simp)

fun month_from :: "nat \<Rightarrow> nat list \<Rightarrow> nat \<Rightarrow> nat \<times> nat" where
  "month_from m [] d = (m, d + 1)"
| "month_from m (n # ns) d = (if d < n then (m, d + 1) else month_from (Suc m) ns (d - n))"

text \<open>Year, month and day of a day since the first of January of the year 0, and back.\<close>

definition civil :: "nat \<Rightarrow> nat \<times> nat \<times> nat" where
  "civil d = (let y = year_from (d div 366) d; (m, k) = month_from 1 (month_lengths y) (d - days_before y) in (y, m, k))"

definition day_number :: "nat \<Rightarrow> nat \<Rightarrow> nat \<Rightarrow> nat" where
  "day_number y m k = days_before y + sum_list (take (m - 1) (month_lengths y)) + k - 1"

lemma month_from_spec:
  assumes "d < sum_list ns"
  shows "case month_from m ns d of (m', k) \<Rightarrow> m \<le> m' \<and> m' < m + length ns \<and> 1 \<le> k \<and> k \<le> ns ! (m' - m) \<and>
    sum_list (take (m' - m) ns) + k = Suc d"
  using assms
proof (induction ns arbitrary: m d)
  case (Cons n ns)
  show ?case
  proof (cases "d < n")
    case True
    then show ?thesis by simp
  next
    case False
    obtain m' k where r: "month_from (Suc m) ns (d - n) = (m', k)" by fastforce
    have *: "Suc m \<le> m' \<and> m' < Suc m + length ns \<and> 1 \<le> k \<and> k \<le> ns ! (m' - Suc m) \<and>
        sum_list (take (m' - Suc m) ns) + k = Suc (d - n)"
      using Cons.IH[of "d - n" "Suc m"] Cons.prems False r by simp
    moreover from * have "m' - m = Suc (m' - Suc m)" by linarith
    ultimately have "sum_list (take (m' - m) (n # ns)) + k = Suc d" using False by simp linarith
    then show ?thesis using * False r by simp
  qed
qed simp

lemma sum_month_lengths: "sum_list (month_lengths y) = (if leap_year y then 366 else 365)"
  by (simp add: month_lengths_def)

lemma civil_day:
  assumes "civil d = (y, m, k)"
  shows "day_number y m k = d \<and> 1 \<le> m \<and> m \<le> 12 \<and> 1 \<le> k \<and> k \<le> month_lengths y ! (m - 1) \<and> days_before y \<le> d"
proof -
  have "days_before (d div 366) \<le> d" using days_before_le(2)[of "d div 366"] by linarith
  then have s: "days_before (year_from (d div 366) d) \<le> d" "d < days_before (Suc (year_from (d div 366) d))"
    using year_from_spec by blast+
  have y: "y = year_from (d div 366) d" "month_from 1 (month_lengths y) (d - days_before y) = (m, k)"
    using assms by (auto simp: civil_def Let_def split: prod.splits)
  have "d - days_before y < sum_list (month_lengths y)"
    using s unfolding y(1)[symmetric] by (simp add: days_before_Suc sum_month_lengths)
  from month_from_spec[OF this, of 1] have
    "1 \<le> m \<and> m < 1 + length (month_lengths y) \<and> 1 \<le> k \<and> k \<le> month_lengths y ! (m - 1) \<and>
     sum_list (take (m - 1) (month_lengths y)) + k = Suc (d - days_before y)" unfolding y(2) by simp
  moreover have "days_before y \<le> d" using s(1) unfolding y(1)[symmetric] .
  moreover have "length (month_lengths y) = 12" by (simp add: month_lengths_def)
  ultimately show ?thesis by (auto simp: day_number_def)
qed

section \<open>Digits\<close>

fun digits :: "nat \<Rightarrow> nat \<Rightarrow> string" where
  "digits 0 n = []"
| "digits (Suc k) n = digits k (n div 10) @ [char_of (n mod 10 + 48)]"

definition digit :: "char \<Rightarrow> bool" where "digit c \<longleftrightarrow> in_range 48 57 c"

lemma digits_length [simp]: "length (digits k n) = k"
  by (induction k arbitrary: n) simp_all

lemma digit_char: "n < 10 \<Longrightarrow> digit (char_of (n + 48))" "n < 10 \<Longrightarrow> cbyte (char_of (n + 48)) = n + 48"
  by (simp_all add: digit_def in_range_def cbyte_def)

lemma digits_all [simp]: "list_all digit (digits k n)"
  by (induction k arbitrary: n) (simp_all add: digit_char)

lemma digits_value: "n < 10 ^ k \<Longrightarrow> dec_value 0 (digits k n) = n"
proof (induction k arbitrary: n)
  case (Suc k)
  then have "dec_value 0 (digits k (n div 10)) = n div 10" by (simp add: less_mult_imp_div_less mult.commute)
  then show ?case using digit_char(2)[of "n mod 10"] by (simp add: dec_value_append)
qed simp

text \<open>\<open>parseUint\<close> within \<open>parseRFC3339\<close>.\<close>

definition number_in :: "nat \<Rightarrow> nat \<Rightarrow> string \<Rightarrow> nat option" where
  "number_in lo hi s =
     (if list_all digit s \<and> lo \<le> dec_value 0 s \<and> dec_value 0 s \<le> hi then Some (dec_value 0 s) else None)"

lemma number_in_digits: "n < 10 ^ k \<Longrightarrow> lo \<le> n \<Longrightarrow> n \<le> hi \<Longrightarrow> number_in lo hi (digits k n) = Some n"
  by (simp add: number_in_def digits_value)

section \<open>Printing\<close>

definition day :: int where "day = 86400 * second"

text \<open>The nanoseconds without the zeros at their end.\<close>

definition fraction_text :: "nat \<Rightarrow> string" where
  "fraction_text ns = (if ns = 0 then [] else CHR ''.'' # rev (dropWhile (\<lambda>c. c = CHR ''0'') (rev (digits 9 ns))))"

definition zone_text :: "int \<Rightarrow> string" where
  "zone_text off =
     (if off = 0 then ''Z''
      else (if off < 0 then CHR ''-'' else CHR ''+'') # digits 2 (nat \<bar>off\<bar> div 60) @ '':'' @ digits 2 (nat \<bar>off\<bar> mod 60))"

definition clock_text :: "nat \<Rightarrow> nat \<Rightarrow> nat \<Rightarrow> nat \<Rightarrow> string" where
  "clock_text y m k seconds =
     digits 4 y @ ''-'' @ digits 2 m @ ''-'' @ digits 2 k @ ''T'' @
     digits 2 (seconds div 3600) @ '':'' @ digits 2 (seconds div 60 mod 60) @ '':'' @ digits 2 (seconds mod 60)"

text \<open>\<open>appendStrictRFC3339\<close>: the year has four digits, the zone is less than a day away.\<close>

definition time_text :: "int \<Rightarrow> int \<Rightarrow> string option" where
  "time_text off t =
     (let wall = t + off * minute; d = wall div day + 366; r = nat (wall mod day);
          (y, m, k) = civil (nat d)
      in if d < 0 \<or> 9999 < y \<or> 1440 \<le> \<bar>off\<bar> then None
         else Some (clock_text y m k (r div nat second) @ fraction_text (r mod nat second) @ zone_text off))"

section \<open>Parsing\<close>

text \<open>The nanoseconds that a text of digits after the point stands for, of which nine count.\<close>

definition nanoseconds :: "string \<Rightarrow> nat" where
  "nanoseconds ds = dec_value 0 (take 9 ds) * 10 ^ (9 - length (take 9 ds))"

definition parse_fraction :: "string \<Rightarrow> nat \<times> string" where
  "parse_fraction s =
     (case s of
        c # d # cs \<Rightarrow>
          if c = CHR ''.'' \<and> digit d then (nanoseconds (takeWhile digit (d # cs)), dropWhile digit (d # cs)) else (0, s)
      | _ \<Rightarrow> (0, s))"

definition parse_zone :: "string \<Rightarrow> int option" where
  "parse_zone s =
     (if s = ''Z'' then Some 0
      else if length s \<noteq> 6 then None
      else case (number_in 0 23 (take 2 (drop 1 s)), number_in 0 59 (drop 4 s)) of
        (Some h, Some m) \<Rightarrow>
          if (s ! 0 = CHR ''-'' \<or> s ! 0 = CHR ''+'') \<and> s ! 3 = CHR '':''
          then Some ((if s ! 0 = CHR ''-'' then -1 else 1) * int (h * 60 + m)) else None
      | _ \<Rightarrow> None)"

definition parse_clock :: "string \<Rightarrow> (nat \<times> nat) option" where
  "parse_clock s =
     (if length s < 19 then None
      else
        Option.bind (number_in 0 9999 (take 4 s)) (\<lambda>y.
        Option.bind (number_in 1 12 (take 2 (drop 5 s))) (\<lambda>m.
        Option.bind (number_in 1 (month_lengths y ! (m - 1)) (take 2 (drop 8 s))) (\<lambda>k.
        Option.bind (number_in 0 23 (take 2 (drop 11 s))) (\<lambda>h.
        Option.bind (number_in 0 59 (take 2 (drop 14 s))) (\<lambda>mi.
        Option.bind (number_in 0 59 (take 2 (drop 17 s))) (\<lambda>sec.
        if \<not> (s ! 4 = CHR ''-'' \<and> s ! 7 = CHR ''-'' \<and> s ! 10 = CHR ''T'' \<and> s ! 13 = CHR '':'' \<and> s ! 16 = CHR '':'') then None
        else Some (day_number y m k, (h * 60 + mi) * 60 + sec))))))))"

definition parse_rfc3339 :: "string \<Rightarrow> int option" where
  "parse_rfc3339 s =
     Option.bind (parse_clock s) (\<lambda>(d, seconds).
     (case parse_fraction (drop 19 s) of (ns, rest) \<Rightarrow>
     Option.bind (parse_zone rest) (\<lambda>off.
     Some ((int d - 366) * day + int seconds * second + int ns - off * minute))))"

text \<open>\<open>parseStrictRFC3339\<close>: what does not have the form is left to \<open>time.Parse\<close>.\<close>

definition parse_time :: "(string \<Rightarrow> int option) \<Rightarrow> string \<Rightarrow> int option" where
  "parse_time lenient s = (case parse_rfc3339 s of None \<Rightarrow> lenient s | Some t \<Rightarrow> Some t)"

section \<open>What is printed is read back\<close>

lemma days_before_mono: "x \<le> y \<Longrightarrow> days_before x \<le> days_before y"
  by (rule lift_Suc_mono_le) (simp_all add: days_before_Suc)

text \<open>Every time whose local date is in the years 0 to 9999 has a text.\<close>

lemma time_text_total:
  assumes "- 366 \<le> (t + off * minute) div day" "(t + off * minute) div day + 366 < 3652425" "\<bar>off\<bar> < 1440"
  shows "time_text off t \<noteq> None"
proof -
  obtain y m k where c: "civil (nat ((t + off * minute) div day + 366)) = (y, m, k)" by (metis prod_cases3)
  have "days_before y < 3652425" using civil_day[OF c] assms(1,2) by linarith
  moreover have "days_before 10000 = 3652425" by (simp add: days_before_def)
  ultimately have "y \<le> 9999" using days_before_mono[of 10000 y] by linarith
  then show ?thesis using assms c by (simp add: time_text_def Let_def)
qed

lemma parse_clock_text:
  assumes "y \<le> 9999" "1 \<le> m" "m \<le> 12" "1 \<le> k" "k \<le> month_lengths y ! (m - 1)" "seconds < 86400"
  shows "parse_clock (clock_text y m k seconds @ rest) = Some (day_number y m k, seconds)"
proof -
  have k: "k < 100"
  proof -
    have "month_lengths y ! (m - 1) \<in> set (month_lengths y)" using assms(2,3) by (intro nth_mem) (simp add: month_lengths_def)
    then show ?thesis using assms(5) by (auto simp: month_lengths_def split: if_splits)
  qed
  have s: "seconds div 3600 \<le> 23" "seconds div 60 mod 60 \<le> 59" "seconds mod 60 \<le> 59" using assms(6) by auto
  have e: "(seconds div 3600 * 60 + seconds div 60 mod 60) * 60 + seconds mod 60 = seconds"
    by (simp add: div_mult2_eq[of seconds 60 60, simplified])
  show ?thesis using assms k s e
    by (simp add: parse_clock_def clock_text_def number_in_digits nth_append)
qed

lemma dec_value_zeros: "dec_value a (replicate j (CHR ''0'')) = a * 10 ^ j"
  by (induction j arbitrary: a) (simp_all add: cbyte_def)

lemma trimmed_zeros:
  obtains j where "s = rev (dropWhile (\<lambda>c. c = CHR ''0'') (rev s)) @ replicate j (CHR ''0'')"
proof -
  have "takeWhile (\<lambda>c. c = CHR ''0'') u = replicate (length (takeWhile (\<lambda>c. c = CHR ''0'') u)) (CHR ''0'')" for u
    by (induction u) simp_all
  then have "s = rev (dropWhile (\<lambda>c. c = CHR ''0'') (rev s)) @ replicate (length (takeWhile (\<lambda>c. c = CHR ''0'') (rev s))) (CHR ''0'')"
    by (metis rev_append rev_replicate rev_rev_ident takeWhile_dropWhile_id)
  then show thesis by (rule that)
qed

lemma parse_fraction_text:
  assumes "ns < 10 ^ 9" "rest = [] \<or> (\<not> digit (hd rest) \<and> hd rest \<noteq> CHR ''.'')"
  shows "parse_fraction (fraction_text ns @ rest) = (ns, rest)"
proof (cases "ns = 0")
  case True
  then show ?thesis using assms(2) by (auto simp: parse_fraction_def fraction_text_def split: list.splits)
next
  case False
  define ds where "ds = rev (dropWhile (\<lambda>c. c = CHR ''0'') (rev (digits 9 ns)))"
  obtain j where j: "digits 9 ns = ds @ replicate j (CHR ''0'')" unfolding ds_def by (rule trimmed_zeros)
  then have n: "length ds + j = 9" by (metis digits_length length_append length_replicate)
  have v: "dec_value 0 ds * 10 ^ j = ns"
    using digits_value[OF assms(1)] unfolding j dec_value_append dec_value_zeros .
  have all: "list_all digit ds" using digits_all[of 9 ns] unfolding j by simp
  obtain c cs where c: "ds = c # cs" using v False by (cases ds) simp_all
  have w: "takeWhile digit (ds @ rest) = ds" "dropWhile digit (ds @ rest) = rest"
    using all assms(2) by (cases rest; simp add: takeWhile_append dropWhile_append list_all_iff)+
  have "nanoseconds ds = ns" using n v by (simp add: nanoseconds_def flip: n)
  then show ?thesis using w all False unfolding fraction_text_def ds_def[symmetric] c
    by (simp add: parse_fraction_def)
qed

lemma parse_zone_text: "\<bar>off\<bar> < 1440 \<Longrightarrow> parse_zone (zone_text off) = Some off"
proof -
  assume off: "\<bar>off\<bar> < 1440"
  have h: "nat \<bar>off\<bar> div 60 \<le> 23" "nat \<bar>off\<bar> mod 60 \<le> 59" using off by auto
  have e: "int (nat \<bar>off\<bar> div 60 * 60 + nat \<bar>off\<bar> mod 60) = \<bar>off\<bar>" by (subst div_mult_mod_eq) simp
  show ?thesis using h e unfolding parse_zone_def zone_text_def by (simp add: number_in_digits nth_append)
qed

lemma zone_head: "zone_text off \<noteq> [] \<and> \<not> digit (hd (zone_text off)) \<and> hd (zone_text off) \<noteq> CHR ''.''"
  by (simp add: zone_text_def digit_def in_range_def cbyte_def)

lemma clock_length: "length (clock_text y m k s) = 19"
  by (simp add: clock_text_def)

theorem time_roundtrip:
  assumes "time_text off t = Some s"
  shows "parse_rfc3339 s = Some t"
proof -
  define wall where "wall = t + off * minute"
  obtain y m k where c: "civil (nat (wall div day + 366)) = (y, m, k)" by (metis prod_cases3)
  define r where "r = nat (wall mod day)"
  have s: "s = clock_text y m k (r div nat second) @ fraction_text (r mod nat second) @ zone_text off"
    and b: "0 \<le> wall div day + 366" "y \<le> 9999" "\<bar>off\<bar> < 1440"
    using assms c by (auto simp: time_text_def wall_def r_def Let_def split: if_splits)
  have r: "int r = wall mod day" unfolding r_def day_def second_def by simp
  have "wall mod day < day" by (simp add: day_def second_def)
  then have "r < 86400 * nat second" using r by (simp add: day_def second_def)
  then have "r div nat second < 86400" by (simp add: less_mult_imp_div_less)
  then have clock: "parse_clock s = Some (nat (wall div day + 366), r div nat second)"
    using civil_day[OF c] b(2) unfolding s by (subst parse_clock_text) auto
  have "r mod nat second < 10 ^ 9" by (simp add: second_def)
  then have "parse_fraction (drop 19 s) = (r mod nat second, zone_text off)"
    using zone_head unfolding s by (simp add: clock_length parse_fraction_text)
  moreover have "int (r div nat second) * second + int (r mod nat second) = int r"
    using arg_cong[OF div_mult_mod_eq[of r "nat second"], of int]
    by (simp only: of_nat_add of_nat_mult) (simp add: second_def)
  moreover have "wall div day * day + wall mod day = wall" by simp
  ultimately have "wall div day * day + int (r div nat second) * second + int (r mod nat second) = wall" using r by linarith
  then show ?thesis using clock b \<open>parse_fraction (drop 19 s) = (r mod nat second, zone_text off)\<close>
    by (simp add: parse_rfc3339_def parse_zone_text) (simp add: wall_def)
qed

end
