(* ===== verification/JsonDecode.thy ===== *)
theory JsonDecode
  imports StateStore "HOL-Library.AList"
begin

text \<open>
  \<open>json.Unmarshal\<close> into structs of pointers, as the release guard uses it.  A decoder takes the
  value a variable has and a JSON value to the value it has afterwards, or None where Go reports
  an error.  A member that is repeated, by names that fold to the same one, is decoded over what
  the one before it left.
\<close>

section \<open>Decoders\<close>

definition str_into :: "string \<Rightarrow> json \<Rightarrow> string option" where
  "str_into cur j = (case j of JStr v \<Rightarrow> Some v | JNull \<Rightarrow> Some cur | _ \<Rightarrow> None)"

definition int_into :: "int \<Rightarrow> json \<Rightarrow> int option" where
  "int_into cur j = (case j of JNum t \<Rightarrow> parse_int64 t | JNull \<Rightarrow> Some cur | _ \<Rightarrow> None)"

definition bool_into :: "bool \<Rightarrow> json \<Rightarrow> bool option" where
  "bool_into cur j = (case j of JBool b \<Rightarrow> Some b | JNull \<Rightarrow> Some cur | _ \<Rightarrow> None)"

text \<open>A pointer: null makes it nil; otherwise a nil one points to a fresh zero value first.\<close>

definition ptr_into :: "('a \<Rightarrow> json \<Rightarrow> 'a option) \<Rightarrow> 'a \<Rightarrow> 'a option \<Rightarrow> json \<Rightarrow> 'a option option" where
  "ptr_into f zero cur j =
     (if j = JNull then Some None else map_option Some (f (case cur of None \<Rightarrow> zero | Some v \<Rightarrow> v) j))"

text \<open>A struct: null leaves it.\<close>

definition struct_into :: "('a \<Rightarrow> (string \<times> json) list \<Rightarrow> 'a option) \<Rightarrow> 'a \<Rightarrow> json \<Rightarrow> 'a option" where
  "struct_into f cur j = (case j of JObj ms \<Rightarrow> f cur ms | JNull \<Rightarrow> Some cur | _ \<Rightarrow> None)"

definition field_into :: "('a \<Rightarrow> json \<Rightarrow> 'a option) \<Rightarrow> 'a \<Rightarrow> string \<Rightarrow> (string \<times> json) list \<Rightarrow> 'a option" where
  "field_into f cur name ms = fold_field f cur (members_named name ms)"

abbreviation str_ptr :: "string option \<Rightarrow> string \<Rightarrow> (string \<times> json) list \<Rightarrow> string option option" where
  "str_ptr cur name ms \<equiv> field_into (ptr_into str_into []) cur name ms"

abbreviation int_ptr :: "int option \<Rightarrow> string \<Rightarrow> (string \<times> json) list \<Rightarrow> int option option" where
  "int_ptr cur name ms \<equiv> field_into (ptr_into int_into 0) cur name ms"

abbreviation bool_ptr :: "bool option \<Rightarrow> string \<Rightarrow> (string \<times> json) list \<Rightarrow> bool option option" where
  "bool_ptr cur name ms \<equiv> field_into (ptr_into bool_into False) cur name ms"

text \<open>A pointer to a struct.\<close>

abbreviation struct_ptr :: "('a \<Rightarrow> (string \<times> json) list \<Rightarrow> 'a option) \<Rightarrow> 'a \<Rightarrow> 'a option \<Rightarrow> string \<Rightarrow> (string \<times> json) list \<Rightarrow>
    'a option option" where
  "struct_ptr f zero cur name ms \<equiv> field_into (ptr_into (struct_into f) zero) cur name ms"

text \<open>
  A slice is its backing array and its length: elements are decoded over the backing array,
  null makes it nil and an empty array makes it a fresh empty one.
\<close>

type_synonym 'a slice = "'a list \<times> nat"

definition items :: "'a slice \<Rightarrow> 'a list" where
  "items s = take (snd s) (fst s)"

fun elements_into :: "('a \<Rightarrow> json \<Rightarrow> 'a option) \<Rightarrow> 'a \<Rightarrow> 'a list \<Rightarrow> json list \<Rightarrow> 'a list option" where
  "elements_into f zero back [] = Some []"
| "elements_into f zero back (j # js) =
     (case f (case back of [] \<Rightarrow> zero | b # _ \<Rightarrow> b) j of
        None \<Rightarrow> None
      | Some v \<Rightarrow> map_option (\<lambda>vs. v # vs) (elements_into f zero (tl back) js))"

definition slice_into :: "('a \<Rightarrow> json \<Rightarrow> 'a option) \<Rightarrow> 'a \<Rightarrow> 'a slice \<Rightarrow> json \<Rightarrow> 'a slice option" where
  "slice_into f zero cur j =
     (case j of
        JNull \<Rightarrow> Some ([], 0)
      | JArr js \<Rightarrow>
          if js = [] then Some ([], 0)
          else map_option (\<lambda>vs. (vs @ drop (length vs) (fst cur), length vs)) (elements_into f zero (fst cur) js)
      | _ \<Rightarrow> None)"

abbreviation strs_ptr :: "string slice option \<Rightarrow> string \<Rightarrow> (string \<times> json) list \<Rightarrow> string slice option option" where
  "strs_ptr cur name ms \<equiv> field_into (ptr_into (slice_into str_into []) ([], 0)) cur name ms"

abbreviation structs_ptr :: "('a \<Rightarrow> (string \<times> json) list \<Rightarrow> 'a option) \<Rightarrow> 'a \<Rightarrow> 'a slice option \<Rightarrow> string \<Rightarrow>
    (string \<times> json) list \<Rightarrow> 'a slice option option" where
  "structs_ptr f zero cur name ms \<equiv> field_into (ptr_into (slice_into (struct_into f) zero) ([], 0)) cur name ms"

text \<open>A map of texts: an object adds its members, null as a value is the empty text.\<close>

fun entries_into :: "(string \<times> string) list \<Rightarrow> (string \<times> json) list \<Rightarrow> (string \<times> string) list option" where
  "entries_into m [] = Some m"
| "entries_into m ((k, j) # rest) =
     (case str_into [] j of None \<Rightarrow> None | Some v \<Rightarrow> entries_into (AList.update k v m) rest)"

definition map_into :: "(string \<times> string) list \<Rightarrow> json \<Rightarrow> (string \<times> string) list option" where
  "map_into cur j = (case j of JNull \<Rightarrow> Some [] | JObj ms \<Rightarrow> entries_into cur ms | _ \<Rightarrow> None)"

section \<open>Ambiguous keys\<close>

text \<open>No object holds a key twice, and nothing is nested deeper than the decoder allows.\<close>

fun unambiguous :: "nat \<Rightarrow> json \<Rightarrow> bool" where
  "unambiguous depth (JArr js) \<longleftrightarrow> depth \<le> 10000 \<and> list_all (unambiguous (Suc depth)) js"
| "unambiguous depth (JObj ms) \<longleftrightarrow>
     depth \<le> 10000 \<and> distinct (map fst ms) \<and> list_all (\<lambda>m. unambiguous (Suc depth) (snd m)) ms"
| "unambiguous depth j \<longleftrightarrow> True"

text \<open>\<open>decodeJSON\<close> up to the destination: None where the text is refused before it is decoded.\<close>

definition checked_json :: "string \<Rightarrow> json option" where
  "checked_json payload =
     (if payload = [] then None
      else case parse_json payload of
        None \<Rightarrow> None
      | Some j \<Rightarrow> if unambiguous 1 j then Some j else None)"

definition decode_with :: "('a \<Rightarrow> json \<Rightarrow> 'a option) \<Rightarrow> 'a \<Rightarrow> string \<Rightarrow> 'a option" where
  "decode_with f zero payload = (case checked_json payload of None \<Rightarrow> None | Some j \<Rightarrow> f zero j)"

section \<open>What a decoder reads from a member that is there once\<close>

lemma field_into_none: "members_named name ms = [] \<Longrightarrow> field_into f cur name ms = Some cur"
  by (simp add: field_into_def)

lemma field_into_one: "members_named name ms = [j] \<Longrightarrow> field_into f cur name ms = f cur j"
  by (simp add: field_into_def split: option.split)

lemma ptr_into_values [simp]:
  "ptr_into str_into zs cur (JStr v) = Some (Some v)" "ptr_into int_into zi curi (JNum t) = map_option Some (parse_int64 t)"
  "ptr_into bool_into zb curb (JBool b) = Some (Some b)" "ptr_into f z c JNull = Some None"
  by (simp_all add: ptr_into_def str_into_def int_into_def bool_into_def)

end
