(* ===== verification/StatusFile.thy ===== *)
theory StatusFile
  imports GoTime JsonDecode LocalNetwork StateFacts
begin

unbundle bit_operations_syntax

text \<open>
  The file by which the network agent hands an address over: \<open>ReadStatus\<close> of
  \<open>internal/netconfig/lease.go\<close> and the text the agent writes.  A time has a decoder of its own,
  which is given the text of the member as it stands in the file, so the texts of the members are
  kept beside their values.
\<close>

section \<open>The texts of the members of an object\<close>

text \<open>
  What follows the opening brace, up to the closing one.  The tests of the length hold always,
  as in the parser.
\<close>

function member_texts :: "string \<Rightarrow> (string \<times> string) list" where
  "member_texts s =
     (case skip_ws s of
        [] \<Rightarrow> []
      | q # t \<Rightarrow>
          if q \<noteq> CHR 0x22 then []
          else (case read_string [] t of
             None \<Rightarrow> []
           | Some (k, r) \<Rightarrow>
               let body = skip_ws (tl (skip_ws r))
               in (case parse_value body of
                  None \<Rightarrow> []
                | Some (v, r2) \<Rightarrow>
                    (k, take (length body - length r2) body) #
                    (case skip_ws r2 of
                       [] \<Rightarrow> []
                     | d # ds \<Rightarrow> if d = CHR '','' \<and> length ds < length s then member_texts ds else []))))"
  by pat_completeness auto

termination by (relation "measure length") auto

declare member_texts.simps [simp del]

text \<open>The members of the object that a text begins with.\<close>

definition object_texts :: "string \<Rightarrow> (string \<times> string) list" where
  "object_texts s = (case skip_ws s of [] \<Rightarrow> [] | c # cs \<Rightarrow> member_texts cs)"

definition texts_named :: "string \<Rightarrow> (string \<times> string) list \<Rightarrow> string list" where
  "texts_named name ts = map snd (filter (\<lambda>m. field_matches name (fst m)) ts)"

section \<open>Decoding the status\<close>

definition parse_uint64 :: "string \<Rightarrow> u64 option" where
  "parse_uint64 t =
     (if t = [] \<or> \<not> list_all (in_range 48 57) t \<or> 2 ^ 64 \<le> dec_value 0 t then None else Some (of_nat (dec_value 0 t)))"

definition uint_into :: "u64 \<Rightarrow> json \<Rightarrow> u64 option" where
  "uint_into cur j = (case j of JNum t \<Rightarrow> parse_uint64 t | JNull \<Rightarrow> Some cur | _ \<Rightarrow> None)"

text \<open>\<open>Time.UnmarshalJSON\<close>, whose input is the text with its quotes.\<close>

definition time_into :: "(string \<Rightarrow> int option) \<Rightarrow> int \<Rightarrow> string \<Rightarrow> int option" where
  "time_into lenient cur s =
     (if s = ''null'' then Some cur
      else if length s < 2 \<or> hd s \<noteq> CHR 0x22 \<or> last s \<noteq> CHR 0x22 then None
      else parse_time lenient (butlast (tl s)))"

fun times_into :: "(string \<Rightarrow> int option) \<Rightarrow> int \<Rightarrow> string list \<Rightarrow> int option" where
  "times_into lenient cur [] = Some cur"
| "times_into lenient cur (s # ss) =
     (case time_into lenient cur s of None \<Rightarrow> None | Some t \<Rightarrow> times_into lenient t ss)"

definition status_members :: "string list" where
  "status_members = [''generation'', ''sequence'', ''address'', ''prefix'', ''router'', ''valid_until'']"

definition zero_status :: status where
  "zero_status = \<lparr>ls_generation = [], ls_sequence = 0, ls_address = [], ls_prefix = 0, ls_router = [], ls_valid_until = 0\<rparr>"

definition status_fields :: "(string \<Rightarrow> int option) \<Rightarrow> (string \<times> string) list \<Rightarrow> status \<Rightarrow> (string \<times> json) list \<Rightarrow> status option" where
  "status_fields lenient ts cur ms =
     (if \<not> only_fields status_members ms then None
      else
        Option.bind (field_into str_into (ls_generation cur) ''generation'' ms) (\<lambda>g.
        Option.bind (field_into uint_into (ls_sequence cur) ''sequence'' ms) (\<lambda>n.
        Option.bind (field_into str_into (ls_address cur) ''address'' ms) (\<lambda>a.
        Option.bind (field_into int_into (ls_prefix cur) ''prefix'' ms) (\<lambda>p.
        Option.bind (field_into str_into (ls_router cur) ''router'' ms) (\<lambda>r.
        Option.bind (times_into lenient (ls_valid_until cur) (texts_named ''valid_until'' ts)) (\<lambda>t.
        Some \<lparr>ls_generation = g, ls_sequence = n, ls_address = a, ls_prefix = p, ls_router = r, ls_valid_until = t\<rparr>)))))))"

section \<open>Reading the file\<close>

text \<open>
  \<open>Lstat\<close> (whether the file is regular, its permissions and size), whether it opens, whether the
  open file is the same one (None where \<open>Stat\<close> fails), and its content (None where reading fails).
\<close>

record status_view =
  sv_before :: "(bool \<times> nat \<times> int) option"
  sv_opens :: bool
  sv_same :: "bool option"
  sv_content :: "string option"

definition read_status :: "(string \<Rightarrow> int option) \<Rightarrow> status_view \<Rightarrow> int \<Rightarrow> (string, status) result" where
  "read_status lenient v now =
     (case sv_before v of
        None \<Rightarrow> Inl ''network status unavailable''
      | Some (regular, perm, n) \<Rightarrow>
          guard (\<not> regular \<or> perm AND 18 \<noteq> 0 \<or> 2048 < n) ''network status unavailable'' (
          guard (\<not> sv_opens v) ''network status unavailable'' (
          guard (sv_same v \<noteq> Some True) ''network status replaced'' (
          case map_option (take 2049) (sv_content v) of
            None \<Rightarrow> Inl ''invalid network status''
          | Some data \<Rightarrow>
              guard (2048 < length data) ''invalid network status'' (
              case parse_value data of
                None \<Rightarrow> Inl ''invalid network status''
              | Some (j, rest) \<Rightarrow>
                  (case struct_into (status_fields lenient (object_texts data)) zero_status j of
                     None \<Rightarrow> Inl ''invalid network status''
                   | Some s \<Rightarrow>
                       guard (skip_ws rest \<noteq> []) ''trailing network status'' (
                       bind (status_valid now s) (\<lambda>_. Inr s))))))))"

section \<open>What the agent writes\<close>

text \<open>\<open>json.Marshal\<close> of the status, in a time zone of so many minutes.\<close>

definition status_json :: "status \<Rightarrow> string \<Rightarrow> json" where
  "status_json s time = JObj
     [(''generation'', JStr (ls_generation s)), (''sequence'', JNum (dec_text (unat (ls_sequence s)))),
      (''address'', JStr (ls_address s)), (''prefix'', JNum (int_text (ls_prefix s))), (''router'', JStr (ls_router s)),
      (''valid_until'', JStr time)]"

definition status_text :: "int \<Rightarrow> status \<Rightarrow> string option" where
  "status_text off s = map_option (\<lambda>time. marshal (status_json s time)) (time_text off (ls_valid_until s))"

section \<open>Texts that are printed as they are\<close>

definition plain_char :: "char \<Rightarrow> bool" where "plain_char c \<longleftrightarrow> ascii c \<and> quote_char c = [c]"

abbreviation plain :: "string \<Rightarrow> bool" where "plain s \<equiv> list_all plain_char s"

lemma quote_char_plain: "35 \<le> cbyte c \<Longrightarrow> cbyte c < 128 \<Longrightarrow> cbyte c \<notin> {38, 60, 62, 92} \<Longrightarrow> quote_char c = [c]"
proof -
  assume c: "35 \<le> cbyte c" "cbyte c < 128" "cbyte c \<notin> {38, 60, 62, 92}"
  have "c \<noteq> CHR 0x22" "c \<noteq> CHR 0x5C" "c \<noteq> CHR 0x08" "c \<noteq> CHR 0x0C" "c \<noteq> CHR 0x0A" "c \<noteq> CHR 0x0D" "c \<noteq> CHR 0x09"
    "c \<noteq> CHR ''<''" "c \<noteq> CHR ''>''" "c \<noteq> CHR ''&''"
    using c by (safe; simp add: cbyte_def)+
  then show ?thesis using c by (simp add: quote_char_def)
qed

lemma plain_charI [intro]: "digit c \<Longrightarrow> plain_char c" "in_range 97 102 c \<Longrightarrow> plain_char c"
  using quote_char_plain[of c] by (auto simp: plain_char_def ascii_def digit_def in_range_def)

lemma plain_marks [simp]:
  "plain_char (CHR ''.'')" "plain_char (CHR ''-'')" "plain_char (CHR '':'')" "plain_char (CHR ''+'')"
  "plain_char (CHR ''T'')" "plain_char (CHR ''Z'')"
  by (simp_all add: plain_char_def quote_char_plain ascii_def cbyte_def)

lemma plain_quote: "plain s \<Longrightarrow> json_quote s = CHR 0x22 # s @ [CHR 0x22]" "plain s \<Longrightarrow> clean_text s = s"
  using quote_plain[of s] clean_ascii[of s] by (simp_all add: plain_char_def json_quote_def list_all_iff)

lemma plain_digits [simp]: "plain (digits k n)"
  using digits_all[of k n] by (auto simp: list_all_iff)

lemma plain_time: "time_text off t = Some s \<Longrightarrow> plain s \<and> length s \<le> 35"
proof -
  have "plain (fraction_text n) \<and> length (fraction_text n) \<le> 10" for n
  proof -
    have "list_all digit (rev (dropWhile (\<lambda>c. c = CHR ''0'') (rev (digits 9 n))))"
      using digits_all[of 9 n] by (auto simp: list_all_iff dest: set_dropWhileD)
    then have "plain (rev (dropWhile (\<lambda>c. c = CHR ''0'') (rev (digits 9 n))))" by (auto simp: list_all_iff)
    moreover have "length (dropWhile (\<lambda>c. c = CHR ''0'') (rev (digits 9 n))) \<le> 9"
      using length_dropWhile_le[of _ "rev (digits 9 n)"] by (metis digits_length length_rev)
    ultimately show ?thesis by (simp add: fraction_text_def)
  qed
  moreover have "plain (zone_text off) \<and> length (zone_text off) \<le> 6"
    by (simp add: zone_text_def)
  moreover have "plain (clock_text y m k r)" for y m k r
    by (simp add: clock_text_def)
  moreover assume t: "time_text off t = Some s"
  moreover obtain y m k where "civil (nat ((t + off * minute) div day + 366)) = (y, m, k)" by (metis prod_cases3)
  then have "\<exists>r n. s = clock_text y m k r @ fraction_text n @ zone_text off"
    using t by (simp add: time_text_def Let_def split: if_splits) blast
  then obtain r n where "s = clock_text y m k r @ fraction_text n @ zone_text off" by blast
  ultimately show ?thesis using add_mono[of "length (fraction_text n)" 10 "length (zone_text off)" 6]
    by (simp add: clock_length)
qed

lemma split_char_sizes:
  "length s + 1 = sum_list (map (\<lambda>x. length x + 1) (split_char d s))" "set s \<subseteq> insert d (\<Union> (set ` set (split_char d s)))"
proof -
  show "length s + 1 = sum_list (map (\<lambda>x. length x + 1) (split_char d s))" by (induction s) (auto split: list.splits)
  show "set s \<subseteq> insert d (\<Union> (set ` set (split_char d s)))"
  proof (induction s)
    case (Cons a s)
    then show ?case by (cases "split_char d s") auto
  qed simp
qed

lemma sequence_option_map: "sequence_option (map f xs) = Some ys \<Longrightarrow> length ys = length xs \<and> list_all (\<lambda>x. f x \<noteq> None) xs"
proof (induction xs arbitrary: ys)
  case (Cons x xs)
  then show ?case by (cases "f x") (auto simp: map_option_case split: option.splits)
qed simp

lemma ip4_plain:
  assumes "parse_ip4 s = Some q"
  shows "plain s \<and> length s \<le> 15"
proof -
  let ?parts = "split_char (CHR ''.'') s"
  have n: "length ?parts = 4" and o: "list_all (\<lambda>x. parse_octet x \<noteq> None) ?parts"
    using assms sequence_option_map[of parse_octet ?parts] by (auto simp: parse_ip4_def split: option.splits if_splits)
  then have o: "list_all (\<lambda>x. length x \<le> 3 \<and> list_all digit x) ?parts"
    by (auto simp: list_all_iff parse_octet_def digit_text_def digit_def split: if_splits)
  have "plain_char c" if "c \<in> set s" for c
  proof -
    have "c = CHR ''.'' \<or> (\<exists>x \<in> set ?parts. c \<in> set x)" using that split_char_sizes(2)[of s "CHR ''.''"] by blast
    then show ?thesis using o by (auto simp: list_all_iff)
  qed
  then have "plain s" by (simp add: list_all_iff)
  moreover obtain a b c d where p: "?parts = [a, b, c, d]" using n by (auto simp: numeral_eq_Suc length_Suc_conv)
  have "length s \<le> 15" using split_char_sizes(1)[of s "CHR ''.''"] o unfolding p by simp
  ultimately show ?thesis by blast
qed

lemma usable_plain:
  assumes "usable_address s = Some q"
  shows "plain s \<and> length s \<le> 15"
proof -
  have four: "parse_ip s = Some q" "length q = 4"
    using assms by (auto simp: usable_address_def usable_def split: option.splits if_splits)
  moreover have "16 \<le> length r" if "ip6_expand p = Some r" for p r
    using that by (auto simp: ip6_expand_def split: prod.splits option.splits if_splits)
  ultimately have "parse_ip4 s = Some q"
    by (force simp: parse_ip_def parse_ip6_def bind_eq_Some_conv split: list.splits if_splits)
  then show ?thesis by (rule ip4_plain)
qed

text \<open>A status with a generation and addresses of the agent's, which it has where it is valid.\<close>

definition formed_status :: "status \<Rightarrow> bool" where
  "formed_status s \<longleftrightarrow>
     length (ls_generation s) = 32 \<and> list_all (\<lambda>c. in_range 48 57 c \<or> in_range 97 102 c) (ls_generation s) \<and>
     validate_address (ls_address s) (ls_prefix s) (ls_router s) = Inr ()"

lemma formed_status_plain:
  assumes "formed_status s"
  shows "plain (ls_generation s)" "length (ls_generation s) = 32" "plain (ls_address s)" "length (ls_address s) \<le> 15"
    "plain (ls_router s)" "length (ls_router s) \<le> 15" "1 \<le> ls_prefix s" "ls_prefix s \<le> 30"
proof -
  have v: "length (ls_generation s) = 32" "list_all (\<lambda>c. in_range 48 57 c \<or> in_range 97 102 c) (ls_generation s)"
    "validate_address (ls_address s) (ls_prefix s) (ls_router s) = Inr ()"
    using assms by (simp_all add: formed_status_def)
  from v(3) obtain ip r where u: "usable_address (ls_address s) = Some ip" "usable_address (ls_router s) = Some r"
    "1 \<le> ls_prefix s" "ls_prefix s \<le> 30"
    unfolding validate_address_exact by blast
  show "length (ls_generation s) = 32" "plain (ls_address s)" "length (ls_address s) \<le> 15" "plain (ls_router s)"
    "length (ls_router s) \<le> 15" "1 \<le> ls_prefix s" "ls_prefix s \<le> 30"
    using v u usable_plain by auto
  show "plain (ls_generation s)" using v(2) by (auto simp: list_all_iff intro: plain_charI(2) plain_charI(1)[unfolded digit_def])
qed

section \<open>Reading what was written\<close>

lemma member_texts_one:
  assumes "has_text j" "stops (d # ds)" "\<not> json_space d"
  shows "member_texts (json_quote k @ '':'' @ marshal j @ d # ds) =
    (clean_text k, marshal j) # (if d = CHR '','' then member_texts ds else [])"
proof -
  have read: "parse_value (marshal j @ d # ds) = Some (clean_json j, d # ds)"
    unfolding marshal_def by (rule parse_print[OF layouts_ok(1) assms(1,2)])
  have "\<exists>c cs. marshal j = c # cs \<and> \<not> json_space c"
    using print_head[OF assms(1)] unfolding marshal_def by blast
  then have body: "skip_ws (marshal j @ d # ds) = marshal j @ d # ds" by (auto simp: skip_ws_stop)
  have colon: "\<not> json_space (CHR '':'')" by (simp add: json_space_def)
  show ?thesis
    by (subst member_texts.simps)
      (simp add: json_quote_def read_json_quoted skip_ws_stop body read colon assms(3))
qed

lemma member_texts_print:
  assumes "ms \<noteq> []" "list_all (\<lambda>m. has_text (snd m)) ms"
  shows "member_texts (join_texts '','' (map (\<lambda>m. json_quote (fst m) @ '':'' @ marshal (snd m)) ms) @ CHR ''}'' # t) =
    map (\<lambda>m. (clean_text (fst m), marshal (snd m))) ms"
  using assms
proof (induction ms rule: induct_list012)
  case (2 m)
  then show ?case using member_texts_one[of "snd m" "CHR ''}''" t "fst m"] by (simp add: stops_def json_space_def)
next
  case (3 m n ms)
  let ?rest = "join_texts '','' (map (\<lambda>m. json_quote (fst m) @ '':'' @ marshal (snd m)) (n # ms)) @ CHR ''}'' # t"
  have "member_texts (json_quote (fst m) @ '':'' @ marshal (snd m) @ CHR '','' # ?rest) =
      (clean_text (fst m), marshal (snd m)) # member_texts ?rest"
    using member_texts_one[of "snd m" "CHR '',''" ?rest "fst m"] 3 by (simp add: stops_def json_space_def)
  then show ?case using 3 by simp
qed simp

definition flat :: "json \<Rightarrow> bool" where
  "flat j \<longleftrightarrow> (case j of JArr xs \<Rightarrow> False | JObj ms \<Rightarrow> False | _ \<Rightarrow> True)"

lemma marshal_flat: "flat j \<Longrightarrow> print_json nl colon d j = marshal j"
  by (cases j) (simp_all add: flat_def marshal_def)

lemma marshal_object:
  assumes "ms \<noteq> []" "list_all (\<lambda>m. flat (snd m)) ms"
  shows "marshal (JObj ms) = CHR ''{'' # join_texts '','' (map (\<lambda>m. json_quote (fst m) @ '':'' @ marshal (snd m)) ms) @ ''}''"
proof -
  have "map (\<lambda>m. json_quote (fst m) @ '':'' @ print_json (\<lambda>d. []) '':'' (Suc 0) (snd m)) ms =
      map (\<lambda>m. json_quote (fst m) @ '':'' @ marshal (snd m)) ms"
    using assms(2) by (auto simp: list_all_iff marshal_flat)
  then show ?thesis using assms(1) by (simp add: marshal_def[of "JObj ms"] cong: map_cong)
qed

lemma object_texts_print:
  assumes "ms \<noteq> []" "list_all (\<lambda>m. flat (snd m) \<and> has_text (snd m)) ms"
  shows "object_texts (marshal (JObj ms)) = map (\<lambda>m. (clean_text (fst m), marshal (snd m))) ms"
proof -
  have "marshal (JObj ms) = CHR ''{'' # join_texts '','' (map (\<lambda>m. json_quote (fst m) @ '':'' @ marshal (snd m)) ms) @ ''}''"
    using assms by (intro marshal_object) (auto simp: list_all_iff)
  then show ?thesis using assms member_texts_print[of ms "[]"]
    by (simp add: object_texts_def skip_ws_stop json_space_def list_all_iff)
qed

lemma parse_uint64_text: "parse_uint64 (dec_text (unat n)) = Some n"
proof -
  have "unat n < 2 ^ LENGTH(64)" by (rule unsigned_less)
  then show ?thesis by (simp add: parse_uint64_def dec_value_text dec_text_digits)
qed

lemma dec_text_size: "n < 10 ^ Suc k \<Longrightarrow> length (dec_text n) \<le> Suc k"
proof (induction k arbitrary: n)
  case (Suc k)
  then have "length (dec_text (n div 10)) \<le> Suc k" by (simp add: less_mult_imp_div_less)
  then show ?case by (subst dec_text.simps) simp
qed (subst dec_text.simps, simp)

lemma marshal_text [simp]: "marshal (JStr s) = json_quote s" "marshal (JNum t) = t"
  by (simp_all add: marshal_def)

lemma number_dec [simp]: "number_ok (dec_text n)"
  using number_ok_int[of "int n"] by (simp add: int_text_def)

lemma status_names:
  "list_all plain status_members" "list_all (list_all ascii) status_members"
  by (simp_all add: status_members_def plain_char_def quote_char_plain ascii_def cbyte_def)

text \<open>The members of the printed status, each of which is read once.\<close>

lemma status_members_read:
  assumes "plain (ls_generation s)" "plain (ls_address s)" "plain (ls_router s)" "plain time" "parse_time lenient time = Some (ls_valid_until s)"
    and "parse_int64 (int_text (ls_prefix s)) = Some (ls_prefix s)"
  shows "parse_value (marshal (status_json s time)) = Some (clean_json (status_json s time), [])"
    "struct_into (status_fields lenient (object_texts (marshal (status_json s time)))) zero_status (clean_json (status_json s time)) = Some s"
proof -
  show "parse_value (marshal (status_json s time)) = Some (clean_json (status_json s time), [])"
    using parse_print[OF layouts_ok(1), of "status_json s time" "[]" 0] by (simp add: status_json_def marshal_def stops_def)
  have clean: "clean_text n = n" if "n \<in> set status_members" for n
    using status_names(1) that by (auto simp: list_all_iff intro: plain_quote(2))
  define ms where "ms = [(''generation'', JStr (ls_generation s)), (''sequence'', JNum (dec_text (unat (ls_sequence s)))),
      (''address'', JStr (ls_address s)), (''prefix'', JNum (int_text (ls_prefix s))), (''router'', JStr (ls_router s)),
      (''valid_until'', JStr time)]"
  have j: "status_json s time = JObj ms" by (simp add: status_json_def ms_def)
  have cleaned: "clean_json (status_json s time) = JObj ms"
    using clean assms(1-4) by (simp add: status_json_def ms_def status_members_def plain_quote(2))
  have "object_texts (marshal (JObj ms)) = map (\<lambda>m. (clean_text (fst m), marshal (snd m))) ms"
    by (rule object_texts_print) (simp_all add: ms_def flat_def)
  also have "\<dots> = map (\<lambda>m. (fst m, marshal (snd m))) ms"
    using clean by (simp add: ms_def status_members_def)
  finally have texts: "object_texts (marshal (JObj ms)) = map (\<lambda>m. (fst m, marshal (snd m))) ms" .
  have named: "members_named ''generation'' ms = [JStr (ls_generation s)]"
    "members_named ''sequence'' ms = [JNum (dec_text (unat (ls_sequence s)))]"
    "members_named ''address'' ms = [JStr (ls_address s)]" "members_named ''prefix'' ms = [JNum (int_text (ls_prefix s))]"
    "members_named ''router'' ms = [JStr (ls_router s)]"
    "texts_named ''valid_until'' (map (\<lambda>m. (fst m, marshal (snd m))) ms) = [json_quote time]"
    by (simp_all add: ms_def members_named_def texts_named_def key_simps)
  have "only_fields status_members ms"
    by (simp add: only_fields_def ms_def status_members_def field_matches_def)
  moreover have "times_into lenient t [json_quote time] = Some (ls_valid_until s)" for t
    using assms(5) by (simp add: plain_quote(1)[OF assms(4)] time_into_def)
  ultimately show "struct_into (status_fields lenient (object_texts (marshal (status_json s time)))) zero_status (clean_json (status_json s time)) = Some s"
    unfolding cleaned unfolding j texts
    by (simp add: struct_into_def status_fields_def named field_into_one str_into_def uint_into_def int_into_def
        parse_uint64_text assms(6))
qed

lemma json_quote_size: "plain s \<Longrightarrow> length (json_quote s) = length s + 2"
  by (simp add: plain_quote(1))

lemma status_text_size:
  assumes "plain (ls_generation s)" "length (ls_generation s) = 32" "plain (ls_address s)" "length (ls_address s) \<le> 15"
    "plain (ls_router s)" "length (ls_router s) \<le> 15" "1 \<le> ls_prefix s" "ls_prefix s \<le> 30" "plain time" "length time \<le> 35"
  shows "length (marshal (status_json s time)) \<le> 256"
proof -
  have "unat (ls_sequence s) < 2 ^ LENGTH(64)" by (rule unsigned_less)
  then have "length (dec_text (unat (ls_sequence s))) \<le> Suc 19" by (intro dec_text_size) simp
  moreover have "length (int_text (ls_prefix s)) \<le> Suc 1"
    using assms(7,8) dec_text_size[of "nat (ls_prefix s)" 1] by (simp add: int_text_def)
  moreover have "length (json_quote n) = length n + 2" if "n \<in> set status_members" for n
    using status_names(1) that by (auto simp: list_all_iff json_quote_size)
  ultimately show ?thesis using assms
    by (simp add: status_json_def marshal_object flat_def status_members_def json_quote_size)
qed

text \<open>The file the agent publishes: what it wrote, readable by all and writable by its owner.\<close>

definition published :: "string \<Rightarrow> status_view" where
  "published data = \<lparr>sv_before = Some (True, 420, int (length data)), sv_opens = True, sv_same = Some True, sv_content = Some data\<rparr>"

lemma valid_status_formed: "status_valid now s = Inr () \<Longrightarrow> formed_status s"
  unfolding status_valid_def guard_def formed_status_def by (metis Inl_Inr_False)

lemma read_published:
  assumes "formed_status s" "status_text off s = Some data"
  shows "read_status lenient (published data) now = bind (status_valid now s) (\<lambda>_. Inr s)"
proof -
  obtain time where t: "time_text off (ls_valid_until s) = Some time" "data = marshal (status_json s time)"
    using assms(2) by (auto simp: status_text_def)
  note v = formed_status_plain[OF assms(1)] and p = plain_time[OF t(1)]
  have "length data \<le> 256" unfolding t(2) using v p by (intro status_text_size) auto
  moreover have "parse_time lenient time = Some (ls_valid_until s)" using time_roundtrip[OF t(1)] by (simp add: parse_time_def)
  moreover have "parse_int64 (int_text (ls_prefix s)) = Some (ls_prefix s)" using v(7,8) by (intro parse_int_text) auto
  moreover have "(420 :: nat) AND 18 = 0" by simp
  ultimately show ?thesis
    using status_members_read[of s time lenient] v p unfolding t(2)[symmetric]
    by (simp add: read_status_def published_def guard_def skip_ws_def)
qed

text \<open>
  C15: What the agent writes is what the gateway reads.  The text of a status with a generation and
  addresses of the agent's, in whatever time zone, is decoded to that status, to the nanosecond of
  its deadline, and then accepted or refused as that status is at the time of the reading.
\<close>

theorem status_handoff:
  assumes "formed_status s" "status_text off s = Some data"
  shows "read_status lenient (published data) now = bind (status_valid now s) (\<lambda>_. Inr s)"
  using assms by (rule read_published)

definition sample_status :: status where
  "sample_status = \<lparr>ls_generation = replicate 32 (CHR ''a''), ls_sequence = 10, ls_address = ''192.0.2.30'', ls_prefix = 24,
     ls_router = ''192.0.2.1'', ls_valid_until = 64000000000 * second + 500000000\<rparr>"

lemma sample_formed: "formed_status sample_status"
proof -
  have "usable_address ''192.0.2.30'' = Some [192, 0, 2, 30]" "usable_address ''192.0.2.1'' = Some [192, 0, 2, 1]" by code_simp+
  then have "validate_address ''192.0.2.30'' 24 ''192.0.2.1'' = Inr ()"
    unfolding validate_address_hosts by (simp add: network_number_def host_number_def be_value_def)
  then show ?thesis by (simp add: formed_status_def sample_status_def list_all_iff in_range_def cbyte_def)
qed

theorem status_handoff_witness:
  "\<exists>data. status_text 120 sample_status = Some data \<and>
     read_status (\<lambda>s. None) (published data) (64000000000 * second) = Inr sample_status"
proof -
  have "time_text 120 (ls_valid_until sample_status) \<noteq> None"
    by (rule time_text_total) (simp_all add: sample_status_def day_def minute_def second_def)
  then obtain data where d: "status_text 120 sample_status = Some data" by (auto simp: status_text_def)
  have "status_valid (64000000000 * second) sample_status = Inr ()"
    using sample_formed by (simp add: formed_status_def status_valid_def guard_def) (simp add: sample_status_def second_def)
  then show ?thesis
    using d status_handoff[OF sample_formed d, of "\<lambda>s. None" "64000000000 * second"] by (simp add: bind_def)
qed

end
