(* ===== verification/ManagedRun.thy ===== *)
theory ManagedRun
  imports StatusFile NetRunFacts GatewayStart
begin

text \<open>
  \<open>cmd/nut-2-unifi-ups-gateway/managed.go\<close>: the gateway on a network that the agent manages.  It is
  started when the status file can be read, under the address in it, and a watcher cancels it when
  the file goes away, names another network or is not renewed.
\<close>

section \<open>The watcher\<close>

text \<open>
  A turn: whether the pause ended by its timer (and not by the context), the wall clock, by which a
  status is valid, the monotonic clock, by which it is fresh, and the file.
\<close>

record watch_turn =
  wt_paused :: bool
  wt_now :: int
  wt_clock :: int
  wt_view :: status_view

text \<open>Whether the watcher still watches after the turns; when it returns, it cancels the gateway.\<close>

fun watch_network :: "(string \<Rightarrow> int option) \<Rightarrow> status \<Rightarrow> u64 \<Rightarrow> int \<Rightarrow> watch_turn list \<Rightarrow> bool" where
  "watch_network lenient initial seen advanced [] = True"
| "watch_network lenient initial seen advanced (w # ws) =
     (if \<not> wt_paused w then False
      else case read_status lenient (wt_view w) (wt_now w) of
        Inl e \<Rightarrow> False
      | Inr s \<Rightarrow>
          if \<not> same_network s initial \<or> ls_sequence s < seen then False
          else let seen' = (if seen < ls_sequence s then ls_sequence s else seen);
                   advanced' = (if seen < ls_sequence s then wt_clock w else advanced)
               in if 3 * second < time_sub (wt_clock w) advanced' then False
                  else watch_network lenient initial seen' advanced' ws)"

section \<open>The loop\<close>

text \<open>The configuration under the address of the status.\<close>

definition at_address :: "config \<Rightarrow> status \<Rightarrow> config" where
  "at_address cfg s = cfg\<lparr>c_device := (c_device cfg)\<lparr>cd_ip := ls_address s\<rparr>\<rparr>"

text \<open>
  One turn of the loop: whether the context is cancelled at its head, the file and the time, what the
  construction meets, what \<open>Run\<close> makes of the gateway (its seen state, whether it failed and whether
  its context was cancelled by then), whether the context is cancelled after it, and whether a pause
  ends by its timer.
\<close>

record managed_turn =
  mt_cancelled :: bool
  mt_view :: status_view
  mt_now :: int
  mt_start :: start_env
  mt_run :: "gateway \<Rightarrow> gateway \<times> bool \<times> bool"
  mt_stopped :: bool
  mt_paused :: bool

datatype managed_outcome = Exit int disk | Loop disk

definition managed_service :: "managed_turn \<Rightarrow> gateway \<Rightarrow> managed_outcome" where
  "managed_service t g =
     (case mt_run t g of (h, failed, cancelled) \<Rightarrow>
        if failed \<and> \<not> cancelled then Exit 1 (g_disk h)
        else if \<not> mt_stopped t \<and> \<not> mt_paused t then Exit 0 (g_disk h)
        else Loop (g_disk h))"

definition managed_step :: "primitives \<Rightarrow> (string \<Rightarrow> int option) \<Rightarrow> config \<Rightarrow> managed_turn \<Rightarrow> disk \<Rightarrow> managed_outcome" where
  "managed_step pm lenient cfg t dk =
     (if mt_cancelled t then Exit 0 dk
      else case read_status lenient (mt_view t) (mt_now t) of
        Inl e \<Rightarrow> if mt_paused t then Loop dk else Exit 0 dk
      | Inr s \<Rightarrow>
          (case new_gateway pm (at_address cfg s) (mt_start t) dk of
             (Inl e, dk') \<Rightarrow> Exit 1 dk'
           | (Inr g, dk') \<Rightarrow> managed_service t g))"

text \<open>The exit code, or None while the loop goes on after the turns.\<close>

fun run_managed :: "primitives \<Rightarrow> (string \<Rightarrow> int option) \<Rightarrow> config \<Rightarrow> managed_turn list \<Rightarrow> disk \<Rightarrow> int option \<times> disk" where
  "run_managed pm lenient cfg [] dk = (None, dk)"
| "run_managed pm lenient cfg (t # ts) dk =
     (case managed_step pm lenient cfg t dk of
        Exit code dk' \<Rightarrow> (Some code, dk')
      | Loop dk' \<Rightarrow> run_managed pm lenient cfg ts dk')"

section \<open>What a watcher that goes on has seen\<close>

lemma fresh_iff: "\<not> 3 * second < time_sub x y \<longleftrightarrow> x - y \<le> 3 * second"
  by (auto simp: time_sub_def second_def)

text \<open>When each sequence number was first seen, the one of the start included.\<close>

definition beats :: "u64 \<Rightarrow> int \<Rightarrow> status list \<Rightarrow> watch_turn list \<Rightarrow> (u64 \<times> int) list" where
  "beats seen advanced ss ws = (seen, advanced) # zip (map ls_sequence ss) (map wt_clock ws)"

definition fresh_beats :: "(u64 \<times> int) list \<Rightarrow> bool" where
  "fresh_beats bs \<longleftrightarrow> (\<forall>(q, t) \<in> set bs. \<exists>first. map_of bs q = Some first \<and> t - first \<le> 3 * second)"

lemma fresh_beats_Cons:
  assumes "seen \<le> q" "\<forall>(r, t) \<in> set bs. q \<le> r"
  shows "fresh_beats ((seen, a) # (q, t) # bs) \<longleftrightarrow>
    t - (if seen < q then t else a) \<le> 3 * second \<and> fresh_beats ((q, if seen < q then t else a) # bs)"
proof (cases "seen < q")
  case True
  then have "r \<noteq> seen" if "(r, u) \<in> set bs" for r u using assms(2) that by fastforce
  then have "map_of ((seen, a) # (q, t) # bs) r = map_of ((q, t) # bs) r" if "(r, u) \<in> set ((q, t) # bs)" for r u
    using that True by auto
  then show ?thesis using True by (fastforce simp: fresh_beats_def second_def)
next
  case False
  then have "seen = q" using assms(1) by simp
  then show ?thesis by (fastforce simp: fresh_beats_def second_def)
qed

lemma watch_iff:
  "watch_network lenient initial seen advanced ws \<longleftrightarrow>
     (\<exists>ss. map (\<lambda>w. read_status lenient (wt_view w) (wt_now w)) ws = map Inr ss \<and> list_all wt_paused ws \<and>
        list_all (\<lambda>s. same_network s initial) ss \<and> sorted (seen # map ls_sequence ss) \<and> fresh_beats (beats seen advanced ss ws))"
proof (induction ws arbitrary: seen advanced)
  case Nil
  then show ?case by (simp add: beats_def fresh_beats_def second_def)
next
  case (Cons w ws)
  show ?case
  proof (cases "read_status lenient (wt_view w) (wt_now w)")
    case (Inl e)
    have "map (\<lambda>w. read_status lenient (wt_view w) (wt_now w)) (w # ws) \<noteq> map Inr ss" for ss
      using Inl by (cases ss) simp_all
    then show ?thesis using Inl by simp
  next
    case (Inr s)
    let ?q = "ls_sequence s"
    let ?a = "if seen < ?q then wt_clock w else advanced"
    have max: "(if seen < ?q then ?q else seen) = ?q" if "seen \<le> ?q" using that by simp
    have step: "watch_network lenient initial seen advanced (w # ws) \<longleftrightarrow>
        wt_paused w \<and> same_network s initial \<and> seen \<le> ?q \<and> wt_clock w - ?a \<le> 3 * second \<and>
        watch_network lenient initial ?q ?a ws"
      using max fresh_iff[of "wt_clock w" ?a] Inr by (auto simp: Let_def not_less)
    have beat: "fresh_beats (beats seen advanced (s # ss) (w # ws)) \<longleftrightarrow>
        wt_clock w - ?a \<le> 3 * second \<and> fresh_beats (beats ?q ?a ss ws)"
      if "seen \<le> ?q" "sorted (?q # map ls_sequence ss)" for ss
      unfolding beats_def list.map zip_Cons_Cons
      by (rule fresh_beats_Cons[OF that(1)]) (use that(2) in \<open>fastforce dest: set_zip_leftD\<close>)
    show ?thesis
    proof
      assume "watch_network lenient initial seen advanced (w # ws)"
      with step Cons.IH[of ?q ?a] obtain ss where
        ss: "map (\<lambda>w. read_status lenient (wt_view w) (wt_now w)) ws = map Inr ss" "list_all wt_paused ws"
          "list_all (\<lambda>s. same_network s initial) ss" "sorted (?q # map ls_sequence ss)" "fresh_beats (beats ?q ?a ss ws)"
        and s: "wt_paused w" "same_network s initial" "seen \<le> ?q" "wt_clock w - ?a \<le> 3 * second" by blast
      show "\<exists>ss. map (\<lambda>w. read_status lenient (wt_view w) (wt_now w)) (w # ws) = map Inr ss \<and> list_all wt_paused (w # ws) \<and>
          list_all (\<lambda>s. same_network s initial) ss \<and> sorted (seen # map ls_sequence ss) \<and>
          fresh_beats (beats seen advanced ss (w # ws))"
        by (rule exI[of _ "s # ss"]) (use ss s Inr beat[OF s(3) ss(4)] in auto)
    next
      assume "\<exists>ss. map (\<lambda>w. read_status lenient (wt_view w) (wt_now w)) (w # ws) = map Inr ss \<and> list_all wt_paused (w # ws) \<and>
          list_all (\<lambda>s. same_network s initial) ss \<and> sorted (seen # map ls_sequence ss) \<and>
          fresh_beats (beats seen advanced ss (w # ws))"
      then obtain ss where r: "map (\<lambda>w. read_status lenient (wt_view w) (wt_now w)) ws = map Inr ss" "list_all wt_paused (w # ws)"
          "list_all (\<lambda>s. same_network s initial) (s # ss)" "sorted (seen # map ls_sequence (s # ss))"
          "fresh_beats (beats seen advanced (s # ss) (w # ws))"
        using Inr by (auto simp: Cons_eq_map_conv)
      moreover have "seen \<le> ?q" "sorted (?q # map ls_sequence ss)" using r(4) by simp_all
      ultimately show "watch_network lenient initial seen advanced (w # ws)"
        unfolding step Cons.IH[of ?q ?a] using beat[of ss] by auto
    qed
  qed
qed

text \<open>
  C17: The watcher keeps the gateway running exactly as long as the agent stands behind it: every
  pause ended by its timer, every reading gave a valid status of the network the gateway was
  started on, the sequence numbers never fell, and each was first seen at most three seconds of the
  monotonic clock before.
\<close>

theorem watcher_exact:
  "watch_network lenient initial seen advanced ws \<longleftrightarrow>
     (\<exists>ss. map (\<lambda>w. read_status lenient (wt_view w) (wt_now w)) ws = map Inr ss \<and> list_all wt_paused ws \<and>
        list_all (\<lambda>s. same_network s initial) ss \<and> sorted (seen # map ls_sequence ss) \<and> fresh_beats (beats seen advanced ss ws))"
  by (rule watch_iff)

section \<open>The agent and the watcher\<close>

text \<open>The file as the gateway finds it: the text of what the agent published, in its time zone, or none.\<close>

definition no_file :: status_view where
  "no_file = \<lparr>sv_before = None, sv_opens = False, sv_same = None, sv_content = None\<rparr>"

definition agent_file :: "int \<Rightarrow> owner \<Rightarrow> status_view" where
  "agent_file off o1 =
     (case Option.bind (ow_file o1) (status_text off) of None \<Rightarrow> no_file | Some data \<Rightarrow> published data)"

lemma lease_status_formed: "status_of_lease s l \<Longrightarrow> lease_ok l \<Longrightarrow> formed_status s"
  by (simp add: status_of_lease_def lease_ok_def formed_status_def)

lemma agent_file_read:
  assumes "owner_ok o1" "read_status lenient (agent_file off o1) now = Inr s"
  shows "ow_file o1 = Some s \<and> status_of_lease s (ow_lease o1) \<and> lease_ok (ow_lease o1) \<and>
    (now < ow_expires o1 \<or> ow_expires o1 + (2 ^ 32 - 6) * second < now)"
proof -
  have "agent_file off o1 \<noteq> no_file" using assms(2) by (auto simp: read_status_def no_file_def)
  then obtain f data where f: "ow_file o1 = Some f" "status_text off f = Some data" "agent_file off o1 = published data"
    by (auto simp: agent_file_def split: option.splits bind_splits)
  have o1: "status_of_lease f (ow_lease o1)" "lease_ok (ow_lease o1)"
    using assms(1) f(1) by (auto simp: owner_ok_def)
  have "bind (status_valid now f) (\<lambda>_. Inr f) = Inr s"
    using read_published[OF lease_status_formed[OF o1(1,2)] f(2)] assms(2) f(3) by simp
  then have "s = f" "status_valid now f = Inr ()" by (auto simp: bind_def split: sum.splits)
  then show ?thesis using f(1) owner_file_accepted[OF assms(1) f(1)] by simp
qed

text \<open>
  C5: The gateway never outlives the lease by more than a turn of its watcher.  Whatever the agent's
  DHCP client has been through, and however long its calls took, a turn of the watcher that finds the
  agent's file goes on only if the agent holds a lease of the very address and router the gateway was
  started on, and that lease has not ended at that time (or ended 136 years before it, where its
  lifetime in seconds has wrapped around 32 bits).  The agent's clock is past the year one.
\<close>

theorem watched_lease:
  assumes "dhcp_run clocked mac (new_dhcp index) c" "wt_view w = agent_file off (cl_owner c)"
    and "watch_network lenient initial seen advanced (w # ws)"
  shows "(wt_now w < ow_expires (cl_owner c) \<or> ow_expires (cl_owner c) + (2 ^ 32 - 6) * second < wt_now w) \<and> lease_ok (ow_lease (cl_owner c)) \<and>
    le_address (ow_lease (cl_owner c)) = ls_address initial \<and> le_router (ow_lease (cl_owner c)) = ls_router initial"
proof -
  obtain s where s: "read_status lenient (agent_file off (cl_owner c)) (wt_now w) = Inr s" "same_network s initial"
    using assms(2,3) by (auto split: if_splits sum.splits)
  have "owner_ok (cl_owner c)" using dhcp_run_ok[OF assms(1) new_dhcp_ok] by (simp add: client_ok_def)
  from agent_file_read[OF this s(1)] s(2) show ?thesis by (simp add: status_of_lease_def same_network_def)
qed

theorem watched_lease_witness:
  "\<exists>c s. dhcp_run clocked demo_mac (new_dhcp 7) c \<and>
     watch_network (\<lambda>x. None) s 0 0 [\<lparr>wt_paused = True, wt_now = 3 * second, wt_clock = 0, wt_view = agent_file 60 (cl_owner c)\<rparr>] \<and>
     lease_ok (ow_lease (cl_owner c)) \<and> le_address (ow_lease (cl_owner c)) = ls_address s"
proof -
  obtain c s where c: "dhcp_run clocked demo_mac (new_dhcp 7) c" "ow_file (cl_owner c) = Some s" "status_valid (3 * second) s = Inr ()"
    using demo_run by blast
  have "ls_valid_until s \<le> 8 * second" "3 * second < ls_valid_until s"
    using c(3) by (auto simp: status_valid_def guard_def second_def split: if_splits)
  then have "time_text 60 (ls_valid_until s) \<noteq> None" by (intro time_text_total) (auto simp: day_def minute_def second_def)
  then obtain data where d: "status_text 60 s = Some data" by (auto simp: status_text_def)
  let ?w = "\<lparr>wt_paused = True, wt_now = 3 * second, wt_clock = 0, wt_view = agent_file 60 (cl_owner c)\<rparr>"
  have "read_status (\<lambda>x. None) (agent_file 60 (cl_owner c)) (3 * second) = Inr s"
    using read_published[OF valid_status_formed[OF c(3)] d, of "\<lambda>x. None" "3 * second"] c(2,3) d by (simp add: agent_file_def bind_def)
  then have "watch_network (\<lambda>x. None) s 0 0 [?w]" by (simp add: same_network_def time_sub_def second_def)
  moreover from this have "lease_ok (ow_lease (cl_owner c)) \<and> le_address (ow_lease (cl_owner c)) = ls_address s"
    using watched_lease[OF c(1), of ?w 60 "\<lambda>x. None" s 0 0 "[]"] by simp
  ultimately show ?thesis using c(1) by blast
qed

section \<open>The exit code\<close>

text \<open>
  The loop ends with an error only where the construction fails or \<open>Run\<close> fails by itself; a status
  that cannot be read is waited for, and a gateway that the watcher cancelled is started again.
\<close>

lemma managed_step_error:
  "managed_step pm lenient cfg t dk = Exit code dk' \<Longrightarrow> code \<noteq> 0 \<Longrightarrow>
     code = 1 \<and> \<not> mt_cancelled t \<and> (\<exists>s. read_status lenient (mt_view t) (mt_now t) = Inr s \<and>
       (case new_gateway pm (at_address cfg s) (mt_start t) dk of
          (Inl e, d) \<Rightarrow> True
        | (Inr g, d) \<Rightarrow> fst (snd (mt_run t g)) \<and> \<not> snd (snd (mt_run t g))))"
  by (auto simp: managed_step_def managed_service_def split: if_splits sum.splits prod.splits)

lemma run_managed_error:
  "run_managed pm lenient cfg ts dk = (Some code, dk') \<Longrightarrow> code \<noteq> 0 \<Longrightarrow>
     \<exists>t \<in> set ts. \<exists>d d'. managed_step pm lenient cfg t d = Exit 1 d'"
proof (induction ts arbitrary: dk)
  case (Cons t ts)
  show ?case
  proof (cases "managed_step pm lenient cfg t dk")
    case (Exit k d)
    then have "code = k" using Cons.prems(1) by simp
    then show ?thesis using managed_step_error[OF Exit] Cons.prems(2) Exit by auto
  next
    case (Loop d)
    then show ?thesis using Cons by fastforce
  qed
qed simp

end
