(* ===== verification/GatewaySections.thy ===== *)
theory GatewaySections
  imports GatewayStart
begin

text \<open>
  What the mutexes of \<open>internal/gateway\<close> really hold together.  \<open>PollOnce\<close> writes the snapshot under
  \<open>g.mu\<close> and reports to the monitor after it; \<open>InformOnce\<close> reads the snapshot in one section, works
  on what only it touches (\<open>informMu\<close>), publishes its result in another and reports to the monitor one
  call at a time.  Here are the section of the poll, the calls of an inform to the monitor in their
  order, and that neither depends on what the other workers do in between.
\<close>

section \<open>The section of a poll\<close>

definition poll_section :: "int \<Rightarrow> ('e, snapshot) result \<Rightarrow> gateway \<Rightarrow> ('e option, unit) result \<times> gateway" where
  "poll_section now polled g =
     (case polled of
        Inl e \<Rightarrow> (Inl (Some e), g\<lparr>g_upstream_ok := False\<rparr>)
      | Inr snap \<Rightarrow>
          if s_availability (map_observation g snap now) \<noteq> Available then (Inl None, g\<lparr>g_upstream_ok := False\<rparr>)
          else (Inr (), g\<lparr>g_latest := snap, g_have_latest := True, g_upstream_ok := True\<rparr>))"

lemma poll_once_section:
  "poll_once now polled g = (case poll_section now polled g of (r, k) \<Rightarrow> (r, monitor_step (mark_poll now (isOk r)) k))"
  by (simp add: poll_once_def poll_section_def isOk_def split: sum.split)

section \<open>The calls to the monitor\<close>

definition reset_receipt_marks :: "gateway \<Rightarrow> health_event list" where
  "reset_receipt_marks g =
     (if \<not> receipts_enabled (c_unifi (g_cfg g)) then []
      else ConfigReceiptSet ReceiptPending # (if g_receipt_blocked g then [ConfigReceiptSet ReceiptStorageError] else []))"

definition reset_firmware_marks :: "gateway \<Rightarrow> health_event list" where
  "reset_firmware_marks g =
     (if \<not> cu_firmware_sync (c_unifi (g_cfg g)) then []
      else FirmwareReceiptSet ReceiptPending #
        (if g_firmware_blocked g \<or> g_receipt_blocked g then [FirmwareReceiptSet ReceiptStorageError] else []))"

definition accept_config_marks :: "config_receipt \<Rightarrow> nonce \<Rightarrow> inform_env \<Rightarrow> gateway \<Rightarrow> health_event list" where
  "accept_config_marks candidate nonce env g =
     (if g_receipt_blocked g \<or> g_receipt_epoch g = [] then [ConfigReceiptSet ReceiptStorageError]
      else IgnoredSet (int (length (cr_unsupported candidate))) #
        (if cr_version candidate = r_version (g_receipt g) \<or> cu_receipts (c_unifi (g_cfg g)) \<noteq> ''persistent''
         then [ConfigReceiptSet (receipt_done g)]
         else if g_receipt_last g \<noteq> 0 \<and> time_sub (ie_now env) (g_receipt_last g) < receipt_write_interval
         then [ConfigReceiptSet ReceiptRateLimited]
         else let next1 = new_receipt (g_receipt_epoch g) (cr_version candidate) (g_receipt g) nonce;
                  (ok, fs) = save_receipt (receipt_file_of (dk_receipt (g_disk g))) (ie_fault env) (ie_written env) next1
                               (dk_receipt (g_disk g))
              in [ConfigReceiptSet (if ok then receipt_done g else ReceiptStorageError)]))"

definition accept_firmware_marks :: "string \<Rightarrow> nonce \<Rightarrow> inform_env \<Rightarrow> gateway \<Rightarrow> health_event list" where
  "accept_firmware_marks version nonce env g =
     (if g_firmware_blocked g \<or> g_receipt_blocked g \<or> g_firmware_epoch g = [] then [FirmwareReceiptSet ReceiptStorageError]
      else if version = r_version (g_firmware g) then [FirmwareReceiptSet ReceiptStored]
      else if g_firmware_last g \<noteq> 0 \<and> time_sub (ie_now env) (g_firmware_last g) < receipt_write_interval
      then [FirmwareReceiptSet ReceiptRateLimited]
      else let next1 = new_receipt (g_firmware_epoch g) version (g_firmware g) nonce;
               (ok, fs) = save_firmware_receipt (receipt_file_of (dk_firmware (g_disk g))) (ie_fault env) (ie_written env) next1
                            (dk_firmware (g_disk g))
           in [FirmwareReceiptSet (if ok then ReceiptStored else ReceiptStorageError)])"

definition commit_marks :: "primitives \<Rightarrow> inform_env \<Rightarrow> mode \<Rightarrow> nonce option \<Rightarrow> adoption_state \<Rightarrow> gateway \<Rightarrow> health_event list" where
  "commit_marks pm env md nonce next1 g =
     (case next_state pm md nonce next1 g of
        Inl e \<Rightarrow> []
      | Inr (p', w') \<Rightarrow>
          (let changed = (next1 \<noteq> adoption_from_state (g_persistent g))
           in if changed \<and> fst (save (ie_fault env) (ie_written env) p' (dk_state (g_disk g))) \<noteq> None then []
              else (if changed then reset_receipt_marks g @ reset_firmware_marks g else []) @
                   [AdoptedSet (ad_adopted (st_adoption p'))]))"

definition apply_marks :: "primitives \<Rightarrow> inform_env \<Rightarrow> mode \<Rightarrow> nonce option \<Rightarrow> string \<Rightarrow> gateway \<Rightarrow> health_event list" where
  "apply_marks pm env md nonce body g =
     (let current = adoption_from_state (g_persistent g);
          receipt_eligible = receipts_eligible g (g_persistent g) md;
          firmware_eligible = (receipt_eligible \<and> cu_firmware_sync (c_unifi (g_cfg g)))
      in case apply_controller_response body current of
           (Inl e, _) \<Rightarrow> []
         | (Inr out, next0) \<Rightarrow>
             if receipt_eligible \<and> Kind out = ResponseSetParam then [ConfigReceiptSet ReceiptRejected]
             else if firmware_eligible \<and> Kind out = ResponseUpgrade then [FirmwareReceiptSet ReceiptRejected]
             else let (next1, out1, volatile) =
                        confine_adopted_plain_http current next0 out md (cu_volatile (c_unifi (g_cfg g)))
                          (set_param_has_only_cfgversion body)
                  in case (if InformURL next1 \<noteq> InformURL current
                           then authorize_transition (InformURL current) (InformURL next1) else Inr ()) of
                       Inl e \<Rightarrow> []
                     | Inr () \<Rightarrow> commit_marks pm env md nonce next1 g)"

definition accept_marks :: "primitives \<Rightarrow> inform_env \<Rightarrow> mode \<Rightarrow> nonce option \<Rightarrow> string \<Rightarrow> gateway \<Rightarrow> health_event list" where
  "accept_marks pm env md nonce body g =
     (let receipt_eligible = receipts_eligible g (g_persistent g) md;
          firmware_eligible = (receipt_eligible \<and> cu_firmware_sync (c_unifi (g_cfg g)));
          n = (case nonce of Some n \<Rightarrow> n | None \<Rightarrow> replicate 16 0) in
      case (if firmware_eligible then classify_firmware_target body else None) of
        Some target \<Rightarrow> accept_firmware_marks target n env g
      | None \<Rightarrow>
          (case (if receipt_eligible then classify_config_receipt body else None) of
             Some candidate \<Rightarrow> accept_config_marks candidate n env g
           | None \<Rightarrow> apply_marks pm env md nonce body g))"

definition handle_marks :: "primitives \<Rightarrow> inform_env \<Rightarrow> mode \<Rightarrow> packet \<Rightarrow> gateway \<Rightarrow> health_event list" where
  "handle_marks pm env md p g =
     (if md = mode_gcm then
        (case p_nonce p of
           None \<Rightarrow> []
         | Some n \<Rightarrow>
             if window_contains (g_replay g) n \<or> receipt_contains (g_receipt g) n \<or> receipt_contains (g_firmware g) n
             then [] else accept_marks pm env md (Some n) (text_of (p_payload p)) g)
      else accept_marks pm env md None (text_of (p_payload p)) g)"

text \<open>The calls of the exchange; the deferred \<open>MarkInform\<close> is the last.\<close>

definition exchange_marks :: "primitives \<Rightarrow> inform_env \<Rightarrow> mode \<Rightarrow> byte list \<Rightarrow> gateway \<Rightarrow> health_event list" where
  "exchange_marks pm env md wire g =
     (case exchange (ie_client env) (ad_url (st_adoption (g_persistent g))) wire of
        Inl e \<Rightarrow> []
      | Inr response \<Rightarrow>
          (case decode (pm_crypto pm) \<lparr>d_limits = \<lparr>MaxWireBody = 0, MaxPlaintext = 0\<rparr>, d_mac = Some (g_mac g), d_mode = Some md\<rparr>
                  response (ad_key (st_adoption (g_persistent g))) of
             Inl e \<Rightarrow> []
           | Inr p \<Rightarrow> handle_marks pm env md p g))"

definition inform_marks :: "primitives \<Rightarrow> inform_env \<Rightarrow> gateway \<Rightarrow> health_event list" where
  "inform_marks pm env g =
     (if \<not> managed_network_current (ie_status env) g then []
      else if \<not> g_have_latest g \<or> \<not> g_upstream_ok g then []
      else let observation = map_observation g (g_latest g) (ie_now env) in
        if s_availability observation \<noteq> Available then []
        else case build_payload (inform_report pm (ie_now env) observation g) of
          Inl e \<Rightarrow> []
        | Inr payload \<Rightarrow>
            (let md = inform_mode g; a = st_adoption (g_persistent g) in
             case sync_window (pm_sha pm) a (g_replay g) of
               (Inl e, _) \<Rightarrow> []
             | (Inr (), w) \<Rightarrow>
                 (case encode (pm_crypto pm) (inform_packet g payload) (ad_key a) md (g_encoder g) of
                    (Inl e, enc) \<Rightarrow> []
                  | (Inr wire, enc) \<Rightarrow>
                      (let h = g\<lparr>g_replay := w, g_encoder := enc\<rparr>; (r, reached, res, k) = exchange_once pm env md wire h
                       in exchange_marks pm env md wire h @ [Informed (ie_now env) reached res]))))"

section \<open>What an inform does not depend on\<close>

text \<open>The gateway with another monitor and another discovery counter.\<close>

definition elsewhere :: "monitor \<Rightarrow> u32 \<Rightarrow> gateway \<Rightarrow> gateway" where
  "elsewhere m n g = g\<lparr>g_monitor := m, g_next_discovery := n\<rparr>"

abbreviation marked :: "health_event list \<Rightarrow> monitor \<Rightarrow> monitor" where
  "marked \<equiv> fold health_step"

lemma elsewhere_fields [simp]:
  "g_cfg (elsewhere m n g) = g_cfg g" "g_encoder (elsewhere m n g) = g_encoder g" "g_network (elsewhere m n g) = g_network g"
  "g_generation (elsewhere m n g) = g_generation g" "g_started (elsewhere m n g) = g_started g" "g_mac (elsewhere m n g) = g_mac g"
  "g_replay (elsewhere m n g) = g_replay g" "g_receipt (elsewhere m n g) = g_receipt g"
  "g_receipt_epoch (elsewhere m n g) = g_receipt_epoch g" "g_receipt_blocked (elsewhere m n g) = g_receipt_blocked g"
  "g_receipt_last (elsewhere m n g) = g_receipt_last g" "g_firmware (elsewhere m n g) = g_firmware g"
  "g_firmware_epoch (elsewhere m n g) = g_firmware_epoch g" "g_firmware_blocked (elsewhere m n g) = g_firmware_blocked g"
  "g_firmware_last (elsewhere m n g) = g_firmware_last g" "g_persistent (elsewhere m n g) = g_persistent g"
  "g_reported_cfg (elsewhere m n g) = g_reported_cfg g" "g_reported_fw (elsewhere m n g) = g_reported_fw g"
  "g_latest (elsewhere m n g) = g_latest g" "g_have_latest (elsewhere m n g) = g_have_latest g"
  "g_upstream_ok (elsewhere m n g) = g_upstream_ok g" "g_last_inform (elsewhere m n g) = g_last_inform g"
  "g_disk (elsewhere m n g) = g_disk g" "g_monitor (elsewhere m n g) = m" "g_next_discovery (elsewhere m n g) = n"
  by (simp_all add: elsewhere_def)

lemma elsewhere_updates:
  "monitor_step f (elsewhere m n g) = elsewhere (f m) n g"
  "(elsewhere m n g)\<lparr>g_receipt := r, g_receipt_epoch := e\<rparr> = elsewhere m n (g\<lparr>g_receipt := r, g_receipt_epoch := e\<rparr>)"
  "(elsewhere m n g)\<lparr>g_receipt_epoch := e\<rparr> = elsewhere m n (g\<lparr>g_receipt_epoch := e\<rparr>)"
  "(elsewhere m n g)\<lparr>g_firmware := r, g_firmware_epoch := e\<rparr> = elsewhere m n (g\<lparr>g_firmware := r, g_firmware_epoch := e\<rparr>)"
  "(elsewhere m n g)\<lparr>g_firmware_epoch := e\<rparr> = elsewhere m n (g\<lparr>g_firmware_epoch := e\<rparr>)"
  "elsewhere m n (monitor_step f g) = elsewhere m n g"
  by (simp_all add: elsewhere_def monitor_step_def)

lemma eligible_elsewhere [simp]:
  "receipts_eligible (elsewhere m n g) s md = receipts_eligible g s md" "receipt_done (elsewhere m n g) = receipt_done g"
  "managed_network_current st (elsewhere m n g) = managed_network_current st g" "inform_mode (elsewhere m n g) = inform_mode g"
  "map_observation (elsewhere m n g) snap now = map_observation g snap now"
  "inform_report pm now observation (elsewhere m n g) = inform_report pm now observation g"
  "inform_packet (elsewhere m n g) payload = inform_packet g payload"
  "next_state pm md nonce next1 (elsewhere m n g) = next_state pm md nonce next1 g"
  unfolding receipts_eligible_def receipt_done_def managed_network_current_def inform_mode_def map_observation_def
    inform_report_def inform_packet_def next_state_def elsewhere_fields
  by (rule refl)+

lemma eligible_frame [simp]:
  "receipts_eligible (g\<lparr>g_monitor := m\<rparr>) s md = receipts_eligible g s md"
  "receipts_eligible (g\<lparr>g_receipt := r, g_receipt_epoch := e\<rparr>) s md = receipts_eligible g s md"
  "receipts_eligible (g\<lparr>g_firmware := r, g_firmware_epoch := e\<rparr>) s md = receipts_eligible g s md"
  by (simp_all add: receipts_eligible_def)

lemma reset_receipt_elsewhere:
  "reset_receipt_context pm s (elsewhere m n g) = elsewhere (marked (reset_receipt_marks g) m) n (reset_receipt_context pm s g)"
  by (cases "receipts_enabled (c_unifi (g_cfg g))"; cases "g_receipt_blocked g"; cases "receipts_eligible g s mode_gcm")
    (simp_all add: reset_receipt_context_def reset_receipt_marks_def Let_def elsewhere_updates,
     simp_all add: elsewhere_def monitor_step_def)

lemma reset_firmware_elsewhere:
  "reset_firmware_context pm s (elsewhere m n g) = elsewhere (marked (reset_firmware_marks g) m) n (reset_firmware_context pm s g)"
proof -
  define bound where "bound h = (if \<not> receipts_eligible h s mode_gcm then h
      else case resolve_profile (profile_of (g_cfg h)) of
        Inl e \<Rightarrow> h
      | Inr p \<Rightarrow> h\<lparr>g_firmware_epoch :=
           (case firmware_epoch (pm_hmac pm) s (cu_model (c_unifi (g_cfg g))) (pm_full p) of Some e \<Rightarrow> e | None \<Rightarrow> [])\<rparr>)" for h
  let ?clear = "\<lambda>h. h\<lparr>g_firmware := empty_receipt, g_firmware_epoch := []\<rparr>"
  have reset: "reset_firmware_context pm s h =
      (if \<not> cu_firmware_sync (c_unifi (g_cfg h)) then ?clear h
       else bound (if g_firmware_blocked h \<or> g_receipt_blocked h
                   then monitor_step (record_firmware_receipt ReceiptStorageError) (monitor_step (record_firmware_receipt ReceiptPending) (?clear h))
                   else monitor_step (record_firmware_receipt ReceiptPending) (?clear h)))" if "g_cfg h = g_cfg g" for h
    unfolding reset_firmware_context_def bound_def Let_def that by (simp add: monitor_step_def that)
  have bound: "bound (elsewhere k n h) = elsewhere k n (bound h)" for k h
    by (simp add: bound_def elsewhere_updates split: sum.split)
  have clear: "?clear (elsewhere m n g) = elsewhere m n (?clear g)" by (simp add: elsewhere_updates)
  have forget: "elsewhere k n (bound (monitor_step f h)) = elsewhere k n (bound h)" for k f h
    unfolding bound [symmetric] by (simp only: elsewhere_updates)
  show ?thesis
    unfolding reset [OF elsewhere_fields(1)] reset [OF refl] elsewhere_fields clear
    by (simp add: elsewhere_updates bound forget reset_firmware_marks_def)
qed

lemma reset_receipt_blocked [simp]:
  "g_receipt_blocked (reset_receipt_context pm s g) = g_receipt_blocked g"
  "g_firmware_blocked (reset_receipt_context pm s g) = g_firmware_blocked g" "g_cfg (reset_receipt_context pm s g) = g_cfg g"
  by (simp_all add: reset_receipt_context_def monitor_step_def Let_def)

lemma accept_config_elsewhere:
  "accept_config_receipt c nonce env (elsewhere m n g) =
     map_prod id (elsewhere (marked (accept_config_marks c nonce env g) m) n) (accept_config_receipt c nonce env g)"
  by (auto simp: accept_config_receipt_def accept_config_marks_def store_receipt_def block_receipts_def receipt_done_def
      elsewhere_def monitor_step_def Let_def split: prod.split)

lemma accept_firmware_elsewhere:
  "accept_firmware_target v nonce env (elsewhere m n g) =
     map_prod id (elsewhere (marked (accept_firmware_marks v nonce env g) m) n) (accept_firmware_target v nonce env g)"
  by (auto simp: accept_firmware_target_def accept_firmware_marks_def block_firmware_receipts_def
      elsewhere_def monitor_step_def Let_def split: prod.split)

lemma commit_elsewhere:
  "commit pm env md nonce volatile next1 out (elsewhere m n g) =
     map_prod id (elsewhere (marked (commit_marks pm env md nonce next1 g) m) n) (commit pm env md nonce volatile next1 out g)"
proof (cases "next_state pm md nonce next1 g")
  case (Inr x)
  obtain p' w' where x: "x = (p', w')" by fastforce
  let ?changed = "next1 \<noteq> adoption_from_state (g_persistent g)"
  obtain failed fs where s: "save (ie_fault env) (ie_written env) p' (dk_state (g_disk g)) = (failed, fs)" by fastforce
  note sections = elsewhere_updates(1,6) reset_receipt_elsewhere reset_firmware_elsewhere
  have upd: "(elsewhere m n h)\<lparr>g_persistent := p, g_reported_cfg := c, g_reported_fw := f, g_last_inform := l, g_replay := w\<rparr> =
      elsewhere m n (h\<lparr>g_persistent := p, g_reported_cfg := c, g_reported_fw := f, g_last_inform := l, g_replay := w\<rparr>)"
      "(elsewhere m n h)\<lparr>g_disk := d\<rparr> = elsewhere m n (h\<lparr>g_disk := d\<rparr>)" for h d p c f l w
    by (simp_all add: elsewhere_def)
  have marks: "reset_receipt_marks (g\<lparr>g_disk := d, g_persistent := p, g_reported_cfg := c, g_reported_fw := f, g_last_inform := l, g_replay := w\<rparr>) =
      reset_receipt_marks g"
      "reset_firmware_marks (reset_receipt_context pm p'
        (g\<lparr>g_disk := d, g_persistent := p, g_reported_cfg := c, g_reported_fw := f, g_last_inform := l, g_replay := w\<rparr>)) =
      reset_firmware_marks g" for d p c f l w
    by (simp_all add: reset_receipt_marks_def reset_firmware_marks_def)
  show ?thesis
  proof (cases ?changed)
    case True
    then show ?thesis
      by (cases failed) (simp_all add: commit_def commit_marks_def Inr x s upd sections marks)
  next
    case False
    then have eq: "next1 = adoption_from_state (g_persistent g)" by simp
    show ?thesis using Inr unfolding eq by (cases volatile) (simp_all add: commit_def commit_marks_def x upd sections)
  qed
qed (simp add: commit_def commit_marks_def)

lemma apply_elsewhere:
  "apply_and_commit pm env md nonce body (elsewhere m n g) =
     map_prod id (elsewhere (marked (apply_marks pm env md nonce body g) m) n) (apply_and_commit pm env md nonce body g)"
  unfolding apply_and_commit_def apply_marks_def elsewhere_fields eligible_elsewhere commit_elsewhere
  by (simp add: Let_def elsewhere_updates split: sum.split prod.split unit.split)

lemma accept_elsewhere:
  "accept_response pm env md nonce body (elsewhere m n g) =
     map_prod id (elsewhere (marked (accept_marks pm env md nonce body g) m) n) (accept_response pm env md nonce body g)"
proof -
  have upd: "note_accepted k now (elsewhere m n g) = elsewhere m n (note_accepted k now g)" for k now m g
    by (simp add: note_accepted_def elsewhere_def)
  show ?thesis
    unfolding accept_response_def accept_marks_def elsewhere_fields eligible_elsewhere accept_config_elsewhere
      accept_firmware_elsewhere apply_elsewhere Let_def
    by (simp add: upd split: sum.split prod.split unit.split option.split)
qed

lemma handle_elsewhere:
  "handle_response pm env md p (elsewhere m n g) =
     map_prod id (elsewhere (marked (handle_marks pm env md p g) m) n) (handle_response pm env md p g)"
  unfolding handle_response_def handle_marks_def elsewhere_fields accept_elsewhere by (simp split: option.split)

lemma exchange_elsewhere:
  "exchange_once pm env md wire (elsewhere m n g) =
     map_prod id (map_prod id (map_prod id (elsewhere (marked (exchange_marks pm env md wire g) m) n)))
       (exchange_once pm env md wire g)"
  unfolding exchange_once_def exchange_marks_def elsewhere_fields handle_elsewhere by (simp split: sum.split prod.split)

text \<open>
  An inform started with another monitor and another discovery counter: it has the same result and
  the same state apart from them, reports the same to the monitor, and leaves the counter alone.
\<close>

lemma inform_elsewhere:
  "inform_once pm env (elsewhere m n g) =
     map_prod id (elsewhere (marked (inform_marks pm env g) m) n) (inform_once pm env g)"
proof -
  have upd: "(elsewhere m n g)\<lparr>g_replay := w, g_encoder := enc\<rparr> = elsewhere m n (g\<lparr>g_replay := w, g_encoder := enc\<rparr>)" for w enc
    by (simp add: elsewhere_def)
  show ?thesis
    unfolding inform_once_def inform_marks_def inform_packet_def elsewhere_fields eligible_elsewhere upd exchange_elsewhere Let_def
    by (simp add: elsewhere_updates split: sum.split prod.split unit.split)
qed

section \<open>What an inform does not write\<close>

definition observed :: "gateway \<Rightarrow> config \<times> snapshot \<times> bool \<times> bool" where
  "observed g = (g_cfg g, g_latest g, g_have_latest g, g_upstream_ok g)"

lemma observed_helpers [simp]:
  "observed (monitor_step f g) = observed g" "observed (reset_receipt_context pm s g) = observed g"
  "observed (reset_firmware_context pm s g) = observed g" "observed (store_receipt r g) = observed g"
  "observed (block_receipts g) = observed g" "observed (block_firmware_receipts g) = observed g"
  "observed (note_accepted n now g) = observed g"
  by (simp_all add: observed_def monitor_step_def reset_receipt_context_def reset_firmware_context_def store_receipt_def
      block_receipts_def block_firmware_receipts_def note_accepted_def Let_def split: sum.split)

lemma observed_updates [simp]:
  "observed (g\<lparr>g_disk := d\<rparr>) = observed g" "observed (g\<lparr>g_encoder := enc\<rparr>) = observed g"
  "observed (g\<lparr>g_replay := w\<rparr>) = observed g" "observed (g\<lparr>g_receipt_last := t\<rparr>) = observed g"
  "observed (g\<lparr>g_firmware_last := t\<rparr>) = observed g" "observed (g\<lparr>g_firmware := r\<rparr>) = observed g"
  "observed (g\<lparr>g_reported_fw := v\<rparr>) = observed g" "observed (g\<lparr>g_reported_cfg := v\<rparr>) = observed g"
  "observed (g\<lparr>g_persistent := p\<rparr>) = observed g" "observed (g\<lparr>g_last_inform := t\<rparr>) = observed g"
  by (simp_all add: observed_def)

lemma observed_receipts:
  "accept_config_receipt c n env g = (r, k) \<Longrightarrow> observed k = observed g"
  "accept_firmware_target t n env g = (r, k) \<Longrightarrow> observed k = observed g"
  by (auto simp: accept_config_receipt_def accept_firmware_target_def Let_def split: if_splits prod.splits)

lemmas observed_split = Let_def split_beta if_distrib [where f = snd] if_distrib [where f = observed]

lemma observed_commit [simp]: "observed (snd (commit pm env md nonce v next1 out g)) = observed g"
  by (simp add: commit_def observed_split split: sum.split option.split split del: if_split cong: if_cong)

lemma observed_apply [simp]: "observed (snd (apply_and_commit pm env md nonce body g)) = observed g"
  by (simp add: apply_and_commit_def observed_split split: sum.split unit.split split del: if_split cong: if_cong)

lemma observed_accept: "observed (snd (accept_response pm env md nonce body g)) = observed g"
  unfolding accept_response_def Let_def
  by (auto dest: observed_receipts split: sum.splits prod.splits option.splits unit.splits)

lemma observed_handle: "handle_response pm env md p g = (r, k) \<Longrightarrow> observed k = observed g"
  by (auto simp: handle_response_def split: option.splits if_splits) (metis observed_accept snd_conv)+

lemma observed_exchange: "exchange_once pm env md wire g = (r, reached, res, k) \<Longrightarrow> observed k = observed g"
  by (auto simp: exchange_once_def dest: observed_handle split: sum.splits prod.splits)

lemma observed_inform: "inform_once pm env g = (r, k) \<Longrightarrow> observed k = observed g"
  by (cases rule: inform_once_cases) (auto dest: observed_exchange)

section \<open>Marks that are not a poll's\<close>

fun is_poll_mark :: "health_event \<Rightarrow> bool" where
  "is_poll_mark (Polled now ok) = True"
| "is_poll_mark e = False"

definition inform_only :: "health_event list \<Rightarrow> bool" where
  "inform_only es \<longleftrightarrow> list_all (\<lambda>e. \<not> is_poll_mark e) es"

lemma inform_only_simps [simp]:
  "inform_only []" "inform_only (e # es) \<longleftrightarrow> \<not> is_poll_mark e \<and> inform_only es"
  "inform_only (es @ fs) \<longleftrightarrow> inform_only es \<and> inform_only fs"
  by (simp_all add: inform_only_def)

lemma inform_only_cases:
  "(\<And>x. inform_only (f x)) \<Longrightarrow> (\<And>y. inform_only (h y)) \<Longrightarrow> inform_only (case s of Inl x \<Rightarrow> f x | Inr y \<Rightarrow> h y)"
  "inform_only es \<Longrightarrow> (\<And>x. inform_only (k x)) \<Longrightarrow> inform_only (case z of None \<Rightarrow> es | Some x \<Rightarrow> k x)"
  "(\<And>x y. inform_only (q x y)) \<Longrightarrow> inform_only (case p of (x, y) \<Rightarrow> q x y)"
  "inform_only es \<Longrightarrow> inform_only (case u of () \<Rightarrow> es)"
  "inform_only es \<Longrightarrow> inform_only fs \<Longrightarrow> inform_only (if c then es else fs)"
  by (simp_all split: sum.split option.split prod.split unit.split)

lemma commit_marks_only: "inform_only (commit_marks pm env md nonce next1 g)"
  unfolding commit_marks_def reset_receipt_marks_def reset_firmware_marks_def Let_def
  by (intro inform_only_cases) simp_all

lemma receipt_marks_only:
  "inform_only (accept_firmware_marks v n env g)" "inform_only (accept_config_marks c n env g)"
  unfolding accept_firmware_marks_def accept_config_marks_def Let_def
  by (intro inform_only_cases; simp split: prod.split)+

lemma accept_marks_only: "inform_only (accept_marks pm env md nonce body g)"
  unfolding accept_marks_def apply_marks_def Let_def
  by (intro inform_only_cases commit_marks_only receipt_marks_only) simp_all

lemma inform_marks_only: "inform_only (inform_marks pm env g)"
proof -
  have "inform_only (exchange_marks pm env md wire h)" for md wire h
    unfolding exchange_marks_def handle_marks_def by (intro inform_only_cases accept_marks_only) simp_all
  then show ?thesis unfolding inform_marks_def Let_def by (intro inform_only_cases) simp_all
qed

lemma mark_poll_commutes: "\<not> is_poll_mark e \<Longrightarrow> health_step e (mark_poll now ok m) = mark_poll now ok (health_step e m)"
  by (cases e) (simp_all add: mark_poll_def mark_inform_def set_adopted_def record_config_receipt_def
      record_firmware_receipt_def set_ignored_settings_def Let_def split: inform_result.split)

lemma marks_commute: "inform_only es \<Longrightarrow> marked es (mark_poll now ok m) = mark_poll now ok (marked es m)"
  by (induction es arbitrary: m) (simp_all add: mark_poll_commutes)

end
