(* ===== verification/GatewayDaemon.thy ===== *)
theory GatewayDaemon
  imports GatewaySections
begin

text \<open>
  \<open>Run\<close> of \<open>internal/gateway/gateway.go\<close>: the sockets it opens, and the workers that poll, inform and
  announce until the context is cancelled.  One step is one section of a mutex: a poll is two steps,
  its write under \<open>g.mu\<close> and its call to the monitor; an inform is its snapshot, the section that
  publishes its result, and one step for each of its calls to the monitor; an announcement is its
  check of the network and the section that takes a sequence number.  The steps of the workers are
  interleaved in any way.  What the daemon is shown to do is nevertheless serial.
\<close>

section \<open>The start\<close>

text \<open>\<open>enableBroadcast\<close>: whether the socket can be reached and takes the option.\<close>

definition enable_broadcast :: "bool \<Rightarrow> bool \<Rightarrow> (string, unit) result" where
  "enable_broadcast reached taken =
     guard (\<not> reached) ''access discovery UDP socket'' (guard (\<not> taken) ''enable discovery broadcast'' (Inr ()))"

text \<open>The sockets: whether they open, and whether the sender's takes the option.\<close>

record socket_env =
  sk_health :: bool
  sk_opened :: bool
  sk_reached :: bool
  sk_taken :: bool

definition open_broadcaster :: "socket_env \<Rightarrow> string \<Rightarrow> (string, unit) result" where
  "open_broadcaster e source =
     (case parse_ip_to4 source of
        None \<Rightarrow> Inl ''discovery source requires a usable IPv4 address''
      | Some q \<Rightarrow>
          guard (unspecified4 q \<or> multicast4 q) ''discovery source requires a usable IPv4 address'' (
          guard (\<not> sk_opened e) ''open discovery UDP socket'' (
          enable_broadcast (sk_reached e) (sk_taken e))))"

definition open_sockets :: "socket_env \<Rightarrow> gateway \<Rightarrow> (string go_error, unit) result" where
  "open_sockets e g =
     (if \<not> sk_health e then Inl (Failure HealthBind (Leaf ''bind health listener''))
      else case open_broadcaster e (nw_device_ip (g_network g)) of
        Inl t \<Rightarrow> Inl (Failure DiscoveryBind (Leaf t))
      | Inr _ \<Rightarrow> Inr ())"

text \<open>What \<open>Run\<close> returns: the failure of the server that ended it, or of its shutdown.\<close>

definition run_result :: "bool \<Rightarrow> bool \<Rightarrow> string option" where
  "run_result server_failed shut_down =
     (if server_failed then Some ''health server failed''
      else if \<not> shut_down then Some ''health server shutdown failed'' else None)"

section \<open>The workers\<close>

text \<open>
  What is logged, at the section that takes effect: a poll with its time and answer, an inform with
  what it met and its result, an announcement with what it met, its warning and what it sends.
\<close>

datatype daemon_event =
    DidPoll int "(nut_error, snapshot) result"
  | DidInform inform_env "(inform_error, outcome) result"
  | DidAnnounce "status option" int "int option" bool "(byte list \<times> net_addr) list"

fun is_poll :: "daemon_event \<Rightarrow> bool" where
  "is_poll (DidPoll now answer) = True"
| "is_poll e = False"

text \<open>
  An inform in progress: what it works towards, the calls to the monitor it has not made yet, and
  whether its section has published the result.  Only one holds \<open>informMu\<close>.
\<close>

record flight =
  fl_env :: inform_env
  fl_result :: "(inform_error, outcome) result"
  fl_next :: gateway
  fl_marks :: "health_event list"
  fl_published :: bool

text \<open>
  The gateway; the call to the monitor a poll has still to make; the inform in progress; the network
  status an announcement has passed its check with; whether the first poll has ended, the context is
  cancelled, the workers are in their loops; and what has been done.
\<close>

record daemon =
  dm_gateway :: gateway
  dm_mark :: "(int \<times> bool) option"
  dm_flight :: "flight option"
  dm_checked :: "status option option"
  dm_initial :: bool
  dm_cancelled :: bool
  dm_polling :: bool
  dm_informing :: bool
  dm_announcing :: bool
  dm_log :: "daemon_event list"

definition new_daemon :: "gateway \<Rightarrow> daemon" where
  "new_daemon g = \<lparr>dm_gateway = g, dm_mark = None, dm_flight = None, dm_checked = None, dm_initial = False,
     dm_cancelled = False, dm_polling = True, dm_informing = True, dm_announcing = True, dm_log = []\<rparr>"

definition did :: "daemon_event \<Rightarrow> gateway \<Rightarrow> daemon \<Rightarrow> daemon" where
  "did e g d = d\<lparr>dm_gateway := g, dm_log := dm_log d @ [e]\<rparr>"

text \<open>
  The result of an inform, published over what polls and announcements have written since its
  snapshot: those fields, and the monitor, are not the inform's to write.
\<close>

definition publish :: "gateway \<Rightarrow> gateway \<Rightarrow> gateway" where
  "publish k g = k\<lparr>g_monitor := g_monitor g, g_latest := g_latest g, g_have_latest := g_have_latest g,
     g_upstream_ok := g_upstream_ok g, g_next_discovery := g_next_discovery g\<rparr>"

inductive daemon_run :: "primitives \<Rightarrow> gateway \<Rightarrow> daemon \<Rightarrow> bool" for pm g where
  start: "daemon_run pm g (new_daemon g)"
| cancelled: "daemon_run pm g d \<Longrightarrow> daemon_run pm g (d\<lparr>dm_cancelled := True\<rparr>)"
| poll_written: "daemon_run pm g d \<Longrightarrow> dm_polling d \<Longrightarrow> dm_mark d = None \<Longrightarrow>
    poll_section now answer (dm_gateway d) = (r, k) \<Longrightarrow>
    daemon_run pm g ((did (DidPoll now answer) k d)\<lparr>dm_mark := Some (now, isOk r)\<rparr>)"
| poll_marked: "daemon_run pm g d \<Longrightarrow> dm_mark d = Some (now, ok) \<Longrightarrow>
    daemon_run pm g (d\<lparr>dm_gateway := monitor_step (mark_poll now ok) (dm_gateway d), dm_mark := None, dm_initial := True\<rparr>)"
| poll_loop_ended: "daemon_run pm g d \<Longrightarrow> dm_initial d \<Longrightarrow> dm_cancelled d \<Longrightarrow> dm_mark d = None \<Longrightarrow>
    daemon_run pm g (d\<lparr>dm_polling := False\<rparr>)"
| inform_begun: "daemon_run pm g d \<Longrightarrow> dm_informing d \<Longrightarrow> dm_initial d \<Longrightarrow> dm_flight d = None \<Longrightarrow>
    inform_once pm env (dm_gateway d) = (r, k) \<Longrightarrow>
    daemon_run pm g (d\<lparr>dm_flight := Some \<lparr>fl_env = env, fl_result = r, fl_next = k,
      fl_marks = inform_marks pm env (dm_gateway d), fl_published = False\<rparr>\<rparr>)"
| inform_published: "daemon_run pm g d \<Longrightarrow> dm_flight d = Some f \<Longrightarrow> \<not> fl_published f \<Longrightarrow>
    daemon_run pm g ((did (DidInform (fl_env f) (fl_result f)) (publish (fl_next f) (dm_gateway d)) d)
      \<lparr>dm_flight := Some (f\<lparr>fl_published := True\<rparr>)\<rparr>)"
| inform_marked: "daemon_run pm g d \<Longrightarrow> dm_flight d = Some f \<Longrightarrow> fl_marks f = e # es \<Longrightarrow>
    daemon_run pm g (d\<lparr>dm_gateway := monitor_step (health_step e) (dm_gateway d), dm_flight := Some (f\<lparr>fl_marks := es\<rparr>)\<rparr>)"
| inform_ended: "daemon_run pm g d \<Longrightarrow> dm_flight d = Some f \<Longrightarrow> fl_published f \<Longrightarrow> fl_marks f = [] \<Longrightarrow>
    daemon_run pm g (d\<lparr>dm_flight := None\<rparr>)"
| inform_loop_ended: "daemon_run pm g d \<Longrightarrow> dm_cancelled d \<Longrightarrow> dm_flight d = None \<Longrightarrow> daemon_run pm g (d\<lparr>dm_informing := False\<rparr>)"
| announcement_checked: "daemon_run pm g d \<Longrightarrow> dm_announcing d \<Longrightarrow> dm_checked d = None \<Longrightarrow> \<not> dm_cancelled d \<Longrightarrow>
    managed_network_current st (dm_gateway d) \<Longrightarrow> daemon_run pm g (d\<lparr>dm_checked := Some st\<rparr>)"
| announced: "daemon_run pm g d \<Longrightarrow> dm_checked d = Some st \<Longrightarrow>
    announcement_step pm False st now w (dm_gateway d) = Some (warned, sent, k) \<Longrightarrow>
    daemon_run pm g ((did (DidAnnounce st now w warned sent) k d)\<lparr>dm_checked := None\<rparr>)"
| announcement_refused: "daemon_run pm g d \<Longrightarrow> dm_checked d = None \<Longrightarrow>
    dm_cancelled d \<or> \<not> managed_network_current st (dm_gateway d) \<Longrightarrow> daemon_run pm g (d\<lparr>dm_announcing := False\<rparr>)"

section \<open>What serial means\<close>

text \<open>The same events one after the other, each as a whole, from the same gateway.\<close>

inductive serial :: "primitives \<Rightarrow> gateway \<Rightarrow> daemon_event list \<Rightarrow> gateway \<Rightarrow> bool" for pm g where
  start: "serial pm g [] g"
| polled: "serial pm g es h \<Longrightarrow> poll_once now answer h = (r, k) \<Longrightarrow> serial pm g (es @ [DidPoll now answer]) k"
| informed: "serial pm g es h \<Longrightarrow> inform_once pm env h = (r, k) \<Longrightarrow> serial pm g (es @ [DidInform env r]) k"
| announced: "serial pm g es h \<Longrightarrow> announcement_step pm False st now w h = Some (warned, sent, k) \<Longrightarrow>
    serial pm g (es @ [DidAnnounce st now w warned sent]) k"


text \<open>What each worker did is unchanged, and so is the order of informs and announcements.\<close>

definition same_orders :: "daemon_event list \<Rightarrow> daemon_event list \<Rightarrow> bool" where
  "same_orders es fs \<longleftrightarrow>
     filter is_poll es = filter is_poll fs \<and> filter (\<lambda>e. \<not> is_poll e) es = filter (\<lambda>e. \<not> is_poll e) fs"

text \<open>What is under way brought to its end: the poll's call to the monitor, and the inform.\<close>

definition settle_poll :: "daemon \<Rightarrow> daemon" where
  "settle_poll d =
     (case dm_mark d of
        None \<Rightarrow> d
      | Some (now, ok) \<Rightarrow> d\<lparr>dm_gateway := monitor_step (mark_poll now ok) (dm_gateway d), dm_mark := None\<rparr>)"

definition settle_inform :: "daemon \<Rightarrow> daemon" where
  "settle_inform d =
     (case dm_flight d of
        None \<Rightarrow> d
      | Some f \<Rightarrow>
          let d1 = (if fl_published f then d
                    else did (DidInform (fl_env f) (fl_result f)) (publish (fl_next f) (dm_gateway d)) d)
          in d1\<lparr>dm_gateway := monitor_step (marked (fl_marks f)) (dm_gateway d1), dm_flight := None\<rparr>)"

definition settle :: "daemon \<Rightarrow> daemon" where
  "settle d = settle_inform (settle_poll d)"

lemma settle_idle: "dm_mark d = None \<Longrightarrow> dm_flight d = None \<Longrightarrow> settle d = d"
  by (simp add: settle_def settle_poll_def settle_inform_def)

section \<open>Steps of different workers commute\<close>

definition poll_all :: "(int \<times> (nut_error, snapshot) result) list \<Rightarrow> gateway \<Rightarrow> gateway" where
  "poll_all = fold (\<lambda>(now, answer) h. snd (poll_once now answer h))"

definition poll_events :: "(int \<times> (nut_error, snapshot) result) list \<Rightarrow> daemon_event list" where
  "poll_events = map (\<lambda>(now, answer). DidPoll now answer)"

















section \<open>The reduction\<close>


lemma poll_events_kind [simp]:
  "filter is_poll (poll_events ps) = poll_events ps" "filter (\<lambda>e. \<not> is_poll e) (poll_events ps) = []"
  by (induction ps) (auto simp: poll_events_def)


definition flying :: "primitives \<Rightarrow> gateway \<Rightarrow> flight \<Rightarrow> daemon \<Rightarrow> bool" where
  "flying pm g f d \<longleftrightarrow>
     (\<exists>es v ps ds. serial pm g es v \<and> inform_only (ds @ fl_marks f) \<and>
        inform_once pm (fl_env f) v =
          (fl_result f, elsewhere (marked (ds @ fl_marks f) (g_monitor v)) (g_next_discovery v) (fl_next f)) \<and>
        dm_gateway (settle_poll d) = monitor_step (marked ds) (poll_all ps v) \<and> same_orders (es @ poll_events ps) (dm_log d))"



lemma settle_poll_log [simp]: "dm_log (settle_poll d) = dm_log d" "dm_flight (settle_poll d) = dm_flight d"
  by (simp_all add: settle_poll_def split: option.split)

lemma did_fields [simp]: "dm_gateway (did e g d) = g" "dm_log (did e g d) = dm_log d @ [e]"
  by (simp_all add: did_def)










lemma flying_published [simp]: "flying pm g (f\<lparr>fl_published := b\<rparr>) d = flying pm g f d"
  by (simp add: flying_def)





section \<open>The first poll\<close>

fun is_inform :: "daemon_event \<Rightarrow> bool" where
  "is_inform (DidInform env r) = True"
| "is_inform e = False"

definition polled_first :: "daemon_event list \<Rightarrow> bool" where
  "polled_first es \<longleftrightarrow> list_all (\<lambda>e. \<not> is_inform e) (takeWhile (\<lambda>e. \<not> is_poll e) es)"

lemma polled_first_append:
  assumes "polled_first es" "\<not> is_inform e \<or> list_ex is_poll es"
  shows "polled_first (es @ [e])"
proof (cases "list_ex is_poll es")
  case True
  then obtain x where "x \<in> set es" "is_poll x" by (auto simp: list_ex_iff)
  then have "takeWhile (\<lambda>e. \<not> is_poll e) (es @ [e]) = takeWhile (\<lambda>e. \<not> is_poll e) es" by (intro takeWhile_append1) simp_all
  then show ?thesis using assms(1) by (simp add: polled_first_def)
next
  case False
  then have all: "\<forall>x \<in> set es. \<not> is_poll x" by (auto simp: list_ex_iff)
  then have "takeWhile (\<lambda>e. \<not> is_poll e) es = es" "takeWhile (\<lambda>e. \<not> is_poll e) (es @ [e]) = es @ takeWhile (\<lambda>e. \<not> is_poll e) [e]"
    by (simp_all add: takeWhile_append2)
  moreover from this have "list_all (\<lambda>e. \<not> is_inform e) es" using assms(1) by (simp only: polled_first_def)
  ultimately show ?thesis using assms(2) False unfolding polled_first_def by simp
qed

text \<open>No inform is published before the first poll has been made.\<close>

lemma informs_follow_a_poll:
  "daemon_run pm g d \<Longrightarrow>
     polled_first (dm_log d) \<and> (dm_mark d \<noteq> None \<or> dm_initial d \<or> dm_flight d \<noteq> None \<longrightarrow> list_ex is_poll (dm_log d))"
proof (induction rule: daemon_run.induct)
  case start
  then show ?case by (simp add: new_daemon_def polled_first_def)
qed (auto simp: did_def polled_first_append)

section \<open>The properties\<close>



end
