(* ===== verification/MainCommand.thy ===== *)
theory MainCommand
  imports ManagedRun GatewayDaemon
begin

text \<open>
  The commands of the two daemons: \<open>cmd/nut-2-unifi-ups-gateway/main.go\<close> with its health check, and
  \<open>cmd/n2u-netagent/main_linux.go\<close>.  What a command prints is kept, but for its log.
\<close>

section \<open>The gateway's command\<close>

datatype log_level = Debug | Info | Warn | Error

definition parse_log_level :: "string \<Rightarrow> log_level option" where
  "parse_log_level raw =
     (let v = to_lower raw in
      if v = ''debug'' then Some Debug else if v = ''info'' then Some Info
      else if v = ''warn'' \<or> v = ''warning'' then Some Warn else if v = ''error'' then Some Error else None)"

text \<open>Host and port of the health check: an unspecified address is reached by its loopback.\<close>

definition reachable_host :: "string \<Rightarrow> string" where
  "reachable_host host =
     (if host = [] \<or> host = ''0.0.0.0'' then ''127.0.0.1'' else if host = ''::'' \<or> host = ''[::]'' then ''::1'' else host)"

definition health_endpoint :: "string \<Rightarrow> (string \<times> string) option" where
  "health_endpoint address =
     map_option (\<lambda>(host, port). (reachable_host host, port))
       (split_host_port (if address = [] then ''127.0.0.1:9199'' else address))"

text \<open>The status of the answer of a server, or None where the request fails.\<close>

definition run_healthcheck :: "(string \<times> string \<Rightarrow> int option) \<Rightarrow> string \<Rightarrow> (string, unit) result" where
  "run_healthcheck serves address =
     (case health_endpoint address of
        None \<Rightarrow> Inl ''invalid health address''
      | Some e \<Rightarrow>
          (case serves e of
             None \<Rightarrow> Inl ''health request failed''
           | Some n \<Rightarrow> guard (n \<noteq> 200) ''health endpoint is not OK'' (Inr ())))"

text \<open>The version that is built in, the health server, the turns of a managed run, the start, the run.\<close>

record main_env =
  me_version :: "string \<times> string \<times> string"
  me_serves :: "string \<times> string \<Rightarrow> int option"
  me_files :: "string \<Rightarrow> secret_file"
  me_turns :: "managed_turn list"
  me_lenient :: "string \<Rightarrow> int option"
  me_start :: start_env
  me_run :: "gateway \<Rightarrow> string go_error option"

record main_exit =
  mx_code :: int
  mx_stdout :: string
  mx_stderr :: string

definition main_exit :: "int \<Rightarrow> string \<Rightarrow> string \<Rightarrow> main_exit" where
  "main_exit n t e = \<lparr>mx_code = n, mx_stdout = t, mx_stderr = e\<rparr>"

definition main_usage :: string where
  "main_usage = ''usage: nut-2-unifi-ups-gateway [healthcheck|version]'' @ [CHR 0x0A]"

definition version_line :: "string \<times> string \<times> string \<Rightarrow> string" where
  "version_line v = (case v of (version, revision, built) \<Rightarrow>
     ''nut-2-unifi-ups-gateway '' @ version @ '' (revision '' @ revision @ '', built '' @ built @ '')'' @ [CHR 0x0A])"

text \<open>One argument.\<close>

definition run_argument :: "main_env \<Rightarrow> environment \<Rightarrow> string \<Rightarrow> main_exit" where
  "run_argument w env name =
     (if name = ''healthcheck'' then
        (case run_healthcheck (me_serves w) (env_value env ''N2U_HEALTH_ADDRESS'' []) of
           Inl e \<Rightarrow> main_exit 1 [] (''healthcheck failed'' @ [CHR 0x0A]) | Inr _ \<Rightarrow> main_exit 0 [] [])
      else if name = ''version'' \<or> name = ''--version'' then main_exit 0 (version_line (me_version w)) []
      else main_exit 2 [] main_usage)"

text \<open>The service on its own network, with what \<open>Run\<close> returns.\<close>

definition run_service :: "primitives \<Rightarrow> main_env \<Rightarrow> config \<Rightarrow> disk \<Rightarrow> int" where
  "run_service pm w cfg dk =
     (case new_gateway pm cfg (me_start w) dk of
        (Inl e, dk') \<Rightarrow> 1
      | (Inr g, dk') \<Rightarrow> if me_run w g \<noteq> None then 1 else 0)"

definition run_main :: "primitives \<Rightarrow> main_env \<Rightarrow> environment \<Rightarrow> string list \<Rightarrow> disk \<Rightarrow> main_exit option" where
  "run_main pm w env args dk =
     (case args of
        [] \<Rightarrow>
          (case load_config (me_files w) env of
             Inl e \<Rightarrow> Some (main_exit 2 []
               (''configuration is invalid; reason='' @ reason (Some (Leaf e :: string go_error)) Configuration @ [CHR 0x0A]))
           | Inr cfg \<Rightarrow>
               if parse_log_level (c_log cfg) = None
               then Some (main_exit 2 []
                 (''configuration is invalid: N2U_LOG_LEVEL must be debug, info, warn, or error'' @ [CHR 0x0A]))
               else if ct_status_file (c_runtime cfg) \<noteq> []
               then map_option (\<lambda>n. main_exit n [] []) (fst (run_managed pm (me_lenient w) cfg (me_turns w) dk))
               else Some (main_exit (run_service pm w cfg dk) [] []))
      | [name] \<Rightarrow> Some (run_argument w env name)
      | _ \<Rightarrow> Some (main_exit 2 [] main_usage))"

text \<open>A checked configuration has a log level, and its health address is probed on a host one can reach.\<close>

lemma checked_log_level: "check_runtime c = Inr () \<Longrightarrow> parse_log_level (c_log c) \<noteq> None"
proof -
  assume "check_runtime c = Inr ()"
  then have "c_log c \<in> {''debug'', ''info'', ''warn'', ''error''}"
    by (auto simp: check_runtime_def guard_def Let_def split: if_splits)
  moreover have "parse_log_level ''debug'' \<noteq> None" "parse_log_level ''info'' \<noteq> None" "parse_log_level ''warn'' \<noteq> None"
    "parse_log_level ''error'' \<noteq> None" by code_simp+
  ultimately show ?thesis by auto
qed

lemma checked_health_endpoint:
  assumes "check_runtime c = Inr ()"
  shows "\<exists>host port. health_endpoint (ct_health (c_runtime c)) = Some (host, port) \<and> host \<notin> {[], ''0.0.0.0'', ''::'', ''[::]''}"
proof -
  have "ct_health (c_runtime c) \<noteq> []" "split_host_port (ct_health (c_runtime c)) \<noteq> None"
    using assms by (auto simp: check_runtime_def guard_def Let_def split: if_splits)
  moreover have "reachable_host h \<notin> {[], ''0.0.0.0'', ''::'', ''[::]''}" for h by (simp add: reachable_host_def)
  ultimately show ?thesis by (auto simp: health_endpoint_def simp del: insert_iff)
qed

section \<open>The agent's command\<close>

definition agent_config_of :: "environment \<Rightarrow> agent_config" where
  "agent_config_of env =
     (let mode = env_value env ''N2U_NET_MODE'' [] in
      \<lparr>nc_mac = env_value env ''N2U_NET_MAC'' [], nc_mode = (if mode = [] then ''dhcp'' else mode),
       nc_static = env_value env ''N2U_NET_STATIC_CIDR'' [], nc_router = env_value env ''N2U_NET_ROUTER'' [],
       nc_aux_address = env_value env ''N2U_NET_AUX_ADDRESS'' [], nc_aux_router = env_value env ''N2U_NET_AUX_ROUTER'' []\<rparr>)"

text \<open>The run of the agent ends without an error or with one.\<close>

definition agent_main :: "(agent_config \<Rightarrow> string option) \<Rightarrow> environment \<Rightarrow> string list \<Rightarrow> main_exit" where
  "agent_main runs_agent env args =
     (if args \<noteq> [] then main_exit 2 [] (''network agent accepts no arguments'' @ [CHR 0x0A])
      else if runs_agent (agent_config_of env) \<noteq> None
      then main_exit 1 [] (''network agent stopped; network_configuration_failed'' @ [CHR 0x0A])
      else main_exit 0 [] [])"

end
