(* ===== verification/ReleaseContext.thy ===== *)
theory ReleaseContext
  imports JsonDecode ReceiptFacts NutClient
begin

text \<open>
  \<open>internal/releaseguard/context.go\<close>: the identity of one invocation of the release workflow,
  read from the environment of the runner, and the version tag.  The environment is a function
  from names to texts, a missing variable is the empty text.
\<close>

section \<open>Constants\<close>

definition repository_name :: string where "repository_name = ''d3vi1/nut-2-unifi-ups-gateway''"
definition repository_owner :: string where "repository_owner = ''d3vi1''"
definition package_name :: string where "package_name = ''nut-2-unifi-ups-gateway''"
definition image_name :: string where "image_name = ''ghcr.io/d3vi1/nut-2-unifi-ups-gateway''"

record release =
  re_repository :: string
  re_repository_id :: int
  re_owner_id :: int
  re_tag :: string
  re_version :: string
  re_prerelease :: bool
  re_sha :: string
  re_run :: int
  re_attempt :: int
  re_package :: string
  re_output :: string
  re_token :: string
  re_policy_token :: string

section \<open>Numbers, revisions and tokens\<close>

definition decimal :: "char \<Rightarrow> bool" where "decimal c \<longleftrightarrow> in_range 48 57 c"
definition lower_hex :: "char \<Rightarrow> bool" where "lower_hex c \<longleftrightarrow> in_range 48 57 c \<or> in_range 97 102 c"

definition parse_positive :: "string \<Rightarrow> string \<Rightarrow> (string, int) result" where
  "parse_positive raw name =
     (if raw = [] then Inl (name @ '' is required'')
      else if 19 < length raw \<or> has_prefix raw ''+'' \<or> 1 < length raw \<and> raw ! 0 = CHR ''0''
      then Inl (name @ '' must be a canonical positive integer'')
      else case parse_int64 raw of
        None \<Rightarrow> Inl (name @ '' must be a canonical positive integer'')
      | Some v \<Rightarrow> if v \<le> 0 then Inl (name @ '' must be a canonical positive integer'') else Inr v)"

definition is_sha :: "string \<Rightarrow> bool" where
  "is_sha v \<longleftrightarrow> \<not> length v \<noteq> 40 \<and> list_all lower_hex v"

definition validate_token :: "string \<Rightarrow> string \<Rightarrow> (string, unit) result" where
  "validate_token token name =
     (if length token < 8 \<or> 4096 < length token then Inl (name @ '' has an invalid length'')
      else if list_ex (\<lambda>c. cbyte c \<le> 0x20 \<or> cbyte c = 0x7F) token then Inl (name @ '' contains an invalid character'')
      else Inr ())"

section \<open>The version tag\<close>

definition canonical_numeric :: "string \<Rightarrow> bool" where
  "canonical_numeric v \<longleftrightarrow> \<not> (v = [] \<or> 1 < length v \<and> v ! 0 = CHR ''0'') \<and> list_all decimal v"

definition identifier_char :: "char \<Rightarrow> bool" where
  "identifier_char c \<longleftrightarrow> decimal c \<or> in_range 65 90 c \<or> in_range 97 122 c \<or> c = CHR ''-''"

text \<open>One identifier of the prerelease: the first error in it.\<close>

definition identifier_error :: "string \<Rightarrow> string option" where
  "identifier_error i =
     (if i = [] then Some ''N2U_RELEASE_TAG has an empty prerelease identifier''
      else if \<not> list_all identifier_char i then Some ''N2U_RELEASE_TAG has an invalid prerelease identifier''
      else if list_all decimal i \<and> \<not> canonical_numeric i then Some ''N2U_RELEASE_TAG has a non-canonical numeric prerelease identifier''
      else None)"

fun first_error :: "string list \<Rightarrow> string option" where
  "first_error [] = None"
| "first_error (i # is) = (case identifier_error i of Some e \<Rightarrow> Some e | None \<Rightarrow> first_error is)"

definition parse_semver_tag :: "string \<Rightarrow> (string, string \<times> bool) result" where
  "parse_semver_tag tag =
     (if length tag < 6 \<or> 96 < length tag \<or> tag ! 0 \<noteq> CHR ''v'' \<or> CHR ''+'' \<in> set tag
      then Inl ''N2U_RELEASE_TAG must be v-prefixed SemVer without build metadata''
      else
        let version = tl tag;
            (core, prerelease) = (case cut (CHR ''-'') version of None \<Rightarrow> (version, []) | Some (a, b) \<Rightarrow> (a, b));
            parts = split_char (CHR ''.'') core
        in if CHR ''-'' \<in> set version \<and> prerelease = [] then Inl ''N2U_RELEASE_TAG has an empty prerelease''
           else if length parts \<noteq> 3 then Inl ''N2U_RELEASE_TAG must contain major, minor, and patch''
           else if \<not> list_all canonical_numeric parts then Inl ''N2U_RELEASE_TAG has a non-canonical numeric component''
           else if prerelease \<noteq> [] \<and> first_error (split_char (CHR ''.'') prerelease) \<noteq> None
           then Inl (the (first_error (split_char (CHR ''.'') prerelease)))
           else Inr (version, prerelease \<noteq> []))"

section \<open>The environment\<close>

text \<open>A variable that must have one value, and one that must be there.\<close>

definition exactly :: "(string \<Rightarrow> string) \<Rightarrow> string \<Rightarrow> string \<Rightarrow> string \<Rightarrow> (string, unit) result" where
  "exactly getenv name value refusal =
     (if getenv name = [] then Inl (name @ '' is required'') else if getenv name \<noteq> value then Inl refusal else Inr ())"

definition required :: "(string \<Rightarrow> string) \<Rightarrow> string \<Rightarrow> (string, string) result" where
  "required getenv name = (if getenv name = [] then Inl (name @ '' is required'') else Inr (getenv name))"

definition check_workflow :: "(string \<Rightarrow> string) \<Rightarrow> (string, unit) result" where
  "check_workflow getenv =
     bind (exactly getenv ''GITHUB_REPOSITORY'' repository_name ''GITHUB_REPOSITORY is not the release repository'') (\<lambda>_.
     bind (exactly getenv ''GITHUB_REPOSITORY_OWNER'' repository_owner ''GITHUB_REPOSITORY_OWNER is not the release owner'') (\<lambda>_.
     bind (exactly getenv ''GITHUB_EVENT_NAME'' ''workflow_dispatch'' ''release commands require workflow_dispatch'') (\<lambda>_.
     bind (exactly getenv ''GITHUB_REF'' ''refs/heads/main'' ''release commands require refs/heads/main'') (\<lambda>_.
     bind (exactly getenv ''GITHUB_REF_TYPE'' ''branch'' ''release commands require a branch ref'') (\<lambda>_.
     bind (exactly getenv ''GITHUB_REF_NAME'' ''main'' ''release commands require the main branch'') (\<lambda>_.
     bind (exactly getenv ''GITHUB_REF_PROTECTED'' ''true'' ''the live main ref must be protected'') (\<lambda>_.
     bind (exactly getenv ''GITHUB_SERVER_URL'' ''https://github.com'' ''release commands require github.com'') (\<lambda>_.
     bind (exactly getenv ''GITHUB_API_URL'' ''https://api.github.com'' ''release commands require the public GitHub API'') (\<lambda>_.
     exactly getenv ''GITHUB_WORKFLOW_REF'' (repository_name @ ''/.github/workflows/release.yml@refs/heads/main'')
       ''release commands require the canonical release workflow'')))))))))"

definition load_tokens :: "(string \<Rightarrow> string) \<Rightarrow> (string, string \<times> string) result" where
  "load_tokens getenv =
     bind (required getenv ''GH_TOKEN'') (\<lambda>token.
     bind (validate_token token ''GH_TOKEN'') (\<lambda>_.
     bind (required getenv ''N2U_RELEASE_POLICY_TOKEN'') (\<lambda>policy.
     bind (validate_token policy ''N2U_RELEASE_POLICY_TOKEN'') (\<lambda>_.
     guard (token = policy) ''release and policy tokens must be separate credentials'' (Inr (token, policy))))))"

definition load_context :: "(string \<Rightarrow> string) \<Rightarrow> (string, release) result" where
  "load_context getenv =
     bind (check_workflow getenv) (\<lambda>_.
     bind (parse_positive (getenv ''GITHUB_REPOSITORY_ID'') ''GITHUB_REPOSITORY_ID'') (\<lambda>repository_id.
     bind (parse_positive (getenv ''GITHUB_REPOSITORY_OWNER_ID'') ''GITHUB_REPOSITORY_OWNER_ID'') (\<lambda>owner_id.
     bind (required getenv ''GITHUB_SHA'') (\<lambda>sha.
     guard (\<not> is_sha sha) ''GITHUB_SHA must be a lowercase full commit SHA'' (
     bind (required getenv ''GITHUB_WORKFLOW_SHA'') (\<lambda>workflow_sha.
     guard (workflow_sha \<noteq> sha) ''workflow and release source revisions differ'' (
     bind (parse_positive (getenv ''GITHUB_RUN_ID'') ''GITHUB_RUN_ID'') (\<lambda>run.
     bind (parse_positive (getenv ''GITHUB_RUN_ATTEMPT'') ''GITHUB_RUN_ATTEMPT'') (\<lambda>attempt.
     guard (attempt \<noteq> 1) ''release commands refuse workflow reruns'' (
     bind (required getenv ''N2U_RELEASE_TAG'') (\<lambda>tag.
     bind (parse_semver_tag tag) (\<lambda>(version, prerelease).
     bind (required getenv ''N2U_RELEASE_PACKAGE'') (\<lambda>package.
     guard (package \<noteq> package_name) ''N2U_RELEASE_PACKAGE is not the release package'' (
     bind (load_tokens getenv) (\<lambda>(token, policy).
     Inr \<lparr>re_repository = getenv ''GITHUB_REPOSITORY'', re_repository_id = repository_id, re_owner_id = owner_id, re_tag = tag,
         re_version = version, re_prerelease = prerelease, re_sha = sha, re_run = run, re_attempt = attempt, re_package = package,
         re_output = getenv ''GITHUB_OUTPUT'', re_token = token, re_policy_token = policy\<rparr>)))))))))))))))"

text \<open>The registry tag of the invocation, and the text that stands for the context in a log.\<close>

definition oci_tag :: "release \<Rightarrow> string" where
  "oci_tag r = ''release-run-'' @ int_text (re_run r) @ ''-attempt-'' @ int_text (re_attempt r)"

definition context_string :: "release \<Rightarrow> string" where
  "context_string r = ''release '' @ re_tag r @ '' for repository '' @ int_text (re_repository_id r) @ '' at '' @ re_sha r @
     '' (run '' @ int_text (re_run r) @ '', attempt '' @ int_text (re_attempt r) @ '')''"

end
