(* ===== verification/ReleaseApi.thy ===== *)
theory ReleaseApi
  imports ReleaseContext
begin

text \<open>
  \<open>internal/releaseguard/client.go\<close>: one bounded exchange with GitHub.  A command of the guard is
  a function from the requests sent so far to its result and the requests sent then; the server is
  any function that answers a request, given all requests before it, so that it may change its
  mind between two of them.
\<close>

section \<open>Commands\<close>

datatype gh_method = Get | Post | Patch
datatype gh_origin = ApiOrigin | UploadOrigin
datatype gh_body = NoBody | JsonBody json | RawBody string

record gh_request =
  gr_origin :: gh_origin
  gr_token :: string
  gr_method :: gh_method
  gr_path :: string
  gr_query :: "(string \<times> string) list"
  gr_body :: gh_body

text \<open>No answer, or the content length (negative where unknown), status, \<open>Link\<close> header and body, None if reading fails.\<close>

datatype gh_answer = NoAnswer | GhAnswer int int string "string option"

record gh_response =
  gp_status :: int
  gp_link :: string
  gp_body :: string

type_synonym server = "gh_request list \<Rightarrow> gh_request \<Rightarrow> gh_answer"
type_synonym 'a command = "gh_request list \<Rightarrow> (string, 'a) result \<times> gh_request list"

definition give :: "'a \<Rightarrow> 'a command" where "give a h = (Inr a, h)"
definition refuse :: "string \<Rightarrow> 'a command" where "refuse e h = (Inl e, h)"

definition then_do :: "'a command \<Rightarrow> ('a \<Rightarrow> 'b command) \<Rightarrow> 'b command" where
  "then_do m f h = (case m h of (Inl e, h') \<Rightarrow> (Inl e, h') | (Inr a, h') \<Rightarrow> f a h')"

text \<open>\<open>if bad { return e }\<close>, a value that may be missing, and an error that is replaced.\<close>

definition refuse_if :: "bool \<Rightarrow> string \<Rightarrow> 'a command \<Rightarrow> 'a command" where
  "refuse_if bad e m = (if bad then refuse e else m)"

definition from_option :: "string \<Rightarrow> 'a option \<Rightarrow> 'a command" where
  "from_option e x = (case x of None \<Rightarrow> refuse e | Some a \<Rightarrow> give a)"

definition from_result :: "(string, 'a) result \<Rightarrow> 'a command" where
  "from_result r = (case r of Inl e \<Rightarrow> refuse e | Inr a \<Rightarrow> give a)"

definition on_error :: "string \<Rightarrow> 'a command \<Rightarrow> 'a command" where
  "on_error e m h = (case m h of (Inl _, h') \<Rightarrow> (Inl e, h') | (Inr a, h') \<Rightarrow> (Inr a, h'))"

section \<open>The exchange\<close>

definition max_response_body :: nat where "max_response_body = 2097152"
definition max_request_json :: nat where "max_request_json = 65536"

definition traversal_segment :: "string \<Rightarrow> bool" where
  "traversal_segment path \<longleftrightarrow> list_ex (\<lambda>s. s = ''.'' \<or> s = ''..'') (split_char (CHR ''/'') path)"

definition bad_path :: "string \<Rightarrow> bool" where
  "bad_path path \<longleftrightarrow> \<not> has_prefix path ''/'' \<or> CHR ''?'' \<in> set path \<or> CHR ''#'' \<in> set path \<or> traversal_segment path"

definition method_text :: "gh_method \<Rightarrow> string" where
  "method_text m = (case m of Get \<Rightarrow> ''GET'' | Post \<Rightarrow> ''POST'' | Patch \<Rightarrow> ''PATCH'')"

definition read_gh_answer :: "gh_request \<Rightarrow> gh_answer \<Rightarrow> int list \<Rightarrow> (string, gh_response) result" where
  "read_gh_answer rq a statuses =
     (case a of
        NoAnswer \<Rightarrow> Inl ''GitHub request failed''
      | GhAnswer n status link body \<Rightarrow>
          if int max_response_body < n then Inl ''GitHub response exceeds the safety bound''
          else case body of
            None \<Rightarrow> Inl ''read GitHub response''
          | Some payload \<Rightarrow>
              if max_response_body < length payload then Inl ''GitHub response exceeds the safety bound''
              else if status \<notin> set statuses
              then Inl (''GitHub '' @ method_text (gr_method rq) @ '' '' @ gr_path rq @ '' returned HTTP '' @ int_text status)
              else Inr \<lparr>gp_status = status, gp_link = link, gp_body = payload\<rparr>)"

definition gh_send :: "server \<Rightarrow> gh_request \<Rightarrow> int list \<Rightarrow> gh_response command" where
  "gh_send srv rq statuses h =
     (if bad_path (gr_path rq) then (Inl ''invalid GitHub API path'', h)
      else (read_gh_answer rq (srv h rq) statuses, h @ [rq]))"

definition api_json :: "server \<Rightarrow> string \<Rightarrow> gh_method \<Rightarrow> string \<Rightarrow> (string \<times> string) list \<Rightarrow> json option \<Rightarrow> int list \<Rightarrow>
    gh_response command" where
  "api_json srv token meth path query input statuses =
     refuse_if (case input of None \<Rightarrow> False | Some j \<Rightarrow> max_request_json < length (marshal j))
       ''GitHub request body exceeds the safety bound''
       (gh_send srv \<lparr>gr_origin = ApiOrigin, gr_token = token, gr_method = meth, gr_path = path, gr_query = query,
          gr_body = (case input of None \<Rightarrow> NoBody | Some j \<Rightarrow> JsonBody j)\<rparr> statuses)"

definition upload :: "server \<Rightarrow> string \<Rightarrow> string \<Rightarrow> (string \<times> string) list \<Rightarrow> string \<Rightarrow> gh_response command" where
  "upload srv token path query content =
     gh_send srv \<lparr>gr_origin = UploadOrigin, gr_token = token, gr_method = Post, gr_path = path, gr_query = query,
       gr_body = RawBody content\<rparr> [201]"

text \<open>Whether the \<open>Link\<close> header names a next page: the relation occurs anywhere in it.\<close>

fun occurs_in :: "string \<Rightarrow> string \<Rightarrow> bool" where
  "occurs_in rel [] \<longleftrightarrow> rel = []"
| "occurs_in rel (c # cs) \<longleftrightarrow> has_prefix (c # cs) rel \<or> occurs_in rel cs"

definition next_page :: "string \<Rightarrow> bool" where
  "next_page link \<longleftrightarrow> link \<noteq> [] \<and> (occurs_in (''rel='' @ [CHR 0x22] @ ''next'' @ [CHR 0x22]) link \<or> occurs_in ''rel=next'' link)"

section \<open>Successful runs\<close>

definition yields :: "'a command \<Rightarrow> gh_request list \<Rightarrow> 'a \<Rightarrow> gh_request list \<Rightarrow> bool" where
  "yields m h a h' \<longleftrightarrow> m h = (Inr a, h')"

lemma yields_then:
  "yields (then_do m f) h b h'' \<longleftrightarrow> (\<exists>a h'. yields m h a h' \<and> yields (f a) h' b h'')"
  by (auto simp: yields_def then_do_def split: prod.splits sum.splits)

lemma yields_simps [simp]:
  "yields (give a) h b h' \<longleftrightarrow> b = a \<and> h' = h" "\<not> yields (refuse e) h b h'"
  "yields (refuse_if bad e m) h b h' \<longleftrightarrow> \<not> bad \<and> yields m h b h'"
  "yields (from_option e x) h b h' \<longleftrightarrow> x = Some b \<and> h' = h"
  "yields (from_result r) h b h' \<longleftrightarrow> r = Inr b \<and> h' = h"
  "yields (on_error e m) h b h' \<longleftrightarrow> yields m h b h'"
  by (auto simp: yields_def give_def refuse_def refuse_if_def from_option_def from_result_def on_error_def
      split: option.split sum.splits prod.splits)

lemma yields_send:
  "yields (gh_send srv rq statuses) h p h' \<longleftrightarrow>
     \<not> bad_path (gr_path rq) \<and> read_gh_answer rq (srv h rq) statuses = Inr p \<and> h' = h @ [rq]"
  by (auto simp: yields_def gh_send_def)

section \<open>What a command sends\<close>

text \<open>Every request a command adds, whether it succeeds or not, satisfies \<open>P\<close>.\<close>

definition sends :: "(gh_request \<Rightarrow> bool) \<Rightarrow> 'a command \<Rightarrow> bool" where
  "sends P m \<longleftrightarrow> (\<forall>h. \<exists>qs. snd (m h) = h @ qs \<and> list_all P qs)"

named_theorems send_intros \<open>what the combinators send\<close>

lemma sends_give [send_intros]: "sends P (give a)"
  by (simp add: sends_def give_def)

lemma sends_refuse [send_intros]: "sends P (refuse e)"
  by (simp add: sends_def refuse_def)

lemma sends_from_option [send_intros]: "sends P (from_option e x)"
  by (auto simp: from_option_def intro: send_intros split: option.split)

lemma sends_from_result [send_intros]: "sends P (from_result x)"
  by (auto simp: from_result_def intro: send_intros split: sum.split)

lemma sends_refuse_if [send_intros]: "sends P m \<Longrightarrow> sends P (refuse_if b e m)"
  by (simp add: refuse_if_def send_intros)

lemma sends_on_error [send_intros]:
  assumes "sends P m"
  shows "sends P (on_error e m)"
  unfolding sends_def
proof
  fix h
  obtain qs where "snd (m h) = h @ qs" "list_all P qs" using assms by (auto simp: sends_def)
  then show "\<exists>qs. snd (on_error e m h) = h @ qs \<and> list_all P qs"
    by (auto simp: on_error_def split: prod.split sum.split)
qed

lemma sends_then [send_intros]:
  assumes "sends P m" "\<And>a. sends P (f a)"
  shows "sends P (then_do m f)"
  unfolding sends_def
proof
  fix h
  obtain qs where m: "snd (m h) = h @ qs" "list_all P qs" using assms(1) by (auto simp: sends_def)
  obtain r h1 where r: "m h = (r, h1)" by fastforce
  show "\<exists>qs. snd (then_do m f h) = h @ qs \<and> list_all P qs"
  proof (cases r)
    case (Inr a)
    obtain qs' where "snd (f a h1) = h1 @ qs'" "list_all P qs'" using assms(2) by (fastforce simp: sends_def)
    then show ?thesis using m r Inr by (auto simp: then_do_def)
  qed (use m r in \<open>auto simp: then_do_def\<close>)
qed

lemma sends_send: "P rq \<Longrightarrow> sends P (gh_send srv rq statuses)"
  by (simp add: sends_def gh_send_def)

lemma sends_if [send_intros]: "sends P m \<Longrightarrow> sends P n \<Longrightarrow> sends P (if b then m else n)"
  by simp

lemma sends_get [send_intros]:
  "(\<And>rq. gr_method rq = Get \<Longrightarrow> gr_origin rq = ApiOrigin \<Longrightarrow> gr_body rq = NoBody \<Longrightarrow> P rq) \<Longrightarrow>
    sends P (api_json srv token Get path query None statuses)"
  by (auto simp: api_json_def intro!: send_intros sends_send)

end
