(* ===== verification/ReleasePolicy.thy ===== *)
theory ReleasePolicy
  imports ReleaseApi
begin

text \<open>
  \<open>internal/releaseguard/policy.go\<close>: the checks of the live repository.  The anonymous structs a
  response is decoded to are records of pointers, here options; a nil pointer is None.
\<close>

definition repo_path :: string where "repo_path = ''/repos/'' @ repository_name"
definition release_ruleset :: string where "release_ruleset = ''N2U release tags''"
definition api_origin :: string where "api_origin = ''https://api.github.com''"

text \<open>A GET of the repository's API, with the error that any failure of the exchange becomes.\<close>

definition get_json :: "server \<Rightarrow> string \<Rightarrow> string \<Rightarrow> (string \<times> string) list \<Rightarrow> string \<Rightarrow> gh_response command" where
  "get_json srv token path query e = on_error e (api_json srv token Get path query None [200])"

section \<open>The protected main branch\<close>

record branch =
  br_name :: "string option"
  br_protected :: "bool option"
  br_url :: "string option"
  br_commit :: "string option option"

definition commit_fields :: "string option \<Rightarrow> (string \<times> json) list \<Rightarrow> string option option" where
  "commit_fields cur ms = str_ptr cur ''sha'' ms"

definition branch_fields :: "branch \<Rightarrow> (string \<times> json) list \<Rightarrow> branch option" where
  "branch_fields cur ms =
     Option.bind (str_ptr (br_name cur) ''name'' ms) (\<lambda>name.
     Option.bind (bool_ptr (br_protected cur) ''protected'' ms) (\<lambda>prot.
     Option.bind (str_ptr (br_url cur) ''protection_url'' ms) (\<lambda>url.
     Option.bind (struct_ptr commit_fields None (br_commit cur) ''commit'' ms) (\<lambda>commit.
     Some \<lparr>br_name = name, br_protected = prot, br_url = url, br_commit = commit\<rparr>))))"

definition no_branch :: branch where
  "no_branch = \<lparr>br_name = None, br_protected = None, br_url = None, br_commit = None\<rparr>"

definition branch_problem :: "string \<Rightarrow> string option" where
  "branch_problem body =
     (case decode_with (struct_into branch_fields) no_branch body of
        None \<Rightarrow> Some ''live main protection check returned invalid metadata''
      | Some b \<Rightarrow>
          (case (br_name b, br_protected b, br_url b, br_commit b) of
             (Some name, Some prot, Some url, Some (Some sha)) \<Rightarrow>
               if name \<noteq> ''main'' \<or> \<not> prot \<or> url \<noteq> api_origin @ repo_path @ ''/branches/main/protection'' \<or> \<not> is_sha sha
               then Some ''live main branch is not protected'' else None
           | _ \<Rightarrow> Some ''live main protection check returned invalid metadata''))"

text \<open>A problem is the refusal.\<close>

definition refuse_problem :: "string option \<Rightarrow> unit command" where
  "refuse_problem p = (case p of None \<Rightarrow> give () | Some e \<Rightarrow> refuse e)"

definition require_main_protection :: "server \<Rightarrow> release \<Rightarrow> unit command" where
  "require_main_protection srv r =
     then_do (get_json srv (re_policy_token r) (repo_path @ ''/branches/main'') [] ''live main protection check failed'')
       (\<lambda>p. refuse_problem (branch_problem (gp_body p)))"

section \<open>The repository\<close>

record account =
  acc_id :: "int option"
  acc_login :: "string option"

definition account_fields :: "account \<Rightarrow> (string \<times> json) list \<Rightarrow> account option" where
  "account_fields cur ms =
     Option.bind (int_ptr (acc_id cur) ''id'' ms) (\<lambda>i.
     Option.bind (str_ptr (acc_login cur) ''login'' ms) (\<lambda>l. Some \<lparr>acc_id = i, acc_login = l\<rparr>))"

definition no_account :: account where "no_account = \<lparr>acc_id = None, acc_login = None\<rparr>"

definition owned_by :: "release \<Rightarrow> account option \<Rightarrow> bool" where
  "owned_by r a \<longleftrightarrow> (case a of None \<Rightarrow> False | Some x \<Rightarrow> acc_id x = Some (re_owner_id r) \<and> acc_login x = Some repository_owner)"

record repository =
  rp_id :: "int option"
  rp_full_name :: "string option"
  rp_private :: "bool option"
  rp_visibility :: "string option"
  rp_default :: "string option"
  rp_owner :: "account option"

definition repository_fields :: "repository \<Rightarrow> (string \<times> json) list \<Rightarrow> repository option" where
  "repository_fields cur ms =
     Option.bind (int_ptr (rp_id cur) ''id'' ms) (\<lambda>i.
     Option.bind (str_ptr (rp_full_name cur) ''full_name'' ms) (\<lambda>n.
     Option.bind (bool_ptr (rp_private cur) ''private'' ms) (\<lambda>p.
     Option.bind (str_ptr (rp_visibility cur) ''visibility'' ms) (\<lambda>v.
     Option.bind (str_ptr (rp_default cur) ''default_branch'' ms) (\<lambda>d.
     Option.bind (struct_ptr account_fields no_account (rp_owner cur) ''owner'' ms) (\<lambda>a.
     Some \<lparr>rp_id = i, rp_full_name = n, rp_private = p, rp_visibility = v, rp_default = d, rp_owner = a\<rparr>))))))"

definition no_repository :: repository where
  "no_repository = \<lparr>rp_id = None, rp_full_name = None, rp_private = None, rp_visibility = None, rp_default = None, rp_owner = None\<rparr>"

definition repository_problem :: "release \<Rightarrow> string \<Rightarrow> string option" where
  "repository_problem r body =
     (case decode_with (struct_into repository_fields) no_repository body of
        None \<Rightarrow> Some ''repository trust check returned invalid metadata''
      | Some m \<Rightarrow>
          if rp_id m \<noteq> Some (re_repository_id r) \<or> rp_full_name m \<noteq> Some repository_name \<or> rp_private m \<noteq> Some False \<or>
             rp_visibility m \<noteq> Some ''public'' \<or> rp_default m \<noteq> Some ''main'' \<or> \<not> owned_by r (rp_owner m)
          then Some ''repository trust policy is not satisfied'' else None)"

definition require_repository :: "server \<Rightarrow> release \<Rightarrow> unit command" where
  "require_repository srv r =
     then_do (get_json srv (re_token r) repo_path [] ''repository trust check failed'') (\<lambda>p. refuse_problem (repository_problem r (gp_body p)))"

definition main_tip_problem :: "release \<Rightarrow> string \<Rightarrow> string option" where
  "main_tip_problem r body =
     (case decode_with (struct_into commit_fields) None body of
        Some (Some sha) \<Rightarrow>
          if \<not> is_sha sha then Some ''main revision check returned invalid metadata''
          else if sha \<noteq> re_sha r then Some ''release source is no longer the live main tip'' else None
      | _ \<Rightarrow> Some ''main revision check returned invalid metadata'')"

definition require_main_tip :: "server \<Rightarrow> release \<Rightarrow> unit command" where
  "require_main_tip srv r =
     then_do (get_json srv (re_token r) (repo_path @ ''/commits/main'') [] ''main revision check failed'')
       (\<lambda>p. refuse_problem (main_tip_problem r (gp_body p)))"

section \<open>The package\<close>

record repository_ref =
  rr_id :: "int option"
  rr_full_name :: "string option"

definition repository_ref_fields :: "repository_ref \<Rightarrow> (string \<times> json) list \<Rightarrow> repository_ref option" where
  "repository_ref_fields cur ms =
     Option.bind (int_ptr (rr_id cur) ''id'' ms) (\<lambda>i.
     Option.bind (str_ptr (rr_full_name cur) ''full_name'' ms) (\<lambda>n. Some \<lparr>rr_id = i, rr_full_name = n\<rparr>))"

record package =
  pk_name :: "string option"
  pk_type :: "string option"
  pk_visibility :: "string option"
  pk_owner :: "account option"
  pk_repository :: "repository_ref option"

definition package_fields :: "package \<Rightarrow> (string \<times> json) list \<Rightarrow> package option" where
  "package_fields cur ms =
     Option.bind (str_ptr (pk_name cur) ''name'' ms) (\<lambda>n.
     Option.bind (str_ptr (pk_type cur) ''package_type'' ms) (\<lambda>t.
     Option.bind (str_ptr (pk_visibility cur) ''visibility'' ms) (\<lambda>v.
     Option.bind (struct_ptr account_fields no_account (pk_owner cur) ''owner'' ms) (\<lambda>a.
     Option.bind (struct_ptr repository_ref_fields \<lparr>rr_id = None, rr_full_name = None\<rparr> (pk_repository cur) ''repository'' ms) (\<lambda>q.
     Some \<lparr>pk_name = n, pk_type = t, pk_visibility = v, pk_owner = a, pk_repository = q\<rparr>)))))"

definition package_problem :: "release \<Rightarrow> string \<Rightarrow> string option" where
  "package_problem r body =
     (case decode_with (struct_into package_fields)
        \<lparr>pk_name = None, pk_type = None, pk_visibility = None, pk_owner = None, pk_repository = None\<rparr> body of
        None \<Rightarrow> Some ''container package trust check returned invalid metadata''
      | Some m \<Rightarrow>
          if pk_name m \<noteq> Some (re_package r) \<or> pk_type m \<noteq> Some ''container'' \<or> pk_visibility m \<noteq> Some ''public'' \<or>
             \<not> owned_by r (pk_owner m) \<or>
             pk_repository m \<noteq> Some \<lparr>rr_id = Some (re_repository_id r), rr_full_name = Some repository_name\<rparr>
          then Some ''container package trust policy is not satisfied'' else None)"

definition package_path :: string where
  "package_path = ''/users/'' @ repository_owner @ ''/packages/container/'' @ package_name"

definition require_public_package :: "server \<Rightarrow> release \<Rightarrow> unit command" where
  "require_public_package srv r =
     then_do (get_json srv (re_token r) package_path [] ''container package trust check failed'')
       (\<lambda>p. refuse_problem (package_problem r (gp_body p)))"

section \<open>The binding of the image\<close>

record binding =
  bi_digest :: string
  bi_attestation :: int
  bi_url :: string
  bi_attempt :: int

definition valid_digest :: "string \<Rightarrow> bool" where
  "valid_digest v \<longleftrightarrow> \<not> (length v \<noteq> 71 \<or> \<not> has_prefix v ''sha256:'') \<and> list_all lower_hex (drop 7 v)"

record package_version =
  pv_id :: "int option"
  pv_name :: "string option"
  pv_metadata :: "(string option \<times> string slice option option) option"

definition container_fields :: "string slice option \<Rightarrow> (string \<times> json) list \<Rightarrow> string slice option option" where
  "container_fields cur ms = strs_ptr cur ''tags'' ms"

definition metadata_fields :: "string option \<times> string slice option option \<Rightarrow> (string \<times> json) list \<Rightarrow>
    (string option \<times> string slice option option) option" where
  "metadata_fields cur ms =
     Option.bind (str_ptr (fst cur) ''package_type'' ms) (\<lambda>t.
     Option.bind (struct_ptr container_fields None (snd cur) ''container'' ms) (\<lambda>c. Some (t, c)))"

definition version_fields :: "package_version \<Rightarrow> (string \<times> json) list \<Rightarrow> package_version option" where
  "version_fields cur ms =
     Option.bind (int_ptr (pv_id cur) ''id'' ms) (\<lambda>i.
     Option.bind (str_ptr (pv_name cur) ''name'' ms) (\<lambda>n.
     Option.bind (struct_ptr metadata_fields (None, None) (pv_metadata cur) ''metadata'' ms) (\<lambda>m.
     Some \<lparr>pv_id = i, pv_name = n, pv_metadata = m\<rparr>)))"

definition no_version :: package_version where "no_version = \<lparr>pv_id = None, pv_name = None, pv_metadata = None\<rparr>"

text \<open>A complete version: its id, its digest and its tags.\<close>

definition complete_version :: "package_version \<Rightarrow> (int \<times> string \<times> string list) option" where
  "complete_version v =
     (case (pv_id v, pv_name v, pv_metadata v) of
        (Some i, Some n, Some (Some t, Some (Some tags))) \<Rightarrow>
          if i \<le> 0 \<or> \<not> valid_digest n \<or> t \<noteq> ''container'' then None else Some (i, n, items tags)
      | _ \<Rightarrow> None)"

text \<open>The tags of one version, with the tags before them and the matches so far; \<open>total\<close> is how many it has.\<close>

fun check_tags :: "release \<Rightarrow> binding \<Rightarrow> string \<Rightarrow> nat \<Rightarrow> string list \<Rightarrow> string set \<Rightarrow> nat \<Rightarrow> (string, nat) result" where
  "check_tags r b digest count [] seen m = Inr m"
| "check_tags r b digest count (tag # tags) seen m =
     (if tag = [] then Inl ''OCI image binding check returned an empty tag''
      else if tag \<in> seen then Inl ''OCI image binding check returned a duplicate tag''
      else if tag = re_tag r \<or> tag = re_version r \<or> tag = ''latest'' then Inl ''OCI package contains a forbidden release alias''
      else if tag = oci_tag r then
        (if count \<noteq> 1 then Inl ''permanent OCI version has an unexpected alias tag''
         else if digest \<noteq> bi_digest b then Inl ''permanent OCI tag resolves to a different digest''
         else check_tags r b digest count tags (insert tag seen) (m + 1))
      else check_tags r b digest count tags (insert tag seen) m)"

fun check_versions :: "release \<Rightarrow> binding \<Rightarrow> package_version list \<Rightarrow> int set \<Rightarrow> nat \<Rightarrow> (string, int set \<times> nat) result" where
  "check_versions r b [] seen m = Inr (seen, m)"
| "check_versions r b (v # vs) seen m =
     (case complete_version v of
        None \<Rightarrow> Inl ''OCI image binding check returned incomplete metadata''
      | Some (i, digest, tags) \<Rightarrow>
          if i \<in> seen then Inl ''OCI image binding check returned a duplicate version''
          else case check_tags r b digest (length tags) tags {} m of
            Inl e \<Rightarrow> Inl e
          | Inr m' \<Rightarrow> check_versions r b vs (insert i seen) m')"

definition page_query :: "nat \<Rightarrow> (string \<times> string) list" where
  "page_query page = [(''page'', dec_text page), (''per_page'', ''100'')]"

definition versions_of :: "string \<Rightarrow> package_version list option" where
  "versions_of body =
     (case decode_with (ptr_into (slice_into (struct_into version_fields) no_version) ([], 0)) None body of
        Some (Some vs) \<Rightarrow> if 100 < length (items vs) then None else Some (items vs)
      | _ \<Rightarrow> None)"

text \<open>The pages that are left of the twenty.\<close>

fun binding_pages :: "server \<Rightarrow> release \<Rightarrow> binding \<Rightarrow> nat \<Rightarrow> int set \<Rightarrow> nat \<Rightarrow> unit command" where
  "binding_pages srv r b 0 seen m = refuse ''OCI image binding pagination exceeds the safety bound''"
| "binding_pages srv r b (Suc k) seen m =
     then_do (get_json srv (re_token r) (package_path @ ''/versions'') (page_query (20 - k)) ''OCI image binding check failed'') (\<lambda>p.
     then_do (from_option ''OCI image binding check returned invalid metadata'' (versions_of (gp_body p))) (\<lambda>vs.
     then_do (from_result (check_versions r b vs seen m)) (\<lambda>(seen', m').
     if \<not> next_page (gp_link p) then
       refuse_if (m' \<noteq> 1) ''permanent OCI tag does not resolve uniquely to the image digest'' (give ())
     else refuse_if (vs = []) ''OCI image binding pagination is invalid'' (binding_pages srv r b k seen' m'))))"

definition require_image_binding :: "server \<Rightarrow> release \<Rightarrow> binding \<Rightarrow> unit command" where
  "require_image_binding srv r b = binding_pages srv r b 20 {} 0"

section \<open>The ruleset of the tags\<close>

record ruleset_summary =
  su_id :: "int option"
  su_name :: "string option"
  su_target :: "string option"
  su_enforcement :: "string option"

definition summary_fields :: "ruleset_summary \<Rightarrow> (string \<times> json) list \<Rightarrow> ruleset_summary option" where
  "summary_fields cur ms =
     Option.bind (int_ptr (su_id cur) ''id'' ms) (\<lambda>i.
     Option.bind (str_ptr (su_name cur) ''name'' ms) (\<lambda>n.
     Option.bind (str_ptr (su_target cur) ''target'' ms) (\<lambda>t.
     Option.bind (str_ptr (su_enforcement cur) ''enforcement'' ms) (\<lambda>e.
     Some \<lparr>su_id = i, su_name = n, su_target = t, su_enforcement = e\<rparr>))))"

definition no_summary :: ruleset_summary where
  "no_summary = \<lparr>su_id = None, su_name = None, su_target = None, su_enforcement = None\<rparr>"

fun find_ruleset :: "ruleset_summary list \<Rightarrow> int \<Rightarrow> (string, int) result" where
  "find_ruleset [] found = (if found = 0 then Inl ''release tag ruleset is missing'' else Inr found)"
| "find_ruleset (s # ss) found =
     (if su_name s = Some release_ruleset then
        (case su_id s of
           Some i \<Rightarrow>
             if found \<noteq> 0 \<or> i \<le> 0 \<or> su_target s \<noteq> Some ''tag'' \<or> su_enforcement s \<noteq> Some ''active''
             then Inl ''release tag ruleset is ambiguous or inactive'' else find_ruleset ss i
         | None \<Rightarrow> Inl ''release tag ruleset is ambiguous or inactive'')
      else find_ruleset ss found)"

record bypass_actor =
  ba_id :: "int option"
  ba_type :: "string option"
  ba_mode :: "string option"

definition actor_fields :: "bypass_actor \<Rightarrow> (string \<times> json) list \<Rightarrow> bypass_actor option" where
  "actor_fields cur ms =
     Option.bind (int_ptr (ba_id cur) ''actor_id'' ms) (\<lambda>i.
     Option.bind (str_ptr (ba_type cur) ''actor_type'' ms) (\<lambda>t.
     Option.bind (str_ptr (ba_mode cur) ''bypass_mode'' ms) (\<lambda>m. Some \<lparr>ba_id = i, ba_type = t, ba_mode = m\<rparr>)))"

definition ref_fields :: "string slice option \<times> string slice option \<Rightarrow> (string \<times> json) list \<Rightarrow>
    (string slice option \<times> string slice option) option" where
  "ref_fields cur ms =
     Option.bind (strs_ptr (fst cur) ''include'' ms) (\<lambda>i.
     Option.bind (strs_ptr (snd cur) ''exclude'' ms) (\<lambda>x. Some (i, x)))"

definition conditions_fields :: "(string slice option \<times> string slice option) option \<Rightarrow> (string \<times> json) list \<Rightarrow>
    (string slice option \<times> string slice option) option option" where
  "conditions_fields cur ms = struct_ptr ref_fields (None, None) cur ''ref_name'' ms"

definition rule_fields :: "string option \<Rightarrow> (string \<times> json) list \<Rightarrow> string option option" where
  "rule_fields cur ms = str_ptr cur ''type'' ms"

record ruleset =
  ru_id :: "int option"
  ru_name :: "string option"
  ru_target :: "string option"
  ru_source_type :: "string option"
  ru_source :: "string option"
  ru_enforcement :: "string option"
  ru_bypass :: "bypass_actor slice option"
  ru_conditions :: "(string slice option \<times> string slice option) option option"
  ru_rules :: "string option slice option"

definition ruleset_fields :: "ruleset \<Rightarrow> (string \<times> json) list \<Rightarrow> ruleset option" where
  "ruleset_fields cur ms =
     Option.bind (int_ptr (ru_id cur) ''id'' ms) (\<lambda>i.
     Option.bind (str_ptr (ru_name cur) ''name'' ms) (\<lambda>n.
     Option.bind (str_ptr (ru_target cur) ''target'' ms) (\<lambda>t.
     Option.bind (str_ptr (ru_source_type cur) ''source_type'' ms) (\<lambda>st.
     Option.bind (str_ptr (ru_source cur) ''source'' ms) (\<lambda>s.
     Option.bind (str_ptr (ru_enforcement cur) ''enforcement'' ms) (\<lambda>e.
     Option.bind (structs_ptr actor_fields \<lparr>ba_id = None, ba_type = None, ba_mode = None\<rparr> (ru_bypass cur) ''bypass_actors'' ms) (\<lambda>b.
     Option.bind (struct_ptr conditions_fields None (ru_conditions cur) ''conditions'' ms) (\<lambda>c.
     Option.bind (structs_ptr rule_fields None (ru_rules cur) ''rules'' ms) (\<lambda>rs.
     Some \<lparr>ru_id = i, ru_name = n, ru_target = t, ru_source_type = st, ru_source = s, ru_enforcement = e, ru_bypass = b,
       ru_conditions = c, ru_rules = rs\<rparr>)))))))))"

definition no_ruleset :: ruleset where
  "no_ruleset = \<lparr>ru_id = None, ru_name = None, ru_target = None, ru_source_type = None, ru_source = None, ru_enforcement = None,
     ru_bypass = None, ru_conditions = None, ru_rules = None\<rparr>"

fun check_rules :: "string option list \<Rightarrow> string set \<Rightarrow> (string, string set) result" where
  "check_rules [] seen = Inr seen"
| "check_rules (t # ts) seen =
     (case t of
        None \<Rightarrow> Inl ''release tag ruleset contains an invalid rule''
      | Some x \<Rightarrow>
          if x = [] then Inl ''release tag ruleset contains an invalid rule''
          else if x \<in> seen then Inl ''release tag ruleset contains a duplicate rule''
          else check_rules ts (insert x seen))"

text \<open>With both rules missing Go names either of them.\<close>

definition rules_problem :: "string option list \<Rightarrow> string option" where
  "rules_problem rs =
     (if length rs \<noteq> 2 then Some ''release tag ruleset contains unexpected rules''
      else case check_rules rs {} of
        Inl e \<Rightarrow> Some e
      | Inr seen \<Rightarrow>
          if ''update'' \<notin> seen then Some ''release tag ruleset is missing the update rule''
          else if ''deletion'' \<notin> seen then Some ''release tag ruleset is missing the deletion rule'' else None)"

definition ruleset_problem :: "int \<Rightarrow> string \<Rightarrow> string option" where
  "ruleset_problem expected body =
     (case decode_with (struct_into ruleset_fields) no_ruleset body of
        None \<Rightarrow> Some ''release tag ruleset detail is invalid''
      | Some d \<Rightarrow>
          if ru_id d \<noteq> Some expected \<or> ru_name d \<noteq> Some release_ruleset \<or> ru_target d \<noteq> Some ''tag'' \<or>
             ru_source_type d \<noteq> Some ''Repository'' \<or> ru_source d \<noteq> Some repository_name \<or> ru_enforcement d \<noteq> Some ''active''
          then Some ''release tag ruleset detail is incomplete''
          else case (ru_bypass d, ru_conditions d, ru_rules d) of
            (Some bypass, Some (Some (Some include, Some exclude)), Some rules) \<Rightarrow>
              if items bypass \<noteq> [] then Some ''release tag ruleset has an unexpected bypass actor set''
              else if items include \<noteq> [''refs/tags/v*''] \<or> items exclude \<noteq> [] then Some ''release tag ruleset has an unexpected ref condition''
              else rules_problem (items rules)
          | _ \<Rightarrow> Some ''release tag ruleset detail is incomplete'')"

definition require_ruleset :: "server \<Rightarrow> release \<Rightarrow> unit command" where
  "require_ruleset srv r =
     then_do (get_json srv (re_policy_token r) (repo_path @ ''/rulesets'') [(''includes_parents'', ''false''), (''per_page'', ''100'')]
       ''release tag ruleset check failed'') (\<lambda>p.
     refuse_if (next_page (gp_link p)) ''release tag ruleset result is ambiguous'' (
     then_do (from_option ''release tag ruleset check returned invalid metadata''
       (decode_with (slice_into (struct_into summary_fields) no_summary) ([], 0) (gp_body p))) (\<lambda>ss.
     then_do (from_result (find_ruleset (items ss) 0)) (\<lambda>i.
     then_do (get_json srv (re_policy_token r) (repo_path @ ''/rulesets/'' @ int_text i) [] ''release tag ruleset detail check failed'') (\<lambda>q.
     refuse_problem (ruleset_problem i (gp_body q)))))))"

end
