(* ===== verification/ReleaseChecks.thy ===== *)
theory ReleaseChecks
  imports ReleasePolicy
begin

text \<open>
  The rest of \<open>internal/releaseguard/policy.go\<close>: the policies of the repository, the tag and the
  list of releases, and the checks every command of the guard begins with.
\<close>

section \<open>Policies\<close>

definition enabled_fields :: "bool option \<Rightarrow> (string \<times> json) list \<Rightarrow> bool option option" where
  "enabled_fields cur ms = bool_ptr cur ''enabled'' ms"

definition immutable_problem :: "string \<Rightarrow> string option" where
  "immutable_problem body =
     (case decode_with (struct_into enabled_fields) None body of
        Some (Some enabled) \<Rightarrow> if \<not> enabled then Some ''immutable releases are not enabled'' else None
      | _ \<Rightarrow> Some ''immutable release policy check returned invalid metadata'')"

definition require_immutable_releases :: "server \<Rightarrow> release \<Rightarrow> unit command" where
  "require_immutable_releases srv r =
     then_do (get_json srv (re_policy_token r) (repo_path @ ''/immutable-releases'') [] ''immutable release policy check failed'')
       (\<lambda>p. refuse_problem (immutable_problem (gp_body p)))"

definition permissions_fields :: "bool option \<times> bool option \<Rightarrow> (string \<times> json) list \<Rightarrow> (bool option \<times> bool option) option" where
  "permissions_fields cur ms =
     Option.bind (bool_ptr (fst cur) ''enabled'' ms) (\<lambda>e.
     Option.bind (bool_ptr (snd cur) ''sha_pinning_required'' ms) (\<lambda>s. Some (e, s)))"

definition workflow_fields :: "string option \<times> bool option \<Rightarrow> (string \<times> json) list \<Rightarrow> (string option \<times> bool option) option" where
  "workflow_fields cur ms =
     Option.bind (str_ptr (fst cur) ''default_workflow_permissions'' ms) (\<lambda>d.
     Option.bind (bool_ptr (snd cur) ''can_approve_pull_request_reviews'' ms) (\<lambda>c. Some (d, c)))"

definition permissions_problem :: "string \<Rightarrow> string option" where
  "permissions_problem body =
     (case decode_with (struct_into permissions_fields) (None, None) body of
        Some (Some enabled, Some pinned) \<Rightarrow>
          if \<not> enabled \<or> \<not> pinned then Some ''Actions SHA-pinning policy is not satisfied'' else None
      | _ \<Rightarrow> Some ''Actions policy check returned invalid metadata'')"

definition workflow_problem :: "string \<Rightarrow> string option" where
  "workflow_problem body =
     (case decode_with (struct_into workflow_fields) (None, None) body of
        Some (Some permission, Some approve) \<Rightarrow>
          if permission \<noteq> ''read'' \<or> approve then Some ''default workflow token permissions are not read-only and non-approving'' else None
      | _ \<Rightarrow> Some ''default workflow permission check returned invalid metadata'')"

definition require_actions_policy :: "server \<Rightarrow> release \<Rightarrow> unit command" where
  "require_actions_policy srv r =
     then_do (get_json srv (re_policy_token r) (repo_path @ ''/actions/permissions'') [] ''Actions policy check failed'') (\<lambda>p.
     then_do (refuse_problem (permissions_problem (gp_body p))) (\<lambda>_.
     then_do (get_json srv (re_policy_token r) (repo_path @ ''/actions/permissions/workflow'') []
       ''default workflow permission check failed'') (\<lambda>q.
     refuse_problem (workflow_problem (gp_body q)))))"

section \<open>The tag\<close>

definition tag_path :: "release \<Rightarrow> string" where "tag_path r = repo_path @ ''/git/ref/tags/'' @ re_tag r"

definition require_tag_absent :: "server \<Rightarrow> release \<Rightarrow> unit command" where
  "require_tag_absent srv r =
     then_do (on_error ''release tag absence check failed'' (api_json srv (re_token r) Get (tag_path r) [] None [200, 404]))
       (\<lambda>p. refuse_if (gp_status p \<noteq> 404) ''release tag already exists'' (give ()))"

record git_object =
  go_type :: "string option"
  go_sha :: "string option"

definition object_fields :: "git_object \<Rightarrow> (string \<times> json) list \<Rightarrow> git_object option" where
  "object_fields cur ms =
     Option.bind (str_ptr (go_type cur) ''type'' ms) (\<lambda>t.
     Option.bind (str_ptr (go_sha cur) ''sha'' ms) (\<lambda>s. Some \<lparr>go_type = t, go_sha = s\<rparr>))"

definition ref_object_fields :: "string option \<times> git_object option \<Rightarrow> (string \<times> json) list \<Rightarrow> (string option \<times> git_object option) option" where
  "ref_object_fields cur ms =
     Option.bind (str_ptr (fst cur) ''ref'' ms) (\<lambda>f.
     Option.bind (struct_ptr object_fields \<lparr>go_type = None, go_sha = None\<rparr> (snd cur) ''object'' ms) (\<lambda>b. Some (f, b)))"

text \<open>The reference a response names: its name, and the type and revision it points to.\<close>

definition reference_of :: "string \<Rightarrow> (string \<times> string \<times> string) option" where
  "reference_of body =
     (case decode_with (struct_into ref_object_fields) (None, None) body of
        Some (Some f, Some b) \<Rightarrow> (case (go_type b, go_sha b) of (Some t, Some s) \<Rightarrow> Some (f, t, s) | _ \<Rightarrow> None)
      | _ \<Rightarrow> None)"

definition source_tag :: "release \<Rightarrow> string \<times> string \<times> string" where
  "source_tag r = (''refs/tags/'' @ re_tag r, ''commit'', re_sha r)"

definition require_tag :: "server \<Rightarrow> release \<Rightarrow> unit command" where
  "require_tag srv r =
     then_do (get_json srv (re_token r) (tag_path r) [] ''release tag check failed'') (\<lambda>p.
     then_do (from_option ''release tag check returned invalid metadata'' (reference_of (gp_body p))) (\<lambda>f.
     refuse_if (f \<noteq> source_tag r) ''release tag is not the expected lightweight source tag'' (
     then_do (get_json srv (re_token r) (repo_path @ ''/commits/'' @ re_tag r) [] ''release tag resolution check failed'') (\<lambda>q.
     refuse_if (decode_with (struct_into commit_fields) None (gp_body q) \<noteq> Some (Some (re_sha r)))
       ''release tag does not resolve to the release source'' (give ())))))"

section \<open>The list of releases\<close>

definition listed_fields :: "int option \<times> string option \<Rightarrow> (string \<times> json) list \<Rightarrow> (int option \<times> string option) option" where
  "listed_fields cur ms =
     Option.bind (int_ptr (fst cur) ''id'' ms) (\<lambda>i.
     Option.bind (str_ptr (snd cur) ''tag_name'' ms) (\<lambda>t. Some (i, t)))"

definition listed_of :: "string \<Rightarrow> (int option \<times> string option) list option" where
  "listed_of body =
     (case decode_with (ptr_into (slice_into (struct_into listed_fields) (None, None)) ([], 0)) None body of
        Some (Some rs) \<Rightarrow> if 100 < length (items rs) then None else Some (items rs)
      | _ \<Rightarrow> None)"

fun check_listed :: "release \<Rightarrow> (int option \<times> string option) list \<Rightarrow> int set \<Rightarrow> (string, int set) result" where
  "check_listed r [] seen = Inr seen"
| "check_listed r ((i, t) # rest) seen =
     (case (i, t) of
        (Some n, Some name) \<Rightarrow>
          if n \<le> 0 \<or> name = [] then Inl ''release tag reservation check returned incomplete metadata''
          else if n \<in> seen then Inl ''release tag reservation check returned a duplicate release''
          else if name = re_tag r then Inl ''a release already reserves the requested tag''
          else check_listed r rest (insert n seen)
      | _ \<Rightarrow> Inl ''release tag reservation check returned incomplete metadata'')"

fun listed_pages :: "server \<Rightarrow> release \<Rightarrow> nat \<Rightarrow> int set \<Rightarrow> unit command" where
  "listed_pages srv r 0 seen = refuse ''release tag reservation pagination exceeds the safety bound''"
| "listed_pages srv r (Suc k) seen =
     then_do (get_json srv (re_token r) (repo_path @ ''/releases'') (page_query (20 - k)) ''release tag reservation check failed'') (\<lambda>p.
     then_do (from_option ''release tag reservation check returned invalid metadata'' (listed_of (gp_body p))) (\<lambda>rs.
     then_do (from_result (check_listed r rs seen)) (\<lambda>seen'.
     if \<not> next_page (gp_link p) then give ()
     else refuse_if (rs = []) ''release tag reservation pagination is invalid'' (listed_pages srv r k seen'))))"

definition require_release_tag_absent :: "server \<Rightarrow> release \<Rightarrow> unit command" where
  "require_release_tag_absent srv r = listed_pages srv r 20 {}"

section \<open>Trust\<close>

definition verify_policy :: "server \<Rightarrow> release \<Rightarrow> unit command" where
  "verify_policy srv r =
     then_do (require_repository srv r) (\<lambda>_.
     then_do (require_main_protection srv r) (\<lambda>_.
     then_do (require_public_package srv r) (\<lambda>_.
     then_do (require_ruleset srv r) (\<lambda>_.
     then_do (require_immutable_releases srv r) (\<lambda>_.
     require_actions_policy srv r)))))"

definition trust :: "server \<Rightarrow> release \<Rightarrow> unit command" where
  "trust srv r =
     then_do (verify_policy srv r) (\<lambda>_. then_do (require_main_tip srv r) (\<lambda>_. require_tag_absent srv r))"

definition trust_reserved :: "server \<Rightarrow> release \<Rightarrow> unit command" where
  "trust_reserved srv r =
     then_do (verify_policy srv r) (\<lambda>_. then_do (require_main_tip srv r) (\<lambda>_. require_tag srv r))"

definition verify_image_source :: "server \<Rightarrow> release \<Rightarrow> unit command" where
  "verify_image_source srv r = trust_reserved srv r"

end
