(* ===== verification/ReleaseFiles.thy ===== *)
theory ReleaseFiles
  imports ReleaseApi
begin

text \<open>
  The files of the runner that the release guard reads and writes.  A path is checked as a text;
  what the system calls answer is a parameter, one record for the calls on one file, in the order
  in which they are made.  \<open>filepath.Clean\<close> is that of a Unix system, for a rooted path.
\<close>

section \<open>Paths\<close>

fun clean_segments :: "string list \<Rightarrow> string list \<Rightarrow> string list" where
  "clean_segments out [] = out"
| "clean_segments out (s # ss) =
     (if s = [] \<or> s = ''.'' then clean_segments out ss
      else if s = ''..'' then clean_segments (butlast out) ss
      else clean_segments (out @ [s]) ss)"

definition clean_rooted :: "string \<Rightarrow> string" where
  "clean_rooted path = ''/'' @ join_texts ''/'' (clean_segments [] (split_char (CHR ''/'') path))"

text \<open>\<open>filepath.IsAbs(path) && filepath.Clean(path) == path\<close>\<close>

definition canonical_path :: "string \<Rightarrow> bool" where
  "canonical_path path \<longleftrightarrow> has_prefix path ''/'' \<and> clean_rooted path = path"

text \<open>\<open>filepath.Base\<close> of a canonical path: what follows the last slash.\<close>

definition base_name :: "string \<Rightarrow> string" where
  "base_name path = (if path = ''/'' then path else last (split_char (CHR ''/'') path))"

definition has_suffix :: "string \<Rightarrow> string \<Rightarrow> bool" where
  "has_suffix s suffix \<longleftrightarrow> has_prefix (rev s) (rev suffix)"

definition trim_prefix :: "string \<Rightarrow> string \<Rightarrow> string" where
  "trim_prefix s prefix = (if has_prefix s prefix then drop (length prefix) s else s)"

section \<open>Snapshots\<close>

record file_stat =
  fs_regular :: bool
  fs_symlink :: bool
  fs_size :: int

text \<open>
  \<open>Lstat\<close>, \<open>Open\<close>, whether the open file is the one seen before with its size, the content that can
  be read (None where reading fails) and whether \<open>Close\<close> succeeds.
\<close>

record file_view =
  fv_before :: "file_stat option"
  fv_opens :: bool
  fv_after :: "(bool \<times> int) option"
  fv_content :: "string option"
  fv_closes :: bool

definition bounded_file :: "nat \<Rightarrow> file_stat option \<Rightarrow> bool" where
  "bounded_file bound st \<longleftrightarrow>
     (case st of None \<Rightarrow> False
      | Some f \<Rightarrow> \<not> (\<not> fs_regular f \<or> fs_symlink f \<or> fs_size f \<le> 0 \<or> int bound < fs_size f))"

record snapshot_errors =
  se_unbounded :: string
  se_open :: string
  se_changed :: string
  se_read :: string

definition snapshot_file :: "nat \<Rightarrow> snapshot_errors \<Rightarrow> file_view \<Rightarrow> (string, string) result" where
  "snapshot_file bound es v =
     (if \<not> bounded_file bound (fv_before v) then Inl (se_unbounded es)
      else if \<not> fv_opens v then Inl (se_open es)
      else case fv_after v of
        None \<Rightarrow> Inl (se_changed es)
      | Some (same, n) \<Rightarrow>
          if \<not> same then Inl (se_changed es)
          else case map_option (take (bound + 1)) (fv_content v) of
            None \<Rightarrow> Inl (se_read es)
          | Some payload \<Rightarrow>
              if \<not> fv_closes v \<or> int (length payload) \<noteq> n \<or> bound < length payload then Inl (se_read es)
              else Inr payload)"

text \<open>What a snapshot holds is the whole content of the file, within the bound.\<close>

lemma snapshot_content:
  assumes "snapshot_file bound es v = Inr payload"
  shows "fv_content v = Some payload \<and> length payload \<le> bound"
proof -
  from assms obtain content where c: "fv_content v = Some content"
    and p: "payload = take (bound + 1) content" "\<not> bound < length payload"
    unfolding snapshot_file_def by (simp split: if_splits option.splits prod.splits)
  then have "length content \<le> bound" by (simp add: min_def split: if_splits)
  with c p show ?thesis by simp
qed

section \<open>The output of a workflow step\<close>

text \<open>
  The file of \<open>GITHUB_OUTPUT\<close>: what \<open>Lstat\<close> says of it at the first check, at the second and before
  it is opened, whether it opens, the open file, and whether writing and closing succeed.
\<close>

record output_view =
  ov_first :: "file_stat option"
  ov_second :: "file_stat option"
  ov_before :: "file_stat option"
  ov_opens :: bool
  ov_after :: "(bool \<times> int) option"
  ov_writes :: bool
  ov_closes :: bool

definition validate_output_path :: "string \<Rightarrow> file_stat option \<Rightarrow> (string, unit) result" where
  "validate_output_path path st =
     (if path = [] then Inl ''GITHUB_OUTPUT is required for reserve''
      else if \<not> canonical_path path then Inl ''GITHUB_OUTPUT must be an absolute canonical path''
      else case st of
        None \<Rightarrow> Inl ''GITHUB_OUTPUT is unavailable''
      | Some f \<Rightarrow>
          if \<not> fs_regular f \<or> fs_symlink f \<or> fs_size f \<noteq> 0 then Inl ''GITHUB_OUTPUT must be an empty regular file'' else Inr ())"

text \<open>The value is the text that was appended to the file.\<close>

definition write_reservation_outputs :: "output_view \<Rightarrow> string \<Rightarrow> int \<Rightarrow> release \<Rightarrow> (string, string) result" where
  "write_reservation_outputs v path i r =
     bind (validate_output_path path (ov_second v)) (\<lambda>_.
     guard (ov_before v = None) ''inspect GITHUB_OUTPUT'' (
     guard (\<not> ov_opens v) ''open GITHUB_OUTPUT'' (
     guard (case ov_after v of None \<Rightarrow> True | Some (same, n) \<Rightarrow> \<not> same \<or> n \<noteq> 0) ''GITHUB_OUTPUT changed while opening'' (
     guard (\<not> ov_writes v \<or> \<not> ov_closes v) ''write GITHUB_OUTPUT''
       (Inr (''release_id='' @ int_text i @ [CHR 0x0A] @ ''oci_tag='' @ oci_tag r @ [CHR 0x0A] @
         ''reservation_attempt='' @ int_text (re_attempt r) @ [CHR 0x0A]))))))"

end
