(* ===== verification/ReleaseAssets.thy ===== *)
theory ReleaseAssets
  imports ReleaseFiles ReleasePolicy
begin

text \<open>
  \<open>internal/releaseguard/assets.go\<close>: the two local files of a release, the Compose bundle and its
  checksum.  SHA-256 (as the hexadecimal text of a digest), the gzip reader and the tar reader are
  parameters.
\<close>

section \<open>The snapshot of a file\<close>

record local_asset =
  la_name :: string
  la_size :: int
  la_digest :: string
  la_data :: string

definition max_release_asset :: nat where "max_release_asset = 134217728"
definition max_expanded_bundle :: nat where "max_expanded_bundle = 4194304"
definition max_bundle_member :: nat where "max_bundle_member = 1048576"

text \<open>\<open>%q\<close> of a name of the release, which has only printable ASCII and nothing to escape.\<close>

definition quoted :: "string \<Rightarrow> string" where "quoted s = [CHR 0x22] @ s @ [CHR 0x22]"

definition asset_errors :: "string \<Rightarrow> snapshot_errors" where
  "asset_errors name =
     \<lparr>se_unbounded = ''release asset '' @ quoted name @ '' is not a bounded regular file'',
      se_open = ''open release asset '' @ quoted name,
      se_changed = ''release asset '' @ quoted name @ '' changed while opening'',
      se_read = ''read release asset '' @ quoted name\<rparr>"

definition snapshot_asset :: "(string \<Rightarrow> string) \<Rightarrow> string \<Rightarrow> file_view \<Rightarrow> (string, local_asset) result" where
  "snapshot_asset sha name v =
     bind (snapshot_file max_release_asset (asset_errors name) v) (\<lambda>content.
     Inr \<lparr>la_name = name, la_size = int (length content), la_digest = ''sha256:'' @ sha content, la_data = content\<rparr>)"

section \<open>The bundle\<close>

text \<open>
  What the gzip reader makes of a text: the bytes it yields, whether they end without an error,
  whether \<open>Close\<close> succeeds and how much of the compressed text is left behind them.
\<close>

record gunzipped =
  gz_text :: string
  gz_clean :: bool
  gz_closes :: bool
  gz_rest :: nat

record tar_member =
  tm_name :: string
  tm_type :: char
  tm_uid :: int
  tm_gid :: int
  tm_size :: int
  tm_mode :: int
  tm_data :: "string option"

text \<open>
  What the tar reader makes of a text, which ends well or with an error of its reader: the members
  before it stops, whether it stops at the end of the archive, and how many bytes of the text it
  has read by then.
\<close>

record tar_walk =
  tw_members :: "tar_member list"
  tw_end :: bool
  tw_read :: nat

record bundle_tools =
  bt_sha :: "string \<Rightarrow> string"
  bt_gunzip :: "string \<Rightarrow> gunzipped option"
  bt_untar :: "string \<Rightarrow> bool \<Rightarrow> tar_walk"

definition bundle_root :: "release \<Rightarrow> string" where
  "bundle_root r = ''nut-2-unifi-ups-gateway-'' @ re_tag r @ ''-compose''"

definition bundle_files :: "string list" where
  "bundle_files = [''compose.managed.yaml'', ''compose.managed-nut-host.yaml'', '''', ''.env'', ''compose.yaml'', ''compose.auth.yaml'',
     ''compose.nut-host.yaml'', ''compose.legacy.yaml'', ''RELEASE-METADATA.txt'']"

text \<open>The type a member must have: a directory for the root, a regular file for the others.\<close>

definition wanted_type :: "release \<Rightarrow> string \<Rightarrow> char option" where
  "wanted_type r = map_of (map (\<lambda>f. (bundle_root r @ ''/'' @ f, if f = [] then CHR ''5'' else CHR ''0'')) bundle_files)"

definition member_size :: "tar_member \<Rightarrow> bool" where
  "member_size m \<longleftrightarrow> \<not> (tm_size m < 0 \<or> int max_bundle_member < tm_size m)"

text \<open>One member after those with the names \<open>seen\<close>: the content to keep, nothing for the root.\<close>

definition bundle_member :: "release \<Rightarrow> string set \<Rightarrow> tar_member \<Rightarrow> (string, string option) result" where
  "bundle_member r seen m =
     (case wanted_type r (tm_name m) of
        None \<Rightarrow> Inl ''Compose release bundle contains an unexpected member''
      | Some wanted \<Rightarrow>
          if tm_type m \<noteq> wanted \<or> tm_uid m \<noteq> 0 \<or> tm_gid m \<noteq> 0 \<or> \<not> member_size m
          then Inl ''Compose release bundle contains an unexpected member''
          else if tm_name m \<in> seen then Inl ''Compose release bundle contains a duplicate member''
          else if wanted = CHR ''5'' then
            (if tm_size m \<noteq> 0 \<or> tm_mode m mod 4096 \<noteq> 493 then Inl ''Compose release bundle root has invalid metadata''
             else Inr None)
          else if tm_mode m mod 4096 \<noteq> (if tm_name m = bundle_root r @ ''/.env'' then 384 else 420) \<or> tm_size m = 0
          then Inl ''Compose release bundle member has invalid metadata''
          else case map_option (take (max_bundle_member + 1)) (tm_data m) of
            None \<Rightarrow> Inl ''Compose release bundle member exceeds its safety bound''
          | Some content \<Rightarrow>
              if int (length content) \<noteq> tm_size m \<or> max_bundle_member < length content
              then Inl ''Compose release bundle member exceeds its safety bound'' else Inr (Some content))"

fun bundle_members :: "release \<Rightarrow> tar_member list \<Rightarrow> string set \<Rightarrow> (string \<rightharpoonup> string) \<Rightarrow>
    (string, string set \<times> (string \<rightharpoonup> string)) result" where
  "bundle_members r [] seen contents = Inr (seen, contents)"
| "bundle_members r (m # ms) seen contents =
     (case bundle_member r seen m of
        Inl e \<Rightarrow> Inl e
      | Inr None \<Rightarrow> bundle_members r ms (insert (tm_name m) seen) contents
      | Inr (Some c) \<Rightarrow> bundle_members r ms (insert (tm_name m) seen) (contents(tm_name m \<mapsto> c)))"

text \<open>A content that was not read is nil, the empty text.\<close>

definition content_of :: "release \<Rightarrow> (string \<rightharpoonup> string) \<Rightarrow> string \<Rightarrow> string" where
  "content_of r contents f = (case contents (bundle_root r @ ''/'' @ f) of None \<Rightarrow> [] | Some c \<Rightarrow> c)"

section \<open>The reviewed contents\<close>

definition compose_managed_sha :: string where
  "compose_managed_sha = ''4502f9621f955182e28838e68dd278409b8b07cdd820848833f76ef2132849c2''"
definition compose_managed_nut_host_sha :: string where
  "compose_managed_nut_host_sha = ''076dd6d0591074db64139cee9fe0e282ca2a50de2ab4fb4b4f27ac9cf4804178''"
definition compose_sha :: string where
  "compose_sha = ''681ff7915757cb08122ab1416f3312d9f200bfbd3f50d4689c0a8deeac1f6b0d''"
definition compose_auth_sha :: string where
  "compose_auth_sha = ''4514e6f198ce9227fa409e29c8c99b8a1141284456e4adcb2e4a05c286b0ae40''"
definition compose_nut_host_sha :: string where
  "compose_nut_host_sha = ''2e01f9b55668b6842bc797e4a7b566e92f98d77e9e3350e15523cea086f77d18''"
definition compose_legacy_sha :: string where
  "compose_legacy_sha = ''5da05c693d8cd5bd9831ea653e023d7b4174166876492ad47182937f5ba849de''"

definition text_lines :: "string list \<Rightarrow> string" where
  "text_lines ls = concat (map (\<lambda>l. l @ [CHR 0x0A]) ls)"

definition expected_metadata :: "release \<Rightarrow> binding \<Rightarrow> string" where
  "expected_metadata r b = text_lines
     [''Release tag: '' @ re_tag r,
      ''Source commit: '' @ re_sha r,
      ''Image: '' @ image_name @ ''@'' @ bi_digest b,
      ''Retention anchor: '' @ image_name @ '':'' @ oci_tag r,
      ''Workflow run: '' @ int_text (re_run r) @ '' (attempt '' @ int_text (re_attempt r) @ '')'']"

definition expected_environment :: "release \<Rightarrow> binding \<Rightarrow> string" where
  "expected_environment r b = text_lines
     [''# Generated for '' @ re_tag r @ ''; keep the OCI manifest digest pinned.'',
      ''# Source-tree example for local development and review. The published Compose'',
      ''# release bundle replaces this tag with the exact multi-platform OCI digest.'',
      ''N2U_IMAGE='' @ image_name @ ''@'' @ bi_digest b,
      ''# Required: an existing macvlan network and a reserved, unused LAN IPv4 address.'',
      ''# Replace the documentation-only IPv4 examples before startup.'',
      ''N2U_LAN_NETWORK='',
      ''N2U_DEVICE_IP=192.0.2.20'',
      ''# Required: a unique stable unicast MAC. On upgrade, use the adopted device MAC.'',
      ''# Preserve the existing state volume; do not create a new identity for migration.'',
      ''N2U_DEVICE_MAC='',
      ''# Optional compose.nut-host.yaml overlay: existing Docker bridge with --internal.'',
      ''# N2U_NUT_HOST_NETWORK='',
      ''# N2U_NUT_HOST_IP='',
      ''# N2U_NUT_HOST_GATEWAY='',
      ''# Set the reachable server address and actual UPS name. For same-host NUT use'',
      ''# the internal bridge gateway address, never 127.0.0.1. Macvlan alone cannot'',
      ''# reach its host. NUT must already accept the reserved bridge-side source IP.'',
      ''# Non-loopback NUT requires explicitly setting the opt-in below to true, even'',
      ''# over the internal bridge. Use a trusted LAN or VPN; NUT traffic is unencrypted.'',
      ''N2U_NUT_ADDRESS=192.0.2.10:3493'',
      ''N2U_NUT_UPS=ups'',
      ''N2U_NUT_TIMEOUT=5s'',
      ''N2U_NUT_ALLOW_INSECURE_REMOTE=false'',
      ''# Authentication overlay only:'',
      ''# N2U_NUT_USERNAME=monitor'',
      ''# File must be host-administered, mode 0400, and owned by numeric UID/GID 65532.'',
      ''# N2U_NUT_PASSWORD_SECRET_FILE=/absolute/path/to/nut_password'',
      ''N2U_UNIFI_MODEL=USWDA26'',
      ''N2U_UNIFI_VERSION=1.6.1'',
      ''# Legacy single-field experiment, not the recommended onboarding path.'',
      ''# Whether it clears Getting Ready remains CANDIDATE; it mirrors cfgversion only.'',
      ''# It does not promise a Network UI transition. Leave false for receipt modes.'',
      ''N2U_UNIFI_HTTP_GCM_VOLATILE_CFGVERSION_SYNC=false'',
      ''# Multi-field configuration receipts: off, memory, or persistent.'',
      ''# Requires the volatile option above to stay false. Trusted management LAN only.'',
      ''# Network 10.6.102 convergence observed; received settings are not applied.'',
      ''# After accepting the trust limits in docs/installation.md, set persistent.'',
      ''N2U_UNIFI_HTTP_GCM_CONFIG_RECEIPT_MODE=off'',
      ''# Optional reported-version mirroring, including lower controller-selected targets.'',
      ''# Requires persistent configuration receipts; no firmware is downloaded/installed.'',
      ''# Network 10.6.102 manual target acceptance observed; other builds/channels unverified.'',
      ''N2U_UNIFI_HTTP_GCM_REPORTED_FIRMWARE_SYNC=false'',
      ''# Experimental: leave false unless a separate, credential-free NUT service was'',
      ''# verified from another LAN host at the emulated device IP, served ID, and port.'',
      ''N2U_UNIFI_NUT_SERVER_ENABLED=false'',
      ''N2U_UNIFI_NUT_SERVER_ID=ups'',
      ''N2U_UNIFI_NUT_SERVER_PORT=3493'',
      ''# Replace '' @ [CHR 0x22] @ ''unifi'' @ [CHR 0x22] @ '' with the final IP address or resolvable name of the console'',
      ''# before first startup. First adoption must happen on a trusted management LAN.'',
      ''N2U_INFORM_URL=http://unifi:8080/inform'',
      ''N2U_INFORM_INTERVAL=10s'',
      ''N2U_INFORM_TIMEOUT=10s'',
      ''N2U_DISCOVERY_INTERVAL=30s'',
      ''N2U_POLL_INTERVAL=5s'',
      ''N2U_STALE_AFTER=20s'',
      ''N2U_DEVICE_HOSTNAME=nut-2-unifi-ups-gateway'',
      ''N2U_HEALTH_ADDRESS=127.0.0.1:9199'',
      ''N2U_LOG_LEVEL=info'']"

definition verify_environment :: "release \<Rightarrow> binding \<Rightarrow> string \<Rightarrow> (string, unit) result" where
  "verify_environment r b content =
     (if content = [] \<or> CHR 0x00 \<in> set content \<or> CHR 0x0D \<in> set content then Inl ''Compose bundle environment is malformed''
      else if content \<noteq> expected_environment r b
      then Inl ''Compose bundle environment does not match the reviewed digest-pinned template'' else Inr ())"

text \<open>The contents of a bundle whose members are complete.\<close>

definition verify_contents :: "(string \<Rightarrow> string) \<Rightarrow> release \<Rightarrow> binding \<Rightarrow> (string \<rightharpoonup> string) \<Rightarrow> (string, unit) result" where
  "verify_contents sha r b contents =
     bind (verify_environment r b (content_of r contents ''.env'')) (\<lambda>_.
     guard (sha (content_of r contents ''compose.managed.yaml'') \<noteq> compose_managed_sha \<or>
            sha (content_of r contents ''compose.managed-nut-host.yaml'') \<noteq> compose_managed_nut_host_sha)
       ''managed Compose files do not match the reviewed release templates'' (
     guard (sha (content_of r contents ''compose.yaml'') \<noteq> compose_sha \<or>
            sha (content_of r contents ''compose.auth.yaml'') \<noteq> compose_auth_sha \<or>
            sha (content_of r contents ''compose.nut-host.yaml'') \<noteq> compose_nut_host_sha \<or>
            sha (content_of r contents ''compose.legacy.yaml'') \<noteq> compose_legacy_sha)
       ''Compose files do not match the reviewed release templates'' (
     guard (content_of r contents ''RELEASE-METADATA.txt'' \<noteq> expected_metadata r b)
       ''Compose release metadata does not match this workflow'' (Inr ()))))"

definition verify_bundle :: "bundle_tools \<Rightarrow> release \<Rightarrow> binding \<Rightarrow> string \<Rightarrow> (string, unit) result" where
  "verify_bundle t r b compressed =
     (case bt_gunzip t compressed of
        None \<Rightarrow> Inl ''Compose release bundle is not valid gzip''
      | Some gz \<Rightarrow>
          (let limited = take (max_expanded_bundle + 1) (gz_text gz);
               walk = bt_untar t limited (gz_clean gz \<or> max_expanded_bundle < length limited)
           in bind (bundle_members r (tw_members walk) {} Map.empty) (\<lambda>(seen, contents).
              guard (\<not> tw_end walk) ''Compose release bundle contains an invalid tar stream'' (
              guard (card seen \<noteq> length bundle_files \<or> max_expanded_bundle < tw_read walk)
                ''Compose release bundle member set is incomplete'' (
              guard (max_expanded_bundle < length limited \<or> \<not> gz_clean gz) ''Compose release bundle exceeds its expansion bound'' (
              guard (\<not> list_all (\<lambda>c. c = CHR 0x00) (drop (tw_read walk) limited))
                ''Compose release bundle contains data after the tar terminator'' (
              guard (\<not> gz_closes gz \<or> gz_rest gz \<noteq> 0)
                ''Compose release bundle contains trailing or concatenated gzip data''
                (verify_contents (bt_sha t) r b contents))))))))"

section \<open>The two assets\<close>

definition checksum_name :: "release \<Rightarrow> string" where
  "checksum_name r = ''nut-2-unifi-ups-gateway-'' @ re_tag r @ ''-compose.SHA256SUMS''"

definition bundle_name :: "release \<Rightarrow> string" where
  "bundle_name r = ''nut-2-unifi-ups-gateway-'' @ re_tag r @ ''-compose.tar.gz''"

text \<open>The paths in the variable: one final line break is dropped.\<close>

definition asset_paths :: "string \<Rightarrow> (string, string list) result" where
  "asset_paths raw =
     (if raw = [] then Inl ''N2U_RELEASE_ASSETS is required''
      else if CHR 0x0D \<in> set raw then Inl ''N2U_RELEASE_ASSETS contains an invalid carriage return''
      else let paths = split_char (CHR 0x0A) (if has_suffix raw [CHR 0x0A] then butlast raw else raw)
           in if length paths \<noteq> 2 \<or> paths ! 0 = [] \<or> paths ! 1 = [] \<or> paths ! 0 = paths ! 1
              then Inl ''N2U_RELEASE_ASSETS must contain exactly two distinct paths'' else Inr paths)"

fun load_assets :: "(string \<Rightarrow> string) \<Rightarrow> (string \<Rightarrow> file_view) \<Rightarrow> string list \<Rightarrow> string list \<Rightarrow> (string, local_asset list) result" where
  "load_assets sha view wanted [] = Inr []"
| "load_assets sha view wanted (path # paths) =
     (if \<not> canonical_path path then Inl ''release asset paths must be absolute and canonical''
      else if base_name path \<notin> set wanted then Inl ''release asset names do not match the release''
      else case snapshot_asset sha (base_name path) (view path) of
        Inl e \<Rightarrow> Inl e
      | Inr a \<Rightarrow> bind (load_assets sha view (removeAll (base_name path) wanted) paths) (\<lambda>as. Inr (a # as)))"

text \<open>The last asset whose name has the ending, if any; an asset is a bundle before it is a checksum.\<close>

definition last_with :: "(local_asset \<Rightarrow> bool) \<Rightarrow> local_asset list \<Rightarrow> local_asset option" where
  "last_with P as = (if filter P as = [] then None else Some (last (filter P as)))"

definition load_release_assets :: "bundle_tools \<Rightarrow> (string \<Rightarrow> file_view) \<Rightarrow> release \<Rightarrow> binding \<Rightarrow> (string \<Rightarrow> string) \<Rightarrow>
    (string, local_asset list) result" where
  "load_release_assets t view r b getenv =
     bind (asset_paths (getenv ''N2U_RELEASE_ASSETS'')) (\<lambda>paths.
     bind (load_assets (bt_sha t) view [bundle_name r, checksum_name r] paths) (\<lambda>assets.
     case (last_with (\<lambda>a. has_suffix (la_name a) ''.tar.gz'') assets,
           last_with (\<lambda>a. \<not> has_suffix (la_name a) ''.tar.gz'' \<and> has_suffix (la_name a) ''.SHA256SUMS'') assets) of
       (Some bundle, Some checksums) \<Rightarrow>
         guard (la_data checksums \<noteq> trim_prefix (la_digest bundle) ''sha256:'' @ ''  '' @ la_name bundle @ [CHR 0x0A])
           ''SHA256SUMS does not exactly bind the release bundle'' (
         bind (verify_bundle t r b (la_data bundle)) (\<lambda>_. Inr assets))
     | _ \<Rightarrow> Inl ''release bundle and checksum assets are required''))"

end
