(* ===== verification/ReleaseMachine.thy ===== *)
theory ReleaseMachine
  imports ReleaseChecks ReleaseAssets
begin

text \<open>
  \<open>internal/releaseguard/release.go\<close>: the commands that reserve, bind, fill and publish one release.
  The state of the machine is the draft on the server; the guard keeps nothing between two
  commands but the release id in the environment, so each command is a function of the
  environment and of the answers of the server.
\<close>

section \<open>The release and its assets as GitHub reports them\<close>

record release_asset =
  ra_id :: "int option"
  ra_name :: "string option"
  ra_state :: "string option"
  ra_size :: "int option"
  ra_digest :: "string option"

definition no_asset :: release_asset where
  "no_asset = \<lparr>ra_id = None, ra_name = None, ra_state = None, ra_size = None, ra_digest = None\<rparr>"

definition asset_fields :: "release_asset \<Rightarrow> (string \<times> json) list \<Rightarrow> release_asset option" where
  "asset_fields cur ms =
     Option.bind (int_ptr (ra_id cur) ''id'' ms) (\<lambda>i.
     Option.bind (str_ptr (ra_name cur) ''name'' ms) (\<lambda>n.
     Option.bind (str_ptr (ra_state cur) ''state'' ms) (\<lambda>s.
     Option.bind (int_ptr (ra_size cur) ''size'' ms) (\<lambda>z.
     Option.bind (str_ptr (ra_digest cur) ''digest'' ms) (\<lambda>d.
     Some \<lparr>ra_id = i, ra_name = n, ra_state = s, ra_size = z, ra_digest = d\<rparr>)))))"

record release_wire =
  rw_id :: "int option"
  rw_tag :: "string option"
  rw_target :: "string option"
  rw_name :: "string option"
  rw_body :: "string option"
  rw_draft :: "bool option"
  rw_prerelease :: "bool option"
  rw_immutable :: "bool option"
  rw_assets :: "release_asset slice option"

definition no_release :: release_wire where
  "no_release = \<lparr>rw_id = None, rw_tag = None, rw_target = None, rw_name = None, rw_body = None, rw_draft = None,
     rw_prerelease = None, rw_immutable = None, rw_assets = None\<rparr>"

definition wire_fields :: "release_wire \<Rightarrow> (string \<times> json) list \<Rightarrow> release_wire option" where
  "wire_fields cur ms =
     Option.bind (int_ptr (rw_id cur) ''id'' ms) (\<lambda>i.
     Option.bind (str_ptr (rw_tag cur) ''tag_name'' ms) (\<lambda>t.
     Option.bind (str_ptr (rw_target cur) ''target_commitish'' ms) (\<lambda>c.
     Option.bind (str_ptr (rw_name cur) ''name'' ms) (\<lambda>n.
     Option.bind (str_ptr (rw_body cur) ''body'' ms) (\<lambda>b.
     Option.bind (bool_ptr (rw_draft cur) ''draft'' ms) (\<lambda>d.
     Option.bind (bool_ptr (rw_prerelease cur) ''prerelease'' ms) (\<lambda>p.
     Option.bind (bool_ptr (rw_immutable cur) ''immutable'' ms) (\<lambda>m.
     Option.bind (structs_ptr asset_fields no_asset (rw_assets cur) ''assets'' ms) (\<lambda>as.
     Some \<lparr>rw_id = i, rw_tag = t, rw_target = c, rw_name = n, rw_body = b, rw_draft = d, rw_prerelease = p, rw_immutable = m,
       rw_assets = as\<rparr>)))))))))"

definition decode_release :: "string \<Rightarrow> release_wire option" where
  "decode_release payload = decode_with (struct_into wire_fields) no_release payload"

section \<open>The marker and the texts of a release\<close>

record image_binding =
  ib_name :: string
  ib_digest :: string
  ib_attestation :: int
  ib_url :: string

record release_marker =
  rm_repository_id :: int
  rm_repository :: string
  rm_tag :: string
  rm_sha :: string
  rm_run :: int
  rm_attempt :: int
  rm_oci_tag :: string
  rm_image :: "image_binding option"
  rm_publication :: "int option"

definition marker :: "release \<Rightarrow> binding option \<Rightarrow> release_marker" where
  "marker r ob =
     \<lparr>rm_repository_id = re_repository_id r, rm_repository = re_repository r, rm_tag = re_tag r, rm_sha = re_sha r,
      rm_run = re_run r, rm_attempt = re_attempt r, rm_oci_tag = oci_tag r,
      rm_image = map_option (\<lambda>b. \<lparr>ib_name = image_name, ib_digest = bi_digest b, ib_attestation = bi_attestation b,
        ib_url = bi_url b\<rparr>) ob,
      rm_publication = map_option bi_attempt ob\<rparr>"

text \<open>\<open>json.Marshal\<close> of a marker: the last two members are left out where they are nil.\<close>

definition image_json :: "image_binding \<Rightarrow> json" where
  "image_json i = JObj [(''name'', JStr (ib_name i)), (''digest'', JStr (ib_digest i)),
     (''attestation_id'', JNum (int_text (ib_attestation i))), (''attestation_url'', JStr (ib_url i))]"

definition marker_json :: "release_marker \<Rightarrow> json" where
  "marker_json m = JObj
     ([(''repository_id'', JNum (int_text (rm_repository_id m))), (''repository'', JStr (rm_repository m)), (''tag'', JStr (rm_tag m)),
       (''source_sha'', JStr (rm_sha m)), (''run_id'', JNum (int_text (rm_run m))), (''run_attempt'', JNum (int_text (rm_attempt m))),
       (''oci_tag'', JStr (rm_oci_tag m))] @
      (case rm_image m of None \<Rightarrow> [] | Some i \<Rightarrow> [(''image'', image_json i)]) @
      (case rm_publication m of None \<Rightarrow> [] | Some n \<Rightarrow> [(''publication_attempt'', JNum (int_text n))]))"

definition marker_prefix :: string where "marker_prefix = ''<!-- n2u-release-reservation:v1 ''"

definition marker_line :: "release \<Rightarrow> binding option \<Rightarrow> string" where
  "marker_line r ob = marker_prefix @ marshal (marker_json (marker r ob)) @ '' -->''"

definition blank_line :: string where "blank_line = [CHR 0x0A, CHR 0x0A]"

definition reservation_body :: "release \<Rightarrow> string" where
  "reservation_body r = marker_line r None @ blank_line @
     ''Release publication is in progress. This draft is reserved to one non-rerunnable workflow invocation.''"

definition bound_body :: "release \<Rightarrow> binding \<Rightarrow> string" where
  "bound_body r b = marker_line r (Some b) @ blank_line @ ''# NUT 2 UniFi UPS Gateway '' @ re_version r @ blank_line @
     ''- Source tag: `'' @ re_tag r @ ''`'' @ [CHR 0x0A] @ ''- Source commit: `'' @ re_sha r @ ''`'' @ [CHR 0x0A] @
     ''- Multi-platform image: `'' @ image_name @ ''@'' @ bi_digest b @ ''`'' @ [CHR 0x0A] @
     ''- GitHub attestation: '' @ bi_url b @ blank_line @
     ''The attached Compose bundle is pinned to the OCI manifest digest above. Verify its attached SHA256SUMS before extraction.''"

definition release_title :: "release \<Rightarrow> string" where
  "release_title r = ''NUT 2 UniFi UPS Gateway '' @ re_version r"

definition release_path :: "int \<Rightarrow> string" where
  "release_path i = repo_path @ ''/releases/'' @ int_text i"

section \<open>Comparing the live release\<close>

definition asset_matches :: "release_asset \<Rightarrow> local_asset \<Rightarrow> bool" where
  "asset_matches m a \<longleftrightarrow>
     \<not> (case ra_id m of None \<Rightarrow> True | Some i \<Rightarrow> i \<le> 0) \<and> ra_name m = Some (la_name a) \<and> ra_state m = Some ''uploaded'' \<and>
     ra_size m = Some (la_size a) \<and> ra_digest m = Some (la_digest a)"

text \<open>The assets one after the other, given the names and the ids that were seen; what Go keeps by name is the last such asset.\<close>

fun check_assets :: "(string \<rightharpoonup> local_asset) \<Rightarrow> release_asset list \<Rightarrow> string set \<Rightarrow> int set \<Rightarrow> (string, unit) result" where
  "check_assets expected [] seen ids = Inr ()"
| "check_assets expected (m # ms) seen ids =
     (case (ra_name m, ra_id m) of
        (Some n, Some i) \<Rightarrow>
          if i \<le> 0 then Inl ''release asset has an invalid identity''
          else (case expected n of
            None \<Rightarrow> Inl ''unexpected release asset''
          | Some a \<Rightarrow>
              if n \<in> seen then Inl ''duplicate release asset''
              else if i \<in> ids then Inl ''duplicate release asset ID''
              else if \<not> asset_matches m a then Inl ''release asset integrity mismatch''
              else check_assets expected ms (insert n seen) (insert i ids))
      | _ \<Rightarrow> Inl ''release asset has an invalid identity'')"

definition expected_assets :: "local_asset list \<Rightarrow> (string \<rightharpoonup> local_asset)" where
  "expected_assets as = map_of (rev (map (\<lambda>a. (la_name a, a)) as))"

definition validate_release :: "release_wire \<Rightarrow> int \<Rightarrow> release \<Rightarrow> string \<Rightarrow> bool \<Rightarrow> bool \<Rightarrow> local_asset list \<Rightarrow>
    (string, unit) result" where
  "validate_release w i r body draft immutable assets =
     (case rw_assets w of
        None \<Rightarrow> Inl ''release identity or state mismatch''
      | Some ms \<Rightarrow>
          if rw_id w \<noteq> Some i \<or> rw_tag w \<noteq> Some (re_tag r) \<or>
             rw_target w \<noteq> Some (re_sha r) \<and> rw_target w \<noteq> Some ''main'' \<or> rw_name w \<noteq> Some (release_title r) \<or>
             rw_body w \<noteq> Some body \<or> rw_draft w \<noteq> Some draft \<or> rw_prerelease w \<noteq> Some (re_prerelease r) \<or>
             rw_immutable w \<noteq> Some immutable
          then Inl ''release identity or state mismatch''
          else if length (items ms) \<noteq> length assets then Inl ''release asset count mismatch''
          else check_assets (expected_assets assets) (items ms) {} {})"

section \<open>Reading\<close>

text \<open>An error that is passed on behind a text of its own.\<close>

definition prefix_error :: "string \<Rightarrow> 'a command \<Rightarrow> 'a command" where
  "prefix_error e m h = (case m h of (Inl c, h') \<Rightarrow> (Inl (e @ c), h') | (Inr a, h') \<Rightarrow> (Inr a, h'))"

definition get_release :: "server \<Rightarrow> release \<Rightarrow> int \<Rightarrow> release_wire command" where
  "get_release srv r i =
     then_do (prefix_error ''numeric release lookup failed: '' (api_json srv (re_token r) Get (release_path i) [] None [200]))
       (\<lambda>p. from_option ''numeric release lookup returned invalid metadata'' (decode_release (gp_body p)))"

text \<open>The live release, which must be the exact one; the two kinds of failure have one error.\<close>

definition read_exact :: "server \<Rightarrow> release \<Rightarrow> int \<Rightarrow> string \<Rightarrow> bool \<Rightarrow> bool \<Rightarrow> local_asset list \<Rightarrow> string \<Rightarrow> unit command" where
  "read_exact srv r i body draft immutable assets e =
     on_error e (then_do (get_release srv r i) (\<lambda>w. from_result (validate_release w i r body draft immutable assets)))"

section \<open>The environment of a command\<close>

definition load_release_id :: "(string \<Rightarrow> string) \<Rightarrow> (string, int) result" where
  "load_release_id getenv = parse_positive (getenv ''N2U_RELEASE_ID'') ''N2U_RELEASE_ID''"

definition attestation_url :: "int \<Rightarrow> string" where
  "attestation_url i = ''https://github.com/'' @ repository_name @ ''/attestations/'' @ int_text i"

definition load_binding :: "release \<Rightarrow> (string \<Rightarrow> string) \<Rightarrow> (string, binding) result" where
  "load_binding r getenv =
     guard (\<not> valid_digest (getenv ''N2U_IMAGE_DIGEST'')) ''N2U_IMAGE_DIGEST must be a lowercase sha256 digest'' (
     bind (parse_positive (getenv ''N2U_ATTESTATION_ID'') ''N2U_ATTESTATION_ID'') (\<lambda>attestation.
     guard (getenv ''N2U_ATTESTATION_URL'' \<noteq> attestation_url attestation)
       ''N2U_ATTESTATION_URL does not match the release repository and attestation ID'' (
     bind (parse_positive (getenv ''N2U_PUBLICATION_ATTEMPT'') ''N2U_PUBLICATION_ATTEMPT'') (\<lambda>attempt.
     guard (attempt \<noteq> re_attempt r \<or> attempt \<noteq> 1) ''publication attempt does not match the non-rerunnable reservation''
       (Inr \<lparr>bi_digest = getenv ''N2U_IMAGE_DIGEST'', bi_attestation = attestation, bi_url = getenv ''N2U_ATTESTATION_URL'',
         bi_attempt = attempt\<rparr>)))))"

section \<open>What a command writes\<close>

definition ref_json :: "release \<Rightarrow> json" where
  "ref_json r = JObj [(''ref'', JStr (''refs/tags/'' @ re_tag r)), (''sha'', JStr (re_sha r))]"

definition release_json :: "release \<Rightarrow> string \<Rightarrow> bool \<Rightarrow> string \<Rightarrow> json" where
  "release_json r body draft latest = JObj
     [(''tag_name'', JStr (re_tag r)), (''target_commitish'', JStr (re_sha r)), (''name'', JStr (release_title r)), (''body'', JStr body),
      (''draft'', JBool draft), (''prerelease'', JBool (re_prerelease r)), (''make_latest'', JStr latest)]"

text \<open>The id of the draft that was created, with the draft itself.\<close>

definition created_release :: "string \<Rightarrow> (release_wire \<times> int) option" where
  "created_release payload =
     (case decode_release payload of
        None \<Rightarrow> None
      | Some w \<Rightarrow> (case rw_id w of None \<Rightarrow> None | Some i \<Rightarrow> if i \<le> 0 then None else Some (w, i)))"

section \<open>Reserving\<close>

definition create_tag :: "server \<Rightarrow> release \<Rightarrow> unit command" where
  "create_tag srv r =
     then_do (on_error ''release tag reservation failed; inspect the remote state before retrying''
       (api_json srv (re_token r) Post (repo_path @ ''/git/refs'') [] (Some (ref_json r)) [201])) (\<lambda>p.
     refuse_if (reference_of (gp_body p) \<noteq> Some (source_tag r))
       ''release tag creation returned invalid metadata; inspect the remote state'' (give ()))"

definition create_draft :: "server \<Rightarrow> release \<Rightarrow> int command" where
  "create_draft srv r =
     then_do (on_error ''draft release creation failed; inspect the reserved tag before retrying''
       (api_json srv (re_token r) Post (repo_path @ ''/releases'') []
         (Some (release_json r (reservation_body r) True ''false'')) [201])) (\<lambda>p.
     then_do (from_option ''draft release creation returned invalid metadata; inspect the remote state''
       (created_release (gp_body p))) (\<lambda>(w, i).
     refuse_if (validate_release w i r (reservation_body r) True False [] \<noteq> Inr ())
       ''draft release did not match the reservation; inspect the remote state'' (give i)))"

definition reserve :: "server \<Rightarrow> release \<Rightarrow> output_view \<Rightarrow> string command" where
  "reserve srv r out =
     then_do (from_result (validate_output_path (re_output r) (ov_first out))) (\<lambda>_.
     then_do (trust srv r) (\<lambda>_.
     then_do (require_main_tip srv r) (\<lambda>_.
     then_do (require_tag_absent srv r) (\<lambda>_.
     then_do (require_release_tag_absent srv r) (\<lambda>_.
     then_do (create_tag srv r) (\<lambda>_.
     then_do (on_error ''release trust root changed after tag creation; inspect the remote state'' (trust_reserved srv r)) (\<lambda>_.
     then_do (create_draft srv r) (\<lambda>i.
     then_do (on_error ''release trust root changed after draft creation; inspect the remote state'' (trust_reserved srv r)) (\<lambda>_.
     then_do (prefix_error ''reserved release readback failed before output binding: '' (get_release srv r i)) (\<lambda>w.
     refuse_if (validate_release w i r (reservation_body r) True False [] \<noteq> Inr ())
       ''reserved release changed before output binding; inspect the remote state''
       (from_result (write_reservation_outputs out (re_output r) i r))))))))))))"

definition verify_reserved :: "server \<Rightarrow> release \<Rightarrow> (string \<Rightarrow> string) \<Rightarrow> unit command" where
  "verify_reserved srv r getenv =
     then_do (from_result (load_release_id getenv)) (\<lambda>i.
     then_do (trust_reserved srv r) (\<lambda>_.
     then_do (get_release srv r i) (\<lambda>w.
     refuse_if (validate_release w i r (reservation_body r) True False [] \<noteq> Inr ())
       ''reserved release state does not match this workflow'' (give ()))))"

section \<open>Binding\<close>

definition patch_release :: "server \<Rightarrow> release \<Rightarrow> int \<Rightarrow> json \<Rightarrow> string \<Rightarrow> gh_response command" where
  "patch_release srv r i j e = on_error e (api_json srv (re_token r) Patch (release_path i) [] (Some j) [200])"

text \<open>What a change of the release returned, which must be the exact release.\<close>

definition accept_exact :: "string \<Rightarrow> release \<Rightarrow> int \<Rightarrow> string \<Rightarrow> bool \<Rightarrow> bool \<Rightarrow> local_asset list \<Rightarrow> string \<Rightarrow> unit command" where
  "accept_exact payload r i body draft immutable assets e =
     refuse_if (case decode_release payload of None \<Rightarrow> True | Some w \<Rightarrow> validate_release w i r body draft immutable assets \<noteq> Inr ())
       e (give ())"

definition bind_image :: "server \<Rightarrow> release \<Rightarrow> (string \<Rightarrow> string) \<Rightarrow> unit command" where
  "bind_image srv r getenv =
     then_do (from_result (load_release_id getenv)) (\<lambda>i.
     then_do (from_result (load_binding r getenv)) (\<lambda>b.
     then_do (trust_reserved srv r) (\<lambda>_.
     then_do (require_image_binding srv r b) (\<lambda>_.
     then_do (get_release srv r i) (\<lambda>w.
     refuse_if (validate_release w i r (reservation_body r) True False [] \<noteq> Inr ())
       ''only the untouched reserved draft can be bound'' (
     then_do (patch_release srv r i (release_json r (bound_body r b) True ''false'')
       ''image binding failed; inspect the remote draft before retrying'') (\<lambda>p.
     then_do (accept_exact (gp_body p) r i (bound_body r b) True False [] ''image binding returned an unexpected draft state'') (\<lambda>_.
     read_exact srv r i (bound_body r b) True False [] ''image binding did not read back as the exact bound draft''))))))))"

definition verify_bound :: "server \<Rightarrow> release \<Rightarrow> (string \<Rightarrow> string) \<Rightarrow> unit command" where
  "verify_bound srv r getenv =
     then_do (from_result (load_release_id getenv)) (\<lambda>i.
     then_do (from_result (load_binding r getenv)) (\<lambda>b.
     then_do (trust_reserved srv r) (\<lambda>_.
     then_do (require_image_binding srv r b) (\<lambda>_.
     then_do (get_release srv r i) (\<lambda>w.
     refuse_if (validate_release w i r (bound_body r b) True False [] \<noteq> Inr ())
       ''bound release state does not match this workflow'' (give ()))))))"

section \<open>Uploading\<close>

text \<open>The metadata an upload returns, which must be that of the asset.\<close>

definition uploaded_exactly :: "string \<Rightarrow> local_asset \<Rightarrow> bool" where
  "uploaded_exactly payload a \<longleftrightarrow>
     (case decode_with (struct_into asset_fields) no_asset payload of None \<Rightarrow> False | Some m \<Rightarrow> asset_matches m a)"

fun upload_loop :: "server \<Rightarrow> release \<Rightarrow> int \<Rightarrow> string \<Rightarrow> local_asset list \<Rightarrow> local_asset list \<Rightarrow> unit command" where
  "upload_loop srv r i body uploaded [] = give ()"
| "upload_loop srv r i body uploaded (a # as) =
     then_do (on_error (''upload release asset '' @ quoted (la_name a) @ '' failed; inspect the partial draft'')
       (upload srv (re_token r) (release_path i @ ''/assets'') [(''name'', la_name a)] (la_data a))) (\<lambda>p.
     refuse_if (\<not> uploaded_exactly (gp_body p) a)
       (''upload release asset '' @ quoted (la_name a) @ '' returned invalid integrity metadata'') (
     then_do (read_exact srv r i body True False (uploaded @ [a])
       (''release state changed after uploading asset '' @ quoted (la_name a))) (\<lambda>_.
     upload_loop srv r i body (uploaded @ [a]) as)))"

definition upload_assets :: "server \<Rightarrow> release \<Rightarrow> (string \<Rightarrow> string) \<Rightarrow> bundle_tools \<Rightarrow> (string \<Rightarrow> file_view) \<Rightarrow> unit command" where
  "upload_assets srv r getenv tools view =
     then_do (from_result (load_release_id getenv)) (\<lambda>i.
     then_do (from_result (load_binding r getenv)) (\<lambda>b.
     then_do (from_result (load_release_assets tools view r b getenv)) (\<lambda>assets.
     then_do (trust_reserved srv r) (\<lambda>_.
     then_do (require_image_binding srv r b) (\<lambda>_.
     then_do (read_exact srv r i (bound_body r b) True False [] ''asset upload requires a bound draft with zero assets'') (\<lambda>_.
     upload_loop srv r i (bound_body r b) [] assets))))))"

section \<open>Publishing\<close>

definition publish :: "server \<Rightarrow> release \<Rightarrow> (string \<Rightarrow> string) \<Rightarrow> bundle_tools \<Rightarrow> (string \<Rightarrow> file_view) \<Rightarrow> unit command" where
  "publish srv r getenv tools view =
     then_do (from_result (load_release_id getenv)) (\<lambda>i.
     then_do (from_result (load_binding r getenv)) (\<lambda>b.
     then_do (from_result (load_release_assets tools view r b getenv)) (\<lambda>assets.
     then_do (trust_reserved srv r) (\<lambda>_.
     then_do (require_image_binding srv r b) (\<lambda>_.
     then_do (read_exact srv r i (bound_body r b) True False assets ''publish requires the exact complete bound draft'') (\<lambda>_.
     then_do (patch_release srv r i (release_json r (bound_body r b) False (if re_prerelease r then ''false'' else ''true''))
       ''release publication failed; inspect the remote state before retrying'') (\<lambda>p.
     then_do (accept_exact (gp_body p) r i (bound_body r b) False True assets ''release publication returned an unexpected state'') (\<lambda>_.
     then_do (read_exact srv r i (bound_body r b) False True assets ''published release did not read back as immutable'') (\<lambda>_.
     then_do (on_error ''final immutable release trust check failed'' (trust_reserved srv r)) (\<lambda>_.
     on_error ''final immutable release OCI binding check failed'' (require_image_binding srv r b)))))))))))"

end
