(* ===== verification/ReleaseFacts.thy ===== *)
theory ReleaseFacts
  imports ReleaseMachine "HOL-Library.Sublist"
begin

text \<open>
  What the commands of the release guard write and with which credential.  A command changes
  the remote state only by requests that are not a GET.
\<close>

section \<open>Writes\<close>

definition writing :: "gh_request \<Rightarrow> bool" where "writing q \<longleftrightarrow> gr_method q \<noteq> Get"

text \<open>
  A command writes \<open>ws\<close>: the requests it adds that are not a GET are the first few of \<open>ws\<close>, and all
  of them when it succeeds.
\<close>

definition writes :: "gh_request list \<Rightarrow> 'a command \<Rightarrow> bool" where
  "writes ws m \<longleftrightarrow>
     (\<forall>h. \<exists>qs. snd (m h) = h @ qs \<and> prefix (filter writing qs) ws \<and> (isOk (fst (m h)) \<longrightarrow> filter writing qs = ws))"

named_theorems writes_intros \<open>what a command writes\<close>

lemma writes_nothing: "sends (\<lambda>q. \<not> writing q) m \<Longrightarrow> writes [] m"
  unfolding writes_def sends_def by (metis filter_False list_all_iff prefix_bot.bot_least)

lemma writes_then:
  assumes m: "writes ws m" and f: "\<And>a. writes vs (f a)"
  shows "writes (ws @ vs) (then_do m f)"
  unfolding writes_def
proof
  fix h
  obtain qs where qs: "snd (m h) = h @ qs" "prefix (filter writing qs) ws" "isOk (fst (m h)) \<longrightarrow> filter writing qs = ws"
    using m by (auto simp: writes_def)
  show "\<exists>qs. snd (then_do m f h) = h @ qs \<and> prefix (filter writing qs) (ws @ vs) \<and>
      (isOk (fst (then_do m f h)) \<longrightarrow> filter writing qs = ws @ vs)"
  proof (cases "fst (m h)")
    case (Inl e)
    then have "then_do m f h = (Inl e, h @ qs)" using qs(1) by (cases "m h") (simp add: then_do_def)
    then show ?thesis using qs(2) by (auto simp: isOk_def intro: prefix_prefix)
  next
    case (Inr a)
    then have r: "then_do m f h = f a (h @ qs)" using qs(1) by (cases "m h") (simp add: then_do_def)
    obtain ps where "snd (f a (h @ qs)) = (h @ qs) @ ps" "prefix (filter writing ps) vs"
      "isOk (fst (f a (h @ qs))) \<longrightarrow> filter writing ps = vs" using f unfolding writes_def by blast
    then show ?thesis using r qs(3) Inr by (intro exI[of _ "qs @ ps"]) (simp add: isOk_def)
  qed
qed

lemma writes_read: "writes [] m \<Longrightarrow> (\<And>a. writes vs (f a)) \<Longrightarrow> writes vs (then_do m f)"
  using writes_then[of "[]" m vs f] by simp

lemma writes_refuse: "writes ws (refuse e)"
  by (simp add: writes_def refuse_def isOk_def)

lemma writes_refuse_if: "writes ws m \<Longrightarrow> writes ws (refuse_if b e m)"
  by (simp add: refuse_if_def writes_refuse)

lemma writes_give: "writes [] (give a)"
  by (simp add: writes_def give_def)

lemma writes_from_result: "(\<And>a. x = Inr a \<Longrightarrow> writes ws (f a)) \<Longrightarrow> writes ws (then_do (from_result x) f)"
  by (cases x) (simp_all add: from_result_def then_do_def refuse_def give_def writes_def isOk_def)

lemma writes_from_option: "(\<And>a. x = Some a \<Longrightarrow> writes ws (f a)) \<Longrightarrow> writes ws (then_do (from_option e x) f)"
  by (cases x) (simp_all add: from_option_def then_do_def refuse_def give_def writes_def isOk_def)

lemma writes_same_run:
  assumes "\<And>h. snd (m' h) = snd (m h) \<and> isOk (fst (m' h)) = isOk (fst (m h))" "writes ws m"
  shows "writes ws m'"
  using assms by (simp add: writes_def)

lemma writes_on_error: "writes ws m \<Longrightarrow> writes ws (on_error e m)"
  by (erule writes_same_run[rotated]) (auto simp: on_error_def isOk_def split: prod.split sum.split)

lemma writes_prefix_error: "writes ws m \<Longrightarrow> writes ws (prefix_error e m)"
  by (erule writes_same_run[rotated]) (auto simp: prefix_error_def isOk_def split: prod.split sum.split)

lemma writes_send: "writing rq \<Longrightarrow> writes [rq] (gh_send srv rq statuses)"
  by (auto simp: writes_def gh_send_def isOk_def)

lemma sends_same_run: "(\<And>h. snd (m' h) = snd (m h)) \<Longrightarrow> sends P m \<Longrightarrow> sends P m'"
  by (simp add: sends_def)

lemma sends_weaken: "sends P m \<Longrightarrow> (\<And>q. P q \<Longrightarrow> Q q) \<Longrightarrow> sends Q m"
  unfolding sends_def by (metis list_all_iff)

lemma sends_prefix_error [send_intros]: "sends P m \<Longrightarrow> sends P (prefix_error e m)"
  by (erule sends_same_run[rotated]) (auto simp: prefix_error_def split: prod.split sum.split)

lemma sends_case_prod [send_intros]: "(\<And>a b. sends P (f a b)) \<Longrightarrow> sends P (case x of (a, b) \<Rightarrow> f a b)"
  by (cases x) simp

section \<open>The checks only read\<close>

text \<open>
  Every request of the checks is a GET of the API with one of the two credentials.
\<close>

definition reading :: "release \<Rightarrow> gh_request \<Rightarrow> bool" where
  "reading r q \<longleftrightarrow> gr_method q = Get \<and> gr_origin q = ApiOrigin \<and> gr_body q = NoBody \<and>
     (gr_token q = re_token r \<or> gr_token q = re_policy_token r)"

lemma sends_api_get:
  "token = re_token r \<or> token = re_policy_token r \<Longrightarrow> sends (reading r) (api_json srv token Get path query None statuses)"
  by (auto simp: api_json_def reading_def intro!: send_intros sends_send)

lemma reads_get_json [send_intros]:
  "sends (reading r) (get_json srv (re_token r) path query e)"
  "sends (reading r) (get_json srv (re_policy_token r) path query e)"
  by (simp_all add: get_json_def sends_on_error sends_api_get)

lemma reads_problem [send_intros]: "sends P (refuse_problem p)"
  by (auto simp: refuse_problem_def intro: send_intros split: option.split)

lemma reads_listed_pages [send_intros]: "sends (reading r) (listed_pages srv r k seen)"
  by (induction k arbitrary: seen) (auto intro!: send_intros)

lemma reads_binding_pages [send_intros]: "sends (reading r) (binding_pages srv r b k seen m)"
  by (induction k arbitrary: seen m) (auto intro!: send_intros)

lemma reads_policy [send_intros]: "sends (reading r) (verify_policy srv r)"
  unfolding verify_policy_def require_repository_def require_main_protection_def require_public_package_def require_ruleset_def
    require_immutable_releases_def require_actions_policy_def
  by (auto intro!: send_intros)

lemma reads_checks [send_intros]:
  "sends (reading r) (require_main_tip srv r)" "sends (reading r) (require_release_tag_absent srv r)"
  "sends (reading r) (require_image_binding srv r b)" "sends (reading r) (require_tag_absent srv r)" "sends (reading r) (require_tag srv r)"
  unfolding require_main_tip_def require_release_tag_absent_def require_image_binding_def require_tag_absent_def require_tag_def
  by (auto intro!: send_intros sends_api_get)

lemma reads_trust [send_intros]: "sends (reading r) (trust srv r)" "sends (reading r) (trust_reserved srv r)"
  unfolding trust_def trust_reserved_def by (auto intro!: send_intros)

lemma reads_release [send_intros]:
  "sends (reading r) (get_release srv r i)" "sends (reading r) (read_exact srv r i body d m as e)"
  unfolding get_release_def read_exact_def by (auto intro!: send_intros sends_api_get)

lemma reads_nothing [writes_intros]: "sends (reading r) m \<Longrightarrow> writes [] m"
  by (rule writes_nothing, erule sends_weaken) (simp add: reading_def writing_def)

section \<open>The changes of the remote state\<close>

definition change :: "release \<Rightarrow> gh_method \<Rightarrow> string \<Rightarrow> json \<Rightarrow> gh_request" where
  "change r meth path j = \<lparr>gr_origin = ApiOrigin, gr_token = re_token r, gr_method = meth, gr_path = path, gr_query = [],
     gr_body = JsonBody j\<rparr>"

definition tag_request :: "release \<Rightarrow> gh_request" where
  "tag_request r = change r Post (repo_path @ ''/git/refs'') (ref_json r)"

definition draft_request :: "release \<Rightarrow> gh_request" where
  "draft_request r = change r Post (repo_path @ ''/releases'') (release_json r (reservation_body r) True ''false'')"

definition bind_request :: "release \<Rightarrow> int \<Rightarrow> binding \<Rightarrow> gh_request" where
  "bind_request r i b = change r Patch (release_path i) (release_json r (bound_body r b) True ''false'')"

definition publish_request :: "release \<Rightarrow> int \<Rightarrow> binding \<Rightarrow> gh_request" where
  "publish_request r i b =
     change r Patch (release_path i) (release_json r (bound_body r b) False (if re_prerelease r then ''false'' else ''true''))"

definition upload_request :: "release \<Rightarrow> int \<Rightarrow> local_asset \<Rightarrow> gh_request" where
  "upload_request r i a = \<lparr>gr_origin = UploadOrigin, gr_token = re_token r, gr_method = Post, gr_path = release_path i @ ''/assets'',
     gr_query = [(''name'', la_name a)], gr_body = RawBody (la_data a)\<rparr>"

lemma writes_change [writes_intros]:
  "meth \<noteq> Get \<Longrightarrow> writes [change r meth path j] (api_json srv (re_token r) meth path [] (Some j) statuses)"
  by (auto simp: api_json_def change_def writing_def intro!: writes_refuse_if writes_send)

lemma writes_patch [writes_intros]: "writes [change r Patch (release_path i) j] (patch_release srv r i j e)"
  by (simp add: patch_release_def writes_on_error writes_change)

lemma writes_upload [writes_intros]:
  "writes [upload_request r i a]
     (upload srv (re_token r) (release_path i @ ''/assets'') [(''name'', la_name a)] (la_data a))"
  by (auto simp: upload_def upload_request_def writing_def intro!: writes_send)

lemma reads_accept [send_intros]: "sends P (accept_exact payload r i body d m as e)"
  by (simp add: accept_exact_def send_intros)

lemma writes_create_tag [writes_intros]: "writes [tag_request r] (create_tag srv r)"
proof -
  have "writes ([tag_request r] @ []) (create_tag srv r)"
    unfolding create_tag_def tag_request_def
    by (intro writes_then writes_on_error writes_change writes_refuse_if writes_give) simp
  then show ?thesis by simp
qed

lemma writes_create_draft [writes_intros]: "writes [draft_request r] (create_draft srv r)"
proof -
  have "writes ([draft_request r] @ []) (create_draft srv r)"
    unfolding create_draft_def draft_request_def
    by (intro writes_then writes_on_error writes_change) (auto intro!: reads_nothing send_intros)
  then show ?thesis by simp
qed

text \<open>A change first, and then a check that only reads first.\<close>

lemma writes_cons: "writes [q] m \<Longrightarrow> (\<And>a. writes qs (f a)) \<Longrightarrow> writes (q # qs) (then_do m f)"
  using writes_then[of "[q]" m qs f] by simp

lemma writes_check: "sends (reading r) m \<Longrightarrow> (\<And>a. writes vs (f a)) \<Longrightarrow> writes vs (then_do m f)"
  by (rule writes_read[OF reads_nothing])

lemmas check_steps = reads_trust[THEN writes_check] reads_checks[THEN writes_check] reads_release[THEN writes_check]
  reads_trust[THEN sends_on_error, THEN writes_check]

lemma writes_reserve: "writes [tag_request r, draft_request r] (reserve srv r out)"
  unfolding reserve_def
  by (intro writes_from_result check_steps writes_cons[OF writes_create_tag] writes_cons[OF writes_create_draft] reads_nothing[of r]
      send_intros)

lemma writes_bind:
  "writes (case (load_release_id getenv, load_binding r getenv) of (Inr i, Inr b) \<Rightarrow> [bind_request r i b] | _ \<Rightarrow> [])
     (bind_image srv r getenv)"
  unfolding bind_image_def bind_request_def
  by (intro writes_from_result, simp only: prod.case sum.case,
      intro check_steps writes_refuse_if writes_cons[OF writes_patch] reads_nothing[of r] send_intros)

lemma writes_upload_loop: "writes (map (upload_request r i) as) (upload_loop srv r i body uploaded as)"
proof (induction as arbitrary: uploaded)
  case (Cons a as)
  show ?case
    unfolding upload_loop.simps list.map
    by (intro writes_cons writes_on_error writes_upload writes_refuse_if check_steps Cons.IH)
qed (simp add: writes_give)

lemma writes_upload_assets:
  "writes (case (load_release_id getenv, load_binding r getenv) of
       (Inr i, Inr b) \<Rightarrow> (case load_release_assets tools view r b getenv of Inr as \<Rightarrow> map (upload_request r i) as | _ \<Rightarrow> [])
     | _ \<Rightarrow> []) (upload_assets srv r getenv tools view)"
  unfolding upload_assets_def
  by (intro writes_from_result, simp only: prod.case sum.case, intro check_steps writes_upload_loop)

lemma writes_publish:
  "writes (case (load_release_id getenv, load_binding r getenv) of
       (Inr i, Inr b) \<Rightarrow> (case load_release_assets tools view r b getenv of Inr as \<Rightarrow> [publish_request r i b] | _ \<Rightarrow> [])
     | _ \<Rightarrow> []) (publish srv r getenv tools view)"
  unfolding publish_def publish_request_def
  by (intro writes_from_result, simp only: prod.case sum.case,
      intro check_steps writes_cons[OF writes_patch] reads_nothing[of r] send_intros)

lemma reads_verify: "sends (reading r) (verify_reserved srv r getenv)" "sends (reading r) (verify_bound srv r getenv)"
  unfolding verify_reserved_def verify_bound_def by (auto intro!: send_intros)

end
