(* ===== verification/ReleaseState.thy ===== *)
theory ReleaseState
  imports ReleaseFacts "HOL-Library.Multiset"
begin

text \<open>
  The state of a release that the guard insists on, as one predicate, and the proof that the
  comparison of \<open>validateRelease\<close> decides it; from there, what a command that succeeds has
  seen on the server.
\<close>

section \<open>The exact release\<close>

text \<open>Name, state, size and digest: of an asset on the server and of a local one.\<close>

definition asset_facts :: "release_asset \<Rightarrow> string option \<times> string option \<times> int option \<times> string option" where
  "asset_facts m = (ra_name m, ra_state m, ra_size m, ra_digest m)"

definition local_facts :: "local_asset \<Rightarrow> string option \<times> string option \<times> int option \<times> string option" where
  "local_facts a = (Some (la_name a), Some ''uploaded'', Some (la_size a), Some (la_digest a))"

definition positive_id :: "release_asset \<Rightarrow> bool" where
  "positive_id m \<longleftrightarrow> (case ra_id m of None \<Rightarrow> False | Some i \<Rightarrow> 0 < i)"

definition exact_assets :: "release_asset list \<Rightarrow> local_asset list \<Rightarrow> bool" where
  "exact_assets ms as \<longleftrightarrow>
     list_all positive_id ms \<and> distinct (map ra_id ms) \<and> mset (map asset_facts ms) = mset (map local_facts as)"

definition exact_release :: "release_wire \<Rightarrow> int \<Rightarrow> release \<Rightarrow> string \<Rightarrow> bool \<Rightarrow> bool \<Rightarrow> local_asset list \<Rightarrow> bool" where
  "exact_release w i r body draft immutable as \<longleftrightarrow>
     rw_id w = Some i \<and> rw_tag w = Some (re_tag r) \<and> rw_target w \<in> {Some (re_sha r), Some ''main''} \<and>
     rw_name w = Some (release_title r) \<and> rw_body w = Some body \<and> rw_draft w = Some draft \<and>
     rw_prerelease w = Some (re_prerelease r) \<and> rw_immutable w = Some immutable \<and>
     (case rw_assets w of None \<Rightarrow> False | Some s \<Rightarrow> exact_assets (items s) as)"

definition one_asset :: "(string \<rightharpoonup> local_asset) \<Rightarrow> release_asset \<Rightarrow> bool" where
  "one_asset E m \<longleftrightarrow> positive_id m \<and>
     (case ra_name m of None \<Rightarrow> False | Some n \<Rightarrow> (case E n of None \<Rightarrow> False | Some a \<Rightarrow> asset_matches m a))"

lemma check_assets_iff:
  "check_assets E ms seen ids = Inr () \<longleftrightarrow>
     list_all (one_asset E) ms \<and> distinct (map ra_name ms) \<and> distinct (map ra_id ms) \<and>
     set (map ra_name ms) \<inter> Some ` seen = {} \<and> set (map ra_id ms) \<inter> Some ` ids = {}"
proof (induction ms arbitrary: seen ids)
  case (Cons m ms)
  show ?case
  proof (cases "one_asset E m")
    case False
    then show ?thesis
      by (auto simp: one_asset_def positive_id_def asset_matches_def split: option.splits)
  next
    case True
    then obtain n i a where m: "ra_name m = Some n" "ra_id m = Some i" "0 < i" "E n = Some a" "asset_matches m a"
      by (auto simp: one_asset_def positive_id_def split: option.splits)
    have "check_assets E (m # ms) seen ids = Inr () \<longleftrightarrow>
        n \<notin> seen \<and> i \<notin> ids \<and> check_assets E ms (insert n seen) (insert i ids) = Inr ()"
      using m by simp
    also have "\<dots> \<longleftrightarrow> n \<notin> seen \<and> i \<notin> ids \<and> list_all (one_asset E) ms \<and> distinct (map ra_name ms) \<and> distinct (map ra_id ms) \<and>
        set (map ra_name ms) \<inter> Some ` insert n seen = {} \<and> set (map ra_id ms) \<inter> Some ` insert i ids = {}"
      using Cons by auto
    finally show ?thesis using m True by auto
  qed
qed simp

lemma expected_assets_iff:
  assumes "distinct (map la_name as)"
  shows "expected_assets as n = Some a \<longleftrightarrow> a \<in> set as \<and> la_name a = n"
proof -
  have "distinct (map fst (rev (map (\<lambda>a. (la_name a, a)) as)))" using assms by (simp add: comp_def flip: rev_map)
  then have "expected_assets as n = Some a \<longleftrightarrow> (n, a) \<in> set (rev (map (\<lambda>a. (la_name a, a)) as))"
    unfolding expected_assets_def by (rule map_of_eq_Some_iff)
  then show ?thesis by auto
qed

lemma one_asset_iff:
  assumes "distinct (map la_name as)"
  shows "one_asset (expected_assets as) m \<longleftrightarrow> positive_id m \<and> asset_facts m \<in> local_facts ` set as"
proof (cases "positive_id m")
  case True
  then have m: "asset_matches m a \<longleftrightarrow> asset_facts m = local_facts a" for a
    unfolding positive_id_def asset_matches_def asset_facts_def local_facts_def by (cases "ra_id m") auto
  have "one_asset (expected_assets as) m \<longleftrightarrow> (\<exists>n a. ra_name m = Some n \<and> expected_assets as n = Some a \<and> asset_matches m a)"
    using True unfolding one_asset_def by (auto split: option.splits)
  also have "\<dots> \<longleftrightarrow> (\<exists>n a. ra_name m = Some n \<and> a \<in> set as \<and> la_name a = n \<and> asset_facts m = local_facts a)"
    by (simp only: expected_assets_iff[OF assms] m conj_assoc)
  also have "\<dots> \<longleftrightarrow> asset_facts m \<in> local_facts ` set as"
    by (auto simp: asset_facts_def local_facts_def)
  finally show ?thesis using True by simp
qed (simp add: one_asset_def)

lemma check_assets_exact:
  assumes "distinct (map la_name as)"
  shows "length ms = length as \<and> check_assets (expected_assets as) ms {} {} = Inr () \<longleftrightarrow> exact_assets ms as"
proof
  have local: "distinct (map local_facts as)"
    using assms by (auto simp: distinct_map local_facts_def inj_on_def)
  assume L: "length ms = length as \<and> check_assets (expected_assets as) ms {} {} = Inr ()"
  then have ms: "list_all positive_id ms" "distinct (map ra_name ms)" "distinct (map ra_id ms)" "asset_facts ` set ms \<subseteq> local_facts ` set as"
    by (auto simp: check_assets_iff one_asset_iff[OF assms] list_all_iff)
  have facts: "distinct (map asset_facts ms)"
    using ms(2) by (auto simp: distinct_map asset_facts_def inj_on_def)
  have "card (asset_facts ` set ms) = card (local_facts ` set as)"
    using L facts local by (metis distinct_card length_map set_map)
  then have "asset_facts ` set ms = local_facts ` set as"
    by (intro card_subset_eq) (use ms(4) in auto)
  then have "mset (map asset_facts ms) = mset (map local_facts as)"
    using facts local by (metis set_eq_iff_mset_eq_distinct set_map)
  then show "exact_assets ms as" using ms by (simp add: exact_assets_def)
next
  assume R: "exact_assets ms as"
  then have e: "mset (map asset_facts ms) = mset (map local_facts as)" by (simp add: exact_assets_def)
  have n: "map fst (map asset_facts ms) = map ra_name ms" "map fst (map local_facts as) = map (Some \<circ> la_name) as"
    by (simp_all add: asset_facts_def local_facts_def comp_def)
  have "mset (map ra_name ms) = mset (map (Some \<circ> la_name) as)"
    using e unfolding n[symmetric] by (metis mset_map)
  moreover have "distinct (map (Some \<circ> la_name) as)" using assms by (auto simp: distinct_map inj_on_def)
  ultimately have "distinct (map ra_name ms)" by (metis mset_eq_imp_distinct_iff)
  moreover have "asset_facts ` set ms = local_facts ` set as" using e by (metis set_map set_mset_mset)
  moreover have "length ms = length as" using e by (metis length_map mset_eq_length)
  ultimately show "length ms = length as \<and> check_assets (expected_assets as) ms {} {} = Inr ()"
    using R by (auto simp: check_assets_iff one_asset_iff[OF assms] exact_assets_def list_all_iff)
qed

lemma validate_release_iff:
  assumes "distinct (map la_name as)"
  shows "validate_release w i r body draft immutable as = Inr () \<longleftrightarrow> exact_release w i r body draft immutable as"
proof (cases "rw_assets w")
  case (Some s)
  then show ?thesis
    using check_assets_exact[OF assms, of "items s"] by (auto simp: validate_release_def exact_release_def)
qed (simp add: validate_release_def exact_release_def)

section \<open>The names of the local assets\<close>

lemma load_assets_names:
  "load_assets sha view wanted paths = Inr as \<Longrightarrow> distinct (map la_name as) \<and> la_name ` set as \<subseteq> set wanted"
proof (induction paths arbitrary: wanted as)
  case (Cons path paths)
  then obtain a as' where a: "as = a # as'" "snapshot_asset sha (base_name path) (view path) = Inr a"
    and c: "base_name path \<in> set wanted"
    and l: "load_assets sha view (removeAll (base_name path) wanted) paths = Inr as'"
    by (auto simp: bind_def split: if_splits sum.splits)
  have "la_name a = base_name path" using a(2) by (auto simp: snapshot_asset_def bind_def split: sum.splits)
  then show ?case using Cons.IH[OF l] a(1) c by auto
qed simp

lemma release_asset_names:
  "load_release_assets tools view r b getenv = Inr as \<Longrightarrow> distinct (map la_name as) \<and> la_name ` set as \<subseteq> {bundle_name r, checksum_name r}"
  unfolding load_release_assets_def bind_def guard_def
  by (auto dest!: load_assets_names split: sum.splits option.splits if_splits)

section \<open>The live release\<close>

definition release_request :: "release \<Rightarrow> int \<Rightarrow> gh_request" where
  "release_request r i = \<lparr>gr_origin = ApiOrigin, gr_token = re_token r, gr_method = Get, gr_path = release_path i, gr_query = [],
     gr_body = NoBody\<rparr>"

text \<open>The release the server reports after the requests \<open>h\<close>, if it reports one.\<close>

definition live_release :: "server \<Rightarrow> release \<Rightarrow> int \<Rightarrow> gh_request list \<Rightarrow> release_wire option" where
  "live_release srv r i h =
     (case read_gh_answer (release_request r i) (srv h (release_request r i)) [200] of Inl e \<Rightarrow> None | Inr p \<Rightarrow> decode_release (gp_body p))"

lemma yields_prefix_error [simp]: "yields (prefix_error e m) h b h' \<longleftrightarrow> yields m h b h'"
  by (auto simp: yields_def prefix_error_def split: prod.splits sum.splits)

lemma yields_get_release:
  "yields (get_release srv r i) h w h' \<Longrightarrow> h' = h @ [release_request r i] \<and> live_release srv r i h = Some w"
  by (auto simp: get_release_def yields_then api_json_def yields_send live_release_def release_request_def)

text \<open>The live release is the exact one.\<close>

definition live_exactly :: "server \<Rightarrow> release \<Rightarrow> int \<Rightarrow> string \<Rightarrow> bool \<Rightarrow> bool \<Rightarrow> local_asset list \<Rightarrow> gh_request list \<Rightarrow> bool" where
  "live_exactly srv r i body draft immutable as h \<longleftrightarrow>
     (case live_release srv r i h of None \<Rightarrow> False | Some w \<Rightarrow> exact_release w i r body draft immutable as)"

lemma yields_read_exact:
  assumes "yields (read_exact srv r i body draft immutable as e) h u h'" "distinct (map la_name as)"
  shows "h' = h @ [release_request r i] \<and> live_exactly srv r i body draft immutable as h"
  using assms
  by (auto simp: read_exact_def yields_then live_exactly_def validate_release_iff[OF assms(2)] dest!: yields_get_release)

lemma yields_patch:
  "yields (patch_release srv r i j e) h p h' \<Longrightarrow> h' = h @ [change r Patch (release_path i) j]"
  by (auto simp: patch_release_def api_json_def yields_send change_def)

lemma yields_reads: "sends (reading r) m \<Longrightarrow> yields m h a h' \<Longrightarrow> \<exists>qs. h' = h @ qs \<and> list_all (reading r) qs"
  unfolding sends_def yields_def by (metis snd_conv)

lemma yields_accept:
  "yields (accept_exact payload r i body draft immutable as e) h u h' \<Longrightarrow> h' = h"
  by (simp add: accept_exact_def)

end
