(* ===== verification/ReleaseImage.thy ===== *)
theory ReleaseImage
  imports ReleaseState
begin

text \<open>
  What the check of the container package decides: over all pages of its versions, exactly one
  carries the registry tag of this invocation, and it is the image that is being released.
\<close>

section \<open>Versions\<close>

type_synonym version = "int \<times> string \<times> string list"

definition tagged :: "release \<Rightarrow> version \<Rightarrow> bool" where
  "tagged r v \<longleftrightarrow> oci_tag r \<in> set (snd (snd v))"

text \<open>No empty, repeated or forbidden tag; with the registry tag it is the image and has no other.\<close>

definition sound_version :: "release \<Rightarrow> binding \<Rightarrow> version \<Rightarrow> bool" where
  "sound_version r b v \<longleftrightarrow>
     (let tags = snd (snd v)
      in distinct tags \<and> set tags \<inter> {[], re_tag r, re_version r, ''latest''} = {} \<and>
         (tagged r v \<longrightarrow> tags = [oci_tag r] \<and> fst (snd v) = bi_digest b))"

text \<open>The versions bind the image: one of them, and no other, has the registry tag.\<close>

definition bound_once :: "release \<Rightarrow> binding \<Rightarrow> version list \<Rightarrow> bool" where
  "bound_once r b vs \<longleftrightarrow> distinct (map fst vs) \<and> list_all (sound_version r b) vs \<and> length (filter (tagged r) vs) = 1"

lemma check_tags_iff:
  "check_tags r b d c tags seen m = Inr m' \<longleftrightarrow>
     distinct tags \<and> set tags \<inter> seen = {} \<and> set tags \<inter> {[], re_tag r, re_version r, ''latest''} = {} \<and>
     (oci_tag r \<in> set tags \<longrightarrow> c = 1 \<and> d = bi_digest b) \<and> m' = (if oci_tag r \<in> set tags then m + 1 else m)"
proof (induction tags arbitrary: d c seen m)
  case (Cons t ts)
  show ?case
    by (cases "t = oci_tag r") (auto simp: Cons split: if_splits)
qed auto

lemma complete_check:
  "check_tags r b d (length tags) tags {} m = Inr m' \<longleftrightarrow>
     sound_version r b (i, d, tags) \<and> m' = m + length (filter (tagged r) [(i, d, tags)])"
proof -
  have "oci_tag r \<in> set tags \<and> length tags = 1 \<longleftrightarrow> tags = [oci_tag r]"
    by (cases tags) auto
  then show ?thesis unfolding check_tags_iff sound_version_def tagged_def Let_def by auto
qed

lemma check_versions_iff:
  "check_versions r b vs seen m = Inr (seen', m') \<longleftrightarrow>
     (\<exists>ts. map complete_version vs = map Some ts \<and> distinct (map fst ts) \<and> fst ` set ts \<inter> seen = {} \<and>
        list_all (sound_version r b) ts \<and> seen' = seen \<union> fst ` set ts \<and> m' = m + length (filter (tagged r) ts))"
proof (induction vs arbitrary: seen m)
  case (Cons v vs)
  show ?case
  proof (cases "complete_version v")
    case (Some t)
    obtain i d tags where t: "t = (i, d, tags)" by (cases t)
    have step: "check_versions r b (v # vs) seen m = Inr (seen', m') \<longleftrightarrow>
        i \<notin> seen \<and> sound_version r b t \<and>
        check_versions r b vs (insert i seen) (m + length (filter (tagged r) [t])) = Inr (seen', m')"
    proof (cases "check_tags r b d (length tags) tags {} m")
      case (Inl e)
      then have "\<not> sound_version r b t"
        unfolding t using complete_check[of r b d tags m "m + length (filter (tagged r) [(i, d, tags)])" i] by auto
      then show ?thesis using Some t Inl by simp
    next
      case (Inr n)
      then have "sound_version r b t" "n = m + length (filter (tagged r) [t])"
        unfolding t using complete_check[of r b d tags m n i] by auto
      then show ?thesis using Some t Inr by simp
    qed
    show ?thesis unfolding step Cons.IH
    proof (safe, goal_cases)
      case (1 ts) then show ?case using Some t by (intro exI[of _ "t # ts"]) auto
    next
      case (2 ts) then show ?case using Some t by auto
    next
      case (3 ts) then show ?case using Some t by auto
    next
      case (4 ts)
      then obtain us where "ts = t # us" using Some by (cases ts) auto
      then show ?case using 4 Some t by (intro exI[of _ us]) auto
    qed
  next
    case None
    have "map complete_version (v # vs) \<noteq> map Some ts" for ts using None by (cases ts) auto
    then show ?thesis using None by simp
  qed
qed auto

section \<open>Pages\<close>

definition page_request :: "release \<Rightarrow> nat \<Rightarrow> gh_request" where
  "page_request r n = \<lparr>gr_origin = ApiOrigin, gr_token = re_token r, gr_method = Get, gr_path = package_path @ ''/versions'',
     gr_query = page_query n, gr_body = NoBody\<rparr>"

text \<open>A page as the server answers it after the requests \<open>h\<close>: its versions and whether another follows.\<close>

definition served_page :: "server \<Rightarrow> release \<Rightarrow> gh_request list \<Rightarrow> nat \<Rightarrow> (package_version list \<times> bool) option" where
  "served_page srv r h n =
     (case read_gh_answer (page_request r n) (srv h (page_request r n)) [200] of
        Inl e \<Rightarrow> None
      | Inr p \<Rightarrow> map_option (\<lambda>vs. (vs, next_page (gp_link p))) (versions_of (gp_body p)))"

text \<open>The pages from the n-th to the last.\<close>

fun served_pages :: "server \<Rightarrow> release \<Rightarrow> gh_request list \<Rightarrow> nat \<Rightarrow> package_version list list \<Rightarrow> bool" where
  "served_pages srv r h n [] \<longleftrightarrow> False"
| "served_pages srv r h n (vs # rest) \<longleftrightarrow>
     (if rest = [] then served_page srv r h n = Some (vs, False)
      else served_page srv r h n = Some (vs, True) \<and> vs \<noteq> [] \<and> served_pages srv r (h @ [page_request r n]) (Suc n) rest)"

lemma good_package_path: "\<not> bad_path (package_path @ ''/versions'')"
  by code_simp

lemma yields_page:
  "yields (get_json srv (re_token r) (package_path @ ''/versions'') (page_query n) e) h p h' \<longleftrightarrow>
     read_gh_answer (page_request r n) (srv h (page_request r n)) [200] = Inr p \<and> h' = h @ [page_request r n]"
  by (simp add: get_json_def api_json_def yields_send page_request_def good_package_path del: append.simps)

definition runs :: "'a command \<Rightarrow> gh_request list \<Rightarrow> bool" where "runs m h \<longleftrightarrow> isOk (fst (m h))"

lemma runs_iff: "runs m h \<longleftrightarrow> (\<exists>a h'. yields m h a h')"
  by (auto simp: runs_def yields_def isOk_def split: sum.splits) (metis prod.collapse)

lemma runs_simps:
  "runs (then_do m f) h \<longleftrightarrow> (\<exists>a h'. yields m h a h' \<and> runs (f a) h')" "runs (refuse_if c e m) h \<longleftrightarrow> \<not> c \<and> runs m h"
  "runs (give a) h" "\<not> runs (refuse e) h"
  by (auto simp: runs_iff yields_then)

lemma binding_step:
  "runs (binding_pages srv r b (Suc k) seen m) h \<longleftrightarrow>
     (\<exists>vs next seen' m'. served_page srv r h (20 - k) = Some (vs, next) \<and> check_versions r b vs seen m = Inr (seen', m') \<and>
        (if next then vs \<noteq> [] \<and> runs (binding_pages srv r b k seen' m') (h @ [page_request r (20 - k)]) else m' = 1))"
  by (auto simp: runs_simps yields_page served_page_def split: sum.splits)

text \<open>The pages from the n-th on complete what the pages before them have shown.\<close>

definition completes :: "release \<Rightarrow> binding \<Rightarrow> int set \<Rightarrow> nat \<Rightarrow> package_version list \<Rightarrow> bool" where
  "completes r b seen m vs \<longleftrightarrow>
     (\<exists>ts. map complete_version vs = map Some ts \<and> distinct (map fst ts) \<and> fst ` set ts \<inter> seen = {} \<and>
        list_all (sound_version r b) ts \<and> m + length (filter (tagged r) ts) = 1)"

lemma completes_append:
  "completes r b seen m (vs @ ws) \<longleftrightarrow>
     (\<exists>seen' m'. check_versions r b vs seen m = Inr (seen', m') \<and> completes r b seen' m' ws)"
proof
  assume "completes r b seen m (vs @ ws)"
  then obtain ts where ts: "map complete_version (vs @ ws) = map Some ts" "distinct (map fst ts)" "fst ` set ts \<inter> seen = {}"
      "list_all (sound_version r b) ts" "m + length (filter (tagged r) ts) = 1"
    by (auto simp: completes_def)
  then obtain us us' where u: "ts = us @ us'" "map complete_version vs = map Some us" "map complete_version ws = map Some us'"
    by (auto simp: append_eq_map_conv)
  show "\<exists>seen' m'. check_versions r b vs seen m = Inr (seen', m') \<and> completes r b seen' m' ws"
    unfolding check_versions_iff completes_def
    by (intro exI[of _ "seen \<union> fst ` set us"] exI[of _ "m + length (filter (tagged r) us)"] conjI exI[of _ us] exI[of _ us'])
       (use ts u in auto)
next
  assume "\<exists>seen' m'. check_versions r b vs seen m = Inr (seen', m') \<and> completes r b seen' m' ws"
  then obtain us us' where
    u: "map complete_version vs = map Some us" "distinct (map fst us)" "fst ` set us \<inter> seen = {}" "list_all (sound_version r b) us"
      "map complete_version ws = map Some us'" "distinct (map fst us')" "fst ` set us' \<inter> (seen \<union> fst ` set us) = {}"
      "list_all (sound_version r b) us'" "m + length (filter (tagged r) us) + length (filter (tagged r) us') = 1"
    unfolding check_versions_iff completes_def by blast
  then show "completes r b seen m (vs @ ws)"
    unfolding completes_def by (intro exI[of _ "us @ us'"]) auto
qed

lemma completes_last:
  "completes r b seen m vs \<longleftrightarrow> (\<exists>seen'. check_versions r b vs seen m = Inr (seen', 1))"
  unfolding completes_def check_versions_iff by auto

lemma binding_pages_iff:
  "k \<le> 20 \<Longrightarrow> runs (binding_pages srv r b k seen m) h \<longleftrightarrow>
     (\<exists>ps. length ps \<le> k \<and> served_pages srv r h (21 - k) ps \<and> completes r b seen m (concat ps))"
proof (induction k arbitrary: seen m h)
  case 0
  then show ?case by (auto simp: runs_simps)
next
  case (Suc k)
  have n: "21 - Suc k = 20 - k" "21 - k = Suc (20 - k)" using Suc.prems by auto
  have IH: "runs (binding_pages srv r b k seen m) h \<longleftrightarrow>
     (\<exists>ps. length ps \<le> k \<and> served_pages srv r h (Suc (20 - k)) ps \<and> completes r b seen m (concat ps))" for seen m h
    using Suc.IH[of seen m h] Suc.prems unfolding n by simp
  show ?case
  proof
    assume "runs (binding_pages srv r b (Suc k) seen m) h"
    then obtain vs nxt seen' m' where v: "served_page srv r h (20 - k) = Some (vs, nxt)"
      "check_versions r b vs seen m = Inr (seen', m')"
      "if nxt then vs \<noteq> [] \<and> runs (binding_pages srv r b k seen' m') (h @ [page_request r (20 - k)]) else m' = 1"
      unfolding binding_step by blast
    show "\<exists>ps. length ps \<le> Suc k \<and> served_pages srv r h (21 - Suc k) ps \<and> completes r b seen m (concat ps)"
    proof (cases nxt)
      case True
      then obtain ps where ps: "length ps \<le> k" "served_pages srv r (h @ [page_request r (20 - k)]) (Suc (20 - k)) ps"
        "completes r b seen' m' (concat ps)" using v(3) IH by auto
      then have "ps \<noteq> []" by auto
      then show ?thesis using ps v True unfolding n
        by (intro exI[of _ "vs # ps"]) (auto simp: completes_append)
    next
      case False
      then show ?thesis using v unfolding n by (intro exI[of _ "[vs]"]) (auto simp: completes_last)
    qed
  next
    assume "\<exists>ps. length ps \<le> Suc k \<and> served_pages srv r h (21 - Suc k) ps \<and> completes r b seen m (concat ps)"
    then obtain ps where ps: "length ps \<le> Suc k" "served_pages srv r h (20 - k) ps" "completes r b seen m (concat ps)"
      unfolding n by blast
    then obtain vs qs where q: "ps = vs # qs" by (cases ps) auto
    show "runs (binding_pages srv r b (Suc k) seen m) h"
    proof (cases "qs = []")
      case True
      then show ?thesis unfolding binding_step using ps q by (auto simp: completes_last)
    next
      case False
      then obtain seen' m' where "check_versions r b vs seen m = Inr (seen', m')" "completes r b seen' m' (concat qs)"
        using ps(3) q by (auto simp: completes_append)
      then show ?thesis unfolding binding_step using ps q False
        by (intro exI[of _ vs] exI[of _ True] exI[of _ seen'] exI[of _ m']) (auto simp: IH)
    qed
  qed
qed

lemma bound_pages_iff:
  "runs (require_image_binding srv r b) h \<longleftrightarrow>
     (\<exists>ps ts. length ps \<le> 20 \<and> served_pages srv r h 1 ps \<and> map complete_version (concat ps) = map Some ts \<and> bound_once r b ts)"
proof -
  have "completes r b {} 0 vs \<longleftrightarrow> (\<exists>ts. map complete_version vs = map Some ts \<and> bound_once r b ts)" for vs
    by (auto simp: completes_def bound_once_def)
  then show ?thesis
    using binding_pages_iff[of 20 srv r b "{}" 0 h] by (auto simp: require_image_binding_def)
qed

end
