(* ===== verification/ReleaseText.thy ===== *)
theory ReleaseText
  imports ReleaseState
begin

text \<open>
  Two texts of the release guard: the version tag, compared with a grammar that generates it, and
  the body of the draft, which identifies the reservation it stands for.
\<close>

section \<open>The grammar of the tag\<close>

abbreviation dotted :: "string list \<Rightarrow> string" where "dotted xs \<equiv> join_texts [CHR ''.''] xs"

definition version_text :: "string list \<Rightarrow> string list \<Rightarrow> string" where
  "version_text core ids = dotted core @ (if ids = [] then [] else CHR ''-'' # dotted ids)"

definition identifier_ok :: "string \<Rightarrow> bool" where
  "identifier_ok i \<longleftrightarrow> i \<noteq> [] \<and> list_all identifier_char i \<and> (list_all decimal i \<longrightarrow> canonical_numeric i)"

text \<open>A v, three numbers and then any prerelease identifiers, in at most 96 bytes.\<close>

definition semver_tag :: "string list \<Rightarrow> string list \<Rightarrow> string \<Rightarrow> bool" where
  "semver_tag core ids tag \<longleftrightarrow>
     length core = 3 \<and> list_all canonical_numeric core \<and> list_all identifier_ok ids \<and> length tag \<le> 96 \<and>
     tag = CHR ''v'' # version_text core ids"

lemma identifier_error_iff: "identifier_error i = None \<longleftrightarrow> identifier_ok i"
  by (auto simp: identifier_error_def identifier_ok_def)

lemma first_error_iff: "first_error is = None \<longleftrightarrow> list_all identifier_ok is"
  by (induction "is") (auto simp flip: identifier_error_iff split: option.splits)

lemma decimal_not: "decimal c \<Longrightarrow> c \<noteq> CHR ''.'' \<and> c \<noteq> CHR ''-'' \<and> c \<noteq> CHR ''+''"
  by (auto simp: decimal_def in_range_def cbyte_def)

lemma identifier_char_not: "identifier_char c \<Longrightarrow> c \<noteq> CHR ''.'' \<and> c \<noteq> CHR ''+''"
  by (auto simp: identifier_char_def decimal_def in_range_def cbyte_def)

lemma canonical_chars: "canonical_numeric v \<Longrightarrow> v \<noteq> [] \<and> CHR ''.'' \<notin> set v \<and> CHR ''-'' \<notin> set v \<and> CHR ''+'' \<notin> set v"
  using decimal_not by (auto simp: canonical_numeric_def list_all_iff)

lemma identifier_chars: "identifier_ok v \<Longrightarrow> v \<noteq> [] \<and> CHR ''.'' \<notin> set v \<and> CHR ''+'' \<notin> set v"
  using identifier_char_not by (auto simp: identifier_ok_def list_all_iff)

lemma set_dotted: "c \<in> set (dotted xs) \<Longrightarrow> c = CHR ''.'' \<or> (\<exists>x \<in> set xs. c \<in> set x)"
  by (induction "[CHR ''.'']" xs rule: join_texts.induct) auto

lemma length_dotted: "list_all (\<lambda>x. x \<noteq> []) [a, b, c] \<Longrightarrow> 5 \<le> length (dotted [a, b, c])"
  by (cases a; cases b; cases c) auto

lemma parse_version:
  assumes "semver_tag core ids tag"
  shows "parse_semver_tag tag = Inr (version_text core ids, ids \<noteq> [])"
proof -
  obtain a b c where core: "core = [a, b, c]" using assms by (auto simp: semver_tag_def length_Suc_conv numeral_3_eq_3)
  have tag: "tag = CHR ''v'' # version_text core ids" "length tag \<le> 96" using assms by (auto simp: semver_tag_def)
  have nums: "list_all canonical_numeric core" and ids: "list_all identifier_ok ids" using assms by (simp_all add: semver_tag_def)
  have chars: "CHR ''-'' \<notin> set (dotted core)" "CHR ''+'' \<notin> set (dotted core)" "CHR ''+'' \<notin> set (dotted ids)"
    using nums ids canonical_chars identifier_chars by (auto simp: list_all_iff dest!: set_dotted)
  have split: "split_char (CHR ''.'') (dotted core) = core"
    by (rule split_join) (use core nums canonical_chars in \<open>auto simp: list_all_iff\<close>)
  have splits: "ids \<noteq> [] \<Longrightarrow> split_char (CHR ''.'') (dotted ids) = ids"
    by (rule split_join) (use ids identifier_chars in \<open>auto simp: list_all_iff\<close>)
  have size: "\<not> length tag < 6"
    using length_dotted[of a b c] nums canonical_chars unfolding tag core version_text_def by (auto simp: list_all_iff)
  have plus: "CHR ''+'' \<notin> set tag" using chars by (simp add: tag version_text_def)
  have dotted_ids: "ids \<noteq> [] \<Longrightarrow> dotted ids \<noteq> []" using splits by (metis identifier_chars ids list.set_intros(1) list_all_iff split_char.simps(1))
  show ?thesis
  proof (cases "ids = []")
    case True
    then have v: "version_text core ids = dotted core" by (simp add: version_text_def)
    then have "cut (CHR ''-'') (version_text core ids) = None" using chars by (simp add: cut_def)
    then show ?thesis
      using True size plus tag chars split nums core unfolding parse_semver_tag_def v by (simp add: Let_def)
  next
    case False
    then have v: "version_text core ids = dotted core @ CHR ''-'' # dotted ids" by (simp add: version_text_def)
    have "cut (CHR ''-'') (version_text core ids) = Some (dotted core, dotted ids)" unfolding v by (rule cut_fresh) (rule chars)
    then show ?thesis
      using False size plus tag chars split splits nums ids core dotted_ids first_error_iff[of ids] unfolding parse_semver_tag_def
      by (simp add: Let_def)
  qed
qed

lemma version_parsed:
  assumes "parse_semver_tag tag = Inr (v, pre)"
  shows "\<exists>core ids. semver_tag core ids tag \<and> v = version_text core ids \<and> pre = (ids \<noteq> [])"
proof -
  obtain core prerelease where cp: "(core, prerelease) = (case cut (CHR ''-'') (tl tag) of None \<Rightarrow> (tl tag, []) | Some (a, b) \<Rightarrow> (a, b))"
    by (metis surj_pair)
  let ?ids = "if prerelease = [] then [] else split_char (CHR ''.'') prerelease"
  have t: "6 \<le> length tag" "length tag \<le> 96" "tag ! 0 = CHR ''v''" "v = tl tag" "pre = (prerelease \<noteq> [])"
    "CHR ''-'' \<in> set (tl tag) \<longrightarrow> prerelease \<noteq> []" "length (split_char (CHR ''.'') core) = 3"
    "list_all canonical_numeric (split_char (CHR ''.'') core)" "prerelease \<noteq> [] \<longrightarrow> first_error (split_char (CHR ''.'') prerelease) = None"
    using assms unfolding parse_semver_tag_def Let_def cp[symmetric] by (auto split: if_splits)
  have ids: "list_all identifier_ok ?ids" "dotted ?ids = prerelease \<or> prerelease = []"
    using t(9) first_error_iff by (auto simp: join_split)
  have "tl tag = version_text (split_char (CHR ''.'') core) ?ids"
  proof (cases "CHR ''-'' \<in> set (tl tag)")
    case True
    then have c: "core = takeWhile (\<lambda>c. c \<noteq> CHR ''-'') (tl tag)" "prerelease = tl (dropWhile (\<lambda>c. c \<noteq> CHR ''-'') (tl tag))"
      using cp by (simp_all add: cut_def)
    have "dropWhile (\<lambda>c. c \<noteq> CHR ''-'') (tl tag) \<noteq> []" using True by (auto simp: dropWhile_eq_Nil_conv)
    then have "dropWhile (\<lambda>c. c \<noteq> CHR ''-'') (tl tag) = CHR ''-'' # prerelease"
      using c(2) hd_dropWhile[of "\<lambda>c. c \<noteq> CHR ''-''" "tl tag"] by (metis list.collapse)
    then have "tl tag = core @ CHR ''-'' # prerelease" using c(1) by (metis takeWhile_dropWhile_id)
    then show ?thesis using t(6) True by (simp add: version_text_def join_split)
  next
    case False
    then have "core = tl tag" "prerelease = []" using cp by (simp_all add: cut_def)
    then show ?thesis by (simp add: version_text_def join_split)
  qed
  then have "tag = CHR ''v'' # version_text (split_char (CHR ''.'') core) ?ids" "version_text (split_char (CHR ''.'') core) ?ids = v"
    using t(1,3,4) by (cases tag; auto)+
  moreover have "length (split_char (CHR ''.'') core) = 3" "pre = (?ids \<noteq> [])" using t(5,7) by simp_all
  ultimately show ?thesis using t(2,8) ids(1) unfolding semver_tag_def by metis
qed

lemma semver_iff:
  "parse_semver_tag tag = Inr (v, pre) \<longleftrightarrow> (\<exists>core ids. semver_tag core ids tag \<and> v = version_text core ids \<and> pre = (ids \<noteq> []))"
  using parse_version version_parsed by fastforce

section \<open>The body identifies the reservation\<close>

text \<open>The texts of an invocation are ASCII, as those a context is loaded from are.\<close>

definition plain :: "release \<Rightarrow> binding option \<Rightarrow> bool" where
  "plain r ob \<longleftrightarrow> list_all ascii (re_repository r) \<and> list_all ascii (re_tag r) \<and> list_all ascii (re_sha r) \<and>
     (case ob of None \<Rightarrow> True | Some b \<Rightarrow> list_all ascii (bi_digest b) \<and> list_all ascii (bi_url b))"

text \<open>The body of the untouched draft, or of the one that is bound to an image.\<close>

definition draft_body :: "release \<Rightarrow> binding option \<Rightarrow> string" where
  "draft_body r ob = (case ob of None \<Rightarrow> reservation_body r | Some b \<Rightarrow> bound_body r b)"

lemma int_text_inject [simp]: "int_text i = int_text j \<longleftrightarrow> i = j"
proof
  assume "int_text i = int_text j"
  then show "i = j"
    using dec_text_not_minus[of "nat i"] dec_text_not_minus[of "nat j"]
    by (cases "i < 0"; cases "j < 0") (simp_all add: int_text_def, (metis list.sel(1))+)
qed simp

lemma int_text_ascii: "list_all ascii (int_text i)"
proof -
  have "list_all ascii (dec_text n)" for n
    using dec_text_digits[of n] by (auto simp: list_all_iff in_range_def ascii_def)
  then show ?thesis by (simp add: int_text_def ascii_def cbyte_def)
qed

lemma ascii_words: "list_all ascii image_name" "list_all ascii ''release-run-''" "list_all ascii ''-attempt-''"
  by (code_simp)+

lemma oci_tag_ascii: "list_all ascii (oci_tag r)"
  unfolding oci_tag_def list_all_append using int_text_ascii ascii_words by blast

lemma has_text_marker: "has_text (marker_json m)"
  by (auto simp: marker_json_def image_json_def split: option.split)

lemma marker_clean:
  assumes "plain r ob"
  shows "clean_json (marker_json (marker r ob)) = marker_json (marker r ob)"
proof -
  have k: "list_all (\<lambda>k. clean_text k = k) [''repository_id'', ''repository'', ''tag'', ''source_sha'', ''run_id'', ''run_attempt'', ''oci_tag'',
      ''image'', ''publication_attempt'', ''name'', ''digest'', ''attestation_id'', ''attestation_url'']"
    by (simp add: clean_ascii ascii_def cbyte_def)
  show ?thesis using assms k
    by (auto simp: plain_def marker_json_def image_json_def marker_def clean_ascii oci_tag_ascii ascii_words split: option.splits)
qed

lemma marker_json_inject: "marker_json (marker r ob) = marker_json (marker r' ob') \<Longrightarrow> marker r ob = marker r' ob'"
  by (cases ob; cases ob') (auto simp: marker_json_def image_json_def marker_def)

lemma draft_body_marker: "\<exists>t. draft_body r ob = marker_prefix @ marshal (marker_json (marker r ob)) @ CHR '' '' # t"
  by (cases ob) (auto simp: draft_body_def reservation_body_def bound_body_def marker_line_def)

lemma draft_body_inject:
  assumes "draft_body r ob = draft_body r' ob'" "plain r ob" "plain r' ob'"
  shows "marker r ob = marker r' ob'"
proof -
  let ?j = "marker_json (marker r ob)" let ?j' = "marker_json (marker r' ob')"
  obtain t t' where t: "marshal ?j @ CHR '' '' # t = marshal ?j' @ CHR '' '' # t'"
    using draft_body_marker[of r ob] draft_body_marker[of r' ob'] assms(1) by (metis same_append_eq)
  have "parse_value (marshal j @ CHR '' '' # u) = Some (clean_json j, CHR '' '' # u)" if "has_text j" for j u
    unfolding marshal_def by (rule parse_print[OF layouts_ok(1) that]) (simp add: stops_def)
  then have "clean_json ?j = clean_json ?j'" using t has_text_marker by (metis fst_conv option.inject)
  then show ?thesis using marker_clean assms marker_json_inject by metis
qed

end
