(* ===== verification/ReleaseAttestation.thy ===== *)
theory ReleaseAttestation
  imports ReleaseMachine
begin

text \<open>
  \<open>internal/releaseguard/attestation.go\<close>: the attestation bundle of the image, its certificate, its
  provenance statement and the entry of the transparency log.  The X.509, ASN.1 and PEM parsers,
  the ECDSA verification and SHA-256 (as hexadecimal text) are parameters; base64 is modelled.
  A point in time is in nanoseconds.
\<close>

section \<open>Base64\<close>

definition b64_value :: "char \<Rightarrow> nat option" where
  "b64_value c =
     (if in_range 65 90 c then Some (cbyte c - 65)
      else if in_range 97 122 c then Some (cbyte c - 71)
      else if in_range 48 57 c then Some (cbyte c + 4)
      else if c = CHR ''+'' then Some 62 else if c = CHR ''/'' then Some 63 else None)"

text \<open>Groups of four: only the last may be padded, and then with zero bits.\<close>

fun b64_groups :: "string \<Rightarrow> string option" where
  "b64_groups [] = Some []"
| "b64_groups (a # b # c # d # rest) =
     (case (b64_value a, b64_value b) of
        (Some x, Some y) \<Rightarrow>
          if c = CHR ''='' then
            (if d = CHR ''='' \<and> rest = [] \<and> y mod 16 = 0 then Some [char_of (x * 4 + y div 16)] else None)
          else (case b64_value c of
            None \<Rightarrow> None
          | Some z \<Rightarrow>
              if d = CHR ''='' then
                (if rest = [] \<and> z mod 4 = 0 then Some [char_of (x * 4 + y div 16), char_of (y mod 16 * 16 + z div 4)] else None)
              else (case b64_value d of
                None \<Rightarrow> None
              | Some w \<Rightarrow>
                  map_option (\<lambda>t. char_of (x * 4 + y div 16) # char_of (y mod 16 * 16 + z div 4) # char_of (z mod 4 * 64 + w) # t)
                    (b64_groups rest)))
      | _ \<Rightarrow> None)"
| "b64_groups s = None"

text \<open>Line breaks are skipped; the value must be there and stay within its bound.\<close>

definition decode_base64 :: "string \<Rightarrow> nat \<Rightarrow> string option" where
  "decode_base64 s bound =
     (if s = [] \<or> (bound + 2) div 3 * 4 < length s then None
      else case b64_groups (filter (\<lambda>c. c \<noteq> CHR 0x0A \<and> c \<noteq> CHR 0x0D) s) of
        None \<Rightarrow> None
      | Some t \<Rightarrow> if t = [] \<or> bound < length t then None else Some t)"

section \<open>What the parsers of the standard library return\<close>

record certificate =
  ce_not_before :: int
  ce_not_after :: int
  ce_signs :: bool
  ce_usages :: "int list"
  ce_key :: "string option"
  ce_organizations :: "string list"
  ce_uris :: "string list"
  ce_extensions :: "(string \<times> string) list"

text \<open>
  The key is there when it is an ECDSA key on P-256.  An ASN.1 string comes with what follows it, a
  PEM block with its type, its bytes and what follows it.
\<close>

record attestation_tools =
  at_sha :: "string \<Rightarrow> string"
  at_certificate :: "string \<Rightarrow> certificate option"
  at_verifies :: "string \<Rightarrow> string \<Rightarrow> string \<Rightarrow> bool"
  at_asn1 :: "string \<Rightarrow> (string \<times> string) option"
  at_pem :: "string \<Rightarrow> (string \<times> string \<times> string) option"

section \<open>The identity of a run\<close>

definition workflow_path :: string where "workflow_path = ''.github/workflows/release.yml''"

definition workflow_identity :: "release \<Rightarrow> string" where
  "workflow_identity r = ''https://github.com/'' @ re_repository r @ ''/'' @ workflow_path @ ''@refs/heads/main''"

definition invocation_identity :: "release \<Rightarrow> string" where
  "invocation_identity r = ''https://github.com/'' @ re_repository r @ ''/actions/runs/'' @ int_text (re_run r) @ ''/attempts/'' @
     int_text (re_attempt r)"

definition parse_non_negative :: "string \<Rightarrow> string \<Rightarrow> (string, int) result" where
  "parse_non_negative raw name = (if raw = ''0'' then Inr 0 else parse_positive raw name)"

section \<open>The certificate\<close>

definition claim_oid :: "nat \<Rightarrow> string" where "claim_oid n = ''1.3.6.1.4.1.57264.1.'' @ dec_text n"

definition expected_claims :: "release \<Rightarrow> (string \<times> string) list" where
  "expected_claims r =
     [(claim_oid 8, ''https://token.actions.githubusercontent.com''),
      (claim_oid 9, workflow_identity r),
      (claim_oid 10, re_sha r),
      (claim_oid 11, ''github-hosted''),
      (claim_oid 12, ''https://github.com/'' @ repository_name),
      (claim_oid 13, re_sha r),
      (claim_oid 14, ''refs/heads/main''),
      (claim_oid 15, int_text (re_repository_id r)),
      (claim_oid 16, ''https://github.com/'' @ repository_owner),
      (claim_oid 17, int_text (re_owner_id r)),
      (claim_oid 18, workflow_identity r),
      (claim_oid 19, re_sha r),
      (claim_oid 20, ''workflow_dispatch''),
      (claim_oid 21, invocation_identity r),
      (claim_oid 22, ''public'')]"

text \<open>The claims among the extensions, each at most once and an ASN.1 string with nothing after it.\<close>

fun read_claims :: "(string \<Rightarrow> (string \<times> string) option) \<Rightarrow> string set \<Rightarrow> (string \<times> string) list \<Rightarrow> (string \<times> string) list \<Rightarrow>
    (string, (string \<times> string) list) result" where
  "read_claims asn1 oids [] claims = Inr claims"
| "read_claims asn1 oids ((oid, raw) # rest) claims =
     (if oid \<notin> oids then read_claims asn1 oids rest claims
      else if oid \<in> fst ` set claims then Inl ''attestation certificate contains a duplicate identity claim''
      else case asn1 raw of
        None \<Rightarrow> Inl ''attestation certificate contains a malformed identity claim''
      | Some (v, remainder) \<Rightarrow>
          if remainder \<noteq> [] then Inl ''attestation certificate contains a malformed identity claim''
          else read_claims asn1 oids rest ((oid, v) # claims))"

definition verify_certificate :: "attestation_tools \<Rightarrow> certificate \<Rightarrow> release \<Rightarrow> int \<Rightarrow> (string, unit) result" where
  "verify_certificate t c r now =
     guard (now < ce_not_before c \<or> ce_not_after c < now \<or> \<not> ce_signs c)
       ''attestation certificate is not valid for this verification time'' (
     guard (ce_key c = None \<or> \<not> list_ex (\<lambda>u. u = 3) (ce_usages c)) ''attestation certificate has an unsupported signing key'' (
     guard (ce_organizations c \<noteq> [''sigstore.dev'']) ''attestation certificate has an unexpected issuer identity'' (
     guard (ce_uris c \<noteq> [workflow_identity r]) ''attestation certificate does not identify the release workflow'' (
     bind (read_claims (at_asn1 t) (set (map fst (expected_claims r))) (ce_extensions c) []) (\<lambda>claims.
     guard (length claims \<noteq> length (expected_claims r)) ''attestation certificate is missing a required identity claim'' (
     guard (\<not> list_all (\<lambda>(oid, v). map_of claims oid = Some v) (expected_claims r))
       ''attestation certificate identity does not match this workflow'' (Inr ())))))))"

text \<open>The signature over the pre-authentication encoding of the payload.\<close>

definition pae :: "string \<Rightarrow> string \<Rightarrow> string" where
  "pae kind payload = ''DSSEv1 '' @ dec_text (length kind) @ '' '' @ kind @ '' '' @ dec_text (length payload) @ '' '' @ payload"

definition verify_signature :: "attestation_tools \<Rightarrow> certificate \<Rightarrow> string \<Rightarrow> string \<Rightarrow> string \<Rightarrow> (string, unit) result" where
  "verify_signature t c kind payload signature =
     (case ce_key c of
        None \<Rightarrow> Inl ''attestation DSSE signing key is unsupported''
      | Some key \<Rightarrow>
          if \<not> at_verifies t key (at_sha t (pae kind payload)) signature
          then Inl ''attestation DSSE signature verification failed'' else Inr ())"

section \<open>The provenance statement\<close>

record subject =
  su_image :: "string option"
  su_digest :: "(string \<times> string) list option"

abbreviation map_ptr :: "(string \<times> string) list option \<Rightarrow> string \<Rightarrow> (string \<times> json) list \<Rightarrow> (string \<times> string) list option option" where
  "map_ptr cur name ms \<equiv> field_into (ptr_into map_into []) cur name ms"

definition subject_fields :: "string \<Rightarrow> subject \<Rightarrow> (string \<times> json) list \<Rightarrow> subject option" where
  "subject_fields key cur ms =
     Option.bind (str_ptr (su_image cur) key ms) (\<lambda>n.
     Option.bind (map_ptr (su_digest cur) ''digest'' ms) (\<lambda>d. Some \<lparr>su_image = n, su_digest = d\<rparr>))"

definition no_subject :: subject where "no_subject = \<lparr>su_image = None, su_digest = None\<rparr>"

record workflow_ref =
  wf_ref :: "string option"
  wf_repository :: "string option"
  wf_path :: "string option"

definition workflow_ref_fields :: "workflow_ref \<Rightarrow> (string \<times> json) list \<Rightarrow> workflow_ref option" where
  "workflow_ref_fields cur ms =
     Option.bind (str_ptr (wf_ref cur) ''ref'' ms) (\<lambda>f.
     Option.bind (str_ptr (wf_repository cur) ''repository'' ms) (\<lambda>q.
     Option.bind (str_ptr (wf_path cur) ''path'' ms) (\<lambda>p. Some \<lparr>wf_ref = f, wf_repository = q, wf_path = p\<rparr>)))"

record github_identity =
  gi_event :: "string option"
  gi_repository :: "string option"
  gi_owner :: "string option"
  gi_runner :: "string option"

definition github_fields :: "github_identity \<Rightarrow> (string \<times> json) list \<Rightarrow> github_identity option" where
  "github_fields cur ms =
     Option.bind (str_ptr (gi_event cur) ''event_name'' ms) (\<lambda>e.
     Option.bind (str_ptr (gi_repository cur) ''repository_id'' ms) (\<lambda>q.
     Option.bind (str_ptr (gi_owner cur) ''repository_owner_id'' ms) (\<lambda>w.
     Option.bind (str_ptr (gi_runner cur) ''runner_environment'' ms) (\<lambda>n.
     Some \<lparr>gi_event = e, gi_repository = q, gi_owner = w, gi_runner = n\<rparr>))))"

record build_definition =
  bd_type :: "string option"
  bd_external :: "workflow_ref option option"
  bd_internal :: "github_identity option option"
  bd_dependencies :: "subject slice option"

definition external_fields :: "workflow_ref option \<Rightarrow> (string \<times> json) list \<Rightarrow> workflow_ref option option" where
  "external_fields cur ms =
     struct_ptr workflow_ref_fields \<lparr>wf_ref = None, wf_repository = None, wf_path = None\<rparr> cur ''workflow'' ms"

definition internal_fields :: "github_identity option \<Rightarrow> (string \<times> json) list \<Rightarrow> github_identity option option" where
  "internal_fields cur ms =
     struct_ptr github_fields \<lparr>gi_event = None, gi_repository = None, gi_owner = None, gi_runner = None\<rparr> cur ''github'' ms"

definition build_fields :: "build_definition \<Rightarrow> (string \<times> json) list \<Rightarrow> build_definition option" where
  "build_fields cur ms =
     Option.bind (str_ptr (bd_type cur) ''buildType'' ms) (\<lambda>t.
     Option.bind (struct_ptr external_fields None (bd_external cur) ''externalParameters'' ms) (\<lambda>x.
     Option.bind (struct_ptr internal_fields None (bd_internal cur) ''internalParameters'' ms) (\<lambda>i.
     Option.bind (structs_ptr (subject_fields ''uri'') no_subject (bd_dependencies cur) ''resolvedDependencies'' ms) (\<lambda>d.
     Some \<lparr>bd_type = t, bd_external = x, bd_internal = i, bd_dependencies = d\<rparr>))))"

text \<open>The builder and the metadata of a run: each is a struct with one text.\<close>

definition text_fields :: "string \<Rightarrow> string option \<Rightarrow> (string \<times> json) list \<Rightarrow> string option option" where
  "text_fields name cur ms = str_ptr cur name ms"

record run_details =
  rd_builder :: "string option option"
  rd_metadata :: "string option option"

definition run_fields :: "run_details \<Rightarrow> (string \<times> json) list \<Rightarrow> run_details option" where
  "run_fields cur ms =
     Option.bind (struct_ptr (text_fields ''id'') None (rd_builder cur) ''builder'' ms) (\<lambda>b.
     Option.bind (struct_ptr (text_fields ''invocationId'') None (rd_metadata cur) ''metadata'' ms) (\<lambda>m.
     Some \<lparr>rd_builder = b, rd_metadata = m\<rparr>))"

record predicate =
  pd_build :: "build_definition option"
  pd_run :: "run_details option"

definition predicate_fields :: "predicate \<Rightarrow> (string \<times> json) list \<Rightarrow> predicate option" where
  "predicate_fields cur ms =
     Option.bind (struct_ptr build_fields \<lparr>bd_type = None, bd_external = None, bd_internal = None, bd_dependencies = None\<rparr>
       (pd_build cur) ''buildDefinition'' ms) (\<lambda>b.
     Option.bind (struct_ptr run_fields \<lparr>rd_builder = None, rd_metadata = None\<rparr> (pd_run cur) ''runDetails'' ms) (\<lambda>d.
     Some \<lparr>pd_build = b, pd_run = d\<rparr>))"

record statement =
  st_type :: "string option"
  st_subjects :: "subject slice option"
  st_predicate_type :: "string option"
  st_predicate :: "predicate option"

definition statement_fields :: "statement \<Rightarrow> (string \<times> json) list \<Rightarrow> statement option" where
  "statement_fields cur ms =
     Option.bind (str_ptr (st_type cur) ''_type'' ms) (\<lambda>t.
     Option.bind (structs_ptr (subject_fields ''name'') no_subject (st_subjects cur) ''subject'' ms) (\<lambda>s.
     Option.bind (str_ptr (st_predicate_type cur) ''predicateType'' ms) (\<lambda>y.
     Option.bind (struct_ptr predicate_fields \<lparr>pd_build = None, pd_run = None\<rparr> (st_predicate cur) ''predicate'' ms) (\<lambda>p.
     Some \<lparr>st_type = t, st_subjects = s, st_predicate_type = y, st_predicate = p\<rparr>))))"

definition decode_statement :: "string \<Rightarrow> statement option" where
  "decode_statement = decode_with (struct_into statement_fields)
     \<lparr>st_type = None, st_subjects = None, st_predicate_type = None, st_predicate = None\<rparr>"

text \<open>A map with one entry, which a missing key reads as the empty text.\<close>

definition only_entry :: "(string \<times> string) list \<Rightarrow> string \<Rightarrow> string \<Rightarrow> bool" where
  "only_entry m key v \<longleftrightarrow> length m = 1 \<and> (case map_of m key of None \<Rightarrow> [] | Some x \<Rightarrow> x) = v"

definition subject_is :: "subject slice option \<Rightarrow> string \<Rightarrow> string \<Rightarrow> string \<Rightarrow> bool" where
  "subject_is s name key v \<longleftrightarrow>
     (case map_option items s of
        Some [x] \<Rightarrow> su_image x = Some name \<and> (case su_digest x of None \<Rightarrow> False | Some m \<Rightarrow> only_entry m key v)
      | _ \<Rightarrow> False)"

definition complete_predicate :: "predicate \<Rightarrow> (workflow_ref \<times> github_identity \<times> string \<times> string) option" where
  "complete_predicate p =
     (case (pd_build p, pd_run p) of
        (Some b, Some d) \<Rightarrow>
          (case (bd_external b, bd_internal b, rd_builder d, rd_metadata d) of
             (Some (Some w), Some (Some g), Some (Some builder), Some (Some invocation)) \<Rightarrow>
               if bd_type b \<noteq> Some ''https://actions.github.io/buildtypes/workflow/v1'' \<or>
                  (case bd_dependencies b of None \<Rightarrow> True | Some ds \<Rightarrow> length (items ds) \<noteq> 1)
               then None else Some (w, g, builder, invocation)
           | _ \<Rightarrow> None)
      | _ \<Rightarrow> None)"

definition verify_predicate :: "release \<Rightarrow> predicate \<Rightarrow> (string, unit) result" where
  "verify_predicate r p =
     (case complete_predicate p of
        None \<Rightarrow> Inl ''attestation provenance is incomplete''
      | Some (w, g, builder, invocation) \<Rightarrow>
          guard (wf_ref w \<noteq> Some ''refs/heads/main'' \<or> wf_repository w \<noteq> Some (''https://github.com/'' @ repository_name) \<or>
                 wf_path w \<noteq> Some workflow_path) ''attestation provenance names a different workflow'' (
          guard (gi_event g \<noteq> Some ''workflow_dispatch'' \<or> gi_repository g \<noteq> Some (int_text (re_repository_id r)) \<or>
                 gi_owner g \<noteq> Some (int_text (re_owner_id r)) \<or> gi_runner g \<noteq> Some ''github-hosted'')
            ''attestation provenance has a different GitHub identity'' (
          guard (\<not> subject_is (Option.bind (pd_build p) bd_dependencies)
                    (''git+https://github.com/'' @ repository_name @ ''@refs/heads/main'') ''gitCommit'' (re_sha r))
            ''attestation provenance does not bind the release source'' (
          guard (builder \<noteq> workflow_identity r \<or> invocation \<noteq> invocation_identity r)
            ''attestation provenance does not bind the release run'' (Inr ())))))"

definition verify_statement :: "release \<Rightarrow> binding \<Rightarrow> string \<Rightarrow> (string, unit) result" where
  "verify_statement r b payload =
     (case decode_statement payload of
        None \<Rightarrow> Inl ''attestation provenance statement is malformed''
      | Some s \<Rightarrow>
          (case (st_subjects s, st_predicate s) of
             (Some subjects, Some p) \<Rightarrow>
               guard (st_type s \<noteq> Some ''https://in-toto.io/Statement/v1'' \<or>
                      st_predicate_type s \<noteq> Some ''https://slsa.dev/provenance/v1'' \<or> length (items subjects) \<noteq> 1)
                 ''attestation provenance statement has an unexpected type'' (
               guard (\<not> subject_is (Some subjects) image_name ''sha256'' (trim_prefix (bi_digest b) ''sha256:''))
                 ''attestation subject does not match the release image digest'' (
               verify_predicate r p))
           | _ \<Rightarrow> Inl ''attestation provenance statement has an unexpected type''))"

end
