(* ===== verification/ReleaseBundle.thy ===== *)
theory ReleaseBundle
  imports ReleaseAttestation
begin

text \<open>
  The rest of \<open>internal/releaseguard/attestation.go\<close>: the entry of the transparency log, the Sigstore
  bundle and the command that verifies the attestation.
\<close>

section \<open>The transparency log\<close>

text \<open>A member that is kept raw, and a raw value that is decoded later, with the check for repeated keys.\<close>

definition raw_json :: "json option \<Rightarrow> json \<Rightarrow> json option option" where "raw_json cur j = Some (Some j)"

definition decode_raw :: "('a \<Rightarrow> json \<Rightarrow> 'a option) \<Rightarrow> 'a \<Rightarrow> json \<Rightarrow> 'a option" where
  "decode_raw f zero j = (if unambiguous 1 j then f zero j else None)"

record inclusion_proof =
  ip_index :: "string option"
  ip_root :: "string option"
  ip_size :: "string option"
  ip_hashes :: "string slice option"
  ip_checkpoint :: "string option option"

definition proof_fields :: "inclusion_proof \<Rightarrow> (string \<times> json) list \<Rightarrow> inclusion_proof option" where
  "proof_fields cur ms =
     Option.bind (str_ptr (ip_index cur) ''logIndex'' ms) (\<lambda>i.
     Option.bind (str_ptr (ip_root cur) ''rootHash'' ms) (\<lambda>h.
     Option.bind (str_ptr (ip_size cur) ''treeSize'' ms) (\<lambda>z.
     Option.bind (strs_ptr (ip_hashes cur) ''hashes'' ms) (\<lambda>hs.
     Option.bind (struct_ptr (text_fields ''envelope'') None (ip_checkpoint cur) ''checkpoint'' ms) (\<lambda>c.
     Some \<lparr>ip_index = i, ip_root = h, ip_size = z, ip_hashes = hs, ip_checkpoint = c\<rparr>)))))"

record log_entry =
  le_index :: "string option"
  le_log :: "string option option"
  le_kind :: "(string option \<times> string option) option"
  le_time :: "string option"
  le_proof :: "inclusion_proof option"
  le_body :: "string option"

definition kind_fields :: "string option \<times> string option \<Rightarrow> (string \<times> json) list \<Rightarrow> (string option \<times> string option) option" where
  "kind_fields cur ms =
     Option.bind (str_ptr (fst cur) ''kind'' ms) (\<lambda>k. Option.bind (str_ptr (snd cur) ''version'' ms) (\<lambda>v. Some (k, v)))"

definition entry_fields :: "log_entry \<Rightarrow> (string \<times> json) list \<Rightarrow> log_entry option" where
  "entry_fields cur ms =
     Option.bind (str_ptr (le_index cur) ''logIndex'' ms) (\<lambda>i.
     Option.bind (struct_ptr (text_fields ''keyId'') None (le_log cur) ''logId'' ms) (\<lambda>l.
     Option.bind (struct_ptr kind_fields (None, None) (le_kind cur) ''kindVersion'' ms) (\<lambda>k.
     Option.bind (str_ptr (le_time cur) ''integratedTime'' ms) (\<lambda>t.
     Option.bind (struct_ptr proof_fields \<lparr>ip_index = None, ip_root = None, ip_size = None, ip_hashes = None, ip_checkpoint = None\<rparr>
       (le_proof cur) ''inclusionProof'' ms) (\<lambda>p.
     Option.bind (str_ptr (le_body cur) ''canonicalizedBody'' ms) (\<lambda>b.
     Some \<lparr>le_index = i, le_log = l, le_kind = k, le_time = t, le_proof = p, le_body = b\<rparr>))))))"

definition decode_entry :: "json \<Rightarrow> log_entry option" where
  "decode_entry = decode_raw (struct_into entry_fields)
     \<lparr>le_index = None, le_log = None, le_kind = None, le_time = None, le_proof = None, le_body = None\<rparr>"

record log_body =
  lb_version :: "string option"
  lb_kind :: "string option"
  lb_spec :: "((string option \<times> string option) option \<times> (string option \<times> string option) slice option) option"

definition hash_fields :: "string option \<times> string option \<Rightarrow> (string \<times> json) list \<Rightarrow> (string option \<times> string option) option" where
  "hash_fields cur ms =
     Option.bind (str_ptr (fst cur) ''algorithm'' ms) (\<lambda>a. Option.bind (str_ptr (snd cur) ''value'' ms) (\<lambda>v. Some (a, v)))"

definition log_signature_fields :: "string option \<times> string option \<Rightarrow> (string \<times> json) list \<Rightarrow> (string option \<times> string option) option" where
  "log_signature_fields cur ms =
     Option.bind (str_ptr (fst cur) ''signature'' ms) (\<lambda>s. Option.bind (str_ptr (snd cur) ''verifier'' ms) (\<lambda>v. Some (s, v)))"

definition spec_fields :: "(string option \<times> string option) option \<times> (string option \<times> string option) slice option \<Rightarrow>
    (string \<times> json) list \<Rightarrow> ((string option \<times> string option) option \<times> (string option \<times> string option) slice option) option" where
  "spec_fields cur ms =
     Option.bind (struct_ptr hash_fields (None, None) (fst cur) ''payloadHash'' ms) (\<lambda>h.
     Option.bind (structs_ptr log_signature_fields (None, None) (snd cur) ''signatures'' ms) (\<lambda>s. Some (h, s)))"

definition body_fields :: "log_body \<Rightarrow> (string \<times> json) list \<Rightarrow> log_body option" where
  "body_fields cur ms =
     Option.bind (str_ptr (lb_version cur) ''apiVersion'' ms) (\<lambda>v.
     Option.bind (str_ptr (lb_kind cur) ''kind'' ms) (\<lambda>k.
     Option.bind (struct_ptr spec_fields (None, None) (lb_spec cur) ''spec'' ms) (\<lambda>s.
     Some \<lparr>lb_version = v, lb_kind = k, lb_spec = s\<rparr>)))"

text \<open>The hash, with its algorithm, and the one signature of a body of the right kind.\<close>

definition body_parts :: "string \<Rightarrow> ((string \<times> string) \<times> string option \<times> string option) option" where
  "body_parts payload =
     (case decode_with (struct_into body_fields) \<lparr>lb_version = None, lb_kind = None, lb_spec = None\<rparr> payload of
        None \<Rightarrow> None
      | Some b \<Rightarrow>
          if lb_version b \<noteq> Some ''0.0.1'' \<or> lb_kind b \<noteq> Some ''dsse'' then None
          else (case lb_spec b of
            Some (Some (Some a, Some v), Some ss) \<Rightarrow> (case items ss of [s] \<Rightarrow> Some ((a, v), s) | _ \<Rightarrow> None)
          | _ \<Rightarrow> None))"

definition sha_size :: nat where "sha_size = 32"

text \<open>The text of a hash: base64 of exactly as many bytes as SHA-256 has.\<close>

definition hash_text :: "string \<Rightarrow> bool" where
  "hash_text s \<longleftrightarrow> (case decode_base64 s 64 of None \<Rightarrow> False | Some h \<Rightarrow> length h = sha_size)"

definition verify_proof :: "inclusion_proof \<Rightarrow> (string, unit) result" where
  "verify_proof p =
     (case (ip_index p, ip_root p, ip_size p, ip_hashes p, ip_checkpoint p) of
        (Some index, Some rh, Some extent, Some hashes, Some (Some envelope)) \<Rightarrow>
          guard (envelope = [] \<or> CHR 0x00 \<in> set envelope) ''attestation transparency inclusion proof is incomplete'' (
          case parse_non_negative index ''transparency proof index'' of
            Inl _ \<Rightarrow> Inl ''attestation transparency inclusion proof index is invalid''
          | Inr i \<Rightarrow>
              guard (case parse_positive extent ''transparency tree size'' of Inl _ \<Rightarrow> True | Inr n \<Rightarrow> n \<le> i)
                ''attestation transparency inclusion proof size is invalid'' (
              guard (\<not> hash_text rh \<or> 64 < length (items hashes)) ''attestation transparency inclusion proof hash is invalid'' (
              guard (\<not> list_all hash_text (items hashes)) ''attestation transparency inclusion proof contains an invalid hash''
                (Inr ()))))
      | _ \<Rightarrow> Inl ''attestation transparency inclusion proof is incomplete'')"

text \<open>The body binds the payload, the signature and the certificate.\<close>

definition verify_log_body :: "attestation_tools \<Rightarrow> string \<Rightarrow> string \<Rightarrow> string \<Rightarrow> string \<Rightarrow> (string, unit) result" where
  "verify_log_body t body der payload signature =
     (case decode_base64 body 1048576 of
        None \<Rightarrow> Inl ''attestation transparency log body is invalid''
      | Some canonical \<Rightarrow>
          (case body_parts canonical of
             None \<Rightarrow> Inl ''attestation transparency log body is malformed''
           | Some (h, s, v) \<Rightarrow>
               guard (h \<noteq> (''sha256'', at_sha t payload)) ''attestation transparency log body does not bind the DSSE payload'' (
               case (s, v) of
                 (Some sig, Some verifier) \<Rightarrow>
                   guard (sig \<noteq> signature) ''attestation transparency log body does not bind the DSSE signature'' (
                   case decode_base64 verifier 65536 of
                     None \<Rightarrow> Inl ''attestation transparency log verifier is invalid''
                   | Some pem \<Rightarrow>
                       guard (at_pem t pem \<noteq> Some (''CERTIFICATE'', der, []))
                         ''attestation transparency log body does not bind the signing certificate'' (Inr ()))
               | _ \<Rightarrow> Inl ''attestation transparency log body does not bind the DSSE signature'')))"

definition verify_entry_bindings :: "attestation_tools \<Rightarrow> json \<Rightarrow> string \<Rightarrow> string \<Rightarrow> string \<Rightarrow> (string, unit) result" where
  "verify_entry_bindings t raw der payload signature =
     (if raw = JNull then Inl ''attestation transparency log entry is missing''
      else case decode_entry raw of
        None \<Rightarrow> Inl ''attestation transparency log entry is malformed''
      | Some e \<Rightarrow>
          (case (le_index e, le_log e, le_kind e, le_time e, le_proof e, le_body e) of
             (Some index, Some (Some key), Some (Some kind, Some version), Some time, Some p, Some body) \<Rightarrow>
               guard (\<not> isOk (parse_non_negative index ''transparency log index'') \<or> kind \<noteq> ''dsse'' \<or> version \<noteq> ''0.0.1'')
                 ''attestation transparency log identity is invalid'' (
               guard (\<not> isOk (parse_positive time ''transparency log integrated time''))
                 ''attestation transparency log time is invalid'' (
               guard (\<not> hash_text key) ''attestation transparency log key ID is invalid'' (
               bind (verify_proof p) (\<lambda>_.
               verify_log_body t body der payload signature))))
           | _ \<Rightarrow> Inl ''attestation transparency log entry is malformed''))"

text \<open>The time of the entry, in seconds, once its bindings hold.\<close>

definition verify_entry :: "attestation_tools \<Rightarrow> json \<Rightarrow> string \<Rightarrow> string \<Rightarrow> string \<Rightarrow> (string, int) result" where
  "verify_entry t raw der payload signature =
     bind (verify_entry_bindings t raw der payload signature) (\<lambda>_.
     case Option.bind (decode_entry raw) le_time of
       None \<Rightarrow> Inl ''attestation transparency log entry is malformed''
     | Some time \<Rightarrow>
         (case parse_positive time ''transparency log integrated time'' of
            Inl _ \<Rightarrow> Inl ''attestation transparency log time is invalid'' | Inr n \<Rightarrow> Inr n))"

section \<open>The bundle\<close>

record material =
  ma_certificate :: "string option option"
  ma_chain :: "json option"
  ma_public :: "json option"
  ma_entries :: "json option slice option"

definition material_fields :: "material \<Rightarrow> (string \<times> json) list \<Rightarrow> material option" where
  "material_fields cur ms =
     Option.bind (struct_ptr (text_fields ''rawBytes'') None (ma_certificate cur) ''certificate'' ms) (\<lambda>c.
     Option.bind (field_into raw_json (ma_chain cur) ''x509CertificateChain'' ms) (\<lambda>x.
     Option.bind (field_into raw_json (ma_public cur) ''publicKey'' ms) (\<lambda>k.
     Option.bind (field_into (ptr_into (slice_into raw_json None) ([], 0)) (ma_entries cur) ''tlogEntries'' ms) (\<lambda>es.
     Some \<lparr>ma_certificate = c, ma_chain = x, ma_public = k, ma_entries = es\<rparr>))))"

record envelope =
  en_payload :: "string option"
  en_type :: "string option"
  en_signatures :: "(string option \<times> string option) slice option"

definition signature_fields :: "string option \<times> string option \<Rightarrow> (string \<times> json) list \<Rightarrow> (string option \<times> string option) option" where
  "signature_fields cur ms =
     Option.bind (str_ptr (fst cur) ''keyid'' ms) (\<lambda>k. Option.bind (str_ptr (snd cur) ''sig'' ms) (\<lambda>s. Some (k, s)))"

definition envelope_fields :: "envelope \<Rightarrow> (string \<times> json) list \<Rightarrow> envelope option" where
  "envelope_fields cur ms =
     Option.bind (str_ptr (en_payload cur) ''payload'' ms) (\<lambda>p.
     Option.bind (str_ptr (en_type cur) ''payloadType'' ms) (\<lambda>t.
     Option.bind (structs_ptr signature_fields (None, None) (en_signatures cur) ''signatures'' ms) (\<lambda>s.
     Some \<lparr>en_payload = p, en_type = t, en_signatures = s\<rparr>)))"

record sigstore_bundle =
  sb_media :: "string option"
  sb_material :: "material option"
  sb_envelope :: "envelope option"
  sb_message :: "json option"

definition bundle_fields :: "sigstore_bundle \<Rightarrow> (string \<times> json) list \<Rightarrow> sigstore_bundle option" where
  "bundle_fields cur ms =
     Option.bind (str_ptr (sb_media cur) ''mediaType'' ms) (\<lambda>m.
     Option.bind (struct_ptr material_fields \<lparr>ma_certificate = None, ma_chain = None, ma_public = None, ma_entries = None\<rparr>
       (sb_material cur) ''verificationMaterial'' ms) (\<lambda>v.
     Option.bind (struct_ptr envelope_fields \<lparr>en_payload = None, en_type = None, en_signatures = None\<rparr>
       (sb_envelope cur) ''dsseEnvelope'' ms) (\<lambda>e.
     Option.bind (field_into raw_json (sb_message cur) ''messageSignature'' ms) (\<lambda>s.
     Some \<lparr>sb_media = m, sb_material = v, sb_envelope = e, sb_message = s\<rparr>))))"

definition decode_bundle :: "string \<Rightarrow> sigstore_bundle option" where
  "decode_bundle = decode_with (struct_into bundle_fields)
     \<lparr>sb_media = None, sb_material = None, sb_envelope = None, sb_message = None\<rparr>"

definition dsse_type :: string where "dsse_type = ''application/vnd.in-toto+json''"

text \<open>The text of the certificate and the one entry of the log; an empty entry and null are the same error.\<close>

definition material_parts :: "material \<Rightarrow> (string \<times> json) option" where
  "material_parts m =
     (case (ma_certificate m, map_option items (ma_entries m)) of
        (Some (Some raw), Some [entry]) \<Rightarrow>
          if ma_chain m \<noteq> None \<or> ma_public m \<noteq> None then None else Some (raw, case entry of None \<Rightarrow> JNull | Some j \<Rightarrow> j)
      | _ \<Rightarrow> None)"

text \<open>The payload and the one signature of the envelope.\<close>

definition envelope_parts :: "envelope \<Rightarrow> (string \<times> string option \<times> string option) option" where
  "envelope_parts e =
     (case (en_payload e, map_option items (en_signatures e)) of
        (Some p, Some [s]) \<Rightarrow> if en_type e \<noteq> Some dsse_type then None else Some (p, s)
      | _ \<Rightarrow> None)"

definition one_second :: int where "one_second = 1000000000"

text \<open>The certificate, the payload and the signature of the bundle, decoded; then everything they must bind.\<close>

definition verify_signed :: "attestation_tools \<Rightarrow> release \<Rightarrow> binding \<Rightarrow> int option \<Rightarrow> certificate \<Rightarrow> string \<Rightarrow> string \<Rightarrow> string \<Rightarrow> string \<Rightarrow>
    json \<Rightarrow> (string, unit) result" where
  "verify_signed t r b now c der payload sig signature raw =
     bind (verify_signature t c dsse_type payload signature) (\<lambda>_.
     bind (verify_statement r b payload) (\<lambda>_.
     bind (verify_entry t raw der payload sig) (\<lambda>time.
     guard (case now of None \<Rightarrow> True | Some n \<Rightarrow> n + 300 * one_second < time * one_second)
       ''attestation transparency log time is after the permitted observation window''
       (verify_certificate t c r (time * one_second)))))"

definition verify_attestation_bundle :: "attestation_tools \<Rightarrow> release \<Rightarrow> binding \<Rightarrow> string \<Rightarrow> int option \<Rightarrow> (string, unit) result" where
  "verify_attestation_bundle t r b content now =
     (case decode_bundle content of
        None \<Rightarrow> Inl ''attestation bundle is malformed''
      | Some bundle \<Rightarrow>
          (case (sb_material bundle, sb_envelope bundle) of
             (Some m, Some e) \<Rightarrow>
               guard (sb_media bundle \<noteq> Some ''application/vnd.dev.sigstore.bundle.v0.3+json'' \<or> sb_message bundle \<noteq> None)
                 ''attestation bundle has an unsupported envelope'' (
               case material_parts m of
                 None \<Rightarrow> Inl ''attestation bundle has invalid verification material''
               | Some (raw_certificate, raw_entry) \<Rightarrow>
                   (case decode_base64 raw_certificate 32768 of
                      None \<Rightarrow> Inl ''attestation certificate is invalid''
                    | Some der \<Rightarrow>
                        (case at_certificate t der of
                           None \<Rightarrow> Inl ''attestation certificate is invalid''
                         | Some c \<Rightarrow>
                             (case envelope_parts e of
                                None \<Rightarrow> Inl ''attestation DSSE envelope is invalid''
                              | Some (encoded, keyid, osig) \<Rightarrow>
                                  (case decode_base64 encoded 1048576 of
                                     None \<Rightarrow> Inl ''attestation DSSE payload is invalid''
                                   | Some payload \<Rightarrow>
                                       (case osig of
                                          None \<Rightarrow> Inl ''attestation DSSE signature metadata is invalid''
                                        | Some sig \<Rightarrow>
                                            guard (keyid \<noteq> None \<and> keyid \<noteq> Some []) ''attestation DSSE signature metadata is invalid'' (
                                            case decode_base64 sig 4096 of
                                              None \<Rightarrow> Inl ''attestation DSSE signature is invalid''
                                            | Some signature \<Rightarrow> verify_signed t r b now c der payload sig signature raw_entry)))))))
           | _ \<Rightarrow> Inl ''attestation bundle has an unsupported envelope''))"

section \<open>The command\<close>

definition attestation_errors :: snapshot_errors where
  "attestation_errors = \<lparr>se_unbounded = ''attestation bundle is not a bounded regular file'', se_open = ''open attestation bundle'',
     se_changed = ''attestation bundle changed while opening'', se_read = ''read attestation bundle''\<rparr>"

definition verify_attestation_file :: "attestation_tools \<Rightarrow> release \<Rightarrow> binding \<Rightarrow> string \<Rightarrow> file_view \<Rightarrow> int option \<Rightarrow> (string, unit) result" where
  "verify_attestation_file t r b path v now =
     guard (path = []) ''N2U_ATTESTATION_BUNDLE is required'' (
     guard (\<not> canonical_path path) ''N2U_ATTESTATION_BUNDLE must be an absolute canonical path'' (
     bind (snapshot_file 2097152 attestation_errors v) (\<lambda>payload. verify_attestation_bundle t r b payload now)))"

definition verify_attestation :: "server \<Rightarrow> release \<Rightarrow> (string \<Rightarrow> string) \<Rightarrow> attestation_tools \<Rightarrow> (string \<Rightarrow> file_view) \<Rightarrow> int option \<Rightarrow>
    unit command" where
  "verify_attestation srv r getenv t view now =
     then_do (from_result (load_binding r getenv)) (\<lambda>b.
     then_do (from_result (verify_attestation_file t r b (getenv ''N2U_ATTESTATION_BUNDLE'') (view (getenv ''N2U_ATTESTATION_BUNDLE'')) now)) (\<lambda>_.
     then_do (trust_reserved srv r) (\<lambda>_. require_image_binding srv r b)))"

end
