(* ===== verification/ReleaseBundleFacts.thy ===== *)
theory ReleaseBundleFacts
  imports ReleaseBundle "HOL-Library.Multiset"
begin

text \<open>
  What the local checks of the release guard decide: the identity claims of the certificate and the
  members of the Compose bundle.
\<close>

section \<open>Identity claims\<close>

lemma read_claims_iff:
  "read_claims asn1 oids exts claims = Inr claims' \<longleftrightarrow>
     (let kept = filter (\<lambda>e. fst e \<in> oids) exts
      in distinct (map fst kept) \<and> fst ` set kept \<inter> fst ` set claims = {} \<and>
         list_all (\<lambda>e. \<exists>v. asn1 (snd e) = Some (v, [])) kept \<and>
         claims' = rev (map (\<lambda>e. (fst e, fst (the (asn1 (snd e))))) kept) @ claims)"
proof (induction exts arbitrary: claims)
  case (Cons x exts)
  obtain oid raw where x: "x = (oid, raw)" by (cases x)
  show ?case
  proof (cases "oid \<in> oids \<and> oid \<notin> fst ` set claims \<and> (\<exists>v. asn1 raw = Some (v, []))")
    case True
    then obtain v where v: "asn1 raw = Some (v, [])" by auto
    then show ?thesis using True by (auto simp: Cons.IH x Let_def)
  next
    case False
    then show ?thesis using Cons.IH[of claims] by (auto simp: x Let_def split: option.splits)
  qed
qed (auto simp: Let_def)

text \<open>Every expected claim is in the certificate, once, as an ASN.1 string with the expected value.\<close>

definition claims_exact :: "(string \<Rightarrow> (string \<times> string) option) \<Rightarrow> (string \<times> string) list \<Rightarrow> (string \<times> string) list \<Rightarrow> bool" where
  "claims_exact asn1 expected exts \<longleftrightarrow>
     list_all (\<lambda>(oid, v). map (\<lambda>e. asn1 (snd e)) (filter (\<lambda>e. fst e = oid) exts) = [Some (v, [])]) expected"

lemma filter_one:
  assumes "distinct (map fst xs)" "(k, y) \<in> set xs"
  shows "filter (\<lambda>e. fst e = k) xs = [(k, y)]"
  using assms
proof (induction xs)
  case (Cons x xs)
  show ?case
  proof (cases "x = (k, y)")
    case True
    then have "filter (\<lambda>e. fst e = k) xs = []" using Cons.prems(1) by (auto simp: filter_empty_conv)
    then show ?thesis using True by simp
  next
    case False
    then have y: "(k, y) \<in> set xs" using Cons.prems(2) by simp
    then have "k \<in> fst ` set xs" by force
    then have "fst x \<noteq> k" using Cons.prems(1) by auto
    then show ?thesis using Cons.IH[OF _ y] Cons.prems(1) by simp
  qed
qed simp

lemma filter_filter_in: "k \<in> oids \<Longrightarrow> filter (\<lambda>e. fst e = k) (filter (\<lambda>e. fst e \<in> oids) xs) = filter (\<lambda>e. fst e = k) xs"
  by (induction xs) auto

lemma count_filter: "count (mset (map fst xs)) k = length (filter (\<lambda>e. fst e = k) xs)"
  by (induction xs) auto

text \<open>The extensions that are claims, and what reading them gives.\<close>

definition kept_of :: "(string \<times> string) list \<Rightarrow> (string \<times> string) list \<Rightarrow> (string \<times> string) list" where
  "kept_of expected exts = filter (\<lambda>e. fst e \<in> set (map fst expected)) exts"

definition claim_values :: "(string \<Rightarrow> (string \<times> string) option) \<Rightarrow> (string \<times> string) list \<Rightarrow> (string \<times> string) list" where
  "claim_values asn1 kept = rev (map (\<lambda>e. (fst e, fst (the (asn1 (snd e))))) kept)"

lemma read_claims_kept:
  "read_claims asn1 (set (map fst expected)) exts [] = Inr claims \<longleftrightarrow>
     distinct (map fst (kept_of expected exts)) \<and> list_all (\<lambda>e. \<exists>v. asn1 (snd e) = Some (v, [])) (kept_of expected exts) \<and>
     claims = claim_values asn1 (kept_of expected exts)"
  by (simp add: read_claims_iff kept_of_def claim_values_def Let_def)

lemma claim_values_iff:
  assumes "distinct (map fst kept)"
  shows "map_of (claim_values asn1 kept) oid = Some v \<longleftrightarrow> (\<exists>e \<in> set kept. fst e = oid \<and> fst (the (asn1 (snd e))) = v)"
proof -
  have "distinct (map fst (claim_values asn1 kept))" using assms by (simp add: claim_values_def comp_def flip: rev_map)
  then show ?thesis by (subst map_of_eq_Some_iff) (auto simp: claim_values_def)
qed

lemma kept_one: "(oid, v) \<in> set expected \<Longrightarrow> filter (\<lambda>e. fst e = oid) (kept_of expected exts) = filter (\<lambda>e. fst e = oid) exts"
  unfolding kept_of_def by (rule filter_filter_in) force

lemma claims_exact_read:
  assumes "read_claims asn1 (set (map fst expected)) exts [] = Inr claims" "list_all (\<lambda>(oid, v). map_of claims oid = Some v) expected"
  shows "claims_exact asn1 expected exts"
proof -
  let ?kept = "kept_of expected exts"
  have d: "distinct (map fst ?kept)" and a: "list_all (\<lambda>e. \<exists>v. asn1 (snd e) = Some (v, [])) ?kept"
    and g: "list_all (\<lambda>(oid, v). map_of (claim_values asn1 ?kept) oid = Some v) expected"
    using assms unfolding read_claims_kept by blast+
  have "map (\<lambda>e. asn1 (snd e)) (filter (\<lambda>e. fst e = oid) exts) = [Some (v, [])]" if e: "(oid, v) \<in> set expected" for oid v
  proof -
    obtain raw where raw: "(oid, raw) \<in> set ?kept" "fst (the (asn1 raw)) = v"
      using g e claim_values_iff[OF d] by (fastforce simp: list_all_iff)
    have "filter (\<lambda>e. fst e = oid) exts = [(oid, raw)]" using filter_one[OF d raw(1)] kept_one[OF e] by simp
    moreover have "asn1 raw = Some (v, [])" using a raw unfolding list_all_iff by fastforce
    ultimately show ?thesis by simp
  qed
  then show ?thesis by (auto simp: claims_exact_def list_all_iff)
qed

lemma claims_exact_one:
  assumes "claims_exact asn1 expected exts" "(oid, v) \<in> set expected"
  shows "\<exists>raw. filter (\<lambda>e. fst e = oid) exts = [(oid, raw)] \<and> asn1 raw = Some (v, [])"
proof -
  have "map (\<lambda>e. asn1 (snd e)) (filter (\<lambda>e. fst e = oid) exts) = [Some (v, [])]" using assms by (auto simp: claims_exact_def list_all_iff)
  then obtain e where e: "filter (\<lambda>e. fst e = oid) exts = [e]" "asn1 (snd e) = Some (v, [])" by (auto simp: map_eq_Cons_conv)
  have "e \<in> set (filter (\<lambda>e. fst e = oid) exts)" unfolding e(1) by simp
  then have "fst e = oid" by simp
  then show ?thesis using e by (cases e) auto
qed

lemma claims_exact_kept:
  assumes "claims_exact asn1 expected exts" "distinct (map fst expected)"
  shows "mset (map fst (kept_of expected exts)) = mset (map fst expected)"
proof (rule multiset_eqI)
  fix k
  show "count (mset (map fst (kept_of expected exts))) k = count (mset (map fst expected)) k"
  proof (cases "k \<in> set (map fst expected)")
    case True
    then obtain v where v: "(k, v) \<in> set expected" by auto
    then have "length (filter (\<lambda>e. fst e = k) (kept_of expected exts)) = 1" using claims_exact_one[OF assms(1) v] kept_one[OF v] by auto
    then show ?thesis using True assms(2) unfolding count_filter[of "kept_of expected exts"] by (simp add: distinct_count_atmost_1)
  next
    case False
    then have "k \<notin> set (map fst (kept_of expected exts))" unfolding kept_of_def by auto
    then show ?thesis using False by (metis count_mset_0_iff set_mset_mset)
  qed
qed

lemma claims_read_exact:
  assumes "claims_exact asn1 expected exts" "distinct (map fst expected)"
  shows "\<exists>claims. read_claims asn1 (set (map fst expected)) exts [] = Inr claims \<and> length claims = length expected \<and>
    list_all (\<lambda>(oid, v). map_of claims oid = Some v) expected"
proof -
  let ?kept = "kept_of expected exts"
  note m = claims_exact_kept[OF assms]
  have d: "distinct (map fst ?kept)" using m assms(2) by (metis mset_eq_imp_distinct_iff)
  have "length ?kept = length expected" using m by (metis length_map mset_eq_length)
  moreover have "\<exists>v. asn1 (snd e) = Some (v, [])" if "e \<in> set ?kept" for e
  proof -
    have "fst e \<in> fst ` set expected" using that by (simp add: kept_of_def)
    then obtain x where x: "x \<in> set expected" "fst x = fst e" by (metis imageE)
    have "(fst e, snd x) \<in> set expected" using x by (metis prod.collapse)
    then obtain raw where raw: "filter (\<lambda>y. fst y = fst e) exts = [(fst e, raw)]" "asn1 raw = Some (snd x, [])"
      using claims_exact_one[OF assms(1)] by blast
    have "e \<in> set (filter (\<lambda>y. fst y = fst e) exts)" using that unfolding kept_of_def by simp
    then have "e = (fst e, raw)" unfolding raw(1) by simp
    then show ?thesis using raw(2) by (metis snd_conv)
  qed
  moreover have "\<exists>e \<in> set ?kept. fst e = oid \<and> fst (the (asn1 (snd e))) = v" if v: "(oid, v) \<in> set expected" for oid v
  proof -
    obtain raw where raw: "filter (\<lambda>e. fst e = oid) ?kept = [(oid, raw)]" "asn1 raw = Some (v, [])"
      using claims_exact_one[OF assms(1) v] kept_one[OF v] by auto
    then have "(oid, raw) \<in> set (filter (\<lambda>e. fst e = oid) ?kept)" by simp
    then show ?thesis using raw(2) by (intro bexI[of _ "(oid, raw)"]) auto
  qed
  ultimately show ?thesis unfolding read_claims_kept using d claim_values_iff[OF d]
    by (intro exI[of _ "claim_values asn1 ?kept"]) (auto simp: list_all_iff claim_values_def)
qed

lemma claims_read:
  fixes expected :: "(string \<times> string) list"
  assumes "distinct (map fst expected)"
  shows "(\<exists>claims. read_claims asn1 (set (map fst expected)) exts [] = Inr claims \<and> length claims = length expected \<and>
           list_all (\<lambda>(oid, v). map_of claims oid = Some v) expected) \<longleftrightarrow> claims_exact asn1 expected exts"
  using claims_exact_read claims_read_exact[OF _ assms] by blast

lemma expected_claims_distinct: "distinct (map fst (expected_claims r))"
  by (simp add: expected_claims_def claim_oid_def)

lemma verify_certificate_iff:
  "verify_certificate t c r now = Inr () \<longleftrightarrow>
     ce_not_before c \<le> now \<and> now \<le> ce_not_after c \<and> ce_signs c \<and> ce_key c \<noteq> None \<and> 3 \<in> set (ce_usages c) \<and>
     ce_organizations c = [''sigstore.dev''] \<and> ce_uris c = [workflow_identity r] \<and>
     claims_exact (at_asn1 t) (expected_claims r) (ce_extensions c)"
  unfolding verify_certificate_def claims_read[OF expected_claims_distinct, symmetric]
  by (auto simp: bind_def list_ex_iff split: sum.split)

section \<open>The members of the archive\<close>

definition member_names :: "release \<Rightarrow> string list" where
  "member_names r = map (\<lambda>f. bundle_root r @ ''/'' @ f) bundle_files"

definition member_text :: "tar_member list \<Rightarrow> string \<Rightarrow> string option" where
  "member_text ms n = Option.bind (map_of (map (\<lambda>m. (tm_name m, m)) ms) n) tm_data"

text \<open>Owned by root, of the right type and mode, and as long as its header says.\<close>

definition plain_member :: "release \<Rightarrow> tar_member \<Rightarrow> bool" where
  "plain_member r m \<longleftrightarrow> tm_uid m = 0 \<and> tm_gid m = 0 \<and>
     (if tm_name m = bundle_root r @ ''/'' then tm_type m = CHR ''5'' \<and> tm_mode m mod 4096 = 493 \<and> tm_size m = 0
      else tm_type m = CHR ''0'' \<and> tm_mode m mod 4096 = (if tm_name m = bundle_root r @ ''/.env'' then 384 else 420) \<and>
        (case tm_data m of None \<Rightarrow> False | Some c \<Rightarrow> tm_size m = int (length c) \<and> c \<noteq> [] \<and> length c \<le> max_bundle_member))"

lemma bundle_files_distinct: "distinct bundle_files"
  by code_simp

lemma member_names_distinct: "distinct (member_names r)"
  using bundle_files_distinct by (auto simp: member_names_def distinct_map inj_on_def)

lemma wanted_type_iff:
  "wanted_type r n = Some w \<longleftrightarrow>
     n \<in> set (member_names r) \<and> w = (if n = bundle_root r @ ''/'' then CHR ''5'' else CHR ''0'')"
proof -
  let ?f = "\<lambda>f. (bundle_root r @ ''/'' @ f, if f = [] then CHR ''5'' else CHR ''0'')"
  have "distinct (map fst (map ?f bundle_files))" using member_names_distinct[of r] by (simp add: member_names_def comp_def)
  then have "wanted_type r n = Some w \<longleftrightarrow> (n, w) \<in> set (map ?f bundle_files)"
    unfolding wanted_type_def by (rule map_of_eq_Some_iff)
  then show ?thesis by (auto simp: member_names_def)
qed

lemma bundle_member_plain:
  assumes "bundle_member r seen m = Inr oc"
  shows "tm_name m \<in> set (member_names r) \<and> tm_name m \<notin> seen \<and> plain_member r m \<and>
    oc = (if tm_name m = bundle_root r @ ''/'' then None else tm_data m)"
proof -
  obtain w where w: "wanted_type r (tm_name m) = Some w" and t: "tm_type m = w" "tm_uid m = 0" "tm_gid m = 0" "member_size m" "tm_name m \<notin> seen"
    using assms by (auto simp: bundle_member_def split: option.splits if_splits)
  show ?thesis
  proof (cases "tm_name m = bundle_root r @ ''/''")
    case True
    then show ?thesis using assms w t wanted_type_iff[of r "tm_name m" w]
      by (auto simp: bundle_member_def plain_member_def split: if_splits)
  next
    case False
    then have n: "w = CHR ''0''" "tm_name m \<in> set (member_names r)" using w wanted_type_iff by auto
    have k: "tm_mode m mod 4096 = (if tm_name m = bundle_root r @ ''/.env'' then 384 else 420)" "tm_size m \<noteq> 0"
      using assms w t n(1) by (simp_all add: bundle_member_def split: if_splits)
    obtain c where c: "tm_data m = Some c" "int (length (take (max_bundle_member + 1) c)) = tm_size m"
        "length (take (max_bundle_member + 1) c) \<le> max_bundle_member" "oc = Some (take (max_bundle_member + 1) c)"
      using assms w t n(1) k by (auto simp: bundle_member_def split: option.splits if_splits)
    then have "length c \<le> max_bundle_member" by (simp add: min_def split: if_splits)
    then show ?thesis using c k t n False by (auto simp: plain_member_def)
  qed
qed

lemma bundle_members_plain:
  "bundle_members r ms seen contents = Inr (seen', contents') \<Longrightarrow>
     distinct (map tm_name ms) \<and> tm_name ` set ms \<inter> seen = {} \<and> tm_name ` set ms \<subseteq> set (member_names r) \<and> list_all (plain_member r) ms \<and>
     seen' = seen \<union> tm_name ` set ms \<and>
     (\<forall>n. n \<noteq> bundle_root r @ ''/'' \<longrightarrow> contents' n = (if n \<in> tm_name ` set ms then member_text ms n else contents n))"
proof (induction ms arbitrary: seen contents)
  case (Cons m ms)
  then obtain oc where oc: "bundle_member r seen m = Inr oc" by (auto split: sum.splits)
  note m = bundle_member_plain[OF oc]
  define added where "added = (case oc of None \<Rightarrow> contents | Some c \<Rightarrow> contents(tm_name m \<mapsto> c))"
  have rest: "bundle_members r ms (insert (tm_name m) seen) added = Inr (seen', contents')"
    using Cons.prems oc by (simp add: added_def split: option.splits)
  have other: "added n =
      (if n = tm_name m then tm_data m else contents n)" if "n \<noteq> bundle_root r @ ''/''" for n
    using m that by (auto simp: added_def plain_member_def split: option.splits if_splits)
  have step: "member_text (m # ms) n = (if n = tm_name m then tm_data m else member_text ms n)" for n
    by (simp add: member_text_def)
  show ?case using Cons.IH[OF rest] m by (auto simp: other step)
qed simp

lemma bundle_members_exact:
  assumes "bundle_members r ms {} Map.empty = Inr (seen, contents)" "card seen = length bundle_files"
  shows "mset (map tm_name ms) = mset (member_names r) \<and> list_all (plain_member r) ms \<and>
    (\<forall>f \<in> set bundle_files. f \<noteq> [] \<longrightarrow> member_text ms (bundle_root r @ ''/'' @ f) = Some (content_of r contents f))"
proof -
  note p = bundle_members_plain[OF assms(1)]
  have "card (tm_name ` set ms) = length (map tm_name ms)" using p by (metis distinct_card set_map)
  then have "length (map tm_name ms) = length (member_names r)" using p assms(2) by (simp add: member_names_def)
  then have m: "mset (map tm_name ms) = mset (member_names r)"
    using p member_names_distinct by (metis List.finite_set card_subset_eq distinct_card set_eq_iff_mset_eq_distinct set_map)
  have "member_text ms (bundle_root r @ ''/'' @ f) = Some (content_of r contents f)" if f: "f \<in> set bundle_files" "f \<noteq> []" for f
  proof -
    let ?n = "bundle_root r @ ''/'' @ f"
    have "?n \<in> set (member_names r)" using f(1) by (simp add: member_names_def)
    then have n: "?n \<in> tm_name ` set ms" using mset_eq_setD[OF m] by simp
    then obtain x where x: "x \<in> set ms" "?n = tm_name x" by (rule imageE)
    have "map_of (map (\<lambda>m. (tm_name m, m)) ms) ?n = Some x"
      by (rule map_of_is_SomeI) (use p x in \<open>simp_all add: comp_def rev_image_eqI\<close>)
    then have "member_text ms ?n = tm_data x" unfolding member_text_def by simp
    moreover have "plain_member r x" using p x(1) by (simp add: list_all_iff)
    then have "tm_data x \<noteq> None" using x(2)[symmetric] f(2) by (simp add: plain_member_def split: option.splits if_splits)
    moreover have "contents ?n = member_text ms ?n" using p n f(2) by simp
    ultimately show ?thesis by (simp add: content_of_def split: option.split)
  qed
  moreover have "list_all (plain_member r) ms" using p by simp
  ultimately show ?thesis using m by blast
qed

text \<open>The files a release pins by their digest.\<close>

definition reviewed :: "(string \<times> string) list" where
  "reviewed = [(''compose.managed.yaml'', compose_managed_sha), (''compose.managed-nut-host.yaml'', compose_managed_nut_host_sha),
     (''compose.yaml'', compose_sha), (''compose.auth.yaml'', compose_auth_sha), (''compose.nut-host.yaml'', compose_nut_host_sha),
     (''compose.legacy.yaml'', compose_legacy_sha)]"

text \<open>An archive that is the release bundle: the nine members and no other, with the contents of this release.\<close>

definition release_bundle :: "(string \<Rightarrow> string) \<Rightarrow> release \<Rightarrow> binding \<Rightarrow> tar_member list \<Rightarrow> bool" where
  "release_bundle sha r b ms \<longleftrightarrow>
     mset (map tm_name ms) = mset (member_names r) \<and> list_all (plain_member r) ms \<and>
     member_text ms (bundle_root r @ ''/.env'') = Some (expected_environment r b) \<and>
     member_text ms (bundle_root r @ ''/RELEASE-METADATA.txt'') = Some (expected_metadata r b) \<and>
     list_all (\<lambda>(f, d). map_option sha (member_text ms (bundle_root r @ ''/'' @ f)) = Some d) reviewed"

lemma verify_contents_release:
  assumes "verify_contents sha r b contents = Inr ()"
    "bundle_members r ms {} Map.empty = Inr (seen, contents)" "card seen = length bundle_files"
  shows "release_bundle sha r b ms"
proof -
  note e = bundle_members_exact[OF assms(2,3)]
  have t: "member_text ms (bundle_root r @ ''/'' @ f) = Some (content_of r contents f)" if "f \<in> set bundle_files" "f \<noteq> []" for f
    using e that by blast
  have c: "content_of r contents ''.env'' = expected_environment r b"
    "content_of r contents ''RELEASE-METADATA.txt'' = expected_metadata r b"
    "list_all (\<lambda>(f, d). sha (content_of r contents f) = d) reviewed"
    using assms(1) by (auto simp: verify_contents_def verify_environment_def bind_def reviewed_def split: if_splits)
  have i: "''.env'' \<in> set bundle_files" "''RELEASE-METADATA.txt'' \<in> set bundle_files"
    "list_all (\<lambda>(f, d). f \<in> set bundle_files \<and> f \<noteq> []) reviewed"
    by (simp_all add: bundle_files_def reviewed_def)
  have "list_all (\<lambda>(f, d). map_option sha (member_text ms (bundle_root r @ ''/'' @ f)) = Some d) reviewed"
    using c(3) i(3) t unfolding list_all_iff by fastforce
  then show ?thesis using e t[OF i(1)] t[OF i(2)] c(1,2) by (simp add: release_bundle_def)
qed

lemma verify_bundle_release:
  assumes "verify_bundle t r b compressed = Inr u"
  shows "\<exists>gz. bt_gunzip t compressed = Some gz \<and> gz_rest gz = 0 \<and> length (gz_text gz) \<le> max_expanded_bundle \<and>
    release_bundle (bt_sha t) r b (tw_members (bt_untar t (gz_text gz) True))"
proof -
  obtain gz where gz: "bt_gunzip t compressed = Some gz" using assms by (auto simp: verify_bundle_def split: option.splits)
  let ?limited = "take (max_expanded_bundle + 1) (gz_text gz)"
  let ?walk = "bt_untar t ?limited (gz_clean gz \<or> max_expanded_bundle < length ?limited)"
  obtain seen contents where m: "bundle_members r (tw_members ?walk) {} Map.empty = Inr (seen, contents)"
      "card seen = length bundle_files" "\<not> max_expanded_bundle < length ?limited" "gz_clean gz" "gz_rest gz = 0"
      "verify_contents (bt_sha t) r b contents = Inr u"
    using assms unfolding verify_bundle_def gz by (auto simp: Let_def bind_def simp del: length_take split: sum.splits)
  then have "length (gz_text gz) \<le> max_expanded_bundle" by (simp add: min_def split: if_splits)
  then have "?limited = gz_text gz" by simp
  then show ?thesis using gz m verify_contents_release[of "bt_sha t" r b contents "tw_members ?walk" seen] \<open>length _ \<le> _\<close> by auto
qed

end
