(* ===== verification/ReleaseIndex.thy ===== *)
theory ReleaseIndex
  imports ReleaseFiles ReleasePolicy "HOL-Library.Multiset"
begin

text \<open>
  \<open>internal/releaseguard/oci.go\<close>: the multi-platform index of a release, decoded strictly, and the
  topology it must have.  SHA-256 and the calls on the file are parameters.
\<close>

section \<open>The document\<close>

definition max_oci_index :: nat where "max_oci_index = 1048576"
definition index_media :: string where "index_media = ''application/vnd.oci.image.index.v1+json''"
definition manifest_media :: string where "manifest_media = ''application/vnd.oci.image.manifest.v1+json''"
definition reference_digest :: string where "reference_digest = ''vnd.docker.reference.digest''"
definition reference_type :: string where "reference_type = ''vnd.docker.reference.type''"
definition attestation_manifest :: string where "attestation_manifest = ''attestation-manifest''"
definition expected_platforms :: "string list" where
  "expected_platforms = [''linux/386'', ''linux/amd64'', ''linux/arm/v7'', ''linux/arm64'']"

record oci_platform =
  op_architecture :: "string option"
  op_os :: "string option"
  op_variant :: "string option"

record oci_descriptor =
  od_media :: "string option"
  od_digest :: "string option"
  od_size :: "int option"
  od_platform :: "oci_platform option"
  od_annotations :: "json option"

record oci_document =
  oc_schema :: "int option"
  oc_media :: "string option"
  oc_manifests :: "oci_descriptor slice option"

text \<open>\<open>DisallowUnknownFields\<close>; a raw member is kept as it is.\<close>

definition strict_into :: "string list \<Rightarrow> ('a \<Rightarrow> (string \<times> json) list \<Rightarrow> 'a option) \<Rightarrow> 'a \<Rightarrow> (string \<times> json) list \<Rightarrow> 'a option" where
  "strict_into fs f cur ms = (if \<not> only_fields fs ms then None else f cur ms)"

definition raw_into :: "json option \<Rightarrow> json \<Rightarrow> json option option" where "raw_into cur j = Some (Some j)"

definition platform_fields :: "oci_platform \<Rightarrow> (string \<times> json) list \<Rightarrow> oci_platform option" where
  "platform_fields = strict_into [''architecture'', ''os'', ''variant''] (\<lambda>cur ms.
     Option.bind (str_ptr (op_architecture cur) ''architecture'' ms) (\<lambda>a.
     Option.bind (str_ptr (op_os cur) ''os'' ms) (\<lambda>s.
     Option.bind (str_ptr (op_variant cur) ''variant'' ms) (\<lambda>v.
     Some \<lparr>op_architecture = a, op_os = s, op_variant = v\<rparr>))))"

definition no_platform :: oci_platform where "no_platform = \<lparr>op_architecture = None, op_os = None, op_variant = None\<rparr>"

definition descriptor_fields :: "oci_descriptor \<Rightarrow> (string \<times> json) list \<Rightarrow> oci_descriptor option" where
  "descriptor_fields = strict_into [''mediaType'', ''digest'', ''size'', ''platform'', ''annotations''] (\<lambda>cur ms.
     Option.bind (str_ptr (od_media cur) ''mediaType'' ms) (\<lambda>m.
     Option.bind (str_ptr (od_digest cur) ''digest'' ms) (\<lambda>d.
     Option.bind (int_ptr (od_size cur) ''size'' ms) (\<lambda>z.
     Option.bind (struct_ptr platform_fields no_platform (od_platform cur) ''platform'' ms) (\<lambda>p.
     Option.bind (field_into raw_into (od_annotations cur) ''annotations'' ms) (\<lambda>a.
     Some \<lparr>od_media = m, od_digest = d, od_size = z, od_platform = p, od_annotations = a\<rparr>))))))"

definition no_descriptor :: oci_descriptor where
  "no_descriptor = \<lparr>od_media = None, od_digest = None, od_size = None, od_platform = None, od_annotations = None\<rparr>"

definition document_fields :: "oci_document \<Rightarrow> (string \<times> json) list \<Rightarrow> oci_document option" where
  "document_fields = strict_into [''schemaVersion'', ''mediaType'', ''manifests''] (\<lambda>cur ms.
     Option.bind (int_ptr (oc_schema cur) ''schemaVersion'' ms) (\<lambda>s.
     Option.bind (str_ptr (oc_media cur) ''mediaType'' ms) (\<lambda>m.
     Option.bind (structs_ptr descriptor_fields no_descriptor (oc_manifests cur) ''manifests'' ms) (\<lambda>ds.
     Some \<lparr>oc_schema = s, oc_media = m, oc_manifests = ds\<rparr>))))"

definition decode_index :: "string \<Rightarrow> oci_document option" where
  "decode_index = decode_with (struct_into document_fields) \<lparr>oc_schema = None, oc_media = None, oc_manifests = None\<rparr>"

section \<open>One descriptor\<close>

definition runnable_platform :: "oci_platform \<Rightarrow> string option" where
  "runnable_platform p =
     (if op_os p \<noteq> Some ''linux'' then None
      else case op_architecture p of
        None \<Rightarrow> None
      | Some a \<Rightarrow>
          if a = ''386'' \<or> a = ''amd64'' \<or> a = ''arm64'' then (if op_variant p \<noteq> None then None else Some (''linux/'' @ a))
          else if a = ''arm'' then (if op_variant p \<noteq> Some ''v7'' then None else Some ''linux/arm/v7'')
          else None)"

definition attestation_link :: "json option \<Rightarrow> (string, string) result" where
  "attestation_link raw =
     (case raw of
        None \<Rightarrow> Inl ''OCI attestation descriptor is missing annotations''
      | Some j \<Rightarrow>
          (case (case j of JObj ms \<Rightarrow> entries_into [] ms | _ \<Rightarrow> None) of
             None \<Rightarrow> Inl ''OCI attestation descriptor has malformed annotations''
           | Some m \<Rightarrow>
               if length m \<noteq> 2 then Inl ''OCI attestation descriptor has malformed annotations''
               else (case (map_of m reference_digest, map_of m reference_type) of
                       (Some link, Some t) \<Rightarrow>
                         if \<not> valid_digest link \<or> t \<noteq> attestation_manifest
                         then Inl ''OCI attestation descriptor has malformed annotations'' else Inr link
                     | _ \<Rightarrow> Inl ''OCI attestation descriptor has malformed annotations'')))"

text \<open>The digest and the platform of a descriptor that is not malformed.\<close>

definition descriptor_parts :: "oci_descriptor \<Rightarrow> (string \<times> oci_platform) option" where
  "descriptor_parts d =
     (case (od_digest d, od_size d, od_platform d) of
        (Some g, Some n, Some p) \<Rightarrow>
          if od_media d \<noteq> Some manifest_media \<or> \<not> valid_digest g \<or> n \<le> 0 \<or> op_os p = None \<or> op_architecture p = None
          then None else Some (g, p)
      | _ \<Rightarrow> None)"

definition attestation_platform :: "oci_platform \<Rightarrow> bool" where
  "attestation_platform p \<longleftrightarrow> op_os p = Some ''unknown'' \<and> op_architecture p = Some ''unknown''"

section \<open>The topology\<close>

text \<open>The descriptors in order, with the runnable ones, the links and all digests so far.\<close>

fun check_descriptors :: "oci_descriptor list \<Rightarrow> (string \<times> string) list \<Rightarrow> string list \<Rightarrow> string list \<Rightarrow>
    (string, (string \<times> string) list \<times> string list) result" where
  "check_descriptors [] runnable links digests = Inr (runnable, links)"
| "check_descriptors (d # ds) runnable links digests =
     (case descriptor_parts d of
        None \<Rightarrow> Inl ''OCI index contains a malformed manifest descriptor''
      | Some (g, p) \<Rightarrow>
          if g \<in> set digests then Inl ''OCI index contains a duplicate manifest digest''
          else if attestation_platform p then
            (if op_variant p \<noteq> None then Inl ''OCI attestation descriptor has an unexpected platform variant''
             else case attestation_link (od_annotations d) of
               Inl e \<Rightarrow> Inl e
             | Inr link \<Rightarrow>
                 if link \<in> set links then Inl ''OCI index contains duplicate attestation links''
                 else check_descriptors ds runnable (link # links) (g # digests))
          else if od_annotations d \<noteq> None \<and> od_annotations d \<noteq> Some JNull then Inl ''OCI runnable manifest has unexpected annotations''
          else case runnable_platform p of
            None \<Rightarrow> Inl ''OCI index contains an unexpected runnable platform''
          | Some name \<Rightarrow>
              if name \<notin> set expected_platforms then Inl ''OCI index contains an unexpected runnable platform''
              else if name \<in> fst ` set runnable then Inl ''OCI index contains a duplicate runnable platform''
              else check_descriptors ds ((name, g) # runnable) links (g # digests))"

definition verify_index :: "string \<Rightarrow> (string, unit) result" where
  "verify_index payload =
     (case decode_index payload of
        None \<Rightarrow> Inl ''OCI index is malformed''
      | Some doc \<Rightarrow>
          (case oc_manifests doc of
             None \<Rightarrow> Inl ''OCI index has an unsupported envelope''
           | Some ms \<Rightarrow>
               if oc_schema doc \<noteq> Some 2 \<or> oc_media doc \<noteq> Some index_media then Inl ''OCI index has an unsupported envelope''
               else if length (items ms) \<noteq> 8 then Inl ''OCI index does not contain the exact manifest topology''
               else case check_descriptors (items ms) [] [] [] of
                 Inl e \<Rightarrow> Inl e
               | Inr (runnable, links) \<Rightarrow>
                   if length runnable \<noteq> length expected_platforms \<or> length links \<noteq> length expected_platforms
                   then Inl ''OCI index does not contain the exact manifest topology''
                   else if \<not> list_all (\<lambda>x. snd x \<in> set links) runnable
                   then Inl ''OCI index attestation does not bind a runnable manifest''
                   else if \<not> list_all (\<lambda>x. x \<in> fst ` set runnable) expected_platforms
                   then Inl ''OCI index is missing a required runnable platform'' else Inr ()))"

definition index_errors :: snapshot_errors where
  "index_errors = \<lparr>se_unbounded = ''OCI index is not a bounded regular file'', se_open = ''open OCI index'',
     se_changed = ''OCI index changed while opening'', se_read = ''read OCI index''\<rparr>"

definition snapshot_index :: "file_view \<Rightarrow> (string, string) result" where
  "snapshot_index v = snapshot_file max_oci_index index_errors v"

definition verify_index_file :: "(string \<Rightarrow> string) \<Rightarrow> (string \<Rightarrow> file_view) \<Rightarrow> (string \<Rightarrow> string) \<Rightarrow> (string, unit) result" where
  "verify_index_file sha view getenv =
     guard (getenv ''N2U_OCI_INDEX_PATH'' = []) ''N2U_OCI_INDEX_PATH is required'' (
     guard (\<not> canonical_path (getenv ''N2U_OCI_INDEX_PATH'')) ''N2U_OCI_INDEX_PATH must be an absolute canonical path'' (
     guard (\<not> valid_digest (getenv ''N2U_IMAGE_DIGEST'')) ''N2U_IMAGE_DIGEST must be a lowercase sha256 digest'' (
     bind (snapshot_index (view (getenv ''N2U_OCI_INDEX_PATH''))) (\<lambda>payload.
     guard (''sha256:'' @ sha payload \<noteq> getenv ''N2U_IMAGE_DIGEST'') ''OCI index content does not match N2U_IMAGE_DIGEST''
       (verify_index payload)))))"

section \<open>What the topology is\<close>

text \<open>A descriptor is a runnable image of a platform or the attestation of the image its link names.\<close>

definition role :: "oci_descriptor \<Rightarrow> (string + string) option" where
  "role d =
     (case descriptor_parts d of
        None \<Rightarrow> None
      | Some (g, p) \<Rightarrow>
          if attestation_platform p then
            (if op_variant p \<noteq> None then None
             else case attestation_link (od_annotations d) of Inl e \<Rightarrow> None | Inr link \<Rightarrow> Some (Inr link))
          else if od_annotations d \<noteq> None \<and> od_annotations d \<noteq> Some JNull then None
          else case runnable_platform p of None \<Rightarrow> None | Some name \<Rightarrow> if name \<in> set expected_platforms then Some (Inl name) else None)"

definition images :: "oci_descriptor list \<Rightarrow> (string \<times> string) list" where
  "images ds = concat (map (\<lambda>d. case role d of Some (Inl name) \<Rightarrow> [(name, the (od_digest d))] | _ \<Rightarrow> []) ds)"

definition attested :: "oci_descriptor list \<Rightarrow> string list" where
  "attested ds = concat (map (\<lambda>d. case role d of Some (Inr link) \<Rightarrow> [link] | _ \<Rightarrow> []) ds)"

text \<open>
  Every descriptor has a role, no digest occurs twice, each platform has one image and each image
  one attestation.
\<close>

definition exact_topology :: "oci_descriptor list \<Rightarrow> bool" where
  "exact_topology ds \<longleftrightarrow>
     list_all (\<lambda>d. role d \<noteq> None) ds \<and> distinct (map od_digest ds) \<and>
     mset (map fst (images ds)) = mset expected_platforms \<and> mset (attested ds) = mset (map snd (images ds))"

lemma role_digest: "role d \<noteq> None \<Longrightarrow> od_digest d \<noteq> None"
  by (auto simp: role_def descriptor_parts_def split: option.splits)

lemma check_descriptors_iff:
  "check_descriptors ds runnable links digests = Inr (runnable', links') \<longleftrightarrow>
     list_all (\<lambda>d. role d \<noteq> None) ds \<and> distinct (map od_digest ds) \<and> od_digest ` set ds \<inter> Some ` set digests = {} \<and>
     distinct (map fst (images ds)) \<and> fst ` set (images ds) \<inter> fst ` set runnable = {} \<and>
     distinct (attested ds) \<and> set (attested ds) \<inter> set links = {} \<and>
     runnable' = rev (images ds) @ runnable \<and> links' = rev (attested ds) @ links"
proof (induction ds arbitrary: runnable links digests)
  case Nil
  then show ?case by (auto simp: images_def attested_def)
next
  case (Cons d ds)
  have more: "images (d # ds) = (case role d of Some (Inl name) \<Rightarrow> [(name, the (od_digest d))] | _ \<Rightarrow> []) @ images ds"
    "attested (d # ds) = (case role d of Some (Inr link) \<Rightarrow> [link] | _ \<Rightarrow> []) @ attested ds"
    by (simp_all add: images_def attested_def)
  show ?case
  proof (cases "role d")
    case None
    have "\<not> isOk (check_descriptors (d # ds) runnable links digests)"
    proof (cases "descriptor_parts d")
      case (Some gp)
      obtain g p where gp: "gp = (g, p)" by (cases gp)
      show ?thesis
      proof (cases "attestation_platform p")
        case True
        then show ?thesis using None Some gp by (cases "op_variant p"; cases "attestation_link (od_annotations d)") (simp_all add: role_def)
      next
        case False
        then show ?thesis using None Some gp by (cases "runnable_platform p") (auto simp: role_def split: if_splits)
      qed
    qed simp
    then show ?thesis using None by (cases "check_descriptors (d # ds) runnable links digests") (simp_all del: check_descriptors.simps)
  next
    case (Some k)
    then obtain g p where gp: "descriptor_parts d = Some (g, p)" by (auto simp: role_def split: option.splits)
    then have g: "od_digest d = Some g" by (auto simp: descriptor_parts_def split: option.splits if_splits)
    show ?thesis
    proof (cases k)
      case (Inl name)
      then have n: "\<not> attestation_platform p" "\<not> (od_annotations d \<noteq> None \<and> od_annotations d \<noteq> Some JNull)"
        "runnable_platform p = Some name" "name \<in> set expected_platforms"
        using Some gp by (auto simp: role_def split: option.splits sum.splits if_splits)
      have "check_descriptors (d # ds) runnable links digests =
          (if g \<in> set digests then Inl ''OCI index contains a duplicate manifest digest''
           else if name \<in> fst ` set runnable then Inl ''OCI index contains a duplicate runnable platform''
           else check_descriptors ds ((name, g) # runnable) links (g # digests))"
        using gp n by auto
      then show ?thesis unfolding more Some Inl using g Some by (auto simp: Cons.IH)
    next
      case (Inr link)
      then have n: "attestation_platform p" "op_variant p = None" "attestation_link (od_annotations d) = Inr link"
        using Some gp by (auto simp: role_def split: option.splits sum.splits if_splits)
      have "check_descriptors (d # ds) runnable links digests =
          (if g \<in> set digests then Inl ''OCI index contains a duplicate manifest digest''
           else if link \<in> set links then Inl ''OCI index contains duplicate attestation links''
           else check_descriptors ds runnable (link # links) (g # digests))"
        using gp n by simp
      then show ?thesis unfolding more Some Inr using g Some by (auto simp: Cons.IH)
    qed
  qed
qed

lemma roles_count: "list_all (\<lambda>d. role d \<noteq> None) ds \<Longrightarrow> length ds = length (images ds) + length (attested ds)"
  by (induction ds) (auto simp: images_def attested_def split: option.split sum.split)

lemma images_in: "fst ` set (images ds) \<subseteq> set expected_platforms"
  by (auto simp: images_def role_def split: option.splits sum.splits if_splits)

lemma images_digests: "g \<in> snd ` set (images ds) \<Longrightarrow> Some g \<in> od_digest ` set ds"
proof (induction ds)
  case (Cons d ds)
  have more: "images (d # ds) = (case role d of Some (Inl name) \<Rightarrow> [(name, the (od_digest d))] | _ \<Rightarrow> []) @ images ds"
    by (simp add: images_def)
  show ?case
  proof (cases "role d")
    case (Some k)
    then have "od_digest d = Some (the (od_digest d))" using role_digest[of d] by simp
    then show ?thesis using Cons Some unfolding more by (cases k) auto
  qed (use Cons more in auto)
qed (simp add: images_def)

lemma images_distinct: "distinct (map od_digest ds) \<Longrightarrow> distinct (map snd (images ds))"
proof (induction ds)
  case (Cons d ds)
  have more: "images (d # ds) = (case role d of Some (Inl name) \<Rightarrow> [(name, the (od_digest d))] | _ \<Rightarrow> []) @ images ds"
    by (simp add: images_def)
  have "the (od_digest d) \<notin> snd ` set (images ds)" if "role d \<noteq> None"
    using images_digests[of "the (od_digest d)" ds] role_digest[OF that] Cons.prems by auto
  then show ?case using Cons unfolding more by (auto split: option.split sum.split)
qed (simp add: images_def)

lemma same_elements: "distinct xs \<Longrightarrow> distinct ys \<Longrightarrow> set xs \<subseteq> set ys \<Longrightarrow> length xs = length ys \<Longrightarrow> mset xs = mset ys"
  by (metis List.finite_set card_subset_eq distinct_card set_eq_iff_mset_eq_distinct)

lemma platforms_distinct: "distinct expected_platforms"
  by code_simp

lemma topology_iff:
  "length ds = 8 \<and> (\<exists>runnable links. check_descriptors ds [] [] [] = Inr (runnable, links) \<and>
      length runnable = length expected_platforms \<and> length links = length expected_platforms \<and>
      list_all (\<lambda>x. snd x \<in> set links) runnable \<and> list_all (\<lambda>x. x \<in> fst ` set runnable) expected_platforms)
    \<longleftrightarrow> exact_topology ds"
proof
  assume L: "length ds = 8 \<and> (\<exists>runnable links. check_descriptors ds [] [] [] = Inr (runnable, links) \<and>
      length runnable = length expected_platforms \<and> length links = length expected_platforms \<and>
      list_all (\<lambda>x. snd x \<in> set links) runnable \<and> list_all (\<lambda>x. x \<in> fst ` set runnable) expected_platforms)"
  then have c: "list_all (\<lambda>d. role d \<noteq> None) ds" "distinct (map od_digest ds)" "distinct (map fst (images ds))" "distinct (attested ds)"
    "length (images ds) = length expected_platforms" "length (attested ds) = length expected_platforms"
    "snd ` set (images ds) \<subseteq> set (attested ds)"
    by (auto simp: check_descriptors_iff list_all_iff)
  have "mset (map fst (images ds)) = mset expected_platforms"
    by (rule same_elements) (use c platforms_distinct images_in[of ds] in auto)
  moreover have "mset (map snd (images ds)) = mset (attested ds)"
    by (rule same_elements) (use c images_distinct[OF c(2)] in auto)
  ultimately show "exact_topology ds" using c by (simp add: exact_topology_def)
next
  assume "exact_topology ds"
  then have e: "list_all (\<lambda>d. role d \<noteq> None) ds" "distinct (map od_digest ds)"
    "mset (map fst (images ds)) = mset expected_platforms" "mset (attested ds) = mset (map snd (images ds))"
    by (simp_all add: exact_topology_def)
  have d: "distinct (map fst (images ds))" "distinct (attested ds)"
    using e(3,4) platforms_distinct images_distinct[OF e(2)] by (metis mset_eq_imp_distinct_iff)+
  have n: "length (images ds) = length expected_platforms" "length (attested ds) = length (images ds)"
    using e(3,4) by (metis length_map mset_eq_length)+
  have "length ds = 8" using roles_count[OF e(1)] n by (simp add: expected_platforms_def)
  moreover have "set expected_platforms = fst ` set (images ds)" "set (attested ds) = snd ` set (images ds)"
    using e(3,4) by (metis set_map set_mset_mset)+
  ultimately show "length ds = 8 \<and> (\<exists>runnable links. check_descriptors ds [] [] [] = Inr (runnable, links) \<and>
      length runnable = length expected_platforms \<and> length links = length expected_platforms \<and>
      list_all (\<lambda>x. snd x \<in> set links) runnable \<and> list_all (\<lambda>x. x \<in> fst ` set runnable) expected_platforms)"
    using e(1,2) d n by (auto simp: check_descriptors_iff list_all_iff)
qed

lemma verify_index_iff:
  "verify_index payload = Inr () \<longleftrightarrow>
     (\<exists>doc ms. decode_index payload = Some doc \<and> oc_schema doc = Some 2 \<and> oc_media doc = Some index_media \<and>
        oc_manifests doc = Some ms \<and> exact_topology (items ms))"
  unfolding verify_index_def topology_iff[symmetric]
  by (auto split: option.split sum.split)

end
