(* ===== verification/ReleaseCommand.thy ===== *)
theory ReleaseCommand
  imports ReleaseBundle ReleaseIndex
begin

text \<open>
  \<open>cmd/releaseguard/main.go\<close>: one command of the release guard, its exit code, what it prints and
  the requests it sends.  Everything outside the program is in one record.
\<close>

record outside =
  ou_server :: server
  ou_output :: output_view
  ou_files :: "string \<Rightarrow> file_view"
  ou_bundle :: bundle_tools
  ou_attestation :: attestation_tools
  ou_now :: "int option"

record exit =
  ex_code :: int
  ex_stdout :: string
  ex_stderr :: string
  ex_requests :: "gh_request list"

definition usage_line :: string where
  "usage_line = ''usage: releaseguard <trust|reserve|verify-reserved|verify-image-source|verify-index|verify-attestation|bind|verify-bound|upload-assets|publish>'' @
     [CHR 0x0A]"

definition guard_command :: "outside \<Rightarrow> release \<Rightarrow> (string \<Rightarrow> string) \<Rightarrow> string \<Rightarrow> unit command option" where
  "guard_command w r getenv name =
     (let srv = ou_server w
      in if name = ''trust'' then Some (trust srv r)
         else if name = ''reserve'' then Some (then_do (reserve srv r (ou_output w)) (\<lambda>_. give ()))
         else if name = ''verify-reserved'' then Some (verify_reserved srv r getenv)
         else if name = ''verify-image-source'' then Some (verify_image_source srv r)
         else if name = ''verify-attestation''
         then Some (verify_attestation srv r getenv (ou_attestation w) (ou_files w) (ou_now w))
         else if name = ''bind'' then Some (bind_image srv r getenv)
         else if name = ''verify-bound'' then Some (verify_bound srv r getenv)
         else if name = ''upload-assets'' then Some (upload_assets srv r getenv (ou_bundle w) (ou_files w))
         else if name = ''publish'' then Some (publish srv r getenv (ou_bundle w) (ou_files w))
         else None)"

definition failed :: "int \<Rightarrow> string \<Rightarrow> gh_request list \<Rightarrow> exit" where
  "failed n e h = \<lparr>ex_code = n, ex_stdout = [], ex_stderr = e, ex_requests = h\<rparr>"

definition verified :: "string \<Rightarrow> gh_request list \<Rightarrow> exit" where
  "verified name h = \<lparr>ex_code = 0, ex_stdout = ''releaseguard: '' @ name @ '' verified'' @ [CHR 0x0A], ex_stderr = [], ex_requests = h\<rparr>"

definition run_guard :: "outside \<Rightarrow> (string \<Rightarrow> string) \<Rightarrow> string list \<Rightarrow> exit" where
  "run_guard w getenv args =
     (case args of
        [name] \<Rightarrow>
          if name = ''verify-index'' then
            (case verify_index_file (at_sha (ou_attestation w)) (ou_files w) getenv of
               Inl e \<Rightarrow> failed 1 (''releaseguard: '' @ e @ [CHR 0x0A]) [] | Inr u \<Rightarrow> verified name [])
          else (case load_context getenv of
            Inl e \<Rightarrow> failed 2 (''releaseguard: invalid environment: '' @ e @ [CHR 0x0A]) []
          | Inr r \<Rightarrow>
              (case guard_command w r getenv name of
                 None \<Rightarrow> failed 2 usage_line []
               | Some m \<Rightarrow>
                   (case m [] of
                      (Inl e, h) \<Rightarrow> failed 1 (''releaseguard: '' @ e @ [CHR 0x0A]) h
                    | (Inr u, h) \<Rightarrow> verified name h)))
      | _ \<Rightarrow> failed 2 usage_line [])"

end
