(* ===== verification/ReleaseClaims.thy ===== *)
theory ReleaseClaims
  imports ReleaseImage ReleaseText ReleaseBundleFacts ReleaseCommand
begin

text \<open>
  The properties of the release guard: what its commands write and with which credential, which
  live state a reservation and a publication have seen, and what the checks of the image, the
  index, the bundle and the attestation decide.
\<close>

section \<open>The commands that succeed\<close>

lemma result_cases: "(case x of (Inl e, h') \<Rightarrow> True | (Inr a, h') \<Rightarrow> P a h') \<longleftrightarrow> (\<forall>a h'. x = (Inr a, h') \<longrightarrow> P a h')"
  by (auto split: prod.split sum.split)

lemma yields_check:
  "yields m h a h' \<Longrightarrow> sends (reading r) m \<Longrightarrow> \<exists>qs. h' = h @ qs"
  by (drule (1) yields_reads) blast

lemma written_outputs:
  "write_reservation_outputs v path i r = Inr c \<Longrightarrow>
     c = ''release_id='' @ int_text i @ [CHR 0x0A] @ ''oci_tag='' @ oci_tag r @ [CHR 0x0A] @
       ''reservation_attempt='' @ int_text (re_attempt r) @ [CHR 0x0A]"
  by (simp add: write_reservation_outputs_def bind_def split: sum.splits)

lemma yields_reserve:
  assumes "yields (reserve srv r out) h c h'"
  shows "\<exists>i hs. c = ''release_id='' @ int_text i @ [CHR 0x0A] @ ''oci_tag='' @ oci_tag r @ [CHR 0x0A] @
         ''reservation_attempt='' @ int_text (re_attempt r) @ [CHR 0x0A] \<and>
     h' = hs @ [release_request r i] \<and> live_exactly srv r i (reservation_body r) True False [] hs"
proof -
  obtain i hs w where w: "yields (get_release srv r i) hs w h'" "validate_release w i r (reservation_body r) True False [] = Inr ()"
    "write_reservation_outputs out (re_output r) i r = Inr c"
    using assms unfolding reserve_def yields_then yields_simps yields_prefix_error by blast
  note g = yields_get_release[OF w(1)]
  have "live_exactly srv r i (reservation_body r) True False [] hs"
    using g w(2) validate_release_iff[of "[]"] by (simp add: live_exactly_def)
  then show ?thesis using g written_outputs[OF w(3)] by blast
qed

lemma yields_publish:
  assumes "yields (publish srv r getenv tools view) h u h'"
  shows "\<exists>i b as hs. load_release_id getenv = Inr i \<and> load_binding r getenv = Inr b \<and>
     load_release_assets tools view r b getenv = Inr as \<and>
     live_exactly srv r i (bound_body r b) True False as hs \<and>
     live_exactly srv r i (bound_body r b) False True as (hs @ [release_request r i, publish_request r i b]) \<and>
     prefix h hs \<and> prefix (hs @ [release_request r i, publish_request r i b, release_request r i]) h'"
proof -
  obtain i b as h1 h2 h3 p h4 h5 h6 u1 u2 u3 u5 u6 where
    env: "load_release_id getenv = Inr i" "load_binding r getenv = Inr b" "load_release_assets tools view r b getenv = Inr as"
    and s: "yields (trust_reserved srv r) h u1 h1" "yields (require_image_binding srv r b) h1 u2 h2"
      "\<exists>e. yields (read_exact srv r i (bound_body r b) True False as e) h2 u3 h3"
      "\<exists>e. yields (patch_release srv r i (release_json r (bound_body r b) False (if re_prerelease r then ''false'' else ''true'')) e) h3 p h4"
      "\<exists>e. yields (read_exact srv r i (bound_body r b) False True as e) h4 u5 h5"
      "yields (trust_reserved srv r) h5 u6 h6" "yields (require_image_binding srv r b) h6 u h'"
    using assms unfolding publish_def yields_then yields_simps accept_exact_def by blast
  note d = release_asset_names[OF env(3), THEN conjunct1]
  have a: "h3 = h2 @ [release_request r i]" "live_exactly srv r i (bound_body r b) True False as h2"
    using s(3) yields_read_exact d by blast+
  have c: "h4 = h3 @ [publish_request r i b]" using s(4) yields_patch unfolding publish_request_def by blast
  have e: "h5 = h4 @ [release_request r i]" "live_exactly srv r i (bound_body r b) False True as h4"
    using s(5) yields_read_exact d by blast+
  have "prefix h h2" "prefix h5 h'"
    using yields_check[OF s(1)] yields_check[OF s(2)] yields_check[OF s(6)] yields_check[OF s(7)] reads_trust reads_checks
    by (metis append.right_neutral append.assoc prefixI)+
  then show ?thesis using env a c e by (intro exI[of _ i] exI[of _ b] exI[of _ as] exI[of _ h2]) simp
qed

section \<open>The attestation\<close>






section \<open>Credentials\<close>

text \<open>A request goes with the release token, or it reads with the policy token.\<close>

definition authorized :: "release \<Rightarrow> gh_request \<Rightarrow> bool" where
  "authorized r q \<longleftrightarrow> gr_token q = re_token r \<or> gr_token q = re_policy_token r \<and> \<not> writing q"

lemma authorized_reads: "sends (reading r) m \<Longrightarrow> sends (authorized r) m"
  by (erule sends_weaken) (auto simp: authorized_def reading_def writing_def)

lemma authorized_change [send_intros]: "sends (authorized r) (api_json srv (re_token r) meth path query input statuses)"
  by (auto simp: api_json_def authorized_def intro!: send_intros sends_send)

lemma authorized_upload [send_intros]: "sends (authorized r) (upload srv (re_token r) path query content)"
  by (auto simp: upload_def authorized_def intro!: sends_send)

lemmas authorized_checks [send_intros] = reads_trust[THEN authorized_reads] reads_checks[THEN authorized_reads]
  reads_release[THEN authorized_reads] reads_verify[THEN authorized_reads]

lemma authorized_upload_loop [send_intros]: "sends (authorized r) (upload_loop srv r i body uploaded as)"
  by (induction as arbitrary: uploaded) (auto intro!: send_intros simp del: append.simps)

lemma authorized_run:
  "sends (authorized r) (reserve srv r out)" "sends (authorized r) (bind_image srv r getenv)"
  "sends (authorized r) (verify_attestation srv r getenv att view now)"
  "sends (authorized r) (upload_assets srv r getenv tools view)" "sends (authorized r) (publish srv r getenv tools view)"
  unfolding reserve_def create_tag_def create_draft_def bind_image_def patch_release_def accept_exact_def verify_attestation_def
    upload_assets_def publish_def
  by (intro send_intros)+

lemma command_authorized: "guard_command w r getenv name = Some m \<Longrightarrow> sends (authorized r) m"
  unfolding guard_command_def Let_def verify_image_source_def
  by (auto intro!: send_intros authorized_run split: if_split_asm)

lemma sends_run: "sends P m \<Longrightarrow> m [] = (x, h) \<Longrightarrow> list_all P h"
  unfolding sends_def by (metis append_Nil snd_conv)

lemma loaded_tokens: "load_context getenv = Inr r \<Longrightarrow> re_token r \<noteq> re_policy_token r"
  by (auto simp: load_context_def load_tokens_def bind_def split: sum.splits prod.splits)

text \<open>Of a valid environment, with one of its two tokens; the policy token only reads.\<close>

definition within_privileges :: "(string \<Rightarrow> string) \<Rightarrow> gh_request \<Rightarrow> bool" where
  "within_privileges getenv q \<longleftrightarrow>
     (case load_context getenv of
        Inl e \<Rightarrow> False
      | Inr r \<Rightarrow> re_token r \<noteq> re_policy_token r \<and>
          (gr_token q = re_token r \<or> gr_token q = re_policy_token r \<and> \<not> writing q))"

section \<open>Properties\<close>

text \<open>
  C8: Whatever the server answers, a command of the release guard changes the remote state only by
  its own requests, in order, each at most once, and when it succeeds all of them have been
  sent: reserve creates the tag of the source revision and then the draft; bind and publish are one
  PATCH of the numbered release; upload posts the local assets one after the other; the
  verifying commands change nothing.
\<close>

theorem guard_writes:
  "writes [tag_request r, draft_request r] (reserve srv r out) \<and>
   writes [] (verify_reserved srv r getenv) \<and>
   writes (case (load_release_id getenv, load_binding r getenv) of (Inr i, Inr b) \<Rightarrow> [bind_request r i b] | _ \<Rightarrow> [])
     (bind_image srv r getenv) \<and>
   writes [] (verify_bound srv r getenv) \<and>
   writes [] (verify_attestation srv r getenv att view now) \<and>
   writes (case (load_release_id getenv, load_binding r getenv) of
       (Inr i, Inr b) \<Rightarrow> (case load_release_assets tools view r b getenv of Inr as \<Rightarrow> map (upload_request r i) as | _ \<Rightarrow> [])
     | _ \<Rightarrow> []) (upload_assets srv r getenv tools view) \<and>
   writes (case (load_release_id getenv, load_binding r getenv) of
       (Inr i, Inr b) \<Rightarrow> (case load_release_assets tools view r b getenv of Inr as \<Rightarrow> [publish_request r i b] | _ \<Rightarrow> [])
     | _ \<Rightarrow> []) (publish srv r getenv tools view)"
proof -
  have "sends (reading r) (verify_attestation srv r getenv att view now)"
    unfolding verify_attestation_def by (intro send_intros)
  then show ?thesis
    by (intro conjI writes_reserve writes_bind writes_upload_assets writes_publish reads_verify[THEN reads_nothing] reads_nothing[of r])
qed

text \<open>
  C10: Whatever the environment, the arguments and the server are, every request of a run carries
  one of the two credentials of a valid environment, which are different, and one that could
  change anything never carries the policy token; in an invalid environment nothing is sent.
\<close>

theorem guard_credentials: "list_all (within_privileges getenv) (ex_requests (run_guard w getenv args))"
proof (cases "load_context getenv")
  case (Inr r)
  have "list_all (within_privileges getenv) h" if m: "guard_command w r getenv name = Some m" "m [] = (x, h)" for name m x h
  proof -
    have "sends (authorized r) m" using m(1) by (rule command_authorized)
    then have "list_all (authorized r) h" using m(2) by (rule sends_run)
    moreover have "within_privileges getenv q" if "authorized r q" for q
      using that loaded_tokens[OF Inr] Inr by (auto simp: within_privileges_def authorized_def)
    ultimately show ?thesis by (auto simp: list_all_iff)
  qed
  then show ?thesis using Inr
    by (auto simp: run_guard_def failed_def verified_def split: list.split sum.split option.split prod.split)
qed (auto simp: run_guard_def failed_def verified_def split: list.split sum.split)

text \<open>
  C28: The comparison of a live release accepts exactly the release that is meant: identity, tag,
  title, body and flags are those expected, and the assets are those expected as a multiset of
  name, state, size and digest, with positive ids that are all different.
\<close>

theorem release_compared:
  assumes "distinct (map la_name as)"
  shows "validate_release w i r body draft immutable as = Inr () \<longleftrightarrow> exact_release w i r body draft immutable as"
  using assms by (rule validate_release_iff)

definition sample_release :: release where
  "sample_release = \<lparr>re_repository = ''d/n'', re_repository_id = 5, re_owner_id = 6, re_tag = ''v1.2.3'', re_version = ''1.2.3'',
     re_prerelease = False, re_sha = ''ab'', re_run = 8, re_attempt = 1, re_package = ''n'', re_output = ''/o'', re_token = ''t'',
     re_policy_token = ''p''\<rparr>"

definition sample_asset :: "int \<Rightarrow> string \<Rightarrow> release_asset" where
  "sample_asset i n = \<lparr>ra_id = Some i, ra_name = Some n, ra_state = Some ''uploaded'', ra_size = Some 4, ra_digest = Some ''d''\<rparr>"

definition sample_local :: "string \<Rightarrow> local_asset" where
  "sample_local n = \<lparr>la_name = n, la_size = 4, la_digest = ''d'', la_data = ''data''\<rparr>"

definition sample_wire :: release_wire where
  "sample_wire = \<lparr>rw_id = Some 7, rw_tag = Some ''v1.2.3'', rw_target = Some ''main'', rw_name = Some (release_title sample_release),
     rw_body = Some ''b'', rw_draft = Some True, rw_prerelease = Some False, rw_immutable = Some False,
     rw_assets = Some ([sample_asset 3 ''x'', sample_asset 2 ''y''], 2)\<rparr>"

lemma release_compared_witness:
  "validate_release sample_wire 7 sample_release ''b'' True False [sample_local ''y'', sample_local ''x''] = Inr () \<and>
   validate_release sample_wire 7 sample_release ''b'' True False [sample_local ''y'', sample_local ''z''] \<noteq> Inr ()"
  using release_compared[of "[sample_local ''y'', sample_local ''x'']" sample_wire 7 sample_release "''b''" True False]
    release_compared[of "[sample_local ''y'', sample_local ''z'']" sample_wire 7 sample_release "''b''" True False]
  by (simp add: exact_release_def exact_assets_def positive_id_def asset_facts_def local_facts_def items_def sample_wire_def
      sample_asset_def sample_local_def sample_release_def release_title_def add_eq_conv_ex)

text \<open>
  C9: A publication that succeeds has read the exact, complete, bound draft immediately before its
  one PATCH, and immediately after it the same release, published and immutable, with the same assets.
\<close>

theorem publish_exact:
  "case publish srv r getenv tools view h of
     (Inl e, h') \<Rightarrow> True
   | (Inr u, h') \<Rightarrow>
       (\<exists>i b as hs. load_release_id getenv = Inr i \<and> load_binding r getenv = Inr b \<and>
          load_release_assets tools view r b getenv = Inr as \<and>
          live_exactly srv r i (bound_body r b) True False as hs \<and>
          live_exactly srv r i (bound_body r b) False True as (hs @ [release_request r i, publish_request r i b]) \<and>
          prefix h hs \<and> prefix (hs @ [release_request r i, publish_request r i b, release_request r i]) h')"
  unfolding result_cases using yields_publish unfolding yields_def by blast

text \<open>
  A reservation that succeeds has written the id of a draft to the output of the workflow step
  that the server, at the last request, reported as the exact, empty draft of this invocation.
\<close>

theorem reserve_exact:
  "case reserve srv r out h of
     (Inl e, h') \<Rightarrow> True
   | (Inr c, h') \<Rightarrow>
       (\<exists>i hs. c = ''release_id='' @ int_text i @ [CHR 0x0A] @ ''oci_tag='' @ oci_tag r @ [CHR 0x0A] @
            ''reservation_attempt='' @ int_text (re_attempt r) @ [CHR 0x0A] \<and>
          h' = hs @ [release_request r i] \<and> live_exactly srv r i (reservation_body r) True False [] hs)"
  unfolding result_cases using yields_reserve unfolding yields_def by blast

text \<open>
  C11: The image check passes exactly when the server lists at most twenty pages, each but the last
  announcing the next one and not empty, whose versions are complete, all different, without empty,
  repeated or forbidden tags, and exactly one of which carries the registry tag of the invocation,
  as its only tag and with the digest that is being released.
\<close>

theorem image_bound_once:
  "runs (require_image_binding srv r b) h \<longleftrightarrow>
     (\<exists>ps ts. length ps \<le> 20 \<and> served_pages srv r h 1 ps \<and> map complete_version (concat ps) = map Some ts \<and> bound_once r b ts)"
  by (rule bound_pages_iff)

text \<open>
  C33: The body of a draft identifies the reservation: two invocations whose drafts have the same
  body are the same run and attempt of the same revision, tag and repository, in the same state,
  bound to the same image or not bound.
\<close>

theorem body_identifies:
  assumes "draft_body r ob = draft_body r' ob'" "plain r ob" "plain r' ob'"
  shows "marker r ob = marker r' ob'"
  using assms by (rule draft_body_inject)

lemma body_identifies_witness:
  "marker sample_release (Some \<lparr>bi_digest = ''d'', bi_attestation = 3, bi_url = ''u'', bi_attempt = 1\<rparr>) =
   marker (sample_release\<lparr>re_token := ''s''\<rparr>) (Some \<lparr>bi_digest = ''d'', bi_attestation = 3, bi_url = ''u'', bi_attempt = 1\<rparr>)"
  by (rule body_identifies)
     (simp_all add: draft_body_def bound_body_def marker_line_def marker_def oci_tag_def plain_def sample_release_def ascii_def cbyte_def)

text \<open>
  The tag parser accepts exactly the texts of the grammar: a v, three canonical numbers and any
  non-empty prerelease identifiers of letters, digits and hyphens, the numeric ones canonical, within
  96 bytes; it returns the text after the v and whether there is a prerelease.
\<close>

theorem semver_tag_exact:
  "parse_semver_tag tag = Inr (v, pre) \<longleftrightarrow> (\<exists>core ids. semver_tag core ids tag \<and> v = version_text core ids \<and> pre = (ids \<noteq> []))"
  by (rule semver_iff)

text \<open>
  C29: The index check accepts exactly an index of the supported envelope whose descriptors all have
  a role and different digests: one image for each of the four platforms, and one attestation
  for each of these images.
\<close>

theorem index_topology_exact:
  "verify_index payload = Inr () \<longleftrightarrow>
     (\<exists>doc ms. decode_index payload = Some doc \<and> oc_schema doc = Some 2 \<and> oc_media doc = Some index_media \<and>
        oc_manifests doc = Some ms \<and> exact_topology (items ms))"
  by (rule verify_index_iff)

text \<open>
  C30: A Compose bundle that is accepted is one gzip member with nothing behind it, within the
  expansion bound, whose archive has exactly the nine members of this release, each once, with
  root's ownership, the reviewed modes and the reviewed contents pinned to this image.
\<close>

theorem bundle_exact:
  "case verify_bundle t r b compressed of
     Inl e \<Rightarrow> True
   | Inr u \<Rightarrow>
       (\<exists>gz. bt_gunzip t compressed = Some gz \<and> gz_rest gz = 0 \<and> length (gz_text gz) \<le> max_expanded_bundle \<and>
          release_bundle (bt_sha t) r b (tw_members (bt_untar t (gz_text gz) True)))"
  using verify_bundle_release by (fastforce split: sum.split)

text \<open>
  C31: The certificate check accepts exactly a signing certificate of the expected issuer and
  workflow that is valid at the time of the log entry and whose fifteen identity claims are those
  of this run, each there once.
\<close>

theorem certificate_exact:
  "verify_certificate t c r now = Inr () \<longleftrightarrow>
     ce_not_before c \<le> now \<and> now \<le> ce_not_after c \<and> ce_signs c \<and> ce_key c \<noteq> None \<and> 3 \<in> set (ce_usages c) \<and>
     ce_organizations c = [''sigstore.dev''] \<and> ce_uris c = [workflow_identity r] \<and>
     claims_exact (at_asn1 t) (expected_claims r) (ce_extensions c)"
  by (rule verify_certificate_iff)


end
