(* ===== verification/Spec2Isabelle.thy ===== *)
theory Spec2Isabelle
  imports UpsEvidence InformCodec ReceiptFacts ConnectionLimit GatewayStart NetLinkFacts NetExchangeFacts MainCommand ReleaseClaims
begin

text \<open>
  A verification development of the NUT to UniFi UPS gateway: a Go daemon that reads a UPS from
  a NUT server and shows it to a UniFi controller as a power device.

  \<^bold>\<open>How the program hangs together.\<close>  A poll opens a TCP connection to \<open>upsd\<close>, logs in, reads
  \<open>LIST VAR\<close> within bounds (\<open>internal/nut\<close>) and maps the variables to a typed observation with
  outlets, relay groups, measurements and issue codes (\<open>internal/model\<close>).  An inform projects the
  last observation with the configuration and the persistent identity to a report
  (\<open>internal/gateway/project.go\<close>), builds its JSON payload (\<open>internal/unifi/inform/uspda2c.go\<close>),
  seals it in a TNBU packet under the adoption key (\<open>codec.go\<close>), exchanges it with the
  controller (\<open>internal/gateway/controller.go\<close>), opens the answer, refuses replays, classifies
  receipts, applies the rest transactionally to the adoption state (\<open>adoption.go\<close>), confines it
  when it came over plain HTTP, and commits: the state file first (\<open>internal/state\<close>), then the
  process.  A monitor (\<open>internal/health\<close>) shows what happened.  Besides, the gateway broadcasts
  discovery announcements (\<open>internal/unifi/discovery\<close>).  A second daemon, the address agent
  (\<open>internal/netagent\<close>), prepares the macvlan interface, obtains an address by DHCP or takes a
  static one, and publishes it in a status file that the gateway reads before every send.
  A third program, the release guard (\<open>internal/releaseguard\<close>, \<open>cmd/releaseguard\<close>), runs once per
  step of the release workflow: it checks the live policies of the repository on GitHub, reserves
  the version by a draft, binds the image that was built to the draft after checking its index and
  its attestation, uploads the two files of the release, and publishes the draft.

  \<^bold>\<open>Theories.\<close>  The library below the program:
  \<^item> \<open>Prelude\<close>: results (\<open>Inl\<close> an error), \<open>guard\<close> and \<open>bind\<close> for early returns, the collections
    \<open>valid_simps\<close>, \<open>result_elims\<close>, \<open>inv_intros\<close>.
  \<^item> \<open>GoStrings\<close>, \<open>GoText\<close>, \<open>GoNet\<close>, \<open>GoBytes\<close>, \<open>GoAddr\<close>: what the program uses of \<open>strings\<close>,
    \<open>strconv\<close>, \<open>unicode/utf8\<close>, \<open>net\<close>, \<open>net/netip\<close>, \<open>net/url\<close>, \<open>encoding/hex\<close> and
    \<open>encoding/binary\<close>.  A Go string is its list of bytes.
  \<^item> \<open>GoFloat\<close>, \<open>FloatText\<close>: binary64 as correctly rounded rationals, \<open>ParseFloat\<close>, and printing.
  \<^item> \<open>Json\<close>, \<open>JsonPrint\<close>: \<open>encoding/json\<close>: the scanner on fuel bounded by the length of the text
    (every step consumes a character, so the fuel always suffices), names folded as the decoder
    does, and \<open>Marshal\<close> and \<open>MarshalIndent\<close> with the proof that what is printed is parsed back.
  \<^item> \<open>BoundedWindow\<close>: the interface \<open>bounded_window\<close> of a replay window, interpreted on the
    receipts (\<open>ReceiptFacts\<close>) and on the nonce ring of the gateway (\<open>Replay\<close>);
    \<open>GoBytes.sequence_counter\<close>, the interface of a nonce source, interpreted in \<open>InformCodec\<close>.

  The program, one theory per part:
  \<^item> \<open>Diagnostic\<close>: \<open>internal/diagnostic\<close>, the closed codes and the classification of errors.
  \<^item> \<open>NutParser\<close>, \<open>NutClient\<close>: \<open>internal/nut\<close>.  A connection is the bytes the server sends and the
    bytes written; the read loops are bounded by the item and byte limits of the configuration,
    so they need no fuel of their own.
  \<^item> \<open>UpsModel\<close> with \<open>UpsTopology\<close>, \<open>UpsFacts\<close>, \<open>UpsEvidence\<close>: \<open>internal/model\<close>.
  \<^item> \<open>InformCodec\<close>: \<open>codec.go\<close>; \<open>Adoption\<close>: \<open>adoption.go\<close>; \<open>Receipts\<close>, \<open>ReceiptFacts\<close>: the receipt
    and firmware classifiers of \<open>inform\<close>, \<open>internal/unifi/firmware\<close> and the receipts of \<open>internal/state\<close>;
    \<open>DeviceProfile\<close>, \<open>Payload\<close>: the two halves of \<open>uspda2c.go\<close>.
  \<^item> \<open>StateStore\<close>, \<open>StateFacts\<close>: \<open>internal/state/state.go\<close>.  A write is its sequence of system
    calls; any of them may fail, and the machine may stop between any two.
  \<^item> \<open>Config\<close>: \<open>internal/config\<close>; \<open>Project\<close>: \<open>project.go\<close>; \<open>Trust\<close>: \<open>controller.go\<close> and the
    confinement of \<open>gateway.go\<close>; \<open>LocalNetwork\<close>: \<open>network.go\<close> and the checks of
    \<open>internal/netconfig\<close>; \<open>Replay\<close>: the replay window of \<open>gateway.go\<close>; \<open>Health\<close>,
    \<open>ConnectionLimit\<close>: \<open>internal/health\<close>.
  \<^item> \<open>Gateway\<close>: the record \<open>gateway\<close> is the struct \<open>Gateway\<close> with its private files;
    \<open>poll_once\<close>, \<open>inform_once\<close> and \<open>cycle\<close> are \<open>PollOnce\<close>, \<open>InformOnce\<close> and \<open>Cycle\<close>;
    \<open>new_gateway\<close> is \<open>New\<close>.  \<open>InformOnce\<close> is cut where its result is decided: \<open>exchange_once\<close>,
    \<open>handle_response\<close> (replays), \<open>accept_response\<close> (receipts), \<open>apply_and_commit\<close>,
    \<open>next_state\<close> and \<open>commit\<close>.
  \<^item> \<open>Discovery\<close>, \<open>DiscoveryFacts\<close>: \<open>packet.go\<close>, the record \<open>announcement\<close>, its datagram and the
    parser; \<open>DiscoveryService\<close>, \<open>DiscoveryRuns\<close>: both fingerprints and the announcer and responder
    of \<open>service.go\<close>; \<open>GatewayDiscovery\<close>: \<open>discoveryAnnouncement\<close> and a turn of its loop.
  \<^item> \<open>GatewayFacts\<close>, \<open>GatewayRuns\<close>, \<open>GatewayStart\<close>: what every step keeps, the step relations
    \<open>runs\<close> and \<open>session\<close> over polls, informs and announcements, and what the construction
    establishes; \<open>GatewayDaemon\<close>: the workers of \<open>Run\<close> as the step relation \<open>daemon_run\<close>, which
    refines \<open>runs\<close>.
  \<^item> \<open>Dhcp\<close>, \<open>DhcpFacts\<close>: \<open>dhcp.go\<close> and the frames of \<open>link_linux.go\<close>; \<open>NetLink\<close>,
    \<open>NetLinkFacts\<close>: the rest of \<open>link_linux.go\<close> with \<open>aux_linux.go\<close>, from the netlink attributes to
    the preparation of the interface; \<open>NetAgent\<close>: the owner of the address and the ARP probe of
    \<open>run_linux.go\<close>; \<open>NetRun\<close>: one turn of the DHCP loop, cut at its early exits, and the step
    relation \<open>dhcp_run\<close>; \<open>NetRunFacts\<close>, \<open>NetExchangeFacts\<close>: the properties of its runs, of the
    probe and of the messages.
  \<^item> \<open>GoTime\<close>: the calendar and the RFC 3339 text of a time, printed and parsed back; \<open>StatusFile\<close>:
    the text of a status as the agent writes it and \<open>ReadStatus\<close>; \<open>ManagedRun\<close>: \<open>managed.go\<close>, the
    watcher of the file and the loop that starts the gateway again; \<open>MainCommand\<close>: the two \<open>main\<close>
    packages.

  The release guard, where a command (\<open>ReleaseApi\<close>) is a function of the requests sent before it
  to its result and the requests sent after it, and the server is any function of the history:
  \<^item> \<open>JsonDecode\<close>: \<open>json.Unmarshal\<close> into structs of pointers, slices and maps, and the check for
    repeated keys; \<open>ReleaseContext\<close>: \<open>context.go\<close>, the environment of one invocation;
    \<open>ReleaseApi\<close>: \<open>client.go\<close>, one bounded exchange.
  \<^item> \<open>ReleasePolicy\<close>, \<open>ReleaseChecks\<close>: \<open>policy.go\<close>, the checks of branch, repository, workflow,
    releases, tag and package; \<open>ReleaseFiles\<close>: the files of the runner, whose system calls answer
    as given; \<open>ReleaseAssets\<close>: \<open>assets.go\<close>; \<open>ReleaseMachine\<close>: \<open>release.go\<close>, from \<open>reserve\<close> to
    \<open>publish\<close>; \<open>ReleaseIndex\<close>: \<open>oci.go\<close>; \<open>ReleaseAttestation\<close>, \<open>ReleaseBundle\<close>:
    \<open>attestation.go\<close>; \<open>ReleaseCommand\<close>: \<open>cmd/releaseguard\<close>.
  \<^item> \<open>ReleaseFacts\<close>: which requests a command may send (\<open>sends\<close>) and which of them write, in which
    order (\<open>writes\<close>); \<open>ReleaseState\<close>: which live state its checks have seen (\<open>yields\<close>);
    \<open>ReleaseImage\<close>: the pages of the package; \<open>ReleaseText\<close>: the version tag and the body of the
    draft; \<open>ReleaseBundleFacts\<close>: the certificate and the bundle; \<open>ReleaseClaims\<close>: the properties.

  \<^bold>\<open>What the lemmas show.\<close>  For the client: bounds on what is read, exact reading of a served
  list, credentials that cannot be split into other commands.  For the model: well-formed
  topology, measurements backed by the variables, availability and status on every branch.
  For the codec: round trip in both modes, soundness of the decoder, distinct nonces.  For
  adoption: a response is applied as a whole or not at all, GCM is one way.  For the store:
  atomic writes, exact round trip, a stable identity.  For receipts: canonical versions,
  injective contexts, replay protection.  For the gateway: the invariant over every
  interleaving of polls, informs and announcements, atomic informs, no replay within 128
  acceptances, and a device that plain HTTP cannot move.  For discovery: the datagram is read
  back, responders never loop, sequence numbers increase on the wire, and no key is sent.  For
  the agent: the interface's own routes and addresses only are touched, a lease comes from a
  checked acknowledgement of a probed address, and what is published is accepted by the
  gateway's reader and never outlives the lease.  The probe ends within seven seconds and six
  times the longest turn, whatever is received.  Between agent and gateway: what the one writes the
  other reads, and the watcher keeps a gateway only while the agent holds an unended lease of its
  address.  For the release guard: which writes each command
  makes and in which order, which credential goes with which request, what a publication has
  compared before it writes, and that the checks of the tag, the draft's body, the index, the
  image's registry tag, the bundle, the certificate and the attestation decide exactly what they
  are meant to.

  \<^bold>\<open>Parameters.\<close>  SHA-256, HMAC, AES and GCM are arguments (\<open>primitives\<close>, \<open>crypto\<close>); what a
  theorem needs of them is the named hypothesis \<open>crypto_ok\<close>, that opening inverts sealing and
  decrypting inverts encrypting.  Random bytes, the clock, the resolver, the interface list, the
  network status file, the HTTP client and the faults of system calls are inputs of a step; so is
  \<open>time.Parse\<close> for the texts that do not have the exact form of RFC 3339.  For the
  release guard also the readers of gzip and tar, of PEM, ASN.1 and X.509 with the check of a
  signature, what the file calls answer, and GitHub.  Its lists have at most twenty pages, which
  is the bound of the source's loops.

  \<^bold>\<open>Not modelled.\<close>  The timers of \<open>Run\<close> (a worker's step may come at any time; the mutexes make
  each poll, inform and announcement one step), logging, signals, sockets and deadlines, and the
  construction of the HTTP clients, of the release guard with its fixed origins and of the health
  check.  Of the agent, the netlink and packet sockets: the bytes of a request are built and the
  reports are parsed, the kernel's verdicts are inputs of a step; integers in netlink messages are
  little endian.
\<close>

end
